(* ===== verification/Prelude.thy ===== *)
theory Prelude
  imports Main "HOL-Library.Word"
begin

text \<open>
  Shared vocabulary of the development: C integer widths, the C library's block
  operations on byte arrays, and two interfaces the components have in common.
  \<^item> \<open>memcpy\<close>, \<open>memset\<close> and \<open>memcmp\<close> on arrays as lists, with \<open>nth\<close> lemmas.
  \<^item> The locale \<open>slotwise\<close>: a \<open>for\<close> loop over array slots whose body reads and writes its
    own slot only. Its lemmas describe the whole loop slot by slot.
  \<^item> The locale \<open>invariant_machine\<close>: operations that each keep an invariant; its lemma
    lifts the invariant to any sequence of operations.
\<close>

section \<open>C integers\<close>

type_synonym u8 = "8 word"
type_synonym u16 = "16 word"
type_synonym u32 = "32 word"

lemma distinct_u16_length: "distinct (xs :: u16 list) \<Longrightarrow> length xs \<le> 65536"
  using card_mono[of "UNIV :: u16 set" "set xs"] by (simp add: distinct_card card_word)

section \<open>Block operations on arrays\<close>

text \<open>
  An array is a list. The three functions are the C library's, for the calls in which both
  blocks lie inside their arrays: \<open>memcpy_at dst off src n\<close> writes \<open>n\<close> elements of \<open>src\<close> at
  offset \<open>off\<close>, \<open>memset_at dst off v n\<close> fills, \<open>memcmp_eq\<close> is \<open>memcmp(...) == 0\<close>.
\<close>

definition memcpy_at :: "'a list \<Rightarrow> nat \<Rightarrow> 'a list \<Rightarrow> nat \<Rightarrow> 'a list" where
  "memcpy_at dst off src n = take off dst @ take n src @ drop (off + n) dst"

definition memset_at :: "'a list \<Rightarrow> nat \<Rightarrow> 'a \<Rightarrow> nat \<Rightarrow> 'a list" where
  "memset_at dst off v n = take off dst @ replicate n v @ drop (off + n) dst"

definition memcmp_eq :: "'a list \<Rightarrow> 'a list \<Rightarrow> nat \<Rightarrow> bool" where
  "memcmp_eq a b n \<longleftrightarrow> take n a = take n b"

lemma length_memcpy_at [simp]:
  "n \<le> length src \<Longrightarrow> off + n \<le> length dst \<Longrightarrow> length (memcpy_at dst off src n) = length dst"
  by (simp add: memcpy_at_def)

lemma length_memset_at [simp]:
  "off + n \<le> length dst \<Longrightarrow> length (memset_at dst off v n) = length dst"
  by (simp add: memset_at_def)

lemma nth_memcpy_at [simp]:
  assumes "n \<le> length src" "off + n \<le> length dst" "i < length dst"
  shows "memcpy_at dst off src n ! i = (if off \<le> i \<and> i < off + n then src ! (i - off) else dst ! i)"
  using assms by (auto simp: memcpy_at_def nth_append)

lemma nth_memset_at [simp]:
  assumes "off + n \<le> length dst" "i < length dst"
  shows "memset_at dst off v n ! i = (if off \<le> i \<and> i < off + n then v else dst ! i)"
  using assms by (auto simp: memset_at_def nth_append)

lemma memcpy_at_0_full: "length src = n \<Longrightarrow> length dst = n \<Longrightarrow> memcpy_at dst 0 src n = src"
  by (simp add: memcpy_at_def)

lemma memset_at_0_full: "length dst = n \<Longrightarrow> memset_at dst 0 v n = replicate n v"
  by (simp add: memset_at_def)

lemma memcmp_eq_nth:
  "memcmp_eq a b n \<Longrightarrow> n \<le> length a \<Longrightarrow> n \<le> length b \<Longrightarrow> i < n \<Longrightarrow> a ! i = b ! i"
  unfolding memcmp_eq_def by (metis nth_take)

section \<open>Loops over array slots\<close>

text \<open>
  The contract of a loop body \<open>step\<close>: run on slot \<open>i\<close> it keeps the arrays well formed (\<open>ok\<close>),
  leaves every other slot alone, and what it leaves in slot \<open>i\<close> depends only on what slot
  \<open>i\<close> held. The client lemma \<open>fold_view\<close> then reads the whole loop \<open>for (i = a; i < b; ++i)\<close>
  one slot at a time.
\<close>

locale slotwise =
  fixes step :: "nat \<Rightarrow> 's \<Rightarrow> 's"
    and view :: "'s \<Rightarrow> nat \<Rightarrow> 'v"
    and ok :: "'s \<Rightarrow> bool"
    and bound :: nat
  assumes step_ok: "i < bound \<Longrightarrow> ok s \<Longrightarrow> ok (step i s)"
    and step_frame: "i < bound \<Longrightarrow> ok s \<Longrightarrow> j \<noteq> i \<Longrightarrow> view (step i s) j = view s j"
    and step_local:
      "i < bound \<Longrightarrow> ok s \<Longrightarrow> ok t \<Longrightarrow> view s i = view t i \<Longrightarrow>
       view (step i s) i = view (step i t) i"
begin

lemma fold_ok: "b \<le> bound \<Longrightarrow> ok s \<Longrightarrow> ok (fold step [a..<b] s)"
proof (induction b)
  case 0
  then show ?case by simp
next
  case (Suc b)
  then show ?case by (cases "a \<le> b") (auto simp: upt_Suc intro: step_ok)
qed

lemma fold_view:
  "b \<le> bound \<Longrightarrow> ok s \<Longrightarrow>
   view (fold step [a..<b] s) j = (if a \<le> j \<and> j < b then view (step j s) j else view s j)"
proof (induction b arbitrary: j)
  case 0
  then show ?case by simp
next
  case (Suc b)
  let ?t = "fold step [a..<b] s"
  have okt: "ok ?t" using Suc.prems by (simp add: fold_ok)
  show ?case
  proof (cases "a \<le> b")
    case False
    then show ?thesis by auto
  next
    case True
    then have unfold: "fold step [a..<Suc b] s = step b ?t" by (simp add: upt_Suc)
    show ?thesis
    proof (cases "j = b")
      case True
      have "view ?t b = view s b" using Suc.IH[of b] Suc.prems by simp
      then have "view (step b ?t) b = view (step b s) b"
        by (intro step_local) (use Suc.prems okt in auto)
      then show ?thesis using True \<open>a \<le> b\<close> unfold by simp
    next
      case False
      have "view (step b ?t) j = view ?t j"
        by (intro step_frame) (use False Suc.prems okt in auto)
      also have "\<dots> = (if a \<le> j \<and> j < b then view (step j s) j else view s j)"
        using Suc.IH[of j] Suc.prems by simp
      finally show ?thesis using False unfold by auto
    qed
  qed
qed

lemma fold_view_in: "b \<le> bound \<Longrightarrow> ok s \<Longrightarrow> a \<le> j \<Longrightarrow> j < b \<Longrightarrow>
    view (fold step [a..<b] s) j = view (step j s) j"
  by (simp add: fold_view)

lemma fold_view_out: "b \<le> bound \<Longrightarrow> ok s \<Longrightarrow> \<not> (a \<le> j \<and> j < b) \<Longrightarrow>
    view (fold step [a..<b] s) j = view s j"
  by (simp only: fold_view if_False)

end

section \<open>Operations that keep an invariant\<close>

locale invariant_machine =
  fixes exec :: "'op \<Rightarrow> 's \<Rightarrow> 's"
    and inv :: "'s \<Rightarrow> bool"
    and allowed :: "'op \<Rightarrow> bool"
  assumes exec_inv: "inv s \<Longrightarrow> allowed c \<Longrightarrow> inv (exec c s)"
begin

lemma run_inv: "inv s \<Longrightarrow> list_all allowed cs \<Longrightarrow> inv (fold exec cs s)"
  by (induction cs arbitrary: s) (auto intro: exec_inv)

end

section \<open>Folds\<close>

lemma fold_invariant_set:
  "P s \<Longrightarrow> (\<And>x s. x \<in> set xs \<Longrightarrow> P s \<Longrightarrow> P (f x s)) \<Longrightarrow> P (fold f xs s)"
  by (induction xs arbitrary: s) auto

end
