(* ===== verification/EtcPal.thy ===== *)
theory EtcPal
  imports Prelude
begin

text \<open>
  What the sACN library uses of EtcPal, which is not part of this repository. Nothing here is
  a definition of EtcPal's code: its containers are parameters of the model. A component
  that keeps an \<open>EtcPalRbTree\<close> takes a record \<open>rbtree_ops\<close> of the tree's operations as an
  argument, and its theorems assume \<open>rbtree_laws\<close>, the behaviour EtcPal documents: an ordered
  set of keys with unique entries, iterated in ascending order, whose insertion can fail for
  lack of memory and then changes nothing. The trees hold pointers to structs compared by a
  key field; the model keeps the keys in the tree and the structs in a store indexed by key.
\<close>

section \<open>Error codes\<close>

text \<open>The values of \<open>etcpal_error_t\<close> the modelled code returns or tests.\<close>

datatype etcpal_error =
    kEtcPalErrOk
  | kEtcPalErrNotFound
  | kEtcPalErrNoMem
  | kEtcPalErrInvalid
  | kEtcPalErrNotInit
  | kEtcPalErrExists
  | kEtcPalErrNoNetints
  | kEtcPalErrWouldBlock
  | kEtcPalErrSys
  | kEtcPalErrNotImpl

section \<open>Red-black trees\<close>

text \<open>
  \<open>rb_insert R alloc_ok t k\<close>: \<open>alloc_ok\<close> says whether the node allocation callback succeeds.
  \<open>rb_iter R t\<close> is the sequence of entries that \<open>etcpal_rbiter_first\<close> and
  \<open>etcpal_rbiter_next\<close> go through.
\<close>

record ('k, 't) rbtree_ops =
  rb_init :: "'t"
  rb_find :: "'t \<Rightarrow> 'k \<Rightarrow> bool"
  rb_size :: "'t \<Rightarrow> nat"
  rb_iter :: "'t \<Rightarrow> 'k list"
  rb_insert :: "bool \<Rightarrow> 't \<Rightarrow> 'k \<Rightarrow> etcpal_error \<times> 't"
  rb_remove :: "'t \<Rightarrow> 'k \<Rightarrow> etcpal_error \<times> 't"
  rb_clear :: "'t \<Rightarrow> etcpal_error \<times> 't"

text \<open>The documented behaviour, for trees that satisfy the library's own well-formedness \<open>wft\<close>.\<close>

definition rb_query_laws :: "('k::linorder, 't) rbtree_ops \<Rightarrow> 't \<Rightarrow> bool" where
  "rb_query_laws R t \<longleftrightarrow>
     sorted (rb_iter R t) \<and> distinct (rb_iter R t) \<and>
     rb_size R t = length (rb_iter R t) \<and>
     (\<forall>k. rb_find R t k \<longleftrightarrow> k \<in> set (rb_iter R t))"

definition rb_insert_laws :: "('k, 't) rbtree_ops \<Rightarrow> ('t \<Rightarrow> bool) \<Rightarrow> 't \<Rightarrow> 'k \<Rightarrow> bool" where
  "rb_insert_laws R wft t k \<longleftrightarrow>
     (\<forall>ok. wft (snd (rb_insert R ok t k)) \<and>
        (k \<in> set (rb_iter R t) \<longrightarrow> rb_insert R ok t k = (kEtcPalErrExists, t)) \<and>
        (k \<notin> set (rb_iter R t) \<longrightarrow> \<not> ok \<longrightarrow> rb_insert R ok t k = (kEtcPalErrNoMem, t)) \<and>
        (k \<notin> set (rb_iter R t) \<longrightarrow> ok \<longrightarrow>
           fst (rb_insert R ok t k) = kEtcPalErrOk \<and>
           set (rb_iter R (snd (rb_insert R ok t k))) = insert k (set (rb_iter R t))))"

definition rb_remove_laws :: "('k, 't) rbtree_ops \<Rightarrow> ('t \<Rightarrow> bool) \<Rightarrow> 't \<Rightarrow> 'k \<Rightarrow> bool" where
  "rb_remove_laws R wft t k \<longleftrightarrow>
     wft (snd (rb_remove R t k)) \<and>
     (k \<notin> set (rb_iter R t) \<longrightarrow> rb_remove R t k = (kEtcPalErrNotFound, t)) \<and>
     (k \<in> set (rb_iter R t) \<longrightarrow>
        fst (rb_remove R t k) = kEtcPalErrOk \<and>
        set (rb_iter R (snd (rb_remove R t k))) = set (rb_iter R t) - {k})"

definition rbtree_laws :: "('k::linorder, 't) rbtree_ops \<Rightarrow> ('t \<Rightarrow> bool) \<Rightarrow> bool" where
  "rbtree_laws R wft \<longleftrightarrow>
     wft (rb_init R) \<and> rb_iter R (rb_init R) = [] \<and>
     (\<forall>t. wft t \<longrightarrow>
        rb_query_laws R t \<and>
        (\<forall>k. rb_insert_laws R wft t k \<and> rb_remove_laws R wft t k) \<and>
        wft (snd (rb_clear R t)) \<and> fst (rb_clear R t) = kEtcPalErrOk \<and>
        rb_iter R (snd (rb_clear R t)) = [])"

text \<open>The laws as rules.\<close>

lemma rb_init_wf: "rbtree_laws R wft \<Longrightarrow> wft (rb_init R)"
  and rb_init_iter: "rbtree_laws R wft \<Longrightarrow> rb_iter R (rb_init R) = []"
  by (simp_all add: rbtree_laws_def)

lemma rb_find_iff: "rbtree_laws R wft \<Longrightarrow> wft t \<Longrightarrow> rb_find R t k \<longleftrightarrow> k \<in> set (rb_iter R t)"
  and rb_size_iter: "rbtree_laws R wft \<Longrightarrow> wft t \<Longrightarrow> rb_size R t = length (rb_iter R t)"
  and rb_distinct: "rbtree_laws R wft \<Longrightarrow> wft t \<Longrightarrow> distinct (rb_iter R t)"
  and rb_sorted: "rbtree_laws R wft \<Longrightarrow> wft t \<Longrightarrow> sorted (rb_iter R t)"
  by (auto simp: rbtree_laws_def rb_query_laws_def)

lemma rb_insert_laws: "rbtree_laws R wft \<Longrightarrow> wft t \<Longrightarrow> rb_insert_laws R wft t k"
  and rb_remove_laws: "rbtree_laws R wft \<Longrightarrow> wft t \<Longrightarrow> rb_remove_laws R wft t k"
  by (auto simp: rbtree_laws_def)

lemma rb_insert_wf: "rbtree_laws R wft \<Longrightarrow> wft t \<Longrightarrow> rb_insert R ok t k = (e, t') \<Longrightarrow> wft t'"
  using rb_insert_laws[of R wft t k] by (auto simp: rb_insert_laws_def dest: spec[of _ ok])

lemma rb_insert_Ok:
  assumes "rbtree_laws R wft" "wft t" "rb_insert R ok t k = (kEtcPalErrOk, t')"
  shows "k \<notin> set (rb_iter R t) \<and> ok \<and> set (rb_iter R t') = insert k (set (rb_iter R t))"
  using rb_insert_laws[OF assms(1,2), of k] assms(3)
  by (cases "k \<in> set (rb_iter R t)"; cases ok) (auto simp: rb_insert_laws_def)

lemma rb_insert_fail:
  assumes "rbtree_laws R wft" "wft t" "rb_insert R ok t k = (e, t')" "e \<noteq> kEtcPalErrOk"
  shows "t' = t"
  using rb_insert_laws[OF assms(1,2), of k] assms(3,4)
  by (cases "k \<in> set (rb_iter R t)"; cases ok)
     (auto simp: rb_insert_laws_def dest: spec[of _ ok])

lemma rb_insert_new:
  assumes "rbtree_laws R wft" "wft t" "k \<notin> set (rb_iter R t)"
  shows "fst (rb_insert R True t k) = kEtcPalErrOk"
  using rb_insert_laws[OF assms(1,2), of k] assms(3) by (auto simp: rb_insert_laws_def)

lemma rb_remove_wf: "rbtree_laws R wft \<Longrightarrow> wft t \<Longrightarrow> rb_remove R t k = (e, t') \<Longrightarrow> wft t'"
  using rb_remove_laws[of R wft t k] by (auto simp: rb_remove_laws_def)

lemma rb_remove_Ok:
  assumes "rbtree_laws R wft" "wft t" "k \<in> set (rb_iter R t)"
  shows "fst (rb_remove R t k) = kEtcPalErrOk"
    and "set (rb_iter R (snd (rb_remove R t k))) = set (rb_iter R t) - {k}"
  using rb_remove_laws[OF assms(1,2), of k] assms(3) by (auto simp: rb_remove_laws_def)

section \<open>An instance of the laws\<close>

text \<open>
  The laws are satisfiable: a sorted list of keys. The concrete examples of the development
  run on it.
\<close>

definition list_rbtree :: "('k::linorder, 'k list) rbtree_ops" where
  "list_rbtree = \<lparr>
     rb_init = [],
     rb_find = (\<lambda>t k. k \<in> set t),
     rb_size = length,
     rb_iter = (\<lambda>t. t),
     rb_insert = (\<lambda>ok t k. if k \<in> set t then (kEtcPalErrExists, t)
                           else if \<not> ok then (kEtcPalErrNoMem, t)
                           else (kEtcPalErrOk, insort k t)),
     rb_remove = (\<lambda>t k. if k \<in> set t then (kEtcPalErrOk, remove1 k t)
                        else (kEtcPalErrNotFound, t)),
     rb_clear = (\<lambda>t. (kEtcPalErrOk, [])) \<rparr>"

lemma list_rbtree_laws: "rbtree_laws list_rbtree (\<lambda>t. sorted t \<and> distinct t)"
  by (auto simp: rbtree_laws_def rb_query_laws_def rb_insert_laws_def rb_remove_laws_def
      list_rbtree_def sorted_insort distinct_insort set_insort_key sorted_remove1)

end
