(* ===== verification/DmxMerger.thy ===== *)
theory DmxMerger
  imports EtcPal
begin

text \<open>
  The DMX merger of the sACN library (src/sACN/src/sacn/dmx_merger.c): the state of a merger
  and of its sources, and the functions that keep the merged output up to date as a source's
  levels, per-address priorities (PAP) or universe priority change. This theory holds the
  code's functions; \<open>DmxMergerSpec\<close> states what the output means and proves it is maintained.

  \<^item> \<open>SacnDmxMergerSource\<close> and \<open>SourceState\<close> are the records \<open>dmx_merger_source\<close> and
    \<open>source_state\<close> (the inner struct's fields come first, as an extended record).
  \<^item> \<open>SacnDmxMergerConfig\<close>, once a merger is constructed, is the record \<open>merger_config\<close>: the
    buffers \<open>levels\<close>, \<open>per_address_priorities\<close> and \<open>owners\<close> are never NULL then (internal
    storage replaces a NULL), the two scalar outputs are \<open>option\<close>s, \<open>None\<close> for NULL.
  \<^item> \<open>source_state_lookup\<close> holds the handles; \<open>source_mem\<close> is the memory their pointers lead to.
  \<^item> \<open>merger_opts\<close> are the compile-time options of src/sACN/include/sacn/opts.h.
  Every \<open>SACN_ASSERT_VERIFY\<close> is a branch that returns at once when its argument is false; a test
  that a pointer is non-NULL has no counterpart where the model's argument is the pointee.
\<close>

section \<open>State\<close>

definition kSacnDmxMergerInvalid :: int where
  "kSacnDmxMergerInvalid = -1"

definition kSacnDmxMergerSourceInvalid :: u16 where
  "kSacnDmxMergerSourceInvalid = 0xFFFF"

definition kSacnReceiverInfiniteSources :: nat where
  "kSacnReceiverInfiniteSources = 0"

record merger_opts =
  max_slots :: nat
  dynamic_mem :: bool
  max_sources_per_merger :: nat
  max_mergers :: nat
  disable_internal_pap_buffer :: bool
  disable_internal_owner_buffer :: bool

record dmx_merger_source =
  source_id :: u16
  levels :: "u8 list"
  valid_level_count :: nat
  universe_priority :: u8
  address_priority :: "u8 list"
  using_universe_priority :: bool

record source_state = dmx_merger_source +
  handle :: u16
  pap_count :: nat
  universe_priority_uninitialized :: bool

record merger_config =
  out_levels :: "u8 list"
  per_address_priorities :: "u8 list"
  per_address_priorities_active :: "bool option"
  out_universe_priority :: "u8 option"
  owners :: "u16 list"
  source_count_max :: int

record ('t, 'h) merger_state =
  merger_handle :: int
  source_handle_mgr :: 'h
  source_state_lookup :: 't
  source_mem :: "u16 \<Rightarrow> source_state"
  config :: merger_config

text \<open>\<open>PAP_ACTIVE\<close>, \<open>SET_PAP_ACTIVE\<close>, \<open>SET_PAP_INACTIVE\<close> and \<open>CALC_SRC_PAP\<close>.\<close>

definition pap_active :: "source_state \<Rightarrow> bool" where
  "pap_active s = (\<not> using_universe_priority s)"

definition set_pap_active :: "source_state \<Rightarrow> source_state" where
  "set_pap_active s = s\<lparr>using_universe_priority := False\<rparr>"

definition set_pap_inactive :: "source_state \<Rightarrow> source_state" where
  "set_pap_inactive s = s\<lparr>using_universe_priority := True\<rparr>"

definition calc_src_pap :: "source_state \<Rightarrow> nat \<Rightarrow> u8" where
  "calc_src_pap s slot = (if slot < valid_level_count s then address_priority s ! slot else 0)"

text \<open>The compare function of the tree of sources: -1, 0 or 1, by handle.\<close>

definition source_state_lookup_compare_func :: "source_state \<Rightarrow> source_state \<Rightarrow> int" where
  "source_state_lookup_compare_func lhs rhs =
     of_bool (handle lhs > handle rhs) - of_bool (handle lhs < handle rhs)"

definition write_source :: "source_state \<Rightarrow> ('t, 'h) merger_state \<Rightarrow> ('t, 'h) merger_state" where
  "write_source s m = m\<lparr>source_mem := (source_mem m)(handle s := s)\<rparr>"

section \<open>Merging priorities slot by slot\<close>

text \<open>The body of the candidate loop of \<open>merge_new_priorities\<close>.\<close>

definition merge_candidate ::
    "source_state \<Rightarrow> nat \<Rightarrow> source_state \<Rightarrow> merger_config \<Rightarrow> merger_config" where
  "merge_candidate source slot candidate c =
     (let candidate_pap = calc_src_pap candidate slot in
      if handle candidate \<noteq> handle source \<and>
         (candidate_pap > per_address_priorities c ! slot \<or>
          (candidate_pap > 0 \<and> candidate_pap = per_address_priorities c ! slot \<and>
           levels candidate ! slot > out_levels c ! slot))
      then c\<lparr>out_levels := (out_levels c)[slot := levels candidate ! slot],
             owners := (owners c)[slot := handle candidate],
             per_address_priorities := (per_address_priorities c)[slot := candidate_pap]\<rparr>
      else c)"

text \<open>The body of the slot loop; \<open>cands\<close> are the sources in the tree's iteration order.\<close>

definition merge_new_priority ::
    "source_state list \<Rightarrow> source_state \<Rightarrow> nat \<Rightarrow> merger_config \<Rightarrow> merger_config" where
  "merge_new_priority cands source slot c =
     (let source_pap = calc_src_pap source slot in
      if source_pap > per_address_priorities c ! slot then
        c\<lparr>out_levels := (out_levels c)[slot := levels source ! slot],
          owners := (owners c)[slot := handle source],
          per_address_priorities := (per_address_priorities c)[slot := source_pap]\<rparr>
      else if handle source \<noteq> owners c ! slot then
        if source_pap > 0 \<and> source_pap = per_address_priorities c ! slot \<and>
           levels source ! slot > out_levels c ! slot
        then c\<lparr>out_levels := (out_levels c)[slot := levels source ! slot],
               owners := (owners c)[slot := handle source]\<rparr>
        else c
      else if source_pap < per_address_priorities c ! slot then
        let c1 = c\<lparr>per_address_priorities :=
                     (per_address_priorities c)[slot := calc_src_pap source slot]\<rparr>;
            c2 = (if per_address_priorities c1 ! slot = 0
                  then c1\<lparr>out_levels := (out_levels c1)[slot := 0],
                          owners := (owners c1)[slot := kSacnDmxMergerSourceInvalid]\<rparr>
                  else c1)
        in fold (merge_candidate source slot) cands c2
      else c)"

definition candidates :: "(u16, 't) rbtree_ops \<Rightarrow> ('t, 'h) merger_state \<Rightarrow> source_state list" where
  "candidates R m = map (source_mem m) (rb_iter R (source_state_lookup m))"

definition merge_new_priorities ::
    "(u16, 't) rbtree_ops \<Rightarrow> source_state \<Rightarrow> nat \<Rightarrow> nat \<Rightarrow>
     ('t, 'h) merger_state \<Rightarrow> ('t, 'h) merger_state" where
  "merge_new_priorities R source slot_range_start slot_range_end m =
     m\<lparr>config := fold (merge_new_priority (candidates R m) source)
                     [slot_range_start..<slot_range_end] (config m)\<rparr>"

section \<open>Updating levels\<close>

definition store_levels :: "u8 list \<Rightarrow> nat \<Rightarrow> nat \<Rightarrow> source_state \<Rightarrow> source_state" where
  "store_levels new_levels old_levels_count new_levels_count s =
     (let s1 = s\<lparr>levels := memcpy_at (levels s) 0 new_levels new_levels_count\<rparr> in
      if old_levels_count > new_levels_count
      then s1\<lparr>levels := memset_at (levels s1) new_levels_count 0
                          (old_levels_count - new_levels_count)\<rparr>
      else s1)"

text \<open>The first and the second loop body of \<open>update_levels_single_source\<close>.\<close>

definition copy_level :: "source_state \<Rightarrow> u8 list \<Rightarrow> nat \<Rightarrow> merger_config \<Rightarrow> merger_config" where
  "copy_level s new_levels i c =
     (if address_priority s ! i > 0
      then c\<lparr>out_levels := (out_levels c)[i := new_levels ! i]\<rparr> else c)"

definition copy_priority :: "source_state \<Rightarrow> nat \<Rightarrow> merger_config \<Rightarrow> merger_config" where
  "copy_priority s i c =
     (if address_priority s ! i > 0
      then c\<lparr>per_address_priorities := (per_address_priorities c)[i := address_priority s ! i],
             owners := (owners c)[i := handle s]\<rparr> else c)"

definition set_owner :: "u16 \<Rightarrow> nat \<Rightarrow> merger_config \<Rightarrow> merger_config" where
  "set_owner h i c = c\<lparr>owners := (owners c)[i := h]\<rparr>"

definition update_levels_single_source ::
    "merger_opts \<Rightarrow> u16 \<Rightarrow> u8 list \<Rightarrow> nat \<Rightarrow> nat \<Rightarrow>
     ('t, 'h) merger_state \<Rightarrow> ('t, 'h) merger_state" where
  "update_levels_single_source P h new_levels old_levels_count new_levels_count m =
     (if \<not> (old_levels_count \<le> max_slots P \<and> new_levels_count \<le> max_slots P) then m
      else
        let s = store_levels new_levels old_levels_count new_levels_count (source_mem m h);
            m1 = write_source s m;
            c1 = fold (copy_level s new_levels) [0..<new_levels_count] (config m1);
            c2 = (if new_levels_count > old_levels_count
                  then fold (copy_priority s) [old_levels_count..<new_levels_count] c1
                  else c1);
            c3 = (if old_levels_count > new_levels_count
                  then let n = old_levels_count - new_levels_count;
                           c = c2\<lparr>out_levels := memset_at (out_levels c2) new_levels_count 0 n,
                                  per_address_priorities :=
                                    memset_at (per_address_priorities c2) new_levels_count 0 n\<rparr>
                       in fold (set_owner kSacnDmxMergerSourceInvalid)
                            [new_levels_count..<old_levels_count] c
                  else c2)
        in m1\<lparr>config := c3\<rparr>)"

text \<open>The candidate loop and the slot loop of \<open>update_levels_multi_source\<close>.\<close>

definition level_candidate ::
    "source_state \<Rightarrow> nat \<Rightarrow> source_state \<Rightarrow> merger_config \<Rightarrow> merger_config" where
  "level_candidate source slot candidate c =
     (if handle candidate \<noteq> handle source then
        let candidate_level = levels candidate ! slot in
        if address_priority candidate ! slot = per_address_priorities c ! slot \<and>
           candidate_level > out_levels c ! slot
        then c\<lparr>out_levels := (out_levels c)[slot := candidate_level],
               owners := (owners c)[slot := handle candidate]\<rparr>
        else c
      else c)"

definition merge_level ::
    "source_state list \<Rightarrow> source_state \<Rightarrow> nat \<Rightarrow> merger_config \<Rightarrow> merger_config" where
  "merge_level cands source slot c =
     (if address_priority source ! slot > 0 \<and>
         address_priority source ! slot = per_address_priorities c ! slot then
        if levels source ! slot > out_levels c ! slot then
          c\<lparr>out_levels := (out_levels c)[slot := levels source ! slot],
            owners := (owners c)[slot := handle source]\<rparr>
        else if handle source = owners c ! slot \<and> levels source ! slot < out_levels c ! slot then
          fold (level_candidate source slot) cands
            (c\<lparr>out_levels := (out_levels c)[slot := levels source ! slot]\<rparr>)
        else c
      else c)"

definition update_levels_multi_source ::
    "merger_opts \<Rightarrow> (u16, 't) rbtree_ops \<Rightarrow> u16 \<Rightarrow> u8 list \<Rightarrow> nat \<Rightarrow> nat \<Rightarrow>
     ('t, 'h) merger_state \<Rightarrow> ('t, 'h) merger_state" where
  "update_levels_multi_source P R h new_levels old_levels_count new_levels_count m =
     (if \<not> (old_levels_count \<le> max_slots P \<and> new_levels_count \<le> max_slots P) then m
      else
        let s = store_levels new_levels old_levels_count new_levels_count (source_mem m h);
            m1 = write_source s m;
            min_levels_count = (if new_levels_count < old_levels_count
                                then new_levels_count else old_levels_count);
            m2 = m1\<lparr>config := fold (merge_level (candidates R m1) s) [0..<min_levels_count]
                                (config m1)\<rparr>;
            m3 = merge_new_priorities R s old_levels_count new_levels_count m2
        in merge_new_priorities R s new_levels_count old_levels_count m3)"

definition update_levels ::
    "merger_opts \<Rightarrow> (u16, 't) rbtree_ops \<Rightarrow> u16 \<Rightarrow> u8 list \<Rightarrow> nat \<Rightarrow>
     ('t, 'h) merger_state \<Rightarrow> ('t, 'h) merger_state" where
  "update_levels P R h new_levels new_levels_count m =
     (if \<not> new_levels_count \<le> max_slots P then m
      else
        let old_levels_count = valid_level_count (source_mem m h);
            s = (source_mem m h)\<lparr>valid_level_count := new_levels_count\<rparr>;
            m1 = write_source s m
        in if new_levels_count \<noteq> old_levels_count \<or>
              \<not> memcmp_eq new_levels (levels s) new_levels_count
           then if rb_size R (source_state_lookup m1) = 1
                then update_levels_single_source P h new_levels old_levels_count new_levels_count m1
                else update_levels_multi_source P R h new_levels old_levels_count new_levels_count m1
           else m1)"

section \<open>Updating priorities\<close>

definition store_pap :: "u8 list \<Rightarrow> nat \<Rightarrow> nat \<Rightarrow> source_state \<Rightarrow> source_state" where
  "store_pap address_priorities old_pap_count new_pap_count s =
     (let s1 = s\<lparr>address_priority :=
                  memcpy_at (address_priority s) 0 address_priorities new_pap_count\<rparr> in
      if old_pap_count > new_pap_count
      then s1\<lparr>address_priority := memset_at (address_priority s1) new_pap_count 0
                                    (old_pap_count - new_pap_count)\<rparr>
      else s1)"

definition copy_slot :: "source_state \<Rightarrow> nat \<Rightarrow> merger_config \<Rightarrow> merger_config" where
  "copy_slot s i c =
     (if address_priority s ! i = 0
      then c\<lparr>out_levels := (out_levels c)[i := 0],
             owners := (owners c)[i := kSacnDmxMergerSourceInvalid]\<rparr>
      else c\<lparr>out_levels := (out_levels c)[i := levels s ! i],
             owners := (owners c)[i := handle s]\<rparr>)"

definition update_pap_single_source ::
    "merger_opts \<Rightarrow> u16 \<Rightarrow> u8 list \<Rightarrow> nat \<Rightarrow> nat \<Rightarrow>
     ('t, 'h) merger_state \<Rightarrow> ('t, 'h) merger_state" where
  "update_pap_single_source P h address_priorities old_pap_count new_pap_count m =
     (if \<not> (old_pap_count \<le> max_slots P \<and> new_pap_count \<le> max_slots P) then m
      else
        let s = store_pap address_priorities old_pap_count new_pap_count (source_mem m h);
            m1 = write_source s m;
            c = config m1;
            c1 = c\<lparr>per_address_priorities :=
                    memcpy_at (per_address_priorities c) 0 (address_priority s)
                      (valid_level_count s)\<rparr>
        in m1\<lparr>config := fold (copy_slot s) [0..<valid_level_count s] c1\<rparr>)"

definition update_pap_multi_source ::
    "merger_opts \<Rightarrow> (u16, 't) rbtree_ops \<Rightarrow> u16 \<Rightarrow> u8 list \<Rightarrow> nat \<Rightarrow> nat \<Rightarrow>
     ('t, 'h) merger_state \<Rightarrow> ('t, 'h) merger_state" where
  "update_pap_multi_source P R h address_priorities old_pap_count new_pap_count m =
     (if \<not> (old_pap_count \<le> max_slots P \<and> new_pap_count \<le> max_slots P) then m
      else
        let s = store_pap address_priorities old_pap_count new_pap_count (source_mem m h)
        in merge_new_priorities R s 0 (valid_level_count s) (write_source s m))"

definition update_pap ::
    "merger_opts \<Rightarrow> (u16, 't) rbtree_ops \<Rightarrow> u16 \<Rightarrow> u8 list \<Rightarrow> nat \<Rightarrow>
     ('t, 'h) merger_state \<Rightarrow> ('t, 'h) merger_state" where
  "update_pap P R h address_priorities address_priorities_count m =
     (if \<not> address_priorities_count \<le> max_slots P then m
      else
        let s = set_pap_active (source_mem m h);
            old_pap_count = pap_count s;
            s1 = s\<lparr>pap_count := address_priorities_count\<rparr>;
            m1 = write_source s1 m;
            m2 = (if per_address_priorities_active (config m1) \<noteq> None
                  then m1\<lparr>config := (config m1)\<lparr>per_address_priorities_active := Some True\<rparr>\<rparr>
                  else m1)
        in if address_priorities_count \<noteq> old_pap_count \<or>
              \<not> memcmp_eq address_priorities (address_priority s1) address_priorities_count
           then if rb_size R (source_state_lookup m2) = 1
                then update_pap_single_source P h address_priorities old_pap_count
                       address_priorities_count m2
                else update_pap_multi_source P R h address_priorities old_pap_count
                       address_priorities_count m2
           else m2)"

definition update_universe_priority_single_source ::
    "merger_opts \<Rightarrow> u16 \<Rightarrow> u8 \<Rightarrow> ('t, 'h) merger_state \<Rightarrow> ('t, 'h) merger_state" where
  "update_universe_priority_single_source P h pap m =
     (let s0 = source_mem m h;
          s = s0\<lparr>address_priority := memset_at (address_priority s0) 0 pap (max_slots P)\<rparr>;
          m1 = write_source s m;
          c = config m1;
          c1 = c\<lparr>per_address_priorities :=
                  memset_at (per_address_priorities c) 0 pap (valid_level_count s)\<rparr>;
          c2 = fold (set_owner (handle s)) [0..<valid_level_count s] c1
      in m1\<lparr>config := c2\<lparr>out_levels :=
                 memcpy_at (out_levels c2) 0 (levels s) (valid_level_count s)\<rparr>\<rparr>)"

definition update_universe_priority_multi_source ::
    "merger_opts \<Rightarrow> (u16, 't) rbtree_ops \<Rightarrow> u16 \<Rightarrow> u8 \<Rightarrow>
     ('t, 'h) merger_state \<Rightarrow> ('t, 'h) merger_state" where
  "update_universe_priority_multi_source P R h pap m =
     (let s0 = source_mem m h;
          s = s0\<lparr>address_priority := memset_at (address_priority s0) 0 pap (max_slots P)\<rparr>
      in merge_new_priorities R s 0 (valid_level_count s) (write_source s m))"

text \<open>
  The loops over all sources that recompute the two scalar outputs. The first one stops at
  the first source with active PAP, as its guard \<open>!pap_active && source\<close> does.
\<close>

fun find_pap_active :: "source_state list \<Rightarrow> bool" where
  "find_pap_active [] = False"
| "find_pap_active (s # ss) = (if pap_active s then True else find_pap_active ss)"

definition recalculate_pap_active ::
    "(u16, 't) rbtree_ops \<Rightarrow> ('t, 'h) merger_state \<Rightarrow> ('t, 'h) merger_state" where
  "recalculate_pap_active R m =
     m\<lparr>config := (config m)\<lparr>per_address_priorities_active :=
                   Some (find_pap_active (candidates R m))\<rparr>\<rparr>"

fun max_universe_priority :: "source_state list \<Rightarrow> u8 \<Rightarrow> u8" where
  "max_universe_priority [] p = p"
| "max_universe_priority (s # ss) p =
     max_universe_priority ss (if universe_priority s > p then universe_priority s else p)"

definition recalculate_universe_priority ::
    "(u16, 't) rbtree_ops \<Rightarrow> ('t, 'h) merger_state \<Rightarrow> ('t, 'h) merger_state" where
  "recalculate_universe_priority R m =
     m\<lparr>config := (config m)\<lparr>out_universe_priority :=
                   Some (max_universe_priority (candidates R m) 0)\<rparr>\<rparr>"

definition update_universe_priority ::
    "merger_opts \<Rightarrow> (u16, 't) rbtree_ops \<Rightarrow> u16 \<Rightarrow> u8 \<Rightarrow>
     ('t, 'h) merger_state \<Rightarrow> ('t, 'h) merger_state" where
  "update_universe_priority P R h priority m =
     (let s0 = source_mem m h in
      if priority \<noteq> universe_priority s0 \<or> universe_priority_uninitialized s0 then
        let s1 = s0\<lparr>universe_priority_uninitialized := False\<rparr>;
            was_max = (case out_universe_priority (config m) of
                         None \<Rightarrow> False | Some p \<Rightarrow> universe_priority s1 \<ge> p);
            single_source = (rb_size R (source_state_lookup m) = 1);
            s2 = s1\<lparr>universe_priority := priority\<rparr>;
            m1 = write_source s2 m;
            m2 = (if using_universe_priority s2 then
                    let s3 = s2\<lparr>pap_count := max_slots P\<rparr>;
                        pap = (if priority = 0 then 1 else priority);
                        m' = write_source s3 m1
                    in if single_source
                       then update_universe_priority_single_source P h pap m'
                       else update_universe_priority_multi_source P R h pap m'
                  else m1)
        in case out_universe_priority (config m2) of
             None \<Rightarrow> m2
           | Some p \<Rightarrow>
               if single_source \<or> priority \<ge> p
               then m2\<lparr>config := (config m2)\<lparr>out_universe_priority := Some priority\<rparr>\<rparr>
               else if was_max then recalculate_universe_priority R m2
               else m2
      else m)"

end
