(* ===== verification/DmxMergerSpec.thy ===== *)
theory DmxMergerSpec
  imports DmxMerger
begin

text \<open>
  What a merger's output means, and that every update keeps it.

  \<open>slot_merged S i (level, owner, priority)\<close> is the contract of src/sACN/include/sacn/dmx_merger.h
  for slot \<open>i\<close> and the set \<open>S\<close> of sources: the priority is the highest per-address priority
  (0 when no source has one), the level is the highest level among the sources with that
  priority, the owner is one of the sources that have both, and an unsourced slot has level 0
  and the invalid owner. The code never recomputes a slot from all its sources unless the
  owner weakened; the lemmas here show slot by slot that the shortcut is right. The loops over
  slots are read through the interpretations of \<open>slotwise\<close>.
\<close>

section \<open>The contract of one slot\<close>

fun slot_merged :: "source_state set \<Rightarrow> nat \<Rightarrow> u8 \<times> u16 \<times> u8 \<Rightarrow> bool" where
  "slot_merged S i (l, w, p) \<longleftrightarrow>
     (\<forall>s \<in> S. calc_src_pap s i \<le> p) \<and>
     (if p = 0 then l = 0 \<and> w = kSacnDmxMergerSourceInvalid
      else (\<exists>s \<in> S. handle s = w \<and> calc_src_pap s i = p \<and> levels s ! i = l) \<and>
           (\<forall>s \<in> S. calc_src_pap s i = p \<longrightarrow> levels s ! i \<le> l))"

definition cell :: "merger_config \<Rightarrow> nat \<Rightarrow> u8 \<times> u16 \<times> u8" where
  "cell c i = (out_levels c ! i, owners c ! i, per_address_priorities c ! i)"

definition config_ok :: "nat \<Rightarrow> merger_config \<Rightarrow> bool" where
  "config_ok n c \<longleftrightarrow>
     length (out_levels c) = n \<and> length (owners c) = n \<and> length (per_address_priorities c) = n"

definition scalars :: "merger_config \<Rightarrow> bool option \<times> u8 option \<times> int" where
  "scalars c = (per_address_priorities_active c, out_universe_priority c, source_count_max c)"

lemmas cell_defs = cell_def config_ok_def scalars_def

text \<open>\<open>levels\<close> and priorities are unsigned bytes: 0 is the least.\<close>

lemma u8_pos_iff: "(0::u8) < x \<longleftrightarrow> x \<noteq> 0"
  by (simp add: word_gt_0)

lemma slot_merged_none: "slot_merged {} i (l, w, p) \<longleftrightarrow> p = 0 \<and> l = 0 \<and> w = kSacnDmxMergerSourceInvalid"
  by auto

lemma slot_merged_single:
  "slot_merged {s} i (l, w, p) \<longleftrightarrow>
     p = calc_src_pap s i \<and>
     (if p = 0 then l = 0 \<and> w = kSacnDmxMergerSourceInvalid
      else l = levels s ! i \<and> w = handle s)"
  by auto

text \<open>A source that contributes the same to a slot can replace another.\<close>

lemma slot_merged_same:
  assumes "slot_merged (insert s0 S) i v" "handle s = handle s0"
    "calc_src_pap s i = calc_src_pap s0 i"
    "calc_src_pap s i \<noteq> 0 \<Longrightarrow> levels s ! i = levels s0 ! i"
  shows "slot_merged (insert s S) i v"
proof (cases v)
  case (fields l w p)
  then show ?thesis using assms by (cases "p = 0") auto
qed

text \<open>The three ways in which a slot takes one more source into account.\<close>

lemma slot_merged_new_max:
  "q \<noteq> 0 \<Longrightarrow> calc_src_pap s i = q \<Longrightarrow> (\<And>x. x \<in> S \<Longrightarrow> calc_src_pap x i < q) \<Longrightarrow>
   slot_merged (insert s S) i (levels s ! i, handle s, q)"
  by (force intro: order_less_imp_le)

lemma slot_merged_tie:
  "p \<noteq> 0 \<Longrightarrow> slot_merged S i (l, w, p) \<Longrightarrow> calc_src_pap s i = p \<Longrightarrow> levels s ! i > l \<Longrightarrow>
   slot_merged (insert s S) i (levels s ! i, handle s, p)"
  by (auto intro: order_trans order_less_imp_le)

lemma slot_merged_weaker:
  "slot_merged S i (l, w, p) \<Longrightarrow>
   calc_src_pap s i < p \<or> calc_src_pap s i = 0 \<or> calc_src_pap s i = p \<and> levels s ! i \<le> l \<Longrightarrow>
   slot_merged (insert s S) i (l, w, p)"
  by (auto intro: order_less_imp_le)

lemma slot_merged_swap_tie:
  assumes "slot_merged (insert s0 S) i (l, w, p)" "p \<noteq> 0" "calc_src_pap s i = p" "levels s ! i > l"
  shows "slot_merged (insert s S) i (levels s ! i, handle s, p)"
proof -
  have "\<forall>x \<in> S. calc_src_pap x i = p \<longrightarrow> levels x ! i \<le> levels s ! i"
    using assms(1,2,4) by (auto simp del: not_less dest: order_le_less_trans intro: order_less_imp_le)
  then show ?thesis using assms by simp
qed

lemma slot_merged_swap_weaker:
  "slot_merged (insert s0 S) i (l, w, p) \<Longrightarrow> p = 0 \<or> handle s0 \<noteq> w \<Longrightarrow>
   calc_src_pap s i < p \<or> calc_src_pap s i = 0 \<or> calc_src_pap s i = p \<and> levels s ! i \<le> l \<Longrightarrow>
   slot_merged (insert s S) i (l, w, p)"
  by (cases "p = 0") (auto intro: order_less_imp_le)

lemmas slot_merged_more = slot_merged_new_max slot_merged_tie slot_merged_weaker

text \<open>Below, \<open>slot_merged\<close> is used through these rules only.\<close>

declare slot_merged.simps [simp del]

section \<open>The loop bodies, one slot at a time\<close>

subsection \<open>A candidate of \<open>merge_new_priorities\<close>\<close>

lemma merge_candidate_ok: "config_ok n c \<Longrightarrow> config_ok n (merge_candidate s i cand c)"
  by (auto simp: merge_candidate_def Let_def config_ok_def)

lemma merge_candidate_frame: "j \<noteq> i \<Longrightarrow> cell (merge_candidate s i cand c) j = cell c j"
  by (auto simp: merge_candidate_def Let_def cell_def)

lemma merge_candidate_scalars: "scalars (merge_candidate s i cand c) = scalars c"
  by (auto simp: merge_candidate_def Let_def scalars_def)

definition candidate_wins :: "source_state \<Rightarrow> nat \<Rightarrow> source_state \<Rightarrow> u8 \<times> u16 \<times> u8 \<Rightarrow> bool" where
  "candidate_wins s i cand v \<longleftrightarrow>
     handle cand \<noteq> handle s \<and>
     (case v of (l, w, p) \<Rightarrow> calc_src_pap cand i > p \<or>
        (calc_src_pap cand i > 0 \<and> calc_src_pap cand i = p \<and> levels cand ! i > l))"

lemma merge_candidate_eq:
  "merge_candidate s i cand c =
    (if candidate_wins s i cand (cell c i)
     then c\<lparr>out_levels := (out_levels c)[i := levels cand ! i],
            owners := (owners c)[i := handle cand],
            per_address_priorities := (per_address_priorities c)[i := calc_src_pap cand i]\<rparr>
     else c)"
  by (simp add: merge_candidate_def Let_def candidate_wins_def cell_def)

lemma merge_candidate_cell:
  assumes "config_ok n c" "i < n"
  shows "cell (merge_candidate s i cand c) i =
    (if candidate_wins s i cand (cell c i)
     then (levels cand ! i, handle cand, calc_src_pap cand i)
     else cell c i)"
  using assms by (cases "candidate_wins s i cand (cell c i)")
    (simp_all add: merge_candidate_eq, simp add: cell_defs)

lemma merge_candidate_local:
  "config_ok n c \<Longrightarrow> config_ok n d \<Longrightarrow> i < n \<Longrightarrow> cell c i = cell d i \<Longrightarrow>
   cell (merge_candidate s i cand c) i = cell (merge_candidate s i cand d) i"
  by (simp add: merge_candidate_cell)

lemma merge_candidates_ok:
  "config_ok n c \<Longrightarrow> config_ok n (fold (merge_candidate s i) cs c)"
  by (induction cs arbitrary: c) (auto simp: merge_candidate_ok)

lemma merge_candidates_frame:
  "j \<noteq> i \<Longrightarrow> cell (fold (merge_candidate s i) cs c) j = cell c j"
  by (induction cs arbitrary: c) (auto simp: merge_candidate_frame)

lemma merge_candidates_scalars: "scalars (fold (merge_candidate s i) cs c) = scalars c"
  by (induction cs arbitrary: c) (auto simp: merge_candidate_scalars)

lemma merge_candidates_local:
  "config_ok n c \<Longrightarrow> config_ok n d \<Longrightarrow> i < n \<Longrightarrow> cell c i = cell d i \<Longrightarrow>
   cell (fold (merge_candidate s i) cs c) i = cell (fold (merge_candidate s i) cs d) i"
proof (induction cs arbitrary: c d)
  case Nil
  then show ?case by simp
next
  case (Cons cand cs)
  have "cell (merge_candidate s i cand c) i = cell (merge_candidate s i cand d) i"
    using Cons.prems by (rule merge_candidate_local)
  then show ?case using Cons.prems by (auto intro: Cons.IH merge_candidate_ok)
qed

text \<open>One candidate more: the slot is merged over one source more.\<close>

lemma merge_candidate_merged:
  assumes "config_ok n c" "i < n" "slot_merged S i (cell c i)"
    and "handle cand \<noteq> handle s \<or> cand \<in> S"
  shows "slot_merged (insert cand S) i (cell (merge_candidate s i cand c) i)"
proof (cases "handle cand = handle s")
  case True
  then have "cand \<in> S" using assms(4) by simp
  then show ?thesis using True assms(3) by (simp add: merge_candidate_def insert_absorb)
next
  case False
  let ?p = "per_address_priorities c ! i" and ?q = "calc_src_pap cand i"
  consider "?q > ?p" | "?q = ?p" "?q \<noteq> 0" "levels cand ! i > out_levels c ! i"
    | "?q < ?p \<or> ?q = 0 \<or> (?q = ?p \<and> levels cand ! i \<le> out_levels c ! i)"
    by fastforce
  then show ?thesis
  proof cases
    case 1
    then have "?q \<noteq> 0" and w: "candidate_wins s i cand (cell c i)"
      using False by (auto simp: candidate_wins_def cell_def)
    moreover have "\<And>x. x \<in> S \<Longrightarrow> calc_src_pap x i < ?q"
      using 1 assms(3) by (auto simp: cell_def slot_merged.simps dest: order_le_less_trans)
    ultimately show ?thesis by (simp add: merge_candidate_cell[OF assms(1,2)] slot_merged_new_max)
  next
    case 2
    then have "candidate_wins s i cand (cell c i)"
      using False by (simp add: candidate_wins_def cell_def u8_pos_iff)
    then show ?thesis
      using 2 slot_merged_tie[of ?p S i "out_levels c ! i" "owners c ! i" cand] assms(3)
      by (simp add: merge_candidate_cell[OF assms(1,2)]) (simp add: cell_def)
  next
    case 3
    then have "\<not> candidate_wins s i cand (cell c i)"
      by (auto simp: candidate_wins_def cell_def)
    then show ?thesis
      using 3 slot_merged_weaker[of S i "out_levels c ! i" "owners c ! i" ?p cand] assms(3)
      by (simp add: merge_candidate_cell[OF assms(1,2)]) (simp add: cell_def)
  qed
qed

lemma merge_candidates_merged:
  assumes "config_ok n c" "i < n" "slot_merged S i (cell c i)"
    and "\<And>x. x \<in> set cs \<Longrightarrow> handle x \<noteq> handle s \<or> x \<in> S"
  shows "slot_merged (set cs \<union> S) i (cell (fold (merge_candidate s i) cs c) i)"
  using assms
proof (induction cs arbitrary: c S)
  case Nil
  then show ?case by simp
next
  case (Cons x cs)
  have "slot_merged (insert x S) i (cell (merge_candidate s i x c) i)"
    using Cons.prems by (intro merge_candidate_merged) auto
  then have "slot_merged (set cs \<union> insert x S) i
      (cell (fold (merge_candidate s i) cs (merge_candidate s i x c)) i)"
    using Cons.prems by (intro Cons.IH) (auto simp: merge_candidate_ok)
  then show ?case by simp
qed

subsection \<open>A slot of \<open>merge_new_priorities\<close>\<close>

text \<open>The state from which the owner's candidate loop starts.\<close>

definition weaken :: "source_state \<Rightarrow> nat \<Rightarrow> merger_config \<Rightarrow> merger_config" where
  "weaken s i c =
     (let c1 = c\<lparr>per_address_priorities := (per_address_priorities c)[i := calc_src_pap s i]\<rparr>
      in if per_address_priorities c1 ! i = 0
         then c1\<lparr>out_levels := (out_levels c1)[i := 0],
                 owners := (owners c1)[i := kSacnDmxMergerSourceInvalid]\<rparr>
         else c1)"

lemma weaken_ok: "config_ok n c \<Longrightarrow> config_ok n (weaken s i c)"
  by (auto simp: weaken_def Let_def config_ok_def)

lemma weaken_frame: "j \<noteq> i \<Longrightarrow> cell (weaken s i c) j = cell c j"
  by (auto simp: weaken_def Let_def cell_def)

lemma weaken_scalars: "scalars (weaken s i c) = scalars c"
  by (auto simp: weaken_def Let_def scalars_def)

lemma weaken_cell:
  "config_ok n c \<Longrightarrow> i < n \<Longrightarrow>
   cell (weaken s i c) i =
     (if calc_src_pap s i = 0 then (0, kSacnDmxMergerSourceInvalid, 0)
      else (out_levels c ! i, owners c ! i, calc_src_pap s i))"
  by (auto simp: weaken_def Let_def cell_defs)

lemma merge_new_priority_eq:
  "merge_new_priority cs s i c =
     (if calc_src_pap s i > per_address_priorities c ! i then
        c\<lparr>out_levels := (out_levels c)[i := levels s ! i],
          owners := (owners c)[i := handle s],
          per_address_priorities := (per_address_priorities c)[i := calc_src_pap s i]\<rparr>
      else if handle s \<noteq> owners c ! i then
        if calc_src_pap s i > 0 \<and> calc_src_pap s i = per_address_priorities c ! i \<and>
           levels s ! i > out_levels c ! i
        then c\<lparr>out_levels := (out_levels c)[i := levels s ! i],
               owners := (owners c)[i := handle s]\<rparr>
        else c
      else if calc_src_pap s i < per_address_priorities c ! i
      then fold (merge_candidate s i) cs (weaken s i c)
      else c)"
  by (simp only: merge_new_priority_def weaken_def Let_def)

lemma merge_new_priority_ok: "config_ok n c \<Longrightarrow> config_ok n (merge_new_priority cs s i c)"
  by (auto simp: merge_new_priority_eq merge_candidates_ok weaken_ok) (auto simp: config_ok_def)

lemma merge_new_priority_frame: "j \<noteq> i \<Longrightarrow> cell (merge_new_priority cs s i c) j = cell c j"
  by (auto simp: merge_new_priority_eq merge_candidates_frame weaken_frame) (auto simp: cell_def)

lemma merge_new_priority_scalars: "scalars (merge_new_priority cs s i c) = scalars c"
  by (auto simp: merge_new_priority_eq merge_candidates_scalars weaken_scalars)
     (auto simp: scalars_def)

lemma merge_new_priority_local:
  assumes "config_ok n c" "config_ok n d" "i < n" "cell c i = cell d i"
  shows "cell (merge_new_priority cs s i c) i = cell (merge_new_priority cs s i d) i"
proof -
  have eqs: "out_levels c ! i = out_levels d ! i" "owners c ! i = owners d ! i"
    "per_address_priorities c ! i = per_address_priorities d ! i"
    using assms(4) by (simp_all add: cell_def)
  have "cell (weaken s i c) i = cell (weaken s i d) i"
    using assms eqs by (simp add: weaken_cell)
  then have "cell (fold (merge_candidate s i) cs (weaken s i c)) i =
      cell (fold (merge_candidate s i) cs (weaken s i d)) i"
    using assms by (intro merge_candidates_local[of n]) (auto simp: weaken_ok)
  then show ?thesis
    using assms(1-3) eqs by (simp add: merge_new_priority_eq cell_defs)
qed

interpretation merge_priority: slotwise "merge_new_priority cs s" cell "config_ok n" n for cs s n
  by unfold_locales
     (auto simp: merge_new_priority_ok merge_new_priority_frame intro: merge_new_priority_local)

lemma merge_new_priority_merged:
  assumes ok: "config_ok n c" "i < n"
    and old: "slot_merged (insert s0 S) i (cell c i)"
    and h: "handle s0 = handle s" "handle s \<noteq> kSacnDmxMergerSourceInvalid"
    and others: "\<And>x. x \<in> S \<Longrightarrow> handle x \<noteq> handle s"
    and cs: "set cs = insert s S"
    and lev: "levels s ! i = levels s0 ! i \<or> calc_src_pap s i = 0 \<or> calc_src_pap s0 i = 0"
  shows "slot_merged (insert s S) i (cell (merge_new_priority cs s i c) i)"
proof -
  let ?p = "per_address_priorities c ! i" and ?q = "calc_src_pap s i"
  note old' = old[unfolded cell_def slot_merged.simps]
  have le: "x \<in> S \<Longrightarrow> calc_src_pap x i \<le> ?p" for x using old' by simp
  consider "?q > ?p" | "?q \<le> ?p" "handle s \<noteq> owners c ! i"
    | "?q < ?p" "handle s = owners c ! i" | "?q = ?p" "handle s = owners c ! i" by fastforce
  then show ?thesis
  proof cases
    case 1
    then have "?q \<noteq> 0" by auto
    moreover have "\<And>x. x \<in> S \<Longrightarrow> calc_src_pap x i < ?q" using 1 le by fastforce
    ultimately have "slot_merged (insert s S) i (levels s ! i, handle s, ?q)"
      by (intro slot_merged_new_max) auto
    then show ?thesis using 1 ok by (simp add: merge_new_priority_eq cell_defs)
  next
    case 2
    show ?thesis
    proof (cases "?q > 0 \<and> ?q = ?p \<and> levels s ! i > out_levels c ! i")
      case True
      then have "slot_merged (insert s S) i (levels s ! i, handle s, ?p)"
        using slot_merged_swap_tie[OF old[unfolded cell_def]] by auto
      then show ?thesis using True 2 ok by (auto simp: merge_new_priority_eq cell_defs)
    next
      case False
      then have "merge_new_priority cs s i c = c" using 2 by (auto simp: merge_new_priority_eq)
      moreover have "slot_merged (insert s S) i (cell c i)"
        unfolding cell_def using 2 False h(1)
        by (intro slot_merged_swap_weaker[OF old[unfolded cell_def]]) (auto simp: u8_pos_iff)
      ultimately show ?thesis by simp
    qed
  next
    case 3
    then have p0: "?p \<noteq> 0" by auto
    have "\<exists>x \<in> insert s0 S. handle x = handle s \<and> calc_src_pap x i = ?p \<and>
        levels x ! i = out_levels c ! i"
      using old' p0 3 by simp
    then have s0: "calc_src_pap s0 i = ?p" "levels s0 ! i = out_levels c ! i"
      using others by auto
    have "slot_merged {s} i (cell (weaken s i c) i)"
      using 3 s0 p0 lev by (simp add: weaken_cell[OF ok] slot_merged_single) auto
    then have "slot_merged (set cs \<union> {s}) i
        (cell (fold (merge_candidate s i) cs (weaken s i c)) i)"
      using ok others cs by (intro merge_candidates_merged[of n]) (auto simp: weaken_ok)
    then show ?thesis using 3 cs by (auto simp: merge_new_priority_eq)
  next
    case 4
    then have same: "merge_new_priority cs s i c = c" by (auto simp: merge_new_priority_eq)
    show ?thesis
    proof (cases "?p = 0")
      case True
      then show ?thesis using same old' 4 h(2) by (auto simp: cell_def slot_merged.simps)
    next
      case False
      then have "\<exists>x \<in> insert s0 S. handle x = handle s \<and> calc_src_pap x i = ?p \<and>
          levels x ! i = out_levels c ! i"
        using old' 4 by simp
      then have "calc_src_pap s0 i = ?p" "levels s0 ! i = out_levels c ! i"
        using others by auto
      then have "levels s ! i = levels s0 ! i" using lev 4 False by auto
      then show ?thesis
        using slot_merged_same[OF old h(1)[symmetric]] same 4 \<open>calc_src_pap s0 i = ?p\<close> by simp
    qed
  qed
qed

subsection \<open>A slot of \<open>update_levels_multi_source\<close>\<close>

lemma slot_merged_owner:
  assumes "slot_merged (insert s0 S) i (l, w, p)" "p \<noteq> 0" "handle s0 = w"
    "\<And>x. x \<in> S \<Longrightarrow> handle x \<noteq> w"
  shows "calc_src_pap s0 i = p \<and> levels s0 ! i = l"
  using assms by (auto simp: slot_merged.simps)

definition level_candidate_wins :: "source_state \<Rightarrow> nat \<Rightarrow> source_state \<Rightarrow> u8 \<times> u16 \<times> u8 \<Rightarrow> bool" where
  "level_candidate_wins s i cand v \<longleftrightarrow>
     handle cand \<noteq> handle s \<and>
     (case v of (l, w, p) \<Rightarrow> address_priority cand ! i = p \<and> levels cand ! i > l)"

lemma level_candidate_eq:
  "level_candidate s i cand c =
    (if level_candidate_wins s i cand (cell c i)
     then c\<lparr>out_levels := (out_levels c)[i := levels cand ! i],
            owners := (owners c)[i := handle cand]\<rparr>
     else c)"
  by (simp add: level_candidate_def Let_def level_candidate_wins_def cell_def)

lemma level_candidate_ok: "config_ok n c \<Longrightarrow> config_ok n (level_candidate s i cand c)"
  and level_candidate_frame: "j \<noteq> i \<Longrightarrow> cell (level_candidate s i cand c) j = cell c j"
  and level_candidate_scalars: "scalars (level_candidate s i cand c) = scalars c"
  by (simp_all add: level_candidate_eq) (simp_all add: cell_defs)

lemma level_candidate_cell:
  assumes "config_ok n c" "i < n"
  shows "cell (level_candidate s i cand c) i =
    (if level_candidate_wins s i cand (cell c i)
     then (levels cand ! i, handle cand, per_address_priorities c ! i)
     else cell c i)"
  using assms by (cases "level_candidate_wins s i cand (cell c i)")
    (simp_all add: level_candidate_eq, simp add: cell_defs)

lemma level_candidate_local:
  assumes "config_ok n c" "config_ok n d" "i < n" "cell c i = cell d i"
  shows "cell (level_candidate s i cand c) i = cell (level_candidate s i cand d) i"
proof -
  have "per_address_priorities c ! i = per_address_priorities d ! i"
    using assms(4) by (simp add: cell_def)
  then show ?thesis using assms by (simp add: level_candidate_cell)
qed

lemma level_candidates_ok: "config_ok n c \<Longrightarrow> config_ok n (fold (level_candidate s i) cs c)"
  by (induction cs arbitrary: c) (auto simp: level_candidate_ok)

lemma level_candidates_frame: "j \<noteq> i \<Longrightarrow> cell (fold (level_candidate s i) cs c) j = cell c j"
  by (induction cs arbitrary: c) (auto simp: level_candidate_frame)

lemma level_candidates_scalars: "scalars (fold (level_candidate s i) cs c) = scalars c"
  by (induction cs arbitrary: c) (auto simp: level_candidate_scalars)

lemma level_candidates_local:
  "config_ok n c \<Longrightarrow> config_ok n d \<Longrightarrow> i < n \<Longrightarrow> cell c i = cell d i \<Longrightarrow>
   cell (fold (level_candidate s i) cs c) i = cell (fold (level_candidate s i) cs d) i"
proof (induction cs arbitrary: c d)
  case Nil
  then show ?case by simp
next
  case (Cons cand cs)
  have "cell (level_candidate s i cand c) i = cell (level_candidate s i cand d) i"
    using Cons.prems by (rule level_candidate_local)
  then show ?case using Cons.prems by (auto intro: Cons.IH level_candidate_ok)
qed

text \<open>
  The candidate test compares the raw priority, not \<open>CALC_SRC_PAP\<close>: a candidate beyond its own
  level count has level 0 there and cannot win.
\<close>

lemma level_candidate_merged:
  assumes ok: "config_ok n c" "i < n" and m: "slot_merged S i (cell c i)"
    and p: "per_address_priorities c ! i = p" "p \<noteq> 0"
    and cand: "handle cand \<noteq> handle s \<or> cand \<in> S" "calc_src_pap cand i \<le> p"
      "\<not> i < valid_level_count cand \<Longrightarrow> levels cand ! i = 0"
  shows "slot_merged (insert cand S) i (cell (level_candidate s i cand c) i)"
    and "per_address_priorities (level_candidate s i cand c) ! i = p"
proof -
  show "per_address_priorities (level_candidate s i cand c) ! i = p"
    using p by (simp add: level_candidate_eq)
  have cell: "cell c i = (out_levels c ! i, owners c ! i, p)" using p by (simp add: cell_def)
  show "slot_merged (insert cand S) i (cell (level_candidate s i cand c) i)"
  proof (cases "level_candidate_wins s i cand (cell c i)")
    case True
    then have w: "address_priority cand ! i = p" "levels cand ! i > out_levels c ! i"
      by (auto simp: level_candidate_wins_def cell)
    then have "levels cand ! i \<noteq> 0" by auto
    then have "calc_src_pap cand i = p" using cand(3) w by (auto simp: calc_src_pap_def)
    then show ?thesis
      using True w m p slot_merged_tie[of p S i "out_levels c ! i" "owners c ! i" cand]
      by (simp add: level_candidate_cell[OF ok]) (simp add: cell_def)
  next
    case False
    have "cand \<in> S \<or> calc_src_pap cand i < p \<or> calc_src_pap cand i = 0 \<or>
        calc_src_pap cand i = p \<and> levels cand ! i \<le> out_levels c ! i"
      using False cand by (auto simp: level_candidate_wins_def cell calc_src_pap_def not_less)
    then show ?thesis
      using False m slot_merged_weaker[of S i "out_levels c ! i" "owners c ! i" p cand]
      by (auto simp: level_candidate_cell[OF ok] cell insert_absorb)
  qed
qed

lemma level_candidates_merged:
  assumes "config_ok n c" "i < n" "slot_merged S i (cell c i)"
    and "per_address_priorities c ! i = p" "p \<noteq> 0"
    and "\<And>x. x \<in> set cs \<Longrightarrow> (handle x \<noteq> handle s \<or> x \<in> S) \<and> calc_src_pap x i \<le> p \<and>
           (\<not> i < valid_level_count x \<longrightarrow> levels x ! i = 0)"
  shows "slot_merged (set cs \<union> S) i (cell (fold (level_candidate s i) cs c) i)"
  using assms
proof (induction cs arbitrary: c S)
  case Nil
  then show ?case by simp
next
  case (Cons x cs)
  have x: "handle x \<noteq> handle s \<or> x \<in> S" "calc_src_pap x i \<le> p"
    "\<not> i < valid_level_count x \<Longrightarrow> levels x ! i = 0"
    using Cons.prems(6)[of x] by auto
  note step = level_candidate_merged[OF Cons.prems(1-5) x]
  have "slot_merged (set cs \<union> insert x S) i
      (cell (fold (level_candidate s i) cs (level_candidate s i x c)) i)"
    using Cons.prems step by (intro Cons.IH) (auto simp: level_candidate_ok)
  then show ?case by simp
qed

definition lower :: "source_state \<Rightarrow> nat \<Rightarrow> merger_config \<Rightarrow> merger_config" where
  "lower s i c = c\<lparr>out_levels := (out_levels c)[i := levels s ! i]\<rparr>"

lemma lower_ok: "config_ok n c \<Longrightarrow> config_ok n (lower s i c)"
  and lower_frame: "j \<noteq> i \<Longrightarrow> cell (lower s i c) j = cell c j"
  and lower_scalars: "scalars (lower s i c) = scalars c"
  and lower_pap: "per_address_priorities (lower s i c) = per_address_priorities c"
  by (simp_all add: lower_def cell_defs)

lemma lower_cell: "config_ok n c \<Longrightarrow> i < n \<Longrightarrow>
    cell (lower s i c) i = (levels s ! i, owners c ! i, per_address_priorities c ! i)"
  by (simp add: lower_def cell_defs)

lemma merge_level_eq:
  "merge_level cs s i c =
     (if address_priority s ! i > 0 \<and> address_priority s ! i = per_address_priorities c ! i then
        if levels s ! i > out_levels c ! i then
          c\<lparr>out_levels := (out_levels c)[i := levels s ! i], owners := (owners c)[i := handle s]\<rparr>
        else if handle s = owners c ! i \<and> levels s ! i < out_levels c ! i
        then fold (level_candidate s i) cs (lower s i c)
        else c
      else c)"
  by (simp only: merge_level_def lower_def)

lemma merge_level_ok: "config_ok n c \<Longrightarrow> config_ok n (merge_level cs s i c)"
  by (auto simp: merge_level_eq level_candidates_ok lower_ok) (auto simp: config_ok_def)

lemma merge_level_frame: "j \<noteq> i \<Longrightarrow> cell (merge_level cs s i c) j = cell c j"
  by (auto simp: merge_level_eq level_candidates_frame lower_frame) (auto simp: cell_def)

lemma merge_level_scalars: "scalars (merge_level cs s i c) = scalars c"
  by (auto simp: merge_level_eq level_candidates_scalars lower_scalars) (auto simp: scalars_def)

lemma merge_level_local:
  assumes "config_ok n c" "config_ok n d" "i < n" "cell c i = cell d i"
  shows "cell (merge_level cs s i c) i = cell (merge_level cs s i d) i"
proof -
  have eqs: "out_levels c ! i = out_levels d ! i" "owners c ! i = owners d ! i"
    "per_address_priorities c ! i = per_address_priorities d ! i"
    using assms(4) by (simp_all add: cell_def)
  have "cell (fold (level_candidate s i) cs (lower s i c)) i =
      cell (fold (level_candidate s i) cs (lower s i d)) i"
    using assms eqs by (intro level_candidates_local[of n]) (auto simp: lower_ok lower_cell)
  then show ?thesis using assms(1-3) eqs by (auto simp: merge_level_eq cell_defs)
qed

interpretation merge_levels: slotwise "merge_level cs s" cell "config_ok n" n for cs s n
  by unfold_locales (auto simp: merge_level_ok merge_level_frame intro: merge_level_local)

lemma merge_level_merged:
  assumes ok: "config_ok n c" "i < n" and iv: "i < valid_level_count s"
    and old: "slot_merged (insert s0 S) i (cell c i)"
    and h: "handle s0 = handle s" and same: "calc_src_pap s i = calc_src_pap s0 i"
    and others: "\<And>x. x \<in> S \<Longrightarrow> handle x \<noteq> handle s"
    and zero: "\<And>x. x \<in> S \<Longrightarrow> \<not> i < valid_level_count x \<Longrightarrow> levels x ! i = 0"
    and cs: "set cs = insert s S"
  shows "slot_merged (insert s S) i (cell (merge_level cs s i c) i)"
proof -
  let ?p = "per_address_priorities c ! i" and ?l = "out_levels c ! i" and ?w = "owners c ! i"
  have q: "calc_src_pap s i = address_priority s ! i" using iv by (simp add: calc_src_pap_def)
  note old' = old[unfolded cell_def]
  have le: "calc_src_pap x i \<le> ?p" if "x \<in> insert s S" for x
    using that old' same by (auto simp: slot_merged.simps)
  have own: "calc_src_pap s0 i = ?p \<and> levels s0 ! i = ?l" if "?p \<noteq> 0" "handle s = ?w"
    using slot_merged_owner[OF old' that(1)] that(2) h others by auto
  consider (raise) "calc_src_pap s i > 0" "calc_src_pap s i = ?p" "levels s ! i > ?l"
    | (fall) "calc_src_pap s i > 0" "calc_src_pap s i = ?p" "handle s = ?w" "levels s ! i < ?l"
    | (keep) "merge_level cs s i c = c"
      "calc_src_pap s i = 0 \<or> calc_src_pap s i \<noteq> ?p \<or> levels s ! i \<le> ?l \<and> (handle s \<noteq> ?w \<or> levels s ! i = ?l)"
    unfolding merge_level_eq q[symmetric] u8_pos_iff by fastforce
  then show ?thesis
  proof cases
    case raise
    then have "slot_merged (insert s S) i (levels s ! i, handle s, ?p)"
      using slot_merged_swap_tie[OF old'] by auto
    then show ?thesis using raise ok q by (simp add: merge_level_eq cell_defs)
  next
    case fall
    then have p0: "?p \<noteq> 0" by auto
    have "slot_merged {s} i (cell (lower s i c) i)"
      using fall p0 by (simp add: lower_cell[OF ok] slot_merged_single)
    then have "slot_merged (set cs \<union> {s}) i (cell (fold (level_candidate s i) cs (lower s i c)) i)"
      using ok p0 others cs le zero iv
      by (intro level_candidates_merged[where n = n and p = ?p]) (auto simp: lower_ok lower_pap)
    moreover have "merge_level cs s i c = fold (level_candidate s i) cs (lower s i c)"
      using fall q by (auto simp: merge_level_eq)
    ultimately show ?thesis using cs by simp
  next
    case keep
    show ?thesis
    proof (cases "calc_src_pap s i = 0 \<or> handle s = ?w \<and> ?p \<noteq> 0 \<and> levels s ! i = ?l")
      case True
      then have "levels s ! i = levels s0 ! i" if "calc_src_pap s i \<noteq> 0" using that own by auto
      then show ?thesis
        using slot_merged_same[OF old h[symmetric] same] keep(1) by simp
    next
      case False
      have "?p = 0 \<or> handle s0 \<noteq> ?w"
        using False keep(2) own h same by auto
      moreover have "calc_src_pap s i < ?p \<or> calc_src_pap s i = 0 \<or>
          calc_src_pap s i = ?p \<and> levels s ! i \<le> ?l"
        using keep(2) le[of s] by auto
      ultimately show ?thesis
        using slot_merged_swap_weaker[OF old'] keep(1) by (simp add: cell_def)
    qed
  qed
qed

end
