(* ===== verification/DmxMergerInv.thy ===== *)
theory DmxMergerInv
  imports DmxMergerSpec
begin

text \<open>
  The merger's invariant and its preservation by \<open>update_levels\<close>, \<open>update_pap\<close>,
  \<open>update_universe_priority\<close> and the functions they call.

  \<open>merger_inv\<close> has four parts: the arrays have their size and the sources are well formed
  (\<open>merger_ok\<close>), every slot of the output is merged over all sources (\<open>output_ok\<close>), and the two
  scalar outputs are right (\<open>active_ok\<close>, \<open>universe_ok\<close>).
\<close>

section \<open>The invariant\<close>

definition sources :: "(u16, 't) rbtree_ops \<Rightarrow> ('t, 'h) merger_state \<Rightarrow> source_state set" where
  "sources R m = source_mem m ` set (rb_iter R (source_state_lookup m))"

definition others :: "(u16, 't) rbtree_ops \<Rightarrow> u16 \<Rightarrow> ('t, 'h) merger_state \<Rightarrow> source_state set" where
  "others R h m = source_mem m ` (set (rb_iter R (source_state_lookup m)) - {h})"

definition source_ok :: "nat \<Rightarrow> source_state \<Rightarrow> bool" where
  "source_ok n s \<longleftrightarrow>
     length (levels s) = n \<and> length (address_priority s) = n \<and>
     valid_level_count s \<le> n \<and> pap_count s \<le> n \<and>
     (\<forall>i < n. valid_level_count s \<le> i \<longrightarrow> levels s ! i = 0)"

definition merger_ok ::
    "merger_opts \<Rightarrow> (u16, 't) rbtree_ops \<Rightarrow> ('t \<Rightarrow> bool) \<Rightarrow> ('t, 'h) merger_state \<Rightarrow> bool" where
  "merger_ok P R wft m \<longleftrightarrow>
     wft (source_state_lookup m) \<and> config_ok (max_slots P) (config m) \<and>
     (\<forall>h \<in> set (rb_iter R (source_state_lookup m)).
        source_ok (max_slots P) (source_mem m h) \<and> handle (source_mem m h) = h \<and>
        h \<noteq> kSacnDmxMergerSourceInvalid)"

definition output_ok ::
    "merger_opts \<Rightarrow> (u16, 't) rbtree_ops \<Rightarrow> ('t, 'h) merger_state \<Rightarrow> bool" where
  "output_ok P R m \<longleftrightarrow> (\<forall>i < max_slots P. slot_merged (sources R m) i (cell (config m) i))"

definition active_ok :: "(u16, 't) rbtree_ops \<Rightarrow> ('t, 'h) merger_state \<Rightarrow> bool" where
  "active_ok R m \<longleftrightarrow>
     (case per_address_priorities_active (config m) of
        None \<Rightarrow> True | Some b \<Rightarrow> b = (\<exists>s \<in> sources R m. pap_active s))"

definition is_max_universe_priority :: "source_state set \<Rightarrow> u8 \<Rightarrow> bool" where
  "is_max_universe_priority S p \<longleftrightarrow>
     (\<forall>s \<in> S. universe_priority s \<le> p) \<and> (p = 0 \<or> (\<exists>s \<in> S. universe_priority s = p))"

definition universe_ok :: "(u16, 't) rbtree_ops \<Rightarrow> ('t, 'h) merger_state \<Rightarrow> bool" where
  "universe_ok R m \<longleftrightarrow>
     (case out_universe_priority (config m) of
        None \<Rightarrow> True | Some p \<Rightarrow> is_max_universe_priority (sources R m) p)"

definition merger_inv ::
    "merger_opts \<Rightarrow> (u16, 't) rbtree_ops \<Rightarrow> ('t \<Rightarrow> bool) \<Rightarrow> ('t, 'h) merger_state \<Rightarrow> bool" where
  "merger_inv P R wft m \<longleftrightarrow>
     merger_ok P R wft m \<and> output_ok P R m \<and> active_ok R m \<and> universe_ok R m"

lemmas merger_invD = merger_inv_def[THEN iffD1]

section \<open>Frame facts\<close>

lemma write_source_simps [simp]:
  "config (write_source s m) = config m"
  "source_state_lookup (write_source s m) = source_state_lookup m"
  "source_mem (write_source s m) = (source_mem m)(handle s := s)"
  "merger_handle (write_source s m) = merger_handle m"
  "source_handle_mgr (write_source s m) = source_handle_mgr m"
  by (simp_all add: write_source_def)

lemma set_candidates: "set (candidates R m) = sources R m"
  by (simp add: candidates_def sources_def)

lemma sources_cong:
  "source_mem m = source_mem m' \<Longrightarrow> source_state_lookup m = source_state_lookup m' \<Longrightarrow>
   sources R m = sources R m'"
  by (simp add: sources_def)

lemma candidates_config [simp]: "candidates R (m\<lparr>config := c\<rparr>) = candidates R m"
  and sources_config [simp]: "sources R (m\<lparr>config := c\<rparr>) = sources R m"
  and others_config [simp]: "others R h (m\<lparr>config := c\<rparr>) = others R h m"
  by (simp_all add: candidates_def sources_def others_def)

lemma merge_new_priorities_simps [simp]:
  "config (merge_new_priorities R s a b m) =
     fold (merge_new_priority (candidates R m) s) [a..<b] (config m)"
  "source_state_lookup (merge_new_priorities R s a b m) = source_state_lookup m"
  "source_mem (merge_new_priorities R s a b m) = source_mem m"
  "merger_handle (merge_new_priorities R s a b m) = merger_handle m"
  "source_handle_mgr (merge_new_priorities R s a b m) = source_handle_mgr m"
  "candidates R (merge_new_priorities R s a b m) = candidates R m"
  "sources R (merge_new_priorities R s a b m) = sources R m"
  by (simp_all add: merge_new_priorities_def candidates_def sources_def)

lemma sources_split:
  "h \<in> set (rb_iter R (source_state_lookup m)) \<Longrightarrow>
   sources R m = insert (source_mem m h) (others R h m)"
  by (auto simp: sources_def others_def)

lemma sources_write:
  "handle s \<in> set (rb_iter R (source_state_lookup m)) \<Longrightarrow>
   sources R (write_source s m) = insert s (others R (handle s) m)"
  by (auto simp: sources_def others_def)

lemma others_write [simp]: "handle s = h \<Longrightarrow> others R h (write_source s m) = others R h m"
  by (auto simp: others_def)

lemma others_ok:
  "merger_ok P R wft m \<Longrightarrow> x \<in> others R h m \<Longrightarrow> handle x \<noteq> h \<and> source_ok (max_slots P) x"
  by (auto simp: merger_ok_def others_def)

lemma write_source_ok:
  "merger_ok P R wft m \<Longrightarrow> source_ok (max_slots P) s \<Longrightarrow>
   handle s \<noteq> kSacnDmxMergerSourceInvalid \<Longrightarrow> merger_ok P R wft (write_source s m)"
  by (auto simp: merger_ok_def)

lemma merger_ok_config:
  "merger_ok P R wft m \<Longrightarrow> config_ok (max_slots P) c \<Longrightarrow> merger_ok P R wft (m\<lparr>config := c\<rparr>)"
  by (auto simp: merger_ok_def)

lemma fold_scalars:
  "(\<And>i c. scalars (f i c) = scalars c) \<Longrightarrow> scalars (fold f xs c) = scalars c"
  by (induction xs arbitrary: c) auto

lemma scalars_eq:
  "scalars c = scalars d \<Longrightarrow>
   per_address_priorities_active c = per_address_priorities_active d \<and>
   out_universe_priority c = out_universe_priority d \<and> source_count_max c = source_count_max d"
  by (simp add: scalars_def)

section \<open>Loops of the single-source paths\<close>

lemma u8_not_pos: "\<not> (0::u8) < x \<longleftrightarrow> x = 0"
  by (simp add: word_gt_0)

interpretation copy_levels: slotwise "copy_level s new" cell "config_ok n" n for s new n
  by unfold_locales (auto simp: copy_level_def cell_defs)

interpretation copy_priorities: slotwise "copy_priority s" cell "config_ok n" n for s n
  by unfold_locales (auto simp: copy_priority_def cell_defs)

interpretation set_owners: slotwise "set_owner h" cell "config_ok n" n for h n
  by unfold_locales (auto simp: set_owner_def cell_defs)

interpretation copy_slots: slotwise "copy_slot s" cell "config_ok n" n for s n
  by unfold_locales (auto simp: copy_slot_def cell_defs)

lemma loop_scalars:
  "scalars (copy_level s new i c) = scalars c"
  "scalars (copy_priority s i c) = scalars c"
  "scalars (set_owner h i c) = scalars c"
  "scalars (copy_slot s i c) = scalars c"
  by (auto simp: copy_level_def copy_priority_def set_owner_def copy_slot_def scalars_def)

lemma copy_level_cell:
  "config_ok n c \<Longrightarrow> i < n \<Longrightarrow> cell (copy_level s new i c) i =
     (if address_priority s ! i \<noteq> 0 then (new ! i, owners c ! i, per_address_priorities c ! i)
      else cell c i)"
  by (auto simp: copy_level_def cell_defs u8_not_pos)

lemma copy_priority_cell:
  "config_ok n c \<Longrightarrow> i < n \<Longrightarrow> cell (copy_priority s i c) i =
     (if address_priority s ! i \<noteq> 0 then (out_levels c ! i, handle s, address_priority s ! i)
      else cell c i)"
  by (auto simp: copy_priority_def cell_defs u8_not_pos)

lemma set_owner_cell:
  "config_ok n c \<Longrightarrow> i < n \<Longrightarrow> cell (set_owner h i c) i =
     (out_levels c ! i, h, per_address_priorities c ! i)"
  by (simp add: set_owner_def cell_defs)

lemma copy_slot_cell:
  "config_ok n c \<Longrightarrow> i < n \<Longrightarrow> cell (copy_slot s i c) i =
     (if address_priority s ! i = 0
      then (0, kSacnDmxMergerSourceInvalid, per_address_priorities c ! i)
      else (levels s ! i, handle s, per_address_priorities c ! i))"
  by (simp add: copy_slot_def cell_defs)

section \<open>The stored source\<close>

lemma store_levels_simps [simp]:
  "handle (store_levels new old n s) = handle s"
  "valid_level_count (store_levels new old n s) = valid_level_count s"
  "address_priority (store_levels new old n s) = address_priority s"
  "universe_priority (store_levels new old n s) = universe_priority s"
  "using_universe_priority (store_levels new old n s) = using_universe_priority s"
  "pap_count (store_levels new old n s) = pap_count s"
  by (simp_all add: store_levels_def Let_def)

lemma calc_src_pap_store_levels [simp]:
  "calc_src_pap (store_levels new old n s) i = calc_src_pap s i"
  by (simp add: calc_src_pap_def)

lemma store_levels_levels:
  assumes "length (levels s) = N" "\<And>i. i < N \<Longrightarrow> old \<le> i \<Longrightarrow> levels s ! i = 0" "old \<le> N"
    and "n \<le> N" "n \<le> length new"
  shows "levels (store_levels new old n s) = take n new @ replicate (N - n) 0"
proof (rule nth_equalityI)
  show len: "length (levels (store_levels new old n s)) =
      length (take n new @ replicate (N - n) 0)"
    using assms by (simp add: store_levels_def Let_def)
  fix i assume "i < length (levels (store_levels new old n s))"
  then have "i < N" using assms len by simp
  then show "levels (store_levels new old n s) ! i = (take n new @ replicate (N - n) 0) ! i"
    using assms by (auto simp: store_levels_def Let_def nth_append)
qed

section \<open>Updating levels\<close>

text \<open>The arrays and the sources after \<open>update_levels\<close> has changed something.\<close>

lemma updated_source_ok:
  assumes "source_ok N s0" "n \<le> N" "n \<le> length new"
    and s: "s = store_levels new (valid_level_count s0) n (s0\<lparr>valid_level_count := n\<rparr>)"
  shows "source_ok N s" "levels s = take n new @ replicate (N - n) 0"
    "address_priority s = address_priority s0" "handle s = handle s0" "valid_level_count s = n"
    "pap_active s = pap_active s0" "universe_priority s = universe_priority s0"
proof -
  show lv: "levels s = take n new @ replicate (N - n) 0"
    unfolding s using assms by (intro store_levels_levels) (auto simp: source_ok_def)
  show "source_ok N s"
    using assms(1-3) lv unfolding s by (auto simp: source_ok_def nth_append)
qed (simp_all add: s pap_active_def)

lemma single_source:
  assumes "rbtree_laws R wft" "merger_ok P R wft m"
    and "rb_size R (source_state_lookup m) = 1" "h \<in> set (rb_iter R (source_state_lookup m))"
  shows "rb_iter R (source_state_lookup m) = [h]" "others R h m = {}"
proof -
  have "length (rb_iter R (source_state_lookup m)) = 1"
    using assms rb_size_iter[OF assms(1)] by (simp add: merger_ok_def)
  then show "rb_iter R (source_state_lookup m) = [h]"
    using assms(4) by (cases "rb_iter R (source_state_lookup m)") auto
  then show "others R h m = {}" by (simp add: others_def)
qed

definition single_levels_config ::
    "source_state \<Rightarrow> u8 list \<Rightarrow> nat \<Rightarrow> nat \<Rightarrow> merger_config \<Rightarrow> merger_config" where
  "single_levels_config s new old n c =
     (let c1 = fold (copy_level s new) [0..<n] c;
          c2 = (if n > old then fold (copy_priority s) [old..<n] c1 else c1)
      in if old > n
         then fold (set_owner kSacnDmxMergerSourceInvalid) [n..<old]
                (c2\<lparr>out_levels := memset_at (out_levels c2) n 0 (old - n),
                    per_address_priorities :=
                      memset_at (per_address_priorities c2) n 0 (old - n)\<rparr>)
         else c2)"

lemma update_levels_single_source_eq:
  assumes "old \<le> max_slots P" "n \<le> max_slots P"
    and "s = store_levels new old n (source_mem m h)"
  shows "update_levels_single_source P h new old n m =
    (write_source s m)\<lparr>config := single_levels_config s new old n (config m)\<rparr>"
  using assms by (simp add: update_levels_single_source_def single_levels_config_def Let_def)

lemma single_levels_config_ok:
  assumes "config_ok N c" "old \<le> N" "n \<le> N"
  shows "config_ok N (single_levels_config s new old n c)"
    and "scalars (single_levels_config s new old n c) = scalars c"
proof -
  define c1 where "c1 = fold (copy_level s new) [0..<n] c"
  define c2 where "c2 = (if n > old then fold (copy_priority s) [old..<n] c1 else c1)"
  have ok1: "config_ok N c1" unfolding c1_def using assms copy_levels.fold_ok by blast
  have ok2: "config_ok N c2" unfolding c2_def using ok1 assms copy_priorities.fold_ok by auto
  have ok3: "config_ok N (c2\<lparr>out_levels := memset_at (out_levels c2) n 0 (old - n),
      per_address_priorities := memset_at (per_address_priorities c2) n 0 (old - n)\<rparr>)" if "n < old"
    using ok2 that assms by (simp add: config_ok_def)
  have eq: "single_levels_config s new old n c =
      (if old > n
       then fold (set_owner kSacnDmxMergerSourceInvalid) [n..<old]
              (c2\<lparr>out_levels := memset_at (out_levels c2) n 0 (old - n),
                  per_address_priorities := memset_at (per_address_priorities c2) n 0 (old - n)\<rparr>)
       else c2)"
    unfolding single_levels_config_def Let_def c1_def c2_def by simp
  show "config_ok N (single_levels_config s new old n c)"
    unfolding eq using ok2 ok3 assms set_owners.fold_ok by auto
  have "scalars c2 = scalars c" by (simp add: c2_def c1_def fold_scalars loop_scalars)
  then show "scalars (single_levels_config s new old n c) = scalars c"
    by (simp add: eq fold_scalars loop_scalars) (simp add: scalars_def)
qed

lemma single_levels_config_cell:
  assumes ok: "config_ok N c" "old \<le> N" "n \<le> N" "i < N"
  shows "cell (single_levels_config s new old n c) i =
    (if i < n \<and> address_priority s ! i \<noteq> 0
     then (new ! i, (if old \<le> i then (handle s, address_priority s ! i)
                     else (owners c ! i, per_address_priorities c ! i)))
     else if n \<le> i \<and> i < old then (0, kSacnDmxMergerSourceInvalid, 0)
     else cell c i)"
proof -
  let ?c1 = "fold (copy_level s new) [0..<n] c"
  have ok1: "config_ok N ?c1" using assms copy_levels.fold_ok by simp
  have c1: "cell ?c1 i = (if i < n \<and> address_priority s ! i \<noteq> 0
      then (new ! i, owners c ! i, per_address_priorities c ! i) else cell c i)"
    using ok by (simp add: copy_levels.fold_view copy_level_cell)
  show ?thesis
  proof (cases "n > old")
    case True
    have "cell (fold (copy_priority s) [old..<n] ?c1) i =
        (if old \<le> i \<and> i < n then cell (copy_priority s i ?c1) i else cell ?c1 i)"
      using ok ok1 by (intro copy_priorities.fold_view) auto
    also have "\<dots> = (if old \<le> i \<and> i < n \<and> address_priority s ! i \<noteq> 0
        then (out_levels ?c1 ! i, handle s, address_priority s ! i) else cell ?c1 i)"
      using copy_priority_cell[OF ok1 ok(4)] by simp
    finally show ?thesis
      using True c1 by (auto simp: single_levels_config_def Let_def cell_def)
  next
    case False
    define c2 where "c2 = ?c1\<lparr>out_levels := memset_at (out_levels ?c1) n 0 (old - n),
      per_address_priorities := memset_at (per_address_priorities ?c1) n 0 (old - n)\<rparr>"
    show ?thesis
    proof (cases "n < old")
      case True
      have ok2: "config_ok N c2" using ok1 True ok by (simp add: config_ok_def c2_def)
      have c2: "out_levels c2 ! i = 0 \<and> per_address_priorities c2 ! i = 0" if "n \<le> i" "i < old"
        using ok1 True ok that by (simp add: config_ok_def c2_def)
      have c2': "cell c2 i = cell ?c1 i" if "\<not> (n \<le> i \<and> i < old)"
        using ok1 True ok that by (auto simp: cell_defs c2_def)
      have "cell (single_levels_config s new old n c) i =
          cell (fold (set_owner kSacnDmxMergerSourceInvalid) [n..<old] c2) i"
        using True by (simp add: single_levels_config_def Let_def c2_def)
      also have "\<dots> = (if n \<le> i \<and> i < old then cell (set_owner kSacnDmxMergerSourceInvalid i c2) i
           else cell c2 i)"
        using ok ok2 by (intro set_owners.fold_view) auto
      finally show ?thesis
        using True c1 c2 c2' set_owner_cell[OF ok2 ok(4)] by auto
    next
      case le: False
      then have "single_levels_config s new old n c = ?c1"
        using False by (simp add: single_levels_config_def Let_def)
      then show ?thesis using le False c1 by auto
    qed
  qed
qed

lemma single_levels_merged:
  assumes N: "config_ok N c" "old \<le> N" "n \<le> N" "i < N"
    and old: "slot_merged {s0} i (cell c i)" "old = valid_level_count s0"
    and s: "address_priority s = address_priority s0" "handle s = handle s0"
      "valid_level_count s = n" "\<And>i. i < n \<Longrightarrow> levels s ! i = new ! i"
  shows "slot_merged {s} i (cell (single_levels_config s new old n c) i)"
proof -
  have "per_address_priorities c ! i = calc_src_pap s0 i"
    "calc_src_pap s0 i = 0 \<Longrightarrow> cell c i = (0, kSacnDmxMergerSourceInvalid, 0)"
    "calc_src_pap s0 i \<noteq> 0 \<Longrightarrow> owners c ! i = handle s"
    using old s by (auto simp: cell_def slot_merged_single split: if_splits)
  note old' = this
  have "cell c i = (out_levels c ! i, owners c ! i, per_address_priorities c ! i)"
    by (simp add: cell_def)
  then show ?thesis
    unfolding single_levels_config_cell[OF N] using s old(2) old' \<open>i < N\<close>
    by (cases "i < n"; cases "i < old")
       (auto simp: slot_merged_single calc_src_pap_def split: if_splits)
qed

lemma multi_levels_merged:
  assumes N: "config_ok N c" "i < N" "old \<le> N" "n \<le> N"
    and old: "slot_merged (insert s0 S) i (cell c i)" "old = valid_level_count s0"
    and s: "address_priority s = address_priority s0" "handle s = handle s0"
      "valid_level_count s = n"
    and h: "handle s \<noteq> kSacnDmxMergerSourceInvalid"
    and S: "\<And>x. x \<in> S \<Longrightarrow> handle x \<noteq> handle s" "\<And>x. x \<in> S \<Longrightarrow> source_ok N x"
    and cs: "set cs = insert s S"
    and c1: "c1 = fold (merge_level cs s) [0..<min n old] c"
    and c2: "c2 = fold (merge_new_priority cs s) [old..<n] c1"
    and c3: "c3 = fold (merge_new_priority cs s) [n..<old] c2"
  shows "slot_merged (insert s S) i (cell c3 i)"
proof -
  have ok1: "config_ok N c1" unfolding c1 using N by (intro merge_levels.fold_ok) auto
  have ok2: "config_ok N c2" unfolding c2 using N ok1 by (intro merge_priority.fold_ok) auto
  have v1: "cell c1 i = (if i < min n old then cell (merge_level cs s i c) i else cell c i)"
    unfolding c1 using N by (subst merge_levels.fold_view[where n = N]) auto
  have v2: "cell c2 i = (if old \<le> i \<and> i < n then cell (merge_new_priority cs s i c1) i else cell c1 i)"
    unfolding c2 using N ok1 by (subst merge_priority.fold_view[where n = N]) auto
  have v3: "cell c3 i = (if n \<le> i \<and> i < old then cell (merge_new_priority cs s i c2) i else cell c2 i)"
    unfolding c3 using N ok2 by (subst merge_priority.fold_view[where n = N]) auto
  have zero: "levels x ! i = 0" if "x \<in> S" "\<not> i < valid_level_count x" for x
    using S(2)[OF that(1)] that(2) N(2) by (simp add: source_ok_def)
  consider "i < n" "i < old" | "old \<le> i" "i < n" | "n \<le> i" "i < old" | "n \<le> i" "old \<le> i"
    by linarith
  then show ?thesis
  proof cases
    case 1
    then have "slot_merged (insert s S) i (cell (merge_level cs s i c) i)"
      using N old s S cs zero by (intro merge_level_merged[where n = N and ?s0.0 = s0]) (auto simp: calc_src_pap_def)
    then show ?thesis using 1 v1 v2 v3 by simp
  next
    case 2
    then have "slot_merged (insert s S) i (cell (merge_new_priority cs s i c1) i)"
      using N old s S h cs ok1 v1
      by (intro merge_new_priority_merged[where n = N and ?s0.0 = s0]) (auto simp: calc_src_pap_def)
    then show ?thesis using 2 v2 v3 by simp
  next
    case 3
    then have "slot_merged (insert s S) i (cell (merge_new_priority cs s i c2) i)"
      using N old s S h cs ok2 v1 v2
      by (intro merge_new_priority_merged[where n = N and ?s0.0 = s0]) (auto simp: calc_src_pap_def)
    then show ?thesis using 3 v3 by simp
  next
    case 4
    then have "slot_merged (insert s S) i (cell c i)"
      using old s by (intro slot_merged_same[OF old(1)]) (auto simp: calc_src_pap_def)
    then show ?thesis using 4 v1 v2 v3 by simp
  qed
qed

text \<open>A source that is only written back and whose scalars did not change.\<close>

lemma sources_written:
  assumes "handle s \<in> set (rb_iter R (source_state_lookup m))"
    and "source_state_lookup m' = source_state_lookup m" "source_mem m' = (source_mem m)(handle s := s)"
  shows "sources R m' = insert s (others R (handle s) m)"
  using assms by (auto simp: sources_def others_def)

lemma active_ok_write:
  assumes "active_ok R m" "handle s \<in> set (rb_iter R (source_state_lookup m))"
    and "pap_active s = pap_active (source_mem m (handle s))"
    and "source_state_lookup m' = source_state_lookup m" "source_mem m' = (source_mem m)(handle s := s)"
    and "per_address_priorities_active (config m') = per_address_priorities_active (config m)"
  shows "active_ok R m'"
  using assms(1,3,6) sources_written[OF assms(2,4,5)] sources_split[OF assms(2)]
  by (simp add: active_ok_def split: option.splits)

lemma universe_ok_write:
  assumes "universe_ok R m" "handle s \<in> set (rb_iter R (source_state_lookup m))"
    and "universe_priority s = universe_priority (source_mem m (handle s))"
    and "source_state_lookup m' = source_state_lookup m" "source_mem m' = (source_mem m)(handle s := s)"
    and "out_universe_priority (config m') = out_universe_priority (config m)"
  shows "universe_ok R m'"
  using assms(1,3,6) sources_written[OF assms(2,4,5)] sources_split[OF assms(2)]
  by (simp add: universe_ok_def is_max_universe_priority_def split: option.splits)

lemma merger_inv_write:
  assumes inv: "merger_inv P R wft m" and h: "handle s \<in> set (rb_iter R (source_state_lookup m))"
    and s: "source_ok (max_slots P) s"
      "pap_active s = pap_active (source_mem m (handle s))"
      "universe_priority s = universe_priority (source_mem m (handle s))"
    and c: "config_ok (max_slots P) c" "scalars c = scalars (config m)"
      "\<And>i. i < max_slots P \<Longrightarrow> slot_merged (insert s (others R (handle s) m)) i (cell c i)"
  shows "merger_inv P R wft ((write_source s m)\<lparr>config := c\<rparr>)"
  unfolding merger_inv_def
proof (intro conjI)
  have "handle s \<noteq> kSacnDmxMergerSourceInvalid"
    using inv h by (auto simp: merger_inv_def merger_ok_def)
  moreover have "merger_ok P R wft m" using inv by (simp add: merger_inv_def)
  ultimately show "merger_ok P R wft ((write_source s m)\<lparr>config := c\<rparr>)"
    by (intro merger_ok_config write_source_ok s(1) c(1))
  show "output_ok P R ((write_source s m)\<lparr>config := c\<rparr>)"
    using c(3) h by (simp add: output_ok_def sources_write)
  show "active_ok R ((write_source s m)\<lparr>config := c\<rparr>)"
    by (rule active_ok_write[of R m s])
       (use inv h s(2) scalars_eq[OF c(2)] in \<open>auto simp: merger_inv_def\<close>)
  show "universe_ok R ((write_source s m)\<lparr>config := c\<rparr>)"
    by (rule universe_ok_write[of R m s])
       (use inv h s(3) scalars_eq[OF c(2)] in \<open>auto simp: merger_inv_def\<close>)
qed

lemma update_levels_unchanged:
  assumes "merger_ok P R wft m" "h \<in> set (rb_iter R (source_state_lookup m))"
    and "n \<le> max_slots P" "n = valid_level_count (source_mem m h)"
    and "memcmp_eq new (levels (source_mem m h)) n"
  shows "update_levels P R h new n m = m"
proof -
  have "handle (source_mem m h) = h" using assms by (simp add: merger_ok_def)
  then have "write_source (source_mem m h) m = m" by (simp add: write_source_def)
  then show ?thesis using assms by (simp add: update_levels_def Let_def)
qed

text \<open>What \<open>update_levels\<close> leaves, for both paths: the stored source and a configuration.\<close>

definition levels_config ::
    "(u16, 't) rbtree_ops \<Rightarrow> source_state \<Rightarrow> u8 list \<Rightarrow> nat \<Rightarrow> nat \<Rightarrow>
     ('t, 'h) merger_state \<Rightarrow> merger_config" where
  "levels_config R s new old n m =
     (if rb_size R (source_state_lookup m) = 1 then single_levels_config s new old n (config m)
      else let cs = candidates R (write_source s m)
           in fold (merge_new_priority cs s) [n..<old]
                (fold (merge_new_priority cs s) [old..<n]
                   (fold (merge_level cs s) [0..<min n old] (config m))))"

lemma update_levels_changed:
  assumes "old \<le> max_slots P" "n \<le> max_slots P" "handle (source_mem m h) = h"
    and s: "s = store_levels new old n ((source_mem m h)\<lparr>valid_level_count := n\<rparr>)"
    and old: "old = valid_level_count (source_mem m h)"
    and ch: "n \<noteq> old \<or> \<not> memcmp_eq new (levels (source_mem m h)) n"
  shows "update_levels P R h new n m =
    (write_source s m)\<lparr>config := levels_config R s new old n m\<rparr>"
proof -
  define m1 where "m1 = write_source ((source_mem m h)\<lparr>valid_level_count := n\<rparr>) m"
  have m1: "source_mem m1 h = (source_mem m h)\<lparr>valid_level_count := n\<rparr>"
    "config m1 = config m" "source_state_lookup m1 = source_state_lookup m"
    using assms(3) by (simp_all add: m1_def)
  have hs: "handle s = h" using assms(3) s by simp
  have ws: "write_source s m1 = write_source s m"
    using assms(3) hs by (simp add: m1_def write_source_def)
  have upd: "update_levels P R h new n m =
      (if rb_size R (source_state_lookup m1) = 1
       then update_levels_single_source P h new old n m1
       else update_levels_multi_source P R h new old n m1)"
    using assms(2) ch old by (simp add: update_levels_def Let_def m1_def)
  show ?thesis
  proof (cases "rb_size R (source_state_lookup m) = 1")
    case True
    have "update_levels_single_source P h new old n m1 =
        (write_source s m1)\<lparr>config := single_levels_config s new old n (config m1)\<rparr>"
      using assms(1,2) s m1 by (intro update_levels_single_source_eq) auto
    then show ?thesis using True upd m1 ws by (simp add: levels_config_def)
  next
    case False
    have "update_levels_multi_source P R h new old n m1 =
        (write_source s m)\<lparr>config := levels_config R s new old n m\<rparr>"
      using assms(1,2) s m1 ws False
      by (simp add: update_levels_multi_source_def levels_config_def Let_def min_def
          merge_new_priorities_def del: write_source_simps) (simp add: m1_def)
    then show ?thesis using False upd m1 by simp
  qed
qed

lemma candidates_write:
  assumes "handle s \<in> set (rb_iter R (source_state_lookup m))"
  shows "set (candidates R (write_source s m)) = insert s (others R (handle s) m)"
  using sources_write[OF assms] by (simp add: set_candidates)

lemma levels_config_ok:
  assumes "config_ok N (config m)" "old \<le> N" "n \<le> N"
  shows "config_ok N (levels_config R s new old n m)"
    "scalars (levels_config R s new old n m) = scalars (config m)"
proof -
  let ?cs = "candidates R (write_source s m)"
  have "config_ok N (fold (merge_level ?cs s) [0..<min n old] (config m))"
    using assms by (intro merge_levels.fold_ok) auto
  then have "config_ok N (fold (merge_new_priority ?cs s) [n..<old]
      (fold (merge_new_priority ?cs s) [old..<n]
        (fold (merge_level ?cs s) [0..<min n old] (config m))))"
    using assms by (intro merge_priority.fold_ok) auto
  then show "config_ok N (levels_config R s new old n m)"
    using single_levels_config_ok[OF assms] by (simp add: levels_config_def Let_def)
  show "scalars (levels_config R s new old n m) = scalars (config m)"
    using single_levels_config_ok[OF assms]
    by (simp add: levels_config_def Let_def fold_scalars merge_new_priority_scalars merge_level_scalars)
qed

lemma update_levels_inv:
  assumes R: "rbtree_laws R wft" and inv: "merger_inv P R wft m"
    and h: "h \<in> set (rb_iter R (source_state_lookup m))" and len: "n \<le> length new"
  shows "merger_inv P R wft (update_levels P R h new n m)"
proof -
  let ?N = "max_slots P" and ?s0 = "source_mem m h"
  define old where "old = valid_level_count ?s0"
  define s where "s = store_levels new old n (?s0\<lparr>valid_level_count := n\<rparr>)"
  have ok: "merger_ok P R wft m" using inv by (simp add: merger_inv_def)
  have s0: "source_ok ?N ?s0" "handle ?s0 = h" "h \<noteq> kSacnDmxMergerSourceInvalid"
    and cok: "config_ok ?N (config m)" and wf: "wft (source_state_lookup m)"
    using ok h by (auto simp: merger_ok_def)
  have oldN: "old \<le> ?N" using s0 by (simp add: old_def source_ok_def)
  show ?thesis
  proof (cases "n \<le> ?N \<and> (n \<noteq> old \<or> \<not> memcmp_eq new (levels ?s0) n)")
    case False
    then have "update_levels P R h new n m = m"
      using update_levels_unchanged[OF ok h] by (cases "n \<le> ?N") (auto simp: old_def update_levels_def)
    then show ?thesis using inv by simp
  next
    case True
    then have n: "n \<le> ?N" by simp
    note s = updated_source_ok[OF s0(1) n len s_def[unfolded old_def]]
    have hs: "handle s = h" using s0 s by simp
    have old_merged: "slot_merged (insert ?s0 (others R h m)) i (cell (config m) i)" if "i < ?N" for i
      using inv that sources_split[OF h] by (simp add: merger_inv_def output_ok_def)
    have merged: "slot_merged (insert s (others R h m)) i (cell (levels_config R s new old n m) i)"
      if i: "i < ?N" for i
    proof (cases "rb_size R (source_state_lookup m) = 1")
      case True
      then have "others R h m = {}" using single_source[OF R ok True h] by simp
      then show ?thesis
        using True s s0 old_merged[OF i] len
          single_levels_merged[OF cok oldN n i, of ?s0 s new]
        by (simp add: levels_config_def old_def nth_append)
    next
      case False
      have "slot_merged (insert s (others R h m)) i
          (cell (fold (merge_new_priority (candidates R (write_source s m)) s) [n..<old]
            (fold (merge_new_priority (candidates R (write_source s m)) s) [old..<n]
              (fold (merge_level (candidates R (write_source s m)) s) [0..<min n old] (config m)))) i)"
        using s s0 hs others_ok[OF ok] candidates_write[of s R m] h
        by (intro multi_levels_merged[OF cok i oldN n old_merged[OF i] old_def _ _ _ _ _ _ _
              refl refl refl]) auto
      then show ?thesis using False by (simp add: levels_config_def Let_def)
    qed
    have "update_levels P R h new n m = (write_source s m)\<lparr>config := levels_config R s new old n m\<rparr>"
      using True oldN n s0 by (intro update_levels_changed) (auto simp: s_def old_def)
    then show ?thesis
      using inv h s s0 hs merged levels_config_ok[OF cok oldN n]
      by (auto intro: merger_inv_write)
  qed
qed

end
