(* ===== verification/DmxMergerApi.thy ===== *)
theory DmxMergerApi
  imports DmxMergerInv
begin

text \<open>
  The merger module (src/sACN/src/sacn/dmx_merger.c) around the update functions: the tree of
  mergers, handle lookup, creation and destruction, adding and removing sources, and the public
  functions with their argument checks.

  A call's environment (\<open>call_env\<close>) says what the functions outside the module return during the
  call: whether the feature is initialized, whether the mutex is taken, and whether each of the
  two allocations (the struct, the tree node) succeeds. EtcPal's containers and its integer
  handle manager are the parameter \<open>merger_ext\<close>.
\<close>

section \<open>State and environment\<close>

record ('t, 'm, 'h) merger_ext =
  source_tree :: "(u16, 't) rbtree_ops"
  merger_tree :: "(int, 'm) rbtree_ops"
  init_int_handle_manager :: "int \<Rightarrow> 'h"
  get_next_int_handle :: "(int \<Rightarrow> bool) \<Rightarrow> 'h \<Rightarrow> int \<times> 'h"

record ('t, 'm, 'h) merger_module =
  mergers :: 'm
  merger_mem :: "int \<Rightarrow> ('t, 'h) merger_state"
  merger_handle_mgr :: 'h

record call_env =
  is_initialized :: bool
  lock_taken :: bool
  struct_alloc_ok :: bool
  node_alloc_ok :: bool

text \<open>The configuration a caller passes: which of the pointers are non-NULL.\<close>

record merger_config_arg =
  levels_given :: bool
  priorities_given :: bool
  priorities_active_given :: bool
  universe_priority_given :: bool
  owners_given :: bool
  arg_source_count_max :: int

definition write_merger ::
    "('t, 'h) merger_state \<Rightarrow> ('t, 'm, 'h) merger_module \<Rightarrow> ('t, 'm, 'h) merger_module" where
  "write_merger m st = st\<lparr>merger_mem := (merger_mem st)(merger_handle m := m)\<rparr>"

section \<open>Lookup and handles\<close>

definition merger_state_lookup_compare_func ::
    "('t, 'h) merger_state \<Rightarrow> ('t, 'h) merger_state \<Rightarrow> int" where
  "merger_state_lookup_compare_func lhs rhs =
     of_bool (merger_handle lhs > merger_handle rhs) - of_bool (merger_handle lhs < merger_handle rhs)"

definition merger_handle_in_use ::
    "('t, 'm, 'h) merger_ext \<Rightarrow> ('t, 'm, 'h) merger_module \<Rightarrow> int \<Rightarrow> bool" where
  "merger_handle_in_use E st handle_val \<longleftrightarrow>
     handle_val = kSacnDmxMergerInvalid \<or> rb_find (merger_tree E) (mergers st) handle_val"

text \<open>The tree is searched for the 16-bit value at the address of the handle.\<close>

definition source_handle_in_use ::
    "('t, 'm, 'h) merger_ext \<Rightarrow> ('t, 'h) merger_state \<Rightarrow> int \<Rightarrow> bool" where
  "source_handle_in_use E m handle_val \<longleftrightarrow>
     rb_find (source_tree E) (source_state_lookup m) (word_of_int handle_val)"

text \<open>
  \<open>lookup_state\<close> with a non-NULL or (\<open>want_source = False\<close>) a NULL \<open>source_state\<close> argument.
\<close>

definition lookup_state ::
    "('t, 'm, 'h) merger_ext \<Rightarrow> ('t, 'm, 'h) merger_module \<Rightarrow> int \<Rightarrow> u16 \<Rightarrow> bool \<Rightarrow>
     etcpal_error \<times> ('t, 'h) merger_state option \<times> source_state option" where
  "lookup_state E st merger source want_source =
     (if \<not> rb_find (merger_tree E) (mergers st) merger then (kEtcPalErrNotFound, None, None)
      else
        let my_merger_state = merger_mem st merger in
        if want_source then
          if \<not> rb_find (source_tree E) (source_state_lookup my_merger_state) source
          then (kEtcPalErrNotFound, None, None)
          else (kEtcPalErrOk, Some my_merger_state, Some (source_mem my_merger_state source))
        else (kEtcPalErrOk, Some my_merger_state, None))"

definition get_number_of_mergers ::
    "('t, 'm, 'h) merger_ext \<Rightarrow> call_env \<Rightarrow> ('t, 'm, 'h) merger_module \<Rightarrow> nat" where
  "get_number_of_mergers E v st =
     (if lock_taken v then rb_size (merger_tree E) (mergers st) else 0)"

section \<open>Construction\<close>

definition construct_source_state ::
    "merger_opts \<Rightarrow> call_env \<Rightarrow> u16 \<Rightarrow> source_state option" where
  "construct_source_state P v h =
     (if h = kSacnDmxMergerSourceInvalid then None
      else if \<not> struct_alloc_ok v then None
      else Some \<lparr>source_id = h, levels = replicate (max_slots P) 0, valid_level_count = 0,
                 universe_priority = 0, address_priority = replicate (max_slots P) 0,
                 using_universe_priority = True, handle = h, pap_count = 0,
                 universe_priority_uninitialized = True\<rparr>)"

definition construct_merger_state ::
    "merger_opts \<Rightarrow> ('t, 'm, 'h) merger_ext \<Rightarrow> call_env \<Rightarrow> int \<Rightarrow> merger_config_arg \<Rightarrow>
     (u16 \<Rightarrow> source_state) \<Rightarrow> ('t, 'h) merger_state option" where
  "construct_merger_state P E v h cfg mem =
     (if h = kSacnDmxMergerInvalid then None
      else if \<not> levels_given cfg then None
      else if disable_internal_pap_buffer P \<and> \<not> priorities_given cfg then None
      else if disable_internal_owner_buffer P \<and> \<not> owners_given cfg then None
      else if \<not> struct_alloc_ok v then None
      else Some \<lparr>merger_handle = h,
                 source_handle_mgr = init_int_handle_manager E (0xffff - 1),
                 source_state_lookup = rb_init (source_tree E),
                 source_mem = mem,
                 config = \<lparr>out_levels = replicate (max_slots P) 0,
                           per_address_priorities = replicate (max_slots P) 0,
                           per_address_priorities_active =
                             (if priorities_active_given cfg then Some False else None),
                           out_universe_priority =
                             (if universe_priority_given cfg then Some 0 else None),
                           owners = replicate (max_slots P) kSacnDmxMergerSourceInvalid,
                           source_count_max = arg_source_count_max cfg\<rparr>\<rparr>)"

section \<open>Functions that need the lock\<close>

text \<open>Each returns the error code and the new state; \<open>create\<close> and \<open>add\<close> also the handle.\<close>

definition create_sacn_dmx_merger ::
    "merger_opts \<Rightarrow> ('t, 'm, 'h) merger_ext \<Rightarrow> call_env \<Rightarrow> merger_config_arg \<Rightarrow>
     (u16 \<Rightarrow> source_state) \<Rightarrow> ('t, 'm, 'h) merger_module \<Rightarrow>
     etcpal_error \<times> int option \<times> ('t, 'm, 'h) merger_module" where
  "create_sacn_dmx_merger P E v cfg mem st =
     (let (h, mgr) = get_next_int_handle E (merger_handle_in_use E st) (merger_handle_mgr st);
          st1 = st\<lparr>merger_handle_mgr := mgr\<rparr>
      in case construct_merger_state P E v h cfg mem of
           None \<Rightarrow> (kEtcPalErrNoMem, None, st1)
         | Some m \<Rightarrow>
             (case rb_insert (merger_tree E) (node_alloc_ok v) (mergers st1) (merger_handle m) of
                (insert_result, t) \<Rightarrow>
                  if insert_result = kEtcPalErrOk
                  then (kEtcPalErrOk, Some (merger_handle m), write_merger m (st1\<lparr>mergers := t\<rparr>))
                  else (if insert_result = kEtcPalErrNoMem then kEtcPalErrNoMem else kEtcPalErrSys,
                        None, st1\<lparr>mergers := t\<rparr>)))"

definition destroy_sacn_dmx_merger ::
    "('t, 'm, 'h) merger_ext \<Rightarrow> int \<Rightarrow> ('t, 'm, 'h) merger_module \<Rightarrow>
     etcpal_error \<times> ('t, 'm, 'h) merger_module" where
  "destroy_sacn_dmx_merger E h st =
     (if h = kSacnDmxMergerInvalid then (kEtcPalErrSys, st)
      else case lookup_state E st h kSacnDmxMergerSourceInvalid False of
        (result, Some m, _) \<Rightarrow>
          (case rb_clear (source_tree E) (source_state_lookup m) of (clear_result, t) \<Rightarrow>
             let st1 = write_merger (m\<lparr>source_state_lookup := t\<rparr>) st in
             if clear_result \<noteq> kEtcPalErrOk then (kEtcPalErrSys, st1)
             else case rb_remove (merger_tree E) (mergers st1) h of (remove_result, mt) \<Rightarrow>
                    (if remove_result \<noteq> kEtcPalErrOk then kEtcPalErrSys else kEtcPalErrOk,
                     st1\<lparr>mergers := mt\<rparr>))
      | (result, None, _) \<Rightarrow> (result, st))"

definition source_count_reached ::
    "merger_opts \<Rightarrow> (u16, 't) rbtree_ops \<Rightarrow> ('t, 'h) merger_state \<Rightarrow> bool" where
  "source_count_reached P R m =
     (let source_count_max =
            (if dynamic_mem P then nat (source_count_max (config m) mod 2 ^ 64)
             else max_sources_per_merger P)
      in (source_count_max \<noteq> kSacnReceiverInfiniteSources \<or> \<not> dynamic_mem P) \<and>
         rb_size R (source_state_lookup m) \<ge> source_count_max)"

definition add_source ::
    "merger_opts \<Rightarrow> ('t, 'm, 'h) merger_ext \<Rightarrow> call_env \<Rightarrow> int \<Rightarrow> u16 \<Rightarrow>
     ('t, 'm, 'h) merger_module \<Rightarrow> etcpal_error \<times> u16 option \<times> ('t, 'm, 'h) merger_module" where
  "add_source P E v merger id_to_use st =
     (if merger = kSacnDmxMergerInvalid then (kEtcPalErrSys, None, st)
      else case lookup_state E st merger kSacnDmxMergerSourceInvalid False of
        (_, None, _) \<Rightarrow> (kEtcPalErrInvalid, None, st)
      | (_, Some m, _) \<Rightarrow>
          if source_count_reached P (source_tree E) m then (kEtcPalErrNoMem, None, st)
          else
            let (h, m1) =
                  (if id_to_use = kSacnDmxMergerSourceInvalid
                   then let (i, mgr) = get_next_int_handle E (source_handle_in_use E m)
                                         (source_handle_mgr m)
                        in (word_of_int i :: u16, m\<lparr>source_handle_mgr := mgr\<rparr>)
                   else (id_to_use, m))
            in case construct_source_state P v h of
                 None \<Rightarrow> (kEtcPalErrNoMem, None, write_merger m1 st)
               | Some s \<Rightarrow>
                   (case rb_insert (source_tree E) (node_alloc_ok v) (source_state_lookup m1)
                           (handle s) of
                      (insert_result, t) \<Rightarrow>
                        if insert_result = kEtcPalErrOk
                        then (kEtcPalErrOk, Some h,
                              write_merger (write_source s (m1\<lparr>source_state_lookup := t\<rparr>)) st)
                        else (if insert_result = kEtcPalErrNoMem then kEtcPalErrNoMem
                              else kEtcPalErrSys,
                              None, write_merger (m1\<lparr>source_state_lookup := t\<rparr>) st)))"

definition add_sacn_dmx_merger_source ::
    "merger_opts \<Rightarrow> ('t, 'm, 'h) merger_ext \<Rightarrow> call_env \<Rightarrow> int \<Rightarrow>
     ('t, 'm, 'h) merger_module \<Rightarrow> etcpal_error \<times> u16 option \<times> ('t, 'm, 'h) merger_module" where
  "add_sacn_dmx_merger_source P E v merger st =
     (if merger = kSacnDmxMergerInvalid then (kEtcPalErrSys, None, st)
      else add_source P E v merger kSacnDmxMergerSourceInvalid st)"

definition add_sacn_dmx_merger_source_with_handle ::
    "merger_opts \<Rightarrow> ('t, 'm, 'h) merger_ext \<Rightarrow> call_env \<Rightarrow> int \<Rightarrow> u16 \<Rightarrow>
     ('t, 'm, 'h) merger_module \<Rightarrow> etcpal_error \<times> ('t, 'm, 'h) merger_module" where
  "add_sacn_dmx_merger_source_with_handle P E v merger handle_to_use st =
     (if merger = kSacnDmxMergerInvalid \<or> handle_to_use = kSacnDmxMergerSourceInvalid
      then (kEtcPalErrSys, st)
      else case add_source P E v merger handle_to_use st of (result, _, st') \<Rightarrow> (result, st'))"

text \<open>
  The part of \<open>remove_sacn_dmx_merger_source\<close> that works on the merger it has found:
  \<open>h\<close> is the handle of \<open>source_being_removed\<close>.
\<close>

definition remove_found_source ::
    "merger_opts \<Rightarrow> (u16, 't) rbtree_ops \<Rightarrow> u16 \<Rightarrow> ('t, 'h) merger_state \<Rightarrow>
     etcpal_error \<times> ('t, 'h) merger_state" where
  "remove_found_source P R h m =
     (let s0 = source_mem m h;
          s = s0\<lparr>address_priority := memset_at (address_priority s0) 0 0 (max_slots P)\<rparr>;
          m1 = merge_new_priorities R s 0 (max_slots P) (write_source s m);
          m2 = (if per_address_priorities_active (config m1) = Some True \<and> pap_active s
                then recalculate_pap_active R (write_source (set_pap_inactive s) m1)
                else m1);
          m3 = (case out_universe_priority (config m2) of
                  None \<Rightarrow> m2
                | Some p \<Rightarrow>
                    if universe_priority (source_mem m2 h) \<ge> p
                    then recalculate_universe_priority R
                           (write_source ((source_mem m2 h)\<lparr>universe_priority := 0\<rparr>) m2)
                    else m2)
      in case rb_remove R (source_state_lookup m3) h of (remove_result, t) \<Rightarrow>
           (if remove_result \<noteq> kEtcPalErrOk then kEtcPalErrSys else kEtcPalErrOk,
            m3\<lparr>source_state_lookup := t\<rparr>))"

definition remove_sacn_dmx_merger_source ::
    "merger_opts \<Rightarrow> ('t, 'm, 'h) merger_ext \<Rightarrow> int \<Rightarrow> u16 \<Rightarrow>
     ('t, 'm, 'h) merger_module \<Rightarrow> etcpal_error \<times> ('t, 'm, 'h) merger_module" where
  "remove_sacn_dmx_merger_source P E merger source st =
     (if merger = kSacnDmxMergerInvalid \<or> source = kSacnDmxMergerSourceInvalid
      then (kEtcPalErrSys, st)
      else case lookup_state E st merger source True of
        (_, Some m, Some _) \<Rightarrow>
          (case remove_found_source P (source_tree E) source m of
             (result, m') \<Rightarrow> (result, write_merger m' st))
      | _ \<Rightarrow> (kEtcPalErrInvalid, st))"

definition update_sacn_dmx_merger_levels ::
    "merger_opts \<Rightarrow> ('t, 'm, 'h) merger_ext \<Rightarrow> int \<Rightarrow> u16 \<Rightarrow> u8 list option \<Rightarrow> nat \<Rightarrow>
     ('t, 'm, 'h) merger_module \<Rightarrow> etcpal_error \<times> ('t, 'm, 'h) merger_module" where
  "update_sacn_dmx_merger_levels P E merger source new_levels new_levels_count st =
     (if merger = kSacnDmxMergerInvalid \<or> source = kSacnDmxMergerSourceInvalid
      then (kEtcPalErrSys, st)
      else case lookup_state E st merger source True of
        (result, Some m, Some _) \<Rightarrow>
          (case new_levels of
             Some ls \<Rightarrow> (result, write_merger
                (update_levels P (source_tree E) source ls (new_levels_count mod 2 ^ 16) m) st)
           | None \<Rightarrow> (result, st))
      | (result, _, _) \<Rightarrow> (result, st))"

definition update_sacn_dmx_merger_pap ::
    "merger_opts \<Rightarrow> ('t, 'm, 'h) merger_ext \<Rightarrow> int \<Rightarrow> u16 \<Rightarrow> u8 list option \<Rightarrow> nat \<Rightarrow>
     ('t, 'm, 'h) merger_module \<Rightarrow> etcpal_error \<times> ('t, 'm, 'h) merger_module" where
  "update_sacn_dmx_merger_pap P E merger source pap count st =
     (if merger = kSacnDmxMergerInvalid \<or> source = kSacnDmxMergerSourceInvalid
      then (kEtcPalErrSys, st)
      else case lookup_state E st merger source True of
        (result, Some m, Some _) \<Rightarrow>
          (case pap of
             Some ps \<Rightarrow> (result, write_merger
                (update_pap P (source_tree E) source ps (count mod 2 ^ 16) m) st)
           | None \<Rightarrow> (result, st))
      | (result, _, _) \<Rightarrow> (result, st))"

definition update_sacn_dmx_merger_universe_priority ::
    "merger_opts \<Rightarrow> ('t, 'm, 'h) merger_ext \<Rightarrow> int \<Rightarrow> u16 \<Rightarrow> u8 \<Rightarrow>
     ('t, 'm, 'h) merger_module \<Rightarrow> etcpal_error \<times> ('t, 'm, 'h) merger_module" where
  "update_sacn_dmx_merger_universe_priority P E merger source priority st =
     (if merger = kSacnDmxMergerInvalid \<or> source = kSacnDmxMergerSourceInvalid
      then (kEtcPalErrSys, st)
      else case lookup_state E st merger source True of
        (result, Some m, Some _) \<Rightarrow>
          (result, write_merger (update_universe_priority P (source_tree E) source priority m) st)
      | (result, _, _) \<Rightarrow> (result, st))"

text \<open>The part of \<open>remove_sacn_dmx_merger_pap\<close> that works on the source it has found.\<close>

definition remove_found_pap ::
    "merger_opts \<Rightarrow> (u16, 't) rbtree_ops \<Rightarrow> u16 \<Rightarrow> ('t, 'h) merger_state \<Rightarrow>
     ('t, 'h) merger_state" where
  "remove_found_pap P R h m =
     (let s0 = source_mem m h;
          pap_was_active = pap_active s0;
          s1 = set_pap_inactive s0;
          s = s1\<lparr>address_priority :=
                   memset_at (address_priority s1) 0
                     (if universe_priority s1 = 0 then 1 else universe_priority s1)
                     (max_slots P)\<rparr>;
          m1 = merge_new_priorities R s 0 (valid_level_count s) (write_source s m)
      in if per_address_priorities_active (config m1) \<noteq> None \<and> pap_was_active
         then recalculate_pap_active R m1 else m1)"

definition remove_sacn_dmx_merger_pap ::
    "merger_opts \<Rightarrow> ('t, 'm, 'h) merger_ext \<Rightarrow> int \<Rightarrow> u16 \<Rightarrow>
     ('t, 'm, 'h) merger_module \<Rightarrow> etcpal_error \<times> ('t, 'm, 'h) merger_module" where
  "remove_sacn_dmx_merger_pap P E merger source st =
     (if merger = kSacnDmxMergerInvalid \<or> source = kSacnDmxMergerSourceInvalid
      then (kEtcPalErrSys, st)
      else case lookup_state E st merger source True of
        (result, Some m, Some _) \<Rightarrow>
          (result, write_merger (remove_found_pap P (source_tree E) source m) st)
      | (result, _, _) \<Rightarrow> (result, st))"

section \<open>The public functions\<close>

text \<open>
  \<open>init_env\<close>: whether \<open>etcpal_mutex_create\<close> succeeds and what the three \<open>etcpal_mempool_init\<close>
  calls return.
\<close>

record init_env =
  mutex_created :: bool
  source_pool_result :: etcpal_error
  merger_pool_result :: etcpal_error
  node_pool_result :: etcpal_error

definition sacn_dmx_merger_init ::
    "merger_opts \<Rightarrow> ('t, 'm, 'h) merger_ext \<Rightarrow> init_env \<Rightarrow> ('t, 'm, 'h) merger_module \<Rightarrow>
     etcpal_error \<times> ('t, 'm, 'h) merger_module" where
  "sacn_dmx_merger_init P E v st =
     (let res0 = (if \<not> dynamic_mem P \<and> (max_mergers P \<le> 0 \<or> max_sources_per_merger P \<le> 0)
                  then kEtcPalErrInvalid else kEtcPalErrOk);
          res1 = (if res0 = kEtcPalErrOk \<and> \<not> mutex_created v then kEtcPalErrSys else res0);
          res2 = (if \<not> dynamic_mem P \<and> res1 = kEtcPalErrOk then source_pool_result v else res1);
          res3 = (if \<not> dynamic_mem P \<and> res2 = kEtcPalErrOk then merger_pool_result v else res2);
          res4 = (if \<not> dynamic_mem P \<and> res3 = kEtcPalErrOk then node_pool_result v else res3)
      in (res4,
          if res4 = kEtcPalErrOk
          then st\<lparr>mergers := rb_init (merger_tree E),
                  merger_handle_mgr := init_int_handle_manager E (-1)\<rparr>
          else st))"

definition sacn_dmx_merger_deinit ::
    "('t, 'm, 'h) merger_ext \<Rightarrow> call_env \<Rightarrow> ('t, 'm, 'h) merger_module \<Rightarrow>
     ('t, 'm, 'h) merger_module" where
  "sacn_dmx_merger_deinit E v st =
     (if lock_taken v then st\<lparr>mergers := snd (rb_clear (merger_tree E) (mergers st))\<rparr> else st)"

text \<open>\<open>config = None\<close> is a NULL configuration, \<open>want_handle = False\<close> a NULL \<open>handle\<close>.\<close>

definition sacn_dmx_merger_create ::
    "merger_opts \<Rightarrow> ('t, 'm, 'h) merger_ext \<Rightarrow> call_env \<Rightarrow> merger_config_arg option \<Rightarrow> bool \<Rightarrow>
     (u16 \<Rightarrow> source_state) \<Rightarrow> ('t, 'm, 'h) merger_module \<Rightarrow>
     etcpal_error \<times> int option \<times> ('t, 'm, 'h) merger_module" where
  "sacn_dmx_merger_create P E v cfg want_handle mem st =
     (if \<not> is_initialized v then (kEtcPalErrNotInit, None, st)
      else case cfg of
        None \<Rightarrow> (kEtcPalErrInvalid, None, st)
      | Some c \<Rightarrow>
          if \<not> want_handle \<or> \<not> levels_given c then (kEtcPalErrInvalid, None, st)
          else if disable_internal_pap_buffer P \<and> \<not> priorities_given c
          then (kEtcPalErrInvalid, None, st)
          else if disable_internal_owner_buffer P \<and> \<not> owners_given c
          then (kEtcPalErrInvalid, None, st)
          else if lock_taken v then create_sacn_dmx_merger P E v c mem st
          else (kEtcPalErrSys, None, st))"

definition sacn_dmx_merger_destroy ::
    "('t, 'm, 'h) merger_ext \<Rightarrow> call_env \<Rightarrow> int \<Rightarrow> ('t, 'm, 'h) merger_module \<Rightarrow>
     etcpal_error \<times> ('t, 'm, 'h) merger_module" where
  "sacn_dmx_merger_destroy E v h st =
     (if \<not> is_initialized v then (kEtcPalErrNotInit, st)
      else if h = kSacnDmxMergerInvalid then (kEtcPalErrNotFound, st)
      else if lock_taken v then destroy_sacn_dmx_merger E h st
      else (kEtcPalErrSys, st))"

definition sacn_dmx_merger_add_source ::
    "merger_opts \<Rightarrow> ('t, 'm, 'h) merger_ext \<Rightarrow> call_env \<Rightarrow> int \<Rightarrow> bool \<Rightarrow>
     ('t, 'm, 'h) merger_module \<Rightarrow> etcpal_error \<times> u16 option \<times> ('t, 'm, 'h) merger_module" where
  "sacn_dmx_merger_add_source P E v merger want_source_id st =
     (if \<not> is_initialized v then (kEtcPalErrNotInit, None, st)
      else if \<not> want_source_id \<or> merger = kSacnDmxMergerInvalid then (kEtcPalErrInvalid, None, st)
      else if lock_taken v then add_sacn_dmx_merger_source P E v merger st
      else (kEtcPalErrSys, None, st))"

definition sacn_dmx_merger_remove_source ::
    "merger_opts \<Rightarrow> ('t, 'm, 'h) merger_ext \<Rightarrow> call_env \<Rightarrow> int \<Rightarrow> u16 \<Rightarrow>
     ('t, 'm, 'h) merger_module \<Rightarrow> etcpal_error \<times> ('t, 'm, 'h) merger_module" where
  "sacn_dmx_merger_remove_source P E v merger source st =
     (if \<not> is_initialized v then (kEtcPalErrNotInit, st)
      else if merger = kSacnDmxMergerInvalid \<or> source = kSacnDmxMergerSourceInvalid
      then (kEtcPalErrInvalid, st)
      else if lock_taken v then remove_sacn_dmx_merger_source P E merger source st
      else (kEtcPalErrSys, st))"

definition sacn_dmx_merger_get_source ::
    "('t, 'm, 'h) merger_ext \<Rightarrow> call_env \<Rightarrow> int \<Rightarrow> u16 \<Rightarrow> ('t, 'm, 'h) merger_module \<Rightarrow>
     dmx_merger_source option" where
  "sacn_dmx_merger_get_source E v merger source st =
     (if merger \<noteq> kSacnDmxMergerInvalid \<and> source \<noteq> kSacnDmxMergerSourceInvalid \<and> lock_taken v
      then case lookup_state E st merger source True of
             (_, _, Some s) \<Rightarrow> Some (dmx_merger_source.truncate s)
           | _ \<Rightarrow> None
      else None)"

definition sacn_dmx_merger_update_levels ::
    "merger_opts \<Rightarrow> ('t, 'm, 'h) merger_ext \<Rightarrow> call_env \<Rightarrow> int \<Rightarrow> u16 \<Rightarrow> u8 list option \<Rightarrow> nat \<Rightarrow>
     ('t, 'm, 'h) merger_module \<Rightarrow> etcpal_error \<times> ('t, 'm, 'h) merger_module" where
  "sacn_dmx_merger_update_levels P E v merger source new_levels new_levels_count st =
     (if \<not> is_initialized v then (kEtcPalErrNotInit, st)
      else if merger = kSacnDmxMergerInvalid \<or> source = kSacnDmxMergerSourceInvalid \<or>
              new_levels_count > max_slots P \<or> new_levels = None \<or> new_levels_count = 0
      then (kEtcPalErrInvalid, st)
      else if lock_taken v
      then update_sacn_dmx_merger_levels P E merger source new_levels new_levels_count st
      else (kEtcPalErrSys, st))"

definition sacn_dmx_merger_update_pap ::
    "merger_opts \<Rightarrow> ('t, 'm, 'h) merger_ext \<Rightarrow> call_env \<Rightarrow> int \<Rightarrow> u16 \<Rightarrow> u8 list option \<Rightarrow> nat \<Rightarrow>
     ('t, 'm, 'h) merger_module \<Rightarrow> etcpal_error \<times> ('t, 'm, 'h) merger_module" where
  "sacn_dmx_merger_update_pap P E v merger source pap count st =
     (if \<not> is_initialized v then (kEtcPalErrNotInit, st)
      else if merger = kSacnDmxMergerInvalid \<or> source = kSacnDmxMergerSourceInvalid \<or>
              count > max_slots P \<or> pap = None \<or> count = 0
      then (kEtcPalErrInvalid, st)
      else if lock_taken v then update_sacn_dmx_merger_pap P E merger source pap count st
      else (kEtcPalErrSys, st))"

definition sacn_dmx_merger_update_universe_priority ::
    "merger_opts \<Rightarrow> ('t, 'm, 'h) merger_ext \<Rightarrow> call_env \<Rightarrow> int \<Rightarrow> u16 \<Rightarrow> u8 \<Rightarrow>
     ('t, 'm, 'h) merger_module \<Rightarrow> etcpal_error \<times> ('t, 'm, 'h) merger_module" where
  "sacn_dmx_merger_update_universe_priority P E v merger source priority st =
     (if \<not> is_initialized v then (kEtcPalErrNotInit, st)
      else if merger = kSacnDmxMergerInvalid \<or> source = kSacnDmxMergerSourceInvalid
      then (kEtcPalErrInvalid, st)
      else if lock_taken v
      then update_sacn_dmx_merger_universe_priority P E merger source priority st
      else (kEtcPalErrSys, st))"

definition sacn_dmx_merger_remove_pap ::
    "merger_opts \<Rightarrow> ('t, 'm, 'h) merger_ext \<Rightarrow> call_env \<Rightarrow> int \<Rightarrow> u16 \<Rightarrow>
     ('t, 'm, 'h) merger_module \<Rightarrow> etcpal_error \<times> ('t, 'm, 'h) merger_module" where
  "sacn_dmx_merger_remove_pap P E v merger source st =
     (if \<not> is_initialized v then (kEtcPalErrNotInit, st)
      else if merger = kSacnDmxMergerInvalid \<or> source = kSacnDmxMergerSourceInvalid
      then (kEtcPalErrNotFound, st)
      else if lock_taken v then remove_sacn_dmx_merger_pap P E merger source st
      else (kEtcPalErrSys, st))"

section \<open>Sequences of calls\<close>

text \<open>The calls an application can make, each with what its environment does.\<close>

datatype merger_call =
    Create call_env "merger_config_arg option" bool "u16 \<Rightarrow> source_state"
  | Destroy call_env int
  | AddSource call_env int bool
  | RemoveSource call_env int u16
  | UpdateLevels call_env int u16 "u8 list option" nat
  | UpdatePap call_env int u16 "u8 list option" nat
  | UpdateUniversePriority call_env int u16 u8
  | RemovePap call_env int u16

fun exec_call ::
    "merger_opts \<Rightarrow> ('t, 'm, 'h) merger_ext \<Rightarrow> merger_call \<Rightarrow> ('t, 'm, 'h) merger_module \<Rightarrow>
     ('t, 'm, 'h) merger_module" where
  "exec_call P E (Create v cfg want mem) st = snd (snd (sacn_dmx_merger_create P E v cfg want mem st))"
| "exec_call P E (Destroy v h) st = snd (sacn_dmx_merger_destroy E v h st)"
| "exec_call P E (AddSource v h want) st = snd (snd (sacn_dmx_merger_add_source P E v h want st))"
| "exec_call P E (RemoveSource v h s) st = snd (sacn_dmx_merger_remove_source P E v h s st)"
| "exec_call P E (UpdateLevels v h s ls n) st = snd (sacn_dmx_merger_update_levels P E v h s ls n st)"
| "exec_call P E (UpdatePap v h s ps n) st = snd (sacn_dmx_merger_update_pap P E v h s ps n st)"
| "exec_call P E (UpdateUniversePriority v h s p) st =
     snd (sacn_dmx_merger_update_universe_priority P E v h s p st)"
| "exec_call P E (RemovePap v h s) st = snd (sacn_dmx_merger_remove_pap P E v h s st)"

text \<open>The caller's buffers hold at least the number of elements it announces.\<close>

fun call_ok :: "merger_call \<Rightarrow> bool" where
  "call_ok (UpdateLevels v h s (Some ls) n) \<longleftrightarrow> n \<le> length ls"
| "call_ok (UpdatePap v h s (Some ps) n) \<longleftrightarrow> n \<le> length ps"
| "call_ok _ \<longleftrightarrow> True"

end
