(* ===== verification/DmxMergerPriority.thy ===== *)
theory DmxMergerPriority
  imports DmxMergerApi
begin

text \<open>
  Preservation of the merger's invariant by the functions that change priorities:
  \<open>update_pap\<close>, \<open>update_universe_priority\<close> and the two loops that recompute the scalar outputs.
  Levels and level counts stay as they are here, so that one lemma about
  \<open>merge_new_priorities\<close> serves all multi-source paths.
\<close>

section \<open>The scalar outputs\<close>

lemma find_pap_active_iff: "find_pap_active ss \<longleftrightarrow> (\<exists>s \<in> set ss. pap_active s)"
  by (induction ss) auto

lemma max_universe_priority_ge:
  "p \<le> max_universe_priority ss p \<and> (\<forall>s \<in> set ss. universe_priority s \<le> max_universe_priority ss p)"
  by (induction ss arbitrary: p) (auto intro: order_trans order_less_imp_le dest: leI)

lemma max_universe_priority_attained:
  "max_universe_priority ss p = p \<or> (\<exists>s \<in> set ss. universe_priority s = max_universe_priority ss p)"
proof (induction ss arbitrary: p)
  case Nil
  then show ?case by simp
next
  case (Cons s ss)
  show ?case
    using Cons.IH[of "if universe_priority s > p then universe_priority s else p"] by auto
qed

lemma max_universe_priority_is_max:
  "is_max_universe_priority (set ss) (max_universe_priority ss 0)"
  using max_universe_priority_ge[of 0 ss] max_universe_priority_attained[of ss 0]
  by (auto simp: is_max_universe_priority_def)

lemma recalculate_simps [simp]:
  "source_state_lookup (recalculate_pap_active R m) = source_state_lookup m"
  "source_mem (recalculate_pap_active R m) = source_mem m"
  "merger_handle (recalculate_pap_active R m) = merger_handle m"
  "cell (config (recalculate_pap_active R m)) = cell (config m)"
  "config_ok n (config (recalculate_pap_active R m)) = config_ok n (config m)"
  "out_universe_priority (config (recalculate_pap_active R m)) = out_universe_priority (config m)"
  "per_address_priorities_active (config (recalculate_pap_active R m)) =
     Some (\<exists>s \<in> sources R m. pap_active s)"
  "source_state_lookup (recalculate_universe_priority R m) = source_state_lookup m"
  "source_mem (recalculate_universe_priority R m) = source_mem m"
  "merger_handle (recalculate_universe_priority R m) = merger_handle m"
  "cell (config (recalculate_universe_priority R m)) = cell (config m)"
  "config_ok n (config (recalculate_universe_priority R m)) = config_ok n (config m)"
  "per_address_priorities_active (config (recalculate_universe_priority R m)) =
     per_address_priorities_active (config m)"
  by (auto simp: recalculate_pap_active_def recalculate_universe_priority_def config_ok_def
      cell_def fun_eq_iff find_pap_active_iff set_candidates)

lemma set_out_universe_priority_simps [simp]:
  "cell (c\<lparr>out_universe_priority := x\<rparr>) = cell c"
  "config_ok n (c\<lparr>out_universe_priority := x\<rparr>) = config_ok n c"
  by (auto simp: cell_def config_ok_def fun_eq_iff)

lemma recalculate_universe_priority_is_max:
  "\<exists>p. out_universe_priority (config (recalculate_universe_priority R m)) = Some p \<and>
       is_max_universe_priority (sources R m) p"
  using max_universe_priority_is_max[of "candidates R m"]
  by (auto simp: recalculate_universe_priority_def set_candidates)

section \<open>A source whose priorities changed\<close>

text \<open>The rule that establishes the invariant after one source was rewritten.\<close>

lemma merger_inv_rewrite:
  assumes inv: "merger_inv P R wft m" and h: "h \<in> set (rb_iter R (source_state_lookup m))"
    and m': "source_state_lookup m' = source_state_lookup m"
      "source_mem m' = (source_mem m)(h := s)" "handle s = h"
    and s: "source_ok (max_slots P) s"
    and c: "config_ok (max_slots P) (config m')"
      "\<And>i. i < max_slots P \<Longrightarrow> slot_merged (insert s (others R h m)) i (cell (config m') i)"
    and act: "\<And>b. per_address_priorities_active (config m') = Some b \<Longrightarrow>
      b = (pap_active s \<or> (\<exists>x \<in> others R h m. pap_active x))"
    and univ: "\<And>p. out_universe_priority (config m') = Some p \<Longrightarrow>
      is_max_universe_priority (insert s (others R h m)) p"
  shows "merger_inv P R wft m'"
proof -
  have src: "sources R m' = insert s (others R h m)"
    using h m' by (auto simp: sources_def others_def)
  have "merger_ok P R wft m'"
    using inv m' s c(1) h by (auto simp: merger_inv_def merger_ok_def)
  then show ?thesis
    using c(2) act univ
    by (auto simp: merger_inv_def output_ok_def active_ok_def universe_ok_def src
        split: option.splits)
qed

lemma merger_inv_old:
  assumes "merger_inv P R wft m" "h \<in> set (rb_iter R (source_state_lookup m))"
  shows "source_ok (max_slots P) (source_mem m h)" "handle (source_mem m h) = h"
    "h \<noteq> kSacnDmxMergerSourceInvalid" "config_ok (max_slots P) (config m)"
    "wft (source_state_lookup m)"
    "i < max_slots P \<Longrightarrow> slot_merged (insert (source_mem m h) (others R h m)) i (cell (config m) i)"
    "x \<in> others R h m \<Longrightarrow> handle x \<noteq> h"
    "per_address_priorities_active (config m) = Some b \<Longrightarrow>
       b = (pap_active (source_mem m h) \<or> (\<exists>x \<in> others R h m. pap_active x))"
    "out_universe_priority (config m) = Some p \<Longrightarrow>
       is_max_universe_priority (insert (source_mem m h) (others R h m)) p"
  using assms sources_split[OF assms(2)] others_ok[of P R wft m x h]
  by (auto simp: merger_inv_def merger_ok_def output_ok_def active_ok_def universe_ok_def)

lemma multi_priority_merged:
  assumes N: "config_ok N c" "i < N" "valid_level_count s \<le> b" "b \<le> N"
    and old: "slot_merged (insert s0 S) i (cell c i)"
    and s: "handle s = handle s0" "valid_level_count s = valid_level_count s0"
      "levels s = levels s0"
    and h: "handle s \<noteq> kSacnDmxMergerSourceInvalid" "\<And>x. x \<in> S \<Longrightarrow> handle x \<noteq> handle s"
    and cs: "set cs = insert s S"
  shows "slot_merged (insert s S) i (cell (fold (merge_new_priority cs s) [0..<b] c) i)"
proof (cases "i < b")
  case True
  then have "cell (fold (merge_new_priority cs s) [0..<b] c) i = cell (merge_new_priority cs s i c) i"
    using N by (subst merge_priority.fold_view[where n = N]) auto
  moreover have "slot_merged (insert s S) i (cell (merge_new_priority cs s i c) i)"
    using N old s h cs by (intro merge_new_priority_merged[where n = N and ?s0.0 = s0]) auto
  ultimately show ?thesis by simp
next
  case False
  then have "cell (fold (merge_new_priority cs s) [0..<b] c) i = cell c i"
    using N by (subst merge_priority.fold_view[where n = N]) auto
  moreover have "slot_merged (insert s S) i (cell c i)"
    using False N s by (intro slot_merged_same[OF old]) (auto simp: calc_src_pap_def)
  ultimately show ?thesis by simp
qed

text \<open>The priorities loop of both multi-source paths, as one configuration.\<close>

definition priority_config ::
    "(u16, 't) rbtree_ops \<Rightarrow> source_state \<Rightarrow> nat \<Rightarrow> ('t, 'h) merger_state \<Rightarrow> merger_config" where
  "priority_config R s b m =
     fold (merge_new_priority (candidates R (write_source s m)) s) [0..<b] (config m)"

lemma priority_config_ok:
  "config_ok N (config m) \<Longrightarrow> b \<le> N \<Longrightarrow> config_ok N (priority_config R s b m)"
  "scalars (priority_config R s b m) = scalars (config m)"
  by (auto simp: priority_config_def fold_scalars merge_new_priority_scalars
      intro: merge_priority.fold_ok)

lemma priority_config_merged:
  assumes inv: "merger_inv P R wft m" "h \<in> set (rb_iter R (source_state_lookup m))"
    and s: "handle s = h" "valid_level_count s = valid_level_count (source_mem m h)"
      "levels s = levels (source_mem m h)"
    and b: "valid_level_count s \<le> b" "b \<le> max_slots P" and i: "i < max_slots P"
  shows "slot_merged (insert s (others R h m)) i (cell (priority_config R s b m) i)"
  unfolding priority_config_def
  using merger_inv_old[OF inv] s b i candidates_write[of s R m] inv(2)
  by (intro multi_priority_merged[where N = "max_slots P" and ?s0.0 = "source_mem m h"]) auto

section \<open>Per-address priorities\<close>

lemma store_pap_simps [simp]:
  "handle (store_pap ps old n s) = handle s"
  "valid_level_count (store_pap ps old n s) = valid_level_count s"
  "levels (store_pap ps old n s) = levels s"
  "universe_priority (store_pap ps old n s) = universe_priority s"
  "pap_count (store_pap ps old n s) = pap_count s"
  "using_universe_priority (store_pap ps old n s) = using_universe_priority s"
  by (simp_all add: store_pap_def Let_def)

lemma store_pap_length:
  "length (address_priority s) = N \<Longrightarrow> old \<le> N \<Longrightarrow> n \<le> N \<Longrightarrow> n \<le> length ps \<Longrightarrow>
   length (address_priority (store_pap ps old n s)) = N"
  by (simp add: store_pap_def Let_def)

lemma store_pap_nth:
  assumes "length (address_priority s) = N" "old \<le> N" "n \<le> N" "n \<le> length ps" "i < N"
  shows "address_priority (store_pap ps old n s) ! i =
    (if i < n then ps ! i else if i < old then 0 else address_priority s ! i)"
  using assms by (auto simp: store_pap_def Let_def)

definition single_pap_config :: "source_state \<Rightarrow> merger_config \<Rightarrow> merger_config" where
  "single_pap_config s c =
     fold (copy_slot s) [0..<valid_level_count s]
       (c\<lparr>per_address_priorities :=
            memcpy_at (per_address_priorities c) 0 (address_priority s) (valid_level_count s)\<rparr>)"

lemma single_pap_config_ok:
  assumes "config_ok N c" "valid_level_count s \<le> N" "length (address_priority s) = N"
  shows "config_ok N (single_pap_config s c)"
    and "scalars (single_pap_config s c) = scalars c"
proof -
  have "config_ok N (c\<lparr>per_address_priorities :=
      memcpy_at (per_address_priorities c) 0 (address_priority s) (valid_level_count s)\<rparr>)"
    using assms by (simp add: config_ok_def)
  then show "config_ok N (single_pap_config s c)"
    unfolding single_pap_config_def using assms copy_slots.fold_ok by blast
  show "scalars (single_pap_config s c) = scalars c"
    by (simp add: single_pap_config_def fold_scalars loop_scalars) (simp add: scalars_def)
qed

lemma single_pap_merged:
  assumes N: "config_ok N c" "i < N" "valid_level_count s \<le> N" "length (address_priority s) = N"
    and old: "slot_merged {s0} i (cell c i)"
    and s: "handle s = handle s0" "valid_level_count s = valid_level_count s0"
  shows "slot_merged {s} i (cell (single_pap_config s c) i)"
proof -
  define c1 where "c1 = c\<lparr>per_address_priorities :=
    memcpy_at (per_address_priorities c) 0 (address_priority s) (valid_level_count s)\<rparr>"
  have ok1: "config_ok N c1" using N by (simp add: config_ok_def c1_def)
  have "cell (single_pap_config s c) i =
      (if i < valid_level_count s then cell (copy_slot s i c1) i else cell c1 i)"
    unfolding single_pap_config_def c1_def[symmetric]
    using N ok1 by (subst copy_slots.fold_view[where n = N]) auto
  moreover have "per_address_priorities c1 ! i = address_priority s ! i" if "i < valid_level_count s"
    using N that by (simp add: c1_def config_ok_def)
  moreover have "cell c1 i = cell c i" if "\<not> i < valid_level_count s"
    using N that by (simp add: c1_def cell_defs)
  moreover have "cell c i = (out_levels c ! i, owners c ! i, per_address_priorities c ! i)"
    by (simp add: cell_def)
  ultimately show ?thesis
    using copy_slot_cell[OF ok1 N(2)] old s
    by (cases "i < valid_level_count s") (auto simp: slot_merged_single calc_src_pap_def)
qed

text \<open>Both paths of \<open>update_pap\<close>, the source it leaves and the configuration.\<close>

definition activate :: "merger_config \<Rightarrow> merger_config" where
  "activate c = (if per_address_priorities_active c \<noteq> None
                 then c\<lparr>per_address_priorities_active := Some True\<rparr> else c)"

lemma activate_simps [simp]:
  "cell (activate c) = cell c" "config_ok n (activate c) = config_ok n c"
  "out_universe_priority (activate c) = out_universe_priority c"
  "per_address_priorities_active (activate c) = Some b \<longleftrightarrow>
     b \<and> per_address_priorities_active c \<noteq> None"
  by (auto simp: activate_def cell_def config_ok_def fun_eq_iff)

definition pap_source :: "u8 list \<Rightarrow> nat \<Rightarrow> source_state \<Rightarrow> source_state" where
  "pap_source ps n s0 =
     (let s1 = s0\<lparr>using_universe_priority := False, pap_count := n\<rparr> in
      if n \<noteq> pap_count s0 \<or> \<not> memcmp_eq ps (address_priority s0) n
      then store_pap ps (pap_count s0) n s1 else s1)"

definition pap_config ::
    "(u16, 't) rbtree_ops \<Rightarrow> bool \<Rightarrow> source_state \<Rightarrow> ('t, 'h) merger_state \<Rightarrow> merger_config" where
  "pap_config R changed s m =
     (let m1 = m\<lparr>config := activate (config m)\<rparr> in
      if \<not> changed then config m1
      else if rb_size R (source_state_lookup m) = 1 then single_pap_config s (config m1)
      else priority_config R s (valid_level_count s) m1)"

lemma update_pap_eq:
  assumes "n \<le> max_slots P" "pap_count (source_mem m h) \<le> max_slots P"
    "handle (source_mem m h) = h"
  shows "update_pap P R h ps n m =
    (let s0 = source_mem m h; s = pap_source ps n s0 in
     (write_source s m)\<lparr>config := pap_config R
        (n \<noteq> pap_count s0 \<or> \<not> memcmp_eq ps (address_priority s0) n) s m\<rparr>)"
proof -
  define s0 where "s0 = source_mem m h"
  define s1 where "s1 = s0\<lparr>using_universe_priority := False, pap_count := n\<rparr>"
  define m2 where "m2 = (write_source s1 m)\<lparr>config := activate (config m)\<rparr>"
  define s where "s = store_pap ps (pap_count s0) n s1"
  have hs: "handle s1 = h" "handle s = h" using assms(3) by (simp_all add: s_def s1_def s0_def)
  have m2: "source_mem m2 h = s1" "source_state_lookup m2 = source_state_lookup m"
    "config m2 = activate (config m)"
    using hs by (simp_all add: m2_def)
  have ws: "write_source s m2 = (write_source s m)\<lparr>config := activate (config m)\<rparr>"
    using hs by (simp add: m2_def write_source_def)
  have cand: "candidates R (write_source s m2) =
      candidates R (write_source s (m\<lparr>config := activate (config m)\<rparr>))"
    using hs by (simp add: candidates_def m2_def)
  have upd: "update_pap P R h ps n m =
     (if n \<noteq> pap_count s0 \<or> \<not> memcmp_eq ps (address_priority s0) n
      then if rb_size R (source_state_lookup m) = 1
           then update_pap_single_source P h ps (pap_count s0) n m2
           else update_pap_multi_source P R h ps (pap_count s0) n m2
      else m2)"
    using assms(1) by (simp add: update_pap_def Let_def set_pap_active_def m2_def s1_def s0_def
        activate_def write_source_def)
  have single: "update_pap_single_source P h ps (pap_count s0) n m2 =
      (write_source s m)\<lparr>config := single_pap_config s (activate (config m))\<rparr>"
    using assms m2 ws s_def
    by (simp add: update_pap_single_source_def Let_def single_pap_config_def s0_def)
  have multi: "update_pap_multi_source P R h ps (pap_count s0) n m2 =
      (write_source s m)\<lparr>config := priority_config R s (valid_level_count s)
          (m\<lparr>config := activate (config m)\<rparr>)\<rparr>"
    using assms(1,2) m2 cand ws s_def
    by (simp add: update_pap_multi_source_def Let_def merge_new_priorities_def priority_config_def
        s0_def del: write_source_simps)
  show ?thesis
    unfolding upd single multi
    by (simp add: Let_def pap_source_def pap_config_def s_def s1_def s0_def m2_def)
qed


lemma pap_source_ok:
  assumes "source_ok N s0" "n \<le> N" "n \<le> length ps"
  shows "source_ok N (pap_source ps n s0)"
    "handle (pap_source ps n s0) = handle s0" "levels (pap_source ps n s0) = levels s0"
    "valid_level_count (pap_source ps n s0) = valid_level_count s0"
    "universe_priority (pap_source ps n s0) = universe_priority s0"
    "pap_active (pap_source ps n s0)"
  using assms by (auto simp: pap_source_def Let_def source_ok_def store_pap_length pap_active_def)

lemma update_pap_inv:
  assumes R: "rbtree_laws R wft" and inv: "merger_inv P R wft m"
    and h: "h \<in> set (rb_iter R (source_state_lookup m))" and len: "n \<le> length ps"
  shows "merger_inv P R wft (update_pap P R h ps n m)"
proof (cases "n \<le> max_slots P")
  case False
  then show ?thesis using inv by (simp add: update_pap_def)
next
  case n: True
  let ?N = "max_slots P" and ?s0 = "source_mem m h"
  define s where "s = pap_source ps n ?s0"
  define ch where "ch \<longleftrightarrow> n \<noteq> pap_count ?s0 \<or> \<not> memcmp_eq ps (address_priority ?s0) n"
  note old = merger_inv_old[OF inv h]
  note sok = pap_source_ok[OF old(1) n len, folded s_def]
  have ok: "merger_ok P R wft m" using inv by (simp add: merger_inv_def)
  have b: "valid_level_count s \<le> ?N" "length (address_priority s) = ?N"
    using sok(1) by (simp_all add: source_ok_def)
  have upd: "update_pap P R h ps n m = (write_source s m)\<lparr>config := pap_config R ch s m\<rparr>"
    using update_pap_eq[OF n, of m h R ps] old(1,2)
    by (simp add: Let_def s_def ch_def source_ok_def)
  define m1 where "m1 = m\<lparr>config := activate (config m)\<rparr>"
  have m1: "config_ok ?N (config m1)" "source_state_lookup m1 = source_state_lookup m"
    "cell (config m1) = cell (config m)" "candidates R (write_source s m1) = candidates R (write_source s m)"
    using old(4) by (simp_all add: m1_def candidates_def)
  have cfg: "pap_config R ch s m =
      (if \<not> ch then config m1
       else if rb_size R (source_state_lookup m) = 1 then single_pap_config s (config m1)
       else priority_config R s (valid_level_count s) m1)"
    by (simp add: pap_config_def Let_def m1_def)
  have scal: "config_ok ?N (pap_config R ch s m) \<and>
      scalars (pap_config R ch s m) = scalars (activate (config m))"
    using single_pap_config_ok[OF m1(1) b] priority_config_ok(1)[OF m1(1) b(1)]
    by (simp add: cfg priority_config_ok(2)) (simp add: m1_def old(4))
  have merged: "slot_merged (insert s (others R h m)) i (cell (pap_config R ch s m) i)"
    if i: "i < ?N" for i
  proof -
    have "slot_merged (insert s (others R h m)) i (cell (config m) i)" if "\<not> ch"
      using old(6)[OF i] that
      by (rule_tac slot_merged_same) (auto simp: s_def pap_source_def ch_def calc_src_pap_def)
    moreover have "slot_merged (insert s (others R h m)) i (cell (single_pap_config s (config m1)) i)"
      if one: "rb_size R (source_state_lookup m) = 1"
      using single_source[OF R ok one h] old(6)[OF i] sok m1(3)
        single_pap_merged[OF m1(1) i b, of ?s0]
      by simp
    moreover have "slot_merged (insert s (others R h m)) i
        (cell (priority_config R s (valid_level_count s) m1) i)"
      unfolding priority_config_def m1(4)
      using old sok m1 b i candidates_write[of s R m] h
      by (intro multi_priority_merged[where N = ?N and ?s0.0 = ?s0]) auto
    ultimately show ?thesis using m1(3) by (simp add: cfg)
  qed
  show ?thesis unfolding upd
    by (rule merger_inv_rewrite[OF inv h, where s = s])
       (use sok old scal merged scalars_eq[of "pap_config R ch s m" "activate (config m)"] in
         \<open>auto simp: is_max_universe_priority_def\<close>)
qed

section \<open>The universe priority\<close>

definition single_universe_config :: "source_state \<Rightarrow> u8 \<Rightarrow> merger_config \<Rightarrow> merger_config" where
  "single_universe_config s pap c =
     (let c2 = fold (set_owner (handle s)) [0..<valid_level_count s]
                 (c\<lparr>per_address_priorities :=
                      memset_at (per_address_priorities c) 0 pap (valid_level_count s)\<rparr>)
      in c2\<lparr>out_levels := memcpy_at (out_levels c2) 0 (levels s) (valid_level_count s)\<rparr>)"

lemma single_universe_config_ok:
  assumes "config_ok N c" "valid_level_count s \<le> N" "length (levels s) = N"
  shows "config_ok N (single_universe_config s pap c)"
    and "scalars (single_universe_config s pap c) = scalars c"
proof -
  let ?c1 = "c\<lparr>per_address_priorities :=
    memset_at (per_address_priorities c) 0 pap (valid_level_count s)\<rparr>"
  have "config_ok N ?c1" using assms by (simp add: config_ok_def)
  then have "config_ok N (fold (set_owner (handle s)) [0..<valid_level_count s] ?c1)"
    using assms set_owners.fold_ok by blast
  then show "config_ok N (single_universe_config s pap c)"
    using assms by (simp add: single_universe_config_def Let_def config_ok_def)
  have "scalars (fold (set_owner (handle s)) [0..<valid_level_count s] ?c1) = scalars ?c1"
    by (simp add: fold_scalars loop_scalars)
  then show "scalars (single_universe_config s pap c) = scalars c"
    by (simp add: single_universe_config_def Let_def scalars_def)
qed

lemma single_universe_merged:
  assumes N: "config_ok N c" "i < N" "valid_level_count s \<le> N" "length (levels s) = N"
    and pap: "\<And>i. i < N \<Longrightarrow> address_priority s ! i = pap" "pap \<noteq> 0"
    and old: "slot_merged {s0} i (cell c i)"
    and s: "handle s = handle s0" "valid_level_count s = valid_level_count s0"
  shows "slot_merged {s} i (cell (single_universe_config s pap c) i)"
proof -
  let ?v = "valid_level_count s"
  define c1 where "c1 = c\<lparr>per_address_priorities := memset_at (per_address_priorities c) 0 pap ?v\<rparr>"
  define c2 where "c2 = fold (set_owner (handle s)) [0..<?v] c1"
  have ok1: "config_ok N c1" using N by (simp add: config_ok_def c1_def)
  have ok2: "config_ok N c2" unfolding c2_def using ok1 N set_owners.fold_ok by blast
  have "cell c2 i = (if i < ?v then cell (set_owner (handle s) i c1) i else cell c1 i)"
    unfolding c2_def using N ok1 by (subst set_owners.fold_view[where n = N]) auto
  moreover have "per_address_priorities c1 ! i = pap" if "i < ?v"
    using N that by (simp add: c1_def config_ok_def)
  moreover have "cell c1 i = cell c i" if "\<not> i < ?v"
    using N that by (simp add: c1_def cell_defs)
  ultimately have c2: "cell c2 i =
      (if i < ?v then (out_levels c1 ! i, handle s, pap) else cell c i)"
    using set_owner_cell[OF ok1 N(2)] by simp
  have "cell (single_universe_config s pap c) i =
      (if i < ?v then (levels s ! i, snd (cell c2 i)) else cell c2 i)"
    using N ok2 by (simp add: single_universe_config_def Let_def c1_def[symmetric] c2_def[symmetric]
        cell_def config_ok_def)
  moreover have "cell c i = (out_levels c ! i, owners c ! i, per_address_priorities c ! i)"
    by (simp add: cell_def)
  ultimately show ?thesis
    using c2 pap(1)[OF N(2)] pap(2) old s
    by (cases "i < ?v") (auto simp: slot_merged_single calc_src_pap_def)
qed

text \<open>The source and the slots that \<open>update_universe_priority\<close> leaves; the scalar comes after.\<close>

definition universe_source :: "merger_opts \<Rightarrow> u8 \<Rightarrow> source_state \<Rightarrow> source_state" where
  "universe_source P priority s0 =
     (let s2 = s0\<lparr>universe_priority_uninitialized := False, universe_priority := priority\<rparr>
      in if using_universe_priority s0
         then s2\<lparr>pap_count := max_slots P,
                 address_priority := memset_at (address_priority s0) 0
                   (if priority = 0 then 1 else priority) (max_slots P)\<rparr>
         else s2)"

definition universe_config ::
    "(u16, 't) rbtree_ops \<Rightarrow> u8 \<Rightarrow> source_state \<Rightarrow> ('t, 'h) merger_state \<Rightarrow> merger_config" where
  "universe_config R priority s m =
     (if \<not> using_universe_priority s then config m
      else if rb_size R (source_state_lookup m) = 1
      then single_universe_config s (if priority = 0 then 1 else priority) (config m)
      else priority_config R s (valid_level_count s) m)"

definition universe_slots ::
    "merger_opts \<Rightarrow> (u16, 't) rbtree_ops \<Rightarrow> u16 \<Rightarrow> u8 \<Rightarrow> ('t, 'h) merger_state \<Rightarrow>
     ('t, 'h) merger_state" where
  "universe_slots P R h priority m =
     (let s = universe_source P priority (source_mem m h)
      in (write_source s m)\<lparr>config := universe_config R priority s m\<rparr>)"

lemma universe_source_simps [simp]:
  "handle (universe_source P p s0) = handle s0"
  "levels (universe_source P p s0) = levels s0"
  "valid_level_count (universe_source P p s0) = valid_level_count s0"
  "universe_priority (universe_source P p s0) = p"
  "using_universe_priority (universe_source P p s0) = using_universe_priority s0"
  by (simp_all add: universe_source_def Let_def)

lemma universe_source_ok:
  assumes "source_ok (max_slots P) s0"
  shows "source_ok (max_slots P) (universe_source P p s0)"
    "using_universe_priority s0 \<Longrightarrow> i < max_slots P \<Longrightarrow>
       address_priority (universe_source P p s0) ! i = (if p = 0 then 1 else p)"
    "\<not> using_universe_priority s0 \<Longrightarrow>
       address_priority (universe_source P p s0) = address_priority s0"
  using assms by (auto simp: universe_source_def Let_def source_ok_def)

lemma update_universe_priority_eq:
  assumes h: "handle (source_mem m h) = h"
    and ch: "p \<noteq> universe_priority (source_mem m h) \<or>
      universe_priority_uninitialized (source_mem m h)"
  shows "update_universe_priority P R h p m =
    (let m2 = universe_slots P R h p m in
     case out_universe_priority (config m2) of
       None \<Rightarrow> m2
     | Some q \<Rightarrow>
         if rb_size R (source_state_lookup m) = 1 \<or> p \<ge> q
         then m2\<lparr>config := (config m2)\<lparr>out_universe_priority := Some p\<rparr>\<rparr>
         else if (case out_universe_priority (config m) of
                    None \<Rightarrow> False | Some q \<Rightarrow> universe_priority (source_mem m h) \<ge> q)
         then recalculate_universe_priority R m2
         else m2)"
proof -
  define s0 where "s0 = source_mem m h"
  define s2 where "s2 = s0\<lparr>universe_priority_uninitialized := False, universe_priority := p\<rparr>"
  define pap where "pap = (if p = 0 then 1 else p :: u8)"
  define m1 where "m1 = write_source s2 m"
  define m' where "m' = write_source (s2\<lparr>pap_count := max_slots P\<rparr>) m1"
  define s where "s = universe_source P p s0"
  have hs: "handle s0 = h" "handle s2 = h" "handle s = h" using h by (simp_all add: s_def s2_def s0_def)
  have m': "source_mem m' h = s2\<lparr>pap_count := max_slots P\<rparr>" "config m' = config m"
    using hs by (simp_all add: m'_def m1_def)
  have ws: "write_source s m' = write_source s m"
    using hs by (simp add: m'_def m1_def write_source_def)
  have seq: "s = (source_mem m' h)\<lparr>address_priority :=
      memset_at (address_priority (source_mem m' h)) 0 pap (max_slots P)\<rparr>" if "using_universe_priority s0"
    using that m' by (simp add: s_def universe_source_def Let_def pap_def s2_def)
  have slots: "universe_slots P R h p m =
     (if using_universe_priority s0 then
        if rb_size R (source_state_lookup m) = 1
        then update_universe_priority_single_source P h pap m'
        else update_universe_priority_multi_source P R h pap m'
      else m1)"
  proof (cases "using_universe_priority s0")
    case True
    have a: "update_universe_priority_single_source P h pap m' =
        (write_source s m)\<lparr>config := single_universe_config s pap (config m)\<rparr>"
      unfolding update_universe_priority_single_source_def Let_def seq[OF True, symmetric] ws
      by (simp add: single_universe_config_def Let_def)
    have b: "update_universe_priority_multi_source P R h pap m' =
        (write_source s m)\<lparr>config := priority_config R s (valid_level_count s) m\<rparr>"
      unfolding update_universe_priority_multi_source_def Let_def seq[OF True, symmetric] ws
      by (simp add: merge_new_priorities_def priority_config_def)
    show ?thesis unfolding a b using True
      by (simp add: universe_slots_def universe_config_def Let_def s_def s0_def pap_def)
  next
    case False
    then show ?thesis
      by (simp add: universe_slots_def universe_config_def universe_source_def Let_def
          s0_def[symmetric] m1_def s2_def write_source_def)
  qed
  have sel: "universe_priority (x\<lparr>universe_priority_uninitialized := False\<rparr>) = universe_priority x"
    for x :: source_state by simp
  show ?thesis
    unfolding slots Let_def sel update_universe_priority_def m'_def m1_def s2_def s0_def pap_def
    using ch by (simp cong: option.case_cong_weak if_weak_cong del: One_nat_def)
qed

lemma update_universe_priority_unchanged:
  "p = universe_priority (source_mem m h) \<Longrightarrow> \<not> universe_priority_uninitialized (source_mem m h) \<Longrightarrow>
   update_universe_priority P R h p m = m"
  by (simp add: update_universe_priority_def Let_def)

lemma universe_slots_facts:
  fixes p :: u8
  assumes R: "rbtree_laws R wft" and inv: "merger_inv P R wft m"
    and h: "h \<in> set (rb_iter R (source_state_lookup m))"
  defines "s \<equiv> universe_source P p (source_mem m h)"
    and "m2 \<equiv> universe_slots P R h p m"
  shows "source_state_lookup m2 = source_state_lookup m"
    and "source_mem m2 = (source_mem m)(h := s)"
    and "scalars (config m2) = scalars (config m)"
    and "config_ok (max_slots P) (config m2)"
    and "i < max_slots P \<Longrightarrow> slot_merged (insert s (others R h m)) i (cell (config m2) i)"
proof -
  let ?N = "max_slots P" and ?s0 = "source_mem m h" and ?pap = "if p = 0 then 1 else p"
  note old = merger_inv_old[OF inv h]
  have ok: "merger_ok P R wft m" using inv by (simp add: merger_inv_def)
  have hs: "handle s = h" using old(2) by (simp add: s_def)
  note sok = universe_source_ok[OF old(1), where p = p, folded s_def]
  have b: "valid_level_count s \<le> ?N" "length (levels s) = ?N"
    using sok(1) by (simp_all add: source_ok_def)
  have pap: "address_priority s ! i = ?pap" if "using_universe_priority s" "i < ?N" for i
    using that sok(2) by (simp add: s_def)
  have m2: "m2 = (write_source s m)\<lparr>config := universe_config R p s m\<rparr>"
    by (simp add: m2_def universe_slots_def s_def Let_def)
  show "source_state_lookup m2 = source_state_lookup m"
    "source_mem m2 = (source_mem m)(h := s)" using hs by (simp_all add: m2)
  show "scalars (config m2) = scalars (config m)" "config_ok ?N (config m2)"
    using single_universe_config_ok[OF old(4) b] priority_config_ok(1)[OF old(4) b(1)] old(4)
    by (simp_all add: m2 universe_config_def priority_config_ok(2))
  show "slot_merged (insert s (others R h m)) i (cell (config m2) i)" if i: "i < ?N"
  proof -
    have "slot_merged (insert s (others R h m)) i (cell (config m) i)"
      if "\<not> using_universe_priority s"
      by (rule slot_merged_same[OF old(6)[OF i]])
         (use that sok(3) in \<open>auto simp: s_def calc_src_pap_def\<close>)
    moreover have "slot_merged (insert s (others R h m)) i
        (cell (single_universe_config s ?pap (config m)) i)"
      if one: "rb_size R (source_state_lookup m) = 1" "using_universe_priority s"
      using single_source[OF R ok one(1) h] old(6)[OF i] pap[OF one(2)]
        single_universe_merged[OF old(4) i b, of ?pap ?s0]
      by (simp add: s_def split: if_splits)
    moreover have "slot_merged (insert s (others R h m)) i
        (cell (priority_config R s (valid_level_count s) m) i)"
      by (rule priority_config_merged[OF inv h _ _ _ _ _ i]) (use b hs in \<open>auto simp: s_def\<close>)
    ultimately show ?thesis by (auto simp: m2 universe_config_def)
  qed
qed

lemma is_max_raise:
  "is_max_universe_priority (insert s0 S) q \<Longrightarrow> q \<le> universe_priority s \<Longrightarrow>
   is_max_universe_priority (insert s S) (universe_priority s)"
  by (auto simp: is_max_universe_priority_def)

lemma is_max_keep:
  "is_max_universe_priority (insert s0 S) q \<Longrightarrow> universe_priority s < q \<Longrightarrow>
   universe_priority s0 < q \<Longrightarrow> is_max_universe_priority (insert s S) q"
  by (auto simp: is_max_universe_priority_def)

lemma update_universe_priority_inv:
  assumes R: "rbtree_laws R wft" and inv: "merger_inv P R wft m"
    and h: "h \<in> set (rb_iter R (source_state_lookup m))"
  shows "merger_inv P R wft (update_universe_priority P R h p m)"
proof (cases "p \<noteq> universe_priority (source_mem m h) \<or>
    universe_priority_uninitialized (source_mem m h)")
  case False
  then show ?thesis using inv by (simp add: update_universe_priority_unchanged)
next
  case True
  define s where "s = universe_source P p (source_mem m h)"
  define m2 where "m2 = universe_slots P R h p m"
  note old = merger_inv_old[OF inv h]
  note f = universe_slots_facts[OF R inv h, where p = p, folded s_def m2_def]
  have s: "handle s = h" "universe_priority s = p" "source_ok (max_slots P) s"
    using old(2) universe_source_ok(1)[OF old(1)] by (simp_all add: s_def)
  have act: "per_address_priorities_active (config m2) = per_address_priorities_active (config m)"
    "out_universe_priority (config m2) = out_universe_priority (config m)"
    using scalars_eq[OF f(3)] by auto
  have pa: "pap_active s = pap_active (source_mem m h)" by (simp add: s_def pap_active_def)
  have src: "sources R m2 = insert s (others R h m)"
    using f(1,2) h s(1) by (auto simp: sources_def others_def)
  have upd: "update_universe_priority P R h p m =
    (case out_universe_priority (config m) of
       None \<Rightarrow> m2
     | Some q \<Rightarrow>
         if rb_size R (source_state_lookup m) = 1 \<or> p \<ge> q
         then m2\<lparr>config := (config m2)\<lparr>out_universe_priority := Some p\<rparr>\<rparr>
         else if universe_priority (source_mem m h) \<ge> q then recalculate_universe_priority R m2
         else m2)" (is "_ = ?m'")
    using update_universe_priority_eq[OF old(2) True, of P R] act
    by (simp add: m2_def Let_def split: option.splits)
  have fields: "source_state_lookup ?m' = source_state_lookup m"
    "source_mem ?m' = (source_mem m)(h := s)" "cell (config ?m') = cell (config m2)"
    "config_ok (max_slots P) (config ?m')"
    "per_address_priorities_active (config ?m') = per_address_priorities_active (config m)"
    using f act by (simp_all split: option.split)
  have univ: "is_max_universe_priority (insert s (others R h m)) r"
    if r: "out_universe_priority (config ?m') = Some r" for r
  proof (cases "out_universe_priority (config m)")
    case None
    then show ?thesis using r act by simp
  next
    case (Some q)
    have q: "is_max_universe_priority (insert (source_mem m h) (others R h m)) q"
      using old(9) Some by simp
    have ok: "merger_ok P R wft m" using inv by (simp add: merger_inv_def)
    consider "rb_size R (source_state_lookup m) = 1" | "p \<ge> q"
      | "rb_size R (source_state_lookup m) \<noteq> 1" "\<not> p \<ge> q" "universe_priority (source_mem m h) \<ge> q"
      | "rb_size R (source_state_lookup m) \<noteq> 1" "\<not> p \<ge> q" "\<not> universe_priority (source_mem m h) \<ge> q"
      by blast
    then show ?thesis
    proof cases
      case 1
      then have "r = p" "others R h m = {}" using r Some single_source[OF R ok 1 h] by auto
      then show ?thesis using s(2) by (auto simp: is_max_universe_priority_def)
    next
      case 2
      then have "r = p" using r Some by simp
      then show ?thesis using is_max_raise[OF q, of s] 2 s(2) by simp
    next
      case 3
      then show ?thesis using recalculate_universe_priority_is_max[of R m2] r Some src by auto
    next
      case 4
      then have "r = q" using r Some act by simp
      then show ?thesis using is_max_keep[OF q, of s] 4 s(2) by simp
    qed
  qed
  show ?thesis unfolding upd
    by (rule merger_inv_rewrite[OF inv h fields(1,2) s(1,3) fields(4)])
       (use f(5) old(8) fields pa univ in auto)
qed

section \<open>Removing per-address priorities, removing a source\<close>

lemma remove_found_pap_inv:
  assumes R: "rbtree_laws R wft" and inv: "merger_inv P R wft m"
    and h: "h \<in> set (rb_iter R (source_state_lookup m))"
  shows "merger_inv P R wft (remove_found_pap P R h m)"
proof -
  let ?s0 = "source_mem m h"
  define s where "s = ?s0\<lparr>using_universe_priority := True,
     address_priority := memset_at (address_priority ?s0) 0
       (if universe_priority ?s0 = 0 then 1 else universe_priority ?s0) (max_slots P)\<rparr>"
  note old = merger_inv_old[OF inv h]
  have s: "handle s = h" "source_ok (max_slots P) s" "valid_level_count s = valid_level_count ?s0"
    "levels s = levels ?s0" "\<not> pap_active s" "universe_priority s = universe_priority ?s0"
    using old(1,2) by (auto simp: s_def source_ok_def pap_active_def)
  have b: "valid_level_count s \<le> max_slots P" using s(2) by (simp add: source_ok_def)
  define m1 where "m1 = (write_source s m)\<lparr>config := priority_config R s (valid_level_count s) m\<rparr>"
  have eq: "remove_found_pap P R h m =
     (if per_address_priorities_active (config m1) \<noteq> None \<and> pap_active ?s0
      then recalculate_pap_active R m1 else m1)" (is "_ = ?m'")
    by (simp add: remove_found_pap_def Let_def set_pap_inactive_def s_def m1_def
        priority_config_def merge_new_priorities_def del: not_None_eq)
  have scal: "scalars (config m1) = scalars (config m)" by (simp add: m1_def priority_config_ok(2))
  have act: "per_address_priorities_active (config m1) = per_address_priorities_active (config m)"
    "out_universe_priority (config m1) = out_universe_priority (config m)"
    using scalars_eq[OF scal] by auto
  have src: "sources R m1 = insert s (others R h m)"
    using h s(1) by (auto simp: sources_def others_def m1_def)
  have ok1: "config_ok (max_slots P) (config m1)"
    using priority_config_ok(1)[OF old(4) b] by (simp add: m1_def)
  have merged: "slot_merged (insert s (others R h m)) i (cell (config m1) i)" if "i < max_slots P" for i
    unfolding m1_def using priority_config_merged[OF inv h s(1) s(3) s(4) order_refl b that]
    by simp
  show ?thesis unfolding eq
    by (rule merger_inv_rewrite[OF inv h, where s = s])
       (use s old(8,9) act src ok1 merged in
         \<open>auto simp: m1_def is_max_universe_priority_def split: if_splits\<close>)
qed

lemma slot_merged_without:
  "slot_merged (insert s S) i v \<Longrightarrow> calc_src_pap s i = 0 \<Longrightarrow> slot_merged S i v"
  by (cases v) (auto simp: slot_merged.simps)

text \<open>
  What is left of the merger when a source goes: its keys are those of the other sources, and
  the code returns success.
\<close>

lemma remove_found_source_inv:
  assumes R: "rbtree_laws R wft" and inv: "merger_inv P R wft m"
    and h: "h \<in> set (rb_iter R (source_state_lookup m))"
  shows "merger_inv P R wft (snd (remove_found_source P R h m))"
    and "fst (remove_found_source P R h m) = kEtcPalErrOk"
    and "set (rb_iter R (source_state_lookup (snd (remove_found_source P R h m)))) =
      set (rb_iter R (source_state_lookup m)) - {h}"
    and "sources R (snd (remove_found_source P R h m)) = others R h m"
    and "merger_handle (snd (remove_found_source P R h m)) = merger_handle m"
proof -
  let ?s0 = "source_mem m h" and ?N = "max_slots P"
  define s where "s = ?s0\<lparr>address_priority := memset_at (address_priority ?s0) 0 0 ?N\<rparr>"
  note old = merger_inv_old[OF inv h]
  have s: "handle s = h" "source_ok ?N s" "valid_level_count s = valid_level_count ?s0"
    "levels s = levels ?s0" "pap_active s = pap_active ?s0"
    "universe_priority s = universe_priority ?s0"
    "\<And>i. i < ?N \<Longrightarrow> calc_src_pap s i = 0"
    using old(1,2) by (auto simp: s_def source_ok_def pap_active_def calc_src_pap_def)
  define m1 where "m1 = (write_source s m)\<lparr>config := priority_config R s ?N m\<rparr>"
  have m1_eq: "m1 = merge_new_priorities R s 0 ?N (write_source s m)"
    by (simp add: m1_def merge_new_priorities_def priority_config_def)
  define m2 where "m2 =
    (if per_address_priorities_active (config m1) = Some True \<and> pap_active s
     then recalculate_pap_active R (write_source (set_pap_inactive s) m1) else m1)"
  define m3 where "m3 =
    (case out_universe_priority (config m2) of None \<Rightarrow> m2
     | Some p \<Rightarrow>
         if universe_priority (source_mem m2 h) \<ge> p
         then recalculate_universe_priority R
                (write_source ((source_mem m2 h)\<lparr>universe_priority := 0\<rparr>) m2)
         else m2)"
  have eq: "remove_found_source P R h m =
     (case rb_remove R (source_state_lookup m3) h of (remove_result, t) \<Rightarrow>
        (if remove_result \<noteq> kEtcPalErrOk then kEtcPalErrSys else kEtcPalErrOk,
         m3\<lparr>source_state_lookup := t\<rparr>))"
    unfolding remove_found_source_def Let_def m3_def m2_def m1_eq s_def[symmetric] by (rule refl)
  have scal: "scalars (config m1) = scalars (config m)" by (simp add: m1_def priority_config_ok(2))
  have ok1: "config_ok ?N (config m1)" using priority_config_ok(1)[OF old(4)] by (simp add: m1_def)
  have merged1: "slot_merged (others R h m) i (cell (config m1) i)" if i: "i < ?N" for i
  proof (rule slot_merged_without[of s])
    have "valid_level_count s \<le> ?N" using s(2) by (simp add: source_ok_def)
    then show "slot_merged (insert s (others R h m)) i (cell (config m1) i)"
      unfolding m1_def using priority_config_merged[OF inv h s(1) s(3) s(4) _ order_refl i] by simp
  qed (use s(7) i in simp)
  have m1: "source_state_lookup m1 = source_state_lookup m" "source_mem m1 = (source_mem m)(h := s)"
    "merger_handle m1 = merger_handle m"
    using s(1) by (simp_all add: m1_def)
  obtain s2 where m2: "source_state_lookup m2 = source_state_lookup m"
    "source_mem m2 = (source_mem m)(h := s2)" "handle s2 = h" "merger_handle m2 = merger_handle m"
    "cell (config m2) = cell (config m1)" "config_ok ?N (config m2)"
    "universe_priority s2 = universe_priority ?s0"
    "out_universe_priority (config m2) = out_universe_priority (config m)"
  proof (cases "per_address_priorities_active (config m1) = Some True \<and> pap_active s")
    case True
    then show ?thesis
      using m1 s ok1 scalars_eq[OF scal] that[of "set_pap_inactive s"]
      by (simp add: m2_def set_pap_inactive_def)
  next
    case False
    then show ?thesis using m1 s ok1 scalars_eq[OF scal] that[of s] by (auto simp: m2_def)
  qed
  have act2: "b = (\<exists>x \<in> others R h m. pap_active x)"
    if b: "per_address_priorities_active (config m2) = Some b" for b
  proof (cases "per_address_priorities_active (config m1) = Some True \<and> pap_active s")
    case True
    have "sources R (write_source (set_pap_inactive s) m1) = insert (set_pap_inactive s) (others R h m)"
      using h s(1) m1 by (auto simp: sources_def others_def set_pap_inactive_def)
    then show ?thesis using b True by (simp add: m2_def) (simp add: set_pap_inactive_def pap_active_def)
  next
    case False
    then have "per_address_priorities_active (config m) = Some b"
      using b scalars_eq[OF scal] by (auto simp: m2_def)
    then show ?thesis using old(8)[of b] False s(5) scalars_eq[OF scal] by auto
  qed
  have m3: "source_state_lookup m3 = source_state_lookup m"
    "\<forall>k. k \<noteq> h \<longrightarrow> source_mem m3 k = source_mem m k"
    "merger_handle m3 = merger_handle m"
    "cell (config m3) = cell (config m1)" "config_ok ?N (config m3)"
    "per_address_priorities_active (config m3) = per_address_priorities_active (config m2)"
    using m2 by (auto simp: m3_def split: option.splits)
  have univ3: "is_max_universe_priority (others R h m) p"
    if p: "out_universe_priority (config m3) = Some p" for p
  proof (cases "out_universe_priority (config m)")
    case None
    then show ?thesis using p m2(8) by (simp add: m3_def)
  next
    case (Some q)
    have q: "is_max_universe_priority (insert ?s0 (others R h m)) q" using old(9) Some by simp
    show ?thesis
    proof (cases "universe_priority ?s0 \<ge> q")
      case True
      let ?z = "s2\<lparr>universe_priority := 0\<rparr>"
      have "sources R (write_source ?z m2) = insert ?z (others R h m)"
        using h m2 by (auto simp: sources_def others_def)
      moreover have "m3 = recalculate_universe_priority R (write_source ?z m2)"
        using True Some m2 by (simp add: m3_def)
      ultimately have "is_max_universe_priority (insert ?z (others R h m)) p"
        using p recalculate_universe_priority_is_max[of R "write_source ?z m2"] by auto
      then show ?thesis by (auto simp: is_max_universe_priority_def)
    next
      case False
      then have "p = q" using p Some m2 by (simp add: m3_def)
      then show ?thesis using False q by (auto simp: is_max_universe_priority_def)
    qed
  qed
  obtain e t where rem: "rb_remove R (source_state_lookup m3) h = (e, t)" by fastforce
  have t: "e = kEtcPalErrOk" "set (rb_iter R t) = set (rb_iter R (source_state_lookup m)) - {h}" "wft t"
    using rb_remove_Ok[OF R old(5) h] rb_remove_wf[OF R old(5)] rem m3(1) by auto
  let ?m' = "snd (remove_found_source P R h m)"
  have m': "?m' = m3\<lparr>source_state_lookup := t\<rparr>" using rem by (simp add: eq)
  show "fst (remove_found_source P R h m) = kEtcPalErrOk" using rem t by (simp add: eq)
  show keys: "set (rb_iter R (source_state_lookup ?m')) = set (rb_iter R (source_state_lookup m)) - {h}"
    using t by (simp add: m')
  show src: "sources R ?m' = others R h m"
    using m3(2) t(2) by (auto simp: m' sources_def others_def image_iff)
  show "merger_handle ?m' = merger_handle m" using m3 by (simp add: m')
  have "merger_ok P R wft ?m'"
    using inv m3 t by (auto simp: m' merger_inv_def merger_ok_def)
  then show "merger_inv P R wft ?m'"
    using merged1 act2 univ3 m3
    by (auto simp: merger_inv_def output_ok_def active_ok_def universe_ok_def m' src[unfolded m']
        split: option.splits)
qed

end
