(* ===== verification/DmxMergerModule.thy ===== *)
theory DmxMergerModule
  imports DmxMergerPriority
begin

text \<open>
  The whole merger module: \<open>module_inv\<close> says that every merger in the tree satisfies
  \<open>merger_inv\<close> and that the stored structs carry the handles they are stored under. Each public
  function keeps it, whatever its arguments and whichever branch it takes, so every sequence of
  calls does (the interpretation \<open>merger_calls\<close> of \<open>invariant_machine\<close>).
\<close>

section \<open>The invariant of the module\<close>

definition ext_laws ::
    "('t, 'm, 'h) merger_ext \<Rightarrow> ('t \<Rightarrow> bool) \<Rightarrow> ('m \<Rightarrow> bool) \<Rightarrow> bool" where
  "ext_laws E wfs wfm \<longleftrightarrow> rbtree_laws (source_tree E) wfs \<and> rbtree_laws (merger_tree E) wfm"

definition merger_handles :: "('t, 'm, 'h) merger_ext \<Rightarrow> ('t, 'm, 'h) merger_module \<Rightarrow> int set" where
  "merger_handles E st = set (rb_iter (merger_tree E) (mergers st))"

definition module_inv ::
    "merger_opts \<Rightarrow> ('t, 'm, 'h) merger_ext \<Rightarrow> ('t \<Rightarrow> bool) \<Rightarrow> ('m \<Rightarrow> bool) \<Rightarrow>
     ('t, 'm, 'h) merger_module \<Rightarrow> bool" where
  "module_inv P E wfs wfm st \<longleftrightarrow>
     wfm (mergers st) \<and>
     (\<forall>h \<in> merger_handles E st.
        merger_inv P (source_tree E) wfs (merger_mem st h) \<and>
        merger_handle (merger_mem st h) = h \<and> h \<noteq> kSacnDmxMergerInvalid)"

lemma ext_lawsD:
  "ext_laws E wfs wfm \<Longrightarrow> rbtree_laws (source_tree E) wfs"
  "ext_laws E wfs wfm \<Longrightarrow> rbtree_laws (merger_tree E) wfm"
  by (simp_all add: ext_laws_def)

lemma module_invD:
  assumes "module_inv P E wfs wfm st"
  shows "wfm (mergers st)"
    and "h \<in> merger_handles E st \<Longrightarrow> merger_inv P (source_tree E) wfs (merger_mem st h)"
    and "h \<in> merger_handles E st \<Longrightarrow> merger_handle (merger_mem st h) = h"
    and "h \<in> merger_handles E st \<Longrightarrow> h \<noteq> kSacnDmxMergerInvalid"
  using assms by (auto simp: module_inv_def)

lemma write_merger_simps [simp]:
  "mergers (write_merger m st) = mergers st"
  "merger_mem (write_merger m st) = (merger_mem st)(merger_handle m := m)"
  "merger_handle_mgr (write_merger m st) = merger_handle_mgr st"
  "merger_handles E (write_merger m st) = merger_handles E st"
  by (simp_all add: write_merger_def merger_handles_def)

lemma merger_handles_mgr [simp]:
  "merger_handles E (st\<lparr>merger_handle_mgr := x\<rparr>) = merger_handles E st"
  by (simp add: merger_handles_def)

lemma module_inv_write:
  "module_inv P E wfs wfm st \<Longrightarrow> merger_inv P (source_tree E) wfs m \<Longrightarrow>
   merger_handle m \<in> merger_handles E st \<Longrightarrow> module_inv P E wfs wfm (write_merger m st)"
  by (auto simp: module_inv_def)

section \<open>Looking a merger and a source up\<close>

lemma lookup_state_eq:
  assumes L: "ext_laws E wfs wfm" and inv: "module_inv P E wfs wfm st"
  shows "lookup_state E st h s want =
    (if h \<notin> merger_handles E st then (kEtcPalErrNotFound, None, None)
     else if \<not> want then (kEtcPalErrOk, Some (merger_mem st h), None)
     else if s \<in> set (rb_iter (source_tree E) (source_state_lookup (merger_mem st h)))
     then (kEtcPalErrOk, Some (merger_mem st h), Some (source_mem (merger_mem st h) s))
     else (kEtcPalErrNotFound, None, None))"
proof -
  have find: "rb_find (merger_tree E) (mergers st) h \<longleftrightarrow> h \<in> merger_handles E st"
    using rb_find_iff[OF ext_lawsD(2)[OF L] module_invD(1)[OF inv]] by (simp add: merger_handles_def)
  have "rb_find (source_tree E) (source_state_lookup (merger_mem st h)) s \<longleftrightarrow>
      s \<in> set (rb_iter (source_tree E) (source_state_lookup (merger_mem st h)))"
    if "h \<in> merger_handles E st"
    using rb_find_iff[OF ext_lawsD(1)[OF L]] module_invD(2)[OF inv that]
    by (simp add: merger_inv_def merger_ok_def)
  then show ?thesis using find by (simp add: lookup_state_def Let_def)
qed

section \<open>Handles survive the updates\<close>

lemma update_levels_handle [simp]:
  "merger_handle (update_levels P R h new n m) = merger_handle m"
  by (simp add: update_levels_def update_levels_single_source_def update_levels_multi_source_def Let_def)

lemma update_pap_handle [simp]: "merger_handle (update_pap P R h ps n m) = merger_handle m"
  by (simp add: update_pap_def update_pap_single_source_def update_pap_multi_source_def Let_def)

lemma update_universe_priority_handle [simp]:
  "merger_handle (update_universe_priority P R h p m) = merger_handle m"
proof -
  have single: "merger_handle (update_universe_priority_single_source P h pap x) = merger_handle x"
    and multi: "merger_handle (update_universe_priority_multi_source P R h pap x) = merger_handle x"
    for pap and x :: "('a, 'b) merger_state"
    by (simp_all add: update_universe_priority_single_source_def
        update_universe_priority_multi_source_def Let_def)
  have same: "(case o1 of None \<Rightarrow> x | Some _ \<Rightarrow> x) = x" for o1 :: "u8 option" and x :: int
    by (cases o1) auto
  show ?thesis
    unfolding update_universe_priority_def Let_def if_distrib[of merger_handle]
      option.case_distrib[of merger_handle]
    by (simp add: single multi same if_distrib[of merger_handle] split del: if_split
        cong: if_cong option.case_cong)
qed

lemma remove_found_pap_handle [simp]:
  "merger_handle (remove_found_pap P R h m) = merger_handle m"
  by (simp add: remove_found_pap_def Let_def)

section \<open>Creation\<close>

lemma construct_merger_state_inv:
  assumes R: "rbtree_laws (source_tree E) wfs"
    and m: "construct_merger_state P E v h cfg mem = Some m"
  shows "merger_inv P (source_tree E) wfs m" "merger_handle m = h" "h \<noteq> kSacnDmxMergerInvalid"
    "rb_iter (source_tree E) (source_state_lookup m) = []"
proof -
  show "merger_handle m = h" "h \<noteq> kSacnDmxMergerInvalid"
    using m by (auto simp: construct_merger_state_def split: if_splits)
  have t: "source_state_lookup m = rb_init (source_tree E)"
    and c: "\<And>i. i < max_slots P \<Longrightarrow> cell (config m) i = (0, kSacnDmxMergerSourceInvalid, 0)"
      "config_ok (max_slots P) (config m)"
      "per_address_priorities_active (config m) \<in> {None, Some False}"
      "out_universe_priority (config m) \<in> {None, Some 0}"
    using m by (auto simp: construct_merger_state_def cell_defs split: if_splits)
  show it: "rb_iter (source_tree E) (source_state_lookup m) = []"
    using t rb_init_iter[OF R] by simp
  then have src: "sources (source_tree E) m = {}" by (simp add: sources_def)
  show "merger_inv P (source_tree E) wfs m"
    unfolding merger_inv_def
  proof (intro conjI)
    show "merger_ok P (source_tree E) wfs m"
      using t it c(2) rb_init_wf[OF R] by (simp add: merger_ok_def)
    show "output_ok P (source_tree E) m"
      using src c(1) by (simp add: output_ok_def slot_merged_none)
    show "active_ok (source_tree E) m" "universe_ok (source_tree E) m"
      using src c(3,4) by (auto simp: active_ok_def universe_ok_def is_max_universe_priority_def)
  qed
qed

lemma create_inv:
  assumes L: "ext_laws E wfs wfm" and inv: "module_inv P E wfs wfm st"
  shows "module_inv P E wfs wfm (snd (snd (create_sacn_dmx_merger P E v cfg mem st)))"
proof -
  obtain h mgr where h: "get_next_int_handle E (merger_handle_in_use E st) (merger_handle_mgr st) = (h, mgr)"
    by fastforce
  define st1 where "st1 = st\<lparr>merger_handle_mgr := mgr\<rparr>"
  have inv1: "module_inv P E wfs wfm st1"
    using inv by (simp add: st1_def module_inv_def)
  show ?thesis
  proof (cases "construct_merger_state P E v h cfg mem")
    case None
    then show ?thesis using inv1 h by (simp add: create_sacn_dmx_merger_def st1_def)
  next
    case (Some m)
    obtain e t where ins: "rb_insert (merger_tree E) (node_alloc_ok v) (mergers st1) (merger_handle m) = (e, t)"
      by fastforce
    note m = construct_merger_state_inv[OF ext_lawsD(1)[OF L] Some]
    have wft: "wfm t" using rb_insert_wf[OF ext_lawsD(2)[OF L] module_invD(1)[OF inv1] ins] .
    show ?thesis
    proof (cases "e = kEtcPalErrOk")
      case True
      have "merger_handles E (st1\<lparr>mergers := t\<rparr>) = insert h (merger_handles E st1)"
        using rb_insert_Ok[OF ext_lawsD(2)[OF L] module_invD(1)[OF inv1]] ins True m
        by (simp add: merger_handles_def)
      then have "module_inv P E wfs wfm (write_merger m (st1\<lparr>mergers := t\<rparr>))"
        using inv1 m wft by (auto simp: module_inv_def)
      then show ?thesis using True Some ins h by (simp add: create_sacn_dmx_merger_def st1_def)
    next
      case False
      then have "t = mergers st1"
        using rb_insert_fail[OF ext_lawsD(2)[OF L] module_invD(1)[OF inv1] ins] by simp
      then show ?thesis using False Some ins h inv1 by (simp add: create_sacn_dmx_merger_def st1_def)
    qed
  qed
qed

lemma destroy_inv:
  assumes L: "ext_laws E wfs wfm" and inv: "module_inv P E wfs wfm st"
  shows "module_inv P E wfs wfm (snd (destroy_sacn_dmx_merger E h st))"
    and "h \<in> merger_handles E st \<Longrightarrow> fst (destroy_sacn_dmx_merger E h st) = kEtcPalErrOk"
    and "merger_handles E (snd (destroy_sacn_dmx_merger E h st)) = merger_handles E st - {h}"
proof -
  note look = lookup_state_eq[OF L inv]
  have main: "module_inv P E wfs wfm (snd (destroy_sacn_dmx_merger E h st)) \<and>
      merger_handles E (snd (destroy_sacn_dmx_merger E h st)) = merger_handles E st - {h} \<and>
      fst (destroy_sacn_dmx_merger E h st) = kEtcPalErrOk" if h: "h \<in> merger_handles E st"
  proof -
    let ?m = "merger_mem st h"
    obtain t where clear: "rb_clear (source_tree E) (source_state_lookup ?m) = (kEtcPalErrOk, t)"
      using ext_lawsD(1)[OF L] module_invD(2)[OF inv h]
      by (cases "rb_clear (source_tree E) (source_state_lookup ?m)")
         (auto simp: rbtree_laws_def merger_inv_def merger_ok_def)
    define st1 where "st1 = write_merger (?m\<lparr>source_state_lookup := t\<rparr>) st"
    obtain e mt where rem: "rb_remove (merger_tree E) (mergers st1) h = (e, mt)" by fastforce
    have mt: "e = kEtcPalErrOk" "set (rb_iter (merger_tree E) mt) = merger_handles E st - {h}" "wfm mt"
      using rb_remove_Ok[OF ext_lawsD(2)[OF L] module_invD(1)[OF inv], of h] h rem
        rb_remove_wf[OF ext_lawsD(2)[OF L] module_invD(1)[OF inv], of h]
      by (auto simp: merger_handles_def st1_def)
    have "destroy_sacn_dmx_merger E h st = (kEtcPalErrOk, st1\<lparr>mergers := mt\<rparr>)"
      using look h clear rem mt module_invD(4)[OF inv h]
      by (simp add: destroy_sacn_dmx_merger_def Let_def st1_def)
    moreover have "merger_handles E (st1\<lparr>mergers := mt\<rparr>) = merger_handles E st - {h}"
      using mt by (simp add: merger_handles_def)
    moreover have "module_inv P E wfs wfm (st1\<lparr>mergers := mt\<rparr>)"
      using inv mt h calculation(2) module_invD(3)[OF inv h]
      by (auto simp: module_inv_def st1_def)
    ultimately show ?thesis by simp
  qed
  moreover have "snd (destroy_sacn_dmx_merger E h st) = st" if "h \<notin> merger_handles E st"
    using look that by (simp add: destroy_sacn_dmx_merger_def)
  ultimately show "module_inv P E wfs wfm (snd (destroy_sacn_dmx_merger E h st))"
    "merger_handles E (snd (destroy_sacn_dmx_merger E h st)) = merger_handles E st - {h}"
    using inv by (cases "h \<in> merger_handles E st", auto)+
  show "h \<in> merger_handles E st \<Longrightarrow> fst (destroy_sacn_dmx_merger E h st) = kEtcPalErrOk"
    using main by simp
qed

section \<open>Adding a source\<close>

text \<open>A source without levels takes part in no slot: adding it changes no output.\<close>

lemma construct_source_state_simps:
  assumes "construct_source_state P v h = Some s"
  shows "handle s = h" "h \<noteq> kSacnDmxMergerSourceInvalid" "source_ok (max_slots P) s"
    "calc_src_pap s i = 0" "\<not> pap_active s" "universe_priority s = 0"
  using assms by (auto simp: construct_source_state_def source_ok_def calc_src_pap_def pap_active_def
      split: if_splits)

lemma added_source_inv:
  assumes R: "rbtree_laws R wft" and inv: "merger_inv P R wft m"
    and s: "construct_source_state P v h = Some s"
    and new: "h \<notin> set (rb_iter R (source_state_lookup m))"
    and t: "set (rb_iter R t) = insert h (set (rb_iter R (source_state_lookup m)))" "wft t"
  shows "merger_inv P R wft (write_source s (m\<lparr>source_state_lookup := t\<rparr>))"
    and "sources R (write_source s (m\<lparr>source_state_lookup := t\<rparr>)) = insert s (sources R m)"
proof -
  let ?m = "write_source s (m\<lparr>source_state_lookup := t\<rparr>)"
  note s = construct_source_state_simps[OF s]
  show src: "sources R ?m = insert s (sources R m)"
    using s(1) new t by (auto simp: sources_def)
  have "slot_merged (insert s (sources R m)) i (cell (config m) i)" if "i < max_slots P" for i
    using inv that s(4)[of i] slot_merged_weaker[of "sources R m" i _ _ _ s]
    by (cases "cell (config m) i") (auto simp: merger_inv_def output_ok_def)
  then show "merger_inv P R wft ?m"
    using inv s(1-3,5,6) t new src
    by (auto simp: merger_inv_def output_ok_def merger_ok_def active_ok_def universe_ok_def
        is_max_universe_priority_def split: option.splits)
qed

lemma sources_source_handle_mgr [simp]: "sources R (m\<lparr>source_handle_mgr := x\<rparr>) = sources R m"
  by (simp add: sources_def)

lemma merger_inv_source_handle_mgr:
  "merger_inv P R wft (m\<lparr>source_handle_mgr := x\<rparr>) = merger_inv P R wft m"
  by (simp add: merger_inv_def merger_ok_def output_ok_def active_ok_def universe_ok_def
      split: option.split)

text \<open>What \<open>add_source\<close> does for a merger that exists and has room, after the handle is chosen.\<close>

definition chosen_handle ::
    "('t, 'm, 'h) merger_ext \<Rightarrow> u16 \<Rightarrow> ('t, 'h) merger_state \<Rightarrow> u16 \<times> ('t, 'h) merger_state" where
  "chosen_handle E id_to_use m =
     (if id_to_use = kSacnDmxMergerSourceInvalid
      then let (i, mgr) = get_next_int_handle E (source_handle_in_use E m) (source_handle_mgr m)
           in (word_of_int i :: u16, m\<lparr>source_handle_mgr := mgr\<rparr>)
      else (id_to_use, m))"

definition insert_new_source ::
    "merger_opts \<Rightarrow> ('t, 'm, 'h) merger_ext \<Rightarrow> call_env \<Rightarrow> u16 \<Rightarrow> ('t, 'h) merger_state \<Rightarrow>
     ('t, 'm, 'h) merger_module \<Rightarrow> etcpal_error \<times> u16 option \<times> ('t, 'm, 'h) merger_module" where
  "insert_new_source P E v h m st =
     (case construct_source_state P v h of
        None \<Rightarrow> (kEtcPalErrNoMem, None, write_merger m st)
      | Some s \<Rightarrow>
          (case rb_insert (source_tree E) (node_alloc_ok v) (source_state_lookup m) (handle s) of
             (insert_result, t) \<Rightarrow>
               if insert_result = kEtcPalErrOk
               then (kEtcPalErrOk, Some h,
                     write_merger (write_source s (m\<lparr>source_state_lookup := t\<rparr>)) st)
               else (if insert_result = kEtcPalErrNoMem then kEtcPalErrNoMem else kEtcPalErrSys,
                     None, write_merger (m\<lparr>source_state_lookup := t\<rparr>) st)))"

lemma add_source_eq:
  assumes L: "ext_laws E wfs wfm" and inv: "module_inv P E wfs wfm st"
  shows "add_source P E v merger id_to_use st =
    (if merger = kSacnDmxMergerInvalid then (kEtcPalErrSys, None, st)
     else if merger \<notin> merger_handles E st then (kEtcPalErrInvalid, None, st)
     else if source_count_reached P (source_tree E) (merger_mem st merger)
     then (kEtcPalErrNoMem, None, st)
     else case chosen_handle E id_to_use (merger_mem st merger) of
            (h, m1) \<Rightarrow> insert_new_source P E v h m1 st)"
  using lookup_state_eq[OF L inv, of merger kSacnDmxMergerSourceInvalid False]
  by (simp add: add_source_def chosen_handle_def insert_new_source_def)

lemma chosen_handle_keeps:
  assumes "chosen_handle E id_to_use m = (h, m1)"
  shows "merger_inv P R wfs m1 = merger_inv P R wfs m" "merger_handle m1 = merger_handle m"
    "source_state_lookup m1 = source_state_lookup m" "sources R m1 = sources R m"
    "id_to_use \<noteq> kSacnDmxMergerSourceInvalid \<Longrightarrow> h = id_to_use" "config m1 = config m"
    "source_mem m1 = source_mem m"
  using assms by (auto simp: chosen_handle_def merger_inv_source_handle_mgr sources_def
      split: if_splits prod.splits)

lemma insert_new_source_ok:
  assumes L: "ext_laws E wfs wfm" and inv: "module_inv P E wfs wfm st"
    and m: "merger_inv P (source_tree E) wfs m" "merger_handle m \<in> merger_handles E st"
  shows "module_inv P E wfs wfm (snd (snd (insert_new_source P E v h m st)))"
    and "merger_handles E (snd (snd (insert_new_source P E v h m st))) = merger_handles E st"
    and "insert_new_source P E v h m st = (kEtcPalErrOk, r, st') \<Longrightarrow>
      r = Some h \<and> h \<noteq> kSacnDmxMergerSourceInvalid \<and>
      h \<notin> set (rb_iter (source_tree E) (source_state_lookup m)) \<and>
      (\<exists>s t. construct_source_state P v h = Some s \<and> wfs t \<and>
        set (rb_iter (source_tree E) t) =
          insert h (set (rb_iter (source_tree E) (source_state_lookup m))) \<and>
        st' = write_merger (write_source s (m\<lparr>source_state_lookup := t\<rparr>)) st)"
proof -
  note R = ext_lawsD(1)[OF L]
  have wf: "wfs (source_state_lookup m)" using m by (simp add: merger_inv_def merger_ok_def)
  have "module_inv P E wfs wfm (snd (snd (insert_new_source P E v h m st))) \<and>
    merger_handles E (snd (snd (insert_new_source P E v h m st))) = merger_handles E st \<and>
    (insert_new_source P E v h m st = (kEtcPalErrOk, r, st') \<longrightarrow>
      r = Some h \<and> h \<noteq> kSacnDmxMergerSourceInvalid \<and>
      h \<notin> set (rb_iter (source_tree E) (source_state_lookup m)) \<and>
      (\<exists>s t. construct_source_state P v h = Some s \<and> wfs t \<and>
        set (rb_iter (source_tree E) t) =
          insert h (set (rb_iter (source_tree E) (source_state_lookup m))) \<and>
        st' = write_merger (write_source s (m\<lparr>source_state_lookup := t\<rparr>)) st))"
  proof (cases "construct_source_state P v h")
    case None
    then show ?thesis using module_inv_write[OF inv m] by (auto simp: insert_new_source_def)
  next
    case (Some s)
    note s = construct_source_state_simps[OF Some]
    obtain e t where ins: "rb_insert (source_tree E) (node_alloc_ok v) (source_state_lookup m) h = (e, t)"
      by fastforce
    show ?thesis
    proof (cases "e = kEtcPalErrOk")
      case True
      have t: "h \<notin> set (rb_iter (source_tree E) (source_state_lookup m))"
        "set (rb_iter (source_tree E) t) =
          insert h (set (rb_iter (source_tree E) (source_state_lookup m)))" "wfs t"
        using rb_insert_Ok[OF R wf] ins True rb_insert_wf[OF R wf ins] by auto
      have "merger_inv P (source_tree E) wfs (write_source s (m\<lparr>source_state_lookup := t\<rparr>))"
        using added_source_inv(1)[OF R m(1) Some t] .
      then have "module_inv P E wfs wfm (write_merger (write_source s (m\<lparr>source_state_lookup := t\<rparr>)) st)"
        using m(2) by (intro module_inv_write[OF inv]) auto
      then show ?thesis using True Some ins s t by (auto simp: insert_new_source_def)
    next
      case False
      then have "t = source_state_lookup m" using rb_insert_fail[OF R wf ins] by simp
      then have "m\<lparr>source_state_lookup := t\<rparr> = m" by simp
      then show ?thesis using False Some ins s module_inv_write[OF inv m]
        by (auto simp: insert_new_source_def)
    qed
  qed
  then show "module_inv P E wfs wfm (snd (snd (insert_new_source P E v h m st)))"
    "merger_handles E (snd (snd (insert_new_source P E v h m st))) = merger_handles E st"
    "insert_new_source P E v h m st = (kEtcPalErrOk, r, st') \<Longrightarrow>
      r = Some h \<and> h \<noteq> kSacnDmxMergerSourceInvalid \<and>
      h \<notin> set (rb_iter (source_tree E) (source_state_lookup m)) \<and>
      (\<exists>s t. construct_source_state P v h = Some s \<and> wfs t \<and>
        set (rb_iter (source_tree E) t) =
          insert h (set (rb_iter (source_tree E) (source_state_lookup m))) \<and>
        st' = write_merger (write_source s (m\<lparr>source_state_lookup := t\<rparr>)) st)"
    by blast+
qed

lemma add_source_inv:
  assumes L: "ext_laws E wfs wfm" and inv: "module_inv P E wfs wfm st"
  shows "module_inv P E wfs wfm (snd (snd (add_source P E v merger id_to_use st)))"
    and "merger_handles E (snd (snd (add_source P E v merger id_to_use st))) = merger_handles E st"
proof -
  have "module_inv P E wfs wfm (snd (snd (insert_new_source P E v h m1 st))) \<and>
      merger_handles E (snd (snd (insert_new_source P E v h m1 st))) = merger_handles E st"
    if h: "merger \<in> merger_handles E st" and c: "chosen_handle E id_to_use (merger_mem st merger) = (h, m1)"
    for h m1
    using insert_new_source_ok(1,2)[OF L inv, where m = m1 and v = v and h = h] chosen_handle_keeps[OF c] h
      module_invD(2,3)[OF inv h]
    by simp
  then show "module_inv P E wfs wfm (snd (snd (add_source P E v merger id_to_use st)))"
    "merger_handles E (snd (snd (add_source P E v merger id_to_use st))) = merger_handles E st"
    using inv by (auto simp: add_source_eq[OF L inv] split: prod.splits)
qed

section \<open>The other calls\<close>

lemma source_found:
  assumes "ext_laws E wfs wfm" "module_inv P E wfs wfm st"
    and "lookup_state E st h s True = (e, Some m, Some x)"
  shows "h \<in> merger_handles E st" "m = merger_mem st h" "x = source_mem m s" "e = kEtcPalErrOk"
    "s \<in> set (rb_iter (source_tree E) (source_state_lookup m))"
    "merger_inv P (source_tree E) wfs m" "merger_handle m \<in> merger_handles E st"
  using assms(3) lookup_state_eq[OF assms(1,2), of h s True] module_invD(2-4)[OF assms(2), of h]
  by (auto split: if_splits)

text \<open>Every call on a source has this shape: look both up, transform the merger, write it back.\<close>

lemma on_source_inv:
  assumes L: "ext_laws E wfs wfm" and inv: "module_inv P E wfs wfm st"
    and f: "\<And>m. merger_inv P (source_tree E) wfs m \<Longrightarrow>
      s \<in> set (rb_iter (source_tree E) (source_state_lookup m)) \<Longrightarrow>
      merger_inv P (source_tree E) wfs (f m) \<and> merger_handle (f m) = merger_handle m"
    and look: "lookup_state E st h s True = (e, Some m, Some x)"
  shows "module_inv P E wfs wfm (write_merger (f m) st)"
  using source_found[OF L inv look] f[of m] by (intro module_inv_write[OF inv]) auto

lemma update_sacn_dmx_merger_levels_inv:
  assumes L: "ext_laws E wfs wfm" and inv: "module_inv P E wfs wfm st"
    and len: "\<And>ls. new = Some ls \<Longrightarrow> n \<le> length ls"
  shows "module_inv P E wfs wfm (snd (update_sacn_dmx_merger_levels P E h s new n st))"
proof -
  have n: "n mod 65536 \<le> length ls" if "new = Some ls" for ls
    using len[OF that] by (rule order_trans[rotated]) simp
  have "module_inv P E wfs wfm
      (write_merger (update_levels P (source_tree E) s ls (n mod 65536) m) st)"
    if "new = Some ls" "lookup_state E st h s True = (e, Some m, Some x)" for ls e m x
    using update_levels_inv[OF ext_lawsD(1)[OF L]] n that
    by (intro on_source_inv[OF L inv _ that(2)]) auto
  then show ?thesis
    using inv by (auto simp: update_sacn_dmx_merger_levels_def split: prod.splits option.splits)
qed

lemma update_sacn_dmx_merger_pap_inv:
  assumes L: "ext_laws E wfs wfm" and inv: "module_inv P E wfs wfm st"
    and len: "\<And>ps. pap = Some ps \<Longrightarrow> n \<le> length ps"
  shows "module_inv P E wfs wfm (snd (update_sacn_dmx_merger_pap P E h s pap n st))"
proof -
  have n: "n mod 65536 \<le> length ps" if "pap = Some ps" for ps
    using len[OF that] by (rule order_trans[rotated]) simp
  have "module_inv P E wfs wfm
      (write_merger (update_pap P (source_tree E) s ps (n mod 65536) m) st)"
    if "pap = Some ps" "lookup_state E st h s True = (e, Some m, Some x)" for ps e m x
    using update_pap_inv[OF ext_lawsD(1)[OF L]] n that
    by (intro on_source_inv[OF L inv _ that(2)]) auto
  then show ?thesis
    using inv by (auto simp: update_sacn_dmx_merger_pap_def split: prod.splits option.splits)
qed

lemma update_sacn_dmx_merger_universe_priority_inv:
  assumes L: "ext_laws E wfs wfm" and inv: "module_inv P E wfs wfm st"
  shows "module_inv P E wfs wfm (snd (update_sacn_dmx_merger_universe_priority P E h s p st))"
proof -
  have "module_inv P E wfs wfm (write_merger (update_universe_priority P (source_tree E) s p m) st)"
    if "lookup_state E st h s True = (e, Some m, Some x)" for e m x
    using update_universe_priority_inv[OF ext_lawsD(1)[OF L]] by (intro on_source_inv[OF L inv _ that]) auto
  then show ?thesis
    using inv by (auto simp: update_sacn_dmx_merger_universe_priority_def split: prod.splits option.splits)
qed

lemma remove_sacn_dmx_merger_pap_inv:
  assumes L: "ext_laws E wfs wfm" and inv: "module_inv P E wfs wfm st"
  shows "module_inv P E wfs wfm (snd (remove_sacn_dmx_merger_pap P E h s st))"
proof -
  have "module_inv P E wfs wfm (write_merger (remove_found_pap P (source_tree E) s m) st)"
    if "lookup_state E st h s True = (e, Some m, Some x)" for e m x
    using remove_found_pap_inv[OF ext_lawsD(1)[OF L]] by (intro on_source_inv[OF L inv _ that]) auto
  then show ?thesis
    using inv by (auto simp: remove_sacn_dmx_merger_pap_def split: prod.splits option.splits)
qed

lemma remove_sacn_dmx_merger_source_inv:
  assumes L: "ext_laws E wfs wfm" and inv: "module_inv P E wfs wfm st"
  shows "module_inv P E wfs wfm (snd (remove_sacn_dmx_merger_source P E h s st))"
proof -
  have "module_inv P E wfs wfm
      (write_merger (snd (remove_found_source P (source_tree E) s m)) st)"
    if "lookup_state E st h s True = (e, Some m, Some x)" for e m x
    using remove_found_source_inv[OF ext_lawsD(1)[OF L]]
    by (intro on_source_inv[OF L inv _ that]) auto
  then show ?thesis
    using inv
    by (auto simp: remove_sacn_dmx_merger_source_def split: prod.splits option.splits)
qed

section \<open>What each update stores\<close>

lemma update_levels_effect:
  assumes R: "rbtree_laws R wft" and inv: "merger_inv P R wft m"
    and h: "h \<in> set (rb_iter R (source_state_lookup m))"
    and n: "n \<le> max_slots P" "n \<le> length new"
  shows "levels (source_mem (update_levels P R h new n m) h) = take n new @ replicate (max_slots P - n) 0"
    and "valid_level_count (source_mem (update_levels P R h new n m) h) = n"
    and "address_priority (source_mem (update_levels P R h new n m) h) = address_priority (source_mem m h)"
    and "k \<noteq> h \<Longrightarrow> source_mem (update_levels P R h new n m) k = source_mem m k"
    and "source_state_lookup (update_levels P R h new n m) = source_state_lookup m"
proof -
  let ?s0 = "source_mem m h" and ?m' = "update_levels P R h new n m"
  have ok: "merger_ok P R wft m" using inv by (simp add: merger_inv_def)
  have s0: "source_ok (max_slots P) ?s0" "handle ?s0 = h" using ok h by (auto simp: merger_ok_def)
  have "levels (source_mem ?m' h) = take n new @ replicate (max_slots P - n) 0 \<and>
    valid_level_count (source_mem ?m' h) = n \<and>
    address_priority (source_mem ?m' h) = address_priority ?s0 \<and>
    (k \<noteq> h \<longrightarrow> source_mem ?m' k = source_mem m k) \<and> source_state_lookup ?m' = source_state_lookup m"
  proof (cases "n = valid_level_count ?s0 \<and> memcmp_eq new (levels ?s0) n")
    case True
    have "levels ?s0 = take n new @ replicate (max_slots P - n) 0"
    proof (rule nth_equalityI)
      show "length (levels ?s0) = length (take n new @ replicate (max_slots P - n) 0)"
        using n s0 by (simp add: source_ok_def)
      fix i assume "i < length (levels ?s0)"
      then show "levels ?s0 ! i = (take n new @ replicate (max_slots P - n) 0) ! i"
        using s0(1) n True memcmp_eq_nth[of new "levels ?s0" n i]
        by (auto simp: source_ok_def nth_append)
    qed
    moreover have "?m' = m" using True by (intro update_levels_unchanged[OF ok h n(1)]) auto
    ultimately show ?thesis using True by (simp only:) simp
  next
    case False
    define s where "s = store_levels new (valid_level_count ?s0) n (?s0\<lparr>valid_level_count := n\<rparr>)"
    note s = updated_source_ok[OF s0(1) n s_def]
    have "?m' = (write_source s m)\<lparr>config := levels_config R s new (valid_level_count ?s0) n m\<rparr>"
      using s0 n False by (intro update_levels_changed) (auto simp: s_def source_ok_def)
    then show ?thesis using s s0 by simp
  qed
  then show "levels (source_mem ?m' h) = take n new @ replicate (max_slots P - n) 0"
    "valid_level_count (source_mem ?m' h) = n"
    "address_priority (source_mem ?m' h) = address_priority ?s0"
    "k \<noteq> h \<Longrightarrow> source_mem ?m' k = source_mem m k"
    "source_state_lookup ?m' = source_state_lookup m"
    by auto
qed

lemma pap_source_nth:
  assumes "source_ok N s0" "n \<le> N" "n \<le> length ps" "i < N"
  shows "address_priority (pap_source ps n s0) ! i =
    (if i < n then ps ! i else if i < pap_count s0 then 0 else address_priority s0 ! i)"
proof (cases "n = pap_count s0 \<and> memcmp_eq ps (address_priority s0) n")
  case True
  then show ?thesis
    using assms memcmp_eq_nth[of ps "address_priority s0" n i]
    by (auto simp: pap_source_def Let_def source_ok_def)
next
  case False
  then show ?thesis
    using assms by (auto simp: pap_source_def Let_def store_pap_nth source_ok_def)
qed

lemma update_pap_effect:
  assumes R: "rbtree_laws R wft" and inv: "merger_inv P R wft m"
    and h: "h \<in> set (rb_iter R (source_state_lookup m))" and n: "n \<le> max_slots P"
  shows "source_mem (update_pap P R h ps n m) = (source_mem m)(h := pap_source ps n (source_mem m h))"
    and "source_state_lookup (update_pap P R h ps n m) = source_state_lookup m"
proof -
  have s0: "source_ok (max_slots P) (source_mem m h)" "handle (source_mem m h) = h"
    using merger_inv_old[OF inv h] by auto
  have "handle (pap_source ps n (source_mem m h)) = h"
    using s0 by (simp add: pap_source_def Let_def)
  then show "source_mem (update_pap P R h ps n m) = (source_mem m)(h := pap_source ps n (source_mem m h))"
    "source_state_lookup (update_pap P R h ps n m) = source_state_lookup m"
    using update_pap_eq[OF n _ s0(2), of R ps] s0(1) by (simp_all add: Let_def source_ok_def)
qed

lemma update_universe_priority_effect:
  assumes R: "rbtree_laws R wft" and inv: "merger_inv P R wft m"
    and h: "h \<in> set (rb_iter R (source_state_lookup m))"
    and ch: "p \<noteq> universe_priority (source_mem m h) \<or>
      universe_priority_uninitialized (source_mem m h)"
  shows "source_mem (update_universe_priority P R h p m) =
    (source_mem m)(h := universe_source P p (source_mem m h))"
proof -
  have s0: "handle (source_mem m h) = h" using merger_inv_old(2)[OF inv h] .
  have "source_mem (universe_slots P R h p m) = (source_mem m)(h := universe_source P p (source_mem m h))"
    using s0 by (simp add: universe_slots_def Let_def)
  then show ?thesis
    using update_universe_priority_eq[OF s0 ch, of P R] by (simp add: Let_def split: option.split)
qed

lemma remove_found_pap_effect:
  assumes "merger_inv P R wft m" "h \<in> set (rb_iter R (source_state_lookup m))"
  shows "source_mem (remove_found_pap P R h m) = (source_mem m)(h := (source_mem m h)
    \<lparr>using_universe_priority := True,
     address_priority := memset_at (address_priority (source_mem m h)) 0
       (if universe_priority (source_mem m h) = 0 then 1 else universe_priority (source_mem m h))
       (max_slots P)\<rparr>)"
  using merger_inv_old(2)[OF assms] by (simp add: remove_found_pap_def Let_def set_pap_inactive_def)

end
