(* ===== verification/DmxMergerExample.thy ===== *)
theory DmxMergerExample
  imports DmxMergerApi
begin

text \<open>
  A run of the merger module on concrete data, evaluated call by call: the environment of the
  examples that accompany the properties. EtcPal's tree is \<open>list_rbtree\<close>, its handle manager a
  counter; a universe has two slots.
\<close>

section \<open>The environment\<close>

definition example_opts :: merger_opts where
  "example_opts = \<lparr>max_slots = 2, dynamic_mem = True, max_sources_per_merger = 4, max_mergers = 4,
     disable_internal_pap_buffer = False, disable_internal_owner_buffer = False\<rparr>"

definition example_ext :: "(u16 list, int list, int) merger_ext" where
  "example_ext = \<lparr>source_tree = list_rbtree, merger_tree = list_rbtree,
     init_int_handle_manager = (\<lambda>_. 0), get_next_int_handle = (\<lambda>_ i. (i, i + 1))\<rparr>"

definition example_env :: call_env where
  "example_env = \<lparr>is_initialized = True, lock_taken = True, struct_alloc_ok = True, node_alloc_ok = True\<rparr>"

definition example_init_env :: init_env where
  "example_init_env = \<lparr>mutex_created = True, source_pool_result = kEtcPalErrOk,
     merger_pool_result = kEtcPalErrOk, node_pool_result = kEtcPalErrOk\<rparr>"

definition example_arg :: merger_config_arg where
  "example_arg = \<lparr>levels_given = True, priorities_given = False, priorities_active_given = True,
     universe_priority_given = True, owners_given = False, arg_source_count_max = 0\<rparr>"

definition example_source :: source_state where
  "example_source = \<lparr>source_id = 0, levels = [], valid_level_count = 0, universe_priority = 0,
     address_priority = [], using_universe_priority = False, handle = 0, pap_count = 0,
     universe_priority_uninitialized = False\<rparr>"

definition example_merger :: "(u16 list, int) merger_state" where
  "example_merger = \<lparr>merger_handle = 0, source_handle_mgr = 0, source_state_lookup = [],
     source_mem = (\<lambda>_. example_source), config = \<lparr>out_levels = [], per_address_priorities = [],
       per_address_priorities_active = None, out_universe_priority = None, owners = [],
       source_count_max = 0\<rparr>\<rparr>"

definition example_state0 :: "(u16 list, int list, int) merger_module" where
  "example_state0 = \<lparr>mergers = [], merger_mem = (\<lambda>_. example_merger), merger_handle_mgr = 0\<rparr>"

section \<open>A run\<close>

text \<open>
  Two sources, the second with the higher universe priority and only one level, then
  a per-address priority for slot 0 of the first one that equals the second's priority and
  removes the first source from slot 1.
\<close>

definition example_src ::
    "u16 \<Rightarrow> u8 list \<Rightarrow> nat \<Rightarrow> u8 \<Rightarrow> u8 list \<Rightarrow> bool \<Rightarrow> nat \<Rightarrow> bool \<Rightarrow> source_state" where
  "example_src h ls n u ps uu pc un = \<lparr>source_id = h, levels = ls, valid_level_count = n,
     universe_priority = u, address_priority = ps, using_universe_priority = uu, handle = h,
     pap_count = pc, universe_priority_uninitialized = un\<rparr>"

definition example_two ::
    "source_state \<Rightarrow> source_state \<Rightarrow> u8 list \<Rightarrow> u8 list \<Rightarrow> u16 list \<Rightarrow> u8 \<Rightarrow> bool \<Rightarrow>
     (u16 list, int list, int) merger_module" where
  "example_two s0 s1 ls ps ow up act = \<lparr>mergers = [0], merger_mem = (\<lambda>_. example_merger)(0 :=
     \<lparr>merger_handle = 0, source_handle_mgr = 2, source_state_lookup = [0, 1],
      source_mem = (\<lambda>_. example_source)(0 := s0, 1 := s1),
      config = \<lparr>out_levels = ls, per_address_priorities = ps, per_address_priorities_active = Some act,
        out_universe_priority = Some up, owners = ow, source_count_max = 0\<rparr>\<rparr>),
     merger_handle_mgr = 1\<rparr>"

definition example_calls :: "merger_call list" where
  "example_calls =
     [Create example_env (Some example_arg) True (\<lambda>_. example_source),
      AddSource example_env 0 True,
      AddSource example_env 0 True,
      UpdateUniversePriority example_env 0 0 100,
      UpdateUniversePriority example_env 0 1 120,
      UpdateLevels example_env 0 0 (Some [10, 20]) 2,
      UpdateLevels example_env 0 1 (Some [30]) 1,
      UpdatePap example_env 0 0 (Some [120]) 1]"

definition example_state :: "(u16 list, int list, int) merger_module" where
  "example_state =
     example_two (example_src 0 [10, 20] 2 100 [120, 0] False 1 False)
       (example_src 1 [30, 0] 1 120 [120, 120] True 2 False) [30, 0] [120, 0] [1, 0xffff] 120 True"

lemma two_slots: "replicate 2 x = [x, x]" "[0..<2] = [0, Suc 0]" "[Suc 0..<2] = [Suc 0]"
  by (simp_all add: eval_nat_numeral)

lemma source_order: "f(1 := a, 0 := b) = f(0 := b, 1 := a)" for f :: "u16 \<Rightarrow> source_state"
  by (simp add: fun_upd_twist)

lemmas example_defs = example_state0_def example_opts_def example_ext_def example_env_def
  example_arg_def example_merger_def example_source_def list_rbtree_def example_two_def
  example_src_def two_slots source_order kSacnDmxMergerInvalid_def
  kSacnDmxMergerSourceInvalid_def kSacnReceiverInfiniteSources_def

lemmas call_defs = sacn_dmx_merger_create_def create_sacn_dmx_merger_def construct_merger_state_def
  sacn_dmx_merger_add_source_def add_sacn_dmx_merger_source_def add_source_def
  construct_source_state_def lookup_state_def source_count_reached_def write_merger_def
  write_source_def candidates_def calc_src_pap_def memcpy_at_def memset_at_def memcmp_eq_def

lemmas priority_defs = sacn_dmx_merger_update_universe_priority_def
  update_sacn_dmx_merger_universe_priority_def update_universe_priority_def
  update_universe_priority_single_source_def update_universe_priority_multi_source_def
  merge_new_priorities_def merge_new_priority_def merge_candidate_def set_owner_def
  recalculate_universe_priority_def sacn_dmx_merger_update_pap_def update_sacn_dmx_merger_pap_def
  update_pap_def update_pap_single_source_def update_pap_multi_source_def store_pap_def
  copy_slot_def set_pap_active_def pap_active_def

lemmas level_defs = sacn_dmx_merger_update_levels_def update_sacn_dmx_merger_levels_def
  update_levels_def update_levels_single_source_def update_levels_multi_source_def
  store_levels_def copy_level_def copy_priority_def merge_level_def level_candidate_def
  merge_new_priorities_def merge_new_priority_def merge_candidate_def

abbreviation example_step where
  "example_step \<equiv> exec_call example_opts example_ext"

lemma example_added:
  "fold example_step
     [Create example_env (Some example_arg) True (\<lambda>_. example_source),
      AddSource example_env 0 True, AddSource example_env 0 True] example_state0 =
   example_two (example_src 0 [0, 0] 0 0 [0, 0] True 0 True)
     (example_src 1 [0, 0] 0 0 [0, 0] True 0 True) [0, 0] [0, 0] [0xffff, 0xffff] 0 False"
  by (simp add: example_defs call_defs)

lemma example_priority0:
  "example_step (UpdateUniversePriority example_env 0 0 100)
     (example_two (example_src 0 [0, 0] 0 0 [0, 0] True 0 True) s1 [0, 0] [0, 0] [0xffff, 0xffff] 0 False) =
   example_two (example_src 0 [0, 0] 0 100 [100, 100] True 2 False) s1 [0, 0] [0, 0] [0xffff, 0xffff] 100 False"
  by (simp add: example_defs call_defs priority_defs)

lemma example_priority1:
  "example_step (UpdateUniversePriority example_env 0 1 120)
     (example_two s0 (example_src 1 [0, 0] 0 0 [0, 0] True 0 True) [0, 0] [0, 0] [0xffff, 0xffff] 100 False) =
   example_two s0 (example_src 1 [0, 0] 0 120 [120, 120] True 2 False) [0, 0] [0, 0] [0xffff, 0xffff] 120 False"
  by (simp add: example_defs call_defs priority_defs)

lemma example_levels0:
  "example_step (UpdateLevels example_env 0 0 (Some [10, 20]) 2)
     (example_two (example_src 0 [0, 0] 0 100 [100, 100] True 2 False)
        (example_src 1 [0, 0] 0 120 [120, 120] True 2 False) [0, 0] [0, 0] [0xffff, 0xffff] 120 False) =
   example_two (example_src 0 [10, 20] 2 100 [100, 100] True 2 False)
     (example_src 1 [0, 0] 0 120 [120, 120] True 2 False) [10, 20] [100, 100] [0, 0] 120 False"
  by (simp add: example_defs call_defs level_defs)

lemma example_levels1:
  "example_step (UpdateLevels example_env 0 1 (Some [30]) 1)
     (example_two (example_src 0 [10, 20] 2 100 [100, 100] True 2 False)
        (example_src 1 [0, 0] 0 120 [120, 120] True 2 False) [10, 20] [100, 100] [0, 0] 120 False) =
   example_two (example_src 0 [10, 20] 2 100 [100, 100] True 2 False)
     (example_src 1 [30, 0] 1 120 [120, 120] True 2 False) [30, 20] [120, 100] [1, 0] 120 False"
  by (simp add: example_defs call_defs level_defs)

lemma example_pap0:
  "example_step (UpdatePap example_env 0 0 (Some [120]) 1)
     (example_two (example_src 0 [10, 20] 2 100 [100, 100] True 2 False)
        (example_src 1 [30, 0] 1 120 [120, 120] True 2 False) [30, 20] [120, 100] [1, 0] 120 False) =
   example_state"
  by (simp add: example_defs call_defs priority_defs example_state_def Let_def) blast

lemma example_run: "fold example_step example_calls example_state0 = example_state"
proof -
  have eq: "example_calls =
      [Create example_env (Some example_arg) True (\<lambda>_. example_source),
       AddSource example_env 0 True, AddSource example_env 0 True] @
      [UpdateUniversePriority example_env 0 0 100, UpdateUniversePriority example_env 0 1 120,
       UpdateLevels example_env 0 0 (Some [10, 20]) 2, UpdateLevels example_env 0 1 (Some [30]) 1,
       UpdatePap example_env 0 0 (Some [120]) 1]"
    by (simp add: example_calls_def)
  show ?thesis
    unfolding eq fold_append o_apply example_added
    by (simp only: fold.simps o_apply id_apply example_priority0 example_priority1
        example_levels0 example_levels1 example_pap0)
qed

end
