(* ===== verification/DmxMergerProps.thy ===== *)
theory DmxMergerProps
  imports DmxMergerModule DmxMergerExample
begin

text \<open>
  The properties of the merger module, over its public functions. The first ones hold in every
  state that a sequence of calls reaches after a successful \<open>sacn_dmx_merger_init\<close>; the others
  say what one call does to such a state, on its success and its error branches. The concrete
  examples run the code on \<open>list_rbtree\<close> with two slots per universe.
\<close>

section \<open>Every call keeps the invariant\<close>

lemma exec_call_inv:
  assumes L: "ext_laws E wfs wfm" and inv: "module_inv P E wfs wfm st" and ok: "call_ok c"
  shows "module_inv P E wfs wfm (exec_call P E c st)"
proof (cases c)
  case (Create v cfg want mem)
  then show ?thesis using inv create_inv[OF L inv]
    by (simp add: sacn_dmx_merger_create_def split: option.split)
next
  case (Destroy v h)
  then show ?thesis using inv destroy_inv(1)[OF L inv] by (simp add: sacn_dmx_merger_destroy_def)
next
  case (AddSource v h want)
  then show ?thesis using inv add_source_inv(1)[OF L inv]
    by (simp add: sacn_dmx_merger_add_source_def add_sacn_dmx_merger_source_def)
next
  case (RemoveSource v h s)
  then show ?thesis using inv remove_sacn_dmx_merger_source_inv[OF L inv]
    by (simp add: sacn_dmx_merger_remove_source_def)
next
  case (UpdateLevels v h s ls n)
  have "ls = Some xs \<Longrightarrow> n \<le> length xs" for xs using ok UpdateLevels by auto
  then show ?thesis using inv update_sacn_dmx_merger_levels_inv[OF L inv] UpdateLevels
    by (simp add: sacn_dmx_merger_update_levels_def)
next
  case (UpdatePap v h s ps n)
  have "ps = Some xs \<Longrightarrow> n \<le> length xs" for xs using ok UpdatePap by auto
  then show ?thesis using inv update_sacn_dmx_merger_pap_inv[OF L inv] UpdatePap
    by (simp add: sacn_dmx_merger_update_pap_def)
next
  case (UpdateUniversePriority v h s p)
  then show ?thesis using inv update_sacn_dmx_merger_universe_priority_inv[OF L inv]
    by (simp add: sacn_dmx_merger_update_universe_priority_def)
next
  case (RemovePap v h s)
  then show ?thesis using inv remove_sacn_dmx_merger_pap_inv[OF L inv]
    by (simp add: sacn_dmx_merger_remove_pap_def)
qed

text \<open>The machine runs under the laws: outside them its invariant is trivial.\<close>

interpretation merger_calls: invariant_machine "exec_call P E"
    "\<lambda>st. ext_laws E wfs wfm \<longrightarrow> module_inv P E wfs wfm st" call_ok
  for P E wfs wfm
  by unfold_locales (auto intro: exec_call_inv)

lemma init_inv:
  assumes L: "ext_laws E wfs wfm" and init: "sacn_dmx_merger_init P E iv st = (kEtcPalErrOk, st0)"
  shows "module_inv P E wfs wfm st0" "merger_handles E st0 = {}"
proof -
  have "mergers st0 = rb_init (merger_tree E)"
    using init by (auto simp: sacn_dmx_merger_init_def Let_def split: if_splits)
  then show "merger_handles E st0 = {}" "module_inv P E wfs wfm st0"
    using rb_init_iter[OF ext_lawsD(2)[OF L]] rb_init_wf[OF ext_lawsD(2)[OF L]]
    by (simp_all add: module_inv_def merger_handles_def)
qed

definition reachable ::
    "merger_opts \<Rightarrow> ('t, 'm, 'h) merger_ext \<Rightarrow> ('t, 'm, 'h) merger_module \<Rightarrow> bool" where
  "reachable P E st \<longleftrightarrow> (\<exists>iv st_before st0 cs.
     sacn_dmx_merger_init P E iv st_before = (kEtcPalErrOk, st0) \<and> list_all call_ok cs \<and>
     st = fold (exec_call P E) cs st0)"

lemma reachable_inv: "reachable P E st \<Longrightarrow> ext_laws E wfs wfm \<Longrightarrow> module_inv P E wfs wfm st"
  using merger_calls.run_inv[where P = P and E = E and wfs = wfs and wfm = wfm] init_inv(1)
  by (fastforce simp: reachable_def)

section \<open>The example is reachable\<close>

lemma example_laws: "ext_laws example_ext (\<lambda>t. sorted t \<and> distinct t) (\<lambda>t. sorted t \<and> distinct t)"
  by (simp add: ext_laws_def example_ext_def list_rbtree_laws)

lemma example_init:
  "sacn_dmx_merger_init example_opts example_ext example_init_env example_state0 =
     (kEtcPalErrOk, example_state0)"
  by (simp add: sacn_dmx_merger_init_def example_opts_def example_ext_def example_init_env_def
      example_state0_def list_rbtree_def)

lemma example_reachable: "reachable example_opts example_ext example_state"
  unfolding reachable_def example_run[symmetric]
  by (intro exI[of _ example_init_env] exI[of _ example_state0] exI[of _ example_calls] conjI
      example_init refl) (simp add: example_calls_def)

section \<open>A reference merge\<close>

text \<open>
  The merge of one slot computed from scratch: first the highest priority, then the highest
  level among the sources that have it.
\<close>

definition reference_priority :: "source_state list \<Rightarrow> nat \<Rightarrow> u8" where
  "reference_priority ss i = fold max (map (\<lambda>s. calc_src_pap s i) ss) 0"

definition reference_level :: "source_state list \<Rightarrow> nat \<Rightarrow> u8" where
  "reference_level ss i =
     (if reference_priority ss i = 0 then 0
      else fold max (map (\<lambda>s. levels s ! i)
                       (filter (\<lambda>s. calc_src_pap s i = reference_priority ss i) ss)) 0)"

lemma fold_max_ge: "(a::u8) \<le> fold max xs a \<and> (\<forall>x \<in> set xs. x \<le> fold max xs a)"
proof (induction xs arbitrary: a)
  case Nil
  then show ?case by simp
next
  case (Cons x xs)
  have "max x a \<le> fold max xs (max x a)" "\<forall>y \<in> set xs. y \<le> fold max xs (max x a)"
    using Cons.IH[of "max x a"] by auto
  then show ?case by (auto intro: order_trans)
qed

lemma fold_max_in: "fold max xs (a::u8) = a \<or> fold max xs a \<in> set xs"
proof (induction xs arbitrary: a)
  case Nil
  then show ?case by simp
next
  case (Cons x xs)
  show ?case using Cons.IH[of "max x a"] by (auto simp: max_def)
qed

lemma fold_max_eq:
  "(\<And>x. x \<in> set xs \<Longrightarrow> x \<le> p) \<Longrightarrow> p = 0 \<or> p \<in> set xs \<Longrightarrow> fold max xs (0::u8) = p"
  using fold_max_ge[of 0 xs] fold_max_in[of xs 0] by (metis antisym word_zero_le)

lemma slot_merged_reference:
  assumes "slot_merged (set ss) i (l, w, p)"
  shows "p = reference_priority ss i" "l = reference_level ss i"
proof -
  show p: "p = reference_priority ss i"
    unfolding reference_priority_def using assms
    by (intro fold_max_eq[symmetric]) (auto simp: slot_merged.simps split: if_splits)
  show "l = reference_level ss i"
  proof (cases "p = 0")
    case True
    then show ?thesis using assms p by (simp add: reference_level_def slot_merged.simps)
  next
    case False
    then have "fold max (map (\<lambda>s. levels s ! i) (filter (\<lambda>s. calc_src_pap s i = p) ss)) 0 = l"
      using assms by (intro fold_max_eq) (auto simp: slot_merged.simps)
    then show ?thesis using False p by (simp add: reference_level_def)
  qed
qed

lemma reachable_merger:
  assumes "reachable P E st" "ext_laws E wfs wfm" "h \<in> merger_handles E st"
  shows "merger_inv P (source_tree E) wfs (merger_mem st h)"
  using module_invD(2)[OF reachable_inv[OF assms(1,2)] assms(3)] .

lemma example_handles: "0 \<in> merger_handles example_ext example_state"
  by (simp add: merger_handles_def example_ext_def example_state_def example_two_def list_rbtree_def)

section \<open>The output is always merged\<close>

text \<open>
  C1: After any sequence of calls that follows a successful initialization, every slot of every
  merger is merged over the merger's sources: its priority is the highest any source has there,
  its level the highest among the sources with that priority, its owner one of the sources that
  have both; a slot no source has a priority for has level 0 and no owner.
\<close>

theorem output_always_merged:
  assumes "ext_laws E wfs wfm" "reachable P E st" "h \<in> merger_handles E st" "i < max_slots P"
  shows "slot_merged (sources (source_tree E) (merger_mem st h)) i
    (out_levels (config (merger_mem st h)) ! i, owners (config (merger_mem st h)) ! i,
     per_address_priorities (config (merger_mem st h)) ! i)"
  using reachable_merger[OF assms(2,1,3)] assms(4)
  by (simp add: merger_inv_def output_ok_def cell_def)

theorem output_always_merged_witness:
  "slot_merged (sources list_rbtree (merger_mem example_state 0)) 0 (30, 1, 120)"
  using output_always_merged[OF example_laws example_reachable example_handles, of 0]
  by (simp add: example_ext_def example_opts_def example_state_def example_two_def)

text \<open>
  C2: The incremental merge equals a merge from scratch: in every reachable state the level and
  priority outputs of each slot are those of the reference computation over all sources in the
  merger's tree.
\<close>

theorem output_equals_reference:
  assumes "ext_laws E wfs wfm" "reachable P E st" "h \<in> merger_handles E st" "i < max_slots P"
  shows "out_levels (config (merger_mem st h)) ! i =
      reference_level (candidates (source_tree E) (merger_mem st h)) i \<and>
    per_address_priorities (config (merger_mem st h)) ! i =
      reference_priority (candidates (source_tree E) (merger_mem st h)) i"
proof -
  have "slot_merged (set (candidates (source_tree E) (merger_mem st h))) i
      (cell (config (merger_mem st h)) i)"
    using reachable_merger[OF assms(2,1,3)] assms(4)
    by (simp add: merger_inv_def output_ok_def set_candidates)
  then show ?thesis using slot_merged_reference by (simp add: cell_def)
qed

theorem output_equals_reference_witness:
  "reference_level (candidates list_rbtree (merger_mem example_state 0)) 1 = 0 \<and>
   reference_priority (candidates list_rbtree (merger_mem example_state 0)) 1 = 0"
  using output_equals_reference[OF example_laws example_reachable example_handles, of 1]
  by (simp add: example_ext_def example_opts_def example_state_def example_two_def)

text \<open>
  C3: In every reachable state the two scalar outputs a caller asked for are right: the PAP flag
  says whether some source has active per-address priorities, the universe priority is the
  highest universe priority of the sources (0 when there is none).
\<close>

theorem scalar_outputs_right:
  assumes "ext_laws E wfs wfm" "reachable P E st" "h \<in> merger_handles E st"
  shows "per_address_priorities_active (config (merger_mem st h)) \<in>
      {None, Some (\<exists>s \<in> sources (source_tree E) (merger_mem st h). pap_active s)} \<and>
    (\<forall>p. out_universe_priority (config (merger_mem st h)) = Some p \<longrightarrow>
       is_max_universe_priority (sources (source_tree E) (merger_mem st h)) p)"
  using reachable_merger[OF assms(2,1,3)]
  by (auto simp: merger_inv_def active_ok_def universe_ok_def split: option.splits)

theorem scalar_outputs_right_witness:
  "is_max_universe_priority (sources list_rbtree (merger_mem example_state 0)) 120"
  using scalar_outputs_right[OF example_laws example_reachable example_handles]
  by (simp add: example_ext_def example_state_def example_two_def)

section \<open>What a call does\<close>

definition has_source ::
    "('t, 'm, 'h) merger_ext \<Rightarrow> ('t, 'm, 'h) merger_module \<Rightarrow> int \<Rightarrow> u16 \<Rightarrow> bool" where
  "has_source E st h s \<longleftrightarrow> h \<in> merger_handles E st \<and>
     s \<in> set (rb_iter (source_tree E) (source_state_lookup (merger_mem st h)))"

abbreviation source_at :: "('t, 'm, 'h) merger_module \<Rightarrow> int \<Rightarrow> u16 \<Rightarrow> source_state" where
  "source_at st h s \<equiv> source_mem (merger_mem st h) s"

lemma has_sourceD:
  assumes "ext_laws E wfs wfm" "module_inv P E wfs wfm st" "has_source E st h s"
  shows "h \<noteq> kSacnDmxMergerInvalid" "s \<noteq> kSacnDmxMergerSourceInvalid"
    "merger_inv P (source_tree E) wfs (merger_mem st h)" "merger_handle (merger_mem st h) = h"
    "lookup_state E st h s True = (kEtcPalErrOk, Some (merger_mem st h), Some (source_at st h s))"
    "s \<in> set (rb_iter (source_tree E) (source_state_lookup (merger_mem st h)))"
    "h \<in> merger_handles E st"
  using assms(3) module_invD[OF assms(2)] lookup_state_eq[OF assms(1,2), of h s True]
  by (auto simp: has_source_def merger_inv_def merger_ok_def)

text \<open>The example has both sources in it.\<close>

lemma example_has_source: "has_source example_ext example_state 0 0" "has_source example_ext example_state 0 1"
  by (simp_all add: has_source_def example_handles)
     (simp_all add: example_ext_def example_state_def example_two_def list_rbtree_def)

lemma example_env_ready: "is_initialized example_env" "lock_taken example_env"
  by (simp_all add: example_env_def)

text \<open>
  C4: A call of \<open>sacn_dmx_merger_update_levels\<close> for an existing source succeeds: the source then
  holds exactly the new levels, followed by zeros up to the last slot, and their count; its
  priorities, the other sources and the other mergers stay as they are.
\<close>

theorem update_levels_stores:
  assumes "ext_laws E wfs wfm" "reachable P E st" "has_source E st h s"
    and "is_initialized v" "lock_taken v"
    and "0 < n" "n \<le> max_slots P" "n \<le> length ls" "max_slots P < 2 ^ 16"
  shows "\<exists>st'. sacn_dmx_merger_update_levels P E v h s (Some ls) n st = (kEtcPalErrOk, st') \<and>
    levels (source_at st' h s) = take n ls @ replicate (max_slots P - n) 0 \<and>
    valid_level_count (source_at st' h s) = n \<and>
    address_priority (source_at st' h s) = address_priority (source_at st h s) \<and>
    (\<forall>k. k \<noteq> s \<longrightarrow> source_at st' h k = source_at st h k) \<and>
    (\<forall>g. g \<noteq> h \<longrightarrow> merger_mem st' g = merger_mem st g) \<and> mergers st' = mergers st"
proof -
  note inv = reachable_inv[OF assms(2,1)]
  note d = has_sourceD[OF assms(1) inv assms(3)]
  let ?m = "update_levels P (source_tree E) s ls n (merger_mem st h)"
  have "n mod 65536 = n" using assms(7,9) by simp
  then have "sacn_dmx_merger_update_levels P E v h s (Some ls) n st = (kEtcPalErrOk, write_merger ?m st)"
    using assms(4-9) d(1,2,5)
    by (simp add: sacn_dmx_merger_update_levels_def update_sacn_dmx_merger_levels_def)
  then show ?thesis
    using update_levels_effect[OF ext_lawsD(1)[OF assms(1)] d(3,6) assms(7,8)] d(4) by simp
qed

theorem update_levels_stores_witness:
  "\<exists>st'. sacn_dmx_merger_update_levels example_opts example_ext example_env 0 1 (Some [7]) 1 example_state =
      (kEtcPalErrOk, st') \<and> levels (source_at st' 0 1) = [7, 0]"
  using update_levels_stores[OF example_laws example_reachable example_has_source(2)
      example_env_ready, of 1 "[7]"]
  by (auto simp: example_opts_def)

text \<open>
  C5: A call of \<open>sacn_dmx_merger_update_pap\<close> for an existing source succeeds and makes its
  per-address priorities active: the given ones first, then zeros as far as the previous count
  reached; beyond both counts the old entries stay. Levels stay as they are.
\<close>

theorem update_pap_stores:
  assumes "ext_laws E wfs wfm" "reachable P E st" "has_source E st h s"
    and "is_initialized v" "lock_taken v"
    and "0 < n" "n \<le> max_slots P" "n \<le> length ps" "max_slots P < 2 ^ 16"
  shows "\<exists>st'. sacn_dmx_merger_update_pap P E v h s (Some ps) n st = (kEtcPalErrOk, st') \<and>
    pap_active (source_at st' h s) \<and> pap_count (source_at st' h s) = n \<and>
    (\<forall>i < max_slots P. address_priority (source_at st' h s) ! i =
       (if i < n then ps ! i
        else if i < pap_count (source_at st h s) then 0
        else address_priority (source_at st h s) ! i)) \<and>
    levels (source_at st' h s) = levels (source_at st h s) \<and>
    (\<forall>k. k \<noteq> s \<longrightarrow> source_at st' h k = source_at st h k)"
proof -
  note inv = reachable_inv[OF assms(2,1)]
  note d = has_sourceD[OF assms(1) inv assms(3)]
  let ?m = "update_pap P (source_tree E) s ps n (merger_mem st h)"
  have ok: "source_ok (max_slots P) (source_at st h s)" using merger_inv_old(1)[OF d(3,6)] .
  have "n mod 65536 = n" using assms(7,9) by simp
  then have "sacn_dmx_merger_update_pap P E v h s (Some ps) n st = (kEtcPalErrOk, write_merger ?m st)"
    using assms(4-9) d(1,2,5)
    by (simp add: sacn_dmx_merger_update_pap_def update_sacn_dmx_merger_pap_def)
  moreover have "pap_count (pap_source ps n (source_at st h s)) = n"
    by (simp add: pap_source_def Let_def)
  ultimately show ?thesis
    using update_pap_effect[OF ext_lawsD(1)[OF assms(1)] d(3,6) assms(7), of ps] d(4)
      pap_source_nth[OF ok assms(7,8)] pap_source_ok[OF ok assms(7,8)]
    by simp
qed

theorem update_pap_stores_witness:
  "\<exists>st'. sacn_dmx_merger_update_pap example_opts example_ext example_env 0 1 (Some [9]) 1 example_state =
      (kEtcPalErrOk, st') \<and> address_priority (source_at st' 0 1) ! 0 = 9 \<and>
      address_priority (source_at st' 0 1) ! 1 = 0"
  using update_pap_stores[OF example_laws example_reachable example_has_source(2)
      example_env_ready, of 1 "[9]"]
  by (force simp: example_opts_def example_state_def example_two_def example_src_def)

text \<open>
  C6: A new universe priority for a source without per-address priorities becomes the priority of
  every slot, a universe priority of 0 as priority 1, so that the source still takes part in
  the merge; with active per-address priorities those stay.
\<close>

theorem universe_priority_becomes_pap:
  assumes "ext_laws E wfs wfm" "reachable P E st" "has_source E st h s"
    and "is_initialized v" "lock_taken v"
    and "p \<noteq> universe_priority (source_at st h s) \<or>
      universe_priority_uninitialized (source_at st h s)" "i < max_slots P"
  shows "\<exists>st'. sacn_dmx_merger_update_universe_priority P E v h s p st = (kEtcPalErrOk, st') \<and>
    universe_priority (source_at st' h s) = p \<and>
    address_priority (source_at st' h s) ! i =
      (if pap_active (source_at st h s) then address_priority (source_at st h s) ! i
       else if p = 0 then 1 else p)"
proof -
  note inv = reachable_inv[OF assms(2,1)]
  note d = has_sourceD[OF assms(1) inv assms(3)]
  have "sacn_dmx_merger_update_universe_priority P E v h s p st =
      (kEtcPalErrOk, write_merger (update_universe_priority P (source_tree E) s p (merger_mem st h)) st)"
    using assms(4,5) d(1,2,5)
    by (simp add: sacn_dmx_merger_update_universe_priority_def
        update_sacn_dmx_merger_universe_priority_def)
  then show ?thesis
    using update_universe_priority_effect[OF ext_lawsD(1)[OF assms(1)] d(3,6) assms(6)] d(4)
      universe_source_ok(2)[OF merger_inv_old(1)[OF d(3,6)], of i p]
      universe_source_ok(3)[OF merger_inv_old(1)[OF d(3,6)], of p] assms(7)
    by (auto simp: pap_active_def)
qed

theorem universe_priority_becomes_pap_witness:
  "\<exists>st'. sacn_dmx_merger_update_universe_priority example_opts example_ext example_env 0 1 0 example_state =
      (kEtcPalErrOk, st') \<and> address_priority (source_at st' 0 1) ! 0 = 1"
  using universe_priority_becomes_pap[OF example_laws example_reachable example_has_source(2)
      example_env_ready, of 0 0]
  by (auto simp: example_opts_def example_state_def example_two_def example_src_def pap_active_def)

text \<open>
  C15: \<open>remove_sacn_dmx_merger_pap\<close> leaves the old PAP count behind. When per-address priorities of
  the same count are given to the source again, the slots beyond the count, which should
  default to priority 0, keep the universe priority the removal wrote there.
\<close>

theorem remove_pap_leaves_stale_priorities:
  assumes "rbtree_laws R wft" "merger_inv P R wft m" "s \<in> set (rb_iter R (source_state_lookup m))"
    and "n = pap_count (source_mem m s)" "n \<le> length ps" "n \<le> i" "i < max_slots P"
  shows "address_priority (source_mem (update_pap P R s ps n (remove_found_pap P R s m)) s) ! i =
    (if universe_priority (source_mem m s) = 0 then 1 else universe_priority (source_mem m s))"
proof -
  let ?m = "remove_found_pap P R s m"
  have look: "source_state_lookup ?m = source_state_lookup m"
    by (simp add: remove_found_pap_def Let_def)
  have s: "s \<in> set (rb_iter R (source_state_lookup ?m))" using assms(3) look by simp
  note inv = remove_found_pap_inv[OF assms(1-3)]
  have n: "n \<le> max_slots P" using assms(4) merger_inv_old(1)[OF assms(2,3)] by (simp add: source_ok_def)
  have len: "length (address_priority (source_mem m s)) = max_slots P"
    using merger_inv_old(1)[OF assms(2,3)] by (simp add: source_ok_def)
  show ?thesis
    using update_pap_effect[OF assms(1) inv s n, of ps] remove_found_pap_effect[OF assms(2,3)]
      pap_source_nth[OF merger_inv_old(1)[OF inv s] n assms(5,7)] assms(4-7) len
    by simp
qed

lemma example_inv: "merger_inv example_opts list_rbtree (\<lambda>t. sorted t \<and> distinct t) (merger_mem example_state 0)"
  using reachable_merger[OF example_reachable example_laws example_handles] by (simp add: example_ext_def)

theorem remove_pap_leaves_stale_priorities_witness:
  "address_priority (source_mem (update_pap example_opts list_rbtree 0 [50] 1
     (remove_found_pap example_opts list_rbtree 0 (merger_mem example_state 0))) 0) ! 1 = 100"
  using remove_pap_leaves_stale_priorities[OF list_rbtree_laws example_inv, of 0 1 "[50]" 1]
    example_has_source(1)
  by (simp add: has_source_def example_ext_def example_opts_def example_state_def example_two_def
      example_src_def)

text \<open>
  C16: \<open>sacn_dmx_merger_remove_source\<close> for an existing source succeeds, takes exactly that source out
  of the merger and leaves every slot merged over the remaining ones.
\<close>

theorem remove_source_removes:
  assumes "ext_laws E wfs wfm" "reachable P E st" "has_source E st h s"
    and "is_initialized v" "lock_taken v" "i < max_slots P"
  shows "\<exists>st'. sacn_dmx_merger_remove_source P E v h s st = (kEtcPalErrOk, st') \<and>
    \<not> has_source E st' h s \<and> (\<forall>k. k \<noteq> s \<longrightarrow> has_source E st' h k = has_source E st h k) \<and>
    sources (source_tree E) (merger_mem st' h) = others (source_tree E) s (merger_mem st h) \<and>
    slot_merged (others (source_tree E) s (merger_mem st h)) i (cell (config (merger_mem st' h)) i)"
proof -
  note inv = reachable_inv[OF assms(2,1)]
  note d = has_sourceD[OF assms(1) inv assms(3)]
  note f = remove_found_source_inv[OF ext_lawsD(1)[OF assms(1)] d(3,6)]
  let ?r = "remove_found_source P (source_tree E) s (merger_mem st h)"
  have "sacn_dmx_merger_remove_source P E v h s st = (kEtcPalErrOk, write_merger (snd ?r) st)"
    using assms(4,5) d(1,2,5) f(2)
    by (simp add: sacn_dmx_merger_remove_source_def remove_sacn_dmx_merger_source_def split_beta)
  moreover have "merger_mem (write_merger (snd ?r) st) h = snd ?r" using f(5) d(4) by simp
  ultimately show ?thesis
    using f(1,3,4) assms(6) by (auto simp: has_source_def merger_inv_def output_ok_def)
qed

theorem remove_source_removes_witness:
  "\<exists>st'. sacn_dmx_merger_remove_source example_opts example_ext example_env 0 1 example_state =
      (kEtcPalErrOk, st') \<and> \<not> has_source example_ext st' 0 1"
  using remove_source_removes[OF example_laws example_reachable example_has_source(2)
      example_env_ready, of 0]
  by (auto simp: example_opts_def)

text \<open>
  When \<open>sacn_dmx_merger_add_source\<close> reports success, the handle it returns is a new, valid
  one; the merger has this source in addition, without levels, and the same outputs as before.
\<close>

theorem add_source_adds:
  assumes "ext_laws E wfs wfm" "reachable P E st"
    and "sacn_dmx_merger_add_source P E v h want st = (kEtcPalErrOk, r, st')"
  shows "\<exists>s. r = Some s \<and> s \<noteq> kSacnDmxMergerSourceInvalid \<and> \<not> has_source E st h s \<and>
    (\<forall>k. has_source E st' h k \<longleftrightarrow> k = s \<or> has_source E st h k) \<and>
    valid_level_count (source_at st' h s) = 0 \<and>
    config (merger_mem st' h) = config (merger_mem st h) \<and>
    (\<forall>k. k \<noteq> s \<longrightarrow> source_at st' h k = source_at st h k)"
proof -
  note inv = reachable_inv[OF assms(2,1)]
  have "add_source P E v h kSacnDmxMergerSourceInvalid st = (kEtcPalErrOk, r, st')"
    using assms(3)
    by (auto simp: sacn_dmx_merger_add_source_def add_sacn_dmx_merger_source_def split: if_splits)
  then obtain s m1 where h: "h \<in> merger_handles E st"
    and c: "chosen_handle E kSacnDmxMergerSourceInvalid (merger_mem st h) = (s, m1)"
    and i: "insert_new_source P E v s m1 st = (kEtcPalErrOk, r, st')"
    by (auto simp: add_source_eq[OF assms(1) inv] split: if_splits prod.splits)
  note k = chosen_handle_keeps[OF c]
  have m1: "merger_inv P (source_tree E) wfs m1" "merger_handle m1 = h"
    using k(1,2) module_invD(2,3)[OF inv h] by simp_all
  obtain x t where n: "r = Some s" "s \<noteq> kSacnDmxMergerSourceInvalid"
    "s \<notin> set (rb_iter (source_tree E) (source_state_lookup m1))"
    "construct_source_state P v s = Some x"
    "set (rb_iter (source_tree E) t) = insert s (set (rb_iter (source_tree E) (source_state_lookup m1)))"
    "st' = write_merger (write_source x (m1\<lparr>source_state_lookup := t\<rparr>)) st"
    using insert_new_source_ok(3)[OF assms(1) inv m1(1) _ i] m1(2) h by auto
  have "handle x = s" "valid_level_count x = 0"
    using n(4) by (auto simp: construct_source_state_def split: if_splits)
  then show ?thesis using n k(3,6,7) m1(2) h by (auto simp: has_source_def)
qed

text \<open>The third source of the example gets handle 2.\<close>

theorem add_source_adds_witness:
  "\<exists>st'. sacn_dmx_merger_add_source example_opts example_ext example_env 0 True example_state =
     (kEtcPalErrOk, Some 2, st') \<and> has_source example_ext st' 0 2"
proof -
  have "fst (sacn_dmx_merger_add_source example_opts example_ext example_env 0 True example_state) =
      kEtcPalErrOk \<and>
    fst (snd (sacn_dmx_merger_add_source example_opts example_ext example_env 0 True example_state)) =
      Some 2"
    by (simp add: example_state_def example_defs call_defs)
  then show ?thesis
    using add_source_adds[OF example_laws example_reachable]
    by (cases "sacn_dmx_merger_add_source example_opts example_ext example_env 0 True example_state")
       (fastforce simp: surjective_pairing)
qed

text \<open>
  \<open>sacn_dmx_merger_create\<close>, when it succeeds, adds one merger under the new handle it returns:
  without sources, with all levels and priorities 0 and no owners. The other mergers stay.
\<close>

theorem create_adds:
  assumes "ext_laws E wfs wfm" "reachable P E st"
    and "sacn_dmx_merger_create P E v cfg want mem st = (kEtcPalErrOk, r, st')"
  shows "\<exists>h. r = Some h \<and> h \<noteq> kSacnDmxMergerInvalid \<and> h \<notin> merger_handles E st \<and>
    merger_handles E st' = insert h (merger_handles E st) \<and> (\<forall>s. \<not> has_source E st' h s) \<and>
    (\<forall>i < max_slots P. cell (config (merger_mem st' h)) i = (0, kSacnDmxMergerSourceInvalid, 0)) \<and>
    (\<forall>g. g \<noteq> h \<longrightarrow> merger_mem st' g = merger_mem st g)"
proof -
  note inv = reachable_inv[OF assms(2,1)]
  obtain c where "create_sacn_dmx_merger P E v c mem st = (kEtcPalErrOk, r, st')"
    using assms(3) by (auto simp: sacn_dmx_merger_create_def split: if_splits option.splits)
  then obtain h mgr m t
    where g: "get_next_int_handle E (merger_handle_in_use E st) (merger_handle_mgr st) = (h, mgr)"
      and m: "construct_merger_state P E v h c mem = Some m"
      and t: "rb_insert (merger_tree E) (node_alloc_ok v) (mergers st) (merger_handle m) = (kEtcPalErrOk, t)"
      and r: "r = Some (merger_handle m)"
        "st' = write_merger m (st\<lparr>merger_handle_mgr := mgr, mergers := t\<rparr>)"
    by (auto simp: create_sacn_dmx_merger_def Let_def split: prod.splits option.splits if_splits)
  note c = construct_merger_state_inv[OF ext_lawsD(1)[OF assms(1)] m]
  have ins: "h \<notin> merger_handles E st" "set (rb_iter (merger_tree E) t) = insert h (merger_handles E st)"
    using rb_insert_Ok[OF ext_lawsD(2)[OF assms(1)] module_invD(1)[OF inv] t] c(2)
    by (simp_all add: merger_handles_def)
  have "sources (source_tree E) m = {}" using c(4) by (simp add: sources_def)
  then have "cell (config m) i = (0, kSacnDmxMergerSourceInvalid, 0)" if "i < max_slots P" for i
    using c(1) that slot_merged_none by (cases "cell (config m) i") (auto simp: merger_inv_def output_ok_def)
  moreover have "merger_handles E st' = insert h (merger_handles E st)"
    using ins(2) r(2) by (simp add: merger_handles_def)
  ultimately show ?thesis using ins(1) r c by (simp add: has_source_def)
qed

theorem create_adds_witness:
  "\<exists>st'. sacn_dmx_merger_create example_opts example_ext example_env (Some example_arg) True
      (\<lambda>_. example_source) example_state = (kEtcPalErrOk, Some 1, st') \<and>
    merger_handles example_ext st' = {0, 1}"
proof -
  let ?c = "sacn_dmx_merger_create example_opts example_ext example_env (Some example_arg) True
      (\<lambda>_. example_source) example_state"
  have "fst ?c = kEtcPalErrOk \<and> fst (snd ?c) = Some 1"
    by (simp add: example_state_def example_defs call_defs)
  moreover have "merger_handles example_ext example_state = {0}"
    by (simp add: merger_handles_def example_ext_def example_state_def example_two_def list_rbtree_def)
  ultimately show ?thesis
    using create_adds[OF example_laws example_reachable] by (cases ?c) (fastforce simp: insert_commute)
qed

text \<open>
  \<open>sacn_dmx_merger_destroy\<close> for an existing merger succeeds and removes exactly this merger;
  for any other handle it reports that the merger was not found.
\<close>

theorem destroy_removes:
  assumes "ext_laws E wfs wfm" "reachable P E st" "is_initialized v" "lock_taken v"
  shows "fst (sacn_dmx_merger_destroy E v h st) =
      (if h \<in> merger_handles E st then kEtcPalErrOk else kEtcPalErrNotFound) \<and>
    merger_handles E (snd (sacn_dmx_merger_destroy E v h st)) = merger_handles E st - {h}"
proof -
  note inv = reachable_inv[OF assms(2,1)]
  have "fst (destroy_sacn_dmx_merger E h st) = kEtcPalErrNotFound"
    if "h \<notin> merger_handles E st" "h \<noteq> kSacnDmxMergerInvalid"
    using that lookup_state_eq[OF assms(1) inv] by (simp add: destroy_sacn_dmx_merger_def)
  then show ?thesis
    using destroy_inv[OF assms(1) inv] assms(3,4) module_invD(4)[OF inv]
    by (auto simp: sacn_dmx_merger_destroy_def)
qed

theorem destroy_removes_witness:
  "fst (sacn_dmx_merger_destroy example_ext example_env 0 example_state) = kEtcPalErrOk \<and>
   fst (sacn_dmx_merger_destroy example_ext example_env 5 example_state) = kEtcPalErrNotFound"
proof -
  have "merger_handles example_ext example_state = {0}"
    by (simp add: merger_handles_def example_ext_def example_state_def example_two_def list_rbtree_def)
  then show ?thesis
    using destroy_removes[OF example_laws example_reachable example_env_ready] by simp
qed

text \<open>
  The result of \<open>sacn_dmx_merger_update_levels\<close> on every branch: not initialized, an invalid
  handle, count or pointer, no lock, no such merger or source, or success; a call that does not
  succeed changes nothing.
\<close>

theorem failed_update_levels:
  assumes "ext_laws E wfs wfm" "reachable P E st"
  shows "fst (sacn_dmx_merger_update_levels P E v h s ls n st) =
      (if \<not> is_initialized v then kEtcPalErrNotInit
       else if h = kSacnDmxMergerInvalid \<or> s = kSacnDmxMergerSourceInvalid \<or> n > max_slots P \<or>
               ls = None \<or> n = 0 then kEtcPalErrInvalid
       else if \<not> lock_taken v then kEtcPalErrSys
       else if \<not> has_source E st h s then kEtcPalErrNotFound
       else kEtcPalErrOk) \<and>
    (fst (sacn_dmx_merger_update_levels P E v h s ls n st) \<noteq> kEtcPalErrOk \<longrightarrow>
       snd (sacn_dmx_merger_update_levels P E v h s ls n st) = st)"
proof -
  note look = lookup_state_eq[OF assms(1) reachable_inv[OF assms(2,1)], of h s True]
  show ?thesis
    by (auto simp: sacn_dmx_merger_update_levels_def update_sacn_dmx_merger_levels_def look
        has_source_def split: option.split)
qed

theorem failed_update_levels_witness:
  "sacn_dmx_merger_update_levels example_opts example_ext example_env 0 5 (Some [1]) 1 example_state =
     (kEtcPalErrNotFound, example_state)"
proof -
  have "\<not> has_source example_ext example_state 0 5"
    by (simp add: has_source_def example_ext_def example_state_def example_two_def list_rbtree_def)
  then show ?thesis
    using failed_update_levels[OF example_laws example_reachable, of example_env 0 5 "Some [1]" 1]
      example_env_ready
    by (simp add: prod_eq_iff example_opts_def kSacnDmxMergerInvalid_def
        kSacnDmxMergerSourceInvalid_def)
qed

end
