(* ===== verification/SacnCommon.thy ===== *)
theory SacnCommon
  imports EtcPal
begin

text \<open>
  Initialization and shutdown of the sACN library (src/sACN/src/sacn/common.c). The library's
  parts are started in a fixed order and stopped in the reverse one; two counters allow
  redundant initialization of its two features, the DMX merger and everything that uses the
  network. Each part's own init function is modelled by the result it returns
  (\<open>init_results\<close>); what has been started and stopped is the \<open>trace\<close>, newest event first.
\<close>

section \<open>State\<close>

unbundle bit_operations_syntax

definition SACN_FEATURE_DMX_MERGER :: u32 where "SACN_FEATURE_DMX_MERGER = 1"

definition SACN_FEATURES_ALL :: u32 where "SACN_FEATURES_ALL = 0xffffffff"

definition SACN_ALL_NETWORK_FEATURES :: u32 where
  "SACN_ALL_NETWORK_FEATURES = SACN_FEATURES_ALL AND (NOT SACN_FEATURE_DMX_MERGER)"

datatype part =
    EtcPalLib | ReceiverMutex | SourceMutex
  | ReceiverMem | SourceMem | MergeReceiverMem | SourceDetectorMem | Sockets
  | MergeReceiverPart | SourceDetectorState | SourceDetector
  | SourceLossPart | ReceiverState | Receiver | SourceState | SourcePart
  | DmxMergerPart

datatype part_event = Inited part | Deinited part

fun running :: "part_event list \<Rightarrow> part set" where
  "running [] = {}"
| "running (Inited p # es) = insert p (running es)"
| "running (Deinited p # es) = running es - {p}"

text \<open>The compile-time options, and what the parts' init functions return during one call.\<close>

record feature_opts =
  receiver_enabled :: bool
  source_enabled :: bool
  merge_receiver_enabled :: bool
  source_detector_enabled :: bool
  dmx_merger_enabled :: bool

record init_results =
  part_result :: "part \<Rightarrow> etcpal_error"
  receiver_mutex_created :: bool
  source_mutex_created :: bool

definition init_result :: "init_results \<Rightarrow> part \<Rightarrow> etcpal_error" where
  "init_result v p =
     (if p = ReceiverMutex then (if receiver_mutex_created v then kEtcPalErrOk else kEtcPalErrSys)
      else if p = SourceMutex then (if source_mutex_created v then kEtcPalErrOk else kEtcPalErrSys)
      else part_result v p)"

record 'l sacn_state =
  dmx_merger_feature_init_count :: int
  all_network_features_init_count :: int
  pool_log_params :: 'l
  sacn_log_params_set :: bool
  trace :: "part_event list"

definition merger_requested :: "u32 \<Rightarrow> bool" where
  "merger_requested features \<longleftrightarrow> features AND SACN_FEATURE_DMX_MERGER \<noteq> 0"

definition network_requested :: "u32 \<Rightarrow> bool" where
  "network_requested features \<longleftrightarrow>
     features AND SACN_ALL_NETWORK_FEATURES = SACN_ALL_NETWORK_FEATURES"

section \<open>Initialization\<close>

definition network_parts :: "feature_opts \<Rightarrow> part list" where
  "network_parts C =
     [EtcPalLib, ReceiverMutex, SourceMutex] @
     (if receiver_enabled C then [ReceiverMem] else []) @
     (if source_enabled C then [SourceMem] else []) @
     (if merge_receiver_enabled C then [MergeReceiverMem] else []) @
     (if source_detector_enabled C then [SourceDetectorMem] else []) @
     [Sockets] @
     (if merge_receiver_enabled C then [MergeReceiverPart] else []) @
     (if source_detector_enabled C then [SourceDetectorState, SourceDetector] else []) @
     (if receiver_enabled C then [SourceLossPart, ReceiverState, Receiver] else []) @
     (if source_enabled C then [SourceState, SourcePart] else [])"

text \<open>
  The chain of \<open>if (res == kEtcPalErrOk) x_initted = ((res = x_init()) == kEtcPalErrOk)\<close>: the
  result, the \<open>initted\<close> flags that are set (as a list) and the trace.
\<close>

fun init_parts ::
    "init_results \<Rightarrow> part list \<Rightarrow> part list \<Rightarrow> part_event list \<Rightarrow>
     etcpal_error \<times> part list \<times> part_event list" where
  "init_parts v [] initted tr = (kEtcPalErrOk, initted, tr)"
| "init_parts v (p # ps) initted tr =
     (if init_result v p = kEtcPalErrOk then init_parts v ps (p # initted) (Inited p # tr)
      else (init_result v p, initted, tr))"

text \<open>The clean-up code: every flag is tested in this order.\<close>

definition cleanup_order :: "feature_opts \<Rightarrow> part list" where
  "cleanup_order C =
     (if dmx_merger_enabled C then [DmxMergerPart] else []) @
     (if source_enabled C then [SourcePart, SourceState] else []) @
     (if receiver_enabled C then [Receiver, ReceiverState, SourceLossPart] else []) @
     (if source_detector_enabled C then [SourceDetector, SourceDetectorState] else []) @
     (if merge_receiver_enabled C then [MergeReceiverPart] else []) @
     [Sockets] @
     (if source_detector_enabled C then [SourceDetectorMem] else []) @
     (if merge_receiver_enabled C then [MergeReceiverMem] else []) @
     (if source_enabled C then [SourceMem] else []) @
     (if receiver_enabled C then [ReceiverMem] else []) @
     [SourceMutex, ReceiverMutex, EtcPalLib]"

fun cleanup :: "part list \<Rightarrow> part list \<Rightarrow> part_event list \<Rightarrow> part_event list" where
  "cleanup [] initted tr = tr"
| "cleanup (p # ps) initted tr =
     cleanup ps initted (if p \<in> set initted then Deinited p # tr else tr)"

definition parts_to_init :: "feature_opts \<Rightarrow> 'l sacn_state \<Rightarrow> u32 \<Rightarrow> part list" where
  "parts_to_init C st features =
     (let f1 = (if merger_requested features \<and> dmx_merger_feature_init_count st > 0
                then features AND (NOT SACN_FEATURE_DMX_MERGER) else features);
          f2 = (if network_requested f1 \<and> all_network_features_init_count st > 0
                then f1 AND (NOT SACN_ALL_NETWORK_FEATURES) else f1)
      in (if network_requested f2 then network_parts C else []) @
         (if dmx_merger_enabled C \<and> merger_requested f2 then [DmxMergerPart] else []))"

definition sacn_init_features ::
    "feature_opts \<Rightarrow> init_results \<Rightarrow> 'l option \<Rightarrow> u32 \<Rightarrow> 'l sacn_state \<Rightarrow>
     etcpal_error \<times> 'l sacn_state" where
  "sacn_init_features C v log features st =
     (let log_params_initted = (log \<noteq> None \<and> \<not> sacn_log_params_set st);
          st1 = (case log of
                   Some l \<Rightarrow> if log_params_initted
                             then st\<lparr>pool_log_params := l, sacn_log_params_set := True\<rparr> else st
                 | None \<Rightarrow> st)
      in case init_parts v (parts_to_init C st features) [] (trace st1) of
           (res, initted, tr) \<Rightarrow>
             if res = kEtcPalErrOk then
               (res,
                st1\<lparr>trace := tr,
                    dmx_merger_feature_init_count :=
                      dmx_merger_feature_init_count st1 + (if merger_requested features then 1 else 0),
                    all_network_features_init_count :=
                      all_network_features_init_count st1 +
                        (if network_requested features then 1 else 0)\<rparr>)
             else
               (res,
                st1\<lparr>trace := cleanup (cleanup_order C) initted tr,
                    sacn_log_params_set := (\<not> log_params_initted \<and> sacn_log_params_set st1)\<rparr>))"

definition sacn_init ::
    "feature_opts \<Rightarrow> init_results \<Rightarrow> 'l option \<Rightarrow> 'l sacn_state \<Rightarrow> etcpal_error \<times> 'l sacn_state" where
  "sacn_init C v log st = sacn_init_features C v log SACN_FEATURES_ALL st"

section \<open>Shutdown\<close>

text \<open>
  \<open>features_to_deinit\<close>: a feature's bits are cleared unless its counter is exactly 1. The
  network counter is decremented only if its bits are still set in \<open>features_to_deinit\<close>.
\<close>

definition features_to_deinit :: "'l sacn_state \<Rightarrow> u32 \<Rightarrow> u32" where
  "features_to_deinit st features =
     (let f1 = (if merger_requested features \<and> dmx_merger_feature_init_count st \<noteq> 1
                then features AND (NOT SACN_FEATURE_DMX_MERGER) else features)
      in if network_requested f1 \<and> all_network_features_init_count st \<noteq> 1
         then f1 AND (NOT SACN_ALL_NETWORK_FEATURES) else f1)"

definition parts_to_deinit :: "feature_opts \<Rightarrow> u32 \<Rightarrow> part list" where
  "parts_to_deinit C f =
     (if dmx_merger_enabled C \<and> merger_requested f then [DmxMergerPart] else []) @
     (if network_requested f then filter (\<lambda>p. p \<noteq> DmxMergerPart) (cleanup_order C) else [])"

definition sacn_deinit_features ::
    "feature_opts \<Rightarrow> u32 \<Rightarrow> 'l sacn_state \<Rightarrow> 'l sacn_state" where
  "sacn_deinit_features C features st =
     (let f = features_to_deinit st features;
          st1 = st\<lparr>trace := fold (\<lambda>p tr. Deinited p # tr) (parts_to_deinit C f) (trace st),
                   sacn_log_params_set := False\<rparr>;
          st2 = (if merger_requested features \<and> dmx_merger_feature_init_count st1 > 0
                 then st1\<lparr>dmx_merger_feature_init_count := dmx_merger_feature_init_count st1 - 1\<rparr>
                 else st1)
      in if network_requested f \<and> all_network_features_init_count st2 > 0
         then st2\<lparr>all_network_features_init_count := all_network_features_init_count st2 - 1\<rparr>
         else st2)"

definition sacn_deinit :: "feature_opts \<Rightarrow> 'l sacn_state \<Rightarrow> 'l sacn_state" where
  "sacn_deinit C st = sacn_deinit_features C SACN_FEATURES_ALL st"

definition sacn_initialized :: "'l sacn_state \<Rightarrow> u32 \<Rightarrow> bool" where
  "sacn_initialized st features =
     (if merger_requested features \<and> dmx_merger_feature_init_count st = 0 then False
      else if features AND SACN_ALL_NETWORK_FEATURES \<noteq> 0 \<and> all_network_features_init_count st = 0
      then False else True)"

section \<open>Feature masks\<close>

lemma merger_cleared [simp]: "\<not> merger_requested (x AND (NOT SACN_FEATURE_DMX_MERGER))"
  by (simp add: merger_requested_def and.assoc)

lemma network_kept [simp]:
  "network_requested (x AND (NOT SACN_FEATURE_DMX_MERGER)) = network_requested x"
  by (simp add: network_requested_def SACN_ALL_NETWORK_FEATURES_def ac_simps)

lemma network_cleared [simp]: "\<not> network_requested (x AND (NOT SACN_ALL_NETWORK_FEATURES))"
  by (simp add: network_requested_def and.assoc SACN_ALL_NETWORK_FEATURES_def
      SACN_FEATURES_ALL_def SACN_FEATURE_DMX_MERGER_def)

lemma merger_kept [simp]:
  "merger_requested (x AND (NOT SACN_ALL_NETWORK_FEATURES)) = merger_requested x"
  by (simp add: merger_requested_def and.assoc SACN_ALL_NETWORK_FEATURES_def SACN_FEATURES_ALL_def
      SACN_FEATURE_DMX_MERGER_def)

lemma all_features [simp]: "merger_requested SACN_FEATURES_ALL" "network_requested SACN_FEATURES_ALL"
  by (simp_all add: merger_requested_def network_requested_def SACN_ALL_NETWORK_FEATURES_def
      SACN_FEATURES_ALL_def SACN_FEATURE_DMX_MERGER_def)

section \<open>Starting and stopping parts\<close>

definition merger_parts :: "feature_opts \<Rightarrow> part list" where
  "merger_parts C = (if dmx_merger_enabled C then [DmxMergerPart] else [])"

lemma parts_distinct: "distinct (network_parts C @ merger_parts C)"
  by (auto simp: network_parts_def merger_parts_def)

lemma cleanup_order_rev: "cleanup_order C = rev (network_parts C @ merger_parts C)"
  by (simp add: cleanup_order_def network_parts_def merger_parts_def)

lemma merger_not_network: "DmxMergerPart \<notin> set (network_parts C)"
  by (simp add: network_parts_def)

lemma init_parts_spec:
  "init_parts v ps initted tr = (res, initted', tr') \<Longrightarrow>
   \<exists>qs rest. ps = qs @ rest \<and> initted' = rev qs @ initted \<and> tr' = map Inited (rev qs) @ tr \<and>
     (\<forall>q \<in> set qs. init_result v q = kEtcPalErrOk) \<and>
     (res = kEtcPalErrOk \<and> rest = [] \<or>
      res \<noteq> kEtcPalErrOk \<and> (\<exists>p rest'. rest = p # rest' \<and> init_result v p = res))"
proof (induction ps arbitrary: initted tr)
  case Nil
  then show ?case by simp
next
  case (Cons p ps)
  show ?case
  proof (cases "init_result v p = kEtcPalErrOk")
    case True
    then have "init_parts v ps (p # initted) (Inited p # tr) = (res, initted', tr')"
      using Cons.prems by simp
    from Cons.IH[OF this] obtain qs rest where
      "ps = qs @ rest" "initted' = rev qs @ p # initted" "tr' = map Inited (rev qs) @ Inited p # tr"
      "\<forall>q \<in> set qs. init_result v q = kEtcPalErrOk"
      "res = kEtcPalErrOk \<and> rest = [] \<or>
       res \<noteq> kEtcPalErrOk \<and> (\<exists>p rest'. rest = p # rest' \<and> init_result v p = res)"
      by blast
    then show ?thesis using True by (intro exI[of _ "p # qs"] exI[of _ rest]) simp
  next
    case False
    then show ?thesis using Cons.prems by (intro exI[of _ "[]"] exI[of _ "p # ps"]) auto
  qed
qed

lemma cleanup_eq: "cleanup ps initted tr = map Deinited (rev (filter (\<lambda>p. p \<in> set initted) ps)) @ tr"
  by (induction ps arbitrary: tr) auto

lemma filter_middle:
  "distinct (a @ qs @ b) \<Longrightarrow> filter (\<lambda>p. p \<in> set qs) (a @ qs @ b) = qs"
proof -
  assume d: "distinct (a @ qs @ b)"
  have "filter (\<lambda>p. p \<in> set qs) a = []" "filter (\<lambda>p. p \<in> set qs) b = []"
    using d by (auto simp: filter_empty_conv)
  moreover have "filter (\<lambda>p. p \<in> set qs) qs = qs" by simp
  ultimately show ?thesis by simp
qed

lemma cleanup_reverse:
  assumes "network_parts C @ merger_parts C = a @ qs @ b"
  shows "cleanup (cleanup_order C) (rev qs) tr = map Deinited qs @ tr"
  using filter_middle[of a qs b] parts_distinct[of C] assms
  by (simp add: cleanup_eq cleanup_order_rev rev_filter)

lemma running_Inited: "running (map Inited ps @ tr) = set ps \<union> running tr"
  by (induction ps) auto

lemma running_Deinited: "running (map Deinited ps @ tr) = running tr - set ps"
  by (induction ps) auto

lemma parts_to_init_middle:
  "\<exists>a b. network_parts C @ merger_parts C = a @ parts_to_init C st features @ b"
proof -
  let ?N = "network_parts C" and ?M = "merger_parts C"
  have "parts_to_init C st features \<in> {?N @ ?M, ?N, ?M, []}"
    by (auto simp: parts_to_init_def Let_def merger_parts_def)
  then consider "parts_to_init C st features = ?N @ ?M" | "parts_to_init C st features = ?N"
    | "parts_to_init C st features = ?M" | "parts_to_init C st features = []" by blast
  then show ?thesis
  proof cases
    case 1
    then show ?thesis by (intro exI[of _ "[]"] exI[of _ "[]"]) simp
  next
    case 2
    then show ?thesis by (intro exI[of _ "[]"] exI[of _ ?M]) simp
  next
    case 3
    then show ?thesis by (intro exI[of _ ?N] exI[of _ "[]"]) auto
  next
    case 4
    then show ?thesis by auto
  qed
qed

section \<open>The counters say what is running\<close>

definition common_inv :: "feature_opts \<Rightarrow> 'l sacn_state \<Rightarrow> bool" where
  "common_inv C st \<longleftrightarrow>
     dmx_merger_feature_init_count st \<ge> 0 \<and> all_network_features_init_count st \<ge> 0 \<and>
     running (trace st) =
       (if all_network_features_init_count st > 0 then set (network_parts C) else {}) \<union>
       (if dmx_merger_feature_init_count st > 0 then set (merger_parts C) else {})"

lemma parts_to_init_set:
  "set (parts_to_init C st features) =
    (if network_requested features \<and> \<not> all_network_features_init_count st > 0
     then set (network_parts C) else {}) \<union>
    (if merger_requested features \<and> \<not> dmx_merger_feature_init_count st > 0
     then set (merger_parts C) else {})"
  by (auto simp: parts_to_init_def Let_def merger_parts_def)

text \<open>Both outcomes of \<open>sacn_init_features\<close>; \<open>qs\<close> are the parts it has started.\<close>

lemma sacn_init_features_cases:
  assumes "sacn_init_features C v log features st = (res, st')"
  obtains (ok) qs where "res = kEtcPalErrOk" "qs = parts_to_init C st features"
      "\<forall>q \<in> set qs. init_result v q = kEtcPalErrOk"
      "trace st' = map Inited (rev qs) @ trace st"
      "dmx_merger_feature_init_count st' =
         dmx_merger_feature_init_count st + (if merger_requested features then 1 else 0)"
      "all_network_features_init_count st' =
         all_network_features_init_count st + (if network_requested features then 1 else 0)"
      "sacn_log_params_set st' = (sacn_log_params_set st \<or> log \<noteq> None)"
    | (failed) qs p rest where "res \<noteq> kEtcPalErrOk" "init_result v p = res"
      "parts_to_init C st features = qs @ p # rest"
      "trace st' = map Deinited qs @ map Inited (rev qs) @ trace st"
      "dmx_merger_feature_init_count st' = dmx_merger_feature_init_count st"
      "all_network_features_init_count st' = all_network_features_init_count st"
      "sacn_log_params_set st' = sacn_log_params_set st"
proof -
  define st1 where "st1 = (case log of
      Some l \<Rightarrow> if log \<noteq> None \<and> \<not> sacn_log_params_set st
                then st\<lparr>pool_log_params := l, sacn_log_params_set := True\<rparr> else st
    | None \<Rightarrow> st)"
  have st1: "trace st1 = trace st" "sacn_log_params_set st1 = (sacn_log_params_set st \<or> log \<noteq> None)"
    "dmx_merger_feature_init_count st1 = dmx_merger_feature_init_count st"
    "all_network_features_init_count st1 = all_network_features_init_count st"
    by (auto simp: st1_def split: option.split)
  obtain e initted tr where run: "init_parts v (parts_to_init C st features) [] (trace st1) = (e, initted, tr)"
    by (metis prod_cases3)
  from init_parts_spec[OF run] obtain qs rest where q: "parts_to_init C st features = qs @ rest"
    "initted = rev qs" "tr = map Inited (rev qs) @ trace st1"
    "\<forall>q \<in> set qs. init_result v q = kEtcPalErrOk"
    "e = kEtcPalErrOk \<and> rest = [] \<or>
     e \<noteq> kEtcPalErrOk \<and> (\<exists>p rest'. rest = p # rest' \<and> init_result v p = e)"
    by auto
  have eq: "sacn_init_features C v log features st =
     (e, if e = kEtcPalErrOk
         then st1\<lparr>trace := tr,
                  dmx_merger_feature_init_count :=
                    dmx_merger_feature_init_count st1 + (if merger_requested features then 1 else 0),
                  all_network_features_init_count :=
                    all_network_features_init_count st1 + (if network_requested features then 1 else 0)\<rparr>
         else st1\<lparr>trace := cleanup (cleanup_order C) initted tr,
                  sacn_log_params_set :=
                    (\<not> (log \<noteq> None \<and> \<not> sacn_log_params_set st) \<and> sacn_log_params_set st1)\<rparr>)"
    unfolding sacn_init_features_def Let_def st1_def[symmetric] run by simp
  show thesis
  proof (cases "e = kEtcPalErrOk")
    case True
    then show ?thesis using assms eq q st1 by (intro ok[of qs]) auto
  next
    case False
    then obtain p rest' where p: "rest = p # rest'" "init_result v p = e" using q by auto
    obtain a b where "network_parts C @ merger_parts C = a @ qs @ (p # rest') @ b"
      using parts_to_init_middle[of C st features] q p by auto
    then have "cleanup (cleanup_order C) initted tr = map Deinited qs @ tr"
      using cleanup_reverse[of C a qs] q(2) by simp
    then show ?thesis using False assms eq q st1 p by (intro failed[of p qs rest']) auto
  qed
qed

lemma sacn_init_features_inv:
  assumes "common_inv C st"
  shows "common_inv C (snd (sacn_init_features C v log features st))"
proof -
  obtain res st' where r: "sacn_init_features C v log features st = (res, st')" by fastforce
  from r show ?thesis
  proof (cases rule: sacn_init_features_cases)
    case (ok qs)
    then have "running (trace st') = set (parts_to_init C st features) \<union> running (trace st)"
      by (simp add: running_Inited)
    then show ?thesis using ok assms r by (auto simp: common_inv_def parts_to_init_set)
  next
    case (failed qs p rest)
    have "set qs \<subseteq> set (parts_to_init C st features)" using failed by auto
    then have "set qs \<inter> running (trace st) = {}"
      using assms merger_not_network[of C]
      by (auto simp: common_inv_def parts_to_init_set merger_parts_def split: if_splits)
    then have "running (trace st') = running (trace st)"
      using failed by (auto simp: running_Deinited running_Inited)
    then show ?thesis using failed assms r by (simp add: common_inv_def)
  qed
qed

lemma fold_Deinited: "fold (\<lambda>p tr. Deinited p # tr) ps tr = map Deinited (rev ps) @ tr"
  by (induction ps arbitrary: tr) auto

lemma parts_to_deinit_set:
  "set (parts_to_deinit C (features_to_deinit st features)) =
    (if merger_requested features \<and> dmx_merger_feature_init_count st = 1
     then set (merger_parts C) else {}) \<union>
    (if network_requested features \<and> all_network_features_init_count st = 1
     then set (network_parts C) else {})"
  using merger_not_network[of C]
  by (auto simp: parts_to_deinit_def features_to_deinit_def Let_def cleanup_order_rev merger_parts_def)

lemma sacn_deinit_features_simps:
  "trace (sacn_deinit_features C features st) =
     map Deinited (rev (parts_to_deinit C (features_to_deinit st features))) @ trace st"
  "dmx_merger_feature_init_count (sacn_deinit_features C features st) =
     (if merger_requested features \<and> dmx_merger_feature_init_count st > 0
      then dmx_merger_feature_init_count st - 1 else dmx_merger_feature_init_count st)"
  "all_network_features_init_count (sacn_deinit_features C features st) =
     (if network_requested features \<and> all_network_features_init_count st = 1
      then 0 else all_network_features_init_count st)"
  by (auto simp: sacn_deinit_features_def Let_def fold_Deinited features_to_deinit_def)

lemma sacn_deinit_features_inv:
  "common_inv C st \<Longrightarrow> common_inv C (sacn_deinit_features C features st)"
  using merger_not_network[of C]
  by (auto simp: common_inv_def sacn_deinit_features_simps running_Deinited parts_to_deinit_set
      merger_parts_def split: if_splits)

section \<open>Sequences of calls\<close>

datatype 'l common_call = InitFeatures init_results "'l option" u32 | DeinitFeatures u32

fun exec_common :: "feature_opts \<Rightarrow> 'l common_call \<Rightarrow> 'l sacn_state \<Rightarrow> 'l sacn_state" where
  "exec_common C (InitFeatures v log f) st = snd (sacn_init_features C v log f st)"
| "exec_common C (DeinitFeatures f) st = sacn_deinit_features C f st"

definition initial_sacn_state :: "'l \<Rightarrow> 'l sacn_state" where
  "initial_sacn_state l = \<lparr>dmx_merger_feature_init_count = 0, all_network_features_init_count = 0,
     pool_log_params = l, sacn_log_params_set = False, trace = []\<rparr>"

interpretation common_calls: invariant_machine "exec_common C" "common_inv C" "\<lambda>_. True" for C
proof
  fix st :: "'l sacn_state" and c :: "'l common_call"
  assume "common_inv C st"
  then show "common_inv C (exec_common C c st)"
    by (cases c) (auto intro: sacn_init_features_inv sacn_deinit_features_inv)
qed

lemma common_reachable: "common_inv C (fold (exec_common C) cs (initial_sacn_state l))"
  by (rule common_calls.run_inv) (simp_all add: common_inv_def initial_sacn_state_def list_all_iff)

text \<open>
  C17: After any sequence of \<open>sacn_init_features\<close> and \<open>sacn_deinit_features\<close> calls, with any failures
  and any feature masks, exactly the parts of the features whose counter is positive are
  running: nothing is leaked by a failed or a redundant call and nothing is stopped twice.
\<close>

theorem running_parts_match_counters:
  "let st = fold (exec_common C) cs (initial_sacn_state l) in
   running (trace st) =
     (if all_network_features_init_count st > 0 then set (network_parts C) else {}) \<union>
     (if dmx_merger_feature_init_count st > 0 \<and> dmx_merger_enabled C then {DmxMergerPart} else {})"
  using common_reachable[of C cs l] by (auto simp: common_inv_def Let_def merger_parts_def)

text \<open>
  C20: A call of \<open>sacn_init_features\<close> that fails reports the result of the part that failed, and
  undoes what it did: the parts it had started are stopped in reverse order, and both counters
  and the log parameters in use are as before the call.
\<close>

theorem failed_init_unwinds:
  assumes "sacn_init_features C v log features st = (res, st')" "res \<noteq> kEtcPalErrOk"
  shows "\<exists>qs p. init_result v p = res \<and>
    trace st' = map Deinited qs @ map Inited (rev qs) @ trace st \<and>
    dmx_merger_feature_init_count st' = dmx_merger_feature_init_count st \<and>
    all_network_features_init_count st' = all_network_features_init_count st \<and>
    sacn_log_params_set st' = sacn_log_params_set st"
  using assms(1)
proof (cases rule: sacn_init_features_cases)
  case (failed qs p rest)
  then show ?thesis by blast
qed (use assms(2) in simp)

definition example_features :: feature_opts where
  "example_features = \<lparr>receiver_enabled = True, source_enabled = False,
     merge_receiver_enabled = False, source_detector_enabled = False, dmx_merger_enabled = True\<rparr>"

definition sockets_fail :: init_results where
  "sockets_fail = \<lparr>part_result = (\<lambda>p. if p = Sockets then kEtcPalErrNoNetints else kEtcPalErrOk),
     receiver_mutex_created = True, source_mutex_created = True\<rparr>"

definition all_succeed :: init_results where
  "all_succeed = \<lparr>part_result = (\<lambda>_. kEtcPalErrOk), receiver_mutex_created = True,
     source_mutex_created = True\<rparr>"

lemma sockets_fail_run:
  "sacn_init example_features sockets_fail (Some l) (initial_sacn_state l) =
     (kEtcPalErrNoNetints, (initial_sacn_state l)\<lparr>trace :=
        map Deinited [EtcPalLib, ReceiverMutex, SourceMutex, ReceiverMem] @
        map Inited [ReceiverMem, SourceMutex, ReceiverMutex, EtcPalLib]\<rparr>)"
  by (simp add: sacn_init_def sacn_init_features_def parts_to_init_def network_parts_def
      cleanup_order_def init_result_def example_features_def sockets_fail_def initial_sacn_state_def)

theorem failed_init_unwinds_witness:
  "sacn_log_params_set (snd (sacn_init example_features sockets_fail (Some (0::nat)) (initial_sacn_state 0))) =
   sacn_log_params_set (initial_sacn_state (0::nat))"
  using failed_init_unwinds[of example_features sockets_fail "Some 0" SACN_FEATURES_ALL
      "initial_sacn_state 0" kEtcPalErrNoNetints] sockets_fail_run[of "0::nat"]
  by (auto simp: sacn_init_def)

text \<open>
  A feature that \<open>sacn_initialized\<close> reports as initialized has all its parts running, in every
  reachable state.
\<close>

theorem initialized_parts_running:
  assumes "sacn_initialized (fold (exec_common C) cs (initial_sacn_state l)) features"
  shows "(features AND SACN_ALL_NETWORK_FEATURES \<noteq> 0 \<longrightarrow>
      set (network_parts C) \<subseteq> running (trace (fold (exec_common C) cs (initial_sacn_state l)))) \<and>
    (merger_requested features \<longrightarrow>
      set (merger_parts C) \<subseteq> running (trace (fold (exec_common C) cs (initial_sacn_state l))))"
  using assms common_reachable[of C cs l]
  by (auto simp: common_inv_def sacn_initialized_def split: if_splits)

lemma all_succeed_result [simp]: "init_result all_succeed p = kEtcPalErrOk"
  by (simp add: init_result_def all_succeed_def)

lemma all_succeed_run:
  "dmx_merger_feature_init_count (snd (sacn_init_features C all_succeed log SACN_FEATURES_ALL st)) =
     dmx_merger_feature_init_count st + 1 \<and>
   all_network_features_init_count (snd (sacn_init_features C all_succeed log SACN_FEATURES_ALL st)) =
     all_network_features_init_count st + 1"
proof -
  obtain res st' where r: "sacn_init_features C all_succeed log SACN_FEATURES_ALL st = (res, st')"
    by fastforce
  from r show ?thesis
    by (cases rule: sacn_init_features_cases) (simp_all add: r)
qed

theorem initialized_parts_running_witness:
  "{EtcPalLib, Sockets, DmxMergerPart} \<subseteq>
     running (trace (exec_common example_features (InitFeatures all_succeed None SACN_FEATURES_ALL)
       (initial_sacn_state (0::nat))))"
proof -
  have "sacn_initialized (fold (exec_common example_features)
      [InitFeatures all_succeed None SACN_FEATURES_ALL] (initial_sacn_state (0::nat))) SACN_FEATURES_ALL"
    using all_succeed_run[of example_features None "initial_sacn_state (0::nat)"]
    by (simp add: sacn_initialized_def initial_sacn_state_def)
  from initialized_parts_running[OF this] show ?thesis
    by (simp add: network_parts_def merger_parts_def example_features_def SACN_ALL_NETWORK_FEATURES_def
        SACN_FEATURES_ALL_def SACN_FEATURE_DMX_MERGER_def merger_requested_def)
qed

text \<open>
  The merger feature's counter is balanced: after \<open>n\<close> calls of \<open>sacn_deinit_features\<close> it has
  gone down by \<open>n\<close>, and stops at 0.
\<close>

theorem merger_counter_balanced:
  assumes "dmx_merger_feature_init_count st \<ge> 0"
  shows "dmx_merger_feature_init_count ((sacn_deinit_features C SACN_FEATURE_DMX_MERGER ^^ n) st) =
    max 0 (dmx_merger_feature_init_count st - int n)"
proof (induction n)
  case 0
  then show ?case using assms by simp
next
  case (Suc n)
  have "merger_requested SACN_FEATURE_DMX_MERGER"
    by (simp add: merger_requested_def SACN_FEATURE_DMX_MERGER_def)
  then show ?case using Suc by (auto simp: sacn_deinit_features_simps)
qed

theorem merger_counter_balanced_witness:
  "dmx_merger_feature_init_count ((sacn_deinit_features example_features SACN_FEATURE_DMX_MERGER ^^ 3)
     (initial_sacn_state (0::nat)\<lparr>dmx_merger_feature_init_count := 2\<rparr>)) = 0"
  using merger_counter_balanced[where C = example_features and n = 3 and
      st = "initial_sacn_state (0::nat)\<lparr>dmx_merger_feature_init_count := 2\<rparr>"]
  by simp

text \<open>
  C21: The network counter is not balanced: once it is 2 or more, no number of \<open>sacn_deinit\<close> calls
  changes it, so the network features stay initialized and their parts are never stopped,
  although as many deinit as init calls are documented to release them.
\<close>

theorem network_features_never_released:
  assumes "all_network_features_init_count st \<ge> 2"
  shows "all_network_features_init_count ((sacn_deinit C ^^ n) st) = all_network_features_init_count st \<and>
    sacn_initialized ((sacn_deinit C ^^ n) st) SACN_ALL_NETWORK_FEATURES"
proof -
  have "all_network_features_init_count ((sacn_deinit C ^^ n) st) = all_network_features_init_count st"
    by (induction n) (use assms in \<open>auto simp: sacn_deinit_def sacn_deinit_features_simps\<close>)
  moreover have "\<not> merger_requested SACN_ALL_NETWORK_FEATURES"
    by (simp add: SACN_ALL_NETWORK_FEATURES_def)
  ultimately show ?thesis using assms by (simp add: sacn_initialized_def)
qed

theorem network_features_never_released_witness:
  "sacn_initialized ((sacn_deinit example_features ^^ 2)
     (snd (sacn_init example_features all_succeed None
       (snd (sacn_init example_features all_succeed None (initial_sacn_state (0::nat)))))))
     SACN_ALL_NETWORK_FEATURES"
proof -
  have "all_network_features_init_count (snd (sacn_init example_features all_succeed None
      (snd (sacn_init example_features all_succeed None (initial_sacn_state (0::nat)))))) = 2"
    using all_succeed_run[of example_features None "initial_sacn_state (0::nat)"]
      all_succeed_run[of example_features None "snd (sacn_init example_features all_succeed None
        (initial_sacn_state (0::nat)))"]
    by (simp add: sacn_init_def initial_sacn_state_def)
  then show ?thesis
    by (intro network_features_never_released[THEN conjunct2]) simp
qed

text \<open>
  A single \<open>sacn_init\<close> followed by a single \<open>sacn_deinit\<close> leaves nothing running, both counters
  at 0 and the library reported as not initialized.
\<close>

theorem init_deinit_round_trip:
  assumes "sacn_init C v log (initial_sacn_state l) = (kEtcPalErrOk, st')"
  shows "running (trace (sacn_deinit C st')) = {} \<and>
    dmx_merger_feature_init_count (sacn_deinit C st') = 0 \<and>
    all_network_features_init_count (sacn_deinit C st') = 0 \<and>
    \<not> sacn_initialized (sacn_deinit C st') SACN_FEATURES_ALL"
proof -
  have "common_inv C (initial_sacn_state l)"
    by (simp add: common_inv_def initial_sacn_state_def)
  then have inv: "common_inv C (sacn_deinit C st')"
    using sacn_init_features_inv[of C "initial_sacn_state l" v log SACN_FEATURES_ALL] assms
    by (simp add: sacn_init_def sacn_deinit_def sacn_deinit_features_inv)
  have "dmx_merger_feature_init_count st' = 1 \<and> all_network_features_init_count st' = 1"
    using assms unfolding sacn_init_def
    by (cases rule: sacn_init_features_cases) (simp_all add: initial_sacn_state_def)
  then have "dmx_merger_feature_init_count (sacn_deinit C st') = 0 \<and>
      all_network_features_init_count (sacn_deinit C st') = 0"
    by (simp add: sacn_deinit_def sacn_deinit_features_simps)
  then show ?thesis using inv by (simp add: common_inv_def sacn_initialized_def)
qed

theorem init_deinit_round_trip_witness:
  "running (trace (sacn_deinit example_features
     (snd (sacn_init example_features all_succeed None (initial_sacn_state (0::nat)))))) = {}"
proof -
  have "fst (sacn_init example_features all_succeed None (initial_sacn_state (0::nat))) = kEtcPalErrOk"
    by (simp add: sacn_init_def sacn_init_features_def parts_to_init_def network_parts_def
        init_result_def example_features_def all_succeed_def initial_sacn_state_def)
  then show ?thesis
    using init_deinit_round_trip[of example_features all_succeed None "0::nat"]
    by (metis prod.collapse)
qed

end
