(* ===== verification/MemBuf.thy ===== *)
theory MemBuf
  imports EtcPal
begin

text \<open>
  The growing buffers of the sACN library (src/sACN/src/sacn/mem/common.c and the macros of
  src/sACN/src/sacn/private/mem/common.h). \<open>size_t\<close> is a number below \<open>2 ^ 64\<close>, with the
  wrap-around of the doubling written out; the loop that doubles a capacity may run forever,
  so it is a partial function whose \<open>None\<close> means that it does not return, and every function
  built on it passes this on. A buffer is the list of its used entries and its capacity.
  The locale \<open>append_buffer\<close> is the contract the buffers' users rely on.
\<close>

section \<open>Growing a capacity\<close>

definition SIZE_MOD :: nat where "SIZE_MOD = 2 ^ 64"

text \<open>An \<open>int\<close> converted to \<open>size_t\<close>.\<close>

definition size_of_int :: "int \<Rightarrow> nat" where "size_of_int i = nat (i mod 2 ^ 64)"

partial_function (option) sacn_mem_grow_capacity :: "nat \<Rightarrow> nat \<Rightarrow> nat option" where
  "sacn_mem_grow_capacity capacity capacity_requested =
     (if capacity < capacity_requested
      then sacn_mem_grow_capacity ((capacity * 2) mod SIZE_MOD) capacity_requested
      else Some capacity)"

declare sacn_mem_grow_capacity.simps [code]

lemma grow_capacity_done: "\<not> c < n \<Longrightarrow> sacn_mem_grow_capacity c n = Some c"
  by (subst sacn_mem_grow_capacity.simps) simp

lemma grow_capacity_step:
  "c < n \<Longrightarrow> sacn_mem_grow_capacity c n = sacn_mem_grow_capacity ((c * 2) mod SIZE_MOD) n"
  by (subst sacn_mem_grow_capacity.simps) simp

lemma grow_capacity_exists:
  "0 < c \<Longrightarrow> n \<le> 2 ^ 63 \<Longrightarrow>
   \<exists>r. sacn_mem_grow_capacity c n = Some r \<and> n \<le> r \<and> c \<le> r \<and> (r = c \<or> r < 2 * n)"
proof (induction "n - c" arbitrary: c rule: less_induct)
  case less
  show ?case
  proof (cases "c < n")
    case False
    then show ?thesis by (simp add: grow_capacity_done)
  next
    case True
    then have "c * 2 < SIZE_MOD" using less.prems by (simp add: SIZE_MOD_def)
    then have step: "sacn_mem_grow_capacity c n = sacn_mem_grow_capacity (c * 2) n"
      using grow_capacity_step[OF True] by simp
    obtain r where "sacn_mem_grow_capacity (c * 2) n = Some r" "n \<le> r" "c * 2 \<le> r"
      "r = c * 2 \<or> r < 2 * n"
      using less.hyps[of "c * 2"] less.prems True by force
    then show ?thesis using step True by auto
  qed
qed

lemma grow_capacity_positive:
  "sacn_mem_grow_capacity c n = Some r \<Longrightarrow> \<not> (c = 0 \<and> 0 < n)"
  by (erule sacn_mem_grow_capacity.raw_induct[rotated])
     (auto split: if_splits, metis mod_0 mult_0 neq0_conv not_less0)

section \<open>Buffers\<close>

record 'a buf =
  items :: "'a list"
  capacity :: nat

definition kSacnInitialCapacity :: nat where "kSacnInitialCapacity = 8"

text \<open>
  \<open>CHECK_CAPACITY\<close>: \<open>dyn\<close> is \<open>SACN_DYNAMIC_MEM\<close>, \<open>ok\<close> says whether \<open>realloc\<close> succeeds. The result
  is \<open>None\<close> when the growth loop does not end, \<open>Some None\<close> when the macro returns the failure
  value, else the new capacity.
\<close>

definition check_capacity :: "bool \<Rightarrow> bool \<Rightarrow> nat \<Rightarrow> nat \<Rightarrow> nat \<Rightarrow> nat option option" where
  "check_capacity dyn ok max_static cap size_requested =
     (if dyn then
        if size_requested > cap then
          (case sacn_mem_grow_capacity cap size_requested of
             None \<Rightarrow> None
           | Some new_capacity \<Rightarrow> Some (if ok then Some new_capacity else None))
        else Some (Some cap)
      else if size_requested > max_static then Some None
      else Some (Some cap))"

text \<open>\<open>CHECK_ROOM_FOR_ONE_MORE\<close> and the store of one entry behind the last one.\<close>

definition append_item :: "bool \<Rightarrow> bool \<Rightarrow> nat \<Rightarrow> 'a \<Rightarrow> 'a buf \<Rightarrow> (bool \<times> 'a buf) option" where
  "append_item dyn ok max_static x b =
     (case check_capacity dyn ok max_static (capacity b) (length (items b) + 1) of
        None \<Rightarrow> None
      | Some None \<Rightarrow> Some (False, b)
      | Some (Some c) \<Rightarrow> Some (True, \<lparr>items = items b @ [x], capacity = c\<rparr>))"

text \<open>\<open>CLEAR_BUF\<close> leaves the capacity field as it is; \<open>REMOVE_AT_INDEX\<close>.\<close>

definition clear_buf :: "'a buf \<Rightarrow> 'a buf" where
  "clear_buf b = b\<lparr>items := []\<rparr>"

definition remove_at :: "nat \<Rightarrow> 'a list \<Rightarrow> 'a list" where
  "remove_at i xs = take i xs @ drop (i + 1) xs"

text \<open>
  The entries fit the allocation. The bound on the capacity leaves room for one doubling; a
  buffer of \<open>2 ^ 62\<close> entries is beyond any address space.
\<close>

definition buf_ok :: "bool \<Rightarrow> nat \<Rightarrow> 'a buf \<Rightarrow> bool" where
  "buf_ok dyn max_static b \<longleftrightarrow>
     (if dyn then 0 < capacity b \<and> length (items b) \<le> capacity b
      else length (items b) \<le> max_static)"

lemma append_item_returns:
  assumes "buf_ok dyn max_static b" "length (items b) < 2 ^ 62"
  obtains (full) "append_item dyn ok max_static x b = Some (False, b)"
      "dyn \<Longrightarrow> \<not> ok" "\<not> dyn \<Longrightarrow> length (items b) = max_static"
    | (added) b' where "append_item dyn ok max_static x b = Some (True, b')"
      "items b' = items b @ [x]" "buf_ok dyn max_static b'"
proof (cases "dyn \<and> length (items b) + 1 > capacity b")
  case True
  obtain r where "sacn_mem_grow_capacity (capacity b) (length (items b) + 1) = Some r"
    "length (items b) + 1 \<le> r"
    using grow_capacity_exists[of "capacity b" "length (items b) + 1"] assms True
    by (auto simp: buf_ok_def)
  then show ?thesis
    using True full added[of "\<lparr>items = items b @ [x], capacity = r\<rparr>"]
    by (cases ok) (auto simp: append_item_def check_capacity_def buf_ok_def)
next
  case False
  then show ?thesis
    using assms full added[of "\<lparr>items = items b @ [x], capacity = capacity b\<rparr>"]
    by (cases "\<not> dyn \<and> length (items b) + 1 > max_static")
       (auto simp: append_item_def check_capacity_def buf_ok_def)
qed

section \<open>The contract of an appending function\<close>

text \<open>
  \<open>add\<close> appends an element to the list that \<open>view\<close> shows, or reports that there is no room and
  changes nothing; it always returns and keeps the owner well formed. \<open>room\<close> is the length up
  to which that is known.
\<close>

locale append_buffer =
  fixes add :: "'x \<Rightarrow> 's \<Rightarrow> (bool \<times> 's) option"
    and view :: "'s \<Rightarrow> 'x list"
    and ok :: "'s \<Rightarrow> bool"
    and room :: nat
  assumes add_cases:
    "ok s \<Longrightarrow> length (view s) < room \<Longrightarrow>
     add x s = Some (False, s) \<or>
     (\<exists>s'. add x s = Some (True, s') \<and> view s' = view s @ [x] \<and> ok s')"
begin

fun add_all :: "'x list \<Rightarrow> 's \<Rightarrow> (nat \<times> 's) option" where
  "add_all [] s = Some (0, s)"
| "add_all (x # xs) s =
     (case add x s of
        None \<Rightarrow> None
      | Some (added, s') \<Rightarrow>
          (case add_all xs s' of
             None \<Rightarrow> None
           | Some (n, s'') \<Rightarrow> Some ((if added then 1 else 0) + n, s'')))"

lemma add_all_returns:
  "ok s \<Longrightarrow> length (view s) + length xs \<le> room \<Longrightarrow>
   \<exists>n s' ys. add_all xs s = Some (n, s') \<and> ok s' \<and> view s' = view s @ ys \<and> length ys = n \<and>
     set ys \<subseteq> set xs"
proof (induction xs arbitrary: s)
  case Nil
  then show ?case by auto
next
  case (Cons x xs)
  consider "add x s = Some (False, s)"
    | s1 where "add x s = Some (True, s1)" "view s1 = view s @ [x]" "ok s1"
    using add_cases[of s x] Cons.prems by auto
  then show ?case
  proof cases
    case 1
    obtain n s' ys where "add_all xs s = Some (n, s')" "ok s'" "view s' = view s @ ys"
      "length ys = n" "set ys \<subseteq> set xs"
      using Cons.IH[of s] Cons.prems by auto
    then show ?thesis using 1 by (intro exI[of _ n] exI[of _ s'] exI[of _ ys]) auto
  next
    case 2
    obtain n s' ys where "add_all xs s1 = Some (n, s')" "ok s'" "view s' = view s1 @ ys"
      "length ys = n" "set ys \<subseteq> set xs"
      using Cons.IH[of s1] Cons.prems 2 by auto
    then show ?thesis
      using 2 by (intro exI[of _ "1 + n"] exI[of _ s'] exI[of _ "x # ys"]) auto
  qed
qed

end

interpretation item_buffer: append_buffer "append_item dyn ok max_static" items
    "buf_ok dyn max_static" "2 ^ 62" for dyn ok max_static
  by unfold_locales (metis append_item_returns)

section \<open>Properties\<close>

text \<open>
  C25: The doubling loop: from a positive capacity it returns for every request up to
  \<open>2 ^ 63\<close>, with a capacity that covers the request and is less than twice the request unless
  it already sufficed; from capacity 0 it never returns when anything is requested.
\<close>

theorem capacity_growth:
  assumes "n \<le> 2 ^ 63"
  shows "(0 < c \<longrightarrow> (\<exists>r. sacn_mem_grow_capacity c n = Some r \<and> n \<le> r \<and> c \<le> r \<and> (r = c \<or> r < 2 * n))) \<and>
    (0 < n \<longrightarrow> sacn_mem_grow_capacity 0 n = None)"
proof -
  have "sacn_mem_grow_capacity 0 n = None" if "0 < n"
    using grow_capacity_positive[of 0 n] that by (cases "sacn_mem_grow_capacity 0 n") auto
  then show ?thesis using grow_capacity_exists[of c n] assms by blast
qed

theorem capacity_growth_witness:
  "(\<exists>r. sacn_mem_grow_capacity 8 9 = Some r \<and> 9 \<le> r \<and> r < 18) \<and> sacn_mem_grow_capacity 0 1 = None"
  using capacity_growth[of 9 8] capacity_growth[of 1 0] by auto

end
