(* ===== verification/RemoteSource.thy ===== *)
theory RemoteSource
  imports MemBuf
begin

text \<open>
  The table of remote sources (src/sACN/src/sacn/mem/receiver/remote_source.c), which gives every
  component identifier (CID) seen on the network a 16-bit handle and counts who uses it.
  \<^item> Two trees point to the same sources: one sorted by CID, one by handle. Each tree of the model
    holds the keys, the structs are in \<open>handle_mem\<close> and \<open>cid_mem\<close>.
  \<^item> EtcPal's trees and its integer handle manager are the parameter \<open>remote_ext\<close>; which of the
    allocations of a call succeed is \<open>remote_alloc\<close>.
  \<^item> The locale \<open>handle_table\<close> is what users of the table rely on: a finite map from CIDs to a
    handle and a count; the interpretation \<open>remote_sources\<close> shows that the two trees implement it.
\<close>

section \<open>State\<close>

definition kSacnRemoteSourceInvalid :: u16 where "kSacnRemoteSourceInvalid = 0xFFFF"

record 'cid remote_source_entry =
  entry_cid :: 'cid
  refcount :: nat

record ('cid, 't, 'c, 'm) remote_table =
  handle_tree :: 't
  handle_mem :: "'cid \<Rightarrow> u16"
  cid_tree :: 'c
  cid_mem :: "u16 \<Rightarrow> 'cid remote_source_entry"
  remote_handle_mgr :: 'm

record ('cid, 't, 'c, 'm) remote_ext =
  handle_rb :: "('cid, 't) rbtree_ops"
  cid_rb :: "(u16, 'c) rbtree_ops"
  init_remote_handles :: "int \<Rightarrow> 'm"
  next_remote_handle :: "(int \<Rightarrow> bool) \<Rightarrow> 'm \<Rightarrow> int \<times> 'm"

record remote_alloc =
  handle_alloc_ok :: bool
  cid_alloc_ok :: bool
  handle_node_ok :: bool
  cid_node_ok :: bool

section \<open>Operations\<close>

definition init_remote_sources ::
    "('cid, 't, 'c, 'm) remote_ext \<Rightarrow> ('cid, 't, 'c, 'm) remote_table \<Rightarrow> etcpal_error \<times> ('cid, 't, 'c, 'm) remote_table" where
  "init_remote_sources X R =
     (kEtcPalErrOk, R\<lparr>remote_handle_mgr := init_remote_handles X (0xffff - 1),
                      handle_tree := rb_init (handle_rb X), cid_tree := rb_init (cid_rb X)\<rparr>)"

definition deinit_remote_sources ::
    "('cid, 't, 'c, 'm) remote_ext \<Rightarrow> ('cid, 't, 'c, 'm) remote_table \<Rightarrow> ('cid, 't, 'c, 'm) remote_table" where
  "deinit_remote_sources X R =
     R\<lparr>handle_tree := snd (rb_clear (handle_rb X) (handle_tree R)), cid_tree := snd (rb_clear (cid_rb X) (cid_tree R))\<rparr>"

text \<open>The comparison functions of the two trees: by handle, and by CID (\<open>ETCPAL_UUID_CMP\<close>).\<close>

definition remote_source_compare :: "u16 \<Rightarrow> u16 \<Rightarrow> int" where
  "remote_source_compare lhs rhs = of_bool (lhs > rhs) - of_bool (lhs < rhs)"

definition get_remote_source_handle ::
    "('cid, 't, 'c, 'm) remote_ext \<Rightarrow> ('cid, 't, 'c, 'm) remote_table \<Rightarrow> 'cid \<Rightarrow> u16" where
  "get_remote_source_handle X R cid =
     (if rb_find (handle_rb X) (handle_tree R) cid then handle_mem R cid else kSacnRemoteSourceInvalid)"

definition get_remote_source_cid ::
    "('cid, 't, 'c, 'm) remote_ext \<Rightarrow> ('cid, 't, 'c, 'm) remote_table \<Rightarrow> u16 \<Rightarrow> 'cid option" where
  "get_remote_source_cid X R h =
     (if h = kSacnRemoteSourceInvalid then None
      else if rb_find (cid_rb X) (cid_tree R) h then Some (entry_cid (cid_mem R h)) else None)"

definition remote_source_handle_in_use ::
    "('cid, 't, 'c, 'm) remote_ext \<Rightarrow> ('cid, 't, 'c, 'm) remote_table \<Rightarrow> int \<Rightarrow> bool" where
  "remote_source_handle_in_use X R handle_val \<longleftrightarrow> get_remote_source_cid X R (word_of_int handle_val) \<noteq> None"

text \<open>The result has the output parameter \<open>handle\<close>, \<open>None\<close> where it is not written.\<close>

definition add_remote_source_handle ::
    "('cid, 't, 'c, 'm) remote_ext \<Rightarrow> remote_alloc \<Rightarrow> 'cid \<Rightarrow> ('cid, 't, 'c, 'm) remote_table \<Rightarrow>
     etcpal_error \<times> u16 option \<times> ('cid, 't, 'c, 'm) remote_table" where
  "add_remote_source_handle X A cid R =
     (if rb_find (handle_rb X) (handle_tree R) cid
      then let h = handle_mem R cid in
           if rb_find (cid_rb X) (cid_tree R) h
           then (kEtcPalErrOk, Some h,
                 R\<lparr>cid_mem := (cid_mem R)(h := (cid_mem R h)\<lparr>refcount := refcount (cid_mem R h) + 1\<rparr>)\<rparr>)
           else (kEtcPalErrSys, Some h, R)
      else if \<not> (handle_alloc_ok A \<and> cid_alloc_ok A) then (kEtcPalErrNoMem, None, R)
      else
        let (i, mgr) = next_remote_handle X (remote_source_handle_in_use X R) (remote_handle_mgr R);
            h = word_of_int i;
            R = R\<lparr>remote_handle_mgr := mgr\<rparr>;
            (result, t) = rb_insert (handle_rb X) (handle_node_ok A) (handle_tree R) cid
        in if result \<noteq> kEtcPalErrOk
           then (result, None, R\<lparr>handle_tree := snd (rb_remove (handle_rb X) t cid)\<rparr>)
           else let (result, c) = rb_insert (cid_rb X) (cid_node_ok A) (cid_tree R) h
                in if result \<noteq> kEtcPalErrOk
                   then (result, None, R\<lparr>handle_tree := snd (rb_remove (handle_rb X) t cid), cid_tree := c\<rparr>)
                   else (kEtcPalErrOk, Some h,
                         R\<lparr>handle_tree := t, handle_mem := (handle_mem R)(cid := h),
                           cid_tree := c, cid_mem := (cid_mem R)(h := \<lparr>entry_cid = cid, refcount = 1\<rparr>)\<rparr>))"

definition remove_remote_source_handle ::
    "('cid, 't, 'c, 'm) remote_ext \<Rightarrow> u16 \<Rightarrow> ('cid, 't, 'c, 'm) remote_table \<Rightarrow>
     etcpal_error \<times> ('cid, 't, 'c, 'm) remote_table" where
  "remove_remote_source_handle X h R =
     (if h = kSacnRemoteSourceInvalid then (kEtcPalErrSys, R)
      else if rb_find (cid_rb X) (cid_tree R) h
      then if refcount (cid_mem R h) \<le> 1
           then let (handle_result, t) = rb_remove (handle_rb X) (handle_tree R) (entry_cid (cid_mem R h));
                    (cid_result, c) = rb_remove (cid_rb X) (cid_tree R) h
                in (if handle_result \<noteq> kEtcPalErrOk then handle_result else cid_result,
                    R\<lparr>handle_tree := t, cid_tree := c\<rparr>)
           else (kEtcPalErrOk,
                 R\<lparr>cid_mem := (cid_mem R)(h := (cid_mem R h)\<lparr>refcount := refcount (cid_mem R h) - 1\<rparr>)\<rparr>)
      else (kEtcPalErrNotFound, R))"

section \<open>The contract of a table of handles\<close>

text \<open>
  \<open>entries\<close> is what the table stands for. Different CIDs have different handles, all valid.
  Acquiring a known CID counts one more user of its handle, acquiring a new one either makes an
  entry with one user or changes nothing; releasing a handle takes one user away, and the entry
  with the last one.
\<close>

locale handle_table =
  fixes entries :: "'s \<Rightarrow> 'cid \<Rightarrow> (u16 \<times> nat) option"
    and ok :: "'s \<Rightarrow> bool"
    and acquire :: "'a \<Rightarrow> 'cid \<Rightarrow> 's \<Rightarrow> etcpal_error \<times> u16 option \<times> 's"
    and release :: "u16 \<Rightarrow> 's \<Rightarrow> etcpal_error \<times> 's"
  assumes entry_valid: "ok s \<Longrightarrow> entries s c = Some (h, n) \<Longrightarrow> h \<noteq> kSacnRemoteSourceInvalid \<and> 0 < n"
    and entry_unique: "ok s \<Longrightarrow> entries s c = Some (h, n) \<Longrightarrow> entries s d = Some (h, m) \<Longrightarrow> c = d"
    and acquire_known:
      "ok s \<Longrightarrow> entries s c = Some (h, n) \<Longrightarrow>
       \<exists>s'. acquire a c s = (kEtcPalErrOk, Some h, s') \<and> ok s' \<and> entries s' = (entries s)(c \<mapsto> (h, n + 1))"
    and acquire_new:
      "ok s \<Longrightarrow> entries s c = None \<Longrightarrow>
       (\<exists>h s'. acquire a c s = (kEtcPalErrOk, Some h, s') \<and> ok s' \<and> entries s' = (entries s)(c \<mapsto> (h, 1))) \<or>
       (\<exists>e s'. acquire a c s = (e, None, s') \<and> e \<noteq> kEtcPalErrOk \<and> ok s' \<and> entries s' = entries s)"
    and release_entry:
      "ok s \<Longrightarrow> entries s c = Some (h, n) \<Longrightarrow>
       \<exists>s'. release h s = (kEtcPalErrOk, s') \<and> ok s' \<and>
         entries s' = (entries s)(c := if n \<le> 1 then None else Some (h, n - 1))"
begin

lemma acquire_cases:
  assumes "ok s"
  obtains (acquired) h n s' where "acquire a c s = (kEtcPalErrOk, Some h, s')" "ok s'"
      "entries s' = (entries s)(c \<mapsto> (h, n + 1))" "entries s c = (if n = 0 then None else Some (h, n))"
      "h \<noteq> kSacnRemoteSourceInvalid"
    | (failed) e s' where "acquire a c s = (e, None, s')" "e \<noteq> kEtcPalErrOk" "ok s'" "entries s' = entries s" "entries s c = None"
proof (cases "entries s c")
  case None
  from acquire_new[OF assms None, of a] show ?thesis
  proof (elim disjE exE conjE)
    fix h s' assume r: "acquire a c s = (kEtcPalErrOk, Some h, s')" "ok s'" "entries s' = (entries s)(c \<mapsto> (h, 1))"
    then have "h \<noteq> kSacnRemoteSourceInvalid" using entry_valid[of s' c h 1] by simp
    then show ?thesis using acquired[of h s' 0] r None by simp
  next
    fix e s' assume "acquire a c s = (e, None, s')" "e \<noteq> kEtcPalErrOk" "ok s'" "entries s' = entries s"
    then show ?thesis using failed None by blast
  qed
next
  case (Some p)
  obtain h n where p: "p = (h, n)" by (cases p)
  obtain s' where r: "acquire a c s = (kEtcPalErrOk, Some h, s')" "ok s'" "entries s' = (entries s)(c \<mapsto> (h, n + 1))"
    using acquire_known[OF assms Some[unfolded p], of a] by blast
  have "h \<noteq> kSacnRemoteSourceInvalid" "0 < n" using entry_valid[OF assms Some[unfolded p]] by simp_all
  then show ?thesis using acquired[of h s' n] r Some p by simp
qed

lemma acquire_release:
  assumes "ok s" "acquire a c s = (kEtcPalErrOk, Some h, s')"
  shows "\<exists>s''. release h s' = (kEtcPalErrOk, s'') \<and> ok s'' \<and> entries s'' = entries s"
proof (cases rule: acquire_cases[OF assms(1), of a c, case_names acquired failed])
  case (acquired h1 n s1)
  then have eq: "h1 = h" "s1 = s'" using assms(2) by simp_all
  have e: "entries s' c = Some (h, n + 1)" using acquired(3) eq by simp
  obtain s'' where r: "release h s' = (kEtcPalErrOk, s'')" "ok s''"
    "entries s'' = (entries s')(c := if n + 1 \<le> 1 then None else Some (h, n + 1 - 1))"
    using release_entry[OF acquired(2)[unfolded eq] e] by blast
  have "entries s'' = entries s"
    using r(3) acquired(3,4) eq by (cases n) (auto simp: fun_eq_iff)
  then show ?thesis using r(1,2) by blast
next
  case (failed e s1)
  then show ?thesis using assms(2) by simp
qed

end

section \<open>The two trees implement it\<close>

text \<open>
  The handle manager gives a number up to the maximum it was initialized with, and one that is
  not in use as long as there is one.
\<close>

definition handle_mgr_laws :: "('cid, 't, 'c, 'm) remote_ext \<Rightarrow> bool" where
  "handle_mgr_laws X \<longleftrightarrow>
     (\<forall>used mgr. 0 \<le> fst (next_remote_handle X used mgr) \<and> fst (next_remote_handle X used mgr) \<le> 0xfffe \<and>
        ((\<exists>i. 0 \<le> i \<and> i \<le> 0xfffe \<and> \<not> used i) \<longrightarrow> \<not> used (fst (next_remote_handle X used mgr))))"

definition remote_laws ::
    "('cid::linorder, 't, 'c, 'm) remote_ext \<Rightarrow> ('t \<Rightarrow> bool) \<Rightarrow> ('c \<Rightarrow> bool) \<Rightarrow> bool" where
  "remote_laws X wft wfc \<longleftrightarrow> rbtree_laws (handle_rb X) wft \<and> rbtree_laws (cid_rb X) wfc \<and> handle_mgr_laws X"

lemma remote_lawsD:
  assumes "remote_laws X wft wfc"
  shows "rbtree_laws (handle_rb X) wft" "rbtree_laws (cid_rb X) wfc"
    "0 \<le> fst (next_remote_handle X used mgr)" "fst (next_remote_handle X used mgr) \<le> 0xfffe"
  using assms by (auto simp: remote_laws_def handle_mgr_laws_def)

definition remote_cids :: "('cid, 't, 'c, 'm) remote_ext \<Rightarrow> ('cid, 't, 'c, 'm) remote_table \<Rightarrow> 'cid set" where
  "remote_cids X R = set (rb_iter (handle_rb X) (handle_tree R))"

definition remote_handles :: "('cid, 't, 'c, 'm) remote_ext \<Rightarrow> ('cid, 't, 'c, 'm) remote_table \<Rightarrow> u16 set" where
  "remote_handles X R = set (rb_iter (cid_rb X) (cid_tree R))"

definition remote_inv ::
    "('cid, 't, 'c, 'm) remote_ext \<Rightarrow> ('t \<Rightarrow> bool) \<Rightarrow> ('c \<Rightarrow> bool) \<Rightarrow> ('cid, 't, 'c, 'm) remote_table \<Rightarrow> bool" where
  "remote_inv X wft wfc R \<longleftrightarrow>
     wft (handle_tree R) \<and> wfc (cid_tree R) \<and>
     (\<forall>c \<in> remote_cids X R. handle_mem R c \<in> remote_handles X R \<and> entry_cid (cid_mem R (handle_mem R c)) = c) \<and>
     (\<forall>h \<in> remote_handles X R.
        entry_cid (cid_mem R h) \<in> remote_cids X R \<and> handle_mem R (entry_cid (cid_mem R h)) = h \<and>
        0 < refcount (cid_mem R h) \<and> h \<noteq> kSacnRemoteSourceInvalid)"

text \<open>What the table stands for.\<close>

definition remote_entries ::
    "('cid, 't, 'c, 'm) remote_ext \<Rightarrow> ('cid, 't, 'c, 'm) remote_table \<Rightarrow> 'cid \<Rightarrow> (u16 \<times> nat) option" where
  "remote_entries X R c =
     (if rb_find (handle_rb X) (handle_tree R) c
      then Some (handle_mem R c, refcount (cid_mem R (handle_mem R c))) else None)"

lemma remote_invD:
  assumes "remote_inv X wft wfc R"
  shows "wft (handle_tree R)" "wfc (cid_tree R)"
    "c \<in> remote_cids X R \<Longrightarrow> handle_mem R c \<in> remote_handles X R"
    "c \<in> remote_cids X R \<Longrightarrow> entry_cid (cid_mem R (handle_mem R c)) = c"
    "h \<in> remote_handles X R \<Longrightarrow> entry_cid (cid_mem R h) \<in> remote_cids X R"
    "h \<in> remote_handles X R \<Longrightarrow> handle_mem R (entry_cid (cid_mem R h)) = h"
    "h \<in> remote_handles X R \<Longrightarrow> 0 < refcount (cid_mem R h)"
    "h \<in> remote_handles X R \<Longrightarrow> h \<noteq> kSacnRemoteSourceInvalid"
  using assms unfolding remote_inv_def by blast+

lemma remote_finds:
  assumes "remote_laws X wft wfc" "remote_inv X wft wfc R"
  shows "rb_find (handle_rb X) (handle_tree R) c \<longleftrightarrow> c \<in> remote_cids X R"
    "rb_find (cid_rb X) (cid_tree R) h \<longleftrightarrow> h \<in> remote_handles X R"
  using rb_find_iff[OF remote_lawsD(1)[OF assms(1)] remote_invD(1)[OF assms(2)]]
    rb_find_iff[OF remote_lawsD(2)[OF assms(1)] remote_invD(2)[OF assms(2)]]
  by (simp_all add: remote_cids_def remote_handles_def)

lemma remote_entries_iff:
  assumes "remote_laws X wft wfc" "remote_inv X wft wfc R"
  shows "remote_entries X R c = Some (h, n) \<longleftrightarrow>
    h \<in> remote_handles X R \<and> entry_cid (cid_mem R h) = c \<and> refcount (cid_mem R h) = n"
  using remote_invD[OF assms(2)] by (auto simp: remote_entries_def remote_finds[OF assms])

lemma get_remote_source_handle_entries:
  "get_remote_source_handle X R c = (case remote_entries X R c of None \<Rightarrow> kSacnRemoteSourceInvalid | Some (h, n) \<Rightarrow> h)"
  by (simp add: get_remote_source_handle_def remote_entries_def)

lemma get_remote_source_cid_entries:
  assumes "remote_laws X wft wfc" "remote_inv X wft wfc R"
  shows "get_remote_source_cid X R h = Some c \<longleftrightarrow> (\<exists>n. remote_entries X R c = Some (h, n))"
  using remote_invD(8)[OF assms(2), of h]
  by (auto simp: get_remote_source_cid_def remote_entries_iff[OF assms] remote_finds[OF assms])

text \<open>The count of one handle changes.\<close>

lemma refcount_inv:
  assumes "remote_laws X wft wfc" "remote_inv X wft wfc R" "h \<in> remote_handles X R" "0 < n"
  shows "remote_inv X wft wfc (R\<lparr>cid_mem := (cid_mem R)(h := (cid_mem R h)\<lparr>refcount := n\<rparr>)\<rparr>)"
    "remote_entries X (R\<lparr>cid_mem := (cid_mem R)(h := (cid_mem R h)\<lparr>refcount := n\<rparr>)\<rparr>) =
       (remote_entries X R)(entry_cid (cid_mem R h) \<mapsto> (h, n))"
proof -
  note D = remote_invD[OF assms(2)]
  show "remote_inv X wft wfc (R\<lparr>cid_mem := (cid_mem R)(h := (cid_mem R h)\<lparr>refcount := n\<rparr>)\<rparr>)"
    using assms(2,4) unfolding remote_inv_def remote_cids_def remote_handles_def by auto
  show "remote_entries X (R\<lparr>cid_mem := (cid_mem R)(h := (cid_mem R h)\<lparr>refcount := n\<rparr>)\<rparr>) =
       (remote_entries X R)(entry_cid (cid_mem R h) \<mapsto> (h, n))"
    using D(4,5,6)[of _] assms(3) by (auto simp: fun_eq_iff remote_entries_def remote_finds[OF assms(1,2)])
qed

lemma add_known:
  assumes "remote_laws X wft wfc" "remote_inv X wft wfc R" "remote_entries X R c = Some (h, n)"
  shows "\<exists>R'. add_remote_source_handle X A c R = (kEtcPalErrOk, Some h, R') \<and> remote_inv X wft wfc R' \<and>
    remote_entries X R' = (remote_entries X R)(c \<mapsto> (h, n + 1))"
proof -
  have e: "h \<in> remote_handles X R" "entry_cid (cid_mem R h) = c" "refcount (cid_mem R h) = n"
    using assms(3) by (simp_all add: remote_entries_iff[OF assms(1,2)])
  have "c \<in> remote_cids X R" "handle_mem R c = h" using remote_invD(5,6)[OF assms(2) e(1)] e(2) by simp_all
  then have r: "add_remote_source_handle X A c R =
      (kEtcPalErrOk, Some h, R\<lparr>cid_mem := (cid_mem R)(h := (cid_mem R h)\<lparr>refcount := n + 1\<rparr>)\<rparr>)"
    using e by (simp add: add_remote_source_handle_def remote_finds[OF assms(1,2)])
  show ?thesis using r refcount_inv[OF assms(1,2) e(1), of "n + 1"] e(2) by simp
qed

lemma rb_remove_absent:
  assumes "rbtree_laws T wft" "wft t" "k \<notin> set (rb_iter T t)"
  shows "rb_remove T t k = (kEtcPalErrNotFound, t)"
  using rb_remove_laws[OF assms(1,2), of k] assms(3) by (simp add: rb_remove_laws_def)

text \<open>An entry is made in both trees.\<close>

lemma new_entry_inv:
  fixes mgr :: 'm
  fixes R :: "('cid::linorder, 't, 'c, 'm) remote_table"
  assumes "remote_laws X wft wfc" "remote_inv X wft wfc R" "c \<notin> remote_cids X R" "h \<notin> remote_handles X R"
    and "h \<noteq> kSacnRemoteSourceInvalid" "wft t" "set (rb_iter (handle_rb X) t) = insert c (remote_cids X R)"
    and "wfc k" "set (rb_iter (cid_rb X) k) = insert h (remote_handles X R)"
  defines "R' \<equiv> R\<lparr>handle_tree := t, handle_mem := (handle_mem R)(c := h), cid_tree := k,
                     cid_mem := (cid_mem R)(h := \<lparr>entry_cid = c, refcount = 1\<rparr>), remote_handle_mgr := mgr\<rparr>"
  shows "remote_inv X wft wfc R' \<and> remote_entries X R' = (remote_entries X R)(c \<mapsto> (h, 1))"
proof
  note D = remote_invD[OF assms(2)]
  have sets: "remote_cids X R' = insert c (remote_cids X R)" "remote_handles X R' = insert h (remote_handles X R)"
    using assms(7,9) by (simp_all add: remote_cids_def remote_handles_def R'_def)
  have mem: "handle_mem R' d = (if d = c then h else handle_mem R d)"
    "cid_mem R' g = (if g = h then \<lparr>entry_cid = c, refcount = 1\<rparr> else cid_mem R g)" for d g
    by (simp_all add: R'_def)
  have ne: "handle_mem R d \<noteq> h" if "d \<in> remote_cids X R" for d using D(3)[OF that] assms(4) by auto
  have ne': "entry_cid (cid_mem R g) \<noteq> c" if "g \<in> remote_handles X R" for g using D(5)[OF that] assms(3) by auto
  have wfs: "wft (handle_tree R')" "wfc (cid_tree R')" using assms(6,8) by (simp_all add: R'_def)
  show inv: "remote_inv X wft wfc R'"
    unfolding remote_inv_def sets mem using wfs D(3-8) assms(3,4,5) ne ne' by auto
  show "remote_entries X R' = (remote_entries X R)(c \<mapsto> (h, 1))"
    using assms(3) ne by (auto simp: fun_eq_iff remote_entries_def remote_finds[OF assms(1) inv] remote_finds[OF assms(1,2)] sets mem)
qed

text \<open>A failed call changes the handle manager and at most the representation of the trees.\<close>

lemma same_sets_inv:
  fixes R R' :: "('cid::linorder, 't, 'c, 'm) remote_table"
  assumes "remote_laws X wft wfc" "remote_inv X wft wfc R" "wft (handle_tree R')" "wfc (cid_tree R')"
    and "remote_cids X R' = remote_cids X R" "remote_handles X R' = remote_handles X R"
    and "handle_mem R' = handle_mem R" "cid_mem R' = cid_mem R"
  shows "remote_inv X wft wfc R' \<and> remote_entries X R' = remote_entries X R"
proof
  show inv: "remote_inv X wft wfc R'"
    unfolding remote_inv_def assms(5-8) using assms(3,4) remote_invD(3-8)[OF assms(2)] by auto
  show "remote_entries X R' = remote_entries X R"
    by (simp add: fun_eq_iff remote_entries_def remote_finds[OF assms(1) inv] remote_finds[OF assms(1,2)] assms(5-8))
qed

lemma add_new:
  assumes L: "remote_laws X wft wfc" and inv: "remote_inv X wft wfc R" and new: "remote_entries X R c = None"
  shows "(\<exists>h R'. add_remote_source_handle X A c R = (kEtcPalErrOk, Some h, R') \<and> remote_inv X wft wfc R' \<and>
            remote_entries X R' = (remote_entries X R)(c \<mapsto> (h, 1))) \<or>
    (\<exists>e R'. add_remote_source_handle X A c R = (e, None, R') \<and> e \<noteq> kEtcPalErrOk \<and> remote_inv X wft wfc R' \<and>
            remote_entries X R' = remote_entries X R)"
proof -
  note D = remote_invD[OF inv]
  note T = remote_lawsD(1)[OF L] and C = remote_lawsD(2)[OF L]
  have c: "c \<notin> remote_cids X R" using new by (simp add: remote_entries_def remote_finds[OF L inv] split: if_splits)
  then have find: "\<not> rb_find (handle_rb X) (handle_tree R) c" by (simp add: remote_finds[OF L inv])
  obtain i mgr where i: "next_remote_handle X (remote_source_handle_in_use X R) (remote_handle_mgr R) = (i, mgr)" by (rule prod.exhaust)
  define h :: u16 where "h = word_of_int i"
  have range: "0 \<le> i" "i \<le> 0xfffe" using remote_lawsD(3,4)[OF L, of "remote_source_handle_in_use X R" "remote_handle_mgr R"] i by simp_all
  then have valid: "h \<noteq> kSacnRemoteSourceInvalid"
  proof -
    have "uint h = i" using range by (simp add: h_def uint_word_of_int)
    then show ?thesis using range(2) by (auto simp: kSacnRemoteSourceInvalid_def)
  qed
  obtain e t where t: "rb_insert (handle_rb X) (handle_node_ok A) (handle_tree R) c = (e, t)" by (rule prod.exhaust)
  obtain e' k where k: "rb_insert (cid_rb X) (cid_node_ok A) (cid_tree R) h = (e', k)" by (rule prod.exhaust)
  note call = add_remote_source_handle_def Let_def find i prod.case t k h_def[symmetric]
  have removed: "set (rb_iter (handle_rb X) (snd (rb_remove (handle_rb X) t c))) = remote_cids X R"
    "wft (snd (rb_remove (handle_rb X) t c))"
  proof -
    have wft: "wft t" by (rule rb_insert_wf[OF T D(1) t])
    show "wft (snd (rb_remove (handle_rb X) t c))" using rb_remove_wf[OF T wft] by (metis surjective_pairing)
    show "set (rb_iter (handle_rb X) (snd (rb_remove (handle_rb X) t c))) = remote_cids X R"
    proof (cases "e = kEtcPalErrOk")
      case True
      then show ?thesis
        using rb_insert_Ok[OF T D(1) t[unfolded True]] rb_remove_Ok(2)[OF T wft, of c] c by (simp add: remote_cids_def)
    next
      case False
      then have "t = handle_tree R" using rb_insert_fail[OF T D(1) t] by simp
      then show ?thesis using rb_remove_absent[OF T D(1), of c] c by (simp add: remote_cids_def)
    qed
  qed
  consider (mem) "\<not> (handle_alloc_ok A \<and> cid_alloc_ok A)" | (first) "handle_alloc_ok A \<and> cid_alloc_ok A" "e \<noteq> kEtcPalErrOk"
    | (second) "handle_alloc_ok A \<and> cid_alloc_ok A" "e = kEtcPalErrOk" "e' \<noteq> kEtcPalErrOk"
    | (both) "handle_alloc_ok A \<and> cid_alloc_ok A" "e = kEtcPalErrOk" "e' = kEtcPalErrOk" by blast
  then show ?thesis
  proof cases
    case mem
    then have "add_remote_source_handle X A c R = (kEtcPalErrNoMem, None, R)" by (simp add: call)
    then show ?thesis using inv by simp
  next
    case first
    let ?R = "R\<lparr>remote_handle_mgr := mgr, handle_tree := snd (rb_remove (handle_rb X) t c)\<rparr>"
    have r: "add_remote_source_handle X A c R = (e, None, ?R)" using first by (simp add: call)
    have "remote_inv X wft wfc ?R \<and> remote_entries X ?R = remote_entries X R"
      by (rule same_sets_inv[OF L inv]) (use D(2) removed in \<open>simp_all add: remote_cids_def remote_handles_def\<close>)
    then show ?thesis using r first(2) by blast
  next
    case second
    let ?R = "R\<lparr>remote_handle_mgr := mgr, handle_tree := snd (rb_remove (handle_rb X) t c), cid_tree := k\<rparr>"
    have r: "add_remote_source_handle X A c R = (e', None, ?R)" using second by (simp add: call)
    have "k = cid_tree R" using rb_insert_fail[OF C D(2) k second(3)] .
    then have "remote_inv X wft wfc ?R \<and> remote_entries X ?R = remote_entries X R"
      by (intro same_sets_inv[OF L inv]) (use D(2) removed in \<open>simp_all add: remote_cids_def remote_handles_def\<close>)
    then show ?thesis using r second(3) by blast
  next
    case both
    let ?R = "R\<lparr>handle_tree := t, handle_mem := (handle_mem R)(c := h), cid_tree := k,
                cid_mem := (cid_mem R)(h := \<lparr>entry_cid = c, refcount = 1\<rparr>), remote_handle_mgr := mgr\<rparr>"
    have r: "add_remote_source_handle X A c R = (kEtcPalErrOk, Some h, ?R)" using both by (simp add: call)
    have ins: "c \<notin> set (rb_iter (handle_rb X) (handle_tree R)) \<and> handle_node_ok A \<and>
        set (rb_iter (handle_rb X) t) = insert c (set (rb_iter (handle_rb X) (handle_tree R)))"
      "h \<notin> set (rb_iter (cid_rb X) (cid_tree R)) \<and> cid_node_ok A \<and>
        set (rb_iter (cid_rb X) k) = insert h (set (rb_iter (cid_rb X) (cid_tree R)))"
      using rb_insert_Ok[OF T D(1) t[unfolded both(2)]] rb_insert_Ok[OF C D(2) k[unfolded both(3)]] by blast+
    have "h \<notin> remote_handles X R" using ins(2) by (simp add: remote_handles_def)
    then have "remote_inv X wft wfc ?R \<and> remote_entries X ?R = (remote_entries X R)(c \<mapsto> (h, 1))"
      by (intro new_entry_inv[OF L inv c _ valid])
         (use ins rb_insert_wf[OF T D(1) t] rb_insert_wf[OF C D(2) k] in \<open>simp_all add: remote_cids_def remote_handles_def\<close>)
    then show ?thesis using r by blast
  qed
qed

lemma release_known:
  assumes L: "remote_laws X wft wfc" and inv: "remote_inv X wft wfc R" and e: "remote_entries X R c = Some (h, n)"
  shows "\<exists>R'. remove_remote_source_handle X h R = (kEtcPalErrOk, R') \<and> remote_inv X wft wfc R' \<and>
    remote_entries X R' = (remote_entries X R)(c := if n \<le> 1 then None else Some (h, n - 1))"
proof -
  note D = remote_invD[OF inv]
  have h: "h \<in> remote_handles X R" "entry_cid (cid_mem R h) = c" "refcount (cid_mem R h) = n" "h \<noteq> kSacnRemoteSourceInvalid"
    using e D(8)[of h] by (auto simp: remote_entries_iff[OF L inv])
  have c: "c \<in> remote_cids X R" "handle_mem R c = h" using D(5,6)[OF h(1)] h(2) by simp_all
  show ?thesis
  proof (cases "n \<le> 1")
    case False
    then have "remove_remote_source_handle X h R =
        (kEtcPalErrOk, R\<lparr>cid_mem := (cid_mem R)(h := (cid_mem R h)\<lparr>refcount := n - 1\<rparr>)\<rparr>)"
      using h by (simp add: remove_remote_source_handle_def remote_finds[OF L inv])
    then show ?thesis using refcount_inv[OF L inv h(1), of "n - 1"] False h(2) by simp
  next
    case True
    obtain r1 t where t: "rb_remove (handle_rb X) (handle_tree R) c = (r1, t)" by (rule prod.exhaust)
    obtain r2 k where k: "rb_remove (cid_rb X) (cid_tree R) h = (r2, k)" by (rule prod.exhaust)
    have ok: "r1 = kEtcPalErrOk" "set (rb_iter (handle_rb X) t) = remote_cids X R - {c}" "wft t"
      "r2 = kEtcPalErrOk" "set (rb_iter (cid_rb X) k) = remote_handles X R - {h}" "wfc k"
      using rb_remove_Ok[OF remote_lawsD(1)[OF L] D(1), of c] rb_remove_Ok[OF remote_lawsD(2)[OF L] D(2), of h]
        c(1) h(1) rb_remove_wf[OF remote_lawsD(1)[OF L] D(1) t] rb_remove_wf[OF remote_lawsD(2)[OF L] D(2) k]
      by (simp_all add: t k remote_cids_def remote_handles_def)
    let ?R = "R\<lparr>handle_tree := t, cid_tree := k\<rparr>"
    have r: "remove_remote_source_handle X h R = (kEtcPalErrOk, ?R)"
      using h True ok by (simp add: remove_remote_source_handle_def remote_finds[OF L inv] t k)
    have sets: "remote_cids X ?R = remote_cids X R - {c}" "remote_handles X ?R = remote_handles X R - {h}"
      using ok by (simp_all add: remote_cids_def remote_handles_def)
    have ne: "handle_mem R d \<noteq> h" if "d \<in> remote_cids X R" "d \<noteq> c" for d using D(4)[OF that(1)] h(2) that(2) by auto
    have ne': "entry_cid (cid_mem R g) \<noteq> c" if "g \<in> remote_handles X R" "g \<noteq> h" for g using D(6)[OF that(1)] c(2) that(2) by auto
    have inv': "remote_inv X wft wfc ?R"
      unfolding remote_inv_def sets using D(3-8) ok(3,6) ne ne' by auto
    have "remote_entries X ?R = (remote_entries X R)(c := None)"
      using remote_finds(1)[OF L inv', unfolded sets] by (auto simp: fun_eq_iff remote_entries_def remote_finds[OF L inv])
    then show ?thesis using r inv' True by simp
  qed
qed

interpretation remote_sources: handle_table "remote_entries X" "\<lambda>R. remote_laws X wft wfc \<and> remote_inv X wft wfc R"
    "add_remote_source_handle X" "remove_remote_source_handle X" for X wft wfc
proof unfold_locales
  fix R c h n assume a: "remote_laws X wft wfc \<and> remote_inv X wft wfc R" "remote_entries X R c = Some (h, n)"
  show "h \<noteq> kSacnRemoteSourceInvalid \<and> 0 < n"
    using a remote_invD(7,8)[of X wft wfc R h] by (auto simp: remote_entries_iff)
  fix d m assume "remote_entries X R d = Some (h, m)"
  then show "c = d" using a by (auto simp: remote_entries_iff)
next
  fix R c h n a assume "remote_laws X wft wfc \<and> remote_inv X wft wfc R" "remote_entries X R c = Some (h, n)"
  then show "\<exists>s'. add_remote_source_handle X a c R = (kEtcPalErrOk, Some h, s') \<and>
      (remote_laws X wft wfc \<and> remote_inv X wft wfc s') \<and> remote_entries X s' = (remote_entries X R)(c \<mapsto> (h, n + 1))"
    using add_known[of X wft wfc R c h n a] by blast
next
  fix R c a assume "remote_laws X wft wfc \<and> remote_inv X wft wfc R" "remote_entries X R c = None"
  then show "(\<exists>h s'. add_remote_source_handle X a c R = (kEtcPalErrOk, Some h, s') \<and>
        (remote_laws X wft wfc \<and> remote_inv X wft wfc s') \<and> remote_entries X s' = (remote_entries X R)(c \<mapsto> (h, 1))) \<or>
      (\<exists>e s'. add_remote_source_handle X a c R = (e, None, s') \<and> e \<noteq> kEtcPalErrOk \<and>
        (remote_laws X wft wfc \<and> remote_inv X wft wfc s') \<and> remote_entries X s' = remote_entries X R)"
    using add_new[of X wft wfc R c a] by blast
next
  fix R c h n assume "remote_laws X wft wfc \<and> remote_inv X wft wfc R" "remote_entries X R c = Some (h, n)"
  then show "\<exists>s'. remove_remote_source_handle X h R = (kEtcPalErrOk, s') \<and>
      (remote_laws X wft wfc \<and> remote_inv X wft wfc s') \<and>
      remote_entries X s' = (remote_entries X R)(c := if n \<le> 1 then None else Some (h, n - 1))"
    using release_known[of X wft wfc R c h n] by blast
qed

end
