(* ===== verification/SourceLoss.thy ===== *)
theory SourceLoss
  imports RemoteSource "HOL-Library.Product_Lexorder"
begin

text \<open>
  Source loss tracking of the sACN receiver (src/sACN/src/sacn/source_loss.c and the part of
  mem/receiver/sources_lost.c it calls). When a source goes offline, a termination set is
  created that holds it and every source whose state is still unknown; the set expires as a
  whole, once its wait period is over and no source in it is unknown any more.

  \<^item> A termination set's sources are also in the module's tree \<open>term_set_sources\<close>; both trees hold
    pointers to the same structs. The trees of the model hold the keys (handle, universe), the
    structs are in \<open>ts_mem\<close>. The order of the keys is that of \<open>term_set_source_compare\<close>.
  \<^item> The linked list of a universe's termination sets is a list; unlinking the current element
    (\<open>remove_term_set_from_list\<close>) drops it from the list the loop rebuilds.
  \<^item> Allocations take their results from \<open>allocs\<close>, the sequence of results of the allocations to
    come (beyond its end they succeed).
  \<^item> EtcPal's timers and trees, and the table of remote sources, are the parameter \<open>loss_ext\<close>.
\<close>

section \<open>State\<close>

type_synonym ts_key = "u16 \<times> u16"

record termination_set_source =
  ts_name :: "u8 list"
  offline :: bool
  terminated :: bool

record ('t, 'tm) termination_set =
  wait_period :: 'tm
  ts_sources :: 't

record 't loss_state =
  term_set_sources :: 't
  ts_mem :: "ts_key \<Rightarrow> termination_set_source"
  allocs :: "bool list"

record remote_source_internal =
  remote_handle :: u16
  remote_name :: "u8 list"

record lost_source_internal =
  lost_handle :: u16
  lost_name :: "u8 list"
  lost_terminated :: bool

record 'cid lost_source =
  source_handle :: u16
  source_cid :: 'cid
  source_name :: "u8 list"
  was_terminated :: bool

record ('t, 'tm, 'cid) loss_ext =
  set_tree :: "(ts_key, 't) rbtree_ops"
  timer_start :: "u32 \<Rightarrow> 'tm"
  timer_is_expired :: "'tm \<Rightarrow> bool"
  remote_source_cid :: "u16 \<Rightarrow> 'cid option"
  dynamic_buffers :: bool
  max_lost_sources :: nat
  realloc_ok :: "nat \<Rightarrow> bool"

definition term_set_source_compare :: "ts_key \<Rightarrow> ts_key \<Rightarrow> int" where
  "term_set_source_compare lhs rhs =
     (if fst lhs > fst rhs then 1
      else if fst lhs = fst rhs \<and> snd lhs > snd rhs then 1
      else if fst lhs = fst rhs \<and> snd lhs = snd rhs then 0
      else -1)"

definition next_alloc :: "'t loss_state \<Rightarrow> bool \<times> 't loss_state" where
  "next_alloc st = (case allocs st of [] \<Rightarrow> (True, st) | b # bs \<Rightarrow> (b, st\<lparr>allocs := bs\<rparr>))"

section \<open>Sources and sets\<close>

definition find_existing_ts_src ::
    "('t, 'tm, 'cid) loss_ext \<Rightarrow> u16 \<Rightarrow> u16 \<Rightarrow> 't loss_state \<Rightarrow> bool" where
  "find_existing_ts_src E universe h st =
     (if h = kSacnRemoteSourceInvalid then False
      else rb_find (set_tree E) (term_set_sources st) (h, universe))"

definition insert_new_ts_src ::
    "('t, 'tm, 'cid) loss_ext \<Rightarrow> ts_key \<Rightarrow> termination_set_source \<Rightarrow>
     't loss_state \<Rightarrow> ('t, 'tm) termination_set \<Rightarrow>
     etcpal_error \<times> 't loss_state \<times> ('t, 'tm) termination_set" where
  "insert_new_ts_src E k src st ts =
     (case next_alloc st of (node_ok, st1) \<Rightarrow>
        (case rb_insert (set_tree E) node_ok (term_set_sources st1) k of (res, t) \<Rightarrow>
           if res = kEtcPalErrOk then
             (case next_alloc (st1\<lparr>term_set_sources := t, ts_mem := (ts_mem st1)(k := src)\<rparr>) of
                (node_ok2, st2) \<Rightarrow>
                  (case rb_insert (set_tree E) node_ok2 (ts_sources ts) k of (res2, t2) \<Rightarrow>
                     if res2 \<noteq> kEtcPalErrOk
                     then (res2,
                           st2\<lparr>term_set_sources := snd (rb_remove (set_tree E) (term_set_sources st2) k)\<rparr>,
                           ts\<lparr>ts_sources := t2\<rparr>)
                     else (res2, st2, ts\<lparr>ts_sources := t2\<rparr>)))
           else (res, st1\<lparr>term_set_sources := t\<rparr>, ts)))"

text \<open>
  \<open>etcpal_rbtree_remove_with_cb\<close> and \<open>etcpal_rbtree_clear_with_cb\<close> on a set's tree, with
  \<open>source_remove_from_ts_callback\<close>, which removes the source from the module's tree too.
\<close>

definition source_remove_from_ts_callback ::
    "('t, 'tm, 'cid) loss_ext \<Rightarrow> ts_key \<Rightarrow> 't loss_state \<Rightarrow> 't loss_state" where
  "source_remove_from_ts_callback E k st =
     st\<lparr>term_set_sources := snd (rb_remove (set_tree E) (term_set_sources st) k)\<rparr>"

definition remove_from_ts ::
    "('t, 'tm, 'cid) loss_ext \<Rightarrow> ts_key \<Rightarrow> 't loss_state \<Rightarrow> ('t, 'tm) termination_set \<Rightarrow>
     't loss_state \<times> ('t, 'tm) termination_set" where
  "remove_from_ts E k st ts =
     (case rb_remove (set_tree E) (ts_sources ts) k of (res, t) \<Rightarrow>
        (if res = kEtcPalErrOk then source_remove_from_ts_callback E k st else st,
         ts\<lparr>ts_sources := t\<rparr>))"

definition clear_ts ::
    "('t, 'tm, 'cid) loss_ext \<Rightarrow> ('t, 'tm) termination_set \<Rightarrow> 't loss_state \<Rightarrow> 't loss_state" where
  "clear_ts E ts st =
     fold (source_remove_from_ts_callback E) (rb_iter (set_tree E) (ts_sources ts)) st"

definition clear_term_set_list ::
    "('t, 'tm, 'cid) loss_ext \<Rightarrow> ('t, 'tm) termination_set list \<Rightarrow> 't loss_state \<Rightarrow> 't loss_state" where
  "clear_term_set_list E list st = fold (clear_ts E) list st"

section \<open>Sources that are online\<close>

text \<open>The walk over the list for one online source.\<close>

fun mark_source_online ::
    "('t, 'tm, 'cid) loss_ext \<Rightarrow> ts_key \<Rightarrow> 't loss_state \<Rightarrow> ('t, 'tm) termination_set list \<Rightarrow>
     't loss_state \<times> ('t, 'tm) termination_set list" where
  "mark_source_online E k st [] = (st, [])"
| "mark_source_online E k st (ts # rest) =
     (case remove_from_ts E k st ts of (st1, ts1) \<Rightarrow>
        if rb_size (set_tree E) (ts_sources ts1) = 0
        then mark_source_online E k (clear_ts E ts1 st1) rest
        else (case mark_source_online E k st1 rest of (st2, rest') \<Rightarrow> (st2, ts1 # rest')))"

definition mark_sources_online ::
    "('t, 'tm, 'cid) loss_ext \<Rightarrow> u16 \<Rightarrow> remote_source_internal list \<Rightarrow>
     't loss_state \<times> ('t, 'tm) termination_set list \<Rightarrow>
     't loss_state \<times> ('t, 'tm) termination_set list" where
  "mark_sources_online E universe online_sources =
     fold (\<lambda>src (st, list). mark_source_online E (remote_handle src, universe) st list)
       online_sources"

section \<open>Sources that went offline\<close>

text \<open>The loop that adds the unknown sources to a new set.\<close>

fun add_unknown_sources ::
    "('t, 'tm, 'cid) loss_ext \<Rightarrow> u16 \<Rightarrow> remote_source_internal list \<Rightarrow>
     't loss_state \<Rightarrow> ('t, 'tm) termination_set \<Rightarrow>
     etcpal_error \<times> 't loss_state \<times> ('t, 'tm) termination_set" where
  "add_unknown_sources E universe [] st ts = (kEtcPalErrOk, st, ts)"
| "add_unknown_sources E universe (src # srcs) st ts =
     (if \<not> find_existing_ts_src E universe (remote_handle src) st then
        (case next_alloc st of (src_ok, st1) \<Rightarrow>
           if src_ok then
             (case insert_new_ts_src E (remote_handle src, universe)
                     \<lparr>ts_name = remote_name src, offline = False, terminated = False\<rparr> st1 ts of
                (res, st2, ts2) \<Rightarrow>
                  if res \<noteq> kEtcPalErrOk then (res, st2, ts2)
                  else add_unknown_sources E universe srcs st2 ts2)
           else (kEtcPalErrNoMem, st1, ts))
      else add_unknown_sources E universe srcs st ts)"

text \<open>A new termination set for a source that is in none.\<close>

definition new_term_set ::
    "('t, 'tm, 'cid) loss_ext \<Rightarrow> u16 \<Rightarrow> u32 \<Rightarrow> remote_source_internal list \<Rightarrow>
     lost_source_internal \<Rightarrow> 't loss_state \<Rightarrow> ('t, 'tm) termination_set list \<Rightarrow>
     etcpal_error \<times> 't loss_state \<times> ('t, 'tm) termination_set list" where
  "new_term_set E universe expired_wait unknown_sources src st list =
     (case next_alloc st of (set_ok, st1) \<Rightarrow>
        if \<not> set_ok then (kEtcPalErrNoMem, st1, list)
        else (case next_alloc st1 of (src_ok, st2) \<Rightarrow>
          if \<not> src_ok then (kEtcPalErrNoMem, st2, list)
          else (case insert_new_ts_src E (lost_handle src, universe)
                       \<lparr>ts_name = lost_name src, offline = True, terminated = lost_terminated src\<rparr> st2
                       \<lparr>wait_period = timer_start E expired_wait, ts_sources = rb_init (set_tree E)\<rparr> of
                  (res, st3, ts) \<Rightarrow>
                    if res \<noteq> kEtcPalErrOk then (res, st3, list)
                    else (case add_unknown_sources E universe unknown_sources st3 ts of
                            (res2, st4, ts2) \<Rightarrow> (res2, st4, list @ [ts2])))))"

definition mark_source_offline ::
    "('t, 'tm, 'cid) loss_ext \<Rightarrow> u16 \<Rightarrow> u32 \<Rightarrow> remote_source_internal list \<Rightarrow>
     lost_source_internal \<Rightarrow>
     etcpal_error \<times> 't loss_state \<times> ('t, 'tm) termination_set list \<Rightarrow>
     etcpal_error \<times> 't loss_state \<times> ('t, 'tm) termination_set list" where
  "mark_source_offline E universe expired_wait unknown_sources src = (\<lambda>(res, st, list).
     if find_existing_ts_src E universe (lost_handle src) st then
       let k = (lost_handle src, universe); ts_src = ts_mem st k in
       (res,
        if \<not> offline ts_src
        then st\<lparr>ts_mem := (ts_mem st)(k := ts_src\<lparr>offline := True, terminated := lost_terminated src\<rparr>)\<rparr>
        else st,
        list)
     else if res = kEtcPalErrOk then new_term_set E universe expired_wait unknown_sources src st list
     else (res, st, list))"

definition mark_sources_offline ::
    "('t, 'tm, 'cid) loss_ext \<Rightarrow> u16 \<Rightarrow> lost_source_internal list \<Rightarrow>
     remote_source_internal list \<Rightarrow> u32 \<Rightarrow>
     't loss_state \<Rightarrow> ('t, 'tm) termination_set list \<Rightarrow>
     etcpal_error \<times> 't loss_state \<times> ('t, 'tm) termination_set list" where
  "mark_sources_offline E universe offline_sources unknown_sources expired_wait st list =
     fold (mark_source_offline E universe expired_wait unknown_sources) offline_sources
       (kEtcPalErrOk, st, list)"

section \<open>Expired sets\<close>

definition add_lost_source ::
    "('t, 'tm, 'cid) loss_ext \<Rightarrow> u16 \<Rightarrow> 'cid \<Rightarrow> u8 list \<Rightarrow> bool \<Rightarrow> 'cid lost_source buf \<Rightarrow>
     (bool \<times> 'cid lost_source buf) option" where
  "add_lost_source E h cid name term notification =
     (if h = kSacnRemoteSourceInvalid then Some (False, notification)
      else append_item (dynamic_buffers E) (realloc_ok E (length (items notification)))
             (max_lost_sources E)
             \<lparr>source_handle = h, source_cid = cid, source_name = name, was_terminated = term\<rparr>
             notification)"

text \<open>
  The loop over the sources of an expired set: the notification, and whether the set is to be
  removed. \<open>n\<close> is \<open>num_expired_sources_this_ts\<close>.
\<close>

fun expire_sources ::
    "('t, 'tm, 'cid) loss_ext \<Rightarrow> 't loss_state \<Rightarrow> ts_key list \<Rightarrow> nat \<Rightarrow> 'cid lost_source buf \<Rightarrow>
     (bool \<times> 'cid lost_source buf) option" where
  "expire_sources E st [] n lost = Some (True, lost)"
| "expire_sources E st (k # ks) n lost =
     (if offline (ts_mem st k) then
        (case remote_source_cid E (fst k) of
           None \<Rightarrow> expire_sources E st ks n lost
         | Some cid \<Rightarrow>
             (case add_lost_source E (fst k) cid (ts_name (ts_mem st k))
                     (terminated (ts_mem st k)) lost of
                None \<Rightarrow> None
              | Some (added, lost') \<Rightarrow>
                  expire_sources E st ks (if added then n + 1 else n) lost'))
      else Some (False, lost\<lparr>items := take (length (items lost) - n) (items lost)\<rparr>))"

fun get_expired_sources ::
    "('t, 'tm, 'cid) loss_ext \<Rightarrow> 't loss_state \<Rightarrow> ('t, 'tm) termination_set list \<Rightarrow>
     'cid lost_source buf \<Rightarrow>
     ('t loss_state \<times> ('t, 'tm) termination_set list \<times> 'cid lost_source buf) option" where
  "get_expired_sources E st [] lost = Some (st, [], lost)"
| "get_expired_sources E st (ts # rest) lost =
     (case (if timer_is_expired E (wait_period ts)
            then expire_sources E st (rb_iter (set_tree E) (ts_sources ts)) 0 lost
            else Some (False, lost)) of
        None \<Rightarrow> None
      | Some (remove_ts, lost') \<Rightarrow>
          if remove_ts then get_expired_sources E (clear_ts E ts st) rest lost'
          else (case get_expired_sources E st rest lost' of
                  None \<Rightarrow> None
                | Some (st', rest', lost'') \<Rightarrow> Some (st', ts # rest', lost'')))"

section \<open>The order of the keys\<close>

lemma term_set_source_compare_sign:
  "term_set_source_compare a b < 0 \<longleftrightarrow> a < b" "term_set_source_compare a b = 0 \<longleftrightarrow> a = b"
  by (auto simp: term_set_source_compare_def less_prod_def prod_eq_iff)

section \<open>The invariant of a universe's list\<close>

definition all_keys :: "('t, 'tm, 'cid) loss_ext \<Rightarrow> 't loss_state \<Rightarrow> ts_key set" where
  "all_keys E st = set (rb_iter (set_tree E) (term_set_sources st))"

definition ts_keys :: "('t, 'tm, 'cid) loss_ext \<Rightarrow> ('t, 'tm) termination_set \<Rightarrow> ts_key set" where
  "ts_keys E ts = set (rb_iter (set_tree E) (ts_sources ts))"

definition list_keys :: "('t, 'tm, 'cid) loss_ext \<Rightarrow> ('t, 'tm) termination_set list \<Rightarrow> ts_key set" where
  "list_keys E L = (\<Union>ts \<in> set L. ts_keys E ts)"

text \<open>The abstraction of a list: each set's timer and keys.\<close>

definition abs_list ::
    "('t, 'tm, 'cid) loss_ext \<Rightarrow> ('t, 'tm) termination_set list \<Rightarrow> ('tm \<times> ts_key set) list" where
  "abs_list E L = map (\<lambda>ts. (wait_period ts, ts_keys E ts)) L"

definition union_keys :: "('tm \<times> ts_key set) list \<Rightarrow> ts_key set" where
  "union_keys V = \<Union>(snd ` set V)"

fun disjoint_keys :: "('tm \<times> ts_key set) list \<Rightarrow> bool" where
  "disjoint_keys [] \<longleftrightarrow> True"
| "disjoint_keys ((w, K) # V) \<longleftrightarrow> K \<inter> union_keys V = {} \<and> disjoint_keys V"

definition sets_wf ::
    "('t, 'tm, 'cid) loss_ext \<Rightarrow> ('t \<Rightarrow> bool) \<Rightarrow> 't loss_state \<Rightarrow> ('t, 'tm) termination_set list \<Rightarrow> bool" where
  "sets_wf E wft st L \<longleftrightarrow> wft (term_set_sources st) \<and> (\<forall>ts \<in> set L. wft (ts_sources ts))"

text \<open>
  The list's sets are not empty and disjoint, and their sources are exactly those of the
  universe in the module's tree.
\<close>

definition list_inv ::
    "('t, 'tm, 'cid) loss_ext \<Rightarrow> ('t \<Rightarrow> bool) \<Rightarrow> u16 \<Rightarrow> 't loss_state \<Rightarrow>
     ('t, 'tm) termination_set list \<Rightarrow> bool" where
  "list_inv E wft universe st L \<longleftrightarrow>
     sets_wf E wft st L \<and> disjoint_keys (abs_list E L) \<and> (\<forall>(w, K) \<in> set (abs_list E L). K \<noteq> {}) \<and>
     list_keys E L = {k \<in> all_keys E st. snd k = universe}"

lemma list_keys_simps [simp]:
  "list_keys E [] = {}" "list_keys E (ts # L) = ts_keys E ts \<union> list_keys E L"
  "list_keys E (L @ M) = list_keys E L \<union> list_keys E M"
  by (simp_all add: list_keys_def)

lemma union_keys_simps [simp]:
  "union_keys [] = {}" "union_keys ((w, K) # V) = K \<union> union_keys V"
  "union_keys (V @ W) = union_keys V \<union> union_keys W"
  by (simp_all add: union_keys_def)

lemma abs_list_simps [simp]:
  "abs_list E [] = []" "abs_list E (ts # L) = (wait_period ts, ts_keys E ts) # abs_list E L"
  "abs_list E (L @ M) = abs_list E L @ abs_list E M"
  by (simp_all add: abs_list_def)

lemma list_keys_abs: "list_keys E L = union_keys (abs_list E L)"
  by (induction L) auto

lemma disjoint_keys_append:
  "disjoint_keys (V @ [(w, K)]) \<longleftrightarrow> disjoint_keys V \<and> union_keys V \<inter> K = {}"
  by (induction V) auto

lemma sets_wf_simps [simp]:
  "sets_wf E wft st [] = wft (term_set_sources st)"
  "sets_wf E wft st (ts # L) \<longleftrightarrow> wft (ts_sources ts) \<and> sets_wf E wft st L"
  "sets_wf E wft st (L @ M) \<longleftrightarrow> sets_wf E wft st L \<and> sets_wf E wft st M"
  by (auto simp: sets_wf_def)

lemma remove_key:
  assumes R: "rbtree_laws (set_tree E) wft" and w: "wft t"
  shows "wft (snd (rb_remove (set_tree E) t k))"
    and "set (rb_iter (set_tree E) (snd (rb_remove (set_tree E) t k))) = set (rb_iter (set_tree E) t) - {k}"
    and "fst (rb_remove (set_tree E) t k) = kEtcPalErrOk \<longleftrightarrow> k \<in> set (rb_iter (set_tree E) t)"
proof -
  note laws = rb_remove_laws[OF R w, of k, unfolded rb_remove_laws_def]
  show "wft (snd (rb_remove (set_tree E) t k))" using laws by blast
  show "set (rb_iter (set_tree E) (snd (rb_remove (set_tree E) t k))) = set (rb_iter (set_tree E) t) - {k}"
    by (cases "k \<in> set (rb_iter (set_tree E) t)") (use laws in simp_all)
  show "fst (rb_remove (set_tree E) t k) = kEtcPalErrOk \<longleftrightarrow> k \<in> set (rb_iter (set_tree E) t)"
    by (cases "k \<in> set (rb_iter (set_tree E) t)") (use laws in simp_all)
qed

lemma remove_callback_effect:
  assumes R: "rbtree_laws (set_tree E) wft" and w: "wft (term_set_sources st)"
  shows "wft (term_set_sources (source_remove_from_ts_callback E k st))"
    "all_keys E (source_remove_from_ts_callback E k st) = all_keys E st - {k}"
    "ts_mem (source_remove_from_ts_callback E k st) = ts_mem st"
    "allocs (source_remove_from_ts_callback E k st) = allocs st"
  using remove_key(1,2)[OF R w, of k]
  by (simp_all add: source_remove_from_ts_callback_def all_keys_def)

lemma remove_from_ts_effect:
  assumes R: "rbtree_laws (set_tree E) wft" and w: "wft (ts_sources ts)" "wft (term_set_sources st)"
    and r: "remove_from_ts E k st ts = (st', ts')"
  shows "wft (ts_sources ts')" "wft (term_set_sources st')" "ts_keys E ts' = ts_keys E ts - {k}"
    "all_keys E st' = all_keys E st - ({k} \<inter> ts_keys E ts)"
    "ts_mem st' = ts_mem st" "allocs st' = allocs st" "wait_period ts' = wait_period ts"
proof -
  obtain e t where e: "rb_remove (set_tree E) (ts_sources ts) k = (e, t)" by fastforce
  have t: "wft t" "set (rb_iter (set_tree E) t) = ts_keys E ts - {k}" "e = kEtcPalErrOk \<longleftrightarrow> k \<in> ts_keys E ts"
    using remove_key[OF R w(1), of k] e by (simp_all add: ts_keys_def)
  have eq: "st' = (if k \<in> ts_keys E ts then source_remove_from_ts_callback E k st else st)"
    "ts' = ts\<lparr>ts_sources := t\<rparr>"
    using r e t(3) by (auto simp: remove_from_ts_def split: if_splits)
  show "wft (ts_sources ts')" "ts_keys E ts' = ts_keys E ts - {k}" "wait_period ts' = wait_period ts"
    using eq(2) t by (simp_all add: ts_keys_def)
  show "wft (term_set_sources st')" "all_keys E st' = all_keys E st - ({k} \<inter> ts_keys E ts)"
    "ts_mem st' = ts_mem st" "allocs st' = allocs st"
    using eq(1) remove_callback_effect[OF R w(2), of k] w(2) by auto
qed

lemma fold_remove_callback:
  assumes R: "rbtree_laws (set_tree E) wft"
  shows "wft (term_set_sources st) \<Longrightarrow>
    wft (term_set_sources (fold (source_remove_from_ts_callback E) ks st)) \<and>
    all_keys E (fold (source_remove_from_ts_callback E) ks st) = all_keys E st - set ks \<and>
    ts_mem (fold (source_remove_from_ts_callback E) ks st) = ts_mem st \<and>
    allocs (fold (source_remove_from_ts_callback E) ks st) = allocs st"
proof (induction ks arbitrary: st)
  case Nil
  then show ?case by simp
next
  case (Cons k ks)
  then show ?case using remove_callback_effect[OF R Cons.prems, of k] by auto
qed

lemma clear_ts_effect:
  assumes R: "rbtree_laws (set_tree E) wft" and w: "wft (term_set_sources st)"
  shows "wft (term_set_sources (clear_ts E ts st))"
    "all_keys E (clear_ts E ts st) = all_keys E st - ts_keys E ts"
    "ts_mem (clear_ts E ts st) = ts_mem st" "allocs (clear_ts E ts st) = allocs st"
  using fold_remove_callback[OF R w, of "rb_iter (set_tree E) (ts_sources ts)"]
  by (simp_all add: clear_ts_def ts_keys_def)

section \<open>Marking sources online refines the removal of keys\<close>

definition drop_keys :: "ts_key set \<Rightarrow> ('tm \<times> ts_key set) list \<Rightarrow> ('tm \<times> ts_key set) list" where
  "drop_keys A V = filter (\<lambda>(w, K). K \<noteq> {}) (map (\<lambda>(w, K). (w, K - A)) V)"

lemma drop_keys_twice: "drop_keys A (drop_keys B V) = drop_keys (B \<union> A) V"
  by (induction V) (auto simp: drop_keys_def)

lemma drop_keys_simps [simp]:
  "drop_keys A [] = []"
  "drop_keys A ((w, K) # V) = (if K - A = {} then drop_keys A V else (w, K - A) # drop_keys A V)"
  by (simp_all add: drop_keys_def)

lemma union_drop_keys: "union_keys (drop_keys A V) = union_keys V - A"
  by (induction V rule: disjoint_keys.induct) auto

lemma disjoint_drop_keys: "disjoint_keys V \<Longrightarrow> disjoint_keys (drop_keys A V)"
  by (induction V rule: disjoint_keys.induct) (auto simp: union_drop_keys)

lemma nonempty_drop_keys: "\<forall>(w, K) \<in> set (drop_keys A V). K \<noteq> {}"
  by (auto simp: drop_keys_def)

lemma mark_source_online_refines:
  assumes R: "rbtree_laws (set_tree E) wft"
  shows "mark_source_online E k st L = (st', L') \<Longrightarrow> sets_wf E wft st L \<Longrightarrow>
    sets_wf E wft st' L' \<and> abs_list E L' = drop_keys {k} (abs_list E L) \<and>
    all_keys E st' = all_keys E st - ({k} \<inter> list_keys E L) \<and>
    ts_mem st' = ts_mem st \<and> allocs st' = allocs st"
proof (induction L arbitrary: st st' L')
  case Nil
  then show ?case by simp
next
  case (Cons ts rest)
  obtain st1 ts1 where r: "remove_from_ts E k st ts = (st1, ts1)" by fastforce
  have w: "wft (ts_sources ts)" "wft (term_set_sources st)" using Cons.prems by (auto simp: sets_wf_def)
  note e = remove_from_ts_effect[OF R w r]
  have empty: "rb_size (set_tree E) (ts_sources ts1) = 0 \<longleftrightarrow> ts_keys E ts - {k} = {}"
    using rb_size_iter[OF R e(1)] e(3)[symmetric]
    by (simp only: ts_keys_def set_empty length_0_conv)
  have rest: "sets_wf E wft st2 rest" if "wft (term_set_sources st2)" for st2
    using Cons.prems(2) that by (auto simp: sets_wf_def)
  show ?case
  proof (cases "ts_keys E ts - {k} = {}")
    case True
    note c = clear_ts_effect[OF R e(2), of ts1]
    have "mark_source_online E k (clear_ts E ts1 st1) rest = (st', L')"
      using Cons.prems(1) r empty True by simp
    from Cons.IH[OF this rest[OF c(1)]] show ?thesis using True c e by auto
  next
    case False
    obtain rest' where m: "mark_source_online E k st1 rest = (st', rest')" "L' = ts1 # rest'"
      using Cons.prems(1) r empty False by (auto split: prod.splits)
    from Cons.IH[OF m(1) rest[OF e(2)]] show ?thesis
      using False e m(2) by (auto simp: sets_wf_def)
  qed
qed

lemma mark_sources_online_refines:
  assumes R: "rbtree_laws (set_tree E) wft"
  shows "mark_sources_online E u srcs (st, L) = (st', L') \<Longrightarrow> sets_wf E wft st L \<Longrightarrow>
    sets_wf E wft st' L' \<and>
    abs_list E L' = (if srcs = [] then abs_list E L
                     else drop_keys ((\<lambda>s. (remote_handle s, u)) ` set srcs) (abs_list E L)) \<and>
    all_keys E st' = all_keys E st - (((\<lambda>s. (remote_handle s, u)) ` set srcs) \<inter> list_keys E L) \<and>
    ts_mem st' = ts_mem st \<and> allocs st' = allocs st"
proof (induction srcs arbitrary: st L)
  case Nil
  then show ?case by (simp add: mark_sources_online_def)
next
  case (Cons s srcs)
  obtain st1 L1 where m: "mark_source_online E (remote_handle s, u) st L = (st1, L1)" by fastforce
  note e = mark_source_online_refines[OF R m Cons.prems(2)]
  have "mark_sources_online E u srcs (st1, L1) = (st', L')"
    using Cons.prems(1) m by (simp add: mark_sources_online_def)
  from Cons.IH[OF this] e show ?case
    by (auto simp: drop_keys_twice list_keys_abs union_drop_keys)
qed

lemma mark_sources_online_inv:
  assumes R: "rbtree_laws (set_tree E) wft" and inv: "list_inv E wft u st L"
    and m: "mark_sources_online E u srcs (st, L) = (st', L')"
  shows "list_inv E wft u st' L'"
proof -
  have wf: "sets_wf E wft st L" using inv by (simp add: list_inv_def)
  note e = mark_sources_online_refines[OF R m wf]
  let ?O = "(\<lambda>s. (remote_handle s, u)) ` set srcs"
  have k: "list_keys E L' = list_keys E L - ?O"
    using e by (auto simp: list_keys_abs union_drop_keys)
  have "{k \<in> all_keys E st'. snd k = u} = list_keys E L - ?O"
    using inv e by (auto simp: list_inv_def)
  then show ?thesis
    using e inv k disjoint_drop_keys[of "abs_list E L" ?O] nonempty_drop_keys[of ?O "abs_list E L"]
    by (auto simp: list_inv_def split: if_splits)
qed

section \<open>Marking sources offline\<close>

lemma next_alloc_simps:
  assumes "next_alloc st = (b, st')"
  shows "term_set_sources st' = term_set_sources st" "ts_mem st' = ts_mem st"
    "all_keys E st' = all_keys E st"
  using assms by (auto simp: next_alloc_def all_keys_def split: list.splits)

text \<open>The two outcomes of inserting a source into both trees.\<close>

lemma insert_new_ts_src_cases:
  assumes R: "rbtree_laws (set_tree E) wft" and w: "wft (ts_sources ts)" "wft (term_set_sources st)"
    and sub: "ts_keys E ts \<subseteq> all_keys E st"
    and i: "insert_new_ts_src E k src st ts = (res, st', ts')"
  obtains (ok) "res = kEtcPalErrOk" "k \<notin> all_keys E st" "wft (ts_sources ts')" "wft (term_set_sources st')"
      "ts_keys E ts' = insert k (ts_keys E ts)" "all_keys E st' = insert k (all_keys E st)"
      "ts_mem st' = (ts_mem st)(k := src)" "wait_period ts' = wait_period ts"
    | (failed) "res \<noteq> kEtcPalErrOk" "ts' = ts" "wft (term_set_sources st')"
      "all_keys E st' = all_keys E st" "\<And>j. j \<in> all_keys E st \<Longrightarrow> ts_mem st' j = ts_mem st j"
proof -
  obtain ok1 st1 where a1: "next_alloc st = (ok1, st1)" by fastforce
  note s1 = next_alloc_simps(1,2)[OF a1] next_alloc_simps(3)[OF a1, of E]
  obtain e t where i1: "rb_insert (set_tree E) ok1 (term_set_sources st1) k = (e, t)" by fastforce
  have w1: "wft (term_set_sources st1)" using w s1 by simp
  show thesis
  proof (cases "e = kEtcPalErrOk")
    case False
    have "t = term_set_sources st1" using rb_insert_fail[OF R w1 i1 False] .
    then have "st' = st1" "res = e" "ts' = ts" using i a1 i1 False by (auto simp: insert_new_ts_src_def)
    then show ?thesis using failed False w1 s1 by simp
  next
    case True
    have t: "k \<notin> all_keys E st" "set (rb_iter (set_tree E) t) = insert k (all_keys E st)" "wft t"
      using rb_insert_Ok[OF R w1] rb_insert_wf[OF R w1 i1] i1 True s1 by (auto simp: all_keys_def)
    let ?st = "st1\<lparr>term_set_sources := t, ts_mem := (ts_mem st1)(k := src)\<rparr>"
    obtain ok2 st2 where a2: "next_alloc ?st = (ok2, st2)" by fastforce
    have s2: "term_set_sources st2 = t" "ts_mem st2 = (ts_mem st)(k := src)"
      using next_alloc_simps[OF a2] s1 by simp_all
    obtain e2 t2 where i2: "rb_insert (set_tree E) ok2 (ts_sources ts) k = (e2, t2)" by fastforce
    have eq: "res = e2" "ts' = ts\<lparr>ts_sources := t2\<rparr>"
      "st' = (if e2 \<noteq> kEtcPalErrOk
              then st2\<lparr>term_set_sources := snd (rb_remove (set_tree E) (term_set_sources st2) k)\<rparr> else st2)"
      using i a1 i1 a2 i2 True by (auto simp: insert_new_ts_src_def split: if_splits)
    show ?thesis
    proof (cases "e2 = kEtcPalErrOk")
      case e2: True
      have "set (rb_iter (set_tree E) t2) = insert k (ts_keys E ts)" "wft t2"
        using rb_insert_Ok[OF R w(1)] rb_insert_wf[OF R w(1) i2] i2 e2 by (auto simp: ts_keys_def)
      then show ?thesis using ok eq e2 t s2 by (simp add: ts_keys_def all_keys_def)
    next
      case e2: False
      have "t2 = ts_sources ts" using rb_insert_fail[OF R w(1) i2 e2] .
      moreover have "all_keys E st' = all_keys E st"
        using remove_key(2)[OF R t(3), of k] eq e2 s2 t by (auto simp: all_keys_def)
      moreover have "ts_mem st' j = ts_mem st j" if "j \<in> all_keys E st" for j
        using that t(1) eq e2 s2 by auto
      moreover have "wft (term_set_sources st')" using remove_key(1)[OF R t(3), of k] eq e2 s2 by simp
      ultimately show ?thesis using failed eq e2 by simp
    qed
  qed
qed

text \<open>
  \<open>grown E u st st' N\<close>: the step from \<open>st\<close> to \<open>st'\<close> added the keys \<open>N\<close>, all of universe \<open>u\<close>, and left
  the structs of the old ones alone.
\<close>

definition grown ::
    "('t, 'tm, 'cid) loss_ext \<Rightarrow> u16 \<Rightarrow> 't loss_state \<Rightarrow> 't loss_state \<Rightarrow> ts_key set \<Rightarrow> bool" where
  "grown E u st st' N \<longleftrightarrow>
     all_keys E st' = all_keys E st \<union> N \<and> N \<inter> all_keys E st = {} \<and> (\<forall>k \<in> N. snd k = u) \<and>
     (\<forall>k \<in> all_keys E st. ts_mem st' k = ts_mem st k)"

lemma grown_trans: "grown E u st st1 N \<Longrightarrow> grown E u st1 st2 M \<Longrightarrow> grown E u st st2 (N \<union> M)"
  by (auto simp: grown_def)

lemma grown_refl: "all_keys E st' = all_keys E st \<Longrightarrow> ts_mem st' = ts_mem st \<Longrightarrow> grown E u st st' {}"
  by (simp add: grown_def)

lemma find_existing_iff:
  assumes "rbtree_laws (set_tree E) wft" "wft (term_set_sources st)"
  shows "find_existing_ts_src E u h st \<longleftrightarrow> h \<noteq> kSacnRemoteSourceInvalid \<and> (h, u) \<in> all_keys E st"
  using rb_find_iff[OF assms] by (simp add: find_existing_ts_src_def all_keys_def)

lemma add_unknown_sources_effect:
  assumes R: "rbtree_laws (set_tree E) wft"
  shows "add_unknown_sources E u srcs st ts = (res, st', ts') \<Longrightarrow>
    wft (ts_sources ts) \<Longrightarrow> wft (term_set_sources st) \<Longrightarrow> ts_keys E ts \<subseteq> all_keys E st \<Longrightarrow>
    \<exists>N. wft (ts_sources ts') \<and> wft (term_set_sources st') \<and> grown E u st st' N \<and>
      ts_keys E ts' = ts_keys E ts \<union> N \<and> wait_period ts' = wait_period ts \<and>
      N \<subseteq> (\<lambda>s. (remote_handle s, u)) ` set srcs \<and> (\<forall>k \<in> N. \<not> offline (ts_mem st' k)) \<and>
      (res = kEtcPalErrOk \<longrightarrow> (\<forall>s \<in> set srcs. (remote_handle s, u) \<in> all_keys E st'))"
proof (induction srcs arbitrary: st ts)
  case Nil
  then show ?case by (auto intro!: exI[of _ "{}"] grown_refl)
next
  case (Cons s srcs)
  let ?k = "(remote_handle s, u)"
  show ?case
  proof (cases "find_existing_ts_src E u (remote_handle s) st")
    case True
    then have k: "?k \<in> all_keys E st" using find_existing_iff[OF R Cons.prems(3)] by simp
    have "add_unknown_sources E u srcs st ts = (res, st', ts')" using Cons.prems(1) True by simp
    from Cons.IH[OF this Cons.prems(2-4)] obtain N where N: "wft (ts_sources ts')" "wft (term_set_sources st')"
      "grown E u st st' N" "ts_keys E ts' = ts_keys E ts \<union> N" "wait_period ts' = wait_period ts"
      "N \<subseteq> (\<lambda>s. (remote_handle s, u)) ` set srcs" "\<forall>k \<in> N. \<not> offline (ts_mem st' k)"
      "res = kEtcPalErrOk \<longrightarrow> (\<forall>s \<in> set srcs. (remote_handle s, u) \<in> all_keys E st')"
      by blast
    then show ?thesis using k by (intro exI[of _ N]) (auto simp: grown_def)
  next
    case False
    obtain b st1 where a: "next_alloc st = (b, st1)" by fastforce
    note s1 = next_alloc_simps(1,2)[OF a] next_alloc_simps(3)[OF a, of E]
    show ?thesis
    proof (cases b)
      case nomem: False
      then have "res = kEtcPalErrNoMem" "st' = st1" "ts' = ts" using Cons.prems(1) False a by auto
      then show ?thesis using Cons.prems s1
        by (intro exI[of _ "{}"]) (auto intro!: grown_refl)
    next
      case True
      obtain e st2 ts2 where i: "insert_new_ts_src E ?k
          \<lparr>ts_name = remote_name s, offline = False, terminated = False\<rparr> st1 ts = (e, st2, ts2)"
        by (metis prod_cases3)
      have pre: "wft (term_set_sources st1)" "ts_keys E ts \<subseteq> all_keys E st1"
        using Cons.prems s1 by simp_all
      have run: "(if e \<noteq> kEtcPalErrOk then (e, st2, ts2) else add_unknown_sources E u srcs st2 ts2) =
          (res, st', ts')"
        using Cons.prems(1) False a True i by simp
      from R Cons.prems(2) pre i show ?thesis
      proof (cases rule: insert_new_ts_src_cases)
        case failed
        then show ?thesis using run Cons.prems s1
          by (intro exI[of _ "{}"]) (auto simp: grown_def)
      next
        case ok
        have g: "grown E u st st2 {?k}" using ok s1 by (auto simp: grown_def)
        have "add_unknown_sources E u srcs st2 ts2 = (res, st', ts')" using run ok by simp
        moreover have "ts_keys E ts2 \<subseteq> all_keys E st2" using ok Cons.prems(4) s1 by auto
        ultimately obtain N where N: "wft (ts_sources ts')" "wft (term_set_sources st')"
          "grown E u st2 st' N" "ts_keys E ts' = ts_keys E ts2 \<union> N" "wait_period ts' = wait_period ts2"
          "N \<subseteq> (\<lambda>s. (remote_handle s, u)) ` set srcs" "\<forall>k \<in> N. \<not> offline (ts_mem st' k)"
          "res = kEtcPalErrOk \<longrightarrow> (\<forall>s \<in> set srcs. (remote_handle s, u) \<in> all_keys E st')"
          using Cons.IH[OF _ ok(3,4)] by blast
        have "\<not> offline (ts_mem st' ?k)" using N(3) ok by (auto simp: grown_def)
        then show ?thesis
          using N ok grown_trans[OF g N(3)] by (intro exI[of _ "{?k} \<union> N"]) (auto simp: grown_def)
      qed
    qed
  qed
qed

lemma list_inv_grow:
  assumes inv: "list_inv E wft u st L" and w: "wft (term_set_sources st')" "wft (ts_sources ts)"
    and g: "grown E u st st' N" and ts: "ts_keys E ts = N" "N \<noteq> {}"
  shows "list_inv E wft u st' (L @ [ts])"
proof -
  have "list_keys E L \<subseteq> all_keys E st" using inv by (auto simp: list_inv_def)
  then have "union_keys (abs_list E L) \<inter> N = {}" using g by (auto simp: grown_def list_keys_abs)
  moreover have "list_keys E (L @ [ts]) = {k \<in> all_keys E st'. snd k = u}"
    using inv g ts by (auto simp: list_inv_def grown_def)
  ultimately show ?thesis
    using inv w ts by (auto simp: list_inv_def sets_wf_def disjoint_keys_append)
qed

lemma list_inv_same:
  assumes "list_inv E wft u st L" "wft (term_set_sources st')" "all_keys E st' = all_keys E st"
  shows "list_inv E wft u st' L"
  using assms by (auto simp: list_inv_def sets_wf_def)

lemma new_term_set_effect:
  assumes R: "rbtree_laws (set_tree E) wft" and inv: "list_inv E wft u st L"
    and n: "new_term_set E u w unknown src st L = (res, st', L')"
  shows "\<exists>N. list_inv E wft u st' L' \<and> grown E u st st' N \<and>
    (L' = L \<and> N = {} \<and> res \<noteq> kEtcPalErrOk \<or>
     (\<exists>ts. L' = L @ [ts] \<and> ts_keys E ts = N \<and> wait_period ts = timer_start E w \<and>
        (lost_handle src, u) \<in> N \<and> offline (ts_mem st' (lost_handle src, u)) \<and>
        N \<subseteq> insert (lost_handle src, u) ((\<lambda>s. (remote_handle s, u)) ` set unknown) \<and>
        (res = kEtcPalErrOk \<longrightarrow> (\<forall>s \<in> set unknown. (remote_handle s, u) \<in> all_keys E st'))))"
proof -
  let ?k = "(lost_handle src, u)"
    and ?v = "\<lparr>ts_name = lost_name src, offline = True, terminated = lost_terminated src\<rparr>"
    and ?ts = "\<lparr>wait_period = timer_start E w, ts_sources = rb_init (set_tree E)\<rparr>"
  have wf: "wft (term_set_sources st)" using inv by (auto simp: list_inv_def sets_wf_def)
  obtain b1 st1 where a1: "next_alloc st = (b1, st1)" by fastforce
  obtain b2 st2 where a2: "next_alloc st1 = (b2, st2)" by fastforce
  note s1 = next_alloc_simps(1,2)[OF a1] next_alloc_simps(3)[OF a1, of E]
    and s2 = next_alloc_simps(1,2)[OF a2] next_alloc_simps(3)[OF a2, of E]
  obtain e st3 ts where i: "insert_new_ts_src E ?k ?v st2 ?ts = (e, st3, ts)" by (metis prod_cases3)
  obtain e2 st4 ts2 where ad: "add_unknown_sources E u unknown st3 ts = (e2, st4, ts2)"
    by (metis prod_cases3)
  have fail: "\<exists>N. list_inv E wft u st' L' \<and> grown E u st st' N \<and> L' = L \<and> N = {} \<and> res \<noteq> kEtcPalErrOk"
    if "L' = L" "res \<noteq> kEtcPalErrOk" "wft (term_set_sources st')" "all_keys E st' = all_keys E st"
      "\<And>j. j \<in> all_keys E st \<Longrightarrow> ts_mem st' j = ts_mem st j"
    using that list_inv_same[OF inv that(3,4)] by (auto simp: grown_def)
  show ?thesis
  proof (cases "b1 \<and> b2")
    case False
    then have "res = kEtcPalErrNoMem" "L' = L" "st' = (if b1 then st2 else st1)"
      using n a1 a2 by (auto simp: new_term_set_def split: if_splits)
    then show ?thesis using fail s1 s2 wf by auto
  next
    case True
    have run: "(if e \<noteq> kEtcPalErrOk then (e, st3, L) else (e2, st4, L @ [ts2])) = (res, st', L')"
      using n a1 a2 True i ad by (simp add: new_term_set_def split: if_splits)
    have init: "wft (ts_sources ?ts)" "ts_keys E ?ts = {}"
      using rb_init_wf[OF R] rb_init_iter[OF R] by (simp_all add: ts_keys_def)
    have pre: "wft (term_set_sources st2)" "ts_keys E ?ts \<subseteq> all_keys E st2" using wf s1 s2 init by simp_all
    from R init(1) pre i show ?thesis
    proof (cases rule: insert_new_ts_src_cases)
      case failed
      then show ?thesis using run fail s1 s2 by auto
    next
      case ok
      have g: "grown E u st st3 {?k}" using ok s1 s2 by (auto simp: grown_def)
      have "ts_keys E ts \<subseteq> all_keys E st3" using ok init s1 s2 by auto
      from add_unknown_sources_effect[OF R ad ok(3,4) this] obtain N where
        N: "wft (ts_sources ts2)" "wft (term_set_sources st4)" "grown E u st3 st4 N"
          "ts_keys E ts2 = ts_keys E ts \<union> N" "wait_period ts2 = wait_period ts"
          "N \<subseteq> (\<lambda>s. (remote_handle s, u)) ` set unknown"
          "e2 = kEtcPalErrOk \<longrightarrow> (\<forall>s \<in> set unknown. (remote_handle s, u) \<in> all_keys E st4)"
        by blast
      have g2: "grown E u st st4 ({?k} \<union> N)" using grown_trans[OF g N(3)] .
      have k: "ts_keys E ts2 = {?k} \<union> N" using N(4) ok init by simp
      have "offline (ts_mem st4 ?k)" using N(3) ok by (auto simp: grown_def)
      moreover have "list_inv E wft u st4 (L @ [ts2])"
        using list_inv_grow[OF inv N(2,1) g2 k] by simp
      ultimately show ?thesis
        using run ok N(5,6,7) g2 k by (intro exI[of _ "{?k} \<union> N"]) auto
    qed
  qed
qed

text \<open>One offline source: the sets that exist keep their place and their keys.\<close>

definition offline_mono :: "('t, 'tm, 'cid) loss_ext \<Rightarrow> u16 \<Rightarrow> 't loss_state \<Rightarrow> 't loss_state \<Rightarrow> bool" where
  "offline_mono E u st st' \<longleftrightarrow> all_keys E st \<subseteq> all_keys E st' \<and>
     (\<forall>k \<in> all_keys E st. offline (ts_mem st k) \<longrightarrow> offline (ts_mem st' k)) \<and>
     (\<forall>k. snd k \<noteq> u \<longrightarrow> (k \<in> all_keys E st' \<longleftrightarrow> k \<in> all_keys E st) \<and>
        (k \<in> all_keys E st \<longrightarrow> ts_mem st' k = ts_mem st k))"

lemma offline_mono_trans: "offline_mono E u a b \<Longrightarrow> offline_mono E u b c \<Longrightarrow> offline_mono E u a c"
  unfolding offline_mono_def by (metis subset_iff)

lemma offline_mono_grown: "grown E u st st' N \<Longrightarrow> offline_mono E u st st'"
  by (auto simp: grown_def offline_mono_def)

lemma mark_source_offline_effect:
  assumes R: "rbtree_laws (set_tree E) wft" and inv: "list_inv E wft u st L"
    and m: "mark_source_offline E u w unknown src (res, st, L) = (res', st', L')"
  shows "list_inv E wft u st' L'" "offline_mono E u st st'" "\<exists>M. L' = L @ M"
    "res' = kEtcPalErrOk \<Longrightarrow> res = kEtcPalErrOk"
    "res' = kEtcPalErrOk \<Longrightarrow> (lost_handle src, u) \<in> all_keys E st' \<and> offline (ts_mem st' (lost_handle src, u))"
proof -
  let ?k = "(lost_handle src, u)"
  have wf: "wft (term_set_sources st)" using inv by (auto simp: list_inv_def sets_wf_def)
  have all: "list_inv E wft u st' L' \<and> offline_mono E u st st' \<and> (\<exists>M. L' = L @ M) \<and>
    (res' = kEtcPalErrOk \<longrightarrow> res = kEtcPalErrOk \<and> ?k \<in> all_keys E st' \<and> offline (ts_mem st' ?k))"
  proof (cases "find_existing_ts_src E u (lost_handle src) st")
    case True
    then have k: "?k \<in> all_keys E st" using find_existing_iff[OF R wf] by simp
    have e: "res' = res" "L' = L"
      "st' = (if \<not> offline (ts_mem st ?k)
              then st\<lparr>ts_mem := (ts_mem st)(?k := (ts_mem st ?k)
                     \<lparr>offline := True, terminated := lost_terminated src\<rparr>)\<rparr> else st)"
      using m True by (auto simp: mark_source_offline_def Let_def)
    then have "all_keys E st' = all_keys E st" "wft (term_set_sources st')"
      using wf by (auto simp: all_keys_def)
    then show ?thesis using list_inv_same[OF inv] e k by (auto simp: offline_mono_def)
  next
    case False
    show ?thesis
    proof (cases "res = kEtcPalErrOk")
      case True
      then have "new_term_set E u w unknown src st L = (res', st', L')"
        using m False by (simp add: mark_source_offline_def)
      from new_term_set_effect[OF R inv this] obtain N where N: "list_inv E wft u st' L'" "grown E u st st' N"
        "L' = L \<and> N = {} \<and> res' \<noteq> kEtcPalErrOk \<or>
         (\<exists>ts. L' = L @ [ts] \<and> ?k \<in> N \<and> offline (ts_mem st' ?k))"
        by blast
      then show ?thesis using offline_mono_grown[OF N(2)] True by (auto simp: grown_def)
    next
      case res: False
      then have "res' = res" "st' = st" "L' = L" using m False by (simp_all add: mark_source_offline_def)
      then show ?thesis using inv res by (simp add: offline_mono_def)
    qed
  qed
  then show "list_inv E wft u st' L'" "offline_mono E u st st'" "\<exists>M. L' = L @ M"
    "res' = kEtcPalErrOk \<Longrightarrow> res = kEtcPalErrOk"
    "res' = kEtcPalErrOk \<Longrightarrow> ?k \<in> all_keys E st' \<and> offline (ts_mem st' ?k)"
    by blast+
qed

lemma mark_offline_fold:
  assumes R: "rbtree_laws (set_tree E) wft"
  shows "fold (mark_source_offline E u w unknown) srcs (res, st, L) = (res', st', L') \<Longrightarrow>
    list_inv E wft u st L \<Longrightarrow>
    list_inv E wft u st' L' \<and> offline_mono E u st st' \<and> (\<exists>M. L' = L @ M) \<and>
    (res' = kEtcPalErrOk \<longrightarrow> res = kEtcPalErrOk \<and>
       (\<forall>s \<in> set srcs. (lost_handle s, u) \<in> all_keys E st' \<and> offline (ts_mem st' (lost_handle s, u))))"
proof (induction srcs arbitrary: res st L)
  case Nil
  then show ?case by (simp add: offline_mono_def)
next
  case (Cons s srcs)
  obtain res1 st1 L1 where m: "mark_source_offline E u w unknown s (res, st, L) = (res1, st1, L1)"
    by (metis prod_cases3)
  note e = mark_source_offline_effect[OF R Cons.prems(2) m]
  have f: "fold (mark_source_offline E u w unknown) srcs (res1, st1, L1) = (res', st', L')"
    using Cons.prems(1) m by simp
  have IH: "list_inv E wft u st' L' \<and> offline_mono E u st1 st' \<and> (\<exists>M. L' = L1 @ M) \<and>
    (res' = kEtcPalErrOk \<longrightarrow> res1 = kEtcPalErrOk \<and>
       (\<forall>s \<in> set srcs. (lost_handle s, u) \<in> all_keys E st' \<and> offline (ts_mem st' (lost_handle s, u))))"
    using Cons.IH[OF f e(1)] .
  have mono: "offline_mono E u st st'" using offline_mono_trans[OF e(2)] IH by blast
  have "(lost_handle s, u) \<in> all_keys E st' \<and> offline (ts_mem st' (lost_handle s, u))"
    if "res1 = kEtcPalErrOk"
    using e(5)[OF that] IH by (auto simp: offline_mono_def)
  then show ?case using IH mono e(3,4) by auto
qed

section \<open>Expiry\<close>

definition lost_entry ::
    "('t, 'tm, 'cid) loss_ext \<Rightarrow> 't loss_state \<Rightarrow> ts_key \<Rightarrow> 'cid lost_source" where
  "lost_entry E st k = \<lparr>source_handle = fst k, source_cid = the (remote_source_cid E (fst k)),
     source_name = ts_name (ts_mem st k), was_terminated = terminated (ts_mem st k)\<rparr>"

text \<open>A source that a notification can name; the others are dropped from the set silently.\<close>

definition notifiable :: "('t, 'tm, 'cid) loss_ext \<Rightarrow> ts_key \<Rightarrow> bool" where
  "notifiable E k \<longleftrightarrow> fst k \<noteq> kSacnRemoteSourceInvalid \<and> remote_source_cid E (fst k) \<noteq> None"

definition all_offline :: "'t loss_state \<Rightarrow> ts_key list \<Rightarrow> bool" where
  "all_offline st ks \<longleftrightarrow> list_all (\<lambda>k. offline (ts_mem st k)) ks"

definition lost_entries ::
    "('t, 'tm, 'cid) loss_ext \<Rightarrow> 't loss_state \<Rightarrow> ts_key list \<Rightarrow> 'cid lost_source list" where
  "lost_entries E st ks = map (lost_entry E st) (filter (notifiable E) ks)"

lemma all_offline_simps [simp]:
  "all_offline st []" "all_offline st (k # ks) \<longleftrightarrow> offline (ts_mem st k) \<and> all_offline st ks"
  by (simp_all add: all_offline_def)

lemma lost_entries_simps [simp]:
  "lost_entries E st [] = []"
  "lost_entries E st (k # ks) = (if notifiable E k then [lost_entry E st k] else []) @ lost_entries E st ks"
  by (simp_all add: lost_entries_def)

lemma length_lost_entries: "length (lost_entries E st ks) \<le> length ks"
  by (simp add: lost_entries_def)

lemma add_lost_source_added:
  assumes "buf_ok (dynamic_buffers E) (max_lost_sources E) b" "length (items b) < 2 ^ 62"
    and "h \<noteq> kSacnRemoteSourceInvalid" "\<And>n. realloc_ok E n"
    and "\<not> dynamic_buffers E \<Longrightarrow> length (items b) < max_lost_sources E"
  obtains b' where "add_lost_source E h cid name t b = Some (True, b')"
    "items b' = items b @ [\<lparr>source_handle = h, source_cid = cid, source_name = name, was_terminated = t\<rparr>]"
    "buf_ok (dynamic_buffers E) (max_lost_sources E) b'"
proof -
  from assms(1,2) show thesis
  proof (cases rule: append_item_returns[where ok = "realloc_ok E (length (items b))" and
        x = "\<lparr>source_handle = h, source_cid = cid, source_name = name, was_terminated = t\<rparr>"])
    case full
    then show ?thesis using assms(4,5) by auto
  next
    case (added b')
    then show ?thesis using assms(3) that by (simp add: add_lost_source_def)
  qed
qed

text \<open>
  The room a notification needs for \<open>m\<close> more sources.
\<close>

definition has_room :: "('t, 'tm, 'cid) loss_ext \<Rightarrow> nat \<Rightarrow> 'cid lost_source buf \<Rightarrow> bool" where
  "has_room E m b \<longleftrightarrow> buf_ok (dynamic_buffers E) (max_lost_sources E) b \<and> (\<forall>n. realloc_ok E n) \<and>
     length (items b) + m < 2 ^ 62 \<and> (\<not> dynamic_buffers E \<longrightarrow> length (items b) + m \<le> max_lost_sources E)"

lemma has_room_less: "has_room E m b \<Longrightarrow> k \<le> m \<Longrightarrow> has_room E k b"
  by (auto simp: has_room_def)

lemma has_room_grown:
  "has_room E m b \<Longrightarrow> buf_ok (dynamic_buffers E) (max_lost_sources E) b' \<Longrightarrow>
   length (items b') + k \<le> length (items b) + m \<Longrightarrow> has_room E k b'"
  by (auto simp: has_room_def)

text \<open>
  The loop over one set: all sources that can be named are reported, or, when one is still
  unknown, none of them.
\<close>

lemma expire_sources_effect:
  "has_room E (length ks) b \<Longrightarrow> n \<le> length (items b) \<Longrightarrow>
    \<exists>b'. expire_sources E st ks n b = Some (all_offline st ks, b') \<and>
      buf_ok (dynamic_buffers E) (max_lost_sources E) b' \<and>
      items b' = (if all_offline st ks then items b @ lost_entries E st ks
                  else take (length (items b) - n) (items b))"
proof (induction ks arbitrary: n b)
  case Nil
  then show ?case by (simp add: has_room_def)
next
  case (Cons k ks)
  have room: "has_room E (length ks) b" using Cons.prems(1) by (rule has_room_less) simp
  show ?case
  proof (cases "offline (ts_mem st k)")
    case False
    then show ?thesis using Cons.prems(1) by (auto simp: buf_ok_def has_room_def)
  next
    case off: True
    show ?thesis
    proof (cases "notifiable E k")
      case False
      then have "expire_sources E st (k # ks) n b = expire_sources E st ks n b"
        using off by (auto simp: notifiable_def add_lost_source_def split: option.splits)
      then show ?thesis
        unfolding \<open>expire_sources E st (k # ks) n b = expire_sources E st ks n b\<close>
        using Cons.IH[OF room Cons.prems(2)] off False by (cases "all_offline st ks") simp_all
    next
      case True
      then obtain cid where cid: "remote_source_cid E (fst k) = Some cid" "fst k \<noteq> kSacnRemoteSourceInvalid"
        by (auto simp: notifiable_def)
      obtain b1 where b1: "add_lost_source E (fst k) cid (ts_name (ts_mem st k)) (terminated (ts_mem st k)) b =
          Some (True, b1)" "items b1 = items b @ [lost_entry E st k]"
        "buf_ok (dynamic_buffers E) (max_lost_sources E) b1"
        by (rule add_lost_source_added[of E b "fst k" cid "ts_name (ts_mem st k)" "terminated (ts_mem st k)"])
           (use Cons.prems(1) cid in \<open>auto simp: lost_entry_def has_room_def\<close>)
      have "has_room E (length ks) b1"
        by (rule has_room_grown[OF Cons.prems(1) b1(3)]) (use b1(2) in simp)
      then obtain b' where b': "expire_sources E st ks (n + 1) b1 = Some (all_offline st ks, b')"
        "buf_ok (dynamic_buffers E) (max_lost_sources E) b'"
        "items b' = (if all_offline st ks then items b1 @ lost_entries E st ks
                     else take (length (items b1) - (n + 1)) (items b1))"
        using Cons.IH[of b1 "n + 1"] Cons.prems(2) b1(2) by auto
      then show ?thesis using True off cid b1 by simp
    qed
  qed
qed

text \<open>A set that is due: its wait period is over and all its sources are offline.\<close>

definition due ::
    "('t, 'tm, 'cid) loss_ext \<Rightarrow> 't loss_state \<Rightarrow> ('t, 'tm) termination_set \<Rightarrow> bool" where
  "due E st ts \<longleftrightarrow> timer_is_expired E (wait_period ts) \<and>
     all_offline st (rb_iter (set_tree E) (ts_sources ts))"

lemma due_mem: "ts_mem st' = ts_mem st \<Longrightarrow> due E st' = due E st"
  by (rule ext) (simp add: due_def all_offline_def)

lemma lost_entries_mem: "ts_mem st' = ts_mem st \<Longrightarrow> lost_entries E st' = lost_entries E st"
  by (rule ext) (simp add: lost_entries_def lost_entry_def)

definition expired_entries ::
    "('t, 'tm, 'cid) loss_ext \<Rightarrow> 't loss_state \<Rightarrow> ('t, 'tm) termination_set list \<Rightarrow> 'cid lost_source list" where
  "expired_entries E st L =
     concat (map (\<lambda>ts. lost_entries E st (rb_iter (set_tree E) (ts_sources ts))) (filter (due E st) L))"

definition list_size :: "('t, 'tm, 'cid) loss_ext \<Rightarrow> ('t, 'tm) termination_set list \<Rightarrow> nat" where
  "list_size E L = sum_list (map (\<lambda>ts. length (rb_iter (set_tree E) (ts_sources ts))) L)"

lemma get_expired_sources_effect:
  assumes R: "rbtree_laws (set_tree E) wft"
  shows "sets_wf E wft st L \<Longrightarrow> has_room E (list_size E L) b \<Longrightarrow>
    \<exists>st' b'. get_expired_sources E st L b = Some (st', filter (\<lambda>ts. \<not> due E st ts) L, b') \<and>
      sets_wf E wft st' (filter (\<lambda>ts. \<not> due E st ts) L) \<and>
      items b' = items b @ expired_entries E st L \<and>
      all_keys E st' = all_keys E st - list_keys E (filter (due E st) L) \<and>
      ts_mem st' = ts_mem st \<and> allocs st' = allocs st"
proof (induction L arbitrary: st b)
  case Nil
  then show ?case by (simp add: expired_entries_def)
next
  case (Cons ts L)
  let ?ks = "rb_iter (set_tree E) (ts_sources ts)"
  have wf: "wft (ts_sources ts)" "sets_wf E wft st L" "wft (term_set_sources st)"
    using Cons.prems(1) by (auto simp: sets_wf_def)
  have ok: "buf_ok (dynamic_buffers E) (max_lost_sources E) b" using Cons.prems(2) by (simp add: has_room_def)
  have room: "has_room E (length ?ks) b"
    using Cons.prems(2) by (rule has_room_less) (simp add: list_size_def)
  from expire_sources_effect[OF room, of 0 st] obtain b1 where
    ex: "expire_sources E st ?ks 0 b = Some (all_offline st ?ks, b1)"
      "buf_ok (dynamic_buffers E) (max_lost_sources E) b1"
      "items b1 = (if all_offline st ?ks then items b @ lost_entries E st ?ks else items b)"
    by auto
  define b2 where "b2 = (if timer_is_expired E (wait_period ts) then b1 else b)"
  have step: "(if timer_is_expired E (wait_period ts) then expire_sources E st ?ks 0 b else Some (False, b)) =
      Some (due E st ts, b2)"
    using ex(1) by (simp add: b2_def due_def)
  have items2: "items b2 = items b @ (if due E st ts then lost_entries E st ?ks else [])"
    using ex(3) by (simp add: b2_def due_def)
  have room2: "has_room E (list_size E L) b2"
    by (rule has_room_grown[OF Cons.prems(2)])
       (use ex(2) ok items2 length_lost_entries[of E st ?ks] in \<open>auto simp: b2_def list_size_def\<close>)
  show ?case
  proof (cases "due E st ts")
    case True
    note c = clear_ts_effect[OF R wf(3), of ts]
    have wf': "sets_wf E wft (clear_ts E ts st) L" using wf c by (simp add: sets_wf_def)
    note same = due_mem[OF c(3), of E] lost_entries_mem[OF c(3), of E]
    from Cons.IH[OF wf' room2] obtain st' b' where r:
      "get_expired_sources E (clear_ts E ts st) L b2 = Some (st', filter (\<lambda>ts. \<not> due E st ts) L, b')"
      "sets_wf E wft st' (filter (\<lambda>ts. \<not> due E st ts) L)"
      "items b' = items b2 @ expired_entries E st L"
      "all_keys E st' = all_keys E st - ts_keys E ts - list_keys E (filter (due E st) L)"
      "ts_mem st' = ts_mem st" "allocs st' = allocs st"
      by (auto simp: same c expired_entries_def)
    then show ?thesis using step True items2 by (auto simp: expired_entries_def)
  next
    case False
    from Cons.IH[OF wf(2) room2] obtain st' b' where r:
      "get_expired_sources E st L b2 = Some (st', filter (\<lambda>ts. \<not> due E st ts) L, b')"
      "sets_wf E wft st' (filter (\<lambda>ts. \<not> due E st ts) L)"
      "items b' = items b2 @ expired_entries E st L"
      "all_keys E st' = all_keys E st - list_keys E (filter (due E st) L)"
      "ts_mem st' = ts_mem st" "allocs st' = allocs st"
      by auto
    then show ?thesis using step False items2 wf(1) by (auto simp: expired_entries_def)
  qed
qed

lemma abs_filter_due:
  "disjoint_keys (abs_list E L) \<Longrightarrow> disjoint_keys (abs_list E (filter P L)) \<and>
   union_keys (abs_list E (filter P L)) = union_keys (abs_list E L) - union_keys (abs_list E (filter (\<lambda>t. \<not> P t) L))"
proof (induction L)
  case Nil
  then show ?case by simp
next
  case (Cons t L)
  have "union_keys (abs_list E (filter P L)) \<subseteq> union_keys (abs_list E L)"
    "union_keys (abs_list E (filter (\<lambda>t. \<not> P t) L)) \<subseteq> union_keys (abs_list E L)"
    by (auto simp: union_keys_def abs_list_def)
  then show ?case using Cons by auto
qed

text \<open>Whatever the room: exactly the due sets are removed.\<close>

lemma expire_sources_removed:
  "expire_sources E st ks n b = Some (r, b') \<Longrightarrow> r \<longleftrightarrow> all_offline st ks"
  by (induction ks arbitrary: n b) (auto split: if_splits option.splits)

lemma get_expired_sources_removed:
  assumes R: "rbtree_laws (set_tree E) wft"
  shows "sets_wf E wft st L \<Longrightarrow> get_expired_sources E st L b = Some (st', L', b') \<Longrightarrow>
    L' = filter (\<lambda>ts. \<not> due E st ts) L \<and> sets_wf E wft st' L' \<and>
    all_keys E st' = all_keys E st - list_keys E (filter (due E st) L) \<and> ts_mem st' = ts_mem st"
proof (induction L arbitrary: st b st' L' b')
  case Nil
  then show ?case by simp
next
  case (Cons ts L)
  have wf: "wft (ts_sources ts)" "sets_wf E wft st L" "wft (term_set_sources st)"
    using Cons.prems(1) by (auto simp: sets_wf_def)
  obtain r b1 where ex: "(if timer_is_expired E (wait_period ts)
      then expire_sources E st (rb_iter (set_tree E) (ts_sources ts)) 0 b else Some (False, b)) = Some (r, b1)"
    using Cons.prems(2) by (auto split: option.splits)
  then have r: "r \<longleftrightarrow> due E st ts"
    using expire_sources_removed[of E st _ 0 b r b1] by (auto simp: due_def split: if_splits)
  show ?case
  proof (cases "due E st ts")
    case True
    note c = clear_ts_effect[OF R wf(3), of ts]
    have wf': "sets_wf E wft (clear_ts E ts st) L" using wf c by (simp add: sets_wf_def)
    have "get_expired_sources E (clear_ts E ts st) L b1 = Some (st', L', b')"
      using Cons.prems(2) ex r True by simp
    from Cons.IH[OF wf' this] True c due_mem[OF c(3), of E] show ?thesis by auto
  next
    case False
    obtain L1 where "get_expired_sources E st L b1 = Some (st', L1, b')" "L' = ts # L1"
      using Cons.prems(2) ex r False by (auto split: option.splits)
    with Cons.IH[OF wf(2) this(1)] False wf(1) show ?thesis by (auto simp: sets_wf_def)
  qed
qed

lemma get_expired_sources_inv:
  assumes R: "rbtree_laws (set_tree E) wft" and inv: "list_inv E wft u st L"
    and g: "get_expired_sources E st L b = Some (st', L', b')"
  shows "list_inv E wft u st' L'"
proof -
  have wf: "sets_wf E wft st L" and d: "disjoint_keys (abs_list E L)" using inv by (simp_all add: list_inv_def)
  have e: "L' = filter (\<lambda>ts. \<not> due E st ts) L" "sets_wf E wft st' L'"
    "all_keys E st' = all_keys E st - list_keys E (filter (due E st) L)"
    using get_expired_sources_removed[OF R wf g] by auto
  have k: "disjoint_keys (abs_list E L')" "list_keys E L' = list_keys E L - list_keys E (filter (due E st) L)"
    using abs_filter_due[OF d, of "\<lambda>ts. \<not> due E st ts"] e(1) by (simp_all add: list_keys_abs)
  have "\<forall>(w, K) \<in> set (abs_list E L'). K \<noteq> {}" using inv e(1) by (auto simp: list_inv_def abs_list_def)
  then show ?thesis using e k inv by (auto simp: list_inv_def)
qed

lemma clear_term_set_list_effect:
  assumes R: "rbtree_laws (set_tree E) wft"
  shows "wft (term_set_sources st) \<Longrightarrow>
    wft (term_set_sources (clear_term_set_list E L st)) \<and>
    all_keys E (clear_term_set_list E L st) = all_keys E st - list_keys E L \<and>
    ts_mem (clear_term_set_list E L st) = ts_mem st"
proof (induction L arbitrary: st)
  case Nil
  then show ?case by (simp add: clear_term_set_list_def)
next
  case (Cons ts L)
  note c = clear_ts_effect[OF R Cons.prems, of ts]
  show ?case using Cons.IH[OF c(1)] c by (auto simp: clear_term_set_list_def)
qed

section \<open>Environments and universes\<close>

text \<open>What a list holds depends on the environment's trees only.\<close>

lemma keys_tree_cong:
  assumes "set_tree E = set_tree F"
  shows "all_keys E = all_keys F" "ts_keys E = ts_keys F" "list_keys E = list_keys F" "abs_list E = abs_list F"
    "list_inv E = list_inv F"
  by (simp_all add: fun_eq_iff all_keys_def ts_keys_def list_keys_def abs_list_def list_inv_def sets_wf_def assms)

text \<open>A call on one universe's list leaves the lists of the others right.\<close>

lemma list_inv_other:
  assumes "list_inv E wft v st M" "wft (term_set_sources st')"
    and "\<And>k. snd k = v \<Longrightarrow> k \<in> all_keys E st' \<longleftrightarrow> k \<in> all_keys E st"
  shows "list_inv E wft v st' M"
  using assms by (auto simp: list_inv_def sets_wf_def)

end
