(* ===== verification/SourceLossProps.thy ===== *)
theory SourceLossProps
  imports SourceLoss
begin

text \<open>
  What the source loss tracking promises. The calls of the module on the lists of all universes
  are an \<open>invariant_machine\<close>; each call carries the environment it runs in (the clock, the table
  of remote sources, the results of its allocations), all on the same kind of tree.
\<close>

section \<open>Calls\<close>

record ('t, 'tm) loss_tracking =
  module :: "'t loss_state"
  lists :: "u16 \<Rightarrow> ('t, 'tm) termination_set list"

datatype ('t, 'tm, 'cid) loss_call =
    Online "('t, 'tm, 'cid) loss_ext" u16 "remote_source_internal list"
  | Offline "('t, 'tm, 'cid) loss_ext" u16 "lost_source_internal list" "remote_source_internal list" u32
  | GetExpired "('t, 'tm, 'cid) loss_ext" u16 "'cid lost_source buf"
  | ClearList "('t, 'tm, 'cid) loss_ext" u16

primrec call_env :: "('t, 'tm, 'cid) loss_call \<Rightarrow> ('t, 'tm, 'cid) loss_ext" where
  "call_env (Online E u srcs) = E"
| "call_env (Offline E u off unknown w) = E"
| "call_env (GetExpired E u b) = E"
| "call_env (ClearList E u) = E"

primrec exec_loss :: "('t, 'tm, 'cid) loss_call \<Rightarrow> ('t, 'tm) loss_tracking \<Rightarrow> ('t, 'tm) loss_tracking" where
  "exec_loss (Online E u srcs) s =
     (case mark_sources_online E u srcs (module s, lists s u) of
        (st, L) \<Rightarrow> \<lparr>module = st, lists = (lists s)(u := L)\<rparr>)"
| "exec_loss (Offline E u off unknown w) s =
     (case mark_sources_offline E u off unknown w (module s) (lists s u) of
        (res, st, L) \<Rightarrow> \<lparr>module = st, lists = (lists s)(u := L)\<rparr>)"
| "exec_loss (GetExpired E u b) s =
     (case get_expired_sources E (module s) (lists s u) b of
        None \<Rightarrow> s
      | Some (st, L, b') \<Rightarrow> \<lparr>module = st, lists = (lists s)(u := L)\<rparr>)"
| "exec_loss (ClearList E u) s =
     \<lparr>module = clear_term_set_list E (lists s u) (module s), lists = (lists s)(u := [])\<rparr>"

definition start_tracking :: "(ts_key, 't) rbtree_ops \<Rightarrow> bool list \<Rightarrow> ('t, 'tm) loss_tracking" where
  "start_tracking R results =
     \<lparr>module = \<lparr>term_set_sources = rb_init R, ts_mem = (\<lambda>k. \<lparr>ts_name = [], offline = False, terminated = False\<rparr>),
        allocs = results\<rparr>,
      lists = (\<lambda>u. [])\<rparr>"

section \<open>The invariant of all lists\<close>

definition tracking_inv :: "('t, 'tm, 'cid) loss_ext \<Rightarrow> ('t \<Rightarrow> bool) \<Rightarrow> ('t, 'tm) loss_tracking \<Rightarrow> bool" where
  "tracking_inv E wft s \<longleftrightarrow> (\<forall>u. list_inv E wft u (module s) (lists s u))"

lemma tracking_inv_update:
  assumes "tracking_inv E wft s" "list_inv E wft u st L"
    and "\<And>k. snd k \<noteq> u \<Longrightarrow> k \<in> all_keys E st \<longleftrightarrow> k \<in> all_keys E (module s)"
  shows "tracking_inv E wft \<lparr>module = st, lists = (lists s)(u := L)\<rparr>"
proof -
  have "list_inv E wft v st (lists s v)" if "v \<noteq> u" for v
    by (rule list_inv_other[of E wft v "module s"])
       (use assms that in \<open>auto simp: tracking_inv_def list_inv_def sets_wf_def\<close>)
  then show ?thesis using assms(2) by (simp add: tracking_inv_def)
qed

lemma exec_loss_inv:
  assumes R: "rbtree_laws (set_tree E) wft" and c: "call_env c = E" and inv: "tracking_inv E wft s"
  shows "tracking_inv E wft (exec_loss c s)"
proof -
  have u: "list_inv E wft u (module s) (lists s u)" for u using inv by (simp add: tracking_inv_def)
  have keys: "snd k = u" if "k \<in> list_keys E (lists s u)" for k u
    using u[of u] that by (auto simp: list_inv_def)
  have wf: "sets_wf E wft (module s) (lists s u)" for u using u[of u] by (simp add: list_inv_def)
  show ?thesis
  proof (cases c)
    case (Online F u srcs)
    obtain st L where m: "mark_sources_online E u srcs (module s, lists s u) = (st, L)" by fastforce
    have "k \<in> all_keys E st \<longleftrightarrow> k \<in> all_keys E (module s)" if "snd k \<noteq> u" for k
      using mark_sources_online_refines[OF R m wf] that by auto
    from tracking_inv_update[OF inv mark_sources_online_inv[OF R u m] this] show ?thesis
      using c Online m by simp
  next
    case (Offline F u off unknown w)
    obtain res st L where m: "mark_sources_offline E u off unknown w (module s) (lists s u) = (res, st, L)"
      by (metis prod_cases3)
    have e: "list_inv E wft u st L" "offline_mono E u (module s) st"
      using mark_offline_fold[OF R m[unfolded mark_sources_offline_def] u] by auto
    have "k \<in> all_keys E st \<longleftrightarrow> k \<in> all_keys E (module s)" if "snd k \<noteq> u" for k
      using e(2) that unfolding offline_mono_def by blast
    from tracking_inv_update[OF inv e(1) this] show ?thesis using c Offline m by simp
  next
    case (GetExpired F u b)
    show ?thesis
    proof (cases "get_expired_sources E (module s) (lists s u) b")
      case None
      then show ?thesis using GetExpired c inv by simp
    next
      case (Some r)
      obtain st L b' where m: "get_expired_sources E (module s) (lists s u) b = Some (st, L, b')"
        using Some by (cases r) auto
      have sub: "list_keys E (filter (due E (module s)) (lists s u)) \<subseteq> list_keys E (lists s u)"
        by (auto simp: list_keys_def)
      have "k \<in> all_keys E st \<longleftrightarrow> k \<in> all_keys E (module s)" if "snd k \<noteq> u" for k
        using get_expired_sources_removed[OF R wf m] keys[of k u] that sub by auto
      from tracking_inv_update[OF inv get_expired_sources_inv[OF R u m] this] show ?thesis
        using c GetExpired m by simp
    qed
  next
    case (ClearList F u)
    have w: "wft (term_set_sources (module s))" using wf[of u] by (simp add: sets_wf_def)
    note e = clear_term_set_list_effect[OF R w, of "lists s u"]
    have L: "list_inv E wft u (clear_term_set_list E (lists s u) (module s)) []"
      using e u[of u] by (auto simp: list_inv_def)
    have "k \<in> all_keys E (clear_term_set_list E (lists s u) (module s)) \<longleftrightarrow> k \<in> all_keys E (module s)"
      if "snd k \<noteq> u" for k
      using e keys[of k u] that by auto
    from tracking_inv_update[OF inv L this] show ?thesis using ClearList c by simp
  qed
qed

lemma tracking_inv_cong: "set_tree E = set_tree F \<Longrightarrow> tracking_inv E wft s = tracking_inv F wft s"
  using keys_tree_cong(5)[of E F] by (simp add: tracking_inv_def)

lemma start_tracking_inv:
  assumes "rbtree_laws (set_tree E) wft"
  shows "tracking_inv E wft (start_tracking (set_tree E) a)"
  using rb_init_wf[OF assms] rb_init_iter[OF assms]
  by (simp add: tracking_inv_def start_tracking_def list_inv_def all_keys_def)

interpretation loss_calls: invariant_machine
    "exec_loss :: ('t, 'tm, 'cid) loss_call \<Rightarrow> ('t, 'tm) loss_tracking \<Rightarrow> ('t, 'tm) loss_tracking"
    "\<lambda>s. rbtree_laws (set_tree E) wft \<and> tracking_inv E wft s"
    "\<lambda>c. set_tree (call_env c) = set_tree E" for E :: "('t, 'tm, 'cid) loss_ext" and wft
proof
  fix s :: "('t, 'tm) loss_tracking" and c :: "('t, 'tm, 'cid) loss_call"
  assume s: "rbtree_laws (set_tree E) wft \<and> tracking_inv E wft s" and c: "set_tree (call_env c) = set_tree E"
  then have "tracking_inv (call_env c) wft (exec_loss c s)"
    by (intro exec_loss_inv) (auto simp: tracking_inv_cong[OF c])
  then show "rbtree_laws (set_tree E) wft \<and> tracking_inv E wft (exec_loss c s)"
    using s by (simp add: tracking_inv_cong[OF c])
qed

section \<open>When no allocation fails\<close>

lemma next_alloc_ok: "allocs st = [] \<Longrightarrow> next_alloc st = (True, st)"
  by (simp add: next_alloc_def)

lemma insert_new_ts_src_ok:
  assumes R: "rbtree_laws (set_tree E) wft" and w: "wft (ts_sources ts)" "wft (term_set_sources st)"
    and k: "k \<notin> all_keys E st" "k \<notin> ts_keys E ts" and a: "allocs st = []"
    and i: "insert_new_ts_src E k src st ts = (res, st', ts')"
  shows "res = kEtcPalErrOk \<and> allocs st' = []"
proof -
  obtain t where t: "rb_insert (set_tree E) True (term_set_sources st) k = (kEtcPalErrOk, t)"
    using rb_insert_new[OF R w(2)] k(1) by (metis all_keys_def prod.collapse)
  obtain t2 where t2: "rb_insert (set_tree E) True (ts_sources ts) k = (kEtcPalErrOk, t2)"
    using rb_insert_new[OF R w(1)] k(2) by (metis ts_keys_def prod.collapse)
  show ?thesis using i a t t2 by (auto simp: insert_new_ts_src_def next_alloc_def)
qed

lemma add_unknown_sources_ok:
  assumes R: "rbtree_laws (set_tree E) wft"
  shows "add_unknown_sources E u srcs st ts = (res, st', ts') \<Longrightarrow> wft (ts_sources ts) \<Longrightarrow>
    wft (term_set_sources st) \<Longrightarrow> ts_keys E ts \<subseteq> all_keys E st \<Longrightarrow> allocs st = [] \<Longrightarrow>
    \<forall>s \<in> set srcs. remote_handle s \<noteq> kSacnRemoteSourceInvalid \<Longrightarrow> res = kEtcPalErrOk \<and> allocs st' = []"
proof (induction srcs arbitrary: st ts)
  case Nil
  then show ?case by simp
next
  case (Cons s srcs)
  show ?case
  proof (cases "find_existing_ts_src E u (remote_handle s) st")
    case True
    then show ?thesis using Cons by simp
  next
    case False
    then have k: "(remote_handle s, u) \<notin> all_keys E st"
      using find_existing_iff[OF R Cons.prems(3)] Cons.prems(6) by simp
    obtain e st2 ts2 where i: "insert_new_ts_src E (remote_handle s, u)
        \<lparr>ts_name = remote_name s, offline = False, terminated = False\<rparr> st ts = (e, st2, ts2)"
      by (metis prod_cases3)
    have ok: "e = kEtcPalErrOk" "allocs st2 = []"
      using insert_new_ts_src_ok[OF R Cons.prems(2,3) k _ Cons.prems(5) i] Cons.prems(4) k by auto
    then have run: "add_unknown_sources E u srcs st2 ts2 = (res, st', ts')"
      using Cons.prems(1) False i next_alloc_ok[OF Cons.prems(5)] by simp
    from R Cons.prems(2,3,4) i show ?thesis
    proof (cases rule: insert_new_ts_src_cases)
      case ok': ok
      have "ts_keys E ts2 \<subseteq> all_keys E st2" using ok' Cons.prems(4) by auto
      then show ?thesis using Cons.IH[OF run ok'(3,4) _ ok(2)] Cons.prems(6) by simp
    qed (use ok in simp)
  qed
qed

lemma new_term_set_ok:
  assumes R: "rbtree_laws (set_tree E) wft" and w: "wft (term_set_sources st)"
    and k: "(lost_handle src, u) \<notin> all_keys E st" and a: "allocs st = []"
    and u: "\<forall>s \<in> set unknown. remote_handle s \<noteq> kSacnRemoteSourceInvalid"
    and n: "new_term_set E u t unknown src st L = (res, st', L')"
  shows "res = kEtcPalErrOk \<and> allocs st' = []"
proof -
  let ?ts = "\<lparr>wait_period = timer_start E t, ts_sources = rb_init (set_tree E)\<rparr>"
  have init: "wft (ts_sources ?ts)" "ts_keys E ?ts = {}"
    using rb_init_wf[OF R] rb_init_iter[OF R] by (simp_all add: ts_keys_def)
  obtain e st3 ts where i: "insert_new_ts_src E (lost_handle src, u)
      \<lparr>ts_name = lost_name src, offline = True, terminated = lost_terminated src\<rparr> st ?ts = (e, st3, ts)"
    by (metis prod_cases3)
  have e: "e = kEtcPalErrOk" "allocs st3 = []"
    using insert_new_ts_src_ok[OF R init(1) w k _ a i] init(2) by auto
  obtain e2 st4 ts2 where ad: "add_unknown_sources E u unknown st3 ts = (e2, st4, ts2)" by (metis prod_cases3)
  have sub: "ts_keys E ?ts \<subseteq> all_keys E st" using init(2) by simp
  from R init(1) w sub i show ?thesis
  proof (cases rule: insert_new_ts_src_cases)
    case ok
    have "ts_keys E ts \<subseteq> all_keys E st3" using ok init(2) by auto
    then show ?thesis
      using add_unknown_sources_ok[OF R ad ok(3,4) _ e(2) u] n i e ad next_alloc_ok[OF a]
      by (simp add: new_term_set_def)
  qed (use e in simp)
qed

lemma mark_offline_fold_ok:
  assumes R: "rbtree_laws (set_tree E) wft" and u: "\<forall>s \<in> set unknown. remote_handle s \<noteq> kSacnRemoteSourceInvalid"
  shows "fold (mark_source_offline E u w unknown) srcs (kEtcPalErrOk, st, L) = (res', st', L') \<Longrightarrow>
    list_inv E wft u st L \<Longrightarrow> allocs st = [] \<Longrightarrow>
    \<forall>s \<in> set srcs. lost_handle s \<noteq> kSacnRemoteSourceInvalid \<Longrightarrow> res' = kEtcPalErrOk"
proof (induction srcs arbitrary: st L)
  case Nil
  then show ?case by simp
next
  case (Cons s srcs)
  obtain res1 st1 L1 where m: "mark_source_offline E u w unknown s (kEtcPalErrOk, st, L) = (res1, st1, L1)"
    by (metis prod_cases3)
  have wf: "wft (term_set_sources st)" using Cons.prems(2) by (auto simp: list_inv_def sets_wf_def)
  have "res1 = kEtcPalErrOk \<and> allocs st1 = []"
  proof (cases "find_existing_ts_src E u (lost_handle s) st")
    case True
    then show ?thesis using m Cons.prems(3) by (auto simp: mark_source_offline_def Let_def split: if_splits)
  next
    case False
    then have "(lost_handle s, u) \<notin> all_keys E st"
      using find_existing_iff[OF R wf] Cons.prems(4) by simp
    from new_term_set_ok[OF R wf this Cons.prems(3) u] show ?thesis
      using m False by (simp add: mark_source_offline_def)
  qed
  then show ?case
    using Cons.IH[of st1 L1] mark_source_offline_effect(1)[OF R Cons.prems(2) m] Cons.prems(1,4) m by simp
qed

lemma disjoint_keys_nth:
  "disjoint_keys V \<Longrightarrow> i < j \<Longrightarrow> j < length V \<Longrightarrow> snd (V ! i) \<inter> snd (V ! j) = {}"
proof (induction V arbitrary: i j rule: disjoint_keys.induct)
  case (2 w K V)
  show ?case
  proof (cases i)
    case 0
    have "V ! (j - 1) \<in> set V" using 2(3,4) by (intro nth_mem) auto
    then show ?thesis using 2(2,3) 0 by (auto simp: union_keys_def nth_Cons')
  next
    case (Suc i')
    then show ?thesis using 2(1)[of i' "j - 1"] 2(2-4) by (auto simp: nth_Cons')
  qed
qed simp

lemma list_inv_disjoint:
  assumes "list_inv E wft u st L" "i < length L" "j < length L" "i \<noteq> j"
  shows "ts_keys E (L ! i) \<inter> ts_keys E (L ! j) = {}"
proof -
  have d: "disjoint_keys (abs_list E L)" using assms(1) by (simp add: list_inv_def)
  have "i < j \<or> j < i" using assms(4) by auto
  then show ?thesis
    using disjoint_keys_nth[OF d, of i j] disjoint_keys_nth[OF d, of j i] assms(2,3)
    by (auto simp: abs_list_def)
qed

section \<open>An example\<close>

definition demo_ext :: "(ts_key list, nat, nat) loss_ext" where
  "demo_ext = \<lparr>set_tree = list_rbtree, timer_start = unat, timer_is_expired = (\<lambda>t. t \<le> 100),
     remote_source_cid = (\<lambda>h. Some (unat h)), dynamic_buffers = False, max_lost_sources = 4,
     realloc_ok = (\<lambda>n. True)\<rparr>"

definition demo_calls :: "(ts_key list, nat, nat) loss_call list" where
  "demo_calls =
     [Offline demo_ext 1 [\<lparr>lost_handle = 7, lost_name = [100, 101], lost_terminated = False\<rparr>]
        [\<lparr>remote_handle = 8, remote_name = [110, 111]\<rparr>] 50]"

abbreviation demo_state :: "(ts_key list, nat) loss_tracking" where
  "demo_state \<equiv> fold exec_loss demo_calls (start_tracking list_rbtree [])"

lemma demo_laws: "rbtree_laws (set_tree demo_ext) (\<lambda>t. sorted t \<and> distinct t)"
  using list_rbtree_laws by (simp add: demo_ext_def)

lemma demo_inv: "tracking_inv demo_ext (\<lambda>t. sorted t \<and> distinct t) demo_state"
  using loss_calls.run_inv[of demo_ext "\<lambda>t. sorted t \<and> distinct t" "start_tracking list_rbtree []" demo_calls]
    demo_laws start_tracking_inv[OF demo_laws, of "[]"]
  by (simp add: demo_calls_def demo_ext_def)

lemma demo_lists:
  "lists demo_state 1 = [\<lparr>wait_period = 50, ts_sources = [(7, 1), (8, 1)]\<rparr>]"
  "term_set_sources (module demo_state) = [(7, 1), (8, 1)]"
  "ts_mem (module demo_state) (7, 1) = \<lparr>ts_name = [100, 101], offline = True, terminated = False\<rparr>"
  "ts_mem (module demo_state) (8, 1) = \<lparr>ts_name = [110, 111], offline = False, terminated = False\<rparr>"
  "allocs (module demo_state) = []"
  by (simp_all add: demo_calls_def demo_ext_def start_tracking_def mark_sources_offline_def
      mark_source_offline_def new_term_set_def insert_new_ts_src_def next_alloc_def find_existing_ts_src_def
      kSacnRemoteSourceInvalid_def list_rbtree_def)

lemma demo_list_inv: "list_inv demo_ext (\<lambda>t. sorted t \<and> distinct t) 1 (module demo_state) (lists demo_state 1)"
  using demo_inv by (simp add: tracking_inv_def)

section \<open>Properties\<close>

text \<open>
  C22: After any sequence of calls (sources marked online and offline, expired sets taken, a list
  cleared), with allocations failing at will, the termination sets of every universe are not
  empty and share no source, and together they hold exactly the universe's sources in the
  module's own tree: a source is waited for in one set only, and no source is left behind in the
  module's tree when its set is freed.
\<close>

theorem loss_sets_partition:
  fixes E :: "('t, 'tm, 'cid) loss_ext" and cs :: "('t, 'tm, 'cid) loss_call list"
  assumes "rbtree_laws (set_tree E) wft" "list_all (\<lambda>c. set_tree (call_env c) = set_tree E) cs"
  shows "let s = fold exec_loss cs (start_tracking (set_tree E) results); L = lists s u in
    (\<forall>i < length L. ts_keys E (L ! i) \<noteq> {}) \<and>
    (\<forall>i < length L. \<forall>j < length L. i \<noteq> j \<longrightarrow> ts_keys E (L ! i) \<inter> ts_keys E (L ! j) = {}) \<and>
    (\<Union>ts \<in> set L. ts_keys E ts) = {k \<in> all_keys E (module s). snd k = u}"
proof -
  define s where "s = fold exec_loss cs (start_tracking (set_tree E) results)"
  have "tracking_inv E wft s"
    using loss_calls.run_inv[of E wft "start_tracking (set_tree E) results" cs] assms
      start_tracking_inv[OF assms(1), of results]
    by (simp add: s_def)
  then have L: "list_inv E wft u (module s) (lists s u)" by (simp add: tracking_inv_def)
  then have "\<forall>ts \<in> set (lists s u). ts_keys E ts \<noteq> {}" by (auto simp: list_inv_def abs_list_def)
  then show ?thesis
    using list_inv_disjoint[OF L] L
    by (simp add: s_def[symmetric] Let_def list_inv_def list_keys_def)
qed

theorem loss_sets_partition_witness:
  "(\<Union>ts \<in> set (lists demo_state 1). ts_keys demo_ext ts) = {k \<in> all_keys demo_ext (module demo_state). snd k = 1} \<and>
   length (lists demo_state 1) = 1"
  using loss_sets_partition[of demo_ext "\<lambda>t. sorted t \<and> distinct t" demo_calls "[]" 1] demo_laws demo_lists(1)
  by (simp add: Let_def demo_calls_def) (simp add: demo_ext_def)

text \<open>
  Marking sources online refines the removal of their keys: in every set exactly the online
  sources are dropped, a set left empty is freed, the order and the wait periods of the others
  stay, and the invariant of the list is kept.
\<close>

theorem mark_online_drops:
  assumes "rbtree_laws (set_tree E) wft" "list_inv E wft u st L"
    and "mark_sources_online E u srcs (st, L) = (st', L')"
  shows "abs_list E L' = drop_keys ((\<lambda>s. (remote_handle s, u)) ` set srcs) (abs_list E L) \<and>
    all_keys E st' = all_keys E st - (\<lambda>s. (remote_handle s, u)) ` set srcs \<and>
    ts_mem st' = ts_mem st \<and> list_inv E wft u st' L'"
proof -
  let ?O = "(\<lambda>s. (remote_handle s, u)) ` set srcs"
  have wf: "sets_wf E wft st L" using assms(2) by (simp add: list_inv_def)
  note e = mark_sources_online_refines[OF assms(1,3) wf]
  have "drop_keys {} V = V" if "\<forall>(w, K) \<in> set V. K \<noteq> {}" for V :: "('b \<times> ts_key set) list"
    using that by (induction V) (auto split: if_splits)
  then have "abs_list E L' = drop_keys ?O (abs_list E L)"
    using e assms(2) by (auto simp: list_inv_def)
  moreover have "?O \<inter> list_keys E L = ?O \<inter> all_keys E st" using assms(2) by (auto simp: list_inv_def)
  ultimately show ?thesis using e mark_sources_online_inv[OF assms] by auto
qed

theorem mark_online_drops_witness:
  "\<exists>st' L'. mark_sources_online demo_ext 1 [\<lparr>remote_handle = 8, remote_name = [110, 111]\<rparr>]
       (module demo_state, lists demo_state 1) = (st', L') \<and>
     abs_list demo_ext L' = [(50, {(7, 1)})] \<and> list_inv demo_ext (\<lambda>t. sorted t \<and> distinct t) 1 st' L'"
proof -
  obtain st' L' where m: "mark_sources_online demo_ext 1 [\<lparr>remote_handle = 8, remote_name = [110, 111]\<rparr>]
       (module demo_state, lists demo_state 1) = (st', L')"
    by fastforce
  have a: "abs_list demo_ext (lists demo_state 1) = [(50, {(7, 1), (8, 1)})]"
    unfolding demo_lists by (simp add: ts_keys_def demo_ext_def list_rbtree_def)
  have d: "drop_keys ((\<lambda>s. (remote_handle s, 1)) ` set [\<lparr>remote_handle = 8, remote_name = [110, 111]\<rparr>])
      [(50, {(7, 1), (8, 1)})] = [(50::nat, {(7::u16, 1::u16)})]"
    by auto
  note t = mark_online_drops[OF demo_laws demo_list_inv m, unfolded a d]
  show ?thesis by (intro exI[of _ st'] exI[of _ L'] conjI) (use m t in simp_all)
qed

text \<open>
  C23: Marking sources offline: the list keeps the sets it had and their order, sources already
  offline stay offline, and the invariant holds even when an allocation failed on the way. When
  the call reports success, every offline source is in a set and marked offline. It reports
  success whenever no allocation fails and the handles are valid.
\<close>

theorem mark_offline_tracks:
  assumes "rbtree_laws (set_tree E) wft" "list_inv E wft u st L"
    and "mark_sources_offline E u off unknown w st L = (res, st', L')"
  shows "list_inv E wft u st' L' \<and> (\<exists>M. L' = L @ M) \<and>
    (\<forall>k \<in> all_keys E st. offline (ts_mem st k) \<longrightarrow> k \<in> all_keys E st' \<and> offline (ts_mem st' k)) \<and>
    (res = kEtcPalErrOk \<longrightarrow>
      (\<forall>s \<in> set off. \<exists>ts \<in> set L'. (lost_handle s, u) \<in> ts_keys E ts \<and> offline (ts_mem st' (lost_handle s, u)))) \<and>
    (allocs st = [] \<and> (\<forall>s \<in> set unknown. remote_handle s \<noteq> kSacnRemoteSourceInvalid) \<and>
       (\<forall>s \<in> set off. lost_handle s \<noteq> kSacnRemoteSourceInvalid) \<longrightarrow> res = kEtcPalErrOk)"
proof -
  note m = assms(3)[unfolded mark_sources_offline_def]
  note e = mark_offline_fold[OF assms(1) m assms(2)]
  have keys: "list_keys E L' = {k \<in> all_keys E st'. snd k = u}" using e by (simp add: list_inv_def)
  have in_set: "\<exists>ts \<in> set L'. (h, u) \<in> ts_keys E ts" if "(h, u) \<in> all_keys E st'" for h
  proof -
    have "(h, u) \<in> list_keys E L'" unfolding keys using that by simp
    then show ?thesis by (simp add: list_keys_def)
  qed
  show ?thesis
  proof (intro conjI ballI impI)
    show "list_inv E wft u st' L'" "\<exists>M. L' = L @ M" using e by blast+
    fix k assume "k \<in> all_keys E st" "offline (ts_mem st k)"
    then show "k \<in> all_keys E st'" "offline (ts_mem st' k)"
      using e unfolding offline_mono_def by blast+
  next
    fix s assume "res = kEtcPalErrOk" "s \<in> set off"
    then have "(lost_handle s, u) \<in> all_keys E st'" "offline (ts_mem st' (lost_handle s, u))"
      using e by blast+
    then show "\<exists>ts \<in> set L'. (lost_handle s, u) \<in> ts_keys E ts \<and> offline (ts_mem st' (lost_handle s, u))"
      using in_set by blast
  next
    assume "allocs st = [] \<and> (\<forall>s \<in> set unknown. remote_handle s \<noteq> kSacnRemoteSourceInvalid) \<and>
       (\<forall>s \<in> set off. lost_handle s \<noteq> kSacnRemoteSourceInvalid)"
    then show "res = kEtcPalErrOk"
      using mark_offline_fold_ok[OF assms(1) _ m assms(2)] by simp
  qed
qed

theorem mark_offline_tracks_witness:
  "\<exists>st' L'. mark_sources_offline demo_ext 1 [\<lparr>lost_handle = 8, lost_name = [110, 111], lost_terminated = True\<rparr>] [] 50
       (module demo_state) (lists demo_state 1) = (kEtcPalErrOk, st', L') \<and>
     (\<exists>ts \<in> set L'. (8, 1) \<in> ts_keys demo_ext ts) \<and> offline (ts_mem st' (8, 1))"
proof -
  obtain res st' L' where m: "mark_sources_offline demo_ext 1
      [\<lparr>lost_handle = 8, lost_name = [110, 111], lost_terminated = True\<rparr>] [] 50
      (module demo_state) (lists demo_state 1) = (res, st', L')"
    by (metis prod_cases3)
  note t = mark_offline_tracks[OF demo_laws demo_list_inv m]
  from t have "allocs (module demo_state) = [] \<Longrightarrow> res = kEtcPalErrOk"
    by (simp add: kSacnRemoteSourceInvalid_def del: fold_simps)
  then have res: "res = kEtcPalErrOk" using demo_lists(5) .
  from t res have "\<exists>ts \<in> set L'. (8, 1) \<in> ts_keys demo_ext ts \<and> offline (ts_mem st' (8, 1))"
    by (simp del: fold_simps)
  then show ?thesis
    by (intro exI[of _ st'] exI[of _ L'] conjI) (use m res in auto)
qed

text \<open>
  C24: Taking the expired sets, when the notification has room and \<open>realloc\<close> works: the call
  returns, exactly the sets whose wait period is over and whose sources are all offline are
  removed, in list order their sources that can be named are appended to the notification (a
  set with a source still unknown reports nothing), and their sources leave the module's tree.
\<close>

theorem expired_sets_reported:
  assumes "rbtree_laws (set_tree E) wft" "list_inv E wft u st L" "has_room E (list_size E L) b"
  shows "\<exists>st' b'. get_expired_sources E st L b = Some (st', filter (\<lambda>ts. \<not> due E st ts) L, b') \<and>
    items b' = items b @ expired_entries E st L \<and>
    all_keys E st' = all_keys E st - list_keys E (filter (due E st) L) \<and>
    list_inv E wft u st' (filter (\<lambda>ts. \<not> due E st ts) L)"
proof -
  have "sets_wf E wft st L" using assms(2) by (simp add: list_inv_def)
  from get_expired_sources_effect[OF assms(1) this assms(3)] obtain st' b' where
    g: "get_expired_sources E st L b = Some (st', filter (\<lambda>ts. \<not> due E st ts) L, b')"
      "items b' = items b @ expired_entries E st L"
      "all_keys E st' = all_keys E st - list_keys E (filter (due E st) L)"
    by blast
  then show ?thesis using get_expired_sources_inv[OF assms(1,2) g(1)] by blast
qed

definition demo_expired :: "(ts_key list, nat) loss_tracking" where
  "demo_expired = exec_loss (Online demo_ext 1 [\<lparr>remote_handle = 8, remote_name = [110, 111]\<rparr>]) demo_state"

lemma demo_expired_lists:
  "lists demo_expired 1 = [\<lparr>wait_period = 50, ts_sources = [(7, 1)]\<rparr>]"
  "ts_mem (module demo_expired) (7, 1) = \<lparr>ts_name = [100, 101], offline = True, terminated = False\<rparr>"
proof -
  let ?srcs = "[\<lparr>remote_handle = 8, remote_name = [110, 111]\<rparr>]"
  obtain st' L' where m: "mark_sources_online demo_ext 1 ?srcs (module demo_state, lists demo_state 1) = (st', L')"
    by fastforce
  have wf: "sets_wf demo_ext (\<lambda>t. sorted t \<and> distinct t) (module demo_state) (lists demo_state 1)"
    using demo_list_inv by (simp add: list_inv_def)
  show "ts_mem (module demo_expired) (7, 1) = \<lparr>ts_name = [100, 101], offline = True, terminated = False\<rparr>"
    using mark_sources_online_refines[OF demo_laws m wf] m demo_lists(3) by (simp add: demo_expired_def)
  have "remove_from_ts demo_ext (8, 1) st \<lparr>wait_period = 50, ts_sources = [(7, 1), (8, 1)]\<rparr> =
      (source_remove_from_ts_callback demo_ext (8, 1) st, \<lparr>wait_period = 50, ts_sources = [(7, 1)]\<rparr>)" for st
    by (simp add: remove_from_ts_def) (simp add: demo_ext_def list_rbtree_def)
  then show "lists demo_expired 1 = [\<lparr>wait_period = 50, ts_sources = [(7, 1)]\<rparr>]"
    unfolding demo_expired_def exec_loss.simps demo_lists mark_sources_online_def
    by simp (simp add: demo_ext_def list_rbtree_def)
qed

theorem expired_sets_reported_witness:
  "\<exists>st' b'. get_expired_sources demo_ext (module demo_expired) (lists demo_expired 1)
       \<lparr>items = [], capacity = 0\<rparr> = Some (st', [], b') \<and>
     items b' = [\<lparr>source_handle = 7, source_cid = 7, source_name = [100, 101], was_terminated = False\<rparr>]"
proof -
  have inv: "list_inv demo_ext (\<lambda>t. sorted t \<and> distinct t) 1 (module demo_expired) (lists demo_expired 1)"
    using exec_loss_inv[OF demo_laws _ demo_inv, of "Online demo_ext 1 [\<lparr>remote_handle = 8, remote_name = [110, 111]\<rparr>]"]
    unfolding demo_expired_def tracking_inv_def by (simp del: exec_loss.simps)
  have room: "has_room demo_ext (list_size demo_ext (lists demo_expired 1)) \<lparr>items = [], capacity = 0\<rparr>"
    by (simp add: has_room_def list_size_def demo_expired_lists buf_ok_def demo_ext_def list_rbtree_def)
  have due: "due demo_ext (module demo_expired) \<lparr>wait_period = 50, ts_sources = [(7, 1)]\<rparr>"
    by (simp add: due_def demo_expired_lists demo_ext_def list_rbtree_def)
  have entries: "lost_entries demo_ext (module demo_expired) [(7, 1)] =
    [\<lparr>source_handle = 7, source_cid = 7, source_name = [100, 101], was_terminated = False\<rparr>]"
    by (simp add: lost_entry_def notifiable_def demo_expired_lists demo_ext_def kSacnRemoteSourceInvalid_def)
  have iter: "rb_iter (set_tree demo_ext) [(7, 1)] = [(7, 1)]" by (simp add: demo_ext_def list_rbtree_def)
  have e: "expired_entries demo_ext (module demo_expired) (lists demo_expired 1) =
      [\<lparr>source_handle = 7, source_cid = 7, source_name = [100, 101], was_terminated = False\<rparr>]"
    unfolding demo_expired_lists expired_entries_def using due entries iter by (simp del: lost_entries_simps)
  have f: "filter (\<lambda>ts. \<not> due demo_ext (module demo_expired) ts) (lists demo_expired 1) = []"
    unfolding demo_expired_lists using due by simp
  note t = expired_sets_reported[OF demo_laws inv room, unfolded e f]
  then show ?thesis by auto
qed

end
