(* ===== verification/DmxUniverse.thy ===== *)
theory DmxUniverse
  imports Complex_Main Prelude
begin

text \<open>
  The per-universe data of the DMX plugin (class \<open>DMX\<close> in src/DMX.cpp): 513 bytes of DMX data
  (start code and 512 channels), a fade for each of them and the number of active fades.
  \<^item> \<open>std::map<int, UniverseData>\<close> is a list of keys and values in ascending order of the keys.
  \<^item> Time points of the steady clock are ticks; \<open>ticks_per_ms\<close> is the clock's rate.
  \<^item> Arithmetic on \<open>double\<close> is arithmetic on reals followed by \<open>rnd\<close>, the rounding of the machine;
    \<open>double_laws\<close> states what of IEEE 754 the lemmas use.
\<close>

section \<open>Ordered maps\<close>

type_synonym 'v std_map = "(int \<times> 'v) list"

definition map_keys :: "'v std_map \<Rightarrow> int list" where
  "map_keys m = map fst m"

fun map_insert :: "int \<Rightarrow> 'v \<Rightarrow> 'v std_map \<Rightarrow> 'v std_map" where
  "map_insert k v [] = [(k, v)]"
| "map_insert k v ((k', v') # m) =
     (if k < k' then (k, v) # (k', v') # m
      else if k = k' then (k', v') # m
      else (k', v') # map_insert k v m)"

definition map_erase :: "int \<Rightarrow> 'v std_map \<Rightarrow> 'v std_map" where
  "map_erase k m = filter (\<lambda>(k', v). k' \<noteq> k) m"

text \<open>Writing through the iterator that \<open>find\<close> returns; nothing happens when it is \<open>end()\<close>.\<close>

definition map_modify :: "int \<Rightarrow> ('v \<Rightarrow> 'v) \<Rightarrow> 'v std_map \<Rightarrow> 'v std_map" where
  "map_modify k f m = map (\<lambda>(k', v). (k', if k' = k then f v else v)) m"

definition map_wf :: "'v std_map \<Rightarrow> bool" where
  "map_wf m \<longleftrightarrow> sorted_wrt (<) (map_keys m)"

lemma map_keys_simps [simp]:
  "map_keys [] = []" "map_keys ((k, v) # m) = k # map_keys m"
  "map_keys (map_modify k f m) = map_keys m"
  by (simp_all add: map_keys_def map_modify_def o_def case_prod_beta)

lemma map_keys_erase [simp]: "map_keys (map_erase k m) = filter (\<lambda>k'. k' \<noteq> k) (map_keys m)"
  by (induction m) (auto simp: map_keys_def map_erase_def)

lemma map_of_None_keys: "map_of m k = None \<longleftrightarrow> k \<notin> set (map_keys m)"
  by (simp add: map_keys_def map_of_eq_None_iff)

lemma set_map_insert: "set (map_keys (map_insert k v m)) = insert k (set (map_keys m))"
  by (induction k v m rule: map_insert.induct) auto

lemma map_of_insert:
  "map_wf m \<Longrightarrow> map_of (map_insert k v m) j = (if j = k then Some (case map_of m k of None \<Rightarrow> v | Some v' \<Rightarrow> v') else map_of m j)"
proof (induction k v m rule: map_insert.induct)
  case (2 k v k' v' m)
  have "k \<notin> set (map_keys m)" if "k < k'" using 2(2) that by (auto simp: map_wf_def)
  then have "map_of m k = None" if "k < k'" using that by (simp add: map_of_None_keys)
  then show ?case using 2 by (auto simp: map_wf_def)
qed simp

lemma length_map_insert: "k \<notin> set (map_keys m) \<Longrightarrow> length (map_insert k v m) = Suc (length m)"
  by (induction k v m rule: map_insert.induct) auto

lemma map_wf_insert: "map_wf m \<Longrightarrow> map_wf (map_insert k v m)"
  by (induction k v m rule: map_insert.induct) (auto simp: map_wf_def set_map_insert)

lemma map_wf_erase: "map_wf m \<Longrightarrow> map_wf (map_erase k m)"
  by (simp add: map_wf_def sorted_wrt_filter)

lemma map_wf_modify [simp]: "map_wf (map_modify k f m) = map_wf m"
  by (simp add: map_wf_def)

lemma map_of_erase: "map_of (map_erase k m) j = (if j = k then None else map_of m j)"
  by (induction m) (auto simp: map_erase_def)

lemma map_of_modify: "map_of (map_modify k f m) j = (if j = k then map_option f (map_of m k) else map_of m j)"
  by (induction m) (auto simp: map_modify_def)

lemma length_map_modify [simp]: "length (map_modify k f m) = length m"
  by (simp add: map_modify_def)

lemma map_wf_of_mem: "map_wf m \<Longrightarrow> (k, v) \<in> set m \<longleftrightarrow> map_of m k = Some v"
proof -
  assume "map_wf m"
  then have "distinct (map fst m)" by (simp add: map_wf_def map_keys_def strict_sorted_iff)
  then show ?thesis by (simp add: map_of_eq_Some_iff)
qed

lemma map_erase_insert: "k \<notin> set (map_keys m) \<Longrightarrow> map_erase k (map_insert k v m) = m"
proof (induction k v m rule: map_insert.induct)
  case (2 k v k' v' m)
  have "map_erase k m = m" if "k \<notin> set (map_keys m)" for m :: "'a std_map"
    using that by (induction m) (auto simp: map_erase_def)
  then show ?case using 2 by (auto simp: map_erase_def)
qed (simp add: map_erase_def)

text \<open>A loop over all values: \<open>for (auto& [uni, udata] : _universes)\<close>.\<close>

definition map_all :: "('v \<Rightarrow> 'v) \<Rightarrow> 'v std_map \<Rightarrow> 'v std_map" where
  "map_all f m = map (\<lambda>(k, v). (k, f v)) m"

lemma map_all_simps [simp]:
  "map_keys (map_all f m) = map_keys m" "map_wf (map_all f m) = map_wf m"
  "map_of (map_all f m) k = map_option f (map_of m k)" "length (map_all f m) = length m"
  by (simp_all add: map_keys_def map_wf_def map_all_def o_def case_prod_beta map_of_map)

section \<open>Universes and fades\<close>

record fade_state =
  fade_active :: bool
  start_value :: u8
  target_value :: u8
  start_time :: int
  fade_duration :: int

record universe_data =
  dmx_data :: "u8 list"
  fades :: "fade_state list"
  active_fade_count :: int

definition no_fade :: fade_state where
  "no_fade = \<lparr>fade_active = False, start_value = 0, target_value = 0, start_time = 0, fade_duration = 0\<rparr>"

definition UniverseData :: universe_data where
  "UniverseData = \<lparr>dmx_data = replicate 513 0, fades = replicate 513 no_fade, active_fade_count = 0\<rparr>"

definition clamp_dmx :: "int \<Rightarrow> int" where
  "clamp_dmx val = (if val < 0 then 0 else if val > 255 then 255 else val)"

text \<open>\<open>channel\<close>: cancel the channel's fade, store the value.\<close>

definition cancel_fade :: "nat \<Rightarrow> universe_data \<Rightarrow> universe_data" where
  "cancel_fade ch ud =
     (if fade_active (fades ud ! ch)
      then ud\<lparr>fades := (fades ud)[ch := (fades ud ! ch)\<lparr>fade_active := False\<rparr>],
              active_fade_count := active_fade_count ud - 1\<rparr>
      else ud)"

definition store_channel :: "nat \<Rightarrow> u8 \<Rightarrow> universe_data \<Rightarrow> universe_data" where
  "store_channel ch v ud = ud\<lparr>dmx_data := (dmx_data ud)[ch := v]\<rparr>"

text \<open>\<open>channels\<close>: the two loops over \<open>i < count\<close>; indices outside 1-512 are skipped.\<close>

definition cancel_fades :: "int \<Rightarrow> nat \<Rightarrow> universe_data \<Rightarrow> universe_data" where
  "cancel_fades startCh count =
     fold (\<lambda>i ud. let ch = startCh + int i in if ch \<ge> 1 \<and> ch \<le> 512 then cancel_fade (nat ch) ud else ud)
       [0..<count]"

definition store_channels :: "int \<Rightarrow> u8 list \<Rightarrow> nat \<Rightarrow> universe_data \<Rightarrow> universe_data" where
  "store_channels startCh vals count =
     fold (\<lambda>i ud. let ch = startCh + int i in if ch < 1 \<or> ch > 512 then ud else store_channel (nat ch) (vals ! i) ud)
       [0..<count]"

text \<open>\<open>blackout\<close> for one universe.\<close>

definition blackout_universe :: "universe_data \<Rightarrow> universe_data" where
  "blackout_universe ud =
     ud\<lparr>fades := fold (\<lambda>i fs. fs[i := (fs ! i)\<lparr>fade_active := False\<rparr>]) [1..<513] (fades ud),
        active_fade_count := 0, dmx_data := memset_at (dmx_data ud) 1 0 512\<rparr>"

text \<open>\<open>fade\<close> for a positive duration.\<close>

definition start_fade :: "int \<Rightarrow> nat \<Rightarrow> int \<Rightarrow> int \<Rightarrow> universe_data \<Rightarrow> universe_data" where
  "start_fade now ch target durationMs ud =
     ud\<lparr>fades := (fades ud)[ch := \<lparr>fade_active = True, start_value = dmx_data ud ! ch,
          target_value = word_of_int target, start_time = now, fade_duration = durationMs\<rparr>],
        active_fade_count := (if \<not> fade_active (fades ud ! ch) then active_fade_count ud + 1
                              else active_fade_count ud)\<rparr>"

section \<open>Interpolation\<close>

record clock =
  rnd :: "real \<Rightarrow> real"
  ticks_per_ms :: int

definition double_laws :: "(real \<Rightarrow> real) \<Rightarrow> bool" where
  "double_laws r \<longleftrightarrow> mono r \<and> (\<forall>k. \<bar>k\<bar> \<le> 2 ^ 53 \<longrightarrow> r (of_int k) = of_int k)"

text \<open>\<open>std::chrono::duration_cast\<close> to milliseconds and \<open>static_cast<int>\<close> truncate toward zero.\<close>

definition duration_cast_ms :: "clock \<Rightarrow> int \<Rightarrow> int" where
  "duration_cast_ms C d = (if d \<ge> 0 then d div ticks_per_ms C else - ((- d) div ticks_per_ms C))"

definition real_to_int :: "real \<Rightarrow> int" where
  "real_to_int x = (if x \<ge> 0 then \<lfloor>x\<rfloor> else \<lceil>x\<rceil>)"

definition fade_interp :: "clock \<Rightarrow> fade_state \<Rightarrow> int \<Rightarrow> int" where
  "fade_interp C f elapsed =
     (let t = rnd C (rnd C (of_int elapsed) / rnd C (of_int (fade_duration f)));
          delta = uint (target_value f) - uint (start_value f)
      in uint (start_value f) + real_to_int (rnd C (t * rnd C (of_int delta))))"

text \<open>One channel of \<open>update_fades\<close>.\<close>

definition update_fade :: "clock \<Rightarrow> int \<Rightarrow> nat \<Rightarrow> universe_data \<Rightarrow> universe_data" where
  "update_fade C now ch ud =
     (let f = fades ud ! ch in
      if \<not> fade_active f then ud
      else let elapsed = duration_cast_ms C (now - start_time f) in
        if elapsed \<ge> fade_duration f
        then ud\<lparr>dmx_data := (dmx_data ud)[ch := target_value f],
                fades := (fades ud)[ch := f\<lparr>fade_active := False\<rparr>],
                active_fade_count := active_fade_count ud - 1\<rparr>
        else ud\<lparr>dmx_data := (dmx_data ud)[ch := word_of_int (clamp_dmx (fade_interp C f elapsed))]\<rparr>)"

definition update_universe_fades :: "clock \<Rightarrow> int \<Rightarrow> universe_data \<Rightarrow> universe_data" where
  "update_universe_fades C now ud =
     (if active_fade_count ud = 0 then ud else fold (update_fade C now) [1..<513] ud)"

section \<open>The invariant of a universe\<close>

definition active_fades :: "fade_state list \<Rightarrow> nat" where
  "active_fades fs = length (filter fade_active fs)"

definition universe_ok :: "universe_data \<Rightarrow> bool" where
  "universe_ok ud \<longleftrightarrow> length (dmx_data ud) = 513 \<and> length (fades ud) = 513 \<and> dmx_data ud ! 0 = 0 \<and>
     active_fade_count ud = int (active_fades (fades ud)) \<and> \<not> fade_active (fades ud ! 0) \<and>
     (\<forall>ch < 513. fade_active (fades ud ! ch) \<longrightarrow> 0 < fade_duration (fades ud ! ch))"

lemma active_fades_update:
  "i < length fs \<Longrightarrow>
   int (active_fades (fs[i := f])) =
     int (active_fades fs) + (if fade_active f then 1 else 0) - (if fade_active (fs ! i) then 1 else 0)"
proof (induction fs arbitrary: i)
  case (Cons g fs)
  show ?case
  proof (cases i)
    case (Suc k)
    then show ?thesis using Cons.IH[of k] Cons.prems by (auto simp: active_fades_def split: if_splits)
  qed (auto simp: active_fades_def)
qed simp

lemma active_fades_0: "active_fades fs = 0 \<longleftrightarrow> (\<forall>i < length fs. \<not> fade_active (fs ! i))"
  by (simp add: active_fades_def filter_empty_conv all_set_conv_all_nth)

lemma UniverseData_ok: "universe_ok UniverseData"
  by (simp add: universe_ok_def UniverseData_def active_fades_def no_fade_def filter_replicate)

lemma cancel_fade_ok: "universe_ok ud \<Longrightarrow> ch < 513 \<Longrightarrow> universe_ok (cancel_fade ch ud)"
  by (auto simp: universe_ok_def cancel_fade_def active_fades_update nth_list_update)

lemma cancel_fade_simps [simp]:
  "dmx_data (cancel_fade ch ud) = dmx_data ud" "length (fades (cancel_fade ch ud)) = length (fades ud)"
  by (simp_all add: cancel_fade_def)

lemma cancel_fade_nth:
  "ch < length (fades ud) \<Longrightarrow> i < length (fades ud) \<Longrightarrow> fade_active (fades (cancel_fade ch ud) ! i) \<longleftrightarrow> fade_active (fades ud ! i) \<and> i \<noteq> ch"
  by (auto simp: cancel_fade_def nth_list_update)

lemma store_channel_ok: "universe_ok ud \<Longrightarrow> 0 < ch \<Longrightarrow> universe_ok (store_channel ch v ud)"
  by (simp add: universe_ok_def store_channel_def)

lemma store_channel_simps [simp]:
  "fades (store_channel ch v ud) = fades ud" "dmx_data (store_channel ch v ud) = (dmx_data ud)[ch := v]"
  "active_fade_count (store_channel ch v ud) = active_fade_count ud"
  by (simp_all add: store_channel_def)

lemma start_fade_ok:
  "universe_ok ud \<Longrightarrow> 0 < ch \<Longrightarrow> ch < 513 \<Longrightarrow> 0 < d \<Longrightarrow> universe_ok (start_fade now ch target d ud)"
  by (auto simp: universe_ok_def start_fade_def active_fades_update nth_list_update)

lemma cancel_fades_ok: "universe_ok ud \<Longrightarrow> universe_ok (cancel_fades s n ud)"
  unfolding cancel_fades_def by (rule fold_invariant_set) (auto simp: Let_def intro!: cancel_fade_ok)

lemma store_channels_ok: "universe_ok ud \<Longrightarrow> universe_ok (store_channels s vs n ud)"
  unfolding store_channels_def by (rule fold_invariant_set) (auto simp: Let_def intro!: store_channel_ok)

lemma cancel_fades_data [simp]: "dmx_data (cancel_fades s n ud) = dmx_data ud"
  unfolding cancel_fades_def
  by (rule fold_invariant_set[where P = "\<lambda>u. dmx_data u = dmx_data ud"]) (auto simp: Let_def)

lemma store_channels_fades [simp]:
  "fades (store_channels s vs n ud) = fades ud" "active_fade_count (store_channels s vs n ud) = active_fade_count ud"
  unfolding store_channels_def
  by (rule fold_invariant_set[where P = "\<lambda>u. fades u = fades ud"], simp, simp add: Let_def)
     (rule fold_invariant_set[where P = "\<lambda>u. active_fade_count u = active_fade_count ud"], simp, simp add: Let_def)

lemma store_channels_data:
  "length (dmx_data ud) = 513 \<Longrightarrow>
   length (dmx_data (store_channels s vs n ud)) = 513 \<and>
   (\<forall>j < 513. dmx_data (store_channels s vs n ud) ! j =
     (if 1 \<le> j \<and> s \<le> int j \<and> int j < s + int n then vs ! nat (int j - s) else dmx_data ud ! j))"
proof (induction n)
  case 0
  then show ?case by (auto simp: store_channels_def)
next
  case (Suc n)
  let ?u = "store_channels s vs n ud" and ?c = "s + int n"
  have step: "store_channels s vs (Suc n) ud = (if ?c < 1 \<or> ?c > 512 then ?u else store_channel (nat ?c) (vs ! n) ?u)"
    by (simp add: store_channels_def Let_def)
  have IH: "length (dmx_data ?u) = 513" "\<And>j. j < 513 \<Longrightarrow> dmx_data ?u ! j =
     (if 1 \<le> j \<and> s \<le> int j \<and> int j < s + int n then vs ! nat (int j - s) else dmx_data ud ! j)"
    using Suc by auto
  have split: "s \<le> int j \<and> int j < s + int (Suc n) \<longleftrightarrow> s \<le> int j \<and> int j < s + int n \<or> int j = ?c" for j
    by auto
  show ?case
  proof (cases "?c < 1 \<or> ?c > 512")
    case True
    then show ?thesis unfolding step split using IH by auto
  next
    case False
    then have "nat ?c < 513" "1 \<le> nat ?c" "\<And>j. int j = ?c \<longleftrightarrow> j = nat ?c" by auto
    then show ?thesis unfolding step split using IH False by (auto simp: nth_list_update)
  qed
qed

lemma cancel_fades_nth:
  "length (fades ud) = 513 \<Longrightarrow> j < 513 \<Longrightarrow>
   fade_active (fades (cancel_fades s n ud) ! j) \<longleftrightarrow>
     fade_active (fades ud ! j) \<and> \<not> (1 \<le> j \<and> s \<le> int j \<and> int j < s + int n)"
proof (induction n)
  case 0
  then show ?case by (simp add: cancel_fades_def)
next
  case (Suc n)
  let ?u = "cancel_fades s n ud" and ?c = "s + int n"
  have step: "cancel_fades s (Suc n) ud = (if ?c \<ge> 1 \<and> ?c \<le> 512 then cancel_fade (nat ?c) ?u else ?u)"
    by (simp add: cancel_fades_def Let_def)
  have len: "length (fades ?u) = 513"
    unfolding cancel_fades_def
    by (rule fold_invariant_set[where P = "\<lambda>u. length (fades u) = 513"]) (use Suc.prems in \<open>auto simp: Let_def\<close>)
  show ?case unfolding step using Suc len by (auto simp: cancel_fade_nth)
qed

section \<open>Blackout\<close>

lemma blackout_loop:
  "k \<le> length fs \<Longrightarrow>
   length (fold (\<lambda>i fs. fs[i := (fs ! i)\<lparr>fade_active := False\<rparr>]) [1..<k] fs) = length fs \<and>
   (\<forall>j < length fs. fade_active (fold (\<lambda>i fs. fs[i := (fs ! i)\<lparr>fade_active := False\<rparr>]) [1..<k] fs ! j) \<longleftrightarrow>
      fade_active (fs ! j) \<and> \<not> (1 \<le> j \<and> j < k))"
proof (induction k)
  case 0
  then show ?case by simp
next
  case (Suc k)
  then show ?case by (cases "1 \<le> k") (auto simp: upt_Suc nth_list_update)
qed

lemma blackout_universe_effect:
  assumes "universe_ok ud"
  shows "universe_ok (blackout_universe ud)" "dmx_data (blackout_universe ud) = replicate 513 0"
    "active_fade_count (blackout_universe ud) = 0"
proof -
  let ?fs = "fold (\<lambda>i fs. fs[i := (fs ! i)\<lparr>fade_active := False\<rparr>]) [1..<513] (fades ud)"
  have len: "length (fades ud) = 513" and ok: "\<not> fade_active (fades ud ! 0)" "dmx_data ud ! 0 = 0" "length (dmx_data ud) = 513"
    using assms by (simp_all add: universe_ok_def)
  have fs: "length ?fs = 513" "\<forall>j < 513. \<not> fade_active (?fs ! j)"
    using blackout_loop[of 513 "fades ud"] len ok(1) by (auto simp: not_less_eq Suc_le_eq)
  have data: "memset_at (dmx_data ud) 1 0 512 = replicate 513 0"
  proof (rule nth_equalityI)
    fix i assume "i < length (memset_at (dmx_data ud) 1 0 512)"
    then show "memset_at (dmx_data ud) 1 0 512 ! i = replicate 513 0 ! i" using ok by (cases i) auto
  qed (use ok in simp)
  show "dmx_data (blackout_universe ud) = replicate 513 0" "active_fade_count (blackout_universe ud) = 0"
    unfolding blackout_universe_def data by simp_all
  have "active_fades ?fs = 0" using fs by (simp add: active_fades_0)
  then show "universe_ok (blackout_universe ud)"
    unfolding blackout_universe_def data using fs ok by (simp add: universe_ok_def)
qed

section \<open>Advancing the fades\<close>

definition slot_view :: "universe_data \<Rightarrow> nat \<Rightarrow> u8 \<times> fade_state" where
  "slot_view ud i = (dmx_data ud ! i, fades ud ! i)"

definition slots_ok :: "universe_data \<Rightarrow> bool" where
  "slots_ok ud \<longleftrightarrow> length (dmx_data ud) = 513 \<and> length (fades ud) = 513"

lemma update_fade_ok: "slots_ok ud \<Longrightarrow> slots_ok (update_fade C now ch ud)"
  by (simp add: slots_ok_def update_fade_def Let_def)

interpretation fade_loop: slotwise "update_fade C now" slot_view slots_ok 513 for C now
proof
  fix i j :: nat and s t :: universe_data
  show "slots_ok s \<Longrightarrow> slots_ok (update_fade C now i s)" by (rule update_fade_ok)
  show "i < 513 \<Longrightarrow> slots_ok s \<Longrightarrow> j \<noteq> i \<Longrightarrow> slot_view (update_fade C now i s) j = slot_view s j"
    by (simp add: slot_view_def update_fade_def Let_def)
  show "i < 513 \<Longrightarrow> slots_ok s \<Longrightarrow> slots_ok t \<Longrightarrow> slot_view s i = slot_view t i \<Longrightarrow>
      slot_view (update_fade C now i s) i = slot_view (update_fade C now i t) i"
    by (simp add: slot_view_def update_fade_def slots_ok_def Let_def)
qed

lemma update_fade_universe_ok:
  assumes "universe_ok ud" "0 < ch" "ch < 513"
  shows "universe_ok (update_fade C now ch ud)"
  using assms by (auto simp: universe_ok_def update_fade_def Let_def active_fades_update nth_list_update)

lemma update_universe_fades_ok: "universe_ok ud \<Longrightarrow> universe_ok (update_universe_fades C now ud)"
  unfolding update_universe_fades_def
  by (simp, intro impI, rule fold_invariant_set) (auto intro: update_fade_universe_ok)

text \<open>What an update leaves in a channel: a function of what the channel held.\<close>

lemma update_universe_fades_slot:
  assumes ok: "universe_ok ud" and ch: "1 \<le> ch" "ch < 513"
  shows "slot_view (update_universe_fades C now ud) ch =
    (let f = fades ud ! ch; e = duration_cast_ms C (now - start_time f) in
     if \<not> fade_active f then (dmx_data ud ! ch, f)
     else if e \<ge> fade_duration f then (target_value f, f\<lparr>fade_active := False\<rparr>)
     else (word_of_int (clamp_dmx (fade_interp C f e)), f))"
proof -
  have len: "slots_ok ud" using ok by (simp add: slots_ok_def universe_ok_def)
  have step: "slot_view (update_fade C now ch ud) ch = (let f = fades ud ! ch; e = duration_cast_ms C (now - start_time f) in
     if \<not> fade_active f then (dmx_data ud ! ch, f)
     else if e \<ge> fade_duration f then (target_value f, f\<lparr>fade_active := False\<rparr>)
     else (word_of_int (clamp_dmx (fade_interp C f e)), f))"
    using len ch by (simp add: slot_view_def update_fade_def slots_ok_def Let_def)
  show ?thesis
  proof (cases "active_fade_count ud = 0")
    case True
    then have "\<not> fade_active (fades ud ! ch)" using ok ch by (simp add: universe_ok_def active_fades_0)
    then show ?thesis using True by (simp add: update_universe_fades_def slot_view_def Let_def)
  next
    case False
    then show ?thesis
      using fade_loop.fold_view_in[of 513 ud 1 ch C now] len ch step by (simp add: update_universe_fades_def)
  qed
qed

section \<open>Fades stay between their end points\<close>

lemma real_to_int_between:
  "of_int a \<le> x \<Longrightarrow> x \<le> of_int b \<Longrightarrow> a \<le> real_to_int x \<and> real_to_int x \<le> b"
  unfolding real_to_int_def by (auto simp: le_floor_iff ceiling_le_iff floor_le_iff le_ceiling_iff)

lemma real_to_int_mono: "x \<le> y \<Longrightarrow> real_to_int x \<le> real_to_int y"
proof -
  assume xy: "x \<le> y"
  show ?thesis
  proof (cases "x < 0 \<and> 0 \<le> y")
    case True
    then have "\<lceil>x\<rceil> \<le> 0" "0 \<le> \<lfloor>y\<rfloor>" by (simp_all add: ceiling_le_iff le_floor_iff)
    then have "\<lceil>x\<rceil> \<le> \<lfloor>y\<rfloor>" by (rule order_trans)
    then show ?thesis using True by (simp add: real_to_int_def)
  qed (use xy in \<open>auto simp: real_to_int_def intro: floor_mono ceiling_mono\<close>)
qed

lemma double_mono: "double_laws r \<Longrightarrow> x \<le> y \<Longrightarrow> r x \<le> r y"
  and double_int: "double_laws r \<Longrightarrow> \<bar>k\<bar> \<le> 2 ^ 53 \<Longrightarrow> r (of_int k) = of_int k"
  by (auto simp: double_laws_def mono_def)

lemma fraction_bounds:
  assumes r: "double_laws r" and e: "0 \<le> e" "e \<le> d" "0 < d" "d \<le> 2 ^ 53"
  shows "0 \<le> r (r (of_int e) / r (of_int d))" "r (r (of_int e) / r (of_int d)) \<le> 1"
proof -
  have ed: "r (of_int e) = of_int e" "r (of_int d) = of_int d" using double_int[OF r] e by auto
  have "0 \<le> real_of_int e / of_int d" "real_of_int e / of_int d \<le> 1" using e by simp_all
  then have "r (of_int 0) \<le> r (of_int e / of_int d)" "r (of_int e / of_int d) \<le> r (of_int 1)"
    by (auto intro: double_mono[OF r])
  then show "0 \<le> r (r (of_int e) / r (of_int d))" "r (r (of_int e) / r (of_int d)) \<le> 1"
    using double_int[OF r, of 0] double_int[OF r, of 1] by (simp_all only: ed) simp_all
qed

text \<open>The product is rounded too: it stays between 0 and the whole difference.\<close>

lemma fade_interp_bounds:
  assumes r: "double_laws (rnd C)" and e: "0 \<le> e" "e \<le> fade_duration f" "0 < fade_duration f"
    "fade_duration f \<le> 2 ^ 53"
  shows "min (uint (start_value f)) (uint (target_value f)) \<le> fade_interp C f e"
    "fade_interp C f e \<le> max (uint (start_value f)) (uint (target_value f))"
proof -
  define t where "t = rnd C (rnd C (of_int e) / rnd C (of_int (fade_duration f)))"
  define D where "D = uint (target_value f) - uint (start_value f)"
  have t: "0 \<le> t" "t \<le> 1" using fraction_bounds[OF r e] by (simp_all add: t_def)
  have "uint (target_value f) < 256" "uint (start_value f) < 256"
    using uint_lt2p[of "target_value f"] uint_lt2p[of "start_value f"] by simp_all
  moreover have "\<bar>a - b\<bar> \<le> 2 ^ 53" if "0 \<le> a" "a < 256" "0 \<le> b" "b < 256" for a b :: int
    using that by auto
  ultimately have small: "\<bar>D\<bar> \<le> 2 ^ 53" unfolding D_def by simp
  have D: "rnd C (of_int D) = of_int D" using double_int[OF r small] .
  have interp: "fade_interp C f e = uint (start_value f) + real_to_int (rnd C (t * of_int D))"
    unfolding fade_interp_def Let_def t_def[symmetric] D_def[symmetric] D ..
  have "min 0 (real_of_int D) \<le> t * of_int D" "t * of_int D \<le> max 0 (of_int D)"
    using t by (auto simp: min_def max_def mult_nonneg_nonneg mult_le_0_iff mult_left_le_one_le mult_le_cancel_right1)
  moreover have "rnd C (min 0 (of_int D)) = min 0 (of_int D)" "rnd C (max 0 (of_int D)) = max 0 (of_int D)"
    using double_int[OF r, of 0] D by (auto simp: min_def max_def)
  ultimately have "of_int (min 0 D) \<le> rnd C (t * of_int D)" "rnd C (t * of_int D) \<le> of_int (max 0 D)"
    using double_mono[OF r, of "min 0 (of_int D)" "t * of_int D"] double_mono[OF r, of "t * of_int D" "max 0 (of_int D)"]
    by (simp_all add: of_int_min of_int_max)
  from real_to_int_between[OF this] show "min (uint (start_value f)) (uint (target_value f)) \<le> fade_interp C f e"
    "fade_interp C f e \<le> max (uint (start_value f)) (uint (target_value f))"
    unfolding interp D_def by auto
qed

text \<open>A later update of a rising fade is not lower, and of a falling fade not higher.\<close>

lemma fade_interp_mono:
  assumes r: "double_laws (rnd C)" and e: "0 \<le> e" "e \<le> e'" "e' \<le> fade_duration f" "0 < fade_duration f"
    "fade_duration f \<le> 2 ^ 53"
  shows "start_value f \<le> target_value f \<Longrightarrow> fade_interp C f e \<le> fade_interp C f e'"
    "target_value f \<le> start_value f \<Longrightarrow> fade_interp C f e' \<le> fade_interp C f e"
proof -
  define t where "t = (\<lambda>e. rnd C (rnd C (of_int e) / rnd C (of_int (fade_duration f))))"
  define D where "D = uint (target_value f) - uint (start_value f)"
  have interp: "fade_interp C f k = uint (start_value f) + real_to_int (rnd C (t k * rnd C (of_int D)))" for k
    by (simp add: fade_interp_def Let_def t_def D_def)
  have "rnd C (of_int e) \<le> rnd C (of_int e')" using double_mono[OF r] e by simp
  moreover have "0 \<le> rnd C (of_int (fade_duration f))" using double_int[OF r, of "fade_duration f"] e by simp
  ultimately have t: "t e \<le> t e'" unfolding t_def by (rule double_mono[OF r divide_right_mono])
  have zero: "rnd C 0 = 0" using double_int[OF r, of 0] by simp
  show "fade_interp C f e \<le> fade_interp C f e'" if "start_value f \<le> target_value f"
  proof -
    have "0 \<le> D" using that by (simp add: D_def word_le_def)
    then have "0 \<le> rnd C (of_int D)" using double_mono[OF r, of 0 "of_int D"] zero by simp
    then have "t e * rnd C (of_int D) \<le> t e' * rnd C (of_int D)" using t by (intro mult_right_mono)
    then show ?thesis unfolding interp using real_to_int_mono[OF double_mono[OF r]] by simp
  qed
  show "fade_interp C f e' \<le> fade_interp C f e" if "target_value f \<le> start_value f"
  proof -
    have "D \<le> 0" using that by (simp add: D_def word_le_def)
    then have "rnd C (of_int D) \<le> 0" using double_mono[OF r, of "of_int D" 0] zero by simp
    then have "t e' * rnd C (of_int D) \<le> t e * rnd C (of_int D)" using t by (intro mult_right_mono_neg)
    then show ?thesis unfolding interp using real_to_int_mono[OF double_mono[OF r]] by simp
  qed
qed

end
