(* ===== verification/DmxPlugin.thy ===== *)
theory DmxPlugin
  imports DmxUniverse SacnCommon
begin

text \<open>
  The class \<open>DMX\<close> of the plugin (src/DMX.cpp): its state, its public methods and the protocol
  code. A method is a function of the object's state; the methods that start or stop sACN also
  thread the process-wide state \<open>dmx_globals\<close>, the reference count and the sACN library of
  \<open>SacnCommon\<close>. Each method runs to its end before the next: the locks are not modelled.
  \<^item> What the devices and libraries do during one call is the record \<open>call_env\<close>: the clock, and
    the result of every call of the serial library, of \<open>sacn::Source\<close> and of libartnet.
  \<^item> What the plugin did to them is \<open>io\<close>, the list of the calls that succeeded, newest first.
\<close>

section \<open>State\<close>

datatype protocol = Serial_Raw | Serial | SACN | ArtNet

datatype call_result = Returns_Ok | Returns_Error | Throws

datatype io_event =
    SerialOpened string | SerialClosed | SerialBreak bool | SerialSleep nat | SerialWrite "u8 list"
  | SourceStarted string | SourceShutdown | SourceAdded u16 u8 | SourceRemoved u16
  | SourcePriority u16 u8 | SourceName string | SourceLevels u16 "u8 list"
  | NodeCreated | NodeNames string | NodeSubnet u8 | NodePort int u8 | NodeStarted | NodeDestroyed
  | NodeDmx int "u8 list"

record dmx =
  the_protocol :: protocol
  source_name :: string
  sacn_priority :: int
  universe_map :: "universe_data std_map"
  active_universe :: int
  serial_initialized :: bool
  sacn_started :: bool
  artnet_initialized :: bool
  debug_on :: bool
  last_reconnect_ticks :: int
  serial_is_open :: bool
  serial_port :: string
  artnet_node :: bool
  artnet_mappings :: "(int \<times> int) list"
  io :: "io_event list"

record dmx_globals =
  sacn_ref_count :: int
  sacn_lib :: "unit sacn_state"

record call_env =
  fade_now :: int
  reconnect_now :: int
  serial_opens :: bool
  serial_throws_after :: "nat option"
  sacn_results :: init_results
  uuid_result :: call_result
  startup_result :: call_result
  add_universe_result :: "int \<Rightarrow> call_result"
  change_priority_ok :: "int \<Rightarrow> bool"
  change_name_ok :: bool
  update_levels_throws :: "int \<Rightarrow> bool"
  artnet_new_ok :: bool
  artnet_start_ok :: bool
  artnet_send_ok :: "int \<Rightarrow> bool"

record dmx_platform =
  steady_clock :: clock
  sacn_features :: feature_opts

definition MAX_UNIVERSES :: nat where "MAX_UNIVERSES = 64"
definition ARTNET_MAX_PORTS :: nat where "ARTNET_MAX_PORTS = 4"
definition RECONNECT_COOLDOWN_MS :: int where "RECONNECT_COOLDOWN_MS = 5000"
definition DMX_PAYLOAD_LEN :: u16 where "DMX_PAYLOAD_LEN = 513"
definition ENTTEC_START_MSG :: u8 where "ENTTEC_START_MSG = 0x7E"
definition ENTTEC_SEND_DMX :: u8 where "ENTTEC_SEND_DMX = 0x06"
definition ENTTEC_END_MSG :: u8 where "ENTTEC_END_MSG = 0xE7"

definition DMX_ctor :: dmx where
  "DMX_ctor = \<lparr>the_protocol = Serial, source_name = ''ChucK DMX'', sacn_priority = 100,
     universe_map = map_insert 1 UniverseData [], active_universe = 1, serial_initialized = False,
     sacn_started = False, artnet_initialized = False, debug_on = False, last_reconnect_ticks = 0,
     serial_is_open = False, serial_port = [], artnet_node = False, artnet_mappings = [], io = []\<rparr>"

definition log_io :: "io_event list \<Rightarrow> dmx \<Rightarrow> dmx" where
  "log_io es d = d\<lparr>io := rev es @ io d\<rparr>"

section \<open>The library's reference count\<close>

definition sacn_global_init :: "feature_opts \<Rightarrow> init_results \<Rightarrow> dmx_globals \<Rightarrow> bool \<times> dmx_globals" where
  "sacn_global_init C v g =
     (if sacn_ref_count g = 0 then
        (case sacn_init_features C v None SACN_FEATURES_ALL (sacn_lib g) of (err, lib) \<Rightarrow>
           if err \<noteq> kEtcPalErrOk then (False, g\<lparr>sacn_lib := lib\<rparr>)
           else (True, g\<lparr>sacn_lib := lib, sacn_ref_count := sacn_ref_count g + 1\<rparr>))
      else (True, g\<lparr>sacn_ref_count := sacn_ref_count g + 1\<rparr>))"

definition sacn_global_deinit :: "feature_opts \<Rightarrow> dmx_globals \<Rightarrow> dmx_globals" where
  "sacn_global_deinit C g =
     (if sacn_ref_count g > 0 then
        let g1 = g\<lparr>sacn_ref_count := sacn_ref_count g - 1\<rparr> in
        if sacn_ref_count g1 = 0 then g1\<lparr>sacn_lib := sacn_deinit_features C SACN_FEATURES_ALL (sacn_lib g1)\<rparr>
        else g1
      else g)"

section \<open>Channels\<close>

definition DMX_get_channel :: "int \<Rightarrow> dmx \<Rightarrow> int" where
  "DMX_get_channel ch d =
     (if ch < 1 \<or> ch > 512 then 0
      else case map_of (universe_map d) (active_universe d) of
        None \<Rightarrow> 0
      | Some ud \<Rightarrow> uint (dmx_data ud ! nat ch))"

definition DMX_channel :: "int \<Rightarrow> int \<Rightarrow> dmx \<Rightarrow> dmx" where
  "DMX_channel ch val d =
     (if ch < 1 \<or> ch > 512 then d
      else let val = (if val < 0 \<or> val > 255 then clamp_dmx val else val);
               uni = active_universe d;
               us = map_modify uni (cancel_fade (nat ch)) (universe_map d)
           in d\<lparr>universe_map := map_modify uni (store_channel (nat ch) (word_of_int val)) us\<rparr>)"

definition DMX_channel_uni :: "int \<Rightarrow> int \<Rightarrow> int \<Rightarrow> dmx \<Rightarrow> dmx" where
  "DMX_channel_uni uni ch val d =
     (if uni < 1 \<or> uni > 63999 then d
      else if ch < 1 \<or> ch > 512 then d
      else let val = (if val < 0 \<or> val > 255 then clamp_dmx val else val);
               us = map_modify uni (cancel_fade (nat ch)) (universe_map d)
           in d\<lparr>universe_map := map_modify uni (store_channel (nat ch) (word_of_int val)) us\<rparr>)"

definition DMX_channels :: "int \<Rightarrow> u8 list \<Rightarrow> nat \<Rightarrow> dmx \<Rightarrow> dmx" where
  "DMX_channels startCh vals count d =
     (let uni = active_universe d;
          us = map_modify uni (cancel_fades startCh count) (universe_map d)
      in d\<lparr>universe_map := map_modify uni (store_channels startCh vals count) us\<rparr>)"

definition DMX_blackout :: "dmx \<Rightarrow> dmx" where
  "DMX_blackout d = d\<lparr>universe_map := map_all blackout_universe (universe_map d)\<rparr>"

definition DMX_fade :: "call_env \<Rightarrow> int \<Rightarrow> int \<Rightarrow> int \<Rightarrow> dmx \<Rightarrow> dmx" where
  "DMX_fade E ch target durationMs d =
     (if ch < 1 \<or> ch > 512 then d
      else let target = clamp_dmx target in
        if durationMs \<le> 0 then DMX_channel ch target d
        else d\<lparr>universe_map := map_modify (active_universe d)
                 (start_fade (fade_now E) (nat ch) target durationMs) (universe_map d)\<rparr>)"

definition DMX_fade_uni :: "call_env \<Rightarrow> int \<Rightarrow> int \<Rightarrow> int \<Rightarrow> int \<Rightarrow> dmx \<Rightarrow> dmx" where
  "DMX_fade_uni E uni ch target durationMs d =
     (if uni < 1 \<or> uni > 63999 then d
      else if ch < 1 \<or> ch > 512 then d
      else let target = clamp_dmx target in
        if durationMs \<le> 0 then DMX_channel_uni uni ch target d
        else d\<lparr>universe_map := map_modify uni
                 (start_fade (fade_now E) (nat ch) target durationMs) (universe_map d)\<rparr>)"

definition update_fades :: "dmx_platform \<Rightarrow> call_env \<Rightarrow> dmx \<Rightarrow> dmx" where
  "update_fades P E d = d\<lparr>universe_map := map_all (update_universe_fades (steady_clock P) (fade_now E)) (universe_map d)\<rparr>"

section \<open>Serial\<close>

definition openPort :: "call_env \<Rightarrow> dmx \<Rightarrow> bool \<times> dmx" where
  "openPort E d =
     (let d1 = (if serial_is_open d then log_io [SerialClosed] (d\<lparr>serial_is_open := False\<rparr>) else d) in
      if serial_opens E then (True, log_io [SerialOpened (serial_port d1)] (d1\<lparr>serial_is_open := True\<rparr>))
      else (False, d1))"

definition closePort :: "dmx \<Rightarrow> dmx" where
  "closePort d = (if serial_is_open d then log_io [SerialClosed] (d\<lparr>serial_is_open := False\<rparr>) else d)"

definition init_Serial :: "call_env \<Rightarrow> dmx \<Rightarrow> bool \<times> dmx" where
  "init_Serial E d =
     (if serial_port d = [] then (False, d)
      else case openPort E d of (ok, d1) \<Rightarrow>
        if ok then (True, d1\<lparr>serial_initialized := True\<rparr>) else (False, d1))"

definition deinit_Serial :: "dmx \<Rightarrow> dmx" where
  "deinit_Serial d =
     (if \<not> serial_initialized d then d else (closePort d)\<lparr>serial_initialized := False\<rparr>)"

definition can_attempt_reconnect :: "dmx_platform \<Rightarrow> call_env \<Rightarrow> dmx \<Rightarrow> bool \<times> dmx" where
  "can_attempt_reconnect P E d =
     (let elapsed_ms = duration_cast_ms (steady_clock P) (reconnect_now E - last_reconnect_ticks d) in
      if elapsed_ms < RECONNECT_COOLDOWN_MS then (False, d)
      else (True, d\<lparr>last_reconnect_ticks := reconnect_now E\<rparr>))"

definition enttec_frame :: "u8 list \<Rightarrow> u8 list" where
  "enttec_frame snapshot =
     [ENTTEC_START_MSG, ENTTEC_SEND_DMX, ucast (DMX_PAYLOAD_LEN AND 0xFF),
      ucast ((drop_bit 8 DMX_PAYLOAD_LEN) AND 0xFF)] @
     take (unat DMX_PAYLOAD_LEN) snapshot @ [ENTTEC_END_MSG]"

text \<open>The calls in the \<open>try\<close> block; \<open>serial_throws_after\<close> is the number of them done before one throws.\<close>

definition serial_calls :: "u8 list \<Rightarrow> protocol \<Rightarrow> io_event list" where
  "serial_calls snapshot proto =
     (if proto = Serial_Raw
      then [SerialBreak True, SerialSleep 120, SerialBreak False, SerialSleep 12, SerialWrite (take 513 snapshot)]
      else if proto = Serial then [SerialWrite (enttec_frame snapshot)]
      else [])"

definition send_Serial :: "dmx_platform \<Rightarrow> call_env \<Rightarrow> u8 list \<Rightarrow> protocol \<Rightarrow> dmx \<Rightarrow> dmx" where
  "send_Serial P E snapshot proto d =
     (case (if serial_is_open d then (True, d)
            else case can_attempt_reconnect P E d of (may, d1) \<Rightarrow>
              if may then openPort E d1 else (False, d1)) of
        (ok, d2) \<Rightarrow>
          if \<not> ok then d2
          else case serial_throws_after E of
            None \<Rightarrow> log_io (serial_calls snapshot proto) d2
          | Some n \<Rightarrow>
              if n < length (serial_calls snapshot proto)
              then closePort (log_io (take n (serial_calls snapshot proto)) d2)
              else log_io (serial_calls snapshot proto) d2)"

section \<open>sACN\<close>

fun add_source_universes :: "call_env \<Rightarrow> int list \<Rightarrow> dmx \<Rightarrow> call_result \<times> dmx" where
  "add_source_universes E [] d = (Returns_Ok, d)"
| "add_source_universes E (uni # unis) d =
     (case add_universe_result E uni of
        Returns_Ok \<Rightarrow>
          add_source_universes E unis
            (log_io [SourceAdded (word_of_int uni) (word_of_int (sacn_priority d))] d)
      | Returns_Error \<Rightarrow> (Returns_Error, d)
      | Throws \<Rightarrow> (Throws, d))"

definition init_sACN ::
    "dmx_platform \<Rightarrow> call_env \<Rightarrow> int list \<Rightarrow> dmx_globals \<Rightarrow> dmx \<Rightarrow> bool \<times> dmx_globals \<times> dmx" where
  "init_sACN P E uni_keys g d =
     (case sacn_global_init (sacn_features P) (sacn_results E) g of (ok, g1) \<Rightarrow>
        if \<not> ok then (False, g1, d)
        else if uuid_result E \<noteq> Returns_Ok then (False, sacn_global_deinit (sacn_features P) g1, d)
        else if startup_result E \<noteq> Returns_Ok then (False, sacn_global_deinit (sacn_features P) g1, d)
        else case add_source_universes E uni_keys (log_io [SourceStarted (source_name d)] d) of
               (Returns_Ok, d1) \<Rightarrow> (True, g1, d1\<lparr>sacn_started := True\<rparr>)
             | (Returns_Error, d1) \<Rightarrow>
                 (False, sacn_global_deinit (sacn_features P) g1, log_io [SourceShutdown] d1)
             | (Throws, d1) \<Rightarrow> (False, sacn_global_deinit (sacn_features P) g1, d1))"

definition deinit_sACN :: "dmx_platform \<Rightarrow> dmx_globals \<Rightarrow> dmx \<Rightarrow> dmx_globals \<times> dmx" where
  "deinit_sACN P g d =
     (if \<not> sacn_started d then (g, d)
      else (sacn_global_deinit (sacn_features P) g, (log_io [SourceShutdown] d)\<lparr>sacn_started := False\<rparr>))"

section \<open>Art-Net\<close>

definition artnet_subnet :: "int \<Rightarrow> int" where
  "artnet_subnet uni = drop_bit 4 (uni - 1) AND 0x0F"

definition artnet_address :: "int \<Rightarrow> int" where
  "artnet_address uni = (uni - 1) AND 0x0F"

text \<open>The loop over the universes; \<open>length (artnet_mappings d)\<close> is \<open>_artnet_mapping_count\<close>.\<close>

fun map_artnet_ports :: "int \<Rightarrow> int list \<Rightarrow> int \<Rightarrow> dmx \<Rightarrow> dmx" where
  "map_artnet_ports subnet [] port_idx d = d"
| "map_artnet_ports subnet (uni # unis) port_idx d =
     (if port_idx \<ge> int ARTNET_MAX_PORTS then d
      else if artnet_subnet uni \<noteq> subnet then map_artnet_ports subnet unis port_idx d
      else map_artnet_ports subnet unis (port_idx + 1)
             (log_io [NodePort port_idx (word_of_int (artnet_address uni))]
               (d\<lparr>artnet_mappings := artnet_mappings d @ [(uni, port_idx)]\<rparr>)))"

definition init_ArtNet :: "call_env \<Rightarrow> int list \<Rightarrow> dmx \<Rightarrow> bool \<times> dmx" where
  "init_ArtNet E uni_keys d =
     (if uni_keys = [] then (False, d)
      else if \<not> artnet_new_ok E then (False, d\<lparr>artnet_node := False\<rparr>)
      else
        let subnet = artnet_subnet (hd uni_keys);
            d1 = log_io [NodeCreated, NodeNames (source_name d), NodeSubnet (word_of_int subnet)]
                   (d\<lparr>artnet_node := True, artnet_mappings := []\<rparr>);
            d2 = map_artnet_ports subnet uni_keys 0 d1
        in if \<not> artnet_start_ok E
           then (False, log_io [NodeDestroyed] (d2\<lparr>artnet_node := False, artnet_mappings := []\<rparr>))
           else (True, log_io [NodeStarted] (d2\<lparr>artnet_initialized := True\<rparr>)))"

definition deinit_ArtNet :: "dmx \<Rightarrow> dmx" where
  "deinit_ArtNet d =
     (if \<not> artnet_initialized d then d
      else (if artnet_node d then log_io [NodeDestroyed] (d\<lparr>artnet_node := False\<rparr>) else d)
             \<lparr>artnet_mappings := [], artnet_initialized := False\<rparr>)"

section \<open>Initialization and sending\<close>

definition deinit_all :: "dmx_platform \<Rightarrow> dmx_globals \<Rightarrow> dmx \<Rightarrow> dmx_globals \<times> dmx" where
  "deinit_all P g d =
     (case deinit_sACN P g (deinit_Serial d) of (g1, d1) \<Rightarrow> (g1, deinit_ArtNet d1))"

definition DMX_init :: "dmx_platform \<Rightarrow> call_env \<Rightarrow> dmx_globals \<Rightarrow> dmx \<Rightarrow> bool \<times> dmx_globals \<times> dmx" where
  "DMX_init P E g d =
     (let uni_keys = map_keys (universe_map d) in
      case deinit_all P g d of (g1, d1) \<Rightarrow>
        (case the_protocol d1 of
           Serial_Raw \<Rightarrow> (case init_Serial E d1 of (ok, d2) \<Rightarrow> (ok, g1, d2))
         | Serial \<Rightarrow> (case init_Serial E d1 of (ok, d2) \<Rightarrow> (ok, g1, d2))
         | SACN \<Rightarrow> init_sACN P E uni_keys g1 d1
         | ArtNet \<Rightarrow> (case init_ArtNet E uni_keys d1 of (ok, d2) \<Rightarrow> (ok, g1, d2))))"

text \<open>\<open>send\<close>: the snapshot of one universe is its number and its 513 bytes.\<close>

definition snapshots :: "dmx \<Rightarrow> (int \<times> u8 list) list" where
  "snapshots d = map (\<lambda>(uni, ud). (uni, take 513 (dmx_data ud))) (universe_map d)"

definition slot_data :: "u8 list \<Rightarrow> u8 list" where
  "slot_data snapshot = take 512 (drop 1 snapshot)"

fun send_sacn :: "call_env \<Rightarrow> (int \<times> u8 list) list \<Rightarrow> bool \<Rightarrow> dmx \<Rightarrow> bool \<times> dmx" where
  "send_sacn E [] any_failed d = (any_failed, d)"
| "send_sacn E ((uni, snap) # snaps) any_failed d =
     (if update_levels_throws E uni then send_sacn E snaps True d
      else send_sacn E snaps any_failed (log_io [SourceLevels (word_of_int uni) (slot_data snap)] d))"

fun send_artnet ::
    "call_env \<Rightarrow> (int \<times> int) list \<Rightarrow> (int \<times> u8 list) list \<Rightarrow> bool \<Rightarrow> dmx \<Rightarrow> bool \<times> dmx" where
  "send_artnet E ports [] any_failed d = (any_failed, d)"
| "send_artnet E ports ((uni, snap) # snaps) any_failed d =
     (let port_idx = (case map_of ports uni of None \<Rightarrow> -1 | Some p \<Rightarrow> p) in
      if port_idx < 0 then send_artnet E ports snaps any_failed d
      else if artnet_node d \<and> artnet_send_ok E port_idx
      then send_artnet E ports snaps any_failed (log_io [NodeDmx port_idx (slot_data snap)] d)
      else send_artnet E ports snaps True d)"

definition DMX_send :: "dmx_platform \<Rightarrow> call_env \<Rightarrow> dmx_globals \<Rightarrow> dmx \<Rightarrow> dmx_globals \<times> dmx" where
  "DMX_send P E g d0 =
     (let d = update_fades P E d0;
          current_protocol = the_protocol d;
          artnet_snap = artnet_mappings d;
          snaps = snapshots d;
          uni_keys = map fst snaps
      in if current_protocol = Serial_Raw \<or> current_protocol = Serial then
           (case map_of snaps (active_universe d) of
              None \<Rightarrow> (g, d)
            | Some snap \<Rightarrow> (g, send_Serial P E snap current_protocol d))
         else if current_protocol = SACN then
           (case send_sacn E snaps False d of (any_failed, d1) \<Rightarrow>
              if \<not> any_failed then (g, d1)
              else case can_attempt_reconnect P E d1 of (may, d2) \<Rightarrow>
                if \<not> may then (g, d2)
                else case deinit_sACN P g d2 of (g1, d3) \<Rightarrow>
                  (case init_sACN P E uni_keys g1 d3 of (ok, g2, d4) \<Rightarrow> (g2, d4)))
         else
           (case send_artnet E artnet_snap snaps False d of (any_failed, d1) \<Rightarrow>
              if \<not> any_failed then (g, d1)
              else case can_attempt_reconnect P E d1 of (may, d2) \<Rightarrow>
                if \<not> may then (g, d2)
                else case init_ArtNet E uni_keys (deinit_ArtNet d2) of (ok, d3) \<Rightarrow> (g, d3)))"

section \<open>Universes\<close>

definition DMX_universe :: "int \<Rightarrow> dmx \<Rightarrow> bool \<times> dmx" where
  "DMX_universe u d =
     (if u < 1 \<or> u > 63999 then (False, d)
      else if map_of (universe_map d) u = None then
        if length (universe_map d) \<ge> MAX_UNIVERSES then (False, d)
        else (True, d\<lparr>universe_map := map_insert u UniverseData (universe_map d), active_universe := u\<rparr>)
      else (True, d\<lparr>active_universe := u\<rparr>))"

definition DMX_addUniverse :: "call_env \<Rightarrow> int \<Rightarrow> dmx \<Rightarrow> bool \<times> dmx" where
  "DMX_addUniverse E uni d =
     (if uni < 1 \<or> uni > 63999 then (False, d)
      else if map_of (universe_map d) uni \<noteq> None then (True, d)
      else if length (universe_map d) \<ge> MAX_UNIVERSES then (False, d)
      else
        let d1 = d\<lparr>universe_map := map_insert uni UniverseData (universe_map d)\<rparr> in
        if sacn_started d1 then
          if add_universe_result E uni = Returns_Ok
          then (True, log_io [SourceAdded (word_of_int uni) (word_of_int (sacn_priority d1))] d1)
          else (False, d1\<lparr>universe_map := map_erase uni (universe_map d1)\<rparr>)
        else (True, d1))"

text \<open>Removing a universe's entry from the port table: the entries behind it move down.\<close>

fun remove_mapping :: "int \<Rightarrow> (int \<times> int) list \<Rightarrow> (int \<times> int) list" where
  "remove_mapping uni [] = []"
| "remove_mapping uni ((u, p) # ms) = (if u = uni then ms else (u, p) # remove_mapping uni ms)"

definition DMX_removeUniverse :: "int \<Rightarrow> dmx \<Rightarrow> bool \<times> dmx" where
  "DMX_removeUniverse uni d =
     (if map_of (universe_map d) uni = None then (True, d)
      else if length (universe_map d) \<le> 1 then (False, d)
      else
        let us = map_erase uni (universe_map d);
            d1 = d\<lparr>universe_map := us,
                   active_universe := (if active_universe d = uni then fst (hd us) else active_universe d)\<rparr>;
            d2 = (if sacn_started d1 then log_io [SourceRemoved (word_of_int uni)] d1 else d1)
        in (True, if artnet_initialized d2
                  then d2\<lparr>artnet_mappings := remove_mapping uni (artnet_mappings d2)\<rparr> else d2))"

definition DMX_universeCount :: "dmx \<Rightarrow> int" where
  "DMX_universeCount d = int (length (universe_map d))"

fun to_string_nat :: "nat \<Rightarrow> string" where
  "to_string_nat n = (if n < 10 then [char_of (48 + n)] else to_string_nat (n div 10) @ [char_of (48 + n mod 10)])"

declare to_string_nat.simps [simp del]

definition to_string :: "int \<Rightarrow> string" where
  "to_string k = (if k < 0 then CHR ''-'' # to_string_nat (nat (- k)) else to_string_nat (nat k))"

fun join_commas :: "string list \<Rightarrow> string" where
  "join_commas [] = []"
| "join_commas [x] = x"
| "join_commas (x # y # xs) = x @ '','' @ join_commas (y # xs)"

definition DMX_universes :: "dmx \<Rightarrow> string" where
  "DMX_universes d = join_commas (map to_string (map_keys (universe_map d)))"

section \<open>Settings\<close>

text \<open>The loop that changes the priority of the live universes stops at the first failure.\<close>

fun change_priorities :: "call_env \<Rightarrow> int \<Rightarrow> int list \<Rightarrow> dmx \<Rightarrow> bool \<times> dmx" where
  "change_priorities E p [] d = (True, d)"
| "change_priorities E p (uni # unis) d =
     (if change_priority_ok E uni
      then change_priorities E p unis (log_io [SourcePriority (word_of_int uni) (word_of_int p)] d)
      else (False, d))"

definition DMX_set_priority :: "call_env \<Rightarrow> int \<Rightarrow> dmx \<Rightarrow> bool \<times> dmx" where
  "DMX_set_priority E p d =
     (if p < 0 \<or> p > 200 then (False, d)
      else let uni_keys = map_keys (universe_map d) in
        if sacn_started d then
          (case change_priorities E p uni_keys d of (ok, d1) \<Rightarrow>
             if ok then (True, d1\<lparr>sacn_priority := p\<rparr>) else (False, d1))
        else (True, d\<lparr>sacn_priority := p\<rparr>))"

definition DMX_set_name :: "call_env \<Rightarrow> string \<Rightarrow> dmx \<Rightarrow> bool \<times> dmx" where
  "DMX_set_name E n d =
     (if sacn_started d then
        if change_name_ok E then (True, (log_io [SourceName n] d)\<lparr>source_name := n\<rparr>) else (False, d)
      else (True, d\<lparr>source_name := n\<rparr>))"

definition DMX_set_protocol :: "protocol \<Rightarrow> dmx \<Rightarrow> dmx" where
  "DMX_set_protocol p d = d\<lparr>the_protocol := p\<rparr>"

definition DMX_set_port :: "string \<Rightarrow> dmx \<Rightarrow> dmx" where
  "DMX_set_port p d = d\<lparr>serial_port := p\<rparr>"

definition DMX_debug :: "int \<Rightarrow> dmx \<Rightarrow> dmx" where
  "DMX_debug enable d = d\<lparr>debug_on := (enable \<noteq> 0)\<rparr>"

definition DMX_connected :: "dmx \<Rightarrow> bool" where
  "DMX_connected d =
     (case the_protocol d of
        Serial_Raw \<Rightarrow> serial_initialized d
      | Serial \<Rightarrow> serial_initialized d
      | SACN \<Rightarrow> sacn_started d
      | ArtNet \<Rightarrow> artnet_initialized d)"

end
