(* ===== verification/DmxChugin.thy ===== *)
theory DmxChugin
  imports DmxPlugin
begin

text \<open>
  The functions that ChucK calls (the \<open>CK_DLL\<close> functions of src/DMX.cpp). Each reads the object
  from the pointer the ChucK object stores (\<open>self\<close>: \<open>None\<close> is a null pointer), casts its 64-bit
  arguments to \<open>int\<close> and calls the method. \<open>chuck_exec\<close> runs one call on one of the objects of the
  process; all objects share \<open>dmx_globals\<close>.
\<close>

section \<open>Wrappers\<close>

datatype chuck_value = VVoid | VInt int | VString string

definition to_int :: "int \<Rightarrow> int" where
  "to_int x = signed_take_bit 31 x"

definition of_bool_int :: "bool \<Rightarrow> int" where
  "of_bool_int b = (if b then 1 else 0)"

definition dmx_ctor :: "dmx option" where
  "dmx_ctor = Some DMX_ctor"

definition dmx_dtor :: "dmx_platform \<Rightarrow> dmx_globals \<Rightarrow> dmx option \<Rightarrow> dmx_globals \<times> dmx option" where
  "dmx_dtor P g self = (case self of None \<Rightarrow> (g, None) | Some d \<Rightarrow> (fst (deinit_all P g d), None))"

definition protocol_of_int :: "int \<Rightarrow> protocol" where
  "protocol_of_int n = (if n = 0 then Serial_Raw else if n = 1 then Serial else if n = 2 then SACN else ArtNet)"

fun protocol_to_int :: "protocol \<Rightarrow> int" where
  "protocol_to_int Serial_Raw = 0"
| "protocol_to_int Serial = 1"
| "protocol_to_int SACN = 2"
| "protocol_to_int ArtNet = 3"

definition dmx_get_protocol :: "dmx option \<Rightarrow> chuck_value" where
  "dmx_get_protocol self = (case self of None \<Rightarrow> VInt (-1) | Some d \<Rightarrow> VInt (protocol_to_int (the_protocol d)))"

definition dmx_protocol :: "int \<Rightarrow> dmx option \<Rightarrow> chuck_value \<times> dmx option" where
  "dmx_protocol mode_int self =
     (case self of
        None \<Rightarrow> (VInt mode_int, None)
      | Some d \<Rightarrow> (VInt mode_int,
          Some (if mode_int \<ge> 0 \<and> mode_int \<le> 3 then DMX_set_protocol (protocol_of_int mode_int) d else d)))"

definition dmx_get_channel :: "int \<Rightarrow> dmx option \<Rightarrow> chuck_value" where
  "dmx_get_channel ch self = (case self of None \<Rightarrow> VInt 0 | Some d \<Rightarrow> VInt (DMX_get_channel (to_int ch) d))"

definition dmx_channel :: "int \<Rightarrow> int \<Rightarrow> dmx option \<Rightarrow> chuck_value \<times> dmx option" where
  "dmx_channel ch val self = (VVoid, map_option (DMX_channel (to_int ch) (to_int val)) self)"

definition dmx_channel_uni :: "int \<Rightarrow> int \<Rightarrow> int \<Rightarrow> dmx option \<Rightarrow> chuck_value \<times> dmx option" where
  "dmx_channel_uni uni ch val self =
     (VVoid, map_option (DMX_channel_uni (to_int uni) (to_int ch) (to_int val)) self)"

definition dmx_channels :: "int \<Rightarrow> int list option \<Rightarrow> dmx option \<Rightarrow> chuck_value \<times> dmx option" where
  "dmx_channels startCh arr self =
     (case (self, arr) of
        (Some d, Some a) \<Rightarrow>
          let count = length a in
          if count \<le> 0 then (VVoid, Some d)
          else let count = (if count > 512 then 512 else count);
                   vals = map (\<lambda>i. word_of_int (clamp_dmx (to_int (a ! i)))) [0..<count]
               in (VVoid, Some (DMX_channels (to_int startCh) vals count d))
      | _ \<Rightarrow> (VVoid, self))"

definition dmx_init ::
    "dmx_platform \<Rightarrow> call_env \<Rightarrow> dmx_globals \<Rightarrow> dmx option \<Rightarrow> chuck_value \<times> dmx_globals \<times> dmx option" where
  "dmx_init P E g self =
     (case self of
        None \<Rightarrow> (VInt 0, g, None)
      | Some d \<Rightarrow> (case DMX_init P E g d of (ok, g1, d1) \<Rightarrow> (VInt (of_bool_int ok), g1, Some d1)))"

definition dmx_send ::
    "dmx_platform \<Rightarrow> call_env \<Rightarrow> dmx_globals \<Rightarrow> dmx option \<Rightarrow> chuck_value \<times> dmx_globals \<times> dmx option" where
  "dmx_send P E g self =
     (case self of
        None \<Rightarrow> (VVoid, g, None)
      | Some d \<Rightarrow> (case DMX_send P E g d of (g1, d1) \<Rightarrow> (VVoid, g1, Some d1)))"

definition dmx_blackout :: "dmx option \<Rightarrow> chuck_value \<times> dmx option" where
  "dmx_blackout self = (VVoid, map_option DMX_blackout self)"

definition dmx_connected :: "dmx option \<Rightarrow> chuck_value" where
  "dmx_connected self = (case self of None \<Rightarrow> VInt 0 | Some d \<Rightarrow> VInt (of_bool_int (DMX_connected d)))"

definition dmx_debug :: "int \<Rightarrow> dmx option \<Rightarrow> chuck_value \<times> dmx option" where
  "dmx_debug enable self =
     (case self of None \<Rightarrow> (VInt 0, None) | Some d \<Rightarrow> (VInt enable, Some (DMX_debug (to_int enable) d)))"

definition dmx_get_port :: "dmx option \<Rightarrow> chuck_value" where
  "dmx_get_port self = (case self of None \<Rightarrow> VString [] | Some d \<Rightarrow> VString (serial_port d))"

definition dmx_port :: "string \<Rightarrow> dmx option \<Rightarrow> chuck_value \<times> dmx option" where
  "dmx_port n self = (VString n, map_option (DMX_set_port n) self)"

definition dmx_get_universe :: "dmx option \<Rightarrow> chuck_value" where
  "dmx_get_universe self = (case self of None \<Rightarrow> VInt (-1) | Some d \<Rightarrow> VInt (active_universe d))"

definition dmx_universe :: "int \<Rightarrow> dmx option \<Rightarrow> chuck_value \<times> dmx option" where
  "dmx_universe u self = (VInt u, map_option (\<lambda>d. snd (DMX_universe (to_int u) d)) self)"

definition dmx_add_universe :: "call_env \<Rightarrow> int \<Rightarrow> dmx option \<Rightarrow> chuck_value \<times> dmx option" where
  "dmx_add_universe E uni self =
     (case self of
        None \<Rightarrow> (VInt 0, None)
      | Some d \<Rightarrow> (case DMX_addUniverse E (to_int uni) d of (ok, d1) \<Rightarrow> (VInt (of_bool_int ok), Some d1)))"

definition dmx_remove_universe :: "int \<Rightarrow> dmx option \<Rightarrow> chuck_value \<times> dmx option" where
  "dmx_remove_universe uni self =
     (case self of
        None \<Rightarrow> (VInt 0, None)
      | Some d \<Rightarrow> (case DMX_removeUniverse (to_int uni) d of (ok, d1) \<Rightarrow> (VInt (of_bool_int ok), Some d1)))"

definition dmx_universe_count :: "dmx option \<Rightarrow> chuck_value" where
  "dmx_universe_count self = (case self of None \<Rightarrow> VInt 0 | Some d \<Rightarrow> VInt (DMX_universeCount d))"

definition dmx_universes :: "dmx option \<Rightarrow> chuck_value" where
  "dmx_universes self = (case self of None \<Rightarrow> VString [] | Some d \<Rightarrow> VString (DMX_universes d))"

definition dmx_get_priority :: "dmx option \<Rightarrow> chuck_value" where
  "dmx_get_priority self = (case self of None \<Rightarrow> VInt (-1) | Some d \<Rightarrow> VInt (sacn_priority d))"

definition dmx_priority :: "call_env \<Rightarrow> int \<Rightarrow> dmx option \<Rightarrow> chuck_value \<times> dmx option" where
  "dmx_priority E p self = (VInt p, map_option (\<lambda>d. snd (DMX_set_priority E (to_int p) d)) self)"

definition dmx_get_name :: "dmx option \<Rightarrow> chuck_value" where
  "dmx_get_name self = (case self of None \<Rightarrow> VString [] | Some d \<Rightarrow> VString (source_name d))"

definition dmx_name :: "call_env \<Rightarrow> string \<Rightarrow> dmx option \<Rightarrow> chuck_value \<times> dmx option" where
  "dmx_name E n self = (VString n, map_option (\<lambda>d. snd (DMX_set_name E n d)) self)"

definition dmx_fade :: "call_env \<Rightarrow> int \<Rightarrow> int \<Rightarrow> int \<Rightarrow> dmx option \<Rightarrow> chuck_value \<times> dmx option" where
  "dmx_fade E ch target durationMs self =
     (VVoid, map_option (DMX_fade E (to_int ch) (to_int target) (to_int durationMs)) self)"

definition dmx_fade_uni ::
    "call_env \<Rightarrow> int \<Rightarrow> int \<Rightarrow> int \<Rightarrow> int \<Rightarrow> dmx option \<Rightarrow> chuck_value \<times> dmx option" where
  "dmx_fade_uni E uni ch target durationMs self =
     (VVoid, map_option (DMX_fade_uni E (to_int uni) (to_int ch) (to_int target) (to_int durationMs)) self)"

section \<open>The process\<close>

datatype chuck_call =
    New | Delete | GetProtocol | SetProtocol int | GetChannel int | SetChannel int int
  | SetChannelUni int int int | SetChannels int "int list option" | Init call_env | Send call_env
  | Blackout | Connected | Debug int | GetPort | SetPort string | GetUniverse | SetUniverse int
  | AddUniverse call_env int | RemoveUniverse int | UniverseCount | Universes | GetPriority
  | SetPriority call_env int | GetName | SetName call_env string
  | Fade call_env int int int | FadeUni call_env int int int int

record process =
  globals :: dmx_globals
  objects :: "nat \<Rightarrow> dmx option"

text \<open>The effect of a call on the globals and the object it is made on, and the returned value.\<close>

fun chuck_call_effect ::
    "dmx_platform \<Rightarrow> chuck_call \<Rightarrow> dmx_globals \<Rightarrow> dmx option \<Rightarrow> chuck_value \<times> dmx_globals \<times> dmx option" where
  "chuck_call_effect P New g self = (VVoid, g, if self = None then dmx_ctor else self)"
| "chuck_call_effect P Delete g self = (VVoid, dmx_dtor P g self)"
| "chuck_call_effect P GetProtocol g self = (dmx_get_protocol self, g, self)"
| "chuck_call_effect P (SetProtocol n) g self = (case dmx_protocol n self of (r, s) \<Rightarrow> (r, g, s))"
| "chuck_call_effect P (GetChannel ch) g self = (dmx_get_channel ch self, g, self)"
| "chuck_call_effect P (SetChannel ch v) g self = (case dmx_channel ch v self of (r, s) \<Rightarrow> (r, g, s))"
| "chuck_call_effect P (SetChannelUni u ch v) g self = (case dmx_channel_uni u ch v self of (r, s) \<Rightarrow> (r, g, s))"
| "chuck_call_effect P (SetChannels ch a) g self = (case dmx_channels ch a self of (r, s) \<Rightarrow> (r, g, s))"
| "chuck_call_effect P (Init E) g self = dmx_init P E g self"
| "chuck_call_effect P (Send E) g self = dmx_send P E g self"
| "chuck_call_effect P Blackout g self = (case dmx_blackout self of (r, s) \<Rightarrow> (r, g, s))"
| "chuck_call_effect P Connected g self = (dmx_connected self, g, self)"
| "chuck_call_effect P (Debug n) g self = (case dmx_debug n self of (r, s) \<Rightarrow> (r, g, s))"
| "chuck_call_effect P GetPort g self = (dmx_get_port self, g, self)"
| "chuck_call_effect P (SetPort n) g self = (case dmx_port n self of (r, s) \<Rightarrow> (r, g, s))"
| "chuck_call_effect P GetUniverse g self = (dmx_get_universe self, g, self)"
| "chuck_call_effect P (SetUniverse u) g self = (case dmx_universe u self of (r, s) \<Rightarrow> (r, g, s))"
| "chuck_call_effect P (AddUniverse E u) g self = (case dmx_add_universe E u self of (r, s) \<Rightarrow> (r, g, s))"
| "chuck_call_effect P (RemoveUniverse u) g self = (case dmx_remove_universe u self of (r, s) \<Rightarrow> (r, g, s))"
| "chuck_call_effect P UniverseCount g self = (dmx_universe_count self, g, self)"
| "chuck_call_effect P Universes g self = (dmx_universes self, g, self)"
| "chuck_call_effect P GetPriority g self = (dmx_get_priority self, g, self)"
| "chuck_call_effect P (SetPriority E p) g self = (case dmx_priority E p self of (r, s) \<Rightarrow> (r, g, s))"
| "chuck_call_effect P GetName g self = (dmx_get_name self, g, self)"
| "chuck_call_effect P (SetName E n) g self = (case dmx_name E n self of (r, s) \<Rightarrow> (r, g, s))"
| "chuck_call_effect P (Fade E ch t ms) g self = (case dmx_fade E ch t ms self of (r, s) \<Rightarrow> (r, g, s))"
| "chuck_call_effect P (FadeUni E u ch t ms) g self = (case dmx_fade_uni E u ch t ms self of (r, s) \<Rightarrow> (r, g, s))"

definition chuck_exec :: "dmx_platform \<Rightarrow> nat \<times> chuck_call \<Rightarrow> process \<Rightarrow> process" where
  "chuck_exec P c w =
     (case chuck_call_effect P (snd c) (globals w) (objects w (fst c)) of
        (r, g, self) \<Rightarrow> \<lparr>globals = g, objects = (objects w)(fst c := self)\<rparr>)"

definition initial_process :: process where
  "initial_process = \<lparr>globals = \<lparr>sacn_ref_count = 0, sacn_lib = initial_sacn_state ()\<rparr>, objects = (\<lambda>_. None)\<rparr>"

end
