(* ===== verification/DmxPluginInv.thy ===== *)
theory DmxPluginInv
  imports DmxChugin
begin

text \<open>
  The invariants of the plugin. \<open>dmx_inv\<close> is about one object: its universes, fades, settings and
  Art-Net ports; every method keeps it. \<open>lib_inv\<close> ties the reference count to the sACN library of
  \<open>SacnCommon\<close>; \<open>process_inv\<close> ties it to the objects that use the library.
\<close>

section \<open>The universes\<close>

definition map_ok :: "universe_data std_map \<Rightarrow> bool" where
  "map_ok m \<longleftrightarrow> map_wf m \<and> length m \<le> MAX_UNIVERSES \<and> (\<forall>k \<in> set (map_keys m). 1 \<le> k \<and> k \<le> 63999) \<and>
     (\<forall>k ud. map_of m k = Some ud \<longrightarrow> universe_ok ud)"

lemma map_ok_modify:
  "map_ok m \<Longrightarrow> (\<And>ud. universe_ok ud \<Longrightarrow> universe_ok (f ud)) \<Longrightarrow> map_ok (map_modify k f m)"
  by (auto simp: map_ok_def map_of_modify split: if_splits)

lemma map_ok_all: "map_ok m \<Longrightarrow> (\<And>ud. universe_ok ud \<Longrightarrow> universe_ok (f ud)) \<Longrightarrow> map_ok (map_all f m)"
  by (auto simp: map_ok_def)

lemma map_ok_insert:
  "map_ok m \<Longrightarrow> map_of m k = None \<Longrightarrow> length m < MAX_UNIVERSES \<Longrightarrow> 1 \<le> k \<Longrightarrow> k \<le> 63999 \<Longrightarrow>
   map_ok (map_insert k UniverseData m)"
  by (auto simp: map_ok_def map_wf_insert map_of_insert set_map_insert UniverseData_ok
      length_map_insert[OF iffD1[OF map_of_None_keys]] split: if_splits)

lemma map_ok_erase: "map_ok m \<Longrightarrow> map_ok (map_erase k m)"
  using length_filter_le[of "\<lambda>(k', v). k' \<noteq> k" m]
  by (auto simp: map_ok_def map_wf_erase map_of_erase map_erase_def[symmetric] split: if_splits)

section \<open>The invariant of an object\<close>

definition ports_ok :: "int set \<Rightarrow> (int \<times> int) list \<Rightarrow> bool" where
  "ports_ok K ms \<longleftrightarrow> set (map fst ms) \<subseteq> K \<and> distinct (map fst ms) \<and> distinct (map snd ms) \<and>
     (\<forall>p \<in> set (map snd ms). 0 \<le> p \<and> p < int ARTNET_MAX_PORTS)"

definition dmx_inv :: "dmx \<Rightarrow> bool" where
  "dmx_inv d \<longleftrightarrow> map_ok (universe_map d) \<and> active_universe d \<in> set (map_keys (universe_map d)) \<and>
     0 \<le> sacn_priority d \<and> sacn_priority d \<le> 200 \<and>
     ports_ok (set (map_keys (universe_map d))) (artnet_mappings d) \<and>
     artnet_node d = artnet_initialized d \<and> (\<not> artnet_initialized d \<longrightarrow> artnet_mappings d = [])"

lemma ports_ok_Nil [simp]: "ports_ok K []"
  by (simp add: ports_ok_def)

lemma ports_ok_mono: "ports_ok K ms \<Longrightarrow> K \<subseteq> K' \<Longrightarrow> ports_ok K' ms"
  by (auto simp: ports_ok_def)

lemma log_io_simps [simp]:
  "the_protocol (log_io es d) = the_protocol d" "source_name (log_io es d) = source_name d"
  "sacn_priority (log_io es d) = sacn_priority d" "universe_map (log_io es d) = universe_map d"
  "active_universe (log_io es d) = active_universe d" "serial_initialized (log_io es d) = serial_initialized d"
  "sacn_started (log_io es d) = sacn_started d" "artnet_initialized (log_io es d) = artnet_initialized d"
  "last_reconnect_ticks (log_io es d) = last_reconnect_ticks d" "serial_is_open (log_io es d) = serial_is_open d"
  "serial_port (log_io es d) = serial_port d" "artnet_node (log_io es d) = artnet_node d"
  "artnet_mappings (log_io es d) = artnet_mappings d" "io (log_io es d) = rev es @ io d"
  "debug_on (log_io es d) = debug_on d"
  by (simp_all add: log_io_def)

lemma dmx_inv_log_io [simp]: "dmx_inv (log_io es d) = dmx_inv d"
  by (simp add: dmx_inv_def)

lemma dmx_inv_irrelevant [simp]:
  "dmx_inv (d\<lparr>the_protocol := p\<rparr>) = dmx_inv d" "dmx_inv (d\<lparr>source_name := n\<rparr>) = dmx_inv d"
  "dmx_inv (d\<lparr>serial_initialized := b\<rparr>) = dmx_inv d" "dmx_inv (d\<lparr>sacn_started := b\<rparr>) = dmx_inv d"
  "dmx_inv (d\<lparr>debug_on := b\<rparr>) = dmx_inv d" "dmx_inv (d\<lparr>last_reconnect_ticks := t\<rparr>) = dmx_inv d"
  "dmx_inv (d\<lparr>serial_is_open := b\<rparr>) = dmx_inv d" "dmx_inv (d\<lparr>serial_port := n\<rparr>) = dmx_inv d"
  by (simp_all add: dmx_inv_def)

lemma dmx_inv_modify:
  "dmx_inv d \<Longrightarrow> (\<And>ud. universe_ok ud \<Longrightarrow> universe_ok (f ud)) \<Longrightarrow>
   dmx_inv (d\<lparr>universe_map := map_modify k f (universe_map d)\<rparr>)"
  by (simp add: dmx_inv_def map_ok_modify)

lemma dmx_inv_all:
  "dmx_inv d \<Longrightarrow> (\<And>ud. universe_ok ud \<Longrightarrow> universe_ok (f ud)) \<Longrightarrow>
   dmx_inv (d\<lparr>universe_map := map_all f (universe_map d)\<rparr>)"
  by (simp add: dmx_inv_def map_ok_all)

lemma DMX_ctor_inv: "dmx_inv DMX_ctor"
  by (simp add: dmx_inv_def DMX_ctor_def map_ok_def map_wf_def MAX_UNIVERSES_def UniverseData_ok)

lemma dmx_inv_modify2:
  "dmx_inv d \<Longrightarrow> (\<And>ud. universe_ok ud \<Longrightarrow> universe_ok (f ud)) \<Longrightarrow> (\<And>ud. universe_ok ud \<Longrightarrow> universe_ok (h ud)) \<Longrightarrow>
   dmx_inv (d\<lparr>universe_map := map_modify k h (map_modify k f (universe_map d))\<rparr>)"
  using dmx_inv_modify[OF dmx_inv_modify, of d f h k k] by simp

lemma DMX_channel_inv: "dmx_inv d \<Longrightarrow> dmx_inv (DMX_channel ch v d)"
  by (auto simp: DMX_channel_def Let_def intro!: dmx_inv_modify2 cancel_fade_ok store_channel_ok)

lemma DMX_channel_uni_inv: "dmx_inv d \<Longrightarrow> dmx_inv (DMX_channel_uni u ch v d)"
  by (auto simp: DMX_channel_uni_def Let_def intro!: dmx_inv_modify2 cancel_fade_ok store_channel_ok)

lemma DMX_channels_inv: "dmx_inv d \<Longrightarrow> dmx_inv (DMX_channels s vs n d)"
  by (auto simp: DMX_channels_def Let_def intro!: dmx_inv_modify2 cancel_fades_ok store_channels_ok)

lemma DMX_blackout_inv: "dmx_inv d \<Longrightarrow> dmx_inv (DMX_blackout d)"
  by (auto simp: DMX_blackout_def intro!: dmx_inv_all blackout_universe_effect(1))

lemma DMX_fade_inv: "dmx_inv d \<Longrightarrow> dmx_inv (DMX_fade E ch t ms d)"
  by (auto simp: DMX_fade_def Let_def intro!: dmx_inv_modify start_fade_ok DMX_channel_inv)

lemma DMX_fade_uni_inv: "dmx_inv d \<Longrightarrow> dmx_inv (DMX_fade_uni E u ch t ms d)"
  by (auto simp: DMX_fade_uni_def Let_def intro!: dmx_inv_modify start_fade_ok DMX_channel_uni_inv)

lemma update_fades_inv: "dmx_inv d \<Longrightarrow> dmx_inv (update_fades P E d)"
  by (auto simp: update_fades_def intro!: dmx_inv_all update_universe_fades_ok)

lemma DMX_universe_inv: "dmx_inv d \<Longrightarrow> dmx_inv (snd (DMX_universe u d))"
  by (auto simp: DMX_universe_def dmx_inv_def set_map_insert map_of_None_keys not_le
      intro!: map_ok_insert elim: ports_ok_mono)

lemma dmx_inv_insert:
  "dmx_inv d \<Longrightarrow> map_of (universe_map d) u = None \<Longrightarrow> length (universe_map d) < MAX_UNIVERSES \<Longrightarrow> 1 \<le> u \<Longrightarrow>
   u \<le> 63999 \<Longrightarrow> dmx_inv (d\<lparr>universe_map := map_insert u UniverseData (universe_map d)\<rparr>)"
  by (auto simp: dmx_inv_def set_map_insert intro!: map_ok_insert elim: ports_ok_mono)

lemma DMX_addUniverse_inv: "dmx_inv d \<Longrightarrow> dmx_inv (snd (DMX_addUniverse E u d))"
  using dmx_inv_insert[of d u]
  by (auto simp: DMX_addUniverse_def Let_def not_le map_of_None_keys map_erase_insert)

lemma remove_mapping_spec:
  "distinct (map fst ms) \<Longrightarrow> remove_mapping u ms = filter (\<lambda>(v, p). v \<noteq> u) ms"
proof (induction ms)
  case (Cons m ms)
  have "filter (\<lambda>(v, p). v \<noteq> u) ms = ms" if "u \<notin> fst ` set ms"
    using that by (force simp: filter_id_conv)
  then show ?case using Cons by (cases m) auto
qed simp

lemma ports_ok_remove: "ports_ok K ms \<Longrightarrow> ports_ok (K - {u}) (remove_mapping u ms)"
  by (auto simp: ports_ok_def remove_mapping_spec distinct_map intro: inj_on_subset)

lemma map_erase_nonempty:
  assumes "map_wf m" "1 < length m"
  shows "map_erase k m \<noteq> []"
proof
  assume "map_erase k m = []"
  then have "set (map_keys m) \<subseteq> {k}"
    by (auto simp: map_erase_def filter_empty_conv map_keys_def)
  then have "card (set (map_keys m)) \<le> 1" using card_mono[of "{k}"] by simp
  moreover have "card (set (map_keys m)) = length m"
    using assms(1) by (metis distinct_card length_map map_keys_def map_wf_def strict_sorted_iff)
  ultimately show False using assms(2) by simp
qed

lemma DMX_removeUniverse_inv:
  assumes inv: "dmx_inv d"
  shows "dmx_inv (snd (DMX_removeUniverse u d))"
proof (cases "map_of (universe_map d) u = None \<or> length (universe_map d) \<le> 1")
  case True
  then show ?thesis using inv by (auto simp: DMX_removeUniverse_def)
next
  case False
  let ?us = "map_erase u (universe_map d)"
  have wf: "map_wf (universe_map d)" "map_ok ?us" using inv map_ok_erase[of "universe_map d" u]
    by (simp_all add: dmx_inv_def) (simp add: map_ok_def)
  have "?us \<noteq> []" using map_erase_nonempty[OF wf(1)] False by simp
  then have hd: "fst (hd ?us) \<in> set (map_keys ?us)" by (simp add: map_keys_def hd_in_set)
  have keys: "set (map_keys ?us) = set (map_keys (universe_map d)) - {u}" by auto
  define a where "a = (if active_universe d = u then fst (hd ?us) else active_universe d)"
  define ms where "ms = (if artnet_initialized d then remove_mapping u (artnet_mappings d) else artnet_mappings d)"
  have act: "a \<in> set (map_keys ?us)"
    unfolding a_def using inv hd keys by (cases "active_universe d = u") (auto simp: dmx_inv_def)
  have ms: "ports_ok (set (map_keys ?us)) ms"
    using inv ports_ok_remove[of _ "artnet_mappings d" u] unfolding keys ms_def by (auto simp: dmx_inv_def)
  have "snd (DMX_removeUniverse u d) =
      (if sacn_started d then log_io [SourceRemoved (word_of_int u)] else id)
        (d\<lparr>universe_map := ?us, active_universe := a, artnet_mappings := ms\<rparr>)"
    using False by (auto simp: DMX_removeUniverse_def Let_def a_def ms_def log_io_def)
  moreover have "dmx_inv (d\<lparr>universe_map := ?us, active_universe := a, artnet_mappings := ms\<rparr>)"
    using inv wf(2) act ms by (simp add: dmx_inv_def) (simp add: ms_def)
  ultimately show ?thesis by simp
qed

lemma change_priorities_same:
  "change_priorities E p us d = (ok, d') \<Longrightarrow>
   \<exists>es. d' = log_io es d \<and> es = map (\<lambda>u. SourcePriority (word_of_int u) (word_of_int p)) (takeWhile (change_priority_ok E) us) \<and>
     (ok \<longleftrightarrow> (\<forall>u \<in> set us. change_priority_ok E u))"
proof (induction us arbitrary: d)
  case Nil
  then show ?case by (simp add: log_io_def)
next
  case (Cons u us)
  show ?case
  proof (cases "change_priority_ok E u")
    case True
    then have "change_priorities E p us (log_io [SourcePriority (word_of_int u) (word_of_int p)] d) = (ok, d')"
      using Cons.prems by simp
    from Cons.IH[OF this] show ?thesis using True by (auto simp: log_io_def)
  next
    case False
    then show ?thesis using Cons.prems by (auto simp: log_io_def)
  qed
qed

lemma DMX_set_priority_inv: "dmx_inv d \<Longrightarrow> dmx_inv (snd (DMX_set_priority E p d))"
proof -
  assume inv: "dmx_inv d"
  obtain ok d1 where c: "change_priorities E p (map_keys (universe_map d)) d = (ok, d1)" by fastforce
  then obtain es where "d1 = log_io es d" using change_priorities_same by blast
  then have "dmx_inv d1" using inv by simp
  then show ?thesis using inv c by (auto simp: DMX_set_priority_def Let_def dmx_inv_def)
qed

lemma DMX_set_name_inv: "dmx_inv d \<Longrightarrow> dmx_inv (snd (DMX_set_name E n d))"
  by (simp add: DMX_set_name_def)

section \<open>Protocol code\<close>

text \<open>What serial and sACN code changes: neither the universes nor the Art-Net state.\<close>

definition same_config :: "dmx \<Rightarrow> dmx \<Rightarrow> bool" where
  "same_config d d' \<longleftrightarrow> universe_map d' = universe_map d \<and> active_universe d' = active_universe d \<and>
     sacn_priority d' = sacn_priority d \<and> source_name d' = source_name d \<and> the_protocol d' = the_protocol d \<and>
     artnet_mappings d' = artnet_mappings d \<and> artnet_node d' = artnet_node d \<and>
     artnet_initialized d' = artnet_initialized d"

lemma same_config_inv: "same_config d d' \<Longrightarrow> dmx_inv d' = dmx_inv d"
  by (simp add: same_config_def dmx_inv_def)

lemma same_config_trans: "same_config a b \<Longrightarrow> same_config b c \<Longrightarrow> same_config a c"
  by (simp add: same_config_def)

lemma same_config_refl [simp]: "same_config d d"
  by (simp add: same_config_def)

lemma same_config_log_io [simp]: "same_config d (log_io es d') = same_config d d'"
  by (simp add: same_config_def)

lemma same_config_closePort [simp]: "same_config d (closePort d') = same_config d d'"
  by (simp add: closePort_def same_config_def log_io_def)

lemma serial_same_config:
  "same_config d (snd (openPort E d))" "same_config d (closePort d)" "same_config d (snd (init_Serial E d))"
  "same_config d (deinit_Serial d)" "same_config d (snd (can_attempt_reconnect P E d))"
  by (auto simp: openPort_def closePort_def init_Serial_def deinit_Serial_def can_attempt_reconnect_def Let_def
      same_config_def split: prod.splits)

lemma serial_started:
  "sacn_started (snd (openPort E d)) = sacn_started d" "sacn_started (closePort d) = sacn_started d"
  "sacn_started (snd (init_Serial E d)) = sacn_started d" "sacn_started (deinit_Serial d) = sacn_started d"
  "sacn_started (snd (can_attempt_reconnect P E d)) = sacn_started d"
  by (auto simp: openPort_def closePort_def init_Serial_def deinit_Serial_def can_attempt_reconnect_def Let_def
      split: prod.splits)

lemma send_Serial_same:
  "same_config d (send_Serial P E snap proto d)" "sacn_started (send_Serial P E snap proto d) = sacn_started d"
proof -
  obtain ok d2 where ok: "(if serial_is_open d then (True, d)
      else case can_attempt_reconnect P E d of (may, d1) \<Rightarrow> if may then openPort E d1 else (False, d1)) = (ok, d2)"
    by fastforce
  have "same_config d d2 \<and> sacn_started d2 = sacn_started d"
    using ok serial_same_config(5)[of d P E] serial_started(5)[of P E d] serial_same_config(1)[of "snd (can_attempt_reconnect P E d)" E]
      serial_started(1)[of E "snd (can_attempt_reconnect P E d)"]
    by (auto split: if_splits prod.splits elim: same_config_trans)
  then show "same_config d (send_Serial P E snap proto d)" "sacn_started (send_Serial P E snap proto d) = sacn_started d"
    using serial_started(2) ok by (auto simp: send_Serial_def split: option.split)
qed

lemma add_source_universes_log:
  "add_source_universes E us d = (r, d') \<Longrightarrow> \<exists>es. d' = log_io es d"
proof (induction us arbitrary: d)
  case Nil
  then show ?case by (auto intro!: exI[of _ "[]"] simp: log_io_def)
next
  case (Cons u us)
  show ?case
  proof (cases "add_universe_result E u")
    case Returns_Ok
    then have "add_source_universes E us (log_io [SourceAdded (word_of_int u) (word_of_int (sacn_priority d))] d) = (r, d')"
      using Cons.prems by simp
    from Cons.IH[OF this] obtain es where
      "d' = log_io es (log_io [SourceAdded (word_of_int u) (word_of_int (sacn_priority d))] d)" by blast
    then show ?thesis
      by (intro exI[of _ "[SourceAdded (word_of_int u) (word_of_int (sacn_priority d))] @ es"]) (simp add: log_io_def)
  qed (use Cons.prems in \<open>auto intro!: exI[of _ "[]"] simp: log_io_def\<close>)
qed

section \<open>The reference count\<close>

definition lib_inv :: "dmx_platform \<Rightarrow> dmx_globals \<Rightarrow> bool" where
  "lib_inv P g \<longleftrightarrow> common_inv (sacn_features P) (sacn_lib g) \<and> sacn_ref_count g \<ge> 0 \<and>
     all_network_features_init_count (sacn_lib g) = (if sacn_ref_count g > 0 then 1 else 0) \<and>
     dmx_merger_feature_init_count (sacn_lib g) = (if sacn_ref_count g > 0 then 1 else 0)"

lemma sacn_global_init_effect:
  assumes inv: "lib_inv P g" and i: "sacn_global_init (sacn_features P) v g = (ok, g')"
  shows "lib_inv P g'" "sacn_ref_count g' = sacn_ref_count g + (if ok then 1 else 0)"
proof -
  have "lib_inv P g' \<and> sacn_ref_count g' = sacn_ref_count g + (if ok then 1 else 0)"
  proof (cases "sacn_ref_count g = 0")
    case False
    then show ?thesis using inv i by (auto simp: sacn_global_init_def lib_inv_def)
  next
    case True
    obtain err lib where l: "sacn_init_features (sacn_features P) v None SACN_FEATURES_ALL (sacn_lib g) = (err, lib)"
      by fastforce
    have c: "common_inv (sacn_features P) lib"
      using sacn_init_features_inv[of "sacn_features P" "sacn_lib g" v None SACN_FEATURES_ALL] inv l
      by (simp add: lib_inv_def)
    from l show ?thesis
    proof (cases rule: sacn_init_features_cases)
      case (ok qs)
      then show ?thesis using inv i True l c by (auto simp: sacn_global_init_def lib_inv_def)
    next
      case (failed qs p rest)
      then show ?thesis using inv i True l c by (auto simp: sacn_global_init_def lib_inv_def)
    qed
  qed
  then show "lib_inv P g'" "sacn_ref_count g' = sacn_ref_count g + (if ok then 1 else 0)" by auto
qed

lemma sacn_global_deinit_effect:
  assumes inv: "lib_inv P g" and pos: "sacn_ref_count g > 0"
  shows "lib_inv P (sacn_global_deinit (sacn_features P) g)"
    "sacn_ref_count (sacn_global_deinit (sacn_features P) g) = sacn_ref_count g - 1"
proof -
  show "sacn_ref_count (sacn_global_deinit (sacn_features P) g) = sacn_ref_count g - 1"
    using pos by (simp add: sacn_global_deinit_def Let_def)
  have "common_inv (sacn_features P) (sacn_deinit_features (sacn_features P) SACN_FEATURES_ALL (sacn_lib g))"
    using inv by (simp add: lib_inv_def sacn_deinit_features_inv)
  then show "lib_inv P (sacn_global_deinit (sacn_features P) g)"
    using inv pos by (auto simp: lib_inv_def sacn_global_deinit_def Let_def sacn_deinit_features_simps)
qed

definition started :: "dmx \<Rightarrow> int" where
  "started d = (if sacn_started d then 1 else 0)"

text \<open>One object's share of the count: an operation changes the count as it changes the share.\<close>

definition counted :: "dmx_platform \<Rightarrow> dmx_globals \<Rightarrow> dmx \<Rightarrow> dmx_globals \<Rightarrow> dmx \<Rightarrow> bool" where
  "counted P g d g' d' \<longleftrightarrow> lib_inv P g' \<and> sacn_ref_count g' - started d' = sacn_ref_count g - started d"

lemma deinit_sACN_counted:
  assumes "lib_inv P g" "started d \<le> sacn_ref_count g" "deinit_sACN P g d = (g', d')"
  shows "counted P g d g' d'" "\<not> sacn_started d'" "same_config d d'"
  using assms sacn_global_deinit_effect[OF assms(1)]
  by (auto simp: deinit_sACN_def started_def counted_def same_config_def split: if_splits)

lemma init_sACN_counted:
  assumes inv: "lib_inv P g" and n: "\<not> sacn_started d" and i: "init_sACN P E ks g d = (ok, g', d')"
  shows "counted P g d g' d'" "same_config d d'" "sacn_started d' = ok"
proof -
  obtain b g1 where b: "sacn_global_init (sacn_features P) (sacn_results E) g = (b, g1)" by fastforce
  note e = sacn_global_init_effect[OF inv b]
  have ge: "0 \<le> sacn_ref_count g" using inv by (simp add: lib_inv_def)
  obtain r d1 where a: "add_source_universes E ks (log_io [SourceStarted (source_name d)] d) = (r, d1)" by fastforce
  obtain es where "d1 = log_io es (log_io [SourceStarted (source_name d)] d)"
    using add_source_universes_log[OF a] by blast
  then have d1: "same_config d d1" "sacn_started d1 = sacn_started d" by simp_all
  have all: "counted P g d g' d' \<and> same_config d d' \<and> sacn_started d' = ok"
  proof (cases b)
    case False
    then show ?thesis using i b e n by (auto simp: init_sACN_def counted_def started_def)
  next
    case True
    then have pos: "sacn_ref_count g1 > 0" using e ge by simp
    note de = sacn_global_deinit_effect[OF e(1) pos]
    show ?thesis
      using i b True a n e de d1
      by (cases r) (auto simp: init_sACN_def counted_def started_def same_config_def split: if_splits)
  qed
  then show "counted P g d g' d'" "same_config d d'" "sacn_started d' = ok" by auto
qed

section \<open>Art-Net\<close>

text \<open>The ports that the loop configures from \<open>p\<close> on: what they are and the calls made for them.\<close>

definition ports_found :: "int \<Rightarrow> int list \<Rightarrow> int \<Rightarrow> (int \<times> int) list \<Rightarrow> io_event list \<Rightarrow> bool" where
  "ports_found s us p ms es \<longleftrightarrow> set (map fst ms) \<subseteq> set us \<and> distinct (map fst ms) \<and> distinct (map snd ms) \<and>
     (\<forall>(u, q) \<in> set ms. p \<le> q \<and> q < int ARTNET_MAX_PORTS \<and> artnet_subnet u = s \<and>
        NodePort q (word_of_int (artnet_address u)) \<in> set es)"

lemma ports_found_Nil: "ports_found s us p [] []"
  by (simp add: ports_found_def)

lemma ports_found_skip: "ports_found s us p ms es \<Longrightarrow> ports_found s (u # us) p ms es"
  by (auto simp: ports_found_def)

lemma ports_found_Cons:
  assumes "ports_found s us (p + 1) ms es" "u \<notin> set us" "artnet_subnet u = s" "p < int ARTNET_MAX_PORTS"
  shows "ports_found s (u # us) p ((u, p) # ms) (NodePort p (word_of_int (artnet_address u)) # es)"
proof -
  have "p \<notin> set (map snd ms)" using assms(1) by (force simp: ports_found_def)
  moreover have "u \<notin> set (map fst ms)" using assms(1,2) by (auto simp: ports_found_def)
  ultimately show ?thesis using assms by (force simp: ports_found_def)
qed

lemma map_artnet_ports_spec:
  "map_artnet_ports s us p d = d' \<Longrightarrow> distinct us \<Longrightarrow>
   \<exists>ms es. d' = log_io es (d\<lparr>artnet_mappings := artnet_mappings d @ ms\<rparr>) \<and> ports_found s us p ms es"
proof (induction us arbitrary: p d)
  case Nil
  then show ?case using ports_found_Nil by (auto intro!: exI[of _ "[]"] simp: log_io_def)
next
  case (Cons u us)
  show ?case
  proof (cases "p \<ge> int ARTNET_MAX_PORTS")
    case True
    then show ?thesis using Cons.prems ports_found_Nil by (auto intro!: exI[of _ "[]"] simp: log_io_def)
  next
    case p: False
    have us: "distinct us" "u \<notin> set us" using Cons.prems by simp_all
    show ?thesis
    proof (cases "artnet_subnet u = s")
      case False
      then have "map_artnet_ports s us p d = d'" using Cons.prems p by simp
      from Cons.IH[OF this us(1)] show ?thesis using ports_found_skip by blast
    next
      case True
      let ?e = "NodePort p (word_of_int (artnet_address u))"
      let ?d = "log_io [?e] (d\<lparr>artnet_mappings := artnet_mappings d @ [(u, p)]\<rparr>)"
      have "map_artnet_ports s us (p + 1) ?d = d'" using Cons.prems p True by simp
      from Cons.IH[OF this us(1)] obtain ms es where
        d': "d' = log_io es (?d\<lparr>artnet_mappings := artnet_mappings ?d @ ms\<rparr>)" and
        ms: "ports_found s us (p + 1) ms es"
        by blast
      have "d' = log_io (?e # es) (d\<lparr>artnet_mappings := artnet_mappings d @ (u, p) # ms\<rparr>)"
        using d' by (simp add: log_io_def)
      moreover have "ports_found s (u # us) p ((u, p) # ms) (?e # es)"
        using ports_found_Cons[OF ms us(2) True] p by simp
      ultimately show ?thesis by blast
    qed
  qed
qed

lemma deinit_ArtNet_effect:
  assumes "dmx_inv d"
  shows "dmx_inv (deinit_ArtNet d)" "\<not> artnet_initialized (deinit_ArtNet d)" "artnet_mappings (deinit_ArtNet d) = []"
    "universe_map (deinit_ArtNet d) = universe_map d" "sacn_started (deinit_ArtNet d) = sacn_started d"
    "the_protocol (deinit_ArtNet d) = the_protocol d" "active_universe (deinit_ArtNet d) = active_universe d"
  using assms by (auto simp: deinit_ArtNet_def dmx_inv_def)

lemma init_ArtNet_effect:
  assumes inv: "dmx_inv d" and n: "\<not> artnet_initialized d"
    and i: "init_ArtNet E (map_keys (universe_map d)) d = (ok, d')"
  shows "dmx_inv d'" "artnet_initialized d' = ok" "universe_map d' = universe_map d" "sacn_started d' = sacn_started d"
    "the_protocol d' = the_protocol d" "\<not> ok \<Longrightarrow> artnet_mappings d' = []"
proof -
  let ?ks = "map_keys (universe_map d)"
  define s where "s = artnet_subnet (hd ?ks)"
  define d1 where "d1 = log_io [NodeCreated, NodeNames (source_name d), NodeSubnet (word_of_int s)]
    (d\<lparr>artnet_node := True, artnet_mappings := []\<rparr>)"
  define d2 where "d2 = map_artnet_ports s ?ks 0 d1"
  have sorted: "sorted_wrt (<) ?ks" using inv by (simp add: dmx_inv_def map_ok_def map_wf_def)
  have "distinct ?ks" using sorted by (simp add: strict_sorted_iff)
  from map_artnet_ports_spec[OF d2_def[symmetric] this] obtain ms es where
    d2: "d2 = log_io es (d1\<lparr>artnet_mappings := artnet_mappings d1 @ ms\<rparr>)" and ms: "ports_found s ?ks 0 ms es"
    by blast
  have ports: "ports_ok (set ?ks) ms" using ms by (force simp: ports_ok_def ports_found_def)
  have eq: "(ok, d') = (if ?ks = [] then (False, d)
      else if \<not> artnet_new_ok E then (False, d\<lparr>artnet_node := False\<rparr>)
      else if \<not> artnet_start_ok E
           then (False, log_io [NodeDestroyed] (d2\<lparr>artnet_node := False, artnet_mappings := []\<rparr>))
           else (True, log_io [NodeStarted] (d2\<lparr>artnet_initialized := True\<rparr>)))"
    using i unfolding init_ArtNet_def Let_def s_def[symmetric] d1_def[symmetric] d2_def[symmetric] by simp
  show "dmx_inv d'" "artnet_initialized d' = ok" "universe_map d' = universe_map d" "sacn_started d' = sacn_started d"
    "the_protocol d' = the_protocol d" "\<not> ok \<Longrightarrow> artnet_mappings d' = []"
    using eq inv n ports by (auto simp: d2 d1_def dmx_inv_def split: if_splits)
qed

end
