(* ===== verification/DmxProcess.thy ===== *)
theory DmxProcess
  imports DmxPluginInv
begin

text \<open>
  The plugin's calls as an \<open>invariant_machine\<close>: every call of ChucK on any object keeps the
  invariant of the objects and the balance of the reference count (\<open>process_inv\<close>).
\<close>

section \<open>Initialization and sending\<close>

lemma counted_refl: "lib_inv P g \<Longrightarrow> started d' = started d \<Longrightarrow> counted P g d g d'"
  by (simp add: counted_def)

lemma counted_trans: "counted P g d g1 d1 \<Longrightarrow> counted P g1 d1 g2 d2 \<Longrightarrow> counted P g d g2 d2"
  by (simp add: counted_def)

lemma counted_same: "counted P g d g' d' \<Longrightarrow> started d'' = started d' \<Longrightarrow> counted P g d g' d''"
  by (simp add: counted_def)

lemma counted_from: "counted P g d g' d' \<Longrightarrow> started d0 = started d \<Longrightarrow> counted P g d0 g' d'"
  by (simp add: counted_def)

lemma counted_le: "counted P g d g' d' \<Longrightarrow> started d \<le> sacn_ref_count g \<Longrightarrow> started d' \<le> sacn_ref_count g'"
  by (simp add: counted_def)

lemma started_cong: "sacn_started d' = sacn_started d \<Longrightarrow> started d' = started d"
  by (simp add: started_def)

lemma deinit_all_effect:
  assumes "lib_inv P g" "started d \<le> sacn_ref_count g" "dmx_inv d" "deinit_all P g d = (g', d')"
  shows "counted P g d g' d'" "dmx_inv d'" "\<not> sacn_started d'" "\<not> artnet_initialized d'"
    "universe_map d' = universe_map d" "the_protocol d' = the_protocol d" "active_universe d' = active_universe d"
    "artnet_mappings d' = []"
proof -
  let ?s = "deinit_Serial d"
  have s: "same_config d ?s" "started ?s = started d"
    by (simp_all add: serial_same_config serial_started started_def)
  obtain g1 d1 where s1: "deinit_sACN P g ?s = (g1, d1)" by fastforce
  have c: "counted P g ?s g1 d1" "\<not> sacn_started d1" "same_config ?s d1"
    using deinit_sACN_counted[OF assms(1) _ s1] assms(2) s by simp_all
  have d1: "same_config d d1" using same_config_trans[OF s(1) c(3)] .
  then have i1: "dmx_inv d1" using same_config_inv assms(3) by blast
  note a = deinit_ArtNet_effect[OF i1]
  have eq: "g' = g1" "d' = deinit_ArtNet d1" using assms(4) s1 by (simp_all add: deinit_all_def)
  show "dmx_inv d'" "\<not> sacn_started d'" "\<not> artnet_initialized d'" "universe_map d' = universe_map d"
    "the_protocol d' = the_protocol d" "active_universe d' = active_universe d" "artnet_mappings d' = []"
    using a c(2) d1 by (simp_all add: eq same_config_def)
  show "counted P g d g' d'"
    unfolding eq by (rule counted_same[OF counted_from[OF c(1)] started_cong]) (use s a in simp_all)
qed

lemma DMX_init_effect:
  assumes l: "lib_inv P g" and le: "started d \<le> sacn_ref_count g" and inv: "dmx_inv d"
    and i: "DMX_init P E g d = (ok, g', d')"
  shows "counted P g d g' d'" "dmx_inv d'" "universe_map d' = universe_map d" "ok \<Longrightarrow> DMX_connected d'"
proof -
  obtain g1 d1 where a: "deinit_all P g d = (g1, d1)" by fastforce
  note e = deinit_all_effect[OF l le inv a]
  have l1: "lib_inv P g1" using e(1) by (simp add: counted_def)
  have all: "counted P g1 d1 g' d' \<and> dmx_inv d' \<and> universe_map d' = universe_map d \<and> (ok \<longrightarrow> DMX_connected d')"
  proof (cases "the_protocol d1")
    case SACN
    then have r: "init_sACN P E (map_keys (universe_map d)) g1 d1 = (ok, g', d')"
      using i a by (simp add: DMX_init_def Let_def)
    note c = init_sACN_counted[OF l1 e(3) r]
    show ?thesis using c same_config_inv[OF c(2)] e SACN by (simp add: same_config_def DMX_connected_def)
  next
    case ArtNet
    then obtain d2 where r: "init_ArtNet E (map_keys (universe_map d1)) d1 = (ok, d2)" "g' = g1" "d' = d2"
      using i a e(5) by (auto simp: DMX_init_def Let_def split: prod.splits)
    note c = init_ArtNet_effect[OF e(2,4) r(1)]
    have "counted P g1 d1 g1 d2" by (rule counted_refl[OF l1 started_cong[OF c(4)]])
    moreover have "DMX_connected d2 = ok" using c(2,5) ArtNet by (simp add: DMX_connected_def)
    moreover have "universe_map d2 = universe_map d" using c(3) e(5) by (rule trans)
    ultimately show ?thesis using c(1) unfolding r(2,3) by blast
  next
    case Serial_Raw
    then obtain d2 where r: "init_Serial E d1 = (ok, d2)" "g' = g1" "d' = d2"
      using i a by (auto simp: DMX_init_def Let_def split: prod.splits)
    have s: "same_config d1 d2" "sacn_started d2 = sacn_started d1" "ok \<longrightarrow> serial_initialized d2"
      using serial_same_config(3)[of d1 E] serial_started(3)[of E d1] r(1)
      by (auto simp: init_Serial_def split: if_splits prod.splits)
    have "counted P g1 d1 g1 d2" by (rule counted_refl[OF l1 started_cong[OF s(2)]])
    moreover have "dmx_inv d2" using same_config_inv[OF s(1)] e(2) by blast
    moreover have "universe_map d2 = universe_map d" using s(1) e(5) unfolding same_config_def by metis
    moreover have "ok \<longrightarrow> DMX_connected d2" using s(1,3) Serial_Raw by (simp add: DMX_connected_def same_config_def)
    ultimately show ?thesis unfolding r(2,3) by blast
  next
    case Serial
    then obtain d2 where r: "init_Serial E d1 = (ok, d2)" "g' = g1" "d' = d2"
      using i a by (auto simp: DMX_init_def Let_def split: prod.splits)
    have s: "same_config d1 d2" "sacn_started d2 = sacn_started d1" "ok \<longrightarrow> serial_initialized d2"
      using serial_same_config(3)[of d1 E] serial_started(3)[of E d1] r(1)
      by (auto simp: init_Serial_def split: if_splits prod.splits)
    have "counted P g1 d1 g1 d2" by (rule counted_refl[OF l1 started_cong[OF s(2)]])
    moreover have "dmx_inv d2" using same_config_inv[OF s(1)] e(2) by blast
    moreover have "universe_map d2 = universe_map d" using s(1) e(5) unfolding same_config_def by metis
    moreover have "ok \<longrightarrow> DMX_connected d2" using s(1,3) Serial by (simp add: DMX_connected_def same_config_def)
    ultimately show ?thesis unfolding r(2,3) by blast
  qed
  then show "counted P g d g' d'" "dmx_inv d'" "universe_map d' = universe_map d" "ok \<Longrightarrow> DMX_connected d'"
    using counted_trans[OF e(1)] by blast+
qed

text \<open>The sending loops only make calls.\<close>

lemma send_sacn_log: "send_sacn E snaps f d = (r, d') \<Longrightarrow> \<exists>es. d' = log_io es d"
proof (induction snaps arbitrary: f d)
  case Nil
  then show ?case by (auto intro!: exI[of _ "[]"] simp: log_io_def)
next
  case (Cons s snaps)
  obtain u x where s: "s = (u, x)" by fastforce
  show ?case
  proof (cases "update_levels_throws E u")
    case True
    then show ?thesis using Cons s by simp
  next
    case False
    then have "send_sacn E snaps f (log_io [SourceLevels (word_of_int u) (slot_data x)] d) = (r, d')"
      using Cons.prems s by simp
    from Cons.IH[OF this] obtain es where "d' = log_io es (log_io [SourceLevels (word_of_int u) (slot_data x)] d)" by blast
    then show ?thesis by (intro exI[of _ "SourceLevels (word_of_int u) (slot_data x) # es"]) (simp add: log_io_def)
  qed
qed

lemma send_artnet_log: "send_artnet E ps snaps f d = (r, d') \<Longrightarrow> \<exists>es. d' = log_io es d"
proof (induction snaps arbitrary: f d)
  case Nil
  then show ?case by (auto intro!: exI[of _ "[]"] simp: log_io_def)
next
  case (Cons s snaps)
  obtain u x where s: "s = (u, x)" by fastforce
  define p where "p = (case map_of ps u of None \<Rightarrow> -1 | Some p \<Rightarrow> p)"
  show ?case
  proof (cases "\<not> p < 0 \<and> artnet_node d \<and> artnet_send_ok E p")
    case False
    then obtain f' where "send_artnet E ps snaps f' d = (r, d')"
      using Cons.prems s by (auto simp: Let_def p_def[symmetric] split: if_splits)
    then show ?thesis by (rule Cons.IH)
  next
    case True
    then have "send_artnet E ps snaps f (log_io [NodeDmx p (slot_data x)] d) = (r, d')"
      using Cons.prems s by (simp add: Let_def p_def[symmetric])
    from Cons.IH[OF this] obtain es where "d' = log_io es (log_io [NodeDmx p (slot_data x)] d)" by blast
    then show ?thesis by (intro exI[of _ "NodeDmx p (slot_data x) # es"]) (simp add: log_io_def)
  qed
qed

lemma snapshot_keys: "map fst (snapshots d) = map_keys (universe_map d)"
  by (simp add: snapshots_def map_keys_def case_prod_beta)

lemma DMX_send_effect:
  assumes l: "lib_inv P g" and le: "started d \<le> sacn_ref_count g" and inv: "dmx_inv d"
    and i: "DMX_send P E g d = (g', d')"
  shows "counted P g d g' d'" "dmx_inv d'"
proof -
  define u where "u = update_fades P E d"
  have u: "dmx_inv u" "started u = started d" using update_fades_inv[OF inv]
    by (simp_all add: u_def) (simp add: update_fades_def started_def)
  have keys: "map fst (snapshots u) = map_keys (universe_map u)" by (rule snapshot_keys)
  have "counted P g u g' d' \<and> dmx_inv d'"
  proof (cases "the_protocol u")
    case SACN
    obtain f d1 where s: "send_sacn E (snapshots u) False u = (f, d1)" by fastforce
    obtain es where d1: "d1 = log_io es u" using send_sacn_log[OF s] by blast
    obtain may d2 where m: "can_attempt_reconnect P E d1 = (may, d2)" by fastforce
    have d2: "same_config d1 d2" "sacn_started d2 = sacn_started d1"
      using serial_same_config(5)[of d1 P E] serial_started(5)[of P E d1] m by simp_all
    obtain g1 d3 where de: "deinit_sACN P g d2 = (g1, d3)" by fastforce
    obtain ok g2 d4 where ini: "init_sACN P E (map_keys (universe_map u)) g1 d3 = (ok, g2, d4)" by (metis prod_cases3)
    have eq: "(g', d') = (if \<not> f then (g, d1) else if \<not> may then (g, d2) else (g2, d4))"
      using i SACN s m de ini by (cases f; cases may) (simp_all add: DMX_send_def Let_def u_def[symmetric] keys)
    have st: "started d1 = started u" "started d2 = started u" using d1 d2 by (simp_all add: started_def)
    have inv2: "dmx_inv d1" "dmx_inv d2" using u(1) d1 same_config_inv[OF d2(1)] by simp_all
    have "started d2 \<le> sacn_ref_count g" using le st u(2) by simp
    note c = deinit_sACN_counted[OF l this de]
    have l1: "lib_inv P g1" using c(1) by (simp add: counted_def)
    note c2 = init_sACN_counted[OF l1 c(2) ini]
    have "counted P g u g2 d4" using counted_from[OF counted_trans[OF c(1) c2(1)]] st by simp
    moreover have "dmx_inv d4" using inv2 same_config_inv[OF c(3)] same_config_inv[OF c2(2)] by simp
    moreover have "counted P g u g d1" "counted P g u g d2" using counted_refl[OF l] st by simp_all
    ultimately show ?thesis using eq inv2 by (auto split: if_splits)
  next
    case ArtNet
    obtain f d1 where s: "send_artnet E (artnet_mappings u) (snapshots u) False u = (f, d1)" by fastforce
    obtain es where d1: "d1 = log_io es u" using send_artnet_log[OF s] by blast
    obtain may d2 where m: "can_attempt_reconnect P E d1 = (may, d2)" by fastforce
    have d2: "same_config d1 d2" "sacn_started d2 = sacn_started d1"
      using serial_same_config(5)[of d1 P E] serial_started(5)[of P E d1] m by simp_all
    have st: "started d1 = started u" "started d2 = started u" using d1 d2 by (simp_all add: started_def)
    have inv2: "dmx_inv d1" "dmx_inv d2" using u(1) d1 same_config_inv[OF d2(1)] by simp_all
    note a = deinit_ArtNet_effect[OF inv2(2)]
    have um: "universe_map (deinit_ArtNet d2) = universe_map u" using a(4) d2(1) d1 by (simp add: same_config_def)
    obtain ok d3 where ini: "init_ArtNet E (map_keys (universe_map (deinit_ArtNet d2))) (deinit_ArtNet d2) = (ok, d3)"
      by fastforce
    note c = init_ArtNet_effect[OF a(1,2) ini]
    have eq: "(g', d') = (if \<not> f then (g, d1) else if \<not> may then (g, d2) else (g, d3))"
      using i ArtNet s m ini by (cases f; cases may) (simp_all add: DMX_send_def Let_def u_def[symmetric] keys um)
    have "started d3 = started u" using c(4) a(5) st(2) by (simp add: started_def)
    then have "counted P g u g d1" "counted P g u g d2" "counted P g u g d3" using counted_refl[OF l] st by simp_all
    then show ?thesis using eq inv2 c(1) by (auto split: if_splits)
  next
    case Serial_Raw
    show ?thesis
      using i Serial_Raw u(1) send_Serial_same[where d = u and P = P and E = E and proto = Serial_Raw] same_config_inv counted_refl[OF l started_cong]
        counted_refl[OF l refl]
      by (auto simp: DMX_send_def Let_def u_def[symmetric] split: option.splits)
  next
    case Serial
    show ?thesis
      using i Serial u(1) send_Serial_same[where d = u and P = P and E = E and proto = Serial] same_config_inv counted_refl[OF l started_cong]
        counted_refl[OF l refl]
      by (auto simp: DMX_send_def Let_def u_def[symmetric] split: option.splits)
  qed
  then show "counted P g d g' d'" "dmx_inv d'" using counted_from u(2) by metis+
qed

section \<open>Calls of ChucK\<close>

definition share :: "dmx option \<Rightarrow> int" where
  "share self = (case self of None \<Rightarrow> 0 | Some d \<Rightarrow> started d)"

definition object_ok :: "dmx option \<Rightarrow> bool" where
  "object_ok self = (case self of None \<Rightarrow> True | Some d \<Rightarrow> dmx_inv d)"

lemma share_simps [simp]: "share None = 0" "share (Some d) = started d"
  and object_ok_simps [simp]: "object_ok None" "object_ok (Some d) = dmx_inv d"
  by (simp_all add: share_def object_ok_def)

text \<open>A method that does not touch the library.\<close>

lemma map_option_call:
  assumes "\<And>d. dmx_inv d \<Longrightarrow> dmx_inv (f d)" "\<And>d. sacn_started (f d) = sacn_started d"
  shows "object_ok self \<Longrightarrow> object_ok (map_option f self)" "share (map_option f self) = share self"
  using assms by (cases self; simp add: started_def)+

lemma sacn_started_methods [simp]:
  "sacn_started (DMX_channel ch v d) = sacn_started d" "sacn_started (DMX_channel_uni u ch v d) = sacn_started d"
  "sacn_started (DMX_channels s vs m d) = sacn_started d" "sacn_started (DMX_blackout d) = sacn_started d"
  "sacn_started (DMX_fade E ch t ms d) = sacn_started d" "sacn_started (DMX_fade_uni E u ch t ms d) = sacn_started d"
  "sacn_started (snd (DMX_universe u d)) = sacn_started d" "sacn_started (snd (DMX_addUniverse E u d)) = sacn_started d"
  "sacn_started (snd (DMX_removeUniverse u d)) = sacn_started d" "sacn_started (snd (DMX_set_name E n d)) = sacn_started d"
  "sacn_started (DMX_set_protocol p d) = sacn_started d" "sacn_started (DMX_set_port n d) = sacn_started d"
  "sacn_started (DMX_debug k d) = sacn_started d"
  by (simp_all add: DMX_channel_def DMX_channel_uni_def DMX_channels_def DMX_blackout_def DMX_fade_def DMX_fade_uni_def
      DMX_universe_def DMX_addUniverse_def DMX_removeUniverse_def DMX_set_name_def DMX_set_protocol_def DMX_set_port_def
      DMX_debug_def Let_def)

lemma sacn_started_priority [simp]: "sacn_started (snd (DMX_set_priority E p d)) = sacn_started d"
proof -
  obtain ok d1 where c: "change_priorities E p (map_keys (universe_map d)) d = (ok, d1)" by fastforce
  then obtain es where "d1 = log_io es d" using change_priorities_same by blast
  then show ?thesis using c by (simp add: DMX_set_priority_def Let_def)
qed

lemma DMX_settings_inv:
  "dmx_inv d \<Longrightarrow> dmx_inv (DMX_set_protocol p d)" "dmx_inv d \<Longrightarrow> dmx_inv (DMX_set_port n d)"
  "dmx_inv d \<Longrightarrow> dmx_inv (DMX_debug k d)"
  by (simp_all add: DMX_set_protocol_def DMX_set_port_def DMX_debug_def)

lemmas method_invs = DMX_channel_inv DMX_channel_uni_inv DMX_channels_inv DMX_blackout_inv DMX_fade_inv
  DMX_fade_uni_inv DMX_universe_inv DMX_addUniverse_inv DMX_removeUniverse_inv DMX_set_priority_inv
  DMX_set_name_inv DMX_settings_inv

lemma chuck_call_counted:
  assumes l: "lib_inv P g" and ok: "object_ok self" and le: "share self \<le> sacn_ref_count g"
    and c: "chuck_call_effect P c g self = (r, g', self')"
  shows "lib_inv P g' \<and> object_ok self' \<and> sacn_ref_count g' - share self' = sacn_ref_count g - share self"
proof (cases self)
  case None
  then show ?thesis
    using c l DMX_ctor_inv
    by (cases c) (auto simp: dmx_ctor_def dmx_dtor_def dmx_protocol_def dmx_channel_def dmx_channel_uni_def
        dmx_channels_def dmx_init_def dmx_send_def dmx_blackout_def dmx_debug_def dmx_port_def dmx_universe_def
        dmx_add_universe_def dmx_remove_universe_def dmx_priority_def dmx_name_def dmx_fade_def dmx_fade_uni_def
        started_def DMX_ctor_def)
next
  case (Some d)
  then have inv: "dmx_inv d" and le': "started d \<le> sacn_ref_count g" using ok le by simp_all
  show ?thesis
  proof (cases c)
    case Delete
    obtain g1 d1 where a: "deinit_all P g d = (g1, d1)" by fastforce
    show ?thesis using deinit_all_effect(1,3)[OF l le' inv a] c Some Delete a
      by (auto simp: dmx_dtor_def counted_def started_def)
  next
    case (Init E)
    obtain b g1 d1 where a: "DMX_init P E g d = (b, g1, d1)" by (metis prod_cases3)
    show ?thesis using DMX_init_effect(1,2)[OF l le' inv a] c Some Init a by (auto simp: dmx_init_def counted_def)
  next
    case (Send E)
    obtain g1 d1 where a: "DMX_send P E g d = (g1, d1)" by fastforce
    show ?thesis using DMX_send_effect[OF l le' inv a] c Some Send a by (auto simp: dmx_send_def counted_def)
  next
    case (SetProtocol n)
    then show ?thesis using c Some l inv method_invs by (auto simp: dmx_protocol_def started_def)
  next
    case (SetChannels ch a)
    then show ?thesis using c Some l inv method_invs
      by (cases a) (auto simp: dmx_channels_def started_def Let_def split: if_splits)
  next
    case (Debug n)
    then show ?thesis using c Some l inv method_invs by (auto simp: dmx_debug_def started_def)
  next
    case (AddUniverse E u)
    obtain b d1 where a: "DMX_addUniverse E (to_int u) d = (b, d1)" by fastforce
    have "sacn_started d1 = sacn_started d" "dmx_inv d1"
      using sacn_started_methods(8)[of E "to_int u" d] DMX_addUniverse_inv[OF inv, of E "to_int u"] unfolding a by simp_all
    then show ?thesis using c Some l AddUniverse a by (auto simp: dmx_add_universe_def started_def)
  next
    case (RemoveUniverse u)
    obtain b d1 where a: "DMX_removeUniverse (to_int u) d = (b, d1)" by fastforce
    have "sacn_started d1 = sacn_started d" "dmx_inv d1"
      using sacn_started_methods(9)[of "to_int u" d] DMX_removeUniverse_inv[OF inv, of "to_int u"] unfolding a by simp_all
    then show ?thesis using c Some l RemoveUniverse a by (auto simp: dmx_remove_universe_def started_def)
  qed (use c Some l inv method_invs in \<open>auto simp: dmx_channel_def dmx_channel_uni_def dmx_blackout_def dmx_port_def
        dmx_universe_def dmx_priority_def dmx_name_def dmx_fade_def dmx_fade_uni_def started_def\<close>)
qed

section \<open>The process\<close>

definition process_inv :: "dmx_platform \<Rightarrow> process \<Rightarrow> bool" where
  "process_inv P w \<longleftrightarrow> lib_inv P (globals w) \<and> finite {i. objects w i \<noteq> None} \<and>
     (\<forall>i. object_ok (objects w i)) \<and>
     sacn_ref_count (globals w) = (\<Sum>i \<in> {i. objects w i \<noteq> None}. share (objects w i))"

lemma share_nonneg: "0 \<le> share self"
  by (simp add: share_def started_def split: option.split)

lemma chuck_exec_inv:
  assumes inv: "process_inv P w"
  shows "process_inv P (chuck_exec P c w)"
proof -
  let ?D = "{i. objects w i \<noteq> None}"
  obtain i cl where c: "c = (i, cl)" by fastforce
  obtain r g' self' where e: "chuck_call_effect P cl (globals w) (objects w i) = (r, g', self')" by (metis prod_cases3)
  have fin: "finite (insert i ?D)" using inv by (simp add: process_inv_def)
  have sum: "(\<Sum>j \<in> {j. o' j \<noteq> None}. share (o' j)) = (\<Sum>j \<in> insert i ?D. share (o' j))"
    if "{j. o' j \<noteq> None} \<subseteq> insert i ?D" for o' :: "nat \<Rightarrow> dmx option"
    by (rule sum.mono_neutral_left[OF fin that]) auto
  have ref: "sacn_ref_count (globals w) = share (objects w i) + (\<Sum>j \<in> ?D - {i}. share (objects w j))"
    using inv sum[of "objects w"] sum.insert_remove[OF finite_subset[OF _ fin], of ?D "\<lambda>j. share (objects w j)" i]
    by (auto simp: process_inv_def)
  have "0 \<le> (\<Sum>j \<in> ?D - {i}. share (objects w j))" by (rule sum_nonneg) (rule share_nonneg)
  then have le: "share (objects w i) \<le> sacn_ref_count (globals w)" using ref by simp
  have eff: "lib_inv P g'" "object_ok self'" "sacn_ref_count g' - share self' = sacn_ref_count (globals w) - share (objects w i)"
    using chuck_call_counted[OF _ _ le e] inv by (auto simp: process_inv_def)
  let ?o = "(objects w)(i := self')"
  have sub: "{j. ?o j \<noteq> None} \<subseteq> insert i ?D" by auto
  have "(\<Sum>j \<in> {j. ?o j \<noteq> None}. share (?o j)) = share self' + (\<Sum>j \<in> ?D - {i}. share (?o j))"
    unfolding sum[OF sub] using sum.insert_remove[OF finite_subset[OF _ fin], of ?D "\<lambda>j. share (?o j)" i] by auto
  also have "(\<Sum>j \<in> ?D - {i}. share (?o j)) = (\<Sum>j \<in> ?D - {i}. share (objects w j))"
    by (rule sum.cong) auto
  finally have "sacn_ref_count g' = (\<Sum>j \<in> {j. ?o j \<noteq> None}. share (?o j))" using eff(3) ref by simp
  moreover have "chuck_exec P c w = \<lparr>globals = g', objects = ?o\<rparr>" using e by (simp add: chuck_exec_def c)
  ultimately show ?thesis
    using inv eff finite_subset[OF sub fin] by (simp add: process_inv_def)
qed

lemma initial_process_inv: "process_inv P initial_process"
  by (simp add: process_inv_def initial_process_def lib_inv_def common_inv_def initial_sacn_state_def)

interpretation plugin_calls: invariant_machine "chuck_exec P" "process_inv P" "\<lambda>c. True" for P
  by unfold_locales (rule chuck_exec_inv)

lemma reachable_process: "process_inv P (fold (chuck_exec P) cs initial_process)"
  by (rule plugin_calls.run_inv[OF initial_process_inv]) (simp add: list_all_iff)

lemma reachable_object:
  "objects (fold (chuck_exec P) cs initial_process) i = Some d \<Longrightarrow> dmx_inv d"
  using reachable_process[of P cs] by (force simp: process_inv_def object_ok_def split: option.splits)

end
