(* ===== verification/DmxPluginProps.thy ===== *)
theory DmxPluginProps
  imports DmxProcess
begin

text \<open>
  What the plugin promises. The first properties hold in every state that calls of ChucK can
  reach; the others are about single calls on objects that satisfy \<open>dmx_inv\<close>, which every
  reachable object does (\<open>reachable_object\<close>).
\<close>

section \<open>Reading one channel\<close>

lemma universe_lookup:
  assumes "dmx_inv d" "map_of (universe_map d) u = Some ud"
  shows "universe_ok ud"
  using assms by (auto simp: dmx_inv_def map_ok_def)

lemma active_lookup:
  assumes "dmx_inv d"
  obtains ud where "map_of (universe_map d) (active_universe d) = Some ud" "universe_ok ud"
proof -
  have "map_of (universe_map d) (active_universe d) \<noteq> None" using assms by (simp add: dmx_inv_def map_of_None_keys)
  then show thesis using that universe_lookup[OF assms] by auto
qed

lemma get_channel_eq:
  "map_of (universe_map d) (active_universe d) = Some ud \<Longrightarrow> 1 \<le> ch \<Longrightarrow> ch \<le> 512 \<Longrightarrow>
   DMX_get_channel ch d = uint (dmx_data ud ! nat ch)"
  by (simp add: DMX_get_channel_def)

lemma clamp_range: "0 \<le> clamp_dmx v" "clamp_dmx v < 256" "0 \<le> v \<Longrightarrow> v \<le> 255 \<Longrightarrow> clamp_dmx v = v"
  by (auto simp: clamp_dmx_def)

lemma uint_clamp: "uint (word_of_int (clamp_dmx v) :: u8) = clamp_dmx v"
  using clamp_range(1,2)[of v] by (simp add: uint_word_of_int)

lemma to_int_id: "- (2 ^ 31) \<le> v \<Longrightarrow> v < 2 ^ 31 \<Longrightarrow> to_int v = v"
  unfolding to_int_def by (rule signed_take_bit_int_eq_self) simp_all

lemma channel_universe:
  assumes "map_of (universe_map d) (active_universe d) = Some ud" "1 \<le> ch" "ch \<le> 512"
  shows "map_of (universe_map (DMX_channel ch v d)) (active_universe d) =
      Some (store_channel (nat ch) (word_of_int (clamp_dmx v)) (cancel_fade (nat ch) ud))"
    "active_universe (DMX_channel ch v d) = active_universe d"
  using assms clamp_range(3)[of v] by (auto simp: DMX_channel_def Let_def map_of_modify)

section \<open>Properties\<close>

text \<open>
  C26: Whatever ChucK calls, on any number of objects, with any behaviour of the devices and
  libraries: every object has 1 to 64 universes in ascending order with numbers 1 to 63999, one
  of which is active; each universe has 513 bytes with start code 0, and its counter of active
  fades is exact; the priority is 0 to 200; at most 4 Art-Net ports are in use, each by one
  configured universe.
\<close>

theorem plugin_state_valid:
  assumes "objects (fold (chuck_exec P) cs initial_process) i = Some d"
  shows "0 < length (universe_map d) \<and> length (universe_map d) \<le> 64 \<and>
    sorted_wrt (<) (map_keys (universe_map d)) \<and> (\<forall>u \<in> set (map_keys (universe_map d)). 1 \<le> u \<and> u \<le> 63999) \<and>
    active_universe d \<in> set (map_keys (universe_map d)) \<and>
    (\<forall>(u, ud) \<in> set (universe_map d). length (dmx_data ud) = 513 \<and> dmx_data ud ! 0 = 0 \<and>
       active_fade_count ud = int (card {ch \<in> {1..512}. fade_active (fades ud ! ch)})) \<and>
    0 \<le> sacn_priority d \<and> sacn_priority d \<le> 200 \<and>
    length (artnet_mappings d) \<le> 4 \<and> distinct (map snd (artnet_mappings d)) \<and>
    set (map fst (artnet_mappings d)) \<subseteq> set (map_keys (universe_map d))"
proof -
  have inv: "dmx_inv d" using reachable_object[OF assms] .
  then have wf: "map_wf (universe_map d)" and ports: "ports_ok (set (map_keys (universe_map d))) (artnet_mappings d)"
    by (simp_all add: dmx_inv_def map_ok_def)
  have ne: "0 < length (universe_map d)" using inv by (cases "universe_map d") (auto simp: dmx_inv_def)
  have univ: "length (dmx_data ud) = 513 \<and> dmx_data ud ! 0 = 0 \<and>
      active_fade_count ud = int (card {ch \<in> {1..512}. fade_active (fades ud ! ch)})" if "(u, ud) \<in> set (universe_map d)" for u ud
  proof -
    have ok: "universe_ok ud" using that universe_lookup[OF inv] map_wf_of_mem[OF wf] by blast
    have "active_fades (fades ud) = card {ch. ch < length (fades ud) \<and> fade_active (fades ud ! ch)}"
      by (simp add: active_fades_def length_filter_conv_card)
    also have "{ch. ch < length (fades ud) \<and> fade_active (fades ud ! ch)} = {ch \<in> {1..512}. fade_active (fades ud ! ch)}"
    proof -
      have "1 \<le> ch" if "fade_active (fades ud ! ch)" for ch using that ok by (cases ch) (auto simp: universe_ok_def)
      then show ?thesis using ok by (auto simp: universe_ok_def)
    qed
    finally show ?thesis using ok by (simp add: universe_ok_def)
  qed
  have "length (artnet_mappings d) = card (set (map snd (artnet_mappings d)))"
    using ports distinct_card[of "map snd (artnet_mappings d)"] by (simp add: ports_ok_def)
  also have "\<dots> \<le> card {0..<int ARTNET_MAX_PORTS}"
    by (rule card_mono) (use ports in \<open>auto simp: ports_ok_def\<close>)
  finally have "length (artnet_mappings d) \<le> 4" by (simp add: ARTNET_MAX_PORTS_def)
  then show ?thesis
    using inv wf ports ne univ by (auto simp: dmx_inv_def map_ok_def map_wf_def MAX_UNIVERSES_def ports_ok_def)
qed

definition demo_platform :: dmx_platform where
  "demo_platform = \<lparr>steady_clock = \<lparr>rnd = (\<lambda>x. x), ticks_per_ms = 1000000\<rparr>, sacn_features = example_features\<rparr>"

definition demo_env :: call_env where
  "demo_env = \<lparr>fade_now = 5000000000, reconnect_now = 5000000000, serial_opens = True, serial_throws_after = None,
     sacn_results = all_succeed, uuid_result = Returns_Ok, startup_result = Returns_Ok,
     add_universe_result = (\<lambda>_. Returns_Ok), change_priority_ok = (\<lambda>_. True), change_name_ok = True,
     update_levels_throws = (\<lambda>_. False), artnet_new_ok = True, artnet_start_ok = True, artnet_send_ok = (\<lambda>_. True)\<rparr>"

theorem plugin_state_valid_witness:
  "\<exists>d. objects (fold (chuck_exec demo_platform) [(0, New), (0, SetUniverse 7)] initial_process) 0 = Some d \<and>
     active_universe d = 7 \<and> length (universe_map d) \<le> 64"
proof -
  have "objects (fold (chuck_exec demo_platform) [(0, New), (0, SetUniverse 7)] initial_process) 0 =
      Some (snd (DMX_universe 7 DMX_ctor))"
    by (simp add: chuck_exec_def dmx_ctor_def dmx_universe_def initial_process_def to_int_def)
  then show ?thesis
    using plugin_state_valid[of demo_platform "[(0, New), (0, SetUniverse 7)]" 0 "snd (DMX_universe 7 DMX_ctor)"]
    by (simp add: DMX_universe_def DMX_ctor_def MAX_UNIVERSES_def)
qed

text \<open>
  C27: The process-wide reference count is right: it equals the number of objects with sACN
  running, whatever fails on the way; the parts of the sACN library are running exactly when
  that number is positive, and the library itself is never initialized more than once, so the
  last object that stops releases it.
\<close>

theorem library_running_iff_used:
  "let w = fold (chuck_exec P) cs initial_process;
       users = {i. \<exists>d. objects w i = Some d \<and> sacn_started d} in
   finite users \<and> sacn_ref_count (globals w) = int (card users) \<and>
   running (trace (sacn_lib (globals w))) =
     (if users = {} then {} else set (network_parts (sacn_features P)) \<union> set (merger_parts (sacn_features P))) \<and>
   all_network_features_init_count (sacn_lib (globals w)) = (if users = {} then 0 else 1)"
proof -
  define w where "w = fold (chuck_exec P) cs initial_process"
  define U where "U = {i. \<exists>d. objects w i = Some d \<and> sacn_started d}"
  have inv: "process_inv P w" unfolding w_def by (rule reachable_process)
  let ?D = "{i. objects w i \<noteq> None}"
  have fin: "finite ?D" "U \<subseteq> ?D" using inv by (auto simp: process_inv_def U_def)
  have "(\<Sum>i \<in> ?D. share (objects w i)) = (\<Sum>i \<in> U. share (objects w i))"
    by (rule sum.mono_neutral_right[OF fin]) (auto simp: U_def started_def split: if_splits)
  also have "\<dots> = (\<Sum>i \<in> U. 1)" by (rule sum.cong) (auto simp: U_def started_def)
  finally have ref: "sacn_ref_count (globals w) = int (card U)" using inv by (simp add: process_inv_def)
  have finU: "finite U" using fin finite_subset by blast
  have pos: "sacn_ref_count (globals w) > 0 \<longleftrightarrow> U \<noteq> {}" using ref finU by (simp add: card_gt_0_iff)
  have l: "lib_inv P (globals w)" using inv by (simp add: process_inv_def)
  show ?thesis
    unfolding Let_def w_def[symmetric] U_def[symmetric]
    using l pos ref finU by (simp add: lib_inv_def common_inv_def)
qed

text \<open>
  C28: A channel that ChucK sets reads back as the value, cast to \<open>int\<close> and then clamped to 0-255;
  the other channels of the universe keep their values, a fade of the channel is cancelled, and
  the next update of the fades leaves the value alone.
\<close>

theorem channel_set_get:
  assumes "dmx_inv d" "1 \<le> ch" "ch \<le> 512"
  shows "let d' = the (snd (dmx_channel ch v (Some d))) in
    dmx_get_channel ch (Some d') = VInt (clamp_dmx (to_int v)) \<and>
    (\<forall>c. c \<noteq> ch \<longrightarrow> DMX_get_channel c d' = DMX_get_channel c d) \<and>
    dmx_get_channel ch (Some (update_fades P E d')) = VInt (clamp_dmx (to_int v)) \<and>
    (0 \<le> v \<and> v \<le> 255 \<longrightarrow> dmx_get_channel ch (Some d') = VInt v)"
proof -
  obtain ud where ud: "map_of (universe_map d) (active_universe d) = Some ud" "universe_ok ud"
    using active_lookup[OF assms(1)] .
  have ch: "to_int ch = ch" using assms by (intro to_int_id) simp_all
  define d' where "d' = DMX_channel ch (to_int v) d"
  let ?ud' = "store_channel (nat ch) (word_of_int (clamp_dmx (to_int v))) (cancel_fade (nat ch) ud)"
  have d': "map_of (universe_map d') (active_universe d') = Some ?ud'" "active_universe d' = active_universe d"
    using channel_universe[OF ud(1) assms(2,3), of "to_int v"] by (simp_all add: d'_def)
  have len: "length (dmx_data ud) = 513" "nat ch < 513" "1 \<le> nat ch" using ud(2) assms by (auto simp: universe_ok_def)
  have get: "DMX_get_channel ch d' = clamp_dmx (to_int v)"
    using get_channel_eq[OF d'(1) assms(2,3)] len by (simp add: uint_clamp)
  have other: "DMX_get_channel c d' = DMX_get_channel c d" if "c \<noteq> ch" for c
    using that d' ud(1) len by (auto simp: DMX_get_channel_def nth_list_update)
  have inactive: "\<not> fade_active (fades ?ud' ! nat ch)"
    using cancel_fade_nth[of "nat ch" ud "nat ch"] ud(2) len by (simp add: universe_ok_def)
  have ok': "universe_ok ?ud'" using ud(2) len by (intro store_channel_ok cancel_fade_ok) auto
  have "map_of (universe_map (update_fades P E d')) (active_universe d') =
      Some (update_universe_fades (steady_clock P) (fade_now E) ?ud')"
    using d' by (simp add: update_fades_def)
  moreover have "dmx_data (update_universe_fades (steady_clock P) (fade_now E) ?ud') ! nat ch = dmx_data ?ud' ! nat ch"
    using update_universe_fades_slot[OF ok' len(3,2)] inactive by (simp add: slot_view_def Let_def)
  ultimately have "DMX_get_channel ch (update_fades P E d') = clamp_dmx (to_int v)"
    using get assms d' by (simp add: DMX_get_channel_def update_fades_def)
  moreover have "clamp_dmx (to_int v) = v" if "0 \<le> v" "v \<le> 255"
    using that to_int_id[of v] clamp_range(3)[of v] by simp
  ultimately show ?thesis
    using get other by (simp add: Let_def dmx_channel_def dmx_get_channel_def ch d'_def)
qed

theorem channel_set_get_witness:
  "dmx_get_channel 10 (snd (dmx_channel 10 300 (Some DMX_ctor))) = VInt 255 \<and>
   dmx_get_channel 10 (snd (dmx_channel 10 4294967296 (Some DMX_ctor))) = VInt 0"
  using channel_set_get[OF DMX_ctor_inv, of 10 300] channel_set_get[OF DMX_ctor_inv, of 10 4294967296]
  by (simp add: Let_def dmx_channel_def to_int_def clamp_dmx_def)

section \<open>Fades\<close>

lemma update_fades_lookup:
  "map_of (universe_map (update_fades P E d)) u =
   map_option (update_universe_fades (steady_clock P) (fade_now E)) (map_of (universe_map d) u)"
  by (simp add: update_fades_def)

lemma fade_value_range:
  assumes "double_laws (rnd C)" "0 \<le> e" "e \<le> fade_duration f" "0 < fade_duration f" "fade_duration f \<le> 2 ^ 53"
  shows "uint (word_of_int (clamp_dmx (fade_interp C f e)) :: u8) = fade_interp C f e"
proof -
  have "0 \<le> uint (start_value f)" "0 \<le> uint (target_value f)" "uint (start_value f) < 256" "uint (target_value f) < 256"
    using uint_lt2p[of "start_value f"] uint_lt2p[of "target_value f"] by simp_all
  then have "0 \<le> min (uint (start_value f)) (uint (target_value f))"
    "max (uint (start_value f)) (uint (target_value f)) < 256"
    by auto
  then have "0 \<le> fade_interp C f e" "fade_interp C f e \<le> 255"
    using fade_interp_bounds[OF assms] by linarith+
  then show ?thesis unfolding uint_clamp using clamp_range(3) by simp
qed

lemma elapsed_mono:
  assumes "0 < ticks_per_ms C" "start \<le> now1" "now1 \<le> now2"
  shows "0 \<le> duration_cast_ms C (now1 - start)" "duration_cast_ms C (now1 - start) \<le> duration_cast_ms C (now2 - start)"
  using assms by (auto simp: duration_cast_ms_def pos_imp_zdiv_nonneg_iff intro: zdiv_mono1)

text \<open>
  C29: A fade in progress (of a duration that an \<open>int\<close> can hold) moves from its start value to its
  target without leaving the range between them and without going back, on IEEE doubles with
  their rounding: of two updates, the later one is at least as near to the target; from the end
  of the duration on the channel has exactly the target value and the fade is over.
\<close>

theorem fade_progress:
  assumes laws: "double_laws (rnd (steady_clock P))" "0 < ticks_per_ms (steady_clock P)"
    and inv: "dmx_inv d" and ud: "map_of (universe_map d) u = Some ud"
    and ch: "1 \<le> ch" "ch \<le> 512" and active: "fade_active (fades ud ! ch)" "fade_duration (fades ud ! ch) < 2 ^ 31"
    and time: "start_time (fades ud ! ch) \<le> fade_now E1" "fade_now E1 \<le> fade_now E2"
  shows "let f = fades ud ! ch;
      ud1 = the (map_of (universe_map (update_fades P E1 d)) u);
      ud2 = the (map_of (universe_map (update_fades P E2 (update_fades P E1 d))) u) in
    (start_value f \<le> target_value f \<longrightarrow>
       start_value f \<le> dmx_data ud1 ! ch \<and> dmx_data ud1 ! ch \<le> dmx_data ud2 ! ch \<and> dmx_data ud2 ! ch \<le> target_value f) \<and>
    (target_value f \<le> start_value f \<longrightarrow>
       target_value f \<le> dmx_data ud2 ! ch \<and> dmx_data ud2 ! ch \<le> dmx_data ud1 ! ch \<and> dmx_data ud1 ! ch \<le> start_value f) \<and>
    (duration_cast_ms (steady_clock P) (fade_now E1 - start_time f) \<ge> fade_duration f \<longrightarrow>
       dmx_data ud1 ! ch = target_value f \<and> \<not> fade_active (fades ud1 ! ch))"
proof -
  define C where "C = steady_clock P"
  define f where "f = fades ud ! ch"
  define e1 where "e1 = duration_cast_ms C (fade_now E1 - start_time f)"
  define e2 where "e2 = duration_cast_ms C (fade_now E2 - start_time f)"
  define ud1 where "ud1 = update_universe_fades C (fade_now E1) ud"
  define ud2 where "ud2 = update_universe_fades C (fade_now E2) ud1"
  note r = laws(1)[folded C_def]
  have ok: "universe_ok ud" using universe_lookup[OF inv ud] .
  have ok1: "universe_ok ud1" unfolding ud1_def by (rule update_universe_fades_ok[OF ok])
  have ch': "ch < 513" using ch by simp
  have look: "the (map_of (universe_map (update_fades P E1 d)) u) = ud1"
    "the (map_of (universe_map (update_fades P E2 (update_fades P E1 d))) u) = ud2"
    by (simp_all add: update_fades_lookup ud ud1_def ud2_def C_def)
  have e: "0 \<le> e1" "e1 \<le> e2"
    using elapsed_mono[OF laws(2)] time unfolding e1_def e2_def C_def f_def by blast+
  have dur: "0 < fade_duration f" "fade_duration f \<le> 2 ^ 53"
    using ok ch active by (auto simp: universe_ok_def f_def)
  have s1: "slot_view ud1 ch = (if e1 \<ge> fade_duration f then (target_value f, f\<lparr>fade_active := False\<rparr>)
      else (word_of_int (clamp_dmx (fade_interp C f e1)), f))"
    using update_universe_fades_slot[OF ok ch(1) ch', of C "fade_now E1"] active
    by (simp add: ud1_def Let_def f_def[symmetric] e1_def)
  have s2: "dmx_data ud2 ! ch = (if e2 \<ge> fade_duration f then target_value f
      else word_of_int (clamp_dmx (fade_interp C f e2)))"
  proof (cases "e1 \<ge> fade_duration f")
    case True
    then have "fades ud1 ! ch = f\<lparr>fade_active := False\<rparr>" "dmx_data ud1 ! ch = target_value f" using s1 by (simp_all add: slot_view_def)
    then show ?thesis
      using update_universe_fades_slot[OF ok1 ch(1) ch', of C "fade_now E2"] True e
      by (simp add: ud2_def Let_def slot_view_def)
  next
    case False
    then have "fades ud1 ! ch = f" using s1 by (simp add: slot_view_def)
    then show ?thesis
      using update_universe_fades_slot[OF ok1 ch(1) ch', of C "fade_now E2"] active
      by (simp add: ud2_def Let_def slot_view_def f_def[symmetric] e2_def[symmetric] split: if_splits)
  qed
  have v1: "dmx_data ud1 ! ch = (if e1 \<ge> fade_duration f then target_value f
      else word_of_int (clamp_dmx (fade_interp C f e1)))"
    "e1 \<ge> fade_duration f \<Longrightarrow> \<not> fade_active (fades ud1 ! ch)"
    using s1 by (auto simp: slot_view_def)
  have i: "uint (word_of_int (clamp_dmx (fade_interp C f k)) :: u8) = fade_interp C f k"
    "min (uint (start_value f)) (uint (target_value f)) \<le> fade_interp C f k"
    "fade_interp C f k \<le> max (uint (start_value f)) (uint (target_value f))"
    if "0 \<le> k" "k < fade_duration f" for k
    using fade_value_range[OF r _ _ dur] fade_interp_bounds[OF r _ _ dur] that by auto
  have up: "start_value f \<le> dmx_data ud1 ! ch \<and> dmx_data ud1 ! ch \<le> dmx_data ud2 ! ch \<and> dmx_data ud2 ! ch \<le> target_value f"
    if "start_value f \<le> target_value f"
    using that i[of e1] i[of e2] e v1(1) s2 fade_interp_mono(1)[OF r e _ dur that]
    by (auto simp: word_le_def not_le)
  have down: "target_value f \<le> dmx_data ud2 ! ch \<and> dmx_data ud2 ! ch \<le> dmx_data ud1 ! ch \<and> dmx_data ud1 ! ch \<le> start_value f"
    if "target_value f \<le> start_value f"
    using that i[of e1] i[of e2] e v1(1) s2 fade_interp_mono(2)[OF r e _ dur that]
    by (auto simp: word_le_def not_le)
  show ?thesis
    unfolding Let_def look f_def[symmetric] C_def[symmetric] e1_def[symmetric] using up down v1 by auto
qed

lemma demo_double_laws: "double_laws (\<lambda>x. x)"
  by (simp add: double_laws_def mono_def)

lemma DMX_ctor_universe: "map_of (universe_map (DMX_fade E 3 t ms DMX_ctor)) 1 =
    (if ms \<le> 0 then Some (store_channel 3 (word_of_int (clamp_dmx t)) (cancel_fade 3 UniverseData))
     else Some (start_fade (fade_now E) 3 (clamp_dmx t) ms UniverseData))"
  using channel_universe[of DMX_ctor UniverseData 3 "clamp_dmx t"] clamp_range[of t] clamp_range(3)[of "clamp_dmx t"]
  by (simp add: DMX_fade_def DMX_ctor_def map_of_modify)

theorem fade_progress_witness:
  "let d = DMX_fade demo_env 3 200 1000 DMX_ctor;
       half = update_fades demo_platform (demo_env\<lparr>fade_now := 5500000000\<rparr>) d;
       full = update_fades demo_platform (demo_env\<lparr>fade_now := 6000000000\<rparr>) half in
   dmx_data (the (map_of (universe_map half) 1)) ! 3 \<le> dmx_data (the (map_of (universe_map full) 1)) ! 3 \<and>
   dmx_data (the (map_of (universe_map full) 1)) ! 3 \<le> 200"
proof -
  let ?f = "start_fade 5000000000 3 200 1000 UniverseData"
  have ud: "map_of (universe_map (DMX_fade demo_env 3 200 1000 DMX_ctor)) 1 = Some ?f"
    using DMX_ctor_universe[of demo_env 200 1000] by (simp add: demo_env_def clamp_dmx_def)
  have fade: "fades ?f ! 3 = \<lparr>fade_active = True, start_value = 0, target_value = 200, start_time = 5000000000, fade_duration = 1000\<rparr>"
    by (simp add: start_fade_def UniverseData_def)
  have inv: "dmx_inv (DMX_fade demo_env 3 200 1000 DMX_ctor)" by (rule DMX_fade_inv[OF DMX_ctor_inv])
  show ?thesis
    using fade_progress[of demo_platform, OF _ _ inv ud, of 3 "demo_env\<lparr>fade_now := 5500000000\<rparr>" "demo_env\<lparr>fade_now := 6000000000\<rparr>"]
      demo_double_laws fade
    by (simp add: Let_def demo_platform_def)
qed

section \<open>Universes\<close>

text \<open>
  A blackout sets every channel of every universe to 0 and ends every fade, so the following
  updates of the fades leave all channels at 0.
\<close>

theorem blackout_stays_dark:
  assumes "dmx_inv d" "map_of (universe_map (fold (update_fades P) Es (DMX_blackout d))) u = Some ud"
  shows "dmx_data ud = replicate 513 0 \<and> active_fade_count ud = 0 \<and>
    map_of (universe_map d) u \<noteq> None"
proof -
  define b where "b = DMX_blackout d"
  have dark: "map_of (universe_map b) v = Some x \<Longrightarrow> dmx_data x = replicate 513 0 \<and> active_fade_count x = 0" for v x
    using blackout_universe_effect[OF universe_lookup[OF assms(1)]] by (auto simp: b_def DMX_blackout_def)
  have "fold (update_fades P) Es b = b"
  proof (induction Es)
    case (Cons E Es)
    have "update_universe_fades (steady_clock P) (fade_now E) x = x" if "(v, x) \<in> set (universe_map b)" for v x
    proof -
      have "map_wf (universe_map b)" using DMX_blackout_inv[OF assms(1)] by (simp add: b_def dmx_inv_def map_ok_def)
      then have "map_of (universe_map b) v = Some x" using that map_wf_of_mem by metis
      then have "active_fade_count x = 0" using dark by simp
      then show ?thesis by (simp add: update_universe_fades_def)
    qed
    then have "map_all (update_universe_fades (steady_clock P) (fade_now E)) (universe_map b) = universe_map b"
      unfolding map_all_def by (intro map_idI) auto
    then have "update_fades P E b = b" by (simp add: update_fades_def)
    then show ?case using Cons by simp
  qed simp
  then have u: "map_of (universe_map b) u = Some ud" using assms(2) by (simp add: b_def)
  then have "map_of (universe_map d) u \<noteq> None" by (auto simp: b_def DMX_blackout_def)
  then show ?thesis using dark[OF u] by simp
qed

theorem blackout_stays_dark_witness:
  "dmx_data (the (map_of (universe_map (update_fades demo_platform demo_env (DMX_blackout DMX_ctor))) 1)) =
     replicate 513 0"
proof -
  have "map_of (universe_map (fold (update_fades demo_platform) [demo_env] (DMX_blackout DMX_ctor))) 1 \<noteq> None"
    by (simp add: DMX_blackout_def DMX_ctor_def update_fades_def)
  then obtain ud where "map_of (universe_map (fold (update_fades demo_platform) [demo_env] (DMX_blackout DMX_ctor))) 1 = Some ud"
    by blast
  then show ?thesis using blackout_stays_dark[OF DMX_ctor_inv, of demo_platform "[demo_env]" 1] by auto
qed

text \<open>The universes of the live sACN source, from the calls made on it.\<close>

fun live_universes :: "io_event list \<Rightarrow> u16 set" where
  "live_universes [] = {}"
| "live_universes (SourceStarted n # es) = {}"
| "live_universes (SourceShutdown # es) = {}"
| "live_universes (SourceAdded u p # es) = insert u (live_universes es)"
| "live_universes (SourceRemoved u # es) = live_universes es - {u}"
| "live_universes (e # es) = live_universes es"

definition in_sync :: "dmx \<Rightarrow> bool" where
  "in_sync d \<longleftrightarrow> live_universes (io d) = word_of_int ` set (map_keys (universe_map d))"

lemma universe_word_inj:
  "1 \<le> u \<Longrightarrow> u \<le> 63999 \<Longrightarrow> 1 \<le> v \<Longrightarrow> v \<le> 63999 \<Longrightarrow> (word_of_int u :: u16) = word_of_int v \<longleftrightarrow> u = v"
  by (simp add: word_of_int_eq_iff take_bit_int_eq_self)

lemma add_source_universes_ok:
  "add_source_universes E us d = (Returns_Ok, d') \<Longrightarrow>
   live_universes (io d') = live_universes (io d) \<union> word_of_int ` set us"
proof (induction us arbitrary: d)
  case (Cons u us)
  let ?d = "log_io [SourceAdded (word_of_int u) (word_of_int (sacn_priority d))] d"
  have "add_source_universes E us ?d = (Returns_Ok, d')" using Cons.prems by (auto split: call_result.splits)
  from Cons.IH[OF this] show ?case by auto
qed simp

text \<open>
  C30: While sACN runs, adding and removing universes keeps the live source in step with the
  object's universes, as starting it does. Selecting a universe that does not exist creates it,
  but does not add it to the live source: from then on its levels are sent to a source that has
  no such universe.
\<close>

theorem live_universes_in_step:
  assumes inv: "dmx_inv d" and started: "sacn_started d" "in_sync d"
  shows "in_sync (snd (DMX_addUniverse E u d)) \<and> in_sync (snd (DMX_removeUniverse u d)) \<and>
    (init_sACN P E (map_keys (universe_map d0)) g d0 = (True, g', d1) \<longrightarrow> in_sync d1) \<and>
    (1 \<le> u \<and> u \<le> 63999 \<and> u \<notin> set (map_keys (universe_map d)) \<and> length (universe_map d) < MAX_UNIVERSES \<longrightarrow>
       fst (DMX_universe u d) \<and> \<not> in_sync (snd (DMX_universe u d)))"
proof (intro conjI impI)
  let ?K = "set (map_keys (universe_map d))"
  have range: "\<forall>k \<in> ?K. 1 \<le> k \<and> k \<le> 63999" using inv by (simp add: dmx_inv_def map_ok_def)
  show "in_sync (snd (DMX_addUniverse E u d))"
    using started
    by (auto simp: DMX_addUniverse_def Let_def in_sync_def set_map_insert map_of_None_keys map_erase_insert)
  show "in_sync (snd (DMX_removeUniverse u d))"
  proof (cases "map_of (universe_map d) u = None \<or> length (universe_map d) \<le> 1")
    case True
    then show ?thesis using started by (auto simp: DMX_removeUniverse_def)
  next
    case False
    then have u: "u \<in> ?K" by (simp add: map_of_None_keys)
    have "word_of_int ` ?K - {word_of_int u :: u16} = word_of_int ` (?K - {u})"
      using range u universe_word_inj by (auto simp: image_iff)
    moreover have "set (map_keys (map_erase u (universe_map d))) = ?K - {u}" by auto
    moreover have "io (snd (DMX_removeUniverse u d)) = SourceRemoved (word_of_int u) # io d"
      "universe_map (snd (DMX_removeUniverse u d)) = map_erase u (universe_map d)"
      using False started(1) by (auto simp: DMX_removeUniverse_def Let_def)
    ultimately show ?thesis using started(2) by (simp add: in_sync_def)
  qed
  show "in_sync d1" if i: "init_sACN P E (map_keys (universe_map d0)) g d0 = (True, g', d1)"
  proof -
    obtain b g1 where b: "sacn_global_init (sacn_features P) (sacn_results E) g = (b, g1)" by fastforce
    obtain r d2 where a: "add_source_universes E (map_keys (universe_map d0)) (log_io [SourceStarted (source_name d0)] d0) = (r, d2)"
      by fastforce
    have r: "r = Returns_Ok" "d1 = d2\<lparr>sacn_started := True\<rparr>"
      using i b a by (auto simp: init_sACN_def split: if_splits call_result.splits)
    have "universe_map d2 = universe_map d0" using add_source_universes_log[OF a] by auto
    then show ?thesis using add_source_universes_ok[of E _ _ d2] a r by (simp add: in_sync_def)
  qed
  assume u: "1 \<le> u \<and> u \<le> 63999 \<and> u \<notin> ?K \<and> length (universe_map d) < MAX_UNIVERSES"
  then have e: "DMX_universe u d =
      (True, d\<lparr>universe_map := map_insert u UniverseData (universe_map d), active_universe := u\<rparr>)"
    by (simp add: DMX_universe_def map_of_None_keys)
  show "fst (DMX_universe u d)" using e by simp
  have "word_of_int u \<notin> (word_of_int ` ?K :: u16 set)" using u range universe_word_inj by auto
  then show "\<not> in_sync (snd (DMX_universe u d))"
    using started(2) e by (auto simp: in_sync_def set_map_insert)
qed

definition demo_started :: dmx where
  "demo_started = DMX_ctor\<lparr>sacn_started := True, io := [SourceAdded 1 100, SourceStarted ''ChucK DMX'']\<rparr>"

theorem live_universes_in_step_witness:
  "in_sync demo_started \<and> in_sync (snd (DMX_addUniverse demo_env 2 demo_started)) \<and>
   \<not> in_sync (snd (DMX_universe 2 demo_started))"
proof -
  have inv: "dmx_inv demo_started" using DMX_ctor_inv by (simp add: demo_started_def dmx_inv_def)
  have s: "sacn_started demo_started" "in_sync demo_started"
    by (simp_all add: demo_started_def in_sync_def DMX_ctor_def)
  show ?thesis
    using live_universes_in_step[OF inv s, of demo_env 2] s
    by (simp add: demo_started_def DMX_ctor_def MAX_UNIVERSES_def)
qed

text \<open>
  C31: Adding a universe: what it returns in every case, that exactly a new universe with all
  channels 0 is added when it succeeds for a new number, and that a call that fails changes no
  universe. Removing one: it fails only for the last universe, removes exactly the named one and
  its Art-Net port, and moves the active universe to the lowest one left if it was removed.
\<close>

theorem add_remove_universe:
  assumes inv: "dmx_inv d"
  shows "(fst (DMX_addUniverse E u d) \<longleftrightarrow> 1 \<le> u \<and> u \<le> 63999 \<and>
      (u \<in> set (map_keys (universe_map d)) \<or>
       length (universe_map d) < 64 \<and> (sacn_started d \<longrightarrow> add_universe_result E u = Returns_Ok))) \<and>
    map_of (universe_map (snd (DMX_addUniverse E u d))) v =
      (if v = u \<and> fst (DMX_addUniverse E u d) \<and> map_of (universe_map d) u = None then Some UniverseData
       else map_of (universe_map d) v) \<and>
    (fst (DMX_removeUniverse u d) \<longleftrightarrow> u \<notin> set (map_keys (universe_map d)) \<or> 1 < length (universe_map d)) \<and>
    (fst (DMX_removeUniverse u d) \<longrightarrow>
      map_of (universe_map (snd (DMX_removeUniverse u d))) v = (if v = u then None else map_of (universe_map d) v) \<and>
      u \<notin> set (map fst (artnet_mappings (snd (DMX_removeUniverse u d)))) \<and>
      (active_universe d = u \<longrightarrow>
        active_universe (snd (DMX_removeUniverse u d)) = Min (set (map_keys (universe_map (snd (DMX_removeUniverse u d)))))))"
proof (intro conjI impI)
  let ?m = "universe_map d"
  have wf: "map_wf ?m" using inv by (simp add: dmx_inv_def map_ok_def)
  have ports: "ports_ok (set (map_keys ?m)) (artnet_mappings d)" using inv by (simp add: dmx_inv_def)
  show "fst (DMX_addUniverse E u d) \<longleftrightarrow> 1 \<le> u \<and> u \<le> 63999 \<and> (u \<in> set (map_keys ?m) \<or>
       length ?m < 64 \<and> (sacn_started d \<longrightarrow> add_universe_result E u = Returns_Ok))"
    by (auto simp: DMX_addUniverse_def Let_def MAX_UNIVERSES_def map_of_None_keys)
  show "map_of (universe_map (snd (DMX_addUniverse E u d))) v =
      (if v = u \<and> fst (DMX_addUniverse E u d) \<and> map_of ?m u = None then Some UniverseData else map_of ?m v)"
  proof (cases "map_of ?m u")
    case None
    then have "map_erase u (map_insert u UniverseData ?m) = ?m" by (simp add: map_erase_insert map_of_None_keys)
    moreover have "map_of (map_insert u UniverseData ?m) w = (if w = u then Some UniverseData else map_of ?m w)" for w
      using None by (simp add: map_of_insert[OF wf])
    ultimately show ?thesis using None by (simp add: DMX_addUniverse_def Let_def)
  qed (simp add: DMX_addUniverse_def)
  show rem: "fst (DMX_removeUniverse u d) \<longleftrightarrow> u \<notin> set (map_keys ?m) \<or> 1 < length ?m"
    by (auto simp: DMX_removeUniverse_def Let_def map_of_None_keys)
  assume ok: "fst (DMX_removeUniverse u d)"
  show "map_of (universe_map (snd (DMX_removeUniverse u d))) v = (if v = u then None else map_of ?m v)"
    using ok by (auto simp: DMX_removeUniverse_def Let_def map_of_erase split: if_splits)
  show "u \<notin> set (map fst (artnet_mappings (snd (DMX_removeUniverse u d))))"
  proof (cases "u \<in> set (map_keys ?m)")
    case False
    then have "snd (DMX_removeUniverse u d) = d" by (simp add: DMX_removeUniverse_def map_of_None_keys)
    then show ?thesis using False ports by (auto simp: ports_ok_def)
  next
    case True
    have "u \<notin> set (map fst (remove_mapping u (artnet_mappings d)))"
      using ports_ok_remove[OF ports, of u] by (auto simp: ports_ok_def)
    moreover have "artnet_mappings d = []" if "\<not> artnet_initialized d" using that inv by (simp add: dmx_inv_def)
    ultimately show ?thesis using ok True rem
      by (auto simp: DMX_removeUniverse_def Let_def map_of_None_keys)
  qed
  assume act: "active_universe d = u"
  then have u: "u \<in> set (map_keys ?m)" using inv by (simp add: dmx_inv_def)
  then have len: "1 < length ?m" using ok rem by simp
  let ?us = "map_erase u ?m"
  have "?us \<noteq> []" using map_erase_nonempty[OF wf len] .
  moreover have "sorted_wrt (<) (map_keys ?us)" using map_wf_erase[OF wf, of u] by (simp only: map_wf_def)
  ultimately have "Min (set (map_keys ?us)) = fst (hd ?us)"
  proof (cases ?us)
    case (Cons x xs)
    then have "\<forall>k \<in> set (map_keys xs). fst x < k"
      using \<open>sorted_wrt (<) (map_keys ?us)\<close> unfolding Cons by (cases x) simp
    then show ?thesis unfolding Cons by (cases x) (auto intro!: Min_eqI)
  qed simp
  moreover have "universe_map (snd (DMX_removeUniverse u d)) = ?us" "active_universe (snd (DMX_removeUniverse u d)) = fst (hd ?us)"
    using len u act by (simp_all add: DMX_removeUniverse_def Let_def map_of_None_keys)
  ultimately show "active_universe (snd (DMX_removeUniverse u d)) =
      Min (set (map_keys (universe_map (snd (DMX_removeUniverse u d)))))"
    by simp
qed

theorem add_remove_universe_witness:
  "fst (DMX_addUniverse demo_env 5 DMX_ctor) \<and> \<not> fst (DMX_removeUniverse 1 DMX_ctor)"
  using add_remove_universe[OF DMX_ctor_inv, of demo_env 5] add_remove_universe[OF DMX_ctor_inv, of demo_env 1]
  by (simp add: DMX_ctor_def)

section \<open>Settings\<close>

text \<open>
  The priority of the object changes only when the change succeeds on every live universe.
  When it fails on one, the call reports the failure and the object keeps its priority, but the
  universes before the failing one keep the new priority: the change is not undone.
\<close>

theorem priority_change:
  assumes "0 \<le> p" "p \<le> 200" "sacn_started d"
  shows "let ks = map_keys (universe_map d); (ok, d') = DMX_set_priority E p d in
    ok = (\<forall>u \<in> set ks. change_priority_ok E u) \<and>
    sacn_priority d' = (if ok then p else sacn_priority d) \<and>
    io d' = rev (map (\<lambda>u. SourcePriority (word_of_int u) (word_of_int p)) (takeWhile (change_priority_ok E) ks)) @ io d"
proof -
  obtain ok d1 where c: "change_priorities E p (map_keys (universe_map d)) d = (ok, d1)" by fastforce
  from change_priorities_same[OF c] show ?thesis
    using assms c by (auto simp: DMX_set_priority_def Let_def)
qed

definition demo_two :: dmx where
  "demo_two = demo_started\<lparr>universe_map := map_insert 2 UniverseData (universe_map demo_started)\<rparr>"

theorem priority_change_witness:
  "let (ok, d') = DMX_set_priority (demo_env\<lparr>change_priority_ok := (\<lambda>u. u = 1)\<rparr>) 150 demo_two in
   \<not> ok \<and> sacn_priority d' = 100 \<and> hd (io d') = SourcePriority 1 150"
  using priority_change[of 150 demo_two "demo_env\<lparr>change_priority_ok := (\<lambda>u. u = 1)\<rparr>"]
  by (simp add: demo_two_def demo_started_def DMX_ctor_def split: prod.splits)

section \<open>Art-Net addresses\<close>

lemma artnet_fields: "artnet_subnet u = (u - 1) div 16 mod 16" "artnet_address u = (u - 1) mod 16"
proof -
  have m: "(x :: int) AND 15 = x mod 16" for x
    using take_bit_eq_mask[of 4 x] by (simp add: take_bit_eq_mod mask_eq_exp_minus_1)
  show "artnet_subnet u = (u - 1) div 16 mod 16" "artnet_address u = (u - 1) mod 16"
    by (simp_all add: artnet_subnet_def artnet_address_def m drop_bit_eq_div)
qed

text \<open>
  A started Art-Net node has one port per mapped universe, set to the low four bits of the
  universe's number (from 0), all in the subnet of the first universe. The rest of the number is
  dropped: two universes get the same port address exactly when their numbers differ by a multiple
  of 256, so a node with the universes 1 and 257 sends both to the same address.
\<close>

theorem artnet_ports_alias:
  assumes "distinct ks" "init_ArtNet E ks d = (True, d')"
  shows "(\<forall>(u, p) \<in> set (artnet_mappings d'). u \<in> set ks \<and> 0 \<le> p \<and> p < 4 \<and>
      NodePort p (word_of_int (artnet_address u)) \<in> set (io d') \<and> artnet_subnet u = artnet_subnet (hd ks)) \<and>
    (artnet_subnet u = artnet_subnet v \<and> artnet_address u = artnet_address v \<longleftrightarrow> u mod 256 = v mod 256)"
proof
  define s where "s = artnet_subnet (hd ks)"
  define d1 where "d1 = log_io [NodeCreated, NodeNames (source_name d), NodeSubnet (word_of_int s)]
    (d\<lparr>artnet_node := True, artnet_mappings := []\<rparr>)"
  define d2 where "d2 = map_artnet_ports s ks 0 d1"
  from map_artnet_ports_spec[OF d2_def[symmetric] assms(1)] obtain ms es where
    d2: "d2 = log_io es (d1\<lparr>artnet_mappings := artnet_mappings d1 @ ms\<rparr>)" and ms: "ports_found s ks 0 ms es"
    by blast
  have "d' = log_io [NodeStarted] (d2\<lparr>artnet_initialized := True\<rparr>)"
    using assms(2) unfolding init_ArtNet_def Let_def s_def[symmetric] d1_def[symmetric] d2_def[symmetric]
    by (simp split: if_splits)
  then show "\<forall>(u, p) \<in> set (artnet_mappings d'). u \<in> set ks \<and> 0 \<le> p \<and> p < 4 \<and>
      NodePort p (word_of_int (artnet_address u)) \<in> set (io d') \<and> artnet_subnet u = artnet_subnet (hd ks)"
    using ms by (force simp: d2 d1_def ports_found_def ARTNET_MAX_PORTS_def s_def)
  have split: "x mod 256 = 16 * (x div 16 mod 16) + x mod 16" for x :: int
    using zmod_zmult2_eq[of 16 x 16] by simp
  have "(u - 1) mod 256 = (v - 1) mod 256 \<longleftrightarrow> u mod 256 = v mod 256"
    by (simp add: mod_eq_dvd_iff)
  moreover have "(u - 1) mod 256 = (v - 1) mod 256 \<longleftrightarrow>
      (u - 1) div 16 mod 16 = (v - 1) div 16 mod 16 \<and> (u - 1) mod 16 = (v - 1) mod 16"
  proof
    assume "(u - 1) mod 256 = (v - 1) mod 256"
    moreover have "x mod 256 div 16 = x div 16 mod 16" "x mod 256 mod 16 = x mod 16" for x :: int
      using split[of x] div_mult_self2[of 16 "x mod 16" "x div 16 mod 16"] by (simp_all add: mod_mod_cancel)
    ultimately show "(u - 1) div 16 mod 16 = (v - 1) div 16 mod 16 \<and> (u - 1) mod 16 = (v - 1) mod 16" by metis
  qed (simp add: split)
  ultimately show "artnet_subnet u = artnet_subnet v \<and> artnet_address u = artnet_address v \<longleftrightarrow> u mod 256 = v mod 256"
    by (simp add: artnet_fields)
qed

theorem artnet_ports_alias_witness:
  "artnet_mappings (snd (init_ArtNet demo_env [1, 257] DMX_ctor)) = [(1, 0), (257, 1)] \<and>
   artnet_address 1 = artnet_address 257 \<and> artnet_subnet 1 = artnet_subnet 257"
proof -
  have "fst (init_ArtNet demo_env [1, 257] DMX_ctor)"
    by (simp add: init_ArtNet_def Let_def demo_env_def)
  then obtain d' where run: "init_ArtNet demo_env [1, 257] DMX_ctor = (True, d')" by (metis prod.collapse)
  have "artnet_mappings (snd (init_ArtNet demo_env [1, 257] DMX_ctor)) = [(1, 0), (257, 1)]"
    by (simp add: init_ArtNet_def Let_def demo_env_def artnet_fields ARTNET_MAX_PORTS_def)
  moreover have "artnet_subnet 1 = artnet_subnet 257 \<and> artnet_address 1 = artnet_address 257 \<longleftrightarrow>
      (1 :: int) mod 256 = 257 mod 256"
    by (rule artnet_ports_alias[OF _ run, THEN conjunct2]) simp
  ultimately show ?thesis by simp
qed

section \<open>What a send transmits\<close>

fun is_frame :: "io_event \<Rightarrow> bool" where
  "is_frame (SerialWrite bs) = True"
| "is_frame (SourceLevels u bs) = True"
| "is_frame (NodeDmx p bs) = True"
| "is_frame e = False"

definition frames :: "dmx \<Rightarrow> io_event list" where
  "frames d = filter is_frame (io d)"

lemma frames_log_io [simp]: "frames (log_io es d) = rev (filter is_frame es) @ frames d"
  by (simp add: frames_def rev_filter)

lemma frames_config [simp]:
  "frames (d\<lparr>artnet_node := b\<rparr>) = frames d" "frames (d\<lparr>artnet_mappings := ms\<rparr>) = frames d"
  "frames (d\<lparr>artnet_initialized := b\<rparr>) = frames d" "frames (d\<lparr>sacn_started := b\<rparr>) = frames d"
  "frames (d\<lparr>last_reconnect_ticks := t\<rparr>) = frames d" "frames (d\<lparr>universe_map := m\<rparr>) = frames d"
  by (simp_all add: frames_def)

lemma add_source_universes_frames: "add_source_universes E us d = (r, d') \<Longrightarrow> frames d' = frames d"
proof (induction us arbitrary: d)
  case (Cons u us)
  show ?case
  proof (cases "add_universe_result E u")
    case Returns_Ok
    then show ?thesis using Cons.IH[of "log_io [SourceAdded (word_of_int u) (word_of_int (sacn_priority d))] d"] Cons.prems
      by simp
  qed (use Cons.prems in auto)
qed simp

lemma init_sACN_frames: "init_sACN P E ks g d = (ok, g', d') \<Longrightarrow> frames d' = frames d"
proof -
  assume i: "init_sACN P E ks g d = (ok, g', d')"
  obtain r d1 where a: "add_source_universes E ks (log_io [SourceStarted (source_name d)] d) = (r, d1)" by fastforce
  have "frames d1 = frames d" using add_source_universes_frames[OF a] by simp
  then show ?thesis using i a by (auto simp: init_sACN_def split: prod.splits if_splits call_result.splits)
qed

lemma map_artnet_ports_frames: "frames (map_artnet_ports s us p d) = frames d"
  by (induction s us p d rule: map_artnet_ports.induct) auto

lemma init_ArtNet_frames: "init_ArtNet E ks d = (ok, d') \<Longrightarrow> frames d' = frames d"
  by (auto simp: init_ArtNet_def Let_def map_artnet_ports_frames split: if_splits)

lemma deinit_frames: "frames (deinit_ArtNet d) = frames d" "frames (snd (deinit_sACN P g d)) = frames d"
  "frames (snd (can_attempt_reconnect P E d)) = frames d" "frames (update_fades P E d) = frames d"
  by (auto simp: deinit_ArtNet_def deinit_sACN_def can_attempt_reconnect_def Let_def update_fades_def)

text \<open>The sending loops in closed form.\<close>

lemma send_sacn_exact:
  "send_sacn E snaps f d =
   (f \<or> (\<exists>(u, x) \<in> set snaps. update_levels_throws E u),
    log_io (map (\<lambda>(u, x). SourceLevels (word_of_int u) (slot_data x)) (filter (\<lambda>(u, x). \<not> update_levels_throws E u) snaps)) d)"
  by (induction E snaps f d rule: send_sacn.induct) (auto simp: log_io_def)

definition artnet_frames :: "call_env \<Rightarrow> (int \<times> int) list \<Rightarrow> (int \<times> u8 list) list \<Rightarrow> io_event list" where
  "artnet_frames E ports snaps =
     concat (map (\<lambda>(u, x). case map_of ports u of None \<Rightarrow> []
                   | Some p \<Rightarrow> if artnet_send_ok E p then [NodeDmx p (slot_data x)] else []) snaps)"

lemma send_artnet_exact:
  assumes "\<forall>p \<in> set (map snd ports). 0 \<le> p" "artnet_node d"
  shows "send_artnet E ports snaps f d =
    (f \<or> (\<exists>(u, x) \<in> set snaps. \<exists>p. map_of ports u = Some p \<and> \<not> artnet_send_ok E p),
     log_io (artnet_frames E ports snaps) d)"
  using assms(2)
proof (induction snaps arbitrary: f d)
  case Nil
  then show ?case by (simp add: artnet_frames_def log_io_def)
next
  case (Cons s snaps)
  obtain u x where s: "s = (u, x)" by fastforce
  show ?case
  proof (cases "map_of ports u")
    case None
    then show ?thesis using Cons.IH[OF Cons.prems, of f] s by (simp add: artnet_frames_def)
  next
    case (Some p)
    then have p: "0 \<le> p" using assms(1) map_of_SomeD by fastforce
    show ?thesis
    proof (cases "artnet_send_ok E p")
      case True
      then show ?thesis
        using Cons.IH[of "log_io [NodeDmx p (slot_data x)] d" f] Cons.prems s Some p
        by (simp add: artnet_frames_def log_io_def)
    next
      case False
      then show ?thesis using Cons.IH[OF Cons.prems, of True] s Some p Cons.prems by (auto simp: artnet_frames_def)
    qed
  qed
qed

lemma universe_start_code: "universe_ok ud \<Longrightarrow> hd (dmx_data ud) = 0"
  by (cases "dmx_data ud") (auto simp: universe_ok_def)

lemma snapshot_universe:
  "dmx_inv d \<Longrightarrow> (u, x) \<in> set (snapshots d) \<Longrightarrow>
   \<exists>ud. map_of (universe_map d) u = Some ud \<and> x = dmx_data ud \<and> length x = 513 \<and> hd x = 0"
proof -
  assume inv: "dmx_inv d" and m: "(u, x) \<in> set (snapshots d)"
  then obtain ud where ud: "(u, ud) \<in> set (universe_map d)" "x = take 513 (dmx_data ud)"
    by (auto simp: snapshots_def)
  have "map_wf (universe_map d)" using inv by (simp add: dmx_inv_def map_ok_def)
  then have look: "map_of (universe_map d) u = Some ud" using map_wf_of_mem ud(1) by metis
  then have "universe_ok ud" using universe_lookup[OF inv] by simp
  then show ?thesis using look ud(2) universe_start_code by (auto simp: universe_ok_def)
qed

lemma snapshots_lookup: "map_of (snapshots d) u = map_option (\<lambda>ud. take 513 (dmx_data ud)) (map_of (universe_map d) u)"
  by (simp add: snapshots_def map_of_map)

text \<open>
  C32: What one \<open>send\<close> transmits, after advancing the fades. sACN: one update with the 512 channel
  values per universe, in ascending order. Art-Net: one packet with the 512 values for each
  universe that has a port. Serial: nothing but the active universe, as one write; the raw frame
  is the start code 0 and the 512 values, the Enttec frame is 518 bytes, a header that gives
  the payload length 513 as low and high byte, the raw frame and the end byte. A reconnect
  during the call transmits nothing more.
\<close>

theorem send_transmits:
  assumes inv: "dmx_inv d" and s: "DMX_send P E g d = (g', d')"
  shows "let um = universe_map (update_fades P E d); old = frames d;
      raw = dmx_data (the (map_of um (active_universe d))) in
    (the_protocol d = SACN \<longrightarrow> frames d' =
       rev (map (\<lambda>(u, x). SourceLevels (word_of_int u) (slot_data x))
         (filter (\<lambda>(u, x). \<not> update_levels_throws E u) (snapshots (update_fades P E d)))) @ old) \<and>
    (the_protocol d = ArtNet \<and> artnet_initialized d \<longrightarrow> frames d' =
       rev (artnet_frames E (artnet_mappings d) (snapshots (update_fades P E d))) @ old) \<and>
    (serial_is_open d \<and> serial_throws_after E = None \<longrightarrow>
       (the_protocol d = Serial_Raw \<longrightarrow> frames d' = SerialWrite raw # old) \<and>
       (the_protocol d = Serial \<longrightarrow> frames d' = SerialWrite ([0x7E, 0x06, 1, 2] @ raw @ [0xE7]) # old)) \<and>
    length raw = 513 \<and> hd raw = 0 \<and>
    (\<forall>(u, x) \<in> set (snapshots (update_fades P E d)). length (slot_data x) = 512)"
proof -
  define w where "w = update_fades P E d"
  have wi: "dmx_inv w" unfolding w_def by (rule update_fades_inv[OF inv])
  have same: "the_protocol w = the_protocol d" "artnet_mappings w = artnet_mappings d" "artnet_initialized w = artnet_initialized d"
    "artnet_node w = artnet_node d" "serial_is_open w = serial_is_open d" "active_universe w = active_universe d" "frames w = frames d"
    by (simp_all add: w_def update_fades_def)
  obtain ud where ud: "map_of (universe_map w) (active_universe d) = Some ud" "universe_ok ud"
    using active_lookup[OF wi] same(6) by metis
  then have raw: "length (dmx_data ud) = 513" "hd (dmx_data ud) = 0" using universe_start_code by (auto simp: universe_ok_def)
  have sacn: "frames d' = rev (map (\<lambda>(u, x). SourceLevels (word_of_int u) (slot_data x))
      (filter (\<lambda>(u, x). \<not> update_levels_throws E u) (snapshots w))) @ frames d" if "the_protocol d = SACN"
  proof -
    let ?fs = "map (\<lambda>(u, x). SourceLevels (word_of_int u) (slot_data x)) (filter (\<lambda>(u, x). \<not> update_levels_throws E u) (snapshots w))"
    obtain f where f: "send_sacn E (snapshots w) False w = (f, log_io ?fs w)" using send_sacn_exact by blast
    obtain may d2 where m: "can_attempt_reconnect P E (log_io ?fs w) = (may, d2)" by fastforce
    obtain g1 d3 where de: "deinit_sACN P g d2 = (g1, d3)" by fastforce
    obtain ok g2 d4 where ini: "init_sACN P E (map fst (snapshots w)) g1 d3 = (ok, g2, d4)" by (metis prod_cases3)
    have "frames d2 = frames (log_io ?fs w)" "frames d3 = frames d2" "frames d4 = frames d3"
      using deinit_frames(3)[of P E "log_io ?fs w"] deinit_frames(2)[of P g d2] init_sACN_frames[OF ini] m de by simp_all
    moreover have "filter is_frame ?fs = ?fs" by (auto simp: filter_id_conv)
    moreover have "d' \<in> {log_io ?fs w, d2, d4}"
      using s that f m de ini same(1) by (auto simp: DMX_send_def Let_def w_def[symmetric] split: if_splits)
    ultimately show ?thesis using same(7) by auto
  qed
  have artnet: "frames d' = rev (artnet_frames E (artnet_mappings d) (snapshots w)) @ frames d"
    if p: "the_protocol d = ArtNet" and i: "artnet_initialized d"
  proof -
    let ?fs = "artnet_frames E (artnet_mappings d) (snapshots w)"
    have "artnet_node w" "\<forall>p \<in> set (map snd (artnet_mappings d)). 0 \<le> p"
      using inv i same(4) by (auto simp: dmx_inv_def ports_ok_def)
    then obtain f where f: "send_artnet E (artnet_mappings d) (snapshots w) False w = (f, log_io ?fs w)"
      using send_artnet_exact by blast
    obtain may d2 where m: "can_attempt_reconnect P E (log_io ?fs w) = (may, d2)" by fastforce
    obtain ok d3 where ini: "init_ArtNet E (map fst (snapshots w)) (deinit_ArtNet d2) = (ok, d3)" by fastforce
    have "frames d2 = frames (log_io ?fs w)" "frames d3 = frames d2"
      using deinit_frames(3)[of P E "log_io ?fs w"] deinit_frames(1)[of d2] init_ArtNet_frames[OF ini] m by simp_all
    moreover have "filter is_frame ?fs = ?fs"
      by (auto simp: filter_id_conv artnet_frames_def split: option.splits if_splits)
    moreover have "d' \<in> {log_io ?fs w, d2, d3}"
      using s p f m ini same(1,2) by (auto simp: DMX_send_def Let_def w_def[symmetric] split: if_splits)
    ultimately show ?thesis using same(7) by auto
  qed
  have look: "map_of (snapshots w) (active_universe w) = Some (dmx_data ud)"
    using ud raw same(6) by (simp add: snapshots_lookup)
  have enttec: "enttec_frame (dmx_data ud) = [0x7E, 0x06, 1, 2] @ dmx_data ud @ [0xE7]"
    using raw by (simp add: enttec_frame_def ENTTEC_START_MSG_def ENTTEC_SEND_DMX_def ENTTEC_END_MSG_def DMX_PAYLOAD_LEN_def)
  have serial: "frames d' = rev (filter is_frame (serial_calls (dmx_data ud) (the_protocol d))) @ frames d"
    if "the_protocol d = Serial_Raw \<or> the_protocol d = Serial" "serial_is_open d" "serial_throws_after E = None"
    using s that look same by (auto simp: DMX_send_def Let_def w_def[symmetric] send_Serial_def)
  have slots: "length (slot_data x) = 512" if "(u, x) \<in> set (snapshots w)" for u x
    using snapshot_universe[OF wi that] by (auto simp: slot_data_def)
  show ?thesis
    unfolding Let_def w_def[symmetric] using sacn artnet serial raw slots enttec ud(1)
    by (auto simp: serial_calls_def)
qed

text \<open>The serial branch on a concrete plugin: one raw frame of 513 zeros.\<close>

theorem send_transmits_witness:
  "frames (snd (DMX_send demo_platform demo_env (globals initial_process)
     (DMX_ctor\<lparr>the_protocol := Serial_Raw, serial_is_open := True\<rparr>))) = [SerialWrite (replicate 513 0)]"
proof -
  let ?d = "DMX_ctor\<lparr>the_protocol := Serial_Raw, serial_is_open := True\<rparr>"
  have inv: "dmx_inv ?d" using DMX_ctor_inv by (simp add: dmx_inv_def)
  have fade: "universe_map (update_fades demo_platform demo_env ?d) = universe_map DMX_ctor"
    by (simp add: DMX_ctor_def update_fades_def UniverseData_def update_universe_fades_def map_all_def)
  obtain g' d' where s: "DMX_send demo_platform demo_env (globals initial_process) ?d = (g', d')" by fastforce
  have ctor: "serial_throws_after demo_env = None" "frames ?d = []" "active_universe ?d = 1" "universe_map DMX_ctor = [(1, UniverseData)]"
    by (simp_all add: demo_env_def DMX_ctor_def frames_def)
  have "frames d' = [SerialWrite (dmx_data UniverseData)]"
    using send_transmits[OF inv s] unfolding fade ctor(2,3,4) by (simp add: Let_def ctor(1))
  then show ?thesis using s by (simp add: UniverseData_def)
qed

section \<open>A reconnect that fails\<close>

lemma send_artnet_unmapped: "send_artnet E [] snaps f d = (f, d)"
  by (induction snaps) auto

lemma send_unmapped:
  assumes "the_protocol d = ArtNet" "artnet_mappings d = []"
  shows "DMX_send P E g d = (g, update_fades P E d)"
  using assms by (simp add: DMX_send_def Let_def send_artnet_unmapped update_fades_def)

lemma sends_unmapped:
  assumes "the_protocol d = ArtNet" "artnet_mappings d = []"
  shows "snd (fold (\<lambda>(P, E) (g, d). DMX_send P E g d) calls (g, d)) = fold (\<lambda>(P, E). update_fades P E) calls d"
  using assms
proof (induction calls arbitrary: d)
  case (Cons c calls)
  obtain P E where c: "c = (P, E)" by fastforce
  show ?case using Cons.IH[of "update_fades P E d"] Cons.prems c
    by (simp add: send_unmapped update_fades_def)
qed simp

lemma init_ArtNet_outcome: "init_ArtNet E ks d = (ok, d') \<Longrightarrow> ok = (ks \<noteq> [] \<and> artnet_new_ok E \<and> artnet_start_ok E)"
  by (auto simp: init_ArtNet_def Let_def split: if_splits)

lemma fold_update_fades_connection:
  "let d' = fold (\<lambda>(P, E). update_fades P E) calls d in
   io d' = io d \<and> the_protocol d' = the_protocol d \<and> artnet_initialized d' = artnet_initialized d"
proof (induction calls arbitrary: d)
  case (Cons c calls)
  obtain P E where c: "c = (P, E)" by fastforce
  show ?case using Cons.IH[of "update_fades P E d"] by (simp add: Let_def c) (simp add: update_fades_def)
qed simp

text \<open>
  C33: A reconnect that fails is final. When a packet to a mapped port of the Art-Net node fails, the
  cooldown is over and the node cannot be created or started again, the plugin is not connected
  any more and has no port: whatever number of \<open>send\<close> calls follows, however long after and
  whatever the network does by then, nothing is transmitted and no reconnect is tried, until
  \<open>init\<close> is called.
\<close>

theorem artnet_reconnect_gives_up:
  assumes inv: "dmx_inv d" and p: "the_protocol d = ArtNet" "artnet_initialized d"
    and u: "u \<in> set (map_keys (universe_map d))" "map_of (artnet_mappings d) u = Some port" "\<not> artnet_send_ok E port"
    and late: "RECONNECT_COOLDOWN_MS \<le> duration_cast_ms (steady_clock P) (reconnect_now E - last_reconnect_ticks d)"
    and broken: "\<not> (artnet_new_ok E \<and> artnet_start_ok E)"
    and s: "DMX_send P E g d = (g', d')"
  shows "\<not> DMX_connected d' \<and>
    (let d'' = snd (fold (\<lambda>(P, E) (g, d). DMX_send P E g d) calls (g', d')) in
     io d'' = io d' \<and> \<not> DMX_connected d'')"
proof -
  define w where "w = update_fades P E d"
  have wi: "dmx_inv w" unfolding w_def by (rule update_fades_inv[OF inv])
  have keys: "map_keys (universe_map w) = map_keys (universe_map d)"
    by (simp add: w_def update_fades_def)
  have same: "the_protocol w = ArtNet" "artnet_mappings w = artnet_mappings d" "artnet_node w"
    "last_reconnect_ticks w = last_reconnect_ticks d"
    using p inv by (simp_all add: w_def update_fades_def dmx_inv_def)
  have "u \<in> fst ` set (snapshots w)"
    using u(1) unfolding keys[symmetric] by (force simp: snapshots_def map_keys_def)
  then obtain x where x: "(u, x) \<in> set (snapshots w)" by force
  have "\<forall>p \<in> set (map snd (artnet_mappings d)). 0 \<le> p" using inv by (auto simp: dmx_inv_def ports_ok_def)
  from send_artnet_exact[OF this same(3)] obtain es where
    f: "send_artnet E (artnet_mappings d) (snapshots w) False w = (True, log_io es w)"
    using x u by fastforce
  define d2 where "d2 = (log_io es w)\<lparr>last_reconnect_ticks := reconnect_now E\<rparr>"
  have d2: "can_attempt_reconnect P E (log_io es w) = (True, d2)" "dmx_inv d2" "universe_map d2 = universe_map w"
    using late same(4) wi by (simp_all add: can_attempt_reconnect_def d2_def log_io_def dmx_inv_def)
  obtain ok d3 where ini: "init_ArtNet E (map fst (snapshots w)) (deinit_ArtNet d2) = (ok, d3)" by fastforce
  have ks: "map fst (snapshots w) = map_keys (universe_map (deinit_ArtNet d2))"
    using deinit_ArtNet_effect(4)[OF d2(2)] d2(3) by (auto simp: snapshots_def map_keys_def)
  have ok: "\<not> ok" using init_ArtNet_outcome[OF ini] broken by simp
  note eff = init_ArtNet_effect[OF deinit_ArtNet_effect(1,2)[OF d2(2)] ini[unfolded ks]]
  have d3: "\<not> artnet_initialized d3" "artnet_mappings d3 = []" "the_protocol d3 = ArtNet"
    using eff(2,5,6) ok deinit_ArtNet_effect(6)[OF d2(2)] same(1) by (simp_all add: d2_def)
  have "d' = d3" using s f d2(1) ini same(1,2) by (simp add: DMX_send_def Let_def w_def[symmetric])
  then show ?thesis
    using d3 sends_unmapped[of d' calls g'] fold_update_fades_connection[of calls d']
    by (simp add: Let_def DMX_connected_def)
qed

definition demo_node :: dmx where
  "demo_node = DMX_ctor\<lparr>the_protocol := ArtNet, artnet_initialized := True, artnet_node := True, artnet_mappings := [(1, 0)]\<rparr>"

theorem artnet_reconnect_gives_up_witness:
  "let E = demo_env\<lparr>artnet_send_ok := (\<lambda>_. False), artnet_start_ok := False\<rparr>;
       (g', d') = DMX_send demo_platform E (globals initial_process) demo_node;
       d'' = snd (fold (\<lambda>(P, E) (g, d). DMX_send P E g d) [(demo_platform, demo_env), (demo_platform, demo_env)] (g', d')) in
   \<not> DMX_connected d' \<and> io d'' = io d' \<and> \<not> DMX_connected d''"
proof -
  let ?E = "demo_env\<lparr>artnet_send_ok := (\<lambda>_. False), artnet_start_ok := False\<rparr>"
  obtain g' d' where s: "DMX_send demo_platform ?E (globals initial_process) demo_node = (g', d')"
    by fastforce
  have inv: "dmx_inv demo_node"
    by (simp add: demo_node_def DMX_ctor_def dmx_inv_def map_ok_def map_wf_def map_keys_def ports_ok_def
        MAX_UNIVERSES_def ARTNET_MAX_PORTS_def UniverseData_ok)
  have late: "RECONNECT_COOLDOWN_MS \<le> duration_cast_ms (steady_clock demo_platform) (reconnect_now ?E - last_reconnect_ticks demo_node)"
    by (simp add: RECONNECT_COOLDOWN_MS_def duration_cast_ms_def demo_platform_def demo_env_def demo_node_def DMX_ctor_def)
  show ?thesis
    using artnet_reconnect_gives_up[OF inv _ _ _ _ _ late _ s, of 1 0 "[(demo_platform, demo_env), (demo_platform, demo_env)]"] s
    by (simp add: demo_node_def DMX_ctor_def Let_def map_keys_def)
qed

end
