(* ===== verification/Packing.thy ===== *)
theory Packing
  imports Prelude "HOL-Library.Monad_Syntax"
begin

unbundle bit_operations_syntax

text \<open>
  Byte buffers and EtcPal's packing primitives, for the packet code of \<open>src/sACN/src/sacn/pdu.c\<close>.
  \<^item> \<open>get_byte\<close>, \<open>get_bytes\<close> and \<open>put_bytes\<close> access a buffer; an access outside it is \<open>None\<close>, so
    that "the code stays inside its buffers" is a theorem about the model and not built into it.
  \<^item> \<open>acn_lib\<close> holds what \<open>pdu.c\<close> uses of EtcPal (\<open>etcpal/pack.h\<close>, \<open>etcpal/acn_pdu.h\<close>,
    \<open>etcpal/acn_rlp.h\<close>; that library is not part of the repository), and \<open>acn_laws\<close> its documented
    behaviour. \<open>big_endian_lib\<close> is an instance of the laws for the witnesses.
  \<^item> \<open>written_at w r\<close> is a buffer whose first bytes \<open>w\<close> have been written; the lemmas \<open>written\<close> run
    a sequence of writes that append to it.
\<close>

named_theorems written \<open>access to a partly written buffer\<close>

section \<open>Buffer access\<close>

definition get_byte :: "u8 list \<Rightarrow> nat \<Rightarrow> u8 option" where
  "get_byte buf i = (if i < length buf then Some (buf ! i) else None)"

definition get_bytes :: "u8 list \<Rightarrow> nat \<Rightarrow> nat \<Rightarrow> u8 list option" where
  "get_bytes buf i n = (if i + n \<le> length buf then Some (take n (drop i buf)) else None)"

definition put_bytes :: "u8 list \<Rightarrow> nat \<Rightarrow> u8 list \<Rightarrow> u8 list option" where
  "put_bytes buf i bs =
     (if i + length bs \<le> length buf then Some (take i buf @ bs @ drop (i + length bs) buf) else None)"

text \<open>\<open>strncpy(dst, src, n)\<close>: the characters before the terminator, padded with zeros to \<open>n\<close> bytes.\<close>

definition strncpy_bytes :: "nat \<Rightarrow> u8 list \<Rightarrow> u8 list" where
  "strncpy_bytes n src = (let s = takeWhile (\<lambda>c. c \<noteq> 0) (take n src) in s @ replicate (n - length s) 0)"

lemma length_put_bytes: "put_bytes buf i bs = Some buf' \<Longrightarrow> length buf' = length buf"
  by (auto simp: put_bytes_def split: if_splits)

lemma length_get_bytes: "get_bytes buf i n = Some bs \<Longrightarrow> length bs = n"
  by (auto simp: get_bytes_def split: if_splits)

lemma length_strncpy_bytes [simp]: "length (strncpy_bytes n src) = n"
proof -
  have "length (takeWhile (\<lambda>c. c \<noteq> 0) (take n src)) \<le> length (take n src)" by (rule length_takeWhile_le)
  then show ?thesis by (simp add: strncpy_bytes_def Let_def)
qed

text \<open>A string shorter than the field is copied exactly and stays terminated.\<close>

lemma strncpy_bytes_short:
  "length src < n \<Longrightarrow> 0 \<notin> set src \<Longrightarrow> strncpy_bytes n src = src @ replicate (n - length src) 0"
proof -
  assume "length src < n" "0 \<notin> set src"
  moreover from this have "takeWhile (\<lambda>c. c \<noteq> 0) src = src" unfolding takeWhile_eq_all_conv by metis
  ultimately show "strncpy_bytes n src = src @ replicate (n - length src) 0" by (simp only: strncpy_bytes_def Let_def take_all less_imp_le)
qed

lemma strncpy_bytes_prefix:
  "takeWhile (\<lambda>c. c \<noteq> 0) (strncpy_bytes n src) = takeWhile (\<lambda>c. c \<noteq> 0) (take n src)"
  by (cases "n - length (takeWhile (\<lambda>c. c \<noteq> 0) (take n src))")
     (auto simp: strncpy_bytes_def Let_def takeWhile_append dest: set_takeWhileD)

lemma strncpy_bytes_idem: "strncpy_bytes n (strncpy_bytes n src @ xs) = strncpy_bytes n src"
  by (simp add: strncpy_bytes_def[of n "strncpy_bytes n src @ xs"] strncpy_bytes_prefix)
     (simp add: strncpy_bytes_def)

section \<open>A buffer written from its start\<close>

definition written_at :: "u8 list \<Rightarrow> u8 list \<Rightarrow> u8 list" where
  "written_at w rest = w @ rest"

lemma written_at_Nil: "written_at [] buf = buf"
  by (simp add: written_at_def)

lemma length_written_at [simp]: "length (written_at w rest) = length w + length rest"
  by (simp add: written_at_def)

lemma put_bytes_written [written]:
  "i = length w \<Longrightarrow> length bs \<le> length rest \<Longrightarrow>
   put_bytes (written_at w rest) i bs = Some (written_at (w @ bs) (drop (length bs) rest))"
  by (simp add: put_bytes_def written_at_def)

text \<open>Writing again over bytes already written.\<close>

lemma put_bytes_rewrite:
  "i = length a \<Longrightarrow> length bs = length old \<Longrightarrow>
   put_bytes (written_at (a @ old @ b) rest) i bs = Some (written_at (a @ bs @ b) rest)"
  by (simp add: put_bytes_def written_at_def)

lemma get_bytes_append:
  "i = length a \<Longrightarrow> n = length bs \<Longrightarrow> get_bytes (a @ bs @ b) i n = Some bs"
  by (simp add: get_bytes_def)

section \<open>What the packet code uses of EtcPal\<close>

record acn_lib =
  pack_u16b :: "u16 \<Rightarrow> u8 list"
  unpack_u16b :: "u8 list \<Rightarrow> u16"
  pack_u32b :: "u32 \<Rightarrow> u8 list"
  unpack_u32b :: "u8 list \<Rightarrow> u32"
  udp_preamble_size :: nat
  udp_preamble :: "nat \<Rightarrow> u8 list"
  set_v_flag :: "u8 \<Rightarrow> u8"
  set_h_flag :: "u8 \<Rightarrow> u8"
  set_d_flag :: "u8 \<Rightarrow> u8"
  pack_normal_len :: "u8 list \<Rightarrow> int \<Rightarrow> u8 list"
  ACN_PDU_LENGTH :: "u8 list \<Rightarrow> int"
  vector_root_data :: u32
  vector_root_extended :: u32

text \<open>
  \<open>pack_u16b x\<close> and \<open>pack_u32b x\<close> are the bytes \<open>etcpal_pack_u16b\<close> and \<open>etcpal_pack_u32b\<close> store;
  \<open>udp_preamble n\<close> the bytes \<open>acn_pack_udp_preamble\<close> writes when it is given room for \<open>n\<close>;
  \<open>pack_normal_len bs n\<close> the two bytes \<open>ACN_PDU_PACK_NORMAL_LEN\<close> leaves where \<open>bs\<close> was: the length
  replaces the low 12 bits, the flags in the high bits stay. \<open>ACN_PDU_LENGTH\<close> reads at most three
  bytes and does not read back flags.
\<close>

definition pdu_flags :: "acn_lib \<Rightarrow> u8" where
  "pdu_flags L = set_d_flag L (set_h_flag L (set_v_flag L 0))"

definition acn_laws :: "acn_lib \<Rightarrow> bool" where
  "acn_laws L \<longleftrightarrow>
     (\<forall>x. length (pack_u16b L x) = 2 \<and> unpack_u16b L (pack_u16b L x) = x) \<and>
     (\<forall>x. length (pack_u32b L x) = 4 \<and> unpack_u32b L (pack_u32b L x) = x) \<and>
     udp_preamble_size L = 16 \<and> length (udp_preamble L 16) = 16 \<and>
     (\<forall>a b n. length (pack_normal_len L [a, b] n) = 2) \<and>
     (\<forall>a b c n. pack_normal_len L [a, b] n = pack_normal_len L [a, c] n) \<and>
     (\<forall>a b m n. pack_normal_len L (pack_normal_len L [a, b] m) n = pack_normal_len L [a, b] n) \<and>
     (\<forall>b c n. 0 \<le> n \<longrightarrow> n < 4096 \<longrightarrow> ACN_PDU_LENGTH L (pack_normal_len L [pdu_flags L, b] n @ [c]) = n)"

lemma acn_lengths [simp]:
  assumes "acn_laws L"
  shows "length (pack_u16b L x) = 2" "length (pack_u32b L y) = 4" "udp_preamble_size L = 16"
    "length (udp_preamble L 16) = 16" "length (pack_normal_len L [a, b] n) = 2"
  using assms unfolding acn_laws_def by blast+

lemma acn_unpack [simp]:
  assumes "acn_laws L"
  shows "unpack_u16b L (pack_u16b L x) = x" "unpack_u32b L (pack_u32b L y) = y"
  using assms unfolding acn_laws_def by blast+

text \<open>Flags and length of a PDU of length \<open>n\<close>.\<close>

definition flags_length :: "acn_lib \<Rightarrow> int \<Rightarrow> u8 list" where
  "flags_length L n = pack_normal_len L [pdu_flags L, 0] n"

lemma flags_length_laws:
  assumes "acn_laws L"
  shows "length (flags_length L n) = 2" "pack_normal_len L [pdu_flags L, b] n = flags_length L n"
    "pack_normal_len L (flags_length L m) n = flags_length L n"
    "0 \<le> n \<Longrightarrow> n < 4096 \<Longrightarrow> ACN_PDU_LENGTH L (flags_length L n @ [c]) = n"
proof -
  show "pack_normal_len L [pdu_flags L, b] n = flags_length L n"
    using assms unfolding acn_laws_def flags_length_def by blast
qed (use assms in \<open>unfold acn_laws_def flags_length_def, blast+\<close>)

section \<open>An instance of the laws\<close>

definition big_endian_lib :: acn_lib where
  "big_endian_lib = \<lparr>
     pack_u16b = (\<lambda>x. [ucast (drop_bit 8 x), ucast x]),
     unpack_u16b = (\<lambda>bs. push_bit 8 (ucast (bs ! 0)) OR ucast (bs ! 1)),
     pack_u32b = (\<lambda>x. [ucast (drop_bit 24 x), ucast (drop_bit 16 x), ucast (drop_bit 8 x), ucast x]),
     unpack_u32b = (\<lambda>bs. push_bit 24 (ucast (bs ! 0)) OR push_bit 16 (ucast (bs ! 1)) OR
                          push_bit 8 (ucast (bs ! 2)) OR ucast (bs ! 3)),
     udp_preamble_size = 16,
     udp_preamble = (\<lambda>n. if n < 16 then [] else [0, 0x10, 0, 0, 0x41, 0x53, 0x43, 0x2d, 0x45, 0x31, 0x2e, 0x31, 0x37, 0, 0, 0]),
     set_v_flag = (\<lambda>b. b OR 0x40), set_h_flag = (\<lambda>b. b OR 0x20), set_d_flag = (\<lambda>b. b OR 0x10),
     pack_normal_len = (\<lambda>bs n. [(bs ! 0 AND 0xf0) OR (word_of_int (n div 256) AND 0x0f), word_of_int (n mod 256)]),
     ACN_PDU_LENGTH = (\<lambda>bs. uint (bs ! 0 AND 0x0f) * 256 + uint (bs ! 1)),
     vector_root_data = 4, vector_root_extended = 8\<rparr>"

text \<open>The laws hold of it.\<close>

lemma bytes_of_u16: "push_bit 8 (ucast (ucast (drop_bit 8 x) :: u8)) OR ucast (ucast x :: u8) = (x :: u16)"
  by (rule bit_word_eqI) (auto simp: bit_simps)

lemma bytes_of_u32:
  "push_bit 24 (ucast (ucast (drop_bit 24 x) :: u8)) OR push_bit 16 (ucast (ucast (drop_bit 16 x) :: u8)) OR
   push_bit 8 (ucast (ucast (drop_bit 8 x) :: u8)) OR ucast (ucast x :: u8) = (x :: u32)"
proof (rule bit_word_eqI)
  fix n :: nat
  consider "n < 8" | "8 \<le> n" "n < 16" | "16 \<le> n" "n < 24" | "24 \<le> n" by linarith
  then show "n < LENGTH(32) \<Longrightarrow>
    bit (push_bit 24 (ucast (ucast (drop_bit 24 x) :: u8)) OR push_bit 16 (ucast (ucast (drop_bit 16 x) :: u8)) OR
      push_bit 8 (ucast (ucast (drop_bit 8 x) :: u8)) OR ucast (ucast x :: u8) :: u32) n = bit x n"
    by cases (auto simp: bit_simps)
qed

lemma nibbles: "(0xf0 :: u8) = push_bit 4 (mask 4)" "(0x0f :: u8) = mask 4"
  by (simp_all add: mask_eq_exp_minus_1 push_bit_eq_mult)

lemma keep_high_bits: "(((x :: u8) AND 0xf0) OR (y AND 0x0f)) AND 0xf0 = x AND 0xf0"
proof (rule bit_word_eqI)
  fix n assume "n < LENGTH(8)"
  then show "bit (((x AND 0xf0) OR (y AND 0x0f)) AND 0xf0) n = bit (x AND 0xf0) n"
    unfolding nibbles by (auto simp: bit_simps)
qed

lemma low_nibble: "uint ((((x :: u8) AND 0xf0) OR (y AND 0x0f)) AND 0x0f) = uint y mod 16"
proof -
  have "(((x :: u8) AND 0xf0) OR (y AND 0x0f)) AND 0x0f = y AND mask 4"
  proof (rule bit_word_eqI)
    fix n assume "n < LENGTH(8)"
    then show "bit ((((x :: u8) AND 0xf0) OR (y AND 0x0f)) AND 0x0f) n = bit (y AND mask 4) n"
      unfolding nibbles by (auto simp: bit_simps)
  qed
  then show ?thesis by (simp add: take_bit_eq_mask[symmetric] take_bit_eq_mod uint_mod)
qed

lemma big_endian_laws: "acn_laws big_endian_lib"
proof -
  have len: "uint (word_of_int (n div 256) :: u8) mod 16 * 256 + uint (word_of_int (n mod 256) :: u8) = n"
    if "0 \<le> n" "n < 4096" for n :: int
    using that by (simp add: uint_word_of_int)
  show ?thesis
    by (auto simp: acn_laws_def big_endian_lib_def bytes_of_u16 bytes_of_u32 keep_high_bits low_nibble len)
qed

end
