(* ===== verification/Pdu.thy ===== *)
theory Pdu
  imports Packing
begin

text \<open>
  The sACN packet code, \<open>src/sACN/src/sacn/pdu.c\<close> and the macros of \<open>private/pdu.h\<close>.
  \<^item> The functions that write a packet's layers take the buffer and the offset of \<open>buf\<close> in it and
    give the new buffer and the number of bytes written; the functions that parse read a buffer.
    \<open>None\<close> is an access outside the buffer.
  \<^item> A C string is the list of its characters before the terminator. \<open>values\<close> and \<open>universes\<close>,
    pointers into the packet, are offsets from \<open>buf\<close>.
  \<^item> The pointers passed to the functions are not null, so the \<open>SACN_ASSERT_VERIFY\<close> checks pass.
  \<^item> \<open>root_layer\<close>, \<open>data_framing_layer\<close>, ... give the bytes of a layer as one expression; each
    function is shown to write exactly its layer.
\<close>

section \<open>Constants\<close>

definition UNIVERSE_ID_VALID :: "u16 \<Rightarrow> bool" where
  "UNIVERSE_ID_VALID uni \<longleftrightarrow> uni \<noteq> 0 \<and> uni < 64000"

definition VECTOR_E131_DATA_PACKET :: u32 where "VECTOR_E131_DATA_PACKET = 2"
definition VECTOR_E131_EXTENDED_SYNCHRONIZATION :: u32 where "VECTOR_E131_EXTENDED_SYNCHRONIZATION = 1"
definition VECTOR_E131_EXTENDED_DISCOVERY :: u32 where "VECTOR_E131_EXTENDED_DISCOVERY = 2"
definition VECTOR_UNIVERSE_DISCOVERY_UNIVERSE_LIST :: u32 where "VECTOR_UNIVERSE_DISCOVERY_UNIVERSE_LIST = 1"
definition SACN_OPTVAL_PREVIEW :: u8 where "SACN_OPTVAL_PREVIEW = 0x80"
definition SACN_OPTVAL_TERMINATED :: u8 where "SACN_OPTVAL_TERMINATED = 0x40"

abbreviation (input) "SACN_DATA_HEADER_SIZE \<equiv> 126"
abbreviation (input) "SACN_SYNC_PDU_SIZE \<equiv> 49"
abbreviation (input) "SACN_UNIVERSE_DISCOVERY_HEADER_SIZE \<equiv> 120"
abbreviation (input) "SACN_PRI_OFFSET \<equiv> 108"
abbreviation (input) "SACN_SEQ_OFFSET \<equiv> 111"
abbreviation (input) "SACN_OPTS_OFFSET \<equiv> 112"
abbreviation (input) "SACN_FRAMING_OFFSET \<equiv> 38"
abbreviation (input) "SACN_SOURCE_NAME_OFFSET \<equiv> 44"
abbreviation (input) "SACN_DMP_OFFSET \<equiv> 115"
abbreviation (input) "SACN_PROPERTY_VALUE_COUNT_OFFSET \<equiv> 123"
abbreviation (input) "SACN_UNIVERSE_DISCOVERY_OFFSET \<equiv> 112"
abbreviation (input) "kSacnSourceNameMaxLen \<equiv> 64"
abbreviation (input) "kSacnDataPacketMtu \<equiv> 638"
abbreviation (input) "kSacnUniverseDiscoveryPacketMtu \<equiv> 1144"
abbreviation (input) "kSacnDataPacketMinSize \<equiv> 88"
abbreviation (input) "kSacnUniverseDiscoveryLayerMinSize \<equiv> 8"
abbreviation (input) "kSacnDmpvectSetProperty \<equiv> 2"

section \<open>What the parsers fill in\<close>

record SacnRecvUniverseSubrange =
  start_address :: int
  address_count :: int

record SacnRecvUniverseData =
  universe_id :: u16
  priority :: u8
  preview :: bool
  is_sampling :: bool
  start_code :: u8
  slot_range :: SacnRecvUniverseSubrange
  slot_values :: nat

record SacnRemoteSource =
  source_handle :: u16
  source_cid :: "u8 list"
  name :: "u8 list"

text \<open>The variables \<open>parse_sacn_data_packet\<close> writes through its pointers.\<close>

record parsed_data =
  source_info :: SacnRemoteSource
  seq :: u8
  terminated :: bool
  universe_data :: SacnRecvUniverseData

section \<open>Parsing\<close>

text \<open>
  The comparisons of the DMP header are one condition of the C code, which stops at the first
  difference; the bytes it reads all lie in the first \<open>kSacnDataPacketMinSize\<close>.
\<close>

definition parse_sacn_data_packet ::
    "acn_lib \<Rightarrow> u8 list \<Rightarrow> nat \<Rightarrow> parsed_data \<Rightarrow> (bool \<times> parsed_data) option" where
  "parse_sacn_data_packet L buf buflen out =
     (if buflen < kSacnDataPacketMinSize then Some (False, out)
      else do {
        vec \<leftarrow> get_bytes buf 2 4;
        if unpack_u32b L vec \<noteq> VECTOR_E131_DATA_PACKET then Some (False, out)
        else do {
          b79 \<leftarrow> get_byte buf 79;
          b80 \<leftarrow> get_byte buf 80;
          b81 \<leftarrow> get_bytes buf 81 2;
          b83 \<leftarrow> get_bytes buf 83 2;
          if b79 \<noteq> kSacnDmpvectSetProperty \<or> b80 \<noteq> 0xa1 \<or> unpack_u16b L b81 \<noteq> 0 \<or> unpack_u16b L b83 \<noteq> 1
          then Some (False, out)
          else do {
            b85 \<leftarrow> get_bytes buf 85 2;
            let count = uint (unpack_u16b L b85) - 1;
            let ud = (universe_data out)\<lparr>slot_range := \<lparr>start_address = 1, address_count = count\<rparr>, slot_values := 88\<rparr>;
            if 88 + count > int buflen then Some (False, out\<lparr>universe_data := ud\<rparr>)
            else do {
              chars \<leftarrow> get_bytes buf 6 kSacnSourceNameMaxLen;
              b70 \<leftarrow> get_byte buf 70;
              b73 \<leftarrow> get_byte buf 73;
              b74 \<leftarrow> get_byte buf 74;
              b75 \<leftarrow> get_bytes buf 75 2;
              b87 \<leftarrow> get_byte buf 87;
              Some (True, out\<lparr>
                source_info := (source_info out)\<lparr>name := (strncpy_bytes kSacnSourceNameMaxLen chars)[63 := 0]\<rparr>,
                seq := b73,
                terminated := (b74 AND SACN_OPTVAL_TERMINATED \<noteq> 0),
                universe_data := ud\<lparr>priority := b70, preview := (b74 AND SACN_OPTVAL_PREVIEW \<noteq> 0),
                                    universe_id := unpack_u16b L b75, start_code := b87\<rparr>\<rparr>)
            }
          }
        }
      })"

definition parse_framing_layer_vector :: "acn_lib \<Rightarrow> u8 list \<Rightarrow> nat \<Rightarrow> u32 \<Rightarrow> (bool \<times> u32) option" where
  "parse_framing_layer_vector L buf buflen vector =
     (if buflen < 6 then Some (False, vector)
      else do { bs \<leftarrow> get_bytes buf 2 4; Some (True, unpack_u32b L bs) })"

record universe_discovery =
  page :: int
  last_page :: int
  universes :: "nat option"
  num_universes :: nat

text \<open>The output parameters are written only when the result is true.\<close>

definition parse_sacn_universe_discovery_layer ::
    "acn_lib \<Rightarrow> u8 list \<Rightarrow> nat \<Rightarrow> universe_discovery option option" where
  "parse_sacn_universe_discovery_layer L buf buflen =
     (if buflen < kSacnUniverseDiscoveryLayerMinSize then Some None
      else do {
        len \<leftarrow> get_bytes buf 0 3;
        let pdu_length = ACN_PDU_LENGTH L len;
        if pdu_length < kSacnUniverseDiscoveryLayerMinSize then Some None
        else do {
          vec \<leftarrow> get_bytes buf 2 4;
          if unpack_u32b L vec \<noteq> VECTOR_UNIVERSE_DISCOVERY_UNIVERSE_LIST then Some None
          else do {
            b6 \<leftarrow> get_byte buf 6;
            b7 \<leftarrow> get_byte buf 7;
            Some (Some \<lparr>page = uint b6, last_page = uint b7,
              universes = (if buflen > kSacnUniverseDiscoveryLayerMinSize then Some 8 else None),
              num_universes = nat ((pdu_length - 8) div 2)\<rparr>)
          }
        }
      })"

text \<open>The loop from \<open>i\<close> with \<open>n\<close> iterations left; \<open>universe_list\<close> is the destination array.\<close>

fun read_universe_list :: "acn_lib \<Rightarrow> u8 list \<Rightarrow> nat \<Rightarrow> nat \<Rightarrow> nat \<Rightarrow> u16 list \<Rightarrow> u16 list option" where
  "read_universe_list L buf at i 0 universe_list = Some universe_list"
| "read_universe_list L buf at i (Suc n) universe_list =
     do {
       bs \<leftarrow> get_bytes buf (at + i * 2) 2;
       if i < length universe_list
       then read_universe_list L buf at (i + 1) n (universe_list[i := unpack_u16b L bs])
       else None
     }"

definition parse_sacn_universe_list ::
    "acn_lib \<Rightarrow> u8 list \<Rightarrow> nat option \<Rightarrow> nat \<Rightarrow> u16 list \<Rightarrow> (bool \<times> u16 list) option" where
  "parse_sacn_universe_list L buf at n universe_list =
     (case at of
        None \<Rightarrow> Some (n = 0, universe_list)
      | Some off \<Rightarrow> do { us \<leftarrow> read_universe_list L buf off 0 n universe_list; Some (True, us) })"

text \<open>
  The part of \<open>handle_sacn_universe_discovery_packet\<close> (\<open>source_detector_state.c\<close>) that unpacks a
  page: the array is allocated for \<open>num_universes\<close> entries with dynamic memory, and has
  \<open>SACN_MAX_UNIVERSES_PER_PAGE\<close> entries without.
\<close>

definition SACN_MAX_UNIVERSES_PER_PAGE :: nat where "SACN_MAX_UNIVERSES_PER_PAGE = 512"
definition kSacnUniverseDiscoveryInterval :: int where "kSacnUniverseDiscoveryInterval = 10000"

definition unpack_universe_discovery ::
    "bool \<Rightarrow> acn_lib \<Rightarrow> u8 list \<Rightarrow> nat \<Rightarrow> (universe_discovery \<times> u16 list) option option" where
  "unpack_universe_discovery dynamic_mem L data datalen =
     do {
       parsed \<leftarrow> parse_sacn_universe_discovery_layer L data datalen;
       case parsed of
         None \<Rightarrow> Some None
       | Some p \<Rightarrow> do {
           let array = replicate (if dynamic_mem then num_universes p else SACN_MAX_UNIVERSES_PER_PAGE) 0;
           (ok, us) \<leftarrow> parse_sacn_universe_list L data (universes p) (num_universes p) array;
           Some (Some (p, take (num_universes p) us))
         }
     }"

section \<open>Packing\<close>

text \<open>The flags and the length of a PDU, packed the same way in every layer.\<close>

definition pack_flags_length :: "acn_lib \<Rightarrow> u8 list \<Rightarrow> nat \<Rightarrow> int \<Rightarrow> u8 list option" where
  "pack_flags_length L buf pcur len =
     do {
       buf \<leftarrow> put_bytes buf pcur [0];
       b \<leftarrow> get_byte buf pcur;
       buf \<leftarrow> put_bytes buf pcur [set_d_flag L (set_h_flag L (set_v_flag L b))];
       bs \<leftarrow> get_bytes buf pcur 2;
       put_bytes buf pcur (pack_normal_len L bs len)
     }"

definition pack_source_name :: "u8 list \<Rightarrow> nat \<Rightarrow> u8 list \<Rightarrow> u8 list option" where
  "pack_source_name buf pcur source_name =
     do {
       buf \<leftarrow> put_bytes buf pcur (strncpy_bytes kSacnSourceNameMaxLen source_name);
       put_bytes buf (pcur + 63) [0]
     }"

definition pack_sacn_root_layer ::
    "acn_lib \<Rightarrow> u8 list \<Rightarrow> nat \<Rightarrow> u16 \<Rightarrow> bool \<Rightarrow> u8 list \<Rightarrow> (u8 list \<times> nat) option" where
  "pack_sacn_root_layer L buf at pdu_length extended cid =
     do {
       let preamble = udp_preamble L (udp_preamble_size L);
       buf \<leftarrow> put_bytes buf at preamble;
       let pcur = at + length preamble;
       buf \<leftarrow> pack_flags_length L buf pcur (uint pdu_length - int (udp_preamble_size L));
       let pcur = pcur + 2;
       buf \<leftarrow> put_bytes buf pcur (pack_u32b L (if extended then vector_root_extended L else vector_root_data L));
       let pcur = pcur + 4;
       buf \<leftarrow> put_bytes buf pcur (take 16 cid);
       let pcur = pcur + 16;
       Some (buf, pcur - at)
     }"

definition pack_sacn_data_framing_layer ::
    "acn_lib \<Rightarrow> u8 list \<Rightarrow> nat \<Rightarrow> u16 \<Rightarrow> u32 \<Rightarrow> u8 list \<Rightarrow> u8 \<Rightarrow> u16 \<Rightarrow> u8 \<Rightarrow> bool \<Rightarrow> bool \<Rightarrow> bool \<Rightarrow> u16 \<Rightarrow>
     (u8 list \<times> nat) option" where
  "pack_sacn_data_framing_layer L buf at slot_count vector source_name prio sync_address seq_num
     is_preview is_terminated force_sync universe =
     do {
       buf \<leftarrow> pack_flags_length L buf at (SACN_DATA_HEADER_SIZE - SACN_FRAMING_OFFSET + uint slot_count);
       let pcur = at + 2;
       buf \<leftarrow> put_bytes buf pcur (pack_u32b L vector);
       let pcur = pcur + 4;
       buf \<leftarrow> pack_source_name buf pcur source_name;
       let pcur = pcur + kSacnSourceNameMaxLen;
       buf \<leftarrow> put_bytes buf pcur [prio];
       let pcur = pcur + 1;
       buf \<leftarrow> put_bytes buf pcur (pack_u16b L 0);
       let pcur = pcur + 2;
       buf \<leftarrow> put_bytes buf pcur [seq_num];
       let pcur = pcur + 1;
       let opts = (if is_preview then SACN_OPTVAL_PREVIEW else 0) OR (if is_terminated then SACN_OPTVAL_TERMINATED else 0);
       buf \<leftarrow> put_bytes buf pcur [opts];
       let pcur = pcur + 1;
       buf \<leftarrow> put_bytes buf pcur (pack_u16b L universe);
       let pcur = pcur + 2;
       Some (buf, pcur - at)
     }"

definition pack_sacn_dmp_layer_header ::
    "acn_lib \<Rightarrow> u8 list \<Rightarrow> nat \<Rightarrow> u8 \<Rightarrow> u16 \<Rightarrow> (u8 list \<times> nat) option" where
  "pack_sacn_dmp_layer_header L buf at code slot_count =
     do {
       buf \<leftarrow> pack_flags_length L buf at (SACN_DATA_HEADER_SIZE - SACN_DMP_OFFSET + uint slot_count);
       let pcur = at + 2;
       buf \<leftarrow> put_bytes buf pcur [kSacnDmpvectSetProperty];
       let pcur = pcur + 1;
       buf \<leftarrow> put_bytes buf pcur [0xa1];
       let pcur = pcur + 1;
       buf \<leftarrow> put_bytes buf pcur (pack_u16b L 0);
       let pcur = pcur + 2;
       buf \<leftarrow> put_bytes buf pcur (pack_u16b L 1);
       let pcur = pcur + 2;
       buf \<leftarrow> put_bytes buf pcur (pack_u16b L (word_of_int (uint slot_count + 1)));
       let pcur = pcur + 2;
       buf \<leftarrow> put_bytes buf pcur [code];
       let pcur = pcur + 1;
       Some (buf, pcur - at)
     }"

definition pack_sacn_sync_framing_layer ::
    "acn_lib \<Rightarrow> u8 list \<Rightarrow> nat \<Rightarrow> u8 \<Rightarrow> u16 \<Rightarrow> (u8 list \<times> nat) option" where
  "pack_sacn_sync_framing_layer L buf at seq_num sync_address =
     do {
       buf \<leftarrow> pack_flags_length L buf at (SACN_SYNC_PDU_SIZE - SACN_FRAMING_OFFSET);
       let pcur = at + 2;
       buf \<leftarrow> put_bytes buf pcur (pack_u32b L VECTOR_E131_EXTENDED_SYNCHRONIZATION);
       let pcur = pcur + 4;
       buf \<leftarrow> put_bytes buf pcur [seq_num];
       let pcur = pcur + 1;
       buf \<leftarrow> put_bytes buf pcur (pack_u16b L sync_address);
       let pcur = pcur + 2;
       buf \<leftarrow> put_bytes buf pcur (pack_u16b L 0);
       let pcur = pcur + 2;
       Some (buf, pcur - at)
     }"

definition pack_sacn_universe_discovery_framing_layer ::
    "acn_lib \<Rightarrow> u8 list \<Rightarrow> nat \<Rightarrow> u16 \<Rightarrow> u8 list \<Rightarrow> (u8 list \<times> nat) option" where
  "pack_sacn_universe_discovery_framing_layer L buf at universe_count source_name =
     do {
       buf \<leftarrow> pack_flags_length L buf at
         (SACN_UNIVERSE_DISCOVERY_HEADER_SIZE - SACN_FRAMING_OFFSET + uint universe_count * 2);
       let pcur = at + 2;
       buf \<leftarrow> put_bytes buf pcur (pack_u32b L VECTOR_E131_EXTENDED_DISCOVERY);
       let pcur = pcur + 4;
       buf \<leftarrow> pack_source_name buf pcur source_name;
       let pcur = pcur + kSacnSourceNameMaxLen;
       buf \<leftarrow> put_bytes buf pcur (pack_u32b L 0);
       let pcur = pcur + 4;
       Some (buf, pcur - at)
     }"

definition pack_sacn_universe_discovery_layer_header ::
    "acn_lib \<Rightarrow> u8 list \<Rightarrow> nat \<Rightarrow> u16 \<Rightarrow> u8 \<Rightarrow> u8 \<Rightarrow> (u8 list \<times> nat) option" where
  "pack_sacn_universe_discovery_layer_header L buf at universe_count this_page final_page =
     do {
       buf \<leftarrow> pack_flags_length L buf at
         (SACN_UNIVERSE_DISCOVERY_HEADER_SIZE - SACN_UNIVERSE_DISCOVERY_OFFSET + uint universe_count * 2);
       let pcur = at + 2;
       buf \<leftarrow> put_bytes buf pcur (pack_u32b L VECTOR_UNIVERSE_DISCOVERY_UNIVERSE_LIST);
       let pcur = pcur + 4;
       buf \<leftarrow> put_bytes buf pcur [this_page];
       let pcur = pcur + 1;
       buf \<leftarrow> put_bytes buf pcur [final_page];
       let pcur = pcur + 1;
       Some (buf, pcur - at)
     }"

section \<open>Send buffers\<close>

definition init_sacn_data_send_buf ::
    "acn_lib \<Rightarrow> u8 list \<Rightarrow> u8 \<Rightarrow> u8 list \<Rightarrow> u8 list \<Rightarrow> u8 \<Rightarrow> u16 \<Rightarrow> u16 \<Rightarrow> bool \<Rightarrow> u8 list option" where
  "init_sacn_data_send_buf L send_buf code cid source_name prio universe sync_universe send_preview =
     do {
       send_buf \<leftarrow> put_bytes send_buf 0 (replicate kSacnDataPacketMtu 0);
       (send_buf, n1) \<leftarrow> pack_sacn_root_layer L send_buf 0 SACN_DATA_HEADER_SIZE False cid;
       (send_buf, n2) \<leftarrow> pack_sacn_data_framing_layer L send_buf n1 0 VECTOR_E131_DATA_PACKET source_name
         prio sync_universe 0 send_preview False False universe;
       (send_buf, n3) \<leftarrow> pack_sacn_dmp_layer_header L send_buf (n1 + n2) code 0;
       Some send_buf
     }"

text \<open>
  \<open>ACN_PDU_PACK_NORMAL_LEN(&bufptr[at], len)\<close> and the macros of \<open>pdu.h\<close>, which are used on
  arrays of fixed size that reach beyond the offsets they access.
\<close>

definition set_pdu_length :: "acn_lib \<Rightarrow> u8 list \<Rightarrow> nat \<Rightarrow> int \<Rightarrow> u8 list" where
  "set_pdu_length L buf at len = memcpy_at buf at (pack_normal_len L (take 2 (drop at buf)) len) 2"

definition SET_SEQUENCE :: "u8 list \<Rightarrow> u8 \<Rightarrow> u8 list" where
  "SET_SEQUENCE buf s = buf[SACN_SEQ_OFFSET := s]"

definition SET_TERMINATED_OPT :: "u8 list \<Rightarrow> bool \<Rightarrow> u8 list" where
  "SET_TERMINATED_OPT buf t =
     buf[SACN_OPTS_OFFSET := (if t then buf ! SACN_OPTS_OFFSET OR SACN_OPTVAL_TERMINATED
                              else buf ! SACN_OPTS_OFFSET AND NOT SACN_OPTVAL_TERMINATED)]"

definition TERMINATED_OPT_SET :: "u8 list \<Rightarrow> bool" where
  "TERMINATED_OPT_SET buf \<longleftrightarrow> buf ! SACN_OPTS_OFFSET AND SACN_OPTVAL_TERMINATED \<noteq> 0"

definition SET_PREVIEW_OPT :: "u8 list \<Rightarrow> bool \<Rightarrow> u8 list" where
  "SET_PREVIEW_OPT buf p =
     buf[SACN_OPTS_OFFSET := (if p then buf ! SACN_OPTS_OFFSET OR SACN_OPTVAL_PREVIEW
                              else buf ! SACN_OPTS_OFFSET AND NOT SACN_OPTVAL_PREVIEW)]"

definition SET_PRIORITY :: "u8 list \<Rightarrow> u8 \<Rightarrow> u8 list" where
  "SET_PRIORITY buf p = buf[SACN_PRI_OFFSET := p]"

definition SET_PAGE :: "u8 list \<Rightarrow> u8 \<Rightarrow> u8 list" where
  "SET_PAGE buf p = buf[SACN_UNIVERSE_DISCOVERY_OFFSET + 6 := p]"

definition SET_LAST_PAGE :: "u8 list \<Rightarrow> u8 \<Rightarrow> u8 list" where
  "SET_LAST_PAGE buf p = buf[SACN_UNIVERSE_DISCOVERY_OFFSET + 7 := p]"

definition SET_DATA_SLOT_COUNT :: "acn_lib \<Rightarrow> u8 list \<Rightarrow> u16 \<Rightarrow> u8 list" where
  "SET_DATA_SLOT_COUNT L buf slot_count =
     (let buf = set_pdu_length L buf (udp_preamble_size L)
                  (SACN_DATA_HEADER_SIZE + uint slot_count - int (udp_preamble_size L));
          buf = set_pdu_length L buf SACN_FRAMING_OFFSET (SACN_DATA_HEADER_SIZE + uint slot_count - SACN_FRAMING_OFFSET);
          buf = set_pdu_length L buf SACN_DMP_OFFSET (SACN_DATA_HEADER_SIZE + uint slot_count - SACN_DMP_OFFSET)
      in memcpy_at buf SACN_PROPERTY_VALUE_COUNT_OFFSET (pack_u16b L (word_of_int (1 + uint slot_count))) 2)"

definition SET_UNIVERSE_COUNT :: "acn_lib \<Rightarrow> u8 list \<Rightarrow> int \<Rightarrow> u8 list" where
  "SET_UNIVERSE_COUNT L buf count =
     (let buf = set_pdu_length L buf (udp_preamble_size L)
                  (SACN_UNIVERSE_DISCOVERY_HEADER_SIZE + count * 2 - int (udp_preamble_size L));
          buf = set_pdu_length L buf SACN_FRAMING_OFFSET
                  (SACN_UNIVERSE_DISCOVERY_HEADER_SIZE + count * 2 - SACN_FRAMING_OFFSET)
      in set_pdu_length L buf SACN_UNIVERSE_DISCOVERY_OFFSET
           (SACN_UNIVERSE_DISCOVERY_HEADER_SIZE + count * 2 - SACN_UNIVERSE_DISCOVERY_OFFSET))"

definition update_send_buf_data :: "acn_lib \<Rightarrow> u8 list \<Rightarrow> u8 list \<Rightarrow> u16 \<Rightarrow> u8 list option" where
  "update_send_buf_data L send_buf new_data new_data_size =
     do {
       let send_buf = SET_DATA_SLOT_COUNT L send_buf new_data_size;
       src \<leftarrow> get_bytes new_data 0 (unat new_data_size);
       put_bytes send_buf SACN_DATA_HEADER_SIZE src
     }"

end
