(* ===== verification/PduLayers.thy ===== *)
theory PduLayers
  imports Pdu
begin

text \<open>
  The layout of the packets, and what each function of \<open>Pdu\<close> does in terms of it. A layer is the
  concatenation of its fields (\<open>root_layer\<close>, \<open>data_framing_layer\<close>, \<open>dmp_layer\<close>, ...). The lemmas
  \<open>..._written\<close> say that a packing function appends exactly its layer to what has been written;
  \<open>data_send_buf\<close> is the whole send buffer of a universe, and the macros that change it are
  described as changes of its fields.
\<close>

section \<open>The layers\<close>

definition name_field :: "u8 list \<Rightarrow> u8 list" where
  "name_field nm = (strncpy_bytes kSacnSourceNameMaxLen nm)[63 := 0]"

definition root_layer :: "acn_lib \<Rightarrow> int \<Rightarrow> bool \<Rightarrow> u8 list \<Rightarrow> u8 list" where
  "root_layer L len extended cid =
     udp_preamble L 16 @ flags_length L (len - 16) @
     pack_u32b L (if extended then vector_root_extended L else vector_root_data L) @ take 16 cid"

definition data_framing_layer ::
    "acn_lib \<Rightarrow> int \<Rightarrow> u32 \<Rightarrow> u8 list \<Rightarrow> u8 \<Rightarrow> u8 \<Rightarrow> u8 \<Rightarrow> u16 \<Rightarrow> u8 list" where
  "data_framing_layer L n vec nm prio sq opts uni =
     flags_length L (88 + n) @ pack_u32b L vec @ nm @ [prio] @ pack_u16b L 0 @ [sq] @ [opts] @ pack_u16b L uni"

definition dmp_layer :: "acn_lib \<Rightarrow> int \<Rightarrow> u8 \<Rightarrow> u8 list" where
  "dmp_layer L n code =
     flags_length L (11 + n) @ [2] @ [0xa1] @ pack_u16b L 0 @ pack_u16b L 1 @ pack_u16b L (word_of_int (n + 1)) @ [code]"

definition discovery_framing_layer :: "acn_lib \<Rightarrow> int \<Rightarrow> u8 list \<Rightarrow> u8 list" where
  "discovery_framing_layer L n nm =
     flags_length L (82 + n * 2) @ pack_u32b L VECTOR_E131_EXTENDED_DISCOVERY @ nm @ pack_u32b L 0"

definition discovery_layer :: "acn_lib \<Rightarrow> int \<Rightarrow> u8 \<Rightarrow> u8 \<Rightarrow> u8 list" where
  "discovery_layer L n pg lst =
     flags_length L (8 + n * 2) @ pack_u32b L VECTOR_UNIVERSE_DISCOVERY_UNIVERSE_LIST @ [pg] @ [lst]"

definition sync_layer :: "acn_lib \<Rightarrow> u8 \<Rightarrow> u16 \<Rightarrow> u8 list" where
  "sync_layer L sq addr =
     flags_length L 11 @ pack_u32b L VECTOR_E131_EXTENDED_SYNCHRONIZATION @ [sq] @ pack_u16b L addr @ pack_u16b L 0"

lemma length_name_field [simp]: "length (name_field nm) = 64"
  by (simp add: name_field_def)

lemma length_layers:
  assumes "acn_laws L"
  shows "length cid = 16 \<Longrightarrow> length (root_layer L len e cid) = 38"
    "length nm = 64 \<Longrightarrow> length (data_framing_layer L n vec nm prio sq opts uni) = 77"
    "length (dmp_layer L n code) = 11" "length nm = 64 \<Longrightarrow> length (discovery_framing_layer L n nm) = 74"
    "length (discovery_layer L n pg lst) = 8" "length (sync_layer L sq addr) = 11"
  using assms flags_length_laws(1)[OF assms]
  by (simp_all add: root_layer_def data_framing_layer_def dmp_layer_def discovery_framing_layer_def
      discovery_layer_def sync_layer_def)

section \<open>The packing functions append their layer\<close>

lemma pack_flags_length_written [written]:
  assumes L: "acn_laws L" and i: "i = length w" "2 \<le> length rest"
  shows "pack_flags_length L (written_at w rest) i n = Some (written_at (w @ flags_length L n) (drop 2 rest))"
proof -
  obtain a b r where rest: "rest = a # b # r"
    using i(2) by (cases rest; cases "tl rest") auto
  have get: "get_byte (w @ c # b # r) (length w) = Some c" "get_bytes (w @ c # b # r) (length w) 2 = Some [c, b]" for c
    by (simp_all add: get_byte_def get_bytes_def)
  have put: "put_bytes (w @ c # b # r) (length w) [e] = Some (w @ e # b # r)" for c e
    by (simp add: put_bytes_def)
  have put2: "put_bytes (w @ c # b # r) (length w) bs = Some (w @ bs @ r)" if "length bs = 2" for c bs
    using that by (simp add: put_bytes_def)
  show ?thesis
    using L flags_length_laws(1,2)[OF L]
    by (simp add: pack_flags_length_def written_at_def rest i(1) put get put2 pdu_flags_def[symmetric])
qed

lemma pack_source_name_written [written]:
  assumes "i = length w" "64 \<le> length rest"
  shows "pack_source_name (written_at w rest) i nm = Some (written_at (w @ name_field nm) (drop 64 rest))"
proof -
  let ?s = "strncpy_bytes 64 nm"
  have split: "?s = take 63 ?s @ [?s ! 63]" using take_Suc_conv_app_nth[of 63 ?s] by simp
  have f: "name_field nm = take 63 ?s @ [0]"
    using upd_conv_take_nth_drop[of 63 ?s 0] by (simp add: name_field_def)
  have "put_bytes (written_at w rest) i ?s = Some (written_at ((w @ take 63 ?s) @ [?s ! 63] @ []) (drop 64 rest))"
    using assms put_bytes_written[of i w ?s rest] split by simp
  moreover have "put_bytes (written_at ((w @ take 63 ?s) @ [?s ! 63] @ []) (drop 64 rest)) (i + 63) [0] =
      Some (written_at ((w @ take 63 ?s) @ [0] @ []) (drop 64 rest))"
    by (rule put_bytes_rewrite) (use assms in auto)
  ultimately show ?thesis by (simp add: pack_source_name_def f)
qed

lemma pack_sacn_root_layer_written [written]:
  assumes "acn_laws L" "i = length w" "38 \<le> length rest" "length cid = 16"
  shows "pack_sacn_root_layer L (written_at w rest) i len e cid =
    Some (written_at (w @ root_layer L (uint len) e cid) (drop 38 rest), 38)"
  using assms flags_length_laws(1)[OF assms(1)]
  by (simp add: pack_sacn_root_layer_def root_layer_def written)

lemma pack_sacn_data_framing_layer_written [written]:
  assumes "acn_laws L" "i = length w" "77 \<le> length rest"
  shows "pack_sacn_data_framing_layer L (written_at w rest) i n vec nm prio sync sq p t f uni =
    Some (written_at (w @ data_framing_layer L (uint n) vec (name_field nm) prio sq
      ((if p then SACN_OPTVAL_PREVIEW else 0) OR (if t then SACN_OPTVAL_TERMINATED else 0)) uni) (drop 77 rest), 77)"
  using assms flags_length_laws(1)[OF assms(1)]
  by (simp add: pack_sacn_data_framing_layer_def data_framing_layer_def written)

lemma pack_sacn_dmp_layer_header_written [written]:
  assumes "acn_laws L" "i = length w" "11 \<le> length rest"
  shows "pack_sacn_dmp_layer_header L (written_at w rest) i code n =
    Some (written_at (w @ dmp_layer L (uint n) code) (drop 11 rest), 11)"
  using assms flags_length_laws(1)[OF assms(1)]
  by (simp add: pack_sacn_dmp_layer_header_def dmp_layer_def written)

lemma pack_sacn_sync_framing_layer_written [written]:
  assumes "acn_laws L" "i = length w" "11 \<le> length rest"
  shows "pack_sacn_sync_framing_layer L (written_at w rest) i sq addr =
    Some (written_at (w @ sync_layer L sq addr) (drop 11 rest), 11)"
  using assms flags_length_laws(1)[OF assms(1)]
  by (simp add: pack_sacn_sync_framing_layer_def sync_layer_def written)

lemma pack_sacn_universe_discovery_framing_layer_written [written]:
  assumes "acn_laws L" "i = length w" "74 \<le> length rest"
  shows "pack_sacn_universe_discovery_framing_layer L (written_at w rest) i n nm =
    Some (written_at (w @ discovery_framing_layer L (uint n) (name_field nm)) (drop 74 rest), 74)"
  using assms flags_length_laws(1)[OF assms(1)]
  by (simp add: pack_sacn_universe_discovery_framing_layer_def discovery_framing_layer_def written)

lemma pack_sacn_universe_discovery_layer_header_written [written]:
  assumes "acn_laws L" "i = length w" "8 \<le> length rest"
  shows "pack_sacn_universe_discovery_layer_header L (written_at w rest) i n pg lst =
    Some (written_at (w @ discovery_layer L (uint n) pg lst) (drop 8 rest), 8)"
  using assms flags_length_laws(1)[OF assms(1)]
  by (simp add: pack_sacn_universe_discovery_layer_header_def discovery_layer_def written)

section \<open>The send buffer of a universe\<close>

definition data_header ::
    "acn_lib \<Rightarrow> u8 list \<Rightarrow> u8 list \<Rightarrow> u8 \<Rightarrow> u8 \<Rightarrow> u8 \<Rightarrow> u16 \<Rightarrow> u8 \<Rightarrow> int \<Rightarrow> u8 list" where
  "data_header L cid nm prio sq opts uni code n =
     root_layer L (126 + n) False cid @ data_framing_layer L n VECTOR_E131_DATA_PACKET nm prio sq opts uni @ dmp_layer L n code"

lemma length_data_header [simp]:
  "acn_laws L \<Longrightarrow> length cid = 16 \<Longrightarrow> length nm = 64 \<Longrightarrow> length (data_header L cid nm prio sq opts uni code n) = 126"
  by (simp add: data_header_def length_layers)

lemma init_sacn_data_send_buf_layout:
  assumes L: "acn_laws L" and len: "length buf = 638" "length cid = 16"
  shows "init_sacn_data_send_buf L buf code cid nm prio uni sync pv =
    Some (data_header L cid (name_field nm) prio 0 (if pv then SACN_OPTVAL_PREVIEW else 0) uni code 0 @ replicate 512 0)"
proof -
  have "put_bytes buf 0 (replicate 638 0) = Some (written_at [] (replicate 638 0))"
    using len by (simp add: put_bytes_def written_at_def)
  then show ?thesis
    using L len length_layers[OF L]
    by (simp add: init_sacn_data_send_buf_def written data_header_def) (simp add: written_at_def)
qed

text \<open>A field inside a buffer is rewritten in place.\<close>

lemma put_field: "buf = a @ old @ b \<Longrightarrow> i = length a \<Longrightarrow> length bs = length old \<Longrightarrow> put_bytes buf i bs = Some (a @ bs @ b)"
  by (simp add: put_bytes_def)

lemma get_field: "buf = a @ old @ b \<Longrightarrow> i = length a \<Longrightarrow> n = length old \<Longrightarrow> get_bytes buf i n = Some old"
  by (simp add: get_bytes_def)

lemma memcpy_field: "buf = a @ old @ b \<Longrightarrow> i = length a \<Longrightarrow> length bs = length old \<Longrightarrow> n = length old \<Longrightarrow> memcpy_at buf i bs n = a @ bs @ b"
  by (simp add: memcpy_at_def)

lemma set_pdu_length_field:
  assumes "acn_laws L" "buf = a @ flags_length L m @ b" "i = length a"
  shows "set_pdu_length L buf i n = a @ flags_length L n @ b"
proof -
  have "take 2 (drop i buf) = flags_length L m"
    using assms flags_length_laws(1)[OF assms(1), of m] by simp
  then show ?thesis
    using assms flags_length_laws(1,3)[OF assms(1)] by (auto simp: set_pdu_length_def intro: memcpy_field)
qed

lemma SET_DATA_SLOT_COUNT_header:
  assumes L: "acn_laws L" and len: "length cid = 16" "length nm = 64"
  shows "SET_DATA_SLOT_COUNT L (data_header L cid nm prio sq opts uni code m @ area) n =
    data_header L cid nm prio sq opts uni code (uint n) @ area"
proof -
  let ?n = "uint n"
  let ?root = "pack_u32b L (vector_root_data L) @ take 16 cid"
  let ?frm = "pack_u32b L VECTOR_E131_DATA_PACKET @ nm @ [prio] @ pack_u16b L 0 @ [sq] @ [opts] @ pack_u16b L uni"
  let ?dmp = "[2] @ [0xa1] @ pack_u16b L 0 @ pack_u16b L 1"
  define B where "B i j k l = udp_preamble L 16 @ flags_length L (110 + i) @ ?root @ flags_length L (88 + j) @ ?frm @
    flags_length L (11 + k) @ ?dmp @ pack_u16b L (word_of_int (l + 1)) @ [code] @ area" for i j k l :: int
  note lens = flags_length_laws(1)[OF L] L len
  have 1: "set_pdu_length L (B m m m m) 16 (110 + ?n) = B ?n m m m"
    unfolding B_def by (rule set_pdu_length_field[OF L refl]) (use lens in simp)
  have 2: "set_pdu_length L (B ?n m m m) 38 (88 + ?n) = B ?n ?n m m"
    unfolding B_def
    by (rule trans[OF set_pdu_length_field[OF L, of _ "udp_preamble L 16 @ flags_length L (110 + ?n) @ ?root" "88 + m"]],
        simp only: append_assoc) (simp_all add: lens)
  have 3: "set_pdu_length L (B ?n ?n m m) 115 (11 + ?n) = B ?n ?n ?n m"
    unfolding B_def
    by (rule trans[OF set_pdu_length_field[OF L, of _ "udp_preamble L 16 @ flags_length L (110 + ?n) @ ?root @
          flags_length L (88 + ?n) @ ?frm" "11 + m"]], simp only: append_assoc) (simp_all add: lens)
  have 4: "memcpy_at (B ?n ?n ?n m) 123 (pack_u16b L (word_of_int (1 + ?n))) 2 = B ?n ?n ?n ?n"
    unfolding B_def add.commute[of 1 ?n]
    by (rule trans[OF memcpy_field[of _ "udp_preamble L 16 @ flags_length L (110 + ?n) @ ?root @ flags_length L (88 + ?n) @ ?frm @
          flags_length L (11 + ?n) @ ?dmp" "pack_u16b L (word_of_int (m + 1))"]], simp only: append_assoc) (simp_all add: lens)
  have B: "data_header L cid nm prio sq opts uni code i @ area = B i i i i" for i
    by (simp add: data_header_def B_def root_layer_def data_framing_layer_def dmp_layer_def)
  show ?thesis
    unfolding SET_DATA_SLOT_COUNT_def B Let_def using L 1 2 3 4 by (simp add: add.commute)
qed

lemma update_send_buf_data_layout:
  assumes L: "acn_laws L" and len: "length cid = 16" "length nm = 64" "length area = 512"
    and n: "unat n \<le> 512" "unat n \<le> length new"
  shows "update_send_buf_data L (data_header L cid nm prio sq opts uni code m @ area) new n =
    Some (data_header L cid nm prio sq opts uni code (uint n) @ take (unat n) new @ drop (unat n) area)"
proof -
  have "get_bytes new 0 (unat n) = Some (take (unat n) new)" using n by (simp add: get_bytes_def)
  moreover have "put_bytes (data_header L cid nm prio sq opts uni code (uint n) @ area) 126 (take (unat n) new) =
      Some (data_header L cid nm prio sq opts uni code (uint n) @ take (unat n) new @ drop (unat n) area)"
    using L len n by (simp add: put_bytes_def)
  ultimately show ?thesis
    using L len by (simp add: update_send_buf_data_def SET_DATA_SLOT_COUNT_header)
qed

text \<open>The other macros change one field of the header.\<close>

lemma upd_byte: "buf = a @ [x] @ b \<Longrightarrow> i = length a \<Longrightarrow> buf[i := y] = a @ [y] @ b"
  by (simp add: list_update_append)

lemma nth_byte: "buf = a @ [x] @ b \<Longrightarrow> i = length a \<Longrightarrow> buf ! i = x"
  by simp

lemma header_field:
  assumes L: "acn_laws L" and len: "length cid = 16" "length nm = 64"
  shows "SET_SEQUENCE (data_header L cid nm prio sq opts uni code n @ area) sq' =
      data_header L cid nm prio sq' opts uni code n @ area"
    "SET_PRIORITY (data_header L cid nm prio sq opts uni code n @ area) prio' =
      data_header L cid nm prio' sq opts uni code n @ area"
    "(data_header L cid nm prio sq opts uni code n @ area)[112 := opts'] =
      data_header L cid nm prio sq opts' uni code n @ area"
    "(data_header L cid nm prio sq opts uni code n @ area) ! 112 = opts"
    "(data_header L cid nm prio sq opts uni code n @ area) ! 125 = code"
    "put_bytes (data_header L cid nm prio sq opts uni code n @ area) 44 (strncpy_bytes 64 nm') =
      Some (data_header L cid (strncpy_bytes 64 nm') prio sq opts uni code n @ area)"
proof -
  let ?head = "udp_preamble L 16 @ flags_length L (110 + n) @ pack_u32b L (vector_root_data L) @ take 16 cid @
    flags_length L (88 + n) @ pack_u32b L VECTOR_E131_DATA_PACKET"
  let ?dmp = "flags_length L (11 + n) @ [2] @ [0xa1] @ pack_u16b L 0 @ pack_u16b L 1 @ pack_u16b L (word_of_int (n + 1))"
  let ?tail = "pack_u16b L uni @ ?dmp @ [code] @ area"
  have B: "data_header L cid nm prio sq opts uni code n @ area =
      ?head @ nm @ [prio] @ pack_u16b L 0 @ [sq] @ [opts] @ ?tail" for nm prio sq opts
    by (simp add: data_header_def root_layer_def data_framing_layer_def dmp_layer_def)
  note lens = flags_length_laws(1)[OF L] L len
  show "SET_SEQUENCE (data_header L cid nm prio sq opts uni code n @ area) sq' =
      data_header L cid nm prio sq' opts uni code n @ area"
    unfolding SET_SEQUENCE_def B
    by (rule trans[OF upd_byte[of _ "?head @ nm @ [prio] @ pack_u16b L 0" sq]], simp only: append_assoc) (simp_all add: lens)
  show "SET_PRIORITY (data_header L cid nm prio sq opts uni code n @ area) prio' =
      data_header L cid nm prio' sq opts uni code n @ area"
    unfolding SET_PRIORITY_def B
    by (rule trans[OF upd_byte[of _ "?head @ nm" prio]], simp only: append_assoc) (simp_all add: lens)
  show "(data_header L cid nm prio sq opts uni code n @ area)[112 := opts'] =
      data_header L cid nm prio sq opts' uni code n @ area"
    unfolding B
    by (rule trans[OF upd_byte[of _ "?head @ nm @ [prio] @ pack_u16b L 0 @ [sq]" opts]], simp only: append_assoc) (simp_all add: lens)
  show "(data_header L cid nm prio sq opts uni code n @ area) ! 112 = opts"
    unfolding B
    by (rule nth_byte[of _ "?head @ nm @ [prio] @ pack_u16b L 0 @ [sq]" opts], simp only: append_assoc) (simp_all add: lens)
  show "(data_header L cid nm prio sq opts uni code n @ area) ! 125 = code"
    unfolding B
    by (rule nth_byte[of _ "?head @ nm @ [prio] @ pack_u16b L 0 @ [sq] @ [opts] @ pack_u16b L uni @ ?dmp" code],
        simp only: append_assoc) (simp_all add: lens)
  show "put_bytes (data_header L cid nm prio sq opts uni code n @ area) 44 (strncpy_bytes 64 nm') =
      Some (data_header L cid (strncpy_bytes 64 nm') prio sq opts uni code n @ area)"
    unfolding B by (rule put_field[of _ ?head nm], simp only: append_assoc) (simp_all add: lens)
qed

end
