(* ===== verification/PduProps.thy ===== *)
theory PduProps
  imports PduLayers
begin

text \<open>
  What holds of the packets: a data packet built in a send buffer is read back by the parser, the
  data parser reads inside the packet only and accepts exactly the packets described by
  \<open>data_accepted\<close>, and the limits of the universe discovery parser.
\<close>

section \<open>The name field\<close>

lemma replicate_64: "n \<le> 63 \<Longrightarrow> replicate (64 - n) x = replicate (63 - n) x @ [x]"
proof -
  assume "n \<le> 63"
  then have "64 - n = Suc (63 - n)" by simp
  then show ?thesis by (simp only: replicate_Suc replicate_append_same)
qed

lemma name_field_alt: "name_field nm = strncpy_bytes 63 nm @ [0]"
proof -
  let ?p = "\<lambda>c :: u8. c \<noteq> 0"
  show ?thesis
  proof (cases "\<forall>c \<in> set (take 63 nm). c \<noteq> 0")
    case True
    then have t: "takeWhile ?p (take 63 nm) = take 63 nm" by (simp add: takeWhile_eq_all_conv)
    show ?thesis
    proof (cases "63 < length nm")
      case True
      have "take 64 nm = take 63 nm @ [nm ! 63]" using True take_Suc_conv_app_nth[of 63 nm] by simp
      then have "takeWhile ?p (take 64 nm) = take 63 nm @ (if nm ! 63 = 0 then [] else [nm ! 63])"
        using t by (simp add: takeWhile_append)
      then show ?thesis unfolding name_field_def strncpy_bytes_def Let_def t using True by (simp add: list_update_append)
    next
      case False
      then have "take 64 nm = nm" "take 63 nm = nm" by auto
      moreover from this(2) t have "takeWhile ?p nm = nm" by simp
      moreover have "replicate (64 - length nm) (0 :: u8) = replicate (63 - length nm) 0 @ [0]"
        using False by (intro replicate_64) simp
      ultimately show ?thesis
        unfolding name_field_def strncpy_bytes_def Let_def using False by (simp only:) (simp add: list_update_append)
    qed
  next
    case False
    then obtain c where c: "c \<in> set (take 63 nm)" "c = 0" by blast
    then have tw: "takeWhile ?p (take 64 nm) = takeWhile ?p (take 63 nm)"
    proof (cases "63 < length nm")
      case True
      then have "take 64 nm = take 63 nm @ [nm ! 63]" using take_Suc_conv_app_nth[of 63 nm] by simp
      then show ?thesis using c takeWhile_append1[of c "take 63 nm" ?p "[nm ! 63]"] by simp
    qed simp
    have "takeWhile ?p (take 63 nm) \<noteq> take 63 nm"
      using c set_takeWhileD[of c ?p "take 63 nm"] by auto
    then have "length (takeWhile ?p (take 63 nm)) \<noteq> length (take 63 nm)"
      using takeWhile_eq_take[of ?p "take 63 nm"] by (metis order_refl take_all)
    then have l: "length (takeWhile ?p (take 63 nm)) < 63"
      using length_takeWhile_le[of ?p "take 63 nm"] by (auto simp: min_def split: if_splits)
    moreover from l have "replicate (64 - length (takeWhile ?p (take 63 nm))) (0 :: u8) =
        replicate (63 - length (takeWhile ?p (take 63 nm))) 0 @ [0]"
      by (intro replicate_64) simp
    ultimately show ?thesis
      unfolding name_field_def strncpy_bytes_def Let_def tw by (simp only:) (simp add: list_update_append)
  qed
qed

lemma name_field_idem: "name_field (name_field nm) = name_field nm"
  using strncpy_bytes_idem[of 63 nm "[0]"] by (simp add: name_field_alt[of "name_field nm"]) (simp add: name_field_alt)

section \<open>Data packets\<close>

text \<open>What the parser accepts, on the bytes of the framing layer and what follows.\<close>

definition data_accepted :: "acn_lib \<Rightarrow> u8 list \<Rightarrow> bool" where
  "data_accepted L buf \<longleftrightarrow> 88 \<le> length buf \<and>
     unpack_u32b L (take 4 (drop 2 buf)) = VECTOR_E131_DATA_PACKET \<and>
     buf ! 79 = 2 \<and> buf ! 80 = 0xa1 \<and> unpack_u16b L (take 2 (drop 81 buf)) = 0 \<and> unpack_u16b L (take 2 (drop 83 buf)) = 1 \<and>
     88 + (uint (unpack_u16b L (take 2 (drop 85 buf))) - 1) \<le> int (length buf)"

text \<open>
  C35: For every input, \<open>parse_sacn_data_packet\<close> reads only the bytes of the packet: it gives a result
  whatever follows the packet in memory, and that result does not depend on it. It accepts a packet
  exactly if it has the right vectors, address type, first address and increment, and the slots it
  announces lie inside it; no other check is made. Then the slots start at address 1, their number is
  the property value count less 1, the name is terminated, and the rest is as the packet has it. The
  count itself is not checked: a packet with the malformed property value count 0 is accepted with
  -1 slots. A rejected packet leaves the source, the sequence number and the termination flag alone.
\<close>

theorem data_parse_in_bounds:
  "\<exists>ok out'. parse_sacn_data_packet L (buf @ beyond) (length buf) out = Some (ok, out') \<and>
     ok = data_accepted L buf \<and>
     (let ud = universe_data out'; count = address_count (slot_range ud) in
      if ok then length (name (source_info out')) = 64 \<and> name (source_info out') ! 63 = 0 \<and>
        source_cid (source_info out') = source_cid (source_info out) \<and>
        start_address (slot_range ud) = 1 \<and> count = uint (unpack_u16b L (take 2 (drop 85 buf))) - 1 \<and>
        (count = -1 \<longleftrightarrow> unpack_u16b L (take 2 (drop 85 buf)) = 0) \<and> slot_values ud = 88 \<and> 88 + count \<le> int (length buf) \<and>
        seq out' = buf ! 73 \<and> priority ud = buf ! 70 \<and> start_code ud = buf ! 87 \<and>
        universe_id ud = unpack_u16b L (take 2 (drop 75 buf)) \<and>
        preview ud = (buf ! 74 AND SACN_OPTVAL_PREVIEW \<noteq> 0) \<and> terminated out' = (buf ! 74 AND SACN_OPTVAL_TERMINATED \<noteq> 0)
      else source_info out' = source_info out \<and> seq out' = seq out \<and> terminated out' = terminated out)"
proof -
  have byte: "get_byte (buf @ beyond) i = Some (buf ! i)" if "i < 88" "88 \<le> length buf" for i
    using that by (simp add: get_byte_def nth_append)
  have bytes: "get_bytes (buf @ beyond) i n = Some (take n (drop i buf))" if "i + n \<le> 88" "88 \<le> length buf" for i n
    using that by (simp add: get_bytes_def)
  show ?thesis
  proof (cases "88 \<le> length buf")
    case True
    have "uint w = 0 \<longleftrightarrow> w = 0" for w :: u16 by (simp add: uint_0_iff)
    then show ?thesis
      using True by (auto simp: parse_sacn_data_packet_def byte[OF _ True] bytes[OF _ True] data_accepted_def Let_def)
  qed (auto simp: parse_sacn_data_packet_def data_accepted_def Let_def)
qed

text \<open>A packet with the property value count \<open>n\<close> and two slots.\<close>

definition two_slots_packet :: "u8 \<Rightarrow> u8 list" where
  "two_slots_packet n =
     [0x70, 0x5b, 0, 0, 0, 2] @ replicate 71 0 @ [0x70, 0x0e, 2, 0xa1, 0, 0, 0, 1, 0, n, 0, 10, 20]"

definition blank_data :: parsed_data where
  "blank_data = \<lparr>source_info = \<lparr>source_handle = 0, source_cid = [], name = replicate 64 0\<rparr>, seq = 0, terminated = False,
     universe_data = \<lparr>universe_id = 0, priority = 0, preview = False, is_sampling = False, start_code = 0,
       slot_range = \<lparr>start_address = 0, address_count = 0\<rparr>, slot_values = 0\<rparr>\<rparr>"

theorem data_parse_in_bounds_witness:
  "(\<exists>out'. parse_sacn_data_packet big_endian_lib (two_slots_packet 3) 90 blank_data = Some (True, out') \<and>
      address_count (slot_range (universe_data out')) = 2 \<and> slot_values (universe_data out') = 88) \<and>
   (\<exists>out'. parse_sacn_data_packet big_endian_lib (two_slots_packet 4) 90 blank_data = Some (False, out') \<and> seq out' = 0) \<and>
   (\<exists>out'. parse_sacn_data_packet big_endian_lib (two_slots_packet 0) 90 blank_data = Some (True, out') \<and>
      address_count (slot_range (universe_data out')) = -1)"
proof -
  have n: "uint (unpack_u16b big_endian_lib (take 2 (drop 85 (two_slots_packet n)))) = uint n" for n
    by (simp add: two_slots_packet_def big_endian_lib_def drop_Cons' uint_up_ucast is_up)
  have len: "length (two_slots_packet n) = 90" for n by (simp add: two_slots_packet_def)
  have acc: "data_accepted big_endian_lib (two_slots_packet n) \<longleftrightarrow> uint n \<le> 3" for n
    unfolding data_accepted_def n len
    by (auto simp: two_slots_packet_def big_endian_lib_def VECTOR_E131_DATA_PACKET_def nth_append drop_Cons')
  note parse = data_parse_in_bounds[of big_endian_lib "two_slots_packet n" "[]" blank_data for n, unfolded n len acc Let_def append_Nil2]
  show ?thesis using parse[of 3] parse[of 4] parse[of 0] by (auto simp: blank_data_def)
qed

section \<open>The round trip of a data packet\<close>

lemma get_byte_field: "buf = a @ [x] @ b \<Longrightarrow> i = length a \<Longrightarrow> get_byte buf i = Some x"
  by (simp add: get_byte_def)

text \<open>The bytes a receiver has left after the root layer, field by field.\<close>

lemma parse_data_layers:
  assumes L: "acn_laws L" and nm: "length nm = 64" and n: "length data = unat n" "unat n \<le> 512"
  shows "parse_sacn_data_packet L
      (data_framing_layer L (uint n) VECTOR_E131_DATA_PACKET nm prio sq opts uni @ dmp_layer L (uint n) code @ data)
      (88 + unat n) out =
    Some (True, out\<lparr>source_info := (source_info out)\<lparr>name := name_field nm\<rparr>, seq := sq,
      terminated := (opts AND SACN_OPTVAL_TERMINATED \<noteq> 0),
      universe_data := (universe_data out)\<lparr>slot_range := \<lparr>start_address = 1, address_count = uint n\<rparr>, slot_values := 88,
        priority := prio, preview := (opts AND SACN_OPTVAL_PREVIEW \<noteq> 0), universe_id := uni, start_code := code\<rparr>\<rparr>)"
proof -
  define buf where "buf = data_framing_layer L (uint n) VECTOR_E131_DATA_PACKET nm prio sq opts uni @ dmp_layer L (uint n) code @ data"
  note lens = flags_length_laws(1)[OF L] L nm
  let ?v = "pack_u32b L VECTOR_E131_DATA_PACKET"
  let ?f = "flags_length L (88 + uint n)"
  let ?d = "flags_length L (11 + uint n)"
  let ?z = "pack_u16b L 0"
  let ?o = "pack_u16b L 1"
  define cw :: u16 where "cw = word_of_int (uint n + 1)"
  let ?c = "pack_u16b L cw"
  let ?u = "pack_u16b L uni"
  have buf: "buf = ?f @ ?v @ nm @ [prio] @ ?z @ [sq] @ [opts] @ ?u @ ?d @ [2] @ [0xa1] @ ?z @ ?o @ ?c @ [code] @ data"
    by (simp add: buf_def data_framing_layer_def dmp_layer_def cw_def)
  have g2: "get_bytes buf 2 4 = Some ?v"
    by (rule get_field[of _ "?f"], simp only: buf append_assoc) (simp_all add: lens)
  have g6: "get_bytes buf 6 64 = Some nm"
    by (rule get_field[of _ "?f @ ?v"], simp only: buf append_assoc) (simp_all add: lens)
  have g70: "get_byte buf 70 = Some prio"
    by (rule get_byte_field[of _ "?f @ ?v @ nm"], simp only: buf append_assoc) (simp_all add: lens)
  have g73: "get_byte buf 73 = Some sq"
    by (rule get_byte_field[of _ "?f @ ?v @ nm @ [prio] @ ?z"], simp only: buf append_assoc) (simp_all add: lens)
  have g74: "get_byte buf 74 = Some opts"
    by (rule get_byte_field[of _ "?f @ ?v @ nm @ [prio] @ ?z @ [sq]"], simp only: buf append_assoc) (simp_all add: lens)
  have g75: "get_bytes buf 75 2 = Some ?u"
    by (rule get_field[of _ "?f @ ?v @ nm @ [prio] @ ?z @ [sq] @ [opts]"], simp only: buf append_assoc) (simp_all add: lens)
  have g79: "get_byte buf 79 = Some 2"
    by (rule get_byte_field[of _ "?f @ ?v @ nm @ [prio] @ ?z @ [sq] @ [opts] @ ?u @ ?d"], simp only: buf append_assoc) (simp_all add: lens)
  have g80: "get_byte buf 80 = Some 0xa1"
    by (rule get_byte_field[of _ "?f @ ?v @ nm @ [prio] @ ?z @ [sq] @ [opts] @ ?u @ ?d @ [2]"], simp only: buf append_assoc) (simp_all add: lens)
  have g81: "get_bytes buf 81 2 = Some ?z"
    by (rule get_field[of _ "?f @ ?v @ nm @ [prio] @ ?z @ [sq] @ [opts] @ ?u @ ?d @ [2] @ [0xa1]"], simp only: buf append_assoc) (simp_all add: lens)
  have g83: "get_bytes buf 83 2 = Some ?o"
    by (rule get_field[of _ "?f @ ?v @ nm @ [prio] @ ?z @ [sq] @ [opts] @ ?u @ ?d @ [2] @ [0xa1] @ ?z"], simp only: buf append_assoc) (simp_all add: lens)
  have g85: "get_bytes buf 85 2 = Some ?c"
    by (rule get_field[of _ "?f @ ?v @ nm @ [prio] @ ?z @ [sq] @ [opts] @ ?u @ ?d @ [2] @ [0xa1] @ ?z @ ?o"], simp only: buf append_assoc) (simp_all add: lens)
  have g87: "get_byte buf 87 = Some code"
    by (rule get_byte_field[of _ "?f @ ?v @ nm @ [prio] @ ?z @ [sq] @ [opts] @ ?u @ ?d @ [2] @ [0xa1] @ ?z @ ?o @ ?c"], simp only: buf append_assoc) (simp_all add: lens)
  note gets = g2 g6 g70 g73 g74 g75 g79 g80 g81 g83 g85 g87
  have un: "uint n = int (unat n)" by simp
  have count: "uint cw - 1 = uint n"
  proof -
    have "(uint n + 1) mod 65536 = uint n + 1" using n(2) un by (intro mod_pos_pos_trivial) linarith+
    then show ?thesis unfolding cw_def uint_word_of_int by simp
  qed
  show ?thesis
    unfolding buf_def[symmetric]
    by (simp add: parse_sacn_data_packet_def gets acn_unpack[OF L] count Let_def name_field_def[symmetric])
qed

text \<open>
  C34: Round trip. The send buffer that \<open>init_sacn_data_send_buf\<close> and \<open>update_send_buf_data\<close> fill for a
  universe with \<open>n\<close> slots (at most 512) holds a packet of \<open>126 + n\<close> bytes; the root layer's length, from
  which the socket code takes the size to send, says so. A receiver that strips the 38 bytes
  of the root layer and parses the rest gets back the name (cut to 63 characters and
  terminated), the priority, the preview flag, the universe, the start code, sequence number
  0, no termination, and the \<open>n\<close> slots with their values.
\<close>

theorem data_packet_roundtrip:
  assumes L: "acn_laws L" and len: "length buf = 638" "length cid = 16" and n: "unat n \<le> 512" "unat n \<le> length levels"
  shows "\<exists>send packet.
    do { b \<leftarrow> init_sacn_data_send_buf L buf code cid nm prio uni sync pv; update_send_buf_data L b levels n } = Some send \<and>
    length send = 638 \<and> packet = take (126 + unat n) send \<and> ACN_PDU_LENGTH L (take 3 (drop 16 packet)) + 16 = int (length packet) \<and>
    (\<exists>out'. parse_sacn_data_packet L (drop 38 packet) (length packet - 38) out = Some (True, out') \<and>
      name (source_info out') = name_field nm \<and> priority (universe_data out') = prio \<and> preview (universe_data out') = pv \<and>
      universe_id (universe_data out') = uni \<and> start_code (universe_data out') = code \<and> seq out' = 0 \<and> \<not> terminated out' \<and>
      slot_range (universe_data out') = \<lparr>start_address = 1, address_count = uint n\<rparr> \<and>
      drop (slot_values (universe_data out')) (drop 38 packet) = take (unat n) levels)"
proof -
  define opts where "opts = (if pv then SACN_OPTVAL_PREVIEW else 0)"
  define hd where "hd m = data_header L cid (name_field nm) prio 0 opts uni code m" for m
  define send where "send = hd (uint n) @ take (unat n) levels @ drop (unat n) (replicate 512 0)"
  have lh: "length (hd m) = 126" for m using L len by (simp add: hd_def)
  have init: "init_sacn_data_send_buf L buf code cid nm prio uni sync pv = Some (hd 0 @ replicate 512 0)"
    unfolding hd_def opts_def by (rule init_sacn_data_send_buf_layout[OF L len])
  have upd: "update_send_buf_data L (hd 0 @ replicate 512 0) levels n = Some send"
    unfolding send_def hd_def by (rule update_send_buf_data_layout) (use L len n in auto)
  have packet: "take (126 + unat n) send = hd (uint n) @ take (unat n) levels"
    using n by (simp add: send_def lh)
  have root: "hd m = root_layer L (126 + m) False cid @ data_framing_layer L m VECTOR_E131_DATA_PACKET (name_field nm) prio 0 opts uni @
      dmp_layer L m code" for m
    by (simp add: hd_def data_header_def)
  have body: "drop 38 (hd m @ xs) = data_framing_layer L m VECTOR_E131_DATA_PACKET (name_field nm) prio 0 opts uni @ dmp_layer L m code @ xs"
    for m xs
    unfolding root using L len length_layers(1)[OF L len(2)] by simp
  have un: "uint n = int (unat n)" by simp
  obtain v where v: "pack_u32b L (vector_root_data L) = v" "length v = 4" using L by simp
  then obtain c v' where c: "v = c # v'" by (cases v) auto
  have "hd (uint n) @ take (unat n) levels = udp_preamble L 16 @ (flags_length L (110 + uint n) @ [c]) @ drop 19 (hd (uint n) @ take (unat n) levels)"
    using L len flags_length_laws(1)[OF L] by (simp add: root root_layer_def v c)
  then have "take 3 (drop 16 (hd (uint n) @ take (unat n) levels)) = flags_length L (110 + uint n) @ [c]"
    using get_field[of "hd (uint n) @ take (unat n) levels" "udp_preamble L 16" "flags_length L (110 + uint n) @ [c]" _ 16 3] L flags_length_laws(1)[OF L]
    by (simp add: get_bytes_def split: if_splits)
  from this have size: "ACN_PDU_LENGTH L (take 3 (drop 16 (hd (uint n) @ take (unat n) levels))) = 110 + uint n"
  proof -
    have "0 \<le> 110 + uint n" "110 + uint n < 4096" using n(1) un by linarith+
    from flags_length_laws(4)[OF L this, of c] show ?thesis using \<open>take 3 _ = _\<close> by simp
  qed
  have flags: "opts AND SACN_OPTVAL_TERMINATED = 0" "(opts AND SACN_OPTVAL_PREVIEW \<noteq> 0) = pv"
    by (simp_all add: opts_def SACN_OPTVAL_TERMINATED_def SACN_OPTVAL_PREVIEW_def)
  note parsed = parse_data_layers[OF L length_name_field, of "take (unat n) levels" n nm prio 0 opts uni code out]
  have l38: "length (hd (uint n) @ take (unat n) levels) - 38 = 88 + unat n" using lh n by simp
  have drop88: "drop 88 (data_framing_layer L (uint n) VECTOR_E131_DATA_PACKET (name_field nm) prio 0 opts uni @ dmp_layer L (uint n) code @ xs) = xs" for xs
    using length_layers(2)[OF L length_name_field] length_layers(3)[OF L] by simp
  let ?p = "hd (uint n) @ take (unat n) levels"
  have lp: "length ?p = 126 + unat n" using lh n by simp
  have ls: "length send = 638" using n by (simp add: send_def lh)
  have run: "do { b \<leftarrow> init_sacn_data_send_buf L buf code cid nm prio uni sync pv; update_send_buf_data L b levels n } = Some send"
    by (simp add: init upd)
  obtain out' where out': "parse_sacn_data_packet L (drop 38 ?p) (length ?p - 38) out = Some (True, out')"
    "name (source_info out') = name_field nm" "priority (universe_data out') = prio" "preview (universe_data out') = pv"
    "universe_id (universe_data out') = uni" "start_code (universe_data out') = code" "seq out' = 0" "\<not> terminated out'"
    "slot_range (universe_data out') = \<lparr>start_address = 1, address_count = uint n\<rparr>" "slot_values (universe_data out') = 88"
    unfolding body l38 using parsed n flags by (simp add: name_field_idem)
  have "drop (slot_values (universe_data out')) (drop 38 ?p) = take (unat n) levels"
    unfolding out'(10) body by (rule drop88)
  moreover have "ACN_PDU_LENGTH L (take 3 (drop 16 ?p)) + 16 = int (length ?p)"
    unfolding size lp by simp
  ultimately show ?thesis
    using run ls out' packet by metis
qed

theorem data_packet_roundtrip_witness:
  "\<exists>send out'.
    do { b \<leftarrow> init_sacn_data_send_buf big_endian_lib (replicate 638 0) 0 (replicate 16 7) [0x41] 100 5 0 True;
         update_send_buf_data big_endian_lib b [10, 20, 30] 3 } = Some send \<and>
    parse_sacn_data_packet big_endian_lib (drop 38 (take 129 send)) 91 blank_data = Some (True, out') \<and>
    universe_id (universe_data out') = 5 \<and> preview (universe_data out') \<and> slot_range (universe_data out') = \<lparr>start_address = 1, address_count = 3\<rparr>"
proof -
  have "unat (3 :: u16) = 3" by simp
  then show ?thesis
    using data_packet_roundtrip[OF big_endian_laws, of "replicate 638 0" "replicate 16 7" 3 "[10, 20, 30]" 0 "[0x41]" 100 5 0 True blank_data]
    by fastforce
qed

section \<open>Universe discovery\<close>

lemma read_universe_list_spec:
  "read_universe_list L buf at i n lst =
    (if n = 0 \<or> at + 2 * (i + n) \<le> length buf \<and> i + n \<le> length lst
     then Some (take i lst @ map (\<lambda>k. unpack_u16b L (take 2 (drop (at + 2 * k) buf))) [i..<i + n] @ drop (i + n) lst)
     else None)"
proof (induction n arbitrary: i lst)
  case (Suc n)
  show ?case
  proof (cases "at + i * 2 + 2 \<le> length buf \<and> i < length lst")
    case True
    then have g: "get_bytes buf (at + i * 2) 2 = Some (take 2 (drop (at + 2 * i) buf))"
      by (simp add: get_bytes_def mult.commute)
    define x where "x = unpack_u16b L (take 2 (drop (at + 2 * i) buf))"
    have "take (Suc i) (lst[i := x]) = take i lst @ [x]" "drop (Suc (i + n)) (lst[i := x]) = drop (Suc (i + n)) lst"
      using True by (simp_all add: take_Suc_conv_app_nth)
    moreover have "[i..<i + Suc n] = i # [Suc i..<Suc i + n]" by (simp add: upt_conv_Cons)
    ultimately show ?thesis
      using True Suc.IH[of "Suc i" "lst[i := x]"] by (simp add: g x_def[symmetric])
  next
    case False
    then show ?thesis by (auto simp: get_bytes_def)
  qed
qed simp

lemma parse_discovery_layer:
  "\<exists>r. parse_sacn_universe_discovery_layer L buf (length buf) = Some r \<and>
    (\<forall>p. r = Some p \<longrightarrow> universes p = (if length buf = 8 then None else Some 8) \<and>
      num_universes p = nat ((ACN_PDU_LENGTH L (take 3 buf) - 8) div 2) \<and> page p = uint (buf ! 6) \<and> last_page p = uint (buf ! 7) \<and>
      8 \<le> length buf)"
  by (auto simp: parse_sacn_universe_discovery_layer_def get_bytes_def get_byte_def Let_def)

text \<open>
  C36: The universe discovery parser takes the number of universes from the length field of the
  layer and never compares it with the bytes received. The layer itself is always read inside the
  packet; reading the list of universes stays inside the packet, and inside the array it is stored
  in, exactly when the announced universes were sent and, without dynamic memory, are at most 512
  (a layer without any list is not read). A packet that announces more makes the library read
  past its end, or write past the array.
\<close>

theorem discovery_list_bounds:
  assumes "parse_sacn_universe_discovery_layer L data (length data) = Some (Some p)"
  shows "unpack_universe_discovery dyn L data (length data) \<noteq> None \<longleftrightarrow>
    length data = 8 \<or> num_universes p = 0 \<or>
    8 + 2 * num_universes p \<le> length data \<and> (dyn \<or> num_universes p \<le> SACN_MAX_UNIVERSES_PER_PAGE)"
proof -
  have u: "universes p = (if length data = 8 then None else Some 8)"
    using parse_discovery_layer[of L data] assms by auto
  show ?thesis
    by (auto simp: unpack_universe_discovery_def assms u parse_sacn_universe_list_def read_universe_list_spec Let_def
        split: if_splits)
qed

definition lying_packet :: "u8 list" where
  "lying_packet = [0x70, 12, 0, 0, 0, 1, 0, 0, 0, 1]"

theorem discovery_list_bounds_witness:
  "unpack_universe_discovery True big_endian_lib lying_packet (length lying_packet) = None"
proof -
  have "parse_sacn_universe_discovery_layer big_endian_lib lying_packet (length lying_packet) =
      Some (Some \<lparr>page = 0, last_page = 0, universes = Some 8, num_universes = 2\<rparr>)"
    by (simp add: parse_sacn_universe_discovery_layer_def lying_packet_def big_endian_lib_def get_bytes_def get_byte_def
        VECTOR_UNIVERSE_DISCOVERY_UNIVERSE_LIST_def drop_Cons' nth_Cons')
  from discovery_list_bounds[OF this, of True] show ?thesis by (simp add: lying_packet_def)
qed

end
