(* ===== verification/SourceState.thy ===== *)
theory SourceState
  imports Pdu EtcPal
begin

text \<open>
  The state of the sACN sources and the transmission of their data:
  \<open>src/sACN/src/sacn/source_state.c\<close> and the arrays of \<open>src/sACN/src/sacn/mem/source\<close>.
  \<^item> \<open>source_universe\<close>, \<open>sacn_source\<close> and \<open>source_module\<close> are \<open>SacnSourceUniverse\<close>, \<open>SacnSource\<close> and
    the pool of sources with the static variables of the thread. An array with its count is a list. A
    pointer to a universe is its index in the source.
  \<^item> The environment \<open>source_env\<close> holds EtcPal (packing, timers at the time of the call) and the
    results of the socket functions for every packet and destination. A function that sends also gives
    the list of its calls to \<open>sacn_send_multicast\<close> and \<open>sacn_send_unicast\<close>, in order.
  \<^item> \<open>SACN_ETC_PRIORITY_EXTENSION\<close> is 1, as by default. An address is a number, equal exactly when
    \<open>etcpal_ip_cmp\<close> says so. \<open>num_active_universes\<close>, a \<open>size_t\<close>, is an integer: it is shown never
    to be decremented from 0. The pointers passed are not null.
\<close>

section \<open>State\<close>

datatype termination_state = kTerminatingAndRemoving | kTerminatingWithoutRemoving | kNotTerminating

type_synonym ip_addr = nat
type_synonym mcast_netint_id = "nat \<times> u32"

record unicast_destination =
  dest_addr :: ip_addr
  dest_state :: termination_state
  dest_terminations_sent :: int
  dest_last_send_error :: etcpal_error

record 'tm source_universe =
  universe_id :: u16
  termination_state :: termination_state
  num_terminations_sent :: int
  priority :: u8
  sync_universe :: u16
  send_preview :: bool
  next_seq_num :: u8
  level_packets_sent_before_suppression :: int
  level_keep_alive_timer :: 'tm
  level_send_buf :: "u8 list"
  has_level_data :: bool
  levels_sent_this_tick :: bool
  pap_packets_sent_before_suppression :: int
  pap_keep_alive_timer :: 'tm
  pap_send_buf :: "u8 list"
  has_pap_data :: bool
  pap_sent_this_tick :: bool
  other_sent_this_tick :: bool
  anything_sent_this_tick :: bool
  unicast_dests :: "unicast_destination list"
  send_unicast_only :: bool
  last_send_error :: etcpal_error
  netints :: "mcast_netint_id list"

record source_netint =
  netint_id :: mcast_netint_id
  num_refs :: nat

record 'tm sacn_source =
  source_handle :: int
  cid :: "u8 list"
  source_name :: "u8 list"
  terminating :: bool
  universes :: "'tm source_universe list"
  num_active_universes :: int
  universe_discovery_timer :: 'tm
  process_manually :: bool
  keep_alive_interval :: int
  pap_keep_alive_interval :: int
  universe_count_max :: nat
  stats_log_timer :: 'tm
  total_tick_count :: int
  failed_tick_count :: int
  source_netints :: "source_netint list"
  universe_discovery_send_buf :: "u8 list"

record 'tm source_module =
  shutting_down :: bool
  thread_initialized :: bool
  sources :: "'tm sacn_source list"

record 'tm source_env =
  acn :: acn_lib
  timer_start :: "int \<Rightarrow> 'tm"
  timer_reset :: "'tm \<Rightarrow> 'tm"
  timer_is_expired :: "'tm \<Rightarrow> bool"
  multicast_result :: "u16 \<Rightarrow> u8 list \<Rightarrow> mcast_netint_id \<Rightarrow> etcpal_error"
  unicast_result :: "u8 list \<Rightarrow> ip_addr \<Rightarrow> etcpal_error"
  unicast_last_error :: "u8 list \<Rightarrow> ip_addr \<Rightarrow> etcpal_error \<Rightarrow> etcpal_error"

datatype send_call = SendMulticast u16 mcast_netint_id "u8 list" | SendUnicast ip_addr "u8 list"

datatype tick_mode =
    kSacnSourceTickModeProcessLevelsOnly
  | kSacnSourceTickModeProcessPapOnly
  | kSacnSourceTickModeProcessLevelsAndPap

datatype reset_behavior = kResetLevel | kResetPap | kResetLevelAndPap
datatype terminating_behavior = kTerminateAndRemove | kTerminateWithoutRemoving
datatype process_behavior = kProcessManualSources | kProcessThreadedSources

definition NUM_PRE_SUPPRESSION_PACKETS :: int where "NUM_PRE_SUPPRESSION_PACKETS = 4"
definition kSacnUniverseDiscoveryMaxUniversesPerPage :: nat where "kSacnUniverseDiscoveryMaxUniversesPerPage = 512"
definition kSacnDiscoveryUniverse :: u16 where "kSacnDiscoveryUniverse = 64214"

abbreviation (input) "SACN_START_CODE_OFFSET \<equiv> 125"

definition IS_PART_OF_UNIVERSE_DISCOVERY :: "'tm source_universe \<Rightarrow> bool" where
  "IS_PART_OF_UNIVERSE_DISCOVERY u \<longleftrightarrow> has_level_data u \<and> \<not> send_unicast_only u"

text \<open>\<open>REMOVE_AT_INDEX\<close> on a list, and an element changed in place.\<close>

definition remove_index :: "nat \<Rightarrow> 'a list \<Rightarrow> 'a list" where
  "remove_index i xs = take i xs @ drop (Suc i) xs"

definition at_index :: "nat \<Rightarrow> ('a \<Rightarrow> 'a) \<Rightarrow> 'a list \<Rightarrow> 'a list" where
  "at_index i f xs = (if i < length xs then xs[i := f (xs ! i)] else xs)"

section \<open>Sequence numbers\<close>

definition pack_sequence_number :: "u8 list \<Rightarrow> u8 \<Rightarrow> u8 list" where
  "pack_sequence_number buf seq_num = buf[SACN_SEQ_OFFSET := seq_num]"

definition increment_sequence_number :: "'tm source_universe \<Rightarrow> 'tm source_universe" where
  "increment_sequence_number u =
     (let u = (if levels_sent_this_tick u then u\<lparr>next_seq_num := next_seq_num u + 1, levels_sent_this_tick := False\<rparr> else u);
          u = (if pap_sent_this_tick u then u\<lparr>next_seq_num := next_seq_num u + 1, pap_sent_this_tick := False\<rparr> else u);
          u = (if other_sent_this_tick u then u\<lparr>next_seq_num := next_seq_num u + 1, other_sent_this_tick := False\<rparr> else u)
      in u\<lparr>anything_sent_this_tick := False,
           level_send_buf := pack_sequence_number (level_send_buf u) (next_seq_num u),
           pap_send_buf := pack_sequence_number (pap_send_buf u) (next_seq_num u)\<rparr>)"

section \<open>Sending\<close>

text \<open>The assertions in \<open>handle_data_packet_sent\<close> have no effect on the state.\<close>

definition handle_data_packet_sent :: "u8 list \<Rightarrow> 'tm source_universe \<Rightarrow> 'tm source_universe" where
  "handle_data_packet_sent send_buf u =
     (if send_buf ! SACN_START_CODE_OFFSET = 0 then u\<lparr>levels_sent_this_tick := True\<rparr>
      else if send_buf ! SACN_START_CODE_OFFSET = 0xdd then u\<lparr>pap_sent_this_tick := True\<rparr>
      else u\<lparr>other_sent_this_tick := True\<rparr>)\<lparr>anything_sent_this_tick := True\<rparr>"

text \<open>The loop over the network interfaces: the results it collects.\<close>

fun multicast_loop ::
    "'tm source_env \<Rightarrow> u8 list \<Rightarrow> mcast_netint_id list \<Rightarrow> bool \<Rightarrow> bool \<Rightarrow> 'tm source_universe \<Rightarrow> send_call list \<Rightarrow>
     bool \<times> bool \<times> 'tm source_universe \<times> send_call list" where
  "multicast_loop E send_buf [] at_least_one_sent all_sends_succeeded u calls = (at_least_one_sent, all_sends_succeeded, u, calls)"
| "multicast_loop E send_buf (n # ns) at_least_one_sent all_sends_succeeded u calls =
     (let send_res = multicast_result E (universe_id u) send_buf n;
          calls = calls @ [SendMulticast (universe_id u) n send_buf]
      in if send_res = kEtcPalErrOk then multicast_loop E send_buf ns True all_sends_succeeded u calls
         else multicast_loop E send_buf ns at_least_one_sent False (u\<lparr>last_send_error := send_res\<rparr>) calls)"

definition send_universe_multicast ::
    "'tm source_env \<Rightarrow> 'tm source_universe \<Rightarrow> u8 list \<Rightarrow> bool \<times> 'tm source_universe \<times> send_call list" where
  "send_universe_multicast E u send_buf =
     (case (if send_unicast_only u then (False, True, u, []) else multicast_loop E send_buf (netints u) False True u []) of
        (at_least_one_sent, all_sends_succeeded, u, calls) \<Rightarrow>
          (all_sends_succeeded, if at_least_one_sent then handle_data_packet_sent send_buf u else u, calls))"

text \<open>
  The loop over the unicast destinations, from index \<open>i\<close> with \<open>n\<close> left. \<open>sacn_send_unicast\<close> may note a
  failure in the destination's \<open>last_send_error\<close>.
\<close>

definition note_unicast_error :: "'tm source_env \<Rightarrow> u8 list \<Rightarrow> unicast_destination \<Rightarrow> unicast_destination" where
  "note_unicast_error E buf dest =
     dest\<lparr>dest_last_send_error := unicast_last_error E buf (dest_addr dest) (dest_last_send_error dest)\<rparr>"

fun unicast_loop ::
    "'tm source_env \<Rightarrow> u8 list \<Rightarrow> nat \<Rightarrow> nat \<Rightarrow> bool \<Rightarrow> bool \<Rightarrow> 'tm source_universe \<Rightarrow> send_call list \<Rightarrow>
     bool \<times> bool \<times> 'tm source_universe \<times> send_call list" where
  "unicast_loop E send_buf i 0 at_least_one_sent all_sends_succeeded u calls = (at_least_one_sent, all_sends_succeeded, u, calls)"
| "unicast_loop E send_buf i (Suc n) at_least_one_sent all_sends_succeeded u calls =
     (let dest = unicast_dests u ! i in
      if dest_state dest = kNotTerminating then
        let send_res = unicast_result E send_buf (dest_addr dest);
            u = u\<lparr>unicast_dests := (unicast_dests u)[i := note_unicast_error E send_buf dest]\<rparr>;
            calls = calls @ [SendUnicast (dest_addr dest) send_buf]
        in if send_res = kEtcPalErrOk then unicast_loop E send_buf (i + 1) n True all_sends_succeeded u calls
           else unicast_loop E send_buf (i + 1) n at_least_one_sent False (u\<lparr>last_send_error := send_res\<rparr>) calls
      else unicast_loop E send_buf (i + 1) n at_least_one_sent all_sends_succeeded u calls)"

definition send_universe_unicast ::
    "'tm source_env \<Rightarrow> 'tm source_universe \<Rightarrow> u8 list \<Rightarrow> bool \<times> 'tm source_universe \<times> send_call list" where
  "send_universe_unicast E u send_buf =
     (case unicast_loop E send_buf 0 (length (unicast_dests u)) False True u [] of
        (at_least_one_sent, all_sends_succeeded, u, calls) \<Rightarrow>
          (all_sends_succeeded, if at_least_one_sent then handle_data_packet_sent send_buf u else u, calls))"

text \<open>The conjunction \<open>all_sends_succeeded && send(...)\<close> makes the call only when nothing has failed.\<close>

definition and_then ::
    "bool \<Rightarrow> 'u \<Rightarrow> ('u \<Rightarrow> bool \<times> 'u \<times> send_call list) \<Rightarrow> bool \<times> 'u \<times> send_call list" where
  "and_then ok u f = (if ok then f u else (False, u, []))"

definition count_sent :: "int \<Rightarrow> int" where
  "count_sent n = (if n < NUM_PRE_SUPPRESSION_PACKETS then n + 1 else n)"

text \<open>The two blocks of \<open>transmit_levels_and_pap_when_needed\<close>.\<close>

definition transmit_levels ::
    "'tm source_env \<Rightarrow> tick_mode \<Rightarrow> 'tm source_universe \<Rightarrow> bool \<times> 'tm source_universe \<times> send_call list" where
  "transmit_levels E tick_mode u =
     (let can_process_levels = (tick_mode = kSacnSourceTickModeProcessLevelsOnly \<or> tick_mode = kSacnSourceTickModeProcessLevelsAndPap) in
      if can_process_levels \<and> has_level_data u \<and>
         (level_packets_sent_before_suppression u < NUM_PRE_SUPPRESSION_PACKETS \<or> timer_is_expired E (level_keep_alive_timer u))
      then case send_universe_multicast E u (level_send_buf u) of (ok, v, c) \<Rightarrow>
           case and_then ok v (\<lambda>v. send_universe_unicast E v (level_send_buf v)) of (ok, v, c') \<Rightarrow>
             (ok, v\<lparr>level_packets_sent_before_suppression := count_sent (level_packets_sent_before_suppression v),
                    level_keep_alive_timer := timer_reset E (level_keep_alive_timer v)\<rparr>, c @ c')
      else (True, u, []))"

definition transmit_pap ::
    "'tm source_env \<Rightarrow> tick_mode \<Rightarrow> bool \<Rightarrow> 'tm source_universe \<Rightarrow> bool \<times> 'tm source_universe \<times> send_call list" where
  "transmit_pap E tick_mode ok u =
     (let can_process_pap = (tick_mode = kSacnSourceTickModeProcessPapOnly \<or> tick_mode = kSacnSourceTickModeProcessLevelsAndPap) in
      if can_process_pap \<and> has_pap_data u \<and>
         (pap_packets_sent_before_suppression u < NUM_PRE_SUPPRESSION_PACKETS \<or> timer_is_expired E (pap_keep_alive_timer u))
      then let u = (if levels_sent_this_tick u
                    then u\<lparr>pap_send_buf := pack_sequence_number (pap_send_buf u) (next_seq_num u + 1)\<rparr> else u) in
           case and_then ok u (\<lambda>v. send_universe_multicast E v (pap_send_buf v)) of (ok, v, c) \<Rightarrow>
           case and_then ok v (\<lambda>v. send_universe_unicast E v (pap_send_buf v)) of (ok, v, c') \<Rightarrow>
             (ok, v\<lparr>pap_packets_sent_before_suppression := count_sent (pap_packets_sent_before_suppression v),
                    pap_keep_alive_timer := timer_reset E (pap_keep_alive_timer v)\<rparr>, c @ c')
      else (ok, u, []))"

definition transmit_levels_and_pap_when_needed ::
    "'tm source_env \<Rightarrow> tick_mode \<Rightarrow> 'tm source_universe \<Rightarrow> bool \<times> 'tm source_universe \<times> send_call list" where
  "transmit_levels_and_pap_when_needed E tick_mode u =
     (case transmit_levels E tick_mode u of (ok, u, c) \<Rightarrow>
      case transmit_pap E tick_mode ok u of (ok, u, c') \<Rightarrow> (ok, u, c @ c'))"

section \<open>Termination\<close>

definition set_unicast_dest_terminating :: "terminating_behavior \<Rightarrow> unicast_destination \<Rightarrow> unicast_destination" where
  "set_unicast_dest_terminating behavior dest =
     (let dest = (if dest_state dest = kNotTerminating then dest\<lparr>dest_terminations_sent := 0\<rparr> else dest)
      in case behavior of
           kTerminateAndRemove \<Rightarrow> dest\<lparr>dest_state := kTerminatingAndRemoving\<rparr>
         | kTerminateWithoutRemoving \<Rightarrow>
             if dest_state dest \<noteq> kTerminatingAndRemoving then dest\<lparr>dest_state := kTerminatingWithoutRemoving\<rparr> else dest)"

definition set_universe_terminating :: "terminating_behavior \<Rightarrow> 'tm source_universe \<Rightarrow> 'tm source_universe" where
  "set_universe_terminating behavior u =
     (let u = (if termination_state u = kNotTerminating then u\<lparr>num_terminations_sent := 0\<rparr> else u);
          u = (case behavior of
                 kTerminateAndRemove \<Rightarrow> u\<lparr>termination_state := kTerminatingAndRemoving\<rparr>
               | kTerminateWithoutRemoving \<Rightarrow>
                   if termination_state u \<noteq> kTerminatingAndRemoving
                   then u\<lparr>termination_state := kTerminatingWithoutRemoving\<rparr> else u)
      in u\<lparr>unicast_dests := map (set_unicast_dest_terminating behavior) (unicast_dests u)\<rparr>)"

definition set_source_terminating :: "'tm sacn_source \<Rightarrow> 'tm sacn_source" where
  "set_source_terminating s =
     (if \<not> terminating s
      then s\<lparr>terminating := True, universes := map (set_universe_terminating kTerminateAndRemove) (universes s)\<rparr>
      else s)"

definition reset_unicast_dest :: "unicast_destination \<Rightarrow> unicast_destination" where
  "reset_unicast_dest dest = dest\<lparr>dest_state := kNotTerminating, dest_terminations_sent := 0\<rparr>"

definition reset_universe :: "'tm source_universe \<Rightarrow> 'tm source_universe" where
  "reset_universe u =
     u\<lparr>termination_state := kNotTerminating, num_terminations_sent := 0, has_level_data := False, has_pap_data := False\<rparr>"

definition cancel_termination_if_not_removing :: "'tm source_universe \<Rightarrow> 'tm source_universe" where
  "cancel_termination_if_not_removing u =
     (if termination_state u = kTerminatingWithoutRemoving
      then u\<lparr>termination_state := kNotTerminating, num_terminations_sent := 0,
             unicast_dests := map (\<lambda>dest. if dest_state dest = kTerminatingWithoutRemoving then reset_unicast_dest dest else dest)
                                (unicast_dests u)\<rparr>
      else u)"

definition finish_unicast_dest_termination :: "nat \<Rightarrow> 'tm source_universe \<Rightarrow> 'tm source_universe" where
  "finish_unicast_dest_termination i u =
     (if dest_state (unicast_dests u ! i) = kTerminatingAndRemoving
      then u\<lparr>unicast_dests := remove_index i (unicast_dests u)\<rparr>
      else u\<lparr>unicast_dests := (unicast_dests u)[i := reset_unicast_dest (unicast_dests u ! i)]\<rparr>)"

text \<open>The loop over all destinations, from the last index down.\<close>

fun finish_unicast_dests :: "nat \<Rightarrow> 'tm source_universe \<Rightarrow> 'tm source_universe" where
  "finish_unicast_dests 0 u = u"
| "finish_unicast_dests (Suc i) u = finish_unicast_dests i (finish_unicast_dest_termination i u)"

definition send_termination_multicast ::
    "'tm source_env \<Rightarrow> 'tm source_universe \<Rightarrow> bool \<times> 'tm source_universe \<times> send_call list" where
  "send_termination_multicast E u =
     (let old_terminated_opt = TERMINATED_OPT_SET (level_send_buf u);
          u = u\<lparr>level_send_buf := SET_TERMINATED_OPT (level_send_buf u) True\<rparr>
      in case send_universe_multicast E u (level_send_buf u) of (ok, u, calls) \<Rightarrow>
           (ok, u\<lparr>num_terminations_sent := num_terminations_sent u + 1,
                  level_send_buf := SET_TERMINATED_OPT (level_send_buf u) old_terminated_opt\<rparr>, calls))"

definition send_termination_unicast ::
    "'tm source_env \<Rightarrow> nat \<Rightarrow> 'tm source_universe \<Rightarrow> bool \<times> 'tm source_universe \<times> send_call list" where
  "send_termination_unicast E i u =
     (let old_terminated_opt = TERMINATED_OPT_SET (level_send_buf u);
          u = u\<lparr>level_send_buf := SET_TERMINATED_OPT (level_send_buf u) True\<rparr>;
          dest = unicast_dests u ! i;
          send_res = unicast_result E (level_send_buf u) (dest_addr dest);
          u1 = (if send_res = kEtcPalErrOk then handle_data_packet_sent (level_send_buf u) u else u);
          dest1 = note_unicast_error E (level_send_buf u) dest
      in (send_res = kEtcPalErrOk,
          u1\<lparr>unicast_dests := (unicast_dests u1)[i := dest1\<lparr>dest_terminations_sent := dest_terminations_sent dest1 + 1\<rparr>],
             level_send_buf := SET_TERMINATED_OPT (level_send_buf u1) old_terminated_opt\<rparr>,
          [SendUnicast (dest_addr dest) (level_send_buf u)]))"

text \<open>The loop over the destinations, from the last index down; \<open>Suc i\<close> handles index \<open>i\<close>.\<close>

fun unicast_termination_loop ::
    "'tm source_env \<Rightarrow> nat \<Rightarrow> bool \<Rightarrow> bool \<Rightarrow> 'tm source_universe \<Rightarrow> send_call list \<Rightarrow>
     bool \<times> bool \<times> 'tm source_universe \<times> send_call list" where
  "unicast_termination_loop E 0 ok term u calls = (ok, term, u, calls)"
| "unicast_termination_loop E (Suc i) ok term u calls =
     (if dest_state (unicast_dests u ! i) \<noteq> kNotTerminating then
        case (if dest_terminations_sent (unicast_dests u ! i) < 3 \<and> has_level_data u
              then and_then ok u (send_termination_unicast E i) else (ok, u, [])) of (ok, u, c) \<Rightarrow>
          if dest_terminations_sent (unicast_dests u ! i) \<ge> 3 \<or> \<not> has_level_data u
          then unicast_termination_loop E i ok term (finish_unicast_dest_termination i u) (calls @ c)
          else unicast_termination_loop E i ok True u (calls @ c)
      else unicast_termination_loop E i ok term u calls)"

definition process_unicast_termination ::
    "'tm source_env \<Rightarrow> 'tm source_universe \<Rightarrow> bool \<times> bool \<times> 'tm source_universe \<times> send_call list" where
  "process_unicast_termination E u = unicast_termination_loop E (length (unicast_dests u)) True False u []"

section \<open>Network interfaces of a source\<close>

text \<open>The index of an interface among the source's, if it is there.\<close>

fun get_source_netint_index :: "mcast_netint_id \<Rightarrow> source_netint list \<Rightarrow> nat option" where
  "get_source_netint_index n [] = None"
| "get_source_netint_index n (x # xs) =
     (if netint_id x = n then Some 0 else map_option Suc (get_source_netint_index n xs))"

text \<open>\<open>room n\<close>: there is memory for one more entry behind \<open>n\<close> entries.\<close>

definition add_sacn_source_netint :: "(nat \<Rightarrow> bool) \<Rightarrow> mcast_netint_id \<Rightarrow> 'tm sacn_source \<Rightarrow> etcpal_error \<times> 'tm sacn_source" where
  "add_sacn_source_netint room n s =
     (case get_source_netint_index n (source_netints s) of
        Some i \<Rightarrow> (kEtcPalErrOk, s\<lparr>source_netints := at_index i (\<lambda>x. x\<lparr>num_refs := num_refs x + 1\<rparr>) (source_netints s)\<rparr>)
      | None \<Rightarrow>
          if \<not> room (length (source_netints s)) then (kEtcPalErrNoMem, s)
          else (kEtcPalErrOk, s\<lparr>source_netints := source_netints s @ [\<lparr>netint_id = n, num_refs = 1\<rparr>]\<rparr>))"

definition remove_from_source_netints :: "mcast_netint_id \<Rightarrow> 'tm sacn_source \<Rightarrow> 'tm sacn_source" where
  "remove_from_source_netints n s =
     (case get_source_netint_index n (source_netints s) of
        None \<Rightarrow> s
      | Some i \<Rightarrow>
          let ns = at_index i (\<lambda>x. if num_refs x > 0 then x\<lparr>num_refs := num_refs x - 1\<rparr> else x) (source_netints s)
          in s\<lparr>source_netints := (if num_refs (ns ! i) = 0 then remove_index i ns else ns)\<rparr>)"

section \<open>Universes of a source\<close>

definition remove_sacn_source_universe :: "nat \<Rightarrow> 'tm sacn_source \<Rightarrow> 'tm sacn_source" where
  "remove_sacn_source_universe i s = s\<lparr>universes := remove_index i (universes s)\<rparr>"

definition finish_source_universe_termination :: "nat \<Rightarrow> 'tm sacn_source \<Rightarrow> 'tm sacn_source" where
  "finish_source_universe_termination i s =
     (let u = finish_unicast_dests (length (unicast_dests (universes s ! i))) (universes s ! i);
          s = s\<lparr>universes := (universes s)[i := u],
                num_active_universes := (if IS_PART_OF_UNIVERSE_DISCOVERY u then num_active_universes s - 1
                                         else num_active_universes s)\<rparr>
      in if termination_state u = kTerminatingAndRemoving
         then remove_sacn_source_universe i (fold remove_from_source_netints (netints u) s)
         else s\<lparr>universes := (universes s)[i := reset_universe u]\<rparr>)"

definition process_multicast_termination ::
    "'tm source_env \<Rightarrow> nat \<Rightarrow> bool \<Rightarrow> 'tm sacn_source \<Rightarrow> bool \<times> 'tm sacn_source \<times> send_call list" where
  "process_multicast_termination E i unicast_terminating s =
     (let u = universes s ! i in
      case (if num_terminations_sent u < 3 \<and> has_level_data u then send_termination_multicast E u else (True, u, [])) of
        (ok, u, calls) \<Rightarrow>
          let s = s\<lparr>universes := (universes s)[i := u]\<rparr> in
          (ok, if num_terminations_sent u \<ge> 3 \<and> \<not> unicast_terminating \<or> \<not> has_level_data u
               then finish_source_universe_termination i s else s, calls))"

text \<open>
  One step of the loop of \<open>process_universes\<close>, for index \<open>i\<close>. After a removal the pointer \<open>universe\<close>
  points to the universe that has moved to index \<open>i\<close>, or behind the last one.
\<close>

definition process_universe ::
    "'tm source_env \<Rightarrow> tick_mode \<Rightarrow> nat \<Rightarrow> bool \<Rightarrow> 'tm sacn_source \<Rightarrow> bool \<times> 'tm sacn_source \<times> send_call list" where
  "process_universe E tick_mode i ok s =
     (case (if tick_mode \<noteq> kSacnSourceTickModeProcessPapOnly
            then process_unicast_termination E (universes s ! i) else (ok, False, universes s ! i, [])) of
        (ok, unicast_terminating, u, c1) \<Rightarrow>
          let s = s\<lparr>universes := (universes s)[i := u]\<rparr> in
          case (if termination_state u = kNotTerminating then
                  (case and_then ok u (transmit_levels_and_pap_when_needed E tick_mode) of
                     (ok, u, c) \<Rightarrow> (ok, s\<lparr>universes := (universes s)[i := u]\<rparr>, c))
                else if tick_mode \<noteq> kSacnSourceTickModeProcessPapOnly
                then and_then ok s (process_multicast_termination E i unicast_terminating)
                else (ok, s, [])) of
            (ok, s, c2) \<Rightarrow> (ok, s\<lparr>universes := at_index i increment_sequence_number (universes s)\<rparr>, c1 @ c2))"

fun process_universes_loop ::
    "'tm source_env \<Rightarrow> tick_mode \<Rightarrow> nat \<Rightarrow> bool \<Rightarrow> 'tm sacn_source \<Rightarrow> send_call list \<Rightarrow>
     bool \<times> 'tm sacn_source \<times> send_call list" where
  "process_universes_loop E tick_mode 0 ok s calls = (ok, s, calls)"
| "process_universes_loop E tick_mode (Suc i) ok s calls =
     (case process_universe E tick_mode i ok s of
        (ok, s, c) \<Rightarrow> process_universes_loop E tick_mode i ok s (calls @ c))"

definition process_universes ::
    "'tm source_env \<Rightarrow> tick_mode \<Rightarrow> 'tm sacn_source \<Rightarrow> bool \<times> 'tm sacn_source \<times> send_call list" where
  "process_universes E tick_mode s = process_universes_loop E tick_mode (length (universes s)) True s []"

section \<open>Universe discovery\<close>

text \<open>
  The loop of \<open>pack_universe_discovery_page\<close>: \<open>processed\<close> universes are done, \<open>packed\<close> of them on this
  page, and \<open>pcur\<close> is 120 + 2 * packed. A page has room for 512 entries behind the header.
\<close>

function pack_universes ::
    "acn_lib \<Rightarrow> 'tm source_universe list \<Rightarrow> nat \<Rightarrow> nat \<Rightarrow> u8 list \<Rightarrow> nat \<times> nat \<times> u8 list" where
  "pack_universes L us processed packed buf =
     (if processed < length us \<and> packed < kSacnUniverseDiscoveryMaxUniversesPerPage then
        let u = us ! (length us - 1 - processed) in
        if IS_PART_OF_UNIVERSE_DISCOVERY u
        then pack_universes L us (processed + 1) (packed + 1)
               (memcpy_at buf (SACN_UNIVERSE_DISCOVERY_HEADER_SIZE + 2 * packed) (pack_u16b L (universe_id u)) 2)
        else pack_universes L us (processed + 1) packed buf
      else (processed, packed, buf))"
  by pat_completeness auto
termination by (relation "measure (\<lambda>(L, us, processed, packed, buf). length us - processed)") auto

declare pack_universes.simps [simp del]

definition pack_universe_discovery_page ::
    "acn_lib \<Rightarrow> nat \<Rightarrow> u8 \<Rightarrow> 'tm sacn_source \<Rightarrow> nat \<times> nat \<times> 'tm sacn_source" where
  "pack_universe_discovery_page L processed page_number s =
     (case pack_universes L (universes s) processed 0 (universe_discovery_send_buf s) of (processed, packed, buf) \<Rightarrow>
        let buf = SET_UNIVERSE_COUNT L buf (int packed);
            buf = SET_PAGE buf page_number;
            buf = SET_LAST_PAGE buf
                    (if num_active_universes s > 0
                     then word_of_int ((num_active_universes s - 1) div int kSacnUniverseDiscoveryMaxUniversesPerPage) else 0)
        in (packed, processed, s\<lparr>universe_discovery_send_buf := buf\<rparr>))"

text \<open>The loop over the interfaces for one page.\<close>

fun discovery_multicast_loop ::
    "'tm source_env \<Rightarrow> u8 list \<Rightarrow> source_netint list \<Rightarrow> bool \<Rightarrow> bool \<Rightarrow> send_call list \<Rightarrow> bool \<times> bool \<times> send_call list" where
  "discovery_multicast_loop E buf [] at_least_one ok calls = (at_least_one, ok, calls)"
| "discovery_multicast_loop E buf (n # ns) at_least_one ok calls =
     (let calls = calls @ [SendMulticast kSacnDiscoveryUniverse (netint_id n) buf] in
      if multicast_result E kSacnDiscoveryUniverse buf (netint_id n) = kEtcPalErrOk
      then discovery_multicast_loop E buf ns True ok calls
      else discovery_multicast_loop E buf ns at_least_one False calls)"

text \<open>
  The loop over the pages. Each page but the last handles at least one universe, so \<open>Suc\<close> of the
  number of universes is enough fuel; running out of it gives \<open>None\<close>.
\<close>

fun discovery_pages ::
    "nat \<Rightarrow> 'tm source_env \<Rightarrow> nat \<Rightarrow> u8 \<Rightarrow> bool \<Rightarrow> 'tm sacn_source \<Rightarrow> send_call list \<Rightarrow>
     (bool \<times> 'tm sacn_source \<times> send_call list) option" where
  "discovery_pages 0 E processed page_number ok s calls = None"
| "discovery_pages (Suc fuel) E processed page_number ok s calls =
     (case pack_universe_discovery_page (acn E) processed page_number s of (packed, processed, s) \<Rightarrow>
        if packed = 0 then Some (ok, s, calls)
        else case discovery_multicast_loop E (universe_discovery_send_buf s) (source_netints s) False ok calls of
          (at_least_one, ok, calls) \<Rightarrow>
            if at_least_one then discovery_pages fuel E processed (page_number + 1) ok s calls
            else Some (ok, s, calls))"

definition send_universe_discovery ::
    "'tm source_env \<Rightarrow> 'tm sacn_source \<Rightarrow> (bool \<times> 'tm sacn_source \<times> send_call list) option" where
  "send_universe_discovery E s =
     (if length (source_netints s) > 0 then discovery_pages (Suc (length (universes s))) E 0 0 True s []
      else Some (True, s, []))"

definition process_universe_discovery ::
    "'tm source_env \<Rightarrow> 'tm sacn_source \<Rightarrow> (bool \<times> 'tm sacn_source \<times> send_call list) option" where
  "process_universe_discovery E s =
     (if \<not> terminating s \<and> timer_is_expired E (universe_discovery_timer s)
      then map_option (\<lambda>(ok, s, calls). (ok, s\<lparr>universe_discovery_timer := timer_reset E (universe_discovery_timer s)\<rparr>, calls))
             (send_universe_discovery E s)
      else Some (True, s, []))"

section \<open>Ticks\<close>

definition process_stats_log :: "'tm source_env \<Rightarrow> bool \<Rightarrow> 'tm sacn_source \<Rightarrow> 'tm sacn_source" where
  "process_stats_log E all_sends_succeeded s =
     (let s = s\<lparr>total_tick_count := total_tick_count s + 1,
                failed_tick_count := (if all_sends_succeeded then failed_tick_count s else failed_tick_count s + 1)\<rparr>
      in if timer_is_expired E (stats_log_timer s)
         then s\<lparr>stats_log_timer := timer_reset E (stats_log_timer s), total_tick_count := 0, failed_tick_count := 0\<rparr>
         else s)"

text \<open>What a tick does with one source of the kind being processed.\<close>

definition process_source ::
    "'tm source_env \<Rightarrow> tick_mode \<Rightarrow> 'tm sacn_source \<Rightarrow> ('tm sacn_source \<times> send_call list) option" where
  "process_source E tick_mode s =
     do {
       (ok, s, c1) \<leftarrow> process_universe_discovery E s;
       let (ok, s, c2) = and_then ok s (process_universes E tick_mode);
       Some (process_stats_log E ok s, c1 @ c2)
     }"

text \<open>The source at index \<open>i\<close>: whether it is of the kind being processed, and the module after it.\<close>

definition process_source_at ::
    "'tm source_env \<Rightarrow> process_behavior \<Rightarrow> tick_mode \<Rightarrow> nat \<Rightarrow> 'tm source_module \<Rightarrow>
     (bool \<times> 'tm source_module \<times> send_call list) option" where
  "process_source_at E behavior tick_mode i M =
     (let s = sources M ! i; process_manual = (behavior = kProcessManualSources) in
      if process_manually s = process_manual then
        case process_source E tick_mode (if \<not> process_manual \<and> shutting_down M then set_source_terminating s else s) of
          None \<Rightarrow> None
        | Some (s1, c) \<Rightarrow>
            let ss = (sources M)[i := s1] in
            Some (True, M\<lparr>sources := (if terminating s1 \<and> universes s1 = [] then remove_index i ss else ss)\<rparr>, c)
      else Some (False, M, []))"

fun process_sources_loop ::
    "'tm source_env \<Rightarrow> process_behavior \<Rightarrow> tick_mode \<Rightarrow> nat \<Rightarrow> nat \<Rightarrow> 'tm source_module \<Rightarrow> send_call list \<Rightarrow>
     (nat \<times> 'tm source_module \<times> send_call list) option" where
  "process_sources_loop E behavior tick_mode 0 num_sources_tracked M calls = Some (num_sources_tracked, M, calls)"
| "process_sources_loop E behavior tick_mode (Suc i) num_sources_tracked M calls =
     (case process_source_at E behavior tick_mode i M of
        None \<Rightarrow> None
      | Some (tracked, M1, c) \<Rightarrow>
          process_sources_loop E behavior tick_mode i
            (if tracked then num_sources_tracked + 1 else num_sources_tracked) M1 (calls @ c))"

definition process_sources ::
    "'tm source_env \<Rightarrow> process_behavior \<Rightarrow> tick_mode \<Rightarrow> 'tm source_module \<Rightarrow>
     (nat \<times> 'tm source_module \<times> send_call list) option" where
  "process_sources E behavior tick_mode M = process_sources_loop E behavior tick_mode (length (sources M)) 0 M []"

end
