(* ===== verification/SourceApi.thy ===== *)
theory SourceApi
  imports SourceState
begin

text \<open>
  The updates of a source (the rest of \<open>source_state.c\<close> and \<open>mem/source\<close>) and the functions of the
  API, \<open>src/sACN/src/sacn/source.c\<close>.
  \<^item> \<open>api_env\<close> holds what a call depends on: whether the library is initialized, whether the lock is
    obtained, for how many entries there is memory, the handle generated, which addresses
    \<open>ETCPAL_IP_IS_INVALID\<close> rejects and the network interfaces a universe gets.
  \<^item> A function that copies levels or priorities gives \<open>None\<close> when it would access memory outside
    a buffer. A null pointer to levels or priorities is \<open>None\<close>; its size is given separately.
  \<^item> Pointers to settings, names and output parameters are not null.
\<close>

section \<open>Transmission suppression and settings\<close>

definition reset_transmission_suppression ::
    "'tm source_env \<Rightarrow> 'tm sacn_source \<Rightarrow> reset_behavior \<Rightarrow> 'tm source_universe \<Rightarrow> 'tm source_universe" where
  "reset_transmission_suppression E s behavior u =
     (let u = (if behavior = kResetLevel \<or> behavior = kResetLevelAndPap
               then let u = u\<lparr>level_packets_sent_before_suppression := 0\<rparr> in
                    if has_level_data u then u\<lparr>level_keep_alive_timer := timer_start E (keep_alive_interval s)\<rparr> else u
               else u)
      in if behavior = kResetPap \<or> behavior = kResetLevelAndPap
         then let u = u\<lparr>pap_packets_sent_before_suppression := 0\<rparr> in
              if has_pap_data u then u\<lparr>pap_keep_alive_timer := timer_start E (pap_keep_alive_interval s)\<rparr> else u
         else u)"

definition put_name :: "u8 list \<Rightarrow> u8 list \<Rightarrow> u8 list" where
  "put_name new_name buf = memcpy_at buf SACN_SOURCE_NAME_OFFSET (strncpy_bytes kSacnSourceNameMaxLen new_name) kSacnSourceNameMaxLen"

definition set_source_name :: "'tm source_env \<Rightarrow> u8 list \<Rightarrow> 'tm sacn_source \<Rightarrow> 'tm sacn_source" where
  "set_source_name E new_name s =
     (let s = s\<lparr>source_name := strncpy_bytes kSacnSourceNameMaxLen new_name,
                universe_discovery_send_buf := put_name new_name (universe_discovery_send_buf s)\<rparr>
      in s\<lparr>universes := map (\<lambda>u. reset_transmission_suppression E s kResetLevelAndPap
             (u\<lparr>level_send_buf := put_name new_name (level_send_buf u),
                pap_send_buf := put_name new_name (pap_send_buf u)\<rparr>)) (universes s)\<rparr>)"

definition set_universe_priority ::
    "'tm source_env \<Rightarrow> 'tm sacn_source \<Rightarrow> u8 \<Rightarrow> 'tm source_universe \<Rightarrow> 'tm source_universe" where
  "set_universe_priority E s p u =
     reset_transmission_suppression E s kResetLevelAndPap
       (u\<lparr>priority := p, level_send_buf := (level_send_buf u)[SACN_PRI_OFFSET := p],
          pap_send_buf := (pap_send_buf u)[SACN_PRI_OFFSET := p]\<rparr>)"

definition set_preview_flag ::
    "'tm source_env \<Rightarrow> 'tm sacn_source \<Rightarrow> bool \<Rightarrow> 'tm source_universe \<Rightarrow> 'tm source_universe" where
  "set_preview_flag E s p u =
     reset_transmission_suppression E s kResetLevelAndPap
       (u\<lparr>send_preview := p, level_send_buf := SET_PREVIEW_OPT (level_send_buf u) p,
          pap_send_buf := SET_PREVIEW_OPT (pap_send_buf u) p\<rparr>)"

definition disable_pap_data :: "'tm source_universe \<Rightarrow> 'tm source_universe" where
  "disable_pap_data u = u\<lparr>has_pap_data := False\<rparr>"

section \<open>Levels and priorities\<close>

definition zero_levels_where_pap_is_zero :: "acn_lib \<Rightarrow> 'tm source_universe \<Rightarrow> 'tm source_universe" where
  "zero_levels_where_pap_is_zero L u =
     (let level_count = unpack_u16b L (take 2 (drop SACN_PROPERTY_VALUE_COUNT_OFFSET (level_send_buf u))) - 1;
          pap_count = unpack_u16b L (take 2 (drop SACN_PROPERTY_VALUE_COUNT_OFFSET (pap_send_buf u))) - 1
      in u\<lparr>level_send_buf :=
             fold (\<lambda>i buf. if i \<ge> unat pap_count \<or> pap_send_buf u ! (SACN_DATA_HEADER_SIZE + i) = 0
                           then buf[SACN_DATA_HEADER_SIZE + i := 0] else buf)
               [0..<unat level_count] (level_send_buf u)\<rparr>)"

text \<open>\<open>state_update_levels\<close> and \<open>state_update_pap\<close> of the universe at index \<open>i\<close>.\<close>

definition state_update_levels ::
    "'tm source_env \<Rightarrow> u8 list \<Rightarrow> nat \<Rightarrow> nat \<Rightarrow> 'tm sacn_source \<Rightarrow> 'tm sacn_source option" where
  "state_update_levels E new_levels new_levels_size i s =
     (if new_levels_size = 0 then Some s
      else do {
        let u = universes s ! i;
        let was_part_of_discovery = IS_PART_OF_UNIVERSE_DISCOVERY u;
        let u = cancel_termination_if_not_removing u;
        buf \<leftarrow> update_send_buf_data (acn E) (level_send_buf u) new_levels (of_nat new_levels_size);
        let u = u\<lparr>level_send_buf := buf, has_level_data := True\<rparr>;
        let u = (if has_pap_data u then zero_levels_where_pap_is_zero (acn E) u else u);
        let u = reset_transmission_suppression E s kResetLevel u;
        Some (s\<lparr>universes := (universes s)[i := u],
                num_active_universes := (if \<not> was_part_of_discovery \<and> IS_PART_OF_UNIVERSE_DISCOVERY u
                                         then num_active_universes s + 1 else num_active_universes s)\<rparr>)
      })"

definition state_update_pap ::
    "'tm source_env \<Rightarrow> u8 list \<Rightarrow> nat \<Rightarrow> nat \<Rightarrow> 'tm sacn_source \<Rightarrow> 'tm sacn_source option" where
  "state_update_pap E new_priorities new_priorities_size i s =
     (if new_priorities_size = 0 then Some s
      else do {
        let u = universes s ! i;
        buf \<leftarrow> update_send_buf_data (acn E) (pap_send_buf u) new_priorities (of_nat new_priorities_size);
        let u = u\<lparr>pap_send_buf := buf, has_pap_data := True\<rparr>;
        Some (s\<lparr>universes := (universes s)[i := reset_transmission_suppression E s kResetPap u]\<rparr>)
      })"

definition update_levels_and_or_pap ::
    "'tm source_env \<Rightarrow> u8 list option \<Rightarrow> nat \<Rightarrow> u8 list option \<Rightarrow> nat \<Rightarrow> nat \<Rightarrow> 'tm sacn_source \<Rightarrow> 'tm sacn_source option" where
  "update_levels_and_or_pap E new_levels new_levels_size new_priorities new_priorities_size i s =
     do {
       s \<leftarrow> (case new_priorities of None \<Rightarrow> Some s | Some ps \<Rightarrow> state_update_pap E ps new_priorities_size i s);
       (case new_levels of None \<Rightarrow> Some s | Some ls \<Rightarrow> state_update_levels E ls new_levels_size i s)
     }"

section \<open>Lookups\<close>

fun index_where :: "('a \<Rightarrow> bool) \<Rightarrow> 'a list \<Rightarrow> nat option" where
  "index_where P [] = None"
| "index_where P (x # xs) = (if P x then Some 0 else map_option Suc (index_where P xs))"

definition get_source_index :: "int \<Rightarrow> 'tm source_module \<Rightarrow> nat option" where
  "get_source_index h M = index_where (\<lambda>s. source_handle s = h) (sources M)"

definition get_source_universe_index :: "u16 \<Rightarrow> 'tm sacn_source \<Rightarrow> nat option" where
  "get_source_universe_index uni s = index_where (\<lambda>u. universe_id u = uni) (universes s)"

definition get_unicast_dest_index :: "ip_addr \<Rightarrow> 'tm source_universe \<Rightarrow> nat option" where
  "get_unicast_dest_index addr u = index_where (\<lambda>d. dest_addr d = addr) (unicast_dests u)"

definition lookup_source_and_universe :: "int \<Rightarrow> u16 \<Rightarrow> 'tm source_module \<Rightarrow> (nat \<times> nat) option" where
  "lookup_source_and_universe h uni M =
     (case get_source_index h M of None \<Rightarrow> None
      | Some i \<Rightarrow> map_option (Pair i) (get_source_universe_index uni (sources M ! i)))"

definition put_source :: "nat \<Rightarrow> 'tm sacn_source \<Rightarrow> 'tm source_module \<Rightarrow> 'tm source_module" where
  "put_source i s M = M\<lparr>sources := (sources M)[i := s]\<rparr>"

definition put_universe :: "nat \<Rightarrow> 'tm source_universe \<Rightarrow> 'tm sacn_source \<Rightarrow> 'tm sacn_source" where
  "put_universe j u s = s\<lparr>universes := (universes s)[j := u]\<rparr>"

definition get_source_universes :: "'tm sacn_source \<Rightarrow> u16 list" where
  "get_source_universes s =
     map universe_id (filter (\<lambda>u. termination_state u \<noteq> kTerminatingAndRemoving) (rev (universes s)))"

definition get_source_unicast_dests :: "'tm source_universe \<Rightarrow> ip_addr list" where
  "get_source_unicast_dests u =
     map dest_addr (filter (\<lambda>d. dest_state d \<noteq> kTerminatingAndRemoving) (unicast_dests u))"

text \<open>A universe that is not being removed, as the calls of the API see it.\<close>

definition find_universe :: "int \<Rightarrow> u16 \<Rightarrow> 'tm source_module \<Rightarrow> (nat \<times> nat) option" where
  "find_universe h uni M =
     (case lookup_source_and_universe h uni M of
        None \<Rightarrow> None
      | Some (i, j) \<Rightarrow>
          if termination_state (universes (sources M ! i) ! j) = kTerminatingAndRemoving then None else Some (i, j))"

section \<open>Adding sources, universes and destinations\<close>

record 'tm api_env =
  tick_env :: "'tm source_env"
  is_initialized :: bool
  lock_taken :: bool
  has_room :: "nat \<Rightarrow> bool"
  alloc_ok :: bool
  thread_create_result :: etcpal_error
  next_handle :: int
  zero_timer :: 'tm
  ip_is_invalid :: "ip_addr \<Rightarrow> bool"
  initialize_netints :: "u16 \<Rightarrow> etcpal_error \<times> mcast_netint_id list"

record source_config =
  config_cid :: "u8 list"
  config_name :: "u8 list"
  config_universe_count_max :: nat
  manually_process_source :: bool
  config_keep_alive_interval :: int
  config_pap_keep_alive_interval :: int

record universe_config =
  config_universe :: u16
  config_priority :: u8
  config_send_preview :: bool
  config_send_unicast_only :: bool
  config_unicast_destinations :: "ip_addr list"
  config_sync_universe :: u16

definition kSacnSourceInvalid :: int where "kSacnSourceInvalid = -1"
definition kSacnSourceInfiniteUniverses :: nat where "kSacnSourceInfiniteUniverses = 0"
definition kSacnStatsLogInterval :: int where "kSacnStatsLogInterval = 10000"

text \<open>The universe discovery buffer of a new source.\<close>

definition init_discovery_send_buf :: "acn_lib \<Rightarrow> u8 list \<Rightarrow> u8 list \<Rightarrow> u8 list option" where
  "init_discovery_send_buf L the_cid nm =
     do {
       let buf = replicate kSacnUniverseDiscoveryPacketMtu 0;
       (buf, n1) \<leftarrow> pack_sacn_root_layer L buf 0 SACN_UNIVERSE_DISCOVERY_HEADER_SIZE True the_cid;
       (buf, n2) \<leftarrow> pack_sacn_universe_discovery_framing_layer L buf n1 0 nm;
       (buf, n3) \<leftarrow> pack_sacn_universe_discovery_layer_header L buf (n1 + n2) 0 0 0;
       Some buf
     }"

definition add_sacn_source ::
    "'tm api_env \<Rightarrow> int \<Rightarrow> source_config \<Rightarrow> 'tm source_module \<Rightarrow> (etcpal_error \<times> 'tm source_module) option" where
  "add_sacn_source V h config M =
     (if h = kSacnSourceInvalid then Some (kEtcPalErrSys, M)
      else if get_source_index h M \<noteq> None then Some (kEtcPalErrExists, M)
      else if \<not> has_room V (length (sources M)) then Some (kEtcPalErrNoMem, M)
      else do {
        buf \<leftarrow> init_discovery_send_buf (acn (tick_env V)) (config_cid config) (config_name config);
        let s = \<lparr>source_handle = h, cid = config_cid config,
          source_name = strncpy_bytes kSacnSourceNameMaxLen (config_name config),
          terminating = False, universes = [], num_active_universes = 0,
          universe_discovery_timer = timer_start (tick_env V) kSacnUniverseDiscoveryInterval,
          process_manually = manually_process_source config, keep_alive_interval = config_keep_alive_interval config,
          pap_keep_alive_interval = config_pap_keep_alive_interval config,
          universe_count_max = config_universe_count_max config,
          stats_log_timer = timer_start (tick_env V) kSacnStatsLogInterval, total_tick_count = 0, failed_tick_count = 0,
          source_netints = [], universe_discovery_send_buf = buf\<rparr>;
        Some (if \<not> alloc_ok V then (kEtcPalErrNoMem, M) else (kEtcPalErrOk, M\<lparr>sources := sources M @ [s]\<rparr>))
      })"

definition new_unicast_dest :: "ip_addr \<Rightarrow> unicast_destination" where
  "new_unicast_dest addr =
     \<lparr>dest_addr = addr, dest_state = kNotTerminating, dest_terminations_sent = 0, dest_last_send_error = kEtcPalErrOk\<rparr>"

definition add_sacn_unicast_dest :: "(nat \<Rightarrow> bool) \<Rightarrow> ip_addr \<Rightarrow> 'tm source_universe \<Rightarrow> etcpal_error \<times> 'tm source_universe" where
  "add_sacn_unicast_dest room addr u =
     (if \<not> room (length (unicast_dests u)) then (kEtcPalErrNoMem, u)
      else (kEtcPalErrOk, u\<lparr>unicast_dests := unicast_dests u @ [new_unicast_dest addr]\<rparr>))"

text \<open>The loop over the destinations of the settings.\<close>

fun add_unicast_dests :: "(nat \<Rightarrow> bool) \<Rightarrow> ip_addr list \<Rightarrow> 'tm source_universe \<Rightarrow> etcpal_error \<times> 'tm source_universe" where
  "add_unicast_dests room [] u = (kEtcPalErrOk, u)"
| "add_unicast_dests room (a # as) u =
     (case add_sacn_unicast_dest room a u of (res, u) \<Rightarrow>
        if res = kEtcPalErrOk \<or> res = kEtcPalErrExists then add_unicast_dests room as u else (res, u))"

text \<open>The universes are kept in descending order: the place of a new one.\<close>

fun insert_index :: "u16 \<Rightarrow> 'tm source_universe list \<Rightarrow> nat" where
  "insert_index uni [] = 0"
| "insert_index uni (u # us) = (if universe_id u > uni then Suc (insert_index uni us) else 0)"

definition new_universe ::
    "'tm api_env \<Rightarrow> universe_config \<Rightarrow> 'tm sacn_source \<Rightarrow> 'tm source_universe option" where
  "new_universe V config s =
     do {
       let L = acn (tick_env V);
       let name = takeWhile (\<lambda>c. c \<noteq> 0) (source_name s);
       levels \<leftarrow> init_sacn_data_send_buf L (replicate kSacnDataPacketMtu 0) 0 (cid s) name (config_priority config)
         (config_universe config) (config_sync_universe config) (config_send_preview config);
       pap \<leftarrow> init_sacn_data_send_buf L (replicate kSacnDataPacketMtu 0) 0xdd (cid s) name (config_priority config)
         (config_universe config) (config_sync_universe config) (config_send_preview config);
       Some \<lparr>universe_id = config_universe config, termination_state = kNotTerminating, num_terminations_sent = 0,
         priority = config_priority config, sync_universe = config_sync_universe config,
         send_preview = config_send_preview config, next_seq_num = 0,
         level_packets_sent_before_suppression = 0, level_keep_alive_timer = zero_timer V, level_send_buf = levels,
         has_level_data = False, levels_sent_this_tick = False,
         pap_packets_sent_before_suppression = 0, pap_keep_alive_timer = zero_timer V, pap_send_buf = pap,
         has_pap_data = False, pap_sent_this_tick = False,
         other_sent_this_tick = False, anything_sent_this_tick = False,
         unicast_dests = [], send_unicast_only = config_send_unicast_only config,
         last_send_error = kEtcPalErrOk, netints = []\<rparr>
     }"

text \<open>The new universe is given too, with the place it was put at.\<close>

definition add_sacn_source_universe ::
    "'tm api_env \<Rightarrow> universe_config \<Rightarrow> 'tm sacn_source \<Rightarrow> (etcpal_error \<times> nat \<times> 'tm sacn_source) option" where
  "add_sacn_source_universe V config s =
     (if universe_count_max s \<noteq> kSacnSourceInfiniteUniverses \<and> length (universes s) \<ge> universe_count_max s
      then Some (kEtcPalErrNoMem, 0, s)
      else if \<not> has_room V (length (universes s)) then Some (kEtcPalErrNoMem, 0, s)
      else do {
        u \<leftarrow> new_universe V config s;
        let at = insert_index (config_universe config) (universes s);
        let (res, u) = (if alloc_ok V then add_unicast_dests (has_room V) (config_unicast_destinations config) u
                        else (kEtcPalErrNoMem, u));
        let (res, ns) = (if res = kEtcPalErrOk then initialize_netints V (config_universe config) else (res, []));
        let u = u\<lparr>netints := ns\<rparr>;
        Some (if res = kEtcPalErrOk
              then (kEtcPalErrOk, at, s\<lparr>universes := take at (universes s) @ u # drop at (universes s)\<rparr>)
              else (res, at, s))
      })"

text \<open>Counting the interfaces of a universe in its source, up to the first failure.\<close>

fun add_source_netints :: "(nat \<Rightarrow> bool) \<Rightarrow> mcast_netint_id list \<Rightarrow> 'tm sacn_source \<Rightarrow> etcpal_error \<times> 'tm sacn_source" where
  "add_source_netints room [] s = (kEtcPalErrOk, s)"
| "add_source_netints room (n # ns) s =
     (case add_sacn_source_netint room n s of (res, s) \<Rightarrow>
        if res = kEtcPalErrOk then add_source_netints room ns s else (res, s))"

section \<open>The API\<close>

text \<open>\<open>thread_create_result\<close>: the result of \<open>etcpal_thread_create\<close>.\<close>

definition initialize_source_thread :: "'tm api_env \<Rightarrow> 'tm source_module \<Rightarrow> etcpal_error \<times> 'tm source_module" where
  "initialize_source_thread V M =
     (if thread_initialized M then (kEtcPalErrOk, M)
      else (thread_create_result V,
            M\<lparr>shutting_down := False, thread_initialized := (thread_create_result V = kEtcPalErrOk)\<rparr>))"

definition sacn_source_create ::
    "'tm api_env \<Rightarrow> source_config \<Rightarrow> 'tm source_module \<Rightarrow> (etcpal_error \<times> int option \<times> 'tm source_module) option" where
  "sacn_source_create V config M =
     (if \<not> is_initialized V then Some (kEtcPalErrNotInit, None, M)
      else if config_cid config = replicate 16 0 \<or> length (config_name config) > 63 \<or>
              config_keep_alive_interval config \<le> 0 \<or> config_pap_keep_alive_interval config \<le> 0
      then Some (kEtcPalErrInvalid, None, M)
      else if \<not> lock_taken V then Some (kEtcPalErrSys, None, M)
      else
        let (res, M) = (if \<not> manually_process_source config then initialize_source_thread V M else (kEtcPalErrOk, M)) in
        if res \<noteq> kEtcPalErrOk then Some (res, None, M)
        else do {
          (res, M) \<leftarrow> add_sacn_source V (next_handle V) config M;
          Some (res, if res = kEtcPalErrOk then Some (next_handle V) else None, M)
        })"

definition sacn_source_change_name ::
    "'tm api_env \<Rightarrow> int \<Rightarrow> u8 list \<Rightarrow> 'tm source_module \<Rightarrow> etcpal_error \<times> 'tm source_module" where
  "sacn_source_change_name V h new_name M =
     (if \<not> is_initialized V then (kEtcPalErrNotInit, M)
      else if h = kSacnSourceInvalid \<or> length new_name > 63 then (kEtcPalErrInvalid, M)
      else if \<not> lock_taken V then (kEtcPalErrSys, M)
      else case get_source_index h M of
             None \<Rightarrow> (kEtcPalErrNotFound, M)
           | Some i \<Rightarrow>
               if terminating (sources M ! i) then (kEtcPalErrNotFound, M)
               else (kEtcPalErrOk, put_source i (set_source_name (tick_env V) new_name (sources M ! i)) M))"

definition sacn_source_destroy :: "'tm api_env \<Rightarrow> int \<Rightarrow> 'tm source_module \<Rightarrow> 'tm source_module" where
  "sacn_source_destroy V h M =
     (if is_initialized V \<and> h \<noteq> kSacnSourceInvalid \<and> lock_taken V then
        case get_source_index h M of None \<Rightarrow> M | Some i \<Rightarrow> put_source i (set_source_terminating (sources M ! i)) M
      else M)"

definition sacn_source_add_universe ::
    "'tm api_env \<Rightarrow> int \<Rightarrow> universe_config \<Rightarrow> 'tm source_module \<Rightarrow> (etcpal_error \<times> 'tm source_module) option" where
  "sacn_source_add_universe V h config M =
     (if \<not> is_initialized V then Some (kEtcPalErrNotInit, M)
      else if h = kSacnSourceInvalid \<or> \<not> UNIVERSE_ID_VALID (config_universe config) \<or>
              config_sync_universe config \<noteq> 0 \<and> \<not> UNIVERSE_ID_VALID (config_sync_universe config) \<or>
              list_ex (ip_is_invalid V) (config_unicast_destinations config)
      then Some (kEtcPalErrInvalid, M)
      else if \<not> lock_taken V then Some (kEtcPalErrSys, M)
      else case get_source_index h M of
             None \<Rightarrow> Some (kEtcPalErrNotFound, M)
           | Some i \<Rightarrow>
               let s = sources M ! i in
               if terminating s then Some (kEtcPalErrNotFound, M)
               else
                 let (res, s) = (case get_source_universe_index (config_universe config) s of
                                   None \<Rightarrow> (kEtcPalErrOk, s)
                                 | Some j \<Rightarrow>
                                     if termination_state (universes s ! j) = kTerminatingAndRemoving
                                     then (kEtcPalErrOk, finish_source_universe_termination j s)
                                     else (kEtcPalErrExists, s))
                 in if res \<noteq> kEtcPalErrOk then Some (res, M)
                    else do {
                      (res, j, s) \<leftarrow> add_sacn_source_universe V config s;
                      let (res, s) = (if res = kEtcPalErrOk
                                      then add_source_netints (has_room V) (netints (universes s ! j)) s else (res, s));
                      Some (res, put_source i s M)
                    })"

definition sacn_source_remove_universe :: "'tm api_env \<Rightarrow> int \<Rightarrow> u16 \<Rightarrow> 'tm source_module \<Rightarrow> 'tm source_module" where
  "sacn_source_remove_universe V h uni M =
     (if \<not> lock_taken V then M
      else case find_universe h uni M of
             None \<Rightarrow> M
           | Some (i, j) \<Rightarrow>
               let s = sources M ! i in
               put_source i (put_universe j (set_universe_terminating kTerminateAndRemove (universes s ! j)) s) M)"

text \<open>The list written and its full length; \<open>room\<close> is the room in the caller's array.\<close>

definition sacn_source_get_universes :: "'tm api_env \<Rightarrow> int \<Rightarrow> nat \<Rightarrow> 'tm source_module \<Rightarrow> nat \<times> u16 list" where
  "sacn_source_get_universes V h room M =
     (if \<not> lock_taken V then (0, [])
      else case get_source_index h M of
             None \<Rightarrow> (0, [])
           | Some i \<Rightarrow> if terminating (sources M ! i) then (0, [])
                       else let us = get_source_universes (sources M ! i) in (length us, take room us))"

definition sacn_source_add_unicast_destination ::
    "'tm api_env \<Rightarrow> int \<Rightarrow> u16 \<Rightarrow> ip_addr \<Rightarrow> 'tm source_module \<Rightarrow> etcpal_error \<times> 'tm source_module" where
  "sacn_source_add_unicast_destination V h uni addr M =
     (if \<not> is_initialized V then (kEtcPalErrNotInit, M)
      else if h = kSacnSourceInvalid \<or> \<not> UNIVERSE_ID_VALID uni \<or> ip_is_invalid V addr then (kEtcPalErrInvalid, M)
      else if \<not> lock_taken V then (kEtcPalErrSys, M)
      else case find_universe h uni M of
             None \<Rightarrow> (kEtcPalErrNotFound, M)
           | Some (i, j) \<Rightarrow>
               let s = sources M ! i;
                   u = universes s ! j;
                   (res, u) = (case get_unicast_dest_index addr u of
                                 None \<Rightarrow> (kEtcPalErrOk, u)
                               | Some k \<Rightarrow>
                                   if dest_state (unicast_dests u ! k) = kTerminatingAndRemoving
                                   then (kEtcPalErrOk, finish_unicast_dest_termination k u)
                                   else (kEtcPalErrExists, u));
                   (res, u) = (if res = kEtcPalErrOk then add_sacn_unicast_dest (has_room V) addr u else (res, u));
                   u = (if res = kEtcPalErrOk then reset_transmission_suppression (tick_env V) s kResetLevelAndPap u else u)
               in (res, put_source i (put_universe j u s) M))"

definition sacn_source_remove_unicast_destination ::
    "'tm api_env \<Rightarrow> int \<Rightarrow> u16 \<Rightarrow> ip_addr \<Rightarrow> 'tm source_module \<Rightarrow> 'tm source_module" where
  "sacn_source_remove_unicast_destination V h uni addr M =
     (if \<not> lock_taken V then M
      else case find_universe h uni M of
             None \<Rightarrow> M
           | Some (i, j) \<Rightarrow>
               let s = sources M ! i; u = universes s ! j in
               case get_unicast_dest_index addr u of
                 None \<Rightarrow> M
               | Some k \<Rightarrow>
                   let dest = unicast_dests u ! k in
                   if dest_state dest = kTerminatingAndRemoving then M
                   else put_source i (put_universe j
                          (u\<lparr>unicast_dests := (unicast_dests u)[k := set_unicast_dest_terminating kTerminateAndRemove dest]\<rparr>) s) M)"

definition sacn_source_get_unicast_destinations ::
    "'tm api_env \<Rightarrow> int \<Rightarrow> u16 \<Rightarrow> nat \<Rightarrow> 'tm source_module \<Rightarrow> nat \<times> ip_addr list" where
  "sacn_source_get_unicast_destinations V h uni room M =
     (if \<not> lock_taken V then (0, [])
      else case find_universe h uni M of
             None \<Rightarrow> (0, [])
           | Some (i, j) \<Rightarrow> let ds = get_source_unicast_dests (universes (sources M ! i) ! j) in (length ds, take room ds))"

text \<open>\<open>change_priority\<close> and \<open>change_preview_flag\<close>.\<close>

definition change_universe ::
    "'tm api_env \<Rightarrow> bool \<Rightarrow> int \<Rightarrow> u16 \<Rightarrow> ('tm sacn_source \<Rightarrow> 'tm source_universe \<Rightarrow> 'tm source_universe) \<Rightarrow>
     'tm source_module \<Rightarrow> etcpal_error \<times> 'tm source_module" where
  "change_universe V valid h uni f M =
     (if \<not> is_initialized V then (kEtcPalErrNotInit, M)
      else if h = kSacnSourceInvalid \<or> \<not> UNIVERSE_ID_VALID uni \<or> \<not> valid then (kEtcPalErrInvalid, M)
      else if \<not> lock_taken V then (kEtcPalErrSys, M)
      else case find_universe h uni M of
             None \<Rightarrow> (kEtcPalErrNotFound, M)
           | Some (i, j) \<Rightarrow>
               let s = sources M ! i in (kEtcPalErrOk, put_source i (put_universe j (f s (universes s ! j)) s) M))"

definition sacn_source_change_priority ::
    "'tm api_env \<Rightarrow> int \<Rightarrow> u16 \<Rightarrow> u8 \<Rightarrow> 'tm source_module \<Rightarrow> etcpal_error \<times> 'tm source_module" where
  "sacn_source_change_priority V h uni p M =
     change_universe V (p \<le> 200) h uni (\<lambda>s. set_universe_priority (tick_env V) s p) M"

definition sacn_source_change_preview_flag ::
    "'tm api_env \<Rightarrow> int \<Rightarrow> u16 \<Rightarrow> bool \<Rightarrow> 'tm source_module \<Rightarrow> etcpal_error \<times> 'tm source_module" where
  "sacn_source_change_preview_flag V h uni p M =
     change_universe V True h uni (\<lambda>s. set_preview_flag (tick_env V) s p) M"

definition sacn_source_change_synchronization_universe :: "int \<Rightarrow> u16 \<Rightarrow> u16 \<Rightarrow> etcpal_error" where
  "sacn_source_change_synchronization_universe h uni sync = kEtcPalErrNotImpl"

definition sacn_source_send_synchronization :: "int \<Rightarrow> u16 \<Rightarrow> etcpal_error" where
  "sacn_source_send_synchronization h sync = kEtcPalErrNotImpl"

definition sacn_source_send_now ::
    "'tm api_env \<Rightarrow> int \<Rightarrow> u16 \<Rightarrow> u8 \<Rightarrow> u8 list \<Rightarrow> nat \<Rightarrow> 'tm source_module \<Rightarrow>
     (etcpal_error \<times> 'tm source_module \<times> send_call list) option" where
  "sacn_source_send_now V h uni code buffer buflen M =
     (if \<not> is_initialized V then Some (kEtcPalErrNotInit, M, [])
      else if h = kSacnSourceInvalid \<or> \<not> UNIVERSE_ID_VALID uni \<or> buflen > 512 \<or> buflen = 0
      then Some (kEtcPalErrInvalid, M, [])
      else if \<not> lock_taken V then Some (kEtcPalErrSys, M, [])
      else case find_universe h uni M of
             None \<Rightarrow> Some (kEtcPalErrNotFound, M, [])
           | Some (i, j) \<Rightarrow> do {
               let E = tick_env V;
               let s = sources M ! i;
               let u = universes s ! j;
               send_buf \<leftarrow> init_sacn_data_send_buf (acn E) (replicate kSacnDataPacketMtu 0) code (cid s)
                 (takeWhile (\<lambda>c. c \<noteq> 0) (source_name s)) (priority u) (universe_id u) (sync_universe u) (send_preview u);
               let send_buf = pack_sequence_number send_buf (next_seq_num u);
               send_buf \<leftarrow> update_send_buf_data (acn E) send_buf buffer (of_nat buflen);
               let (ok1, u, c1) = send_universe_multicast E u send_buf;
               let (ok2, u, c2) = send_universe_unicast E u send_buf;
               let res = (if \<not> anything_sent_this_tick u then last_send_error u else kEtcPalErrOk);
               Some (res, put_source i (put_universe j (increment_sequence_number u) s) M, c1 @ c2)
             })"

definition kSacnDmxAddressCount :: nat where "kSacnDmxAddressCount = 512"

text \<open>The four functions that update levels; \<open>force_sync\<close> has no effect on the buffers.\<close>

definition sacn_source_update_levels ::
    "'tm api_env \<Rightarrow> int \<Rightarrow> u16 \<Rightarrow> u8 list option \<Rightarrow> nat \<Rightarrow> 'tm source_module \<Rightarrow> 'tm source_module option" where
  "sacn_source_update_levels V h uni new_levels new_levels_size M =
     (if new_levels_size > kSacnDmxAddressCount \<or> \<not> lock_taken V then Some M
      else case find_universe h uni M of
             None \<Rightarrow> Some M
           | Some (i, j) \<Rightarrow> do {
               let s = sources M ! i;
               let u = universes s ! j;
               let u = (if new_levels = None then disable_pap_data (set_universe_terminating kTerminateWithoutRemoving u) else u);
               s \<leftarrow> update_levels_and_or_pap (tick_env V) new_levels new_levels_size None 0 j (put_universe j u s);
               Some (put_source i s M)
             })"

definition sacn_source_update_levels_and_pap ::
    "'tm api_env \<Rightarrow> int \<Rightarrow> u16 \<Rightarrow> u8 list option \<Rightarrow> nat \<Rightarrow> u8 list option \<Rightarrow> nat \<Rightarrow> 'tm source_module \<Rightarrow>
     'tm source_module option" where
  "sacn_source_update_levels_and_pap V h uni new_levels new_levels_size new_priorities new_priorities_size M =
     (if new_levels_size > kSacnDmxAddressCount \<or> new_priorities_size > kSacnDmxAddressCount \<or> \<not> lock_taken V then Some M
      else case find_universe h uni M of
             None \<Rightarrow> Some M
           | Some (i, j) \<Rightarrow> do {
               let s = sources M ! i;
               let u = universes s ! j;
               let u = (if new_levels = None then set_universe_terminating kTerminateWithoutRemoving u else u);
               let u = (if new_levels = None \<or> new_priorities = None then disable_pap_data u else u);
               s \<leftarrow> update_levels_and_or_pap (tick_env V) new_levels new_levels_size
                     (if new_levels = None then None else new_priorities) new_priorities_size j (put_universe j u s);
               Some (put_source i s M)
             })"

definition sacn_source_update_levels_and_force_sync ::
    "'tm api_env \<Rightarrow> int \<Rightarrow> u16 \<Rightarrow> u8 list option \<Rightarrow> nat \<Rightarrow> 'tm source_module \<Rightarrow> 'tm source_module option" where
  "sacn_source_update_levels_and_force_sync V h uni new_levels new_levels_size M =
     sacn_source_update_levels V h uni new_levels new_levels_size M"

definition sacn_source_update_levels_and_pap_and_force_sync ::
    "'tm api_env \<Rightarrow> int \<Rightarrow> u16 \<Rightarrow> u8 list option \<Rightarrow> nat \<Rightarrow> u8 list option \<Rightarrow> nat \<Rightarrow> 'tm source_module \<Rightarrow>
     'tm source_module option" where
  "sacn_source_update_levels_and_pap_and_force_sync V h uni new_levels new_levels_size new_priorities new_priorities_size M =
     sacn_source_update_levels_and_pap V h uni new_levels new_levels_size new_priorities new_priorities_size M"

definition sacn_source_process_manual ::
    "'tm api_env \<Rightarrow> tick_mode \<Rightarrow> 'tm source_module \<Rightarrow> (nat \<times> 'tm source_module \<times> send_call list) option" where
  "sacn_source_process_manual V mode M =
     (if lock_taken V then process_sources (tick_env V) kProcessManualSources mode M else Some (0, M, []))"

text \<open>One pass of the thread: a tick for the sources that are not processed manually.\<close>

definition thread_tick ::
    "'tm api_env \<Rightarrow> tick_mode \<Rightarrow> 'tm source_module \<Rightarrow> (nat \<times> 'tm source_module \<times> send_call list) option" where
  "thread_tick V mode M =
     (if lock_taken V then process_sources (tick_env V) kProcessThreadedSources mode M else Some (0, M, []))"

definition sacn_source_get_network_interfaces ::
    "'tm api_env \<Rightarrow> int \<Rightarrow> u16 \<Rightarrow> nat \<Rightarrow> 'tm source_module \<Rightarrow> nat \<times> mcast_netint_id list" where
  "sacn_source_get_network_interfaces V h uni room M =
     (if \<not> lock_taken V then (0, [])
      else case find_universe h uni M of
             None \<Rightarrow> (0, [])
           | Some (i, j) \<Rightarrow> let ns = netints (universes (sources M ! i) ! j) in (length ns, take room ns))"

section \<open>Resetting the networking\<close>

definition clear_source_netints :: "'tm sacn_source \<Rightarrow> 'tm sacn_source" where
  "clear_source_netints s = s\<lparr>source_netints := []\<rparr>"

text \<open>\<open>ini\<close> is the outcome of \<open>sacn_initialize_source_netints\<close> for the universe at index \<open>j\<close>.\<close>

definition reset_source_universe_networking ::
    "'tm api_env \<Rightarrow> etcpal_error \<times> mcast_netint_id list \<Rightarrow> nat \<Rightarrow> 'tm sacn_source \<Rightarrow> etcpal_error \<times> 'tm sacn_source" where
  "reset_source_universe_networking V ini j s =
     (let (res, ns) = ini;
          s = put_universe j ((universes s ! j)\<lparr>netints := ns\<rparr>) s;
          (res, s) = (if res = kEtcPalErrOk then add_source_netints (has_room V) ns s else (res, s))
      in (res, if res = kEtcPalErrOk
               then put_universe j (reset_transmission_suppression (tick_env V) s kResetLevelAndPap (universes s ! j)) s else s))"

text \<open>
  The loops over the universes of a source from index \<open>j\<close>, and over the sources from index \<open>i\<close>, up
  to the first failure; \<open>f\<close> is the body for one universe.
\<close>

fun reset_universes ::
    "(nat \<Rightarrow> 'tm sacn_source \<Rightarrow> etcpal_error \<times> 'tm sacn_source) \<Rightarrow> nat \<Rightarrow> nat \<Rightarrow> 'tm sacn_source \<Rightarrow>
     etcpal_error \<times> 'tm sacn_source" where
  "reset_universes f j 0 s = (kEtcPalErrOk, s)"
| "reset_universes f j (Suc n) s =
     (case f j s of (res, s) \<Rightarrow> if res = kEtcPalErrOk then reset_universes f (j + 1) n s else (res, s))"

fun reset_sources ::
    "(nat \<Rightarrow> 'tm sacn_source \<Rightarrow> etcpal_error \<times> 'tm sacn_source) \<Rightarrow> nat \<Rightarrow> nat \<Rightarrow> 'tm source_module \<Rightarrow>
     etcpal_error \<times> 'tm source_module" where
  "reset_sources f i 0 M = (kEtcPalErrOk, M)"
| "reset_sources f i (Suc n) M =
     (case reset_universes f 0 (length (universes (sources M ! i))) (clear_source_netints (sources M ! i)) of (res, s) \<Rightarrow>
        if res = kEtcPalErrOk then reset_sources f (i + 1) n (put_source i s M) else (res, put_source i s M))"

definition sacn_source_reset_networking :: "'tm api_env \<Rightarrow> 'tm source_module \<Rightarrow> etcpal_error \<times> 'tm source_module" where
  "sacn_source_reset_networking V M =
     (if \<not> is_initialized V then (kEtcPalErrNotInit, M)
      else if \<not> lock_taken V then (kEtcPalErrSys, M)
      else reset_sources (\<lambda>j s. reset_source_universe_networking V (initialize_netints V (universe_id (universes s ! j))) j s)
             0 (length (sources M)) M)"

text \<open>
  A list of interfaces per universe; its interfaces are in the environment, as the outcome
  \<open>initialize_listed k\<close> of \<open>sacn_initialize_source_netints\<close> for the list at index \<open>k\<close>.
\<close>

record netint_list =
  list_handle :: int
  list_universe :: u16

definition get_per_universe_netint_lists_index :: "int \<Rightarrow> u16 \<Rightarrow> netint_list list \<Rightarrow> nat option" where
  "get_per_universe_netint_lists_index h uni nls = index_where (\<lambda>l. list_handle l = h \<and> list_universe l = uni) nls"

text \<open>The lists must name all universes that are not being removed, and have no more entries.\<close>

definition kept_universes :: "'tm source_module \<Rightarrow> (int \<times> u16) list" where
  "kept_universes M =
     concat (map (\<lambda>s. map (\<lambda>u. (source_handle s, universe_id u))
                        (filter (\<lambda>u. termination_state u \<noteq> kTerminatingAndRemoving) (universes s))) (sources M))"

definition netint_lists_valid :: "netint_list list \<Rightarrow> 'tm source_module \<Rightarrow> bool" where
  "netint_lists_valid nls M \<longleftrightarrow>
     (\<forall>(h, uni) \<in> set (kept_universes M). get_per_universe_netint_lists_index h uni nls \<noteq> None) \<and>
     length nls = length (kept_universes M)"

definition reset_listed_universe ::
    "'tm api_env \<Rightarrow> netint_list list \<Rightarrow> (nat \<Rightarrow> etcpal_error \<times> mcast_netint_id list) \<Rightarrow> nat \<Rightarrow> 'tm sacn_source \<Rightarrow>
     etcpal_error \<times> 'tm sacn_source" where
  "reset_listed_universe V nls initialize_listed j s =
     (let u = universes s ! j in
      if termination_state u = kTerminatingAndRemoving then add_source_netints (has_room V) (netints u) s
      else let k = (case get_per_universe_netint_lists_index (source_handle s) (universe_id u) nls of None \<Rightarrow> 0 | Some k \<Rightarrow> k)
           in reset_source_universe_networking V (initialize_listed k) j s)"

definition sacn_source_reset_networking_per_universe ::
    "'tm api_env \<Rightarrow> netint_list list \<Rightarrow> (nat \<Rightarrow> etcpal_error \<times> mcast_netint_id list) \<Rightarrow> 'tm source_module \<Rightarrow>
     etcpal_error \<times> 'tm source_module" where
  "sacn_source_reset_networking_per_universe V nls initialize_listed M =
     (if nls = [] then (kEtcPalErrInvalid, M)
      else if \<not> is_initialized V then (kEtcPalErrNotInit, M)
      else if \<not> lock_taken V then (kEtcPalErrSys, M)
      else if \<not> netint_lists_valid nls M then (kEtcPalErrInvalid, M)
      else reset_sources (reset_listed_universe V nls initialize_listed) 0 (length (sources M)) M)"

section \<open>The thread\<close>

definition sacn_source_state_init :: "'tm source_module \<Rightarrow> 'tm source_module" where
  "sacn_source_state_init M = M\<lparr>shutting_down := False\<rparr>"

text \<open>The two times the lock is taken may fail. The second result: whether the thread is waited for.\<close>

definition sacn_source_state_deinit :: "bool \<Rightarrow> bool \<Rightarrow> 'tm source_module \<Rightarrow> 'tm source_module \<times> bool" where
  "sacn_source_state_deinit lock1 lock2 M =
     (let thread_initted = (lock1 \<and> thread_initialized M);
          M = (if lock1 then M\<lparr>thread_initialized := False\<rparr> else M)
      in (if thread_initted \<and> lock2 then M\<lparr>shutting_down := True\<rparr> else M, thread_initted))"

text \<open>
  One pass of the loop of \<open>source_thread_function\<close>: the environments of its two ticks and whether it
  gets the lock to read \<open>shutting_down\<close>. The loop runs over the list of its passes; the first result
  tells whether it has ended.
\<close>

record 'tm pass_env =
  levels_env :: "'tm api_env"
  pap_env :: "'tm api_env"
  flag_lock :: bool

definition source_thread_pass ::
    "'tm pass_env \<Rightarrow> bool \<Rightarrow> 'tm source_module \<Rightarrow> (bool \<times> nat \<times> 'tm source_module \<times> send_call list) option" where
  "source_thread_pass P keep_running_thread M =
     do {
       (n, M, c1) \<leftarrow> thread_tick (levels_env P) kSacnSourceTickModeProcessLevelsOnly M;
       (num_thread_based_sources, M, c2) \<leftarrow> thread_tick (pap_env P) kSacnSourceTickModeProcessPapOnly M;
       Some (if flag_lock P then \<not> shutting_down M else keep_running_thread, num_thread_based_sources, M, c1 @ c2)
     }"

fun source_thread ::
    "'tm pass_env list \<Rightarrow> bool \<Rightarrow> nat \<Rightarrow> 'tm source_module \<Rightarrow> (bool \<times> 'tm source_module) option" where
  "source_thread [] keep n M = Some (\<not> keep \<and> n = 0, M)"
| "source_thread (P # Ps) keep n M =
     (if \<not> keep \<and> n = 0 then Some (True, M)
      else case source_thread_pass P keep M of
             None \<Rightarrow> None
           | Some (keep', n', M', c) \<Rightarrow> source_thread Ps keep' n' M')"

definition source_thread_function :: "'tm pass_env list \<Rightarrow> 'tm source_module \<Rightarrow> (bool \<times> 'tm source_module) option" where
  "source_thread_function Ps M = source_thread Ps True 0 M"

definition sacn_source_universe_config_init :: universe_config where
  "sacn_source_universe_config_init =
     \<lparr>config_universe = 0, config_priority = 100, config_send_preview = False, config_send_unicast_only = False,
      config_unicast_destinations = [], config_sync_universe = 0\<rparr>"

end
