(* ===== verification/SourceSends.thy ===== *)
theory SourceSends
  imports SourceApi
begin

text \<open>
  What the sending functions of \<open>SourceState\<close> do, in closed form.
  \<^item> \<open>keeps u u'\<close>: only the error notes and the sent flags differ. The lemmas \<open>..._sends\<close> give the
    calls made, in order, the result, and that the rest of the universe is kept.
  \<^item> \<open>transmit_...\<close> describe one tick of a universe that is not terminating.
\<close>

section \<open>What sending keeps\<close>

definition dest_key :: "unicast_destination \<Rightarrow> ip_addr \<times> termination_state \<times> int" where
  "dest_key d = (dest_addr d, dest_state d, dest_terminations_sent d)"

definition keeps :: "'tm source_universe \<Rightarrow> 'tm source_universe \<Rightarrow> bool" where
  "keeps u v \<longleftrightarrow>
     universe_id v = universe_id u \<and> termination_state v = termination_state u \<and>
     num_terminations_sent v = num_terminations_sent u \<and> priority v = priority u \<and>
     sync_universe v = sync_universe u \<and> send_preview v = send_preview u \<and> next_seq_num v = next_seq_num u \<and>
     level_send_buf v = level_send_buf u \<and> pap_send_buf v = pap_send_buf u \<and>
     has_level_data v = has_level_data u \<and> has_pap_data v = has_pap_data u \<and>
     send_unicast_only v = send_unicast_only u \<and> netints v = netints u \<and>
     level_packets_sent_before_suppression v = level_packets_sent_before_suppression u \<and>
     pap_packets_sent_before_suppression v = pap_packets_sent_before_suppression u \<and>
     level_keep_alive_timer v = level_keep_alive_timer u \<and> pap_keep_alive_timer v = pap_keep_alive_timer u \<and>
     map dest_key (unicast_dests v) = map dest_key (unicast_dests u)"

lemma keeps_refl [simp]: "keeps u u"
  by (simp add: keeps_def)

lemma keeps_trans: "keeps u v \<Longrightarrow> keeps v w \<Longrightarrow> keeps u w"
  by (simp add: keeps_def)

lemma keeps_D:
  assumes "keeps u v"
  shows "universe_id v = universe_id u" "termination_state v = termination_state u"
    "num_terminations_sent v = num_terminations_sent u" "priority v = priority u" "send_preview v = send_preview u"
    "next_seq_num v = next_seq_num u" "level_send_buf v = level_send_buf u" "pap_send_buf v = pap_send_buf u"
    "has_level_data v = has_level_data u" "has_pap_data v = has_pap_data u"
    "send_unicast_only v = send_unicast_only u" "netints v = netints u"
    "level_packets_sent_before_suppression v = level_packets_sent_before_suppression u"
    "pap_packets_sent_before_suppression v = pap_packets_sent_before_suppression u"
    "level_keep_alive_timer v = level_keep_alive_timer u" "pap_keep_alive_timer v = pap_keep_alive_timer u"
    "map dest_key (unicast_dests v) = map dest_key (unicast_dests u)"
    "length (unicast_dests v) = length (unicast_dests u)"
  using assms by (auto simp: keeps_def dest: map_eq_imp_length_eq)

lemma keeps_handle [simp]: "keeps u (handle_data_packet_sent buf v) \<longleftrightarrow> keeps u v"
  by (simp add: handle_data_packet_sent_def keeps_def)

section \<open>The flags of a tick\<close>

text \<open>The start code of a buffer decides which flag a packet sent from it sets.\<close>

definition flags :: "'tm source_universe \<Rightarrow> bool \<times> bool \<times> bool \<times> bool" where
  "flags u = (levels_sent_this_tick u, pap_sent_this_tick u, other_sent_this_tick u, anything_sent_this_tick u)"

definition mark_sent :: "u8 list \<Rightarrow> bool \<Rightarrow> bool \<times> bool \<times> bool \<times> bool \<Rightarrow> bool \<times> bool \<times> bool \<times> bool" where
  "mark_sent buf sent f =
     (if \<not> sent then f
      else case f of (l, p, x, a) \<Rightarrow>
        if buf ! 125 = 0 then (True, p, x, True) else if buf ! 125 = 0xdd then (l, True, x, True) else (l, p, True, True))"

lemma flags_handle: "flags (handle_data_packet_sent buf u) = mark_sent buf True (flags u)"
  by (simp add: handle_data_packet_sent_def flags_def mark_sent_def)

section \<open>Multicast and unicast\<close>

definition mcast_ok :: "'tm source_env \<Rightarrow> 'tm source_universe \<Rightarrow> u8 list \<Rightarrow> mcast_netint_id \<Rightarrow> bool" where
  "mcast_ok E u buf n \<longleftrightarrow> multicast_result E (universe_id u) buf n = kEtcPalErrOk"

definition mcast_targets :: "'tm source_universe \<Rightarrow> mcast_netint_id list" where
  "mcast_targets u = (if send_unicast_only u then [] else netints u)"

definition ucast_targets :: "'tm source_universe \<Rightarrow> ip_addr list" where
  "ucast_targets u = map dest_addr (filter (\<lambda>d. dest_state d = kNotTerminating) (unicast_dests u))"

definition ucast_ok :: "'tm source_env \<Rightarrow> u8 list \<Rightarrow> ip_addr \<Rightarrow> bool" where
  "ucast_ok E buf a \<longleftrightarrow> unicast_result E buf a = kEtcPalErrOk"

lemma targets_keeps:
  "keeps u v \<Longrightarrow> mcast_targets v = mcast_targets u" "keeps u v \<Longrightarrow> ucast_targets v = ucast_targets u"
proof -
  show "keeps u v \<Longrightarrow> mcast_targets v = mcast_targets u" by (simp add: mcast_targets_def keeps_def)
  have *: "ucast_targets w = map fst (filter (\<lambda>k. fst (snd k) = kNotTerminating) (map dest_key (unicast_dests w)))" for w :: "'b source_universe"
    by (simp add: ucast_targets_def filter_map comp_def dest_key_def)
  show "keeps u v \<Longrightarrow> ucast_targets v = ucast_targets u" unfolding * by (drule keeps_D(17)) simp
qed

lemma multicast_loop_spec:
  "multicast_loop E buf ns one ok u calls = (one', ok', v, calls') \<Longrightarrow>
   one' = (one \<or> (\<exists>n \<in> set ns. mcast_ok E u buf n)) \<and> ok' = (ok \<and> (\<forall>n \<in> set ns. mcast_ok E u buf n)) \<and>
   calls' = calls @ map (\<lambda>n. SendMulticast (universe_id u) n buf) ns \<and> keeps u v \<and> flags v = flags u"
proof (induction ns arbitrary: one ok u calls)
  case (Cons n ns)
  define r where "r = multicast_result E (universe_id u) buf n"
  define u1 where "u1 = (if r = kEtcPalErrOk then u else u\<lparr>last_send_error := r\<rparr>)"
  have u1: "keeps u u1" "flags u1 = flags u" "mcast_ok E u1 = mcast_ok E u" "universe_id u1 = universe_id u"
    by (simp_all add: u1_def keeps_def flags_def mcast_ok_def fun_eq_iff)
  have step: "multicast_loop E buf (n # ns) one ok u calls =
      multicast_loop E buf ns (one \<or> r = kEtcPalErrOk) (ok \<and> r = kEtcPalErrOk) u1 (calls @ [SendMulticast (universe_id u) n buf])"
    by (simp add: Let_def r_def[symmetric] u1_def)
  show ?case
    using Cons.IH[OF Cons.prems[unfolded step]] u1(2) keeps_trans[OF u1(1), of v]
    by (simp add: u1(3,4) mcast_ok_def[of E u buf n] r_def[symmetric])
qed simp

lemma send_universe_multicast_sends:
  assumes "send_universe_multicast E u buf = (ok, v, calls)"
  shows "ok = (\<forall>n \<in> set (mcast_targets u). mcast_ok E u buf n)"
    "calls = map (\<lambda>n. SendMulticast (universe_id u) n buf) (mcast_targets u)" "keeps u v"
    "flags v = mark_sent buf (\<exists>n \<in> set (mcast_targets u). mcast_ok E u buf n) (flags u)"
proof -
  obtain one ok1 w c where l: "(if send_unicast_only u then (False, True, u, []) else multicast_loop E buf (netints u) False True u []) = (one, ok1, w, c)"
    by (metis prod_cases4)
  have spec: "one = (\<exists>n \<in> set (mcast_targets u). mcast_ok E u buf n) \<and> ok1 = (\<forall>n \<in> set (mcast_targets u). mcast_ok E u buf n) \<and>
      c = map (\<lambda>n. SendMulticast (universe_id u) n buf) (mcast_targets u) \<and> keeps u w \<and> flags w = flags u"
    using l multicast_loop_spec[of E buf "netints u" False True u "[]" one ok1 w c]
    by (auto simp: mcast_targets_def split: if_splits)
  have res: "ok = ok1" "v = (if one then handle_data_packet_sent buf w else w)" "calls = c"
    using assms unfolding send_universe_multicast_def l by simp_all
  show "ok = (\<forall>n \<in> set (mcast_targets u). mcast_ok E u buf n)"
    "calls = map (\<lambda>n. SendMulticast (universe_id u) n buf) (mcast_targets u)" "keeps u v"
    using spec res by auto
  show "flags v = mark_sent buf (\<exists>n \<in> set (mcast_targets u). mcast_ok E u buf n) (flags u)"
    using spec res by (cases one) (auto simp: flags_handle mark_sent_def[of buf False])
qed

lemma unicast_loop_spec:
  "unicast_loop E buf i n one ok u calls = (one', ok', v, calls') \<Longrightarrow> i + n = length (unicast_dests u) \<Longrightarrow>
   one' = (one \<or> (\<exists>a \<in> set (map dest_addr (filter (\<lambda>d. dest_state d = kNotTerminating) (drop i (unicast_dests u)))). ucast_ok E buf a)) \<and>
   ok' = (ok \<and> (\<forall>a \<in> set (map dest_addr (filter (\<lambda>d. dest_state d = kNotTerminating) (drop i (unicast_dests u)))). ucast_ok E buf a)) \<and>
   calls' = calls @ map (\<lambda>d. SendUnicast (dest_addr d) buf) (filter (\<lambda>d. dest_state d = kNotTerminating) (drop i (unicast_dests u))) \<and>
   keeps u v \<and> flags v = flags u"
proof (induction n arbitrary: i one ok u calls)
  case (Suc n)
  let ?ds = "unicast_dests u"
  define d where "d = ?ds ! i"
  have i: "i < length ?ds" using Suc.prems by simp
  then have split: "drop i ?ds = d # drop (Suc i) ?ds" by (simp add: d_def Cons_nth_drop_Suc)
  show ?case
  proof (cases "dest_state d = kNotTerminating")
    case False
    then show ?thesis using Suc.IH[of "Suc i" one ok u calls] Suc.prems split d_def by (simp add: Let_def)
  next
    case True
    define d' where "d' = note_unicast_error E buf d"
    define u1 where "u1 = u\<lparr>unicast_dests := ?ds[i := d']\<rparr>"
    define res where "res = unicast_result E buf (dest_addr d)"
    define u2 where "u2 = (if res = kEtcPalErrOk then u1 else u1\<lparr>last_send_error := res\<rparr>)"
    have key: "dest_key d' = dest_key d" by (simp add: d'_def note_unicast_error_def dest_key_def)
    have "map dest_key (?ds[i := d']) = map dest_key ?ds"
    proof -
      have "map dest_key (?ds[i := d']) = (map dest_key ?ds)[i := map dest_key ?ds ! i]" using i key by (simp add: map_update d_def)
      then show ?thesis by (simp only: list_update_id)
    qed
    then have u2: "keeps u u2" "flags u2 = flags u" "unicast_dests u2 = ?ds[i := d']"
      by (simp_all add: u2_def u1_def keeps_def flags_def)
    have step: "unicast_loop E buf i (Suc n) one ok u calls =
        unicast_loop E buf (i + 1) n (one \<or> res = kEtcPalErrOk) (ok \<and> res = kEtcPalErrOk) u2 (calls @ [SendUnicast (dest_addr d) buf])"
      using True by (simp add: Let_def d_def[symmetric] d'_def[symmetric] u1_def[symmetric] res_def[symmetric] u2_def)
    have rest: "drop (Suc i) (unicast_dests u2) = drop (Suc i) ?ds" by (simp add: u2(3))
    have "i + 1 + n = length (unicast_dests u2)" using Suc.prems(2) by (simp add: u2(3))
    note IH = Suc.IH[OF Suc.prems(1)[unfolded step] this]
    have kv: "keeps u v" "flags v = flags u" using IH u2(2) keeps_trans[OF u2(1), of v] by simp_all
    have ok: "ucast_ok E buf (dest_addr d) = (res = kEtcPalErrOk)" by (simp add: ucast_ok_def res_def)
    have "filter (\<lambda>d. dest_state d = kNotTerminating) (d # drop (Suc i) ?ds) =
        d # filter (\<lambda>d. dest_state d = kNotTerminating) (drop (Suc i) ?ds)" using True by simp
    then show ?thesis
      using IH unfolding split by (simp add: rest kv ok)
  qed
qed simp

lemma send_universe_unicast_sends:
  assumes "send_universe_unicast E u buf = (ok, v, calls)"
  shows "ok = (\<forall>a \<in> set (ucast_targets u). ucast_ok E buf a)"
    "calls = map (\<lambda>a. SendUnicast a buf) (ucast_targets u)" "keeps u v"
    "flags v = mark_sent buf (\<exists>a \<in> set (ucast_targets u). ucast_ok E buf a) (flags u)"
proof -
  obtain one ok1 w c where l: "unicast_loop E buf 0 (length (unicast_dests u)) False True u [] = (one, ok1, w, c)"
    by (metis prod_cases4)
  have spec: "one = (\<exists>a \<in> set (ucast_targets u). ucast_ok E buf a) \<and> ok1 = (\<forall>a \<in> set (ucast_targets u). ucast_ok E buf a) \<and>
      c = map (\<lambda>a. SendUnicast a buf) (ucast_targets u) \<and> keeps u w \<and> flags w = flags u"
    using unicast_loop_spec[OF l] by (simp add: ucast_targets_def comp_def)
  have res: "ok = ok1" "v = (if one then handle_data_packet_sent buf w else w)" "calls = c"
    using assms unfolding send_universe_unicast_def l by simp_all
  show "ok = (\<forall>a \<in> set (ucast_targets u). ucast_ok E buf a)"
    "calls = map (\<lambda>a. SendUnicast a buf) (ucast_targets u)" "keeps u v"
    using spec res by auto
  show "flags v = mark_sent buf (\<exists>a \<in> set (ucast_targets u). ucast_ok E buf a) (flags u)"
    using spec res by (cases one) (auto simp: flags_handle mark_sent_def[of buf False])
qed

section \<open>A tick of a universe that is not terminating\<close>

text \<open>A buffer sent by multicast and then, if every interface took it, by unicast.\<close>

definition sent_calls :: "'tm source_env \<Rightarrow> 'tm source_universe \<Rightarrow> u8 list \<Rightarrow> send_call list" where
  "sent_calls E u buf =
     map (\<lambda>n. SendMulticast (universe_id u) n buf) (mcast_targets u) @
     (if \<forall>n \<in> set (mcast_targets u). mcast_ok E u buf n then map (\<lambda>a. SendUnicast a buf) (ucast_targets u) else [])"

definition sent_all :: "'tm source_env \<Rightarrow> 'tm source_universe \<Rightarrow> u8 list \<Rightarrow> bool" where
  "sent_all E u buf \<longleftrightarrow>
     (\<forall>n \<in> set (mcast_targets u). mcast_ok E u buf n) \<and> (\<forall>a \<in> set (ucast_targets u). ucast_ok E buf a)"

definition sent_some :: "'tm source_env \<Rightarrow> 'tm source_universe \<Rightarrow> u8 list \<Rightarrow> bool" where
  "sent_some E u buf \<longleftrightarrow>
     (\<exists>n \<in> set (mcast_targets u). mcast_ok E u buf n) \<or>
     (\<forall>n \<in> set (mcast_targets u). mcast_ok E u buf n) \<and> (\<exists>a \<in> set (ucast_targets u). ucast_ok E buf a)"

lemma mark_sent_twice: "mark_sent buf a (mark_sent buf b f) = mark_sent buf (a \<or> b) f"
  by (auto simp: mark_sent_def split: prod.splits)

lemma send_both:
  assumes m: "send_universe_multicast E u buf = (ok1, v, c1)"
    and a: "and_then ok1 v (\<lambda>v. send_universe_unicast E v buf) = (ok2, w, c2)"
  shows "ok2 = sent_all E u buf" "c1 @ c2 = sent_calls E u buf" "keeps u w"
    "flags w = mark_sent buf (sent_some E u buf) (flags u)"
proof -
  note ms = send_universe_multicast_sends[OF m]
  have "ok2 = sent_all E u buf \<and> c1 @ c2 = sent_calls E u buf \<and> keeps u w \<and>
    flags w = mark_sent buf (sent_some E u buf) (flags u)"
  proof (cases ok1)
    case True
    then have "send_universe_unicast E v buf = (ok2, w, c2)" using a by (simp add: and_then_def)
    note us = send_universe_unicast_sends[OF this, unfolded targets_keeps(2)[OF ms(3)]]
    have all: "\<forall>n \<in> set (mcast_targets u). mcast_ok E u buf n" using ms(1) True by simp
    show ?thesis
      using us(1,2) ms(2) keeps_trans[OF ms(3) us(3)] us(4) ms(4) all
      by (auto simp: sent_all_def sent_calls_def sent_some_def mark_sent_twice disj_commute)
  next
    case False
    then have f: "ok2 = False" "w = v" "c2 = []" using a by (simp_all add: and_then_def)
    have nall: "(\<forall>n \<in> set (mcast_targets u). mcast_ok E u buf n) = False" using ms(1) False by simp
    show ?thesis
      using ms(2,3,4) unfolding f sent_all_def sent_calls_def sent_some_def nall by simp
  qed
  then show "ok2 = sent_all E u buf" "c1 @ c2 = sent_calls E u buf" "keeps u w"
    "flags w = mark_sent buf (sent_some E u buf) (flags u)" by simp_all
qed

definition levels_due :: "'tm source_env \<Rightarrow> tick_mode \<Rightarrow> 'tm source_universe \<Rightarrow> bool" where
  "levels_due E mode u \<longleftrightarrow> mode \<noteq> kSacnSourceTickModeProcessPapOnly \<and> has_level_data u \<and>
     (level_packets_sent_before_suppression u < NUM_PRE_SUPPRESSION_PACKETS \<or> timer_is_expired E (level_keep_alive_timer u))"

definition pap_due :: "'tm source_env \<Rightarrow> tick_mode \<Rightarrow> 'tm source_universe \<Rightarrow> bool" where
  "pap_due E mode u \<longleftrightarrow> mode \<noteq> kSacnSourceTickModeProcessLevelsOnly \<and> has_pap_data u \<and>
     (pap_packets_sent_before_suppression u < NUM_PRE_SUPPRESSION_PACKETS \<or> timer_is_expired E (pap_keep_alive_timer u))"

lemma mode_cases:
  "(mode = kSacnSourceTickModeProcessLevelsOnly \<or> mode = kSacnSourceTickModeProcessLevelsAndPap) = (mode \<noteq> kSacnSourceTickModeProcessPapOnly)"
  "(mode = kSacnSourceTickModeProcessPapOnly \<or> mode = kSacnSourceTickModeProcessLevelsAndPap) = (mode \<noteq> kSacnSourceTickModeProcessLevelsOnly)"
  by (cases mode; simp)+

text \<open>What the two blocks of a tick leave as it was.\<close>

definition tick_keeps :: "'tm source_universe \<Rightarrow> 'tm source_universe \<Rightarrow> bool" where
  "tick_keeps u v \<longleftrightarrow>
     universe_id v = universe_id u \<and> termination_state v = termination_state u \<and>
     num_terminations_sent v = num_terminations_sent u \<and> priority v = priority u \<and>
     sync_universe v = sync_universe u \<and> send_preview v = send_preview u \<and> next_seq_num v = next_seq_num u \<and>
     level_send_buf v = level_send_buf u \<and> has_level_data v = has_level_data u \<and> has_pap_data v = has_pap_data u \<and>
     send_unicast_only v = send_unicast_only u \<and> netints v = netints u \<and>
     map dest_key (unicast_dests v) = map dest_key (unicast_dests u)"

lemma keeps_tick_keeps: "keeps u v \<Longrightarrow> tick_keeps u v"
  by (simp add: keeps_def tick_keeps_def)

lemma tick_keeps_trans: "tick_keeps u v \<Longrightarrow> tick_keeps v w \<Longrightarrow> tick_keeps u w"
  by (simp add: tick_keeps_def)

lemma transmit_levels_spec:
  assumes "transmit_levels E mode u = (ok, v, calls)"
  shows "ok = (levels_due E mode u \<longrightarrow> sent_all E u (level_send_buf u))"
    "calls = (if levels_due E mode u then sent_calls E u (level_send_buf u) else [])"
    "flags v = mark_sent (level_send_buf u) (levels_due E mode u \<and> sent_some E u (level_send_buf u)) (flags u)"
    "tick_keeps u v" "pap_send_buf v = pap_send_buf u"
    "pap_packets_sent_before_suppression v = pap_packets_sent_before_suppression u"
    "pap_keep_alive_timer v = pap_keep_alive_timer u"
    "level_packets_sent_before_suppression v =
      (if levels_due E mode u then count_sent (level_packets_sent_before_suppression u) else level_packets_sent_before_suppression u)"
    "level_keep_alive_timer v = (if levels_due E mode u then timer_reset E (level_keep_alive_timer u) else level_keep_alive_timer u)"
proof -
  have "ok = (levels_due E mode u \<longrightarrow> sent_all E u (level_send_buf u)) \<and>
    calls = (if levels_due E mode u then sent_calls E u (level_send_buf u) else []) \<and>
    flags v = mark_sent (level_send_buf u) (levels_due E mode u \<and> sent_some E u (level_send_buf u)) (flags u) \<and>
    tick_keeps u v \<and> pap_send_buf v = pap_send_buf u \<and>
    pap_packets_sent_before_suppression v = pap_packets_sent_before_suppression u \<and>
    pap_keep_alive_timer v = pap_keep_alive_timer u \<and>
    level_packets_sent_before_suppression v =
      (if levels_due E mode u then count_sent (level_packets_sent_before_suppression u) else level_packets_sent_before_suppression u) \<and>
    level_keep_alive_timer v = (if levels_due E mode u then timer_reset E (level_keep_alive_timer u) else level_keep_alive_timer u)"
  proof (cases "levels_due E mode u")
    case False
    then have "ok = True" "v = u" "calls = []"
      using assms by (auto simp: transmit_levels_def levels_due_def mode_cases)
    then show ?thesis using False by (simp add: mark_sent_def tick_keeps_def)
  next
    case True
    obtain ok1 v1 c1 where m: "send_universe_multicast E u (level_send_buf u) = (ok1, v1, c1)" by (metis prod_cases3)
    have lb: "level_send_buf v1 = level_send_buf u" using send_universe_multicast_sends(3)[OF m] by (rule keeps_D)
    obtain ok2 v2 c2 where a: "and_then ok1 v1 (\<lambda>v. send_universe_unicast E v (level_send_buf v)) = (ok2, v2, c2)"
      by (metis prod_cases3)
    have "and_then ok1 v1 (\<lambda>v. send_universe_unicast E v (level_send_buf u)) = (ok2, v2, c2)"
      using a lb by (cases ok1) (simp_all add: and_then_def)
    note both = send_both[OF m this]
    have res: "ok = ok2" "calls = c1 @ c2"
      "v = v2\<lparr>level_packets_sent_before_suppression := count_sent (level_packets_sent_before_suppression v2),
              level_keep_alive_timer := timer_reset E (level_keep_alive_timer v2)\<rparr>"
      using assms True by (simp_all add: transmit_levels_def levels_due_def mode_cases m a Let_def)
    have "flags v = flags v2" by (simp add: res(3) flags_def)
    then show ?thesis
      using both True by (simp add: res tick_keeps_def keeps_def)
  qed
  then show "ok = (levels_due E mode u \<longrightarrow> sent_all E u (level_send_buf u))"
    "calls = (if levels_due E mode u then sent_calls E u (level_send_buf u) else [])"
    "flags v = mark_sent (level_send_buf u) (levels_due E mode u \<and> sent_some E u (level_send_buf u)) (flags u)"
    "tick_keeps u v" "pap_send_buf v = pap_send_buf u"
    "pap_packets_sent_before_suppression v = pap_packets_sent_before_suppression u"
    "pap_keep_alive_timer v = pap_keep_alive_timer u"
    "level_packets_sent_before_suppression v =
      (if levels_due E mode u then count_sent (level_packets_sent_before_suppression u) else level_packets_sent_before_suppression u)"
    "level_keep_alive_timer v = (if levels_due E mode u then timer_reset E (level_keep_alive_timer u) else level_keep_alive_timer u)"
    by blast+
qed

text \<open>The buffer the PAP block sends: numbered one higher when levels went out in the same tick.\<close>

definition pap_packet :: "'tm source_universe \<Rightarrow> u8 list" where
  "pap_packet u = (if levels_sent_this_tick u then pack_sequence_number (pap_send_buf u) (next_seq_num u + 1) else pap_send_buf u)"

lemma sent_keeps:
  assumes "universe_id v = universe_id u" "mcast_targets v = mcast_targets u" "ucast_targets v = ucast_targets u"
  shows "sent_calls E v buf = sent_calls E u buf" "sent_all E v buf = sent_all E u buf" "sent_some E v buf = sent_some E u buf"
  using assms by (simp_all add: sent_calls_def sent_all_def sent_some_def mcast_ok_def)

lemma transmit_pap_spec:
  assumes "transmit_pap E mode ok u = (ok', v, calls)"
  shows "ok' = (ok \<and> (pap_due E mode u \<longrightarrow> sent_all E u (pap_packet u)))"
    "calls = (if ok \<and> pap_due E mode u then sent_calls E u (pap_packet u) else [])"
    "flags v = mark_sent (pap_packet u) (ok \<and> pap_due E mode u \<and> sent_some E u (pap_packet u)) (flags u)"
    "tick_keeps u v" "pap_send_buf v = (if pap_due E mode u then pap_packet u else pap_send_buf u)"
    "level_packets_sent_before_suppression v = level_packets_sent_before_suppression u"
    "level_keep_alive_timer v = level_keep_alive_timer u"
    "pap_packets_sent_before_suppression v =
      (if pap_due E mode u then count_sent (pap_packets_sent_before_suppression u) else pap_packets_sent_before_suppression u)"
    "pap_keep_alive_timer v = (if pap_due E mode u then timer_reset E (pap_keep_alive_timer u) else pap_keep_alive_timer u)"
proof -
  have "ok' = (ok \<and> (pap_due E mode u \<longrightarrow> sent_all E u (pap_packet u))) \<and>
    calls = (if ok \<and> pap_due E mode u then sent_calls E u (pap_packet u) else []) \<and>
    flags v = mark_sent (pap_packet u) (ok \<and> pap_due E mode u \<and> sent_some E u (pap_packet u)) (flags u) \<and>
    tick_keeps u v \<and> pap_send_buf v = (if pap_due E mode u then pap_packet u else pap_send_buf u) \<and>
    level_packets_sent_before_suppression v = level_packets_sent_before_suppression u \<and>
    level_keep_alive_timer v = level_keep_alive_timer u \<and>
    pap_packets_sent_before_suppression v =
      (if pap_due E mode u then count_sent (pap_packets_sent_before_suppression u) else pap_packets_sent_before_suppression u) \<and>
    pap_keep_alive_timer v = (if pap_due E mode u then timer_reset E (pap_keep_alive_timer u) else pap_keep_alive_timer u)"
  proof (cases "pap_due E mode u")
    case False
    then have "ok' = ok" "v = u" "calls = []"
      using assms by (auto simp: transmit_pap_def pap_due_def mode_cases)
    then show ?thesis using False by (simp add: mark_sent_def tick_keeps_def)
  next
    case True
    define u2 where "u2 = (if levels_sent_this_tick u
      then u\<lparr>pap_send_buf := pack_sequence_number (pap_send_buf u) (next_seq_num u + 1)\<rparr> else u)"
    have u2: "pap_send_buf u2 = pap_packet u" "universe_id u2 = universe_id u" "mcast_targets u2 = mcast_targets u"
      "ucast_targets u2 = ucast_targets u" "flags u2 = flags u" "tick_keeps u u2"
      "pap_packets_sent_before_suppression u2 = pap_packets_sent_before_suppression u" "pap_keep_alive_timer u2 = pap_keep_alive_timer u"
      "level_packets_sent_before_suppression u2 = level_packets_sent_before_suppression u" "level_keep_alive_timer u2 = level_keep_alive_timer u"
      by (simp_all add: u2_def pap_packet_def mcast_targets_def ucast_targets_def flags_def tick_keeps_def)
    obtain ok1 v1 c1 where m: "and_then ok u2 (\<lambda>v. send_universe_multicast E v (pap_send_buf v)) = (ok1, v1, c1)" by (metis prod_cases3)
    obtain ok2 v2 c2 where a: "and_then ok1 v1 (\<lambda>v. send_universe_unicast E v (pap_send_buf v)) = (ok2, v2, c2)" by (metis prod_cases3)
    have res: "ok' = ok2" "calls = c1 @ c2"
      "v = v2\<lparr>pap_packets_sent_before_suppression := count_sent (pap_packets_sent_before_suppression v2),
              pap_keep_alive_timer := timer_reset E (pap_keep_alive_timer v2)\<rparr>"
      using assms True by (simp_all add: transmit_pap_def pap_due_def mode_cases m a Let_def u2_def[symmetric])
    have core: "ok2 = (ok \<and> sent_all E u (pap_packet u)) \<and> c1 @ c2 = (if ok then sent_calls E u (pap_packet u) else []) \<and>
        flags v2 = mark_sent (pap_packet u) (ok \<and> sent_some E u (pap_packet u)) (flags u) \<and> keeps u2 v2"
    proof (cases ok)
      case True
      then have m': "send_universe_multicast E u2 (pap_packet u) = (ok1, v1, c1)" using m u2(1) by (simp add: and_then_def)
      have "pap_send_buf v1 = pap_packet u" using send_universe_multicast_sends(3)[OF m'] u2(1) by (simp add: keeps_D)
      then have "and_then ok1 v1 (\<lambda>v. send_universe_unicast E v (pap_packet u)) = (ok2, v2, c2)"
        using a \<open>pap_send_buf v1 = pap_packet u\<close> by (cases ok1) (simp_all add: and_then_def)
      from send_both[OF m' this] show ?thesis
        using True sent_keeps[OF u2(2,3,4)] u2(5) by simp
    next
      case False
      then have "ok1 = False" "v1 = u2" "c1 = []" using m by (simp_all add: and_then_def)
      then have "ok2 = False" "v2 = u2" "c2 = []" using a by (simp_all add: and_then_def)
      then show ?thesis using False \<open>c1 = []\<close> u2(5) by (simp add: mark_sent_def)
    qed
    have "flags v = flags v2" by (simp add: res(3) flags_def)
    moreover have "tick_keeps u2 v" using core by (simp add: res(3) keeps_def tick_keeps_def)
    ultimately show ?thesis
      using core True u2 tick_keeps_trans[OF u2(6), of v] by (simp add: res keeps_D[of u2 v2])
  qed
  then show "ok' = (ok \<and> (pap_due E mode u \<longrightarrow> sent_all E u (pap_packet u)))"
    "calls = (if ok \<and> pap_due E mode u then sent_calls E u (pap_packet u) else [])"
    "flags v = mark_sent (pap_packet u) (ok \<and> pap_due E mode u \<and> sent_some E u (pap_packet u)) (flags u)"
    "tick_keeps u v" "pap_send_buf v = (if pap_due E mode u then pap_packet u else pap_send_buf u)"
    "level_packets_sent_before_suppression v = level_packets_sent_before_suppression u"
    "level_keep_alive_timer v = level_keep_alive_timer u"
    "pap_packets_sent_before_suppression v =
      (if pap_due E mode u then count_sent (pap_packets_sent_before_suppression u) else pap_packets_sent_before_suppression u)"
    "pap_keep_alive_timer v = (if pap_due E mode u then timer_reset E (pap_keep_alive_timer u) else pap_keep_alive_timer u)"
    by blast+
qed

end
