(* ===== verification/SourceInv.thy ===== *)
theory SourceInv
  imports SourceSends PduProps
begin

text \<open>
  The invariant of the sources.
  \<^item> \<open>buf_ok\<close>: a send buffer holds the header that belongs to the source's and the universe's
    settings, the number of slots, and room for 512 slots.
  \<^item> \<open>universe_inv\<close>: both buffers of a universe, with its next sequence number, and no flag of a tick
    left set. \<open>universe_shape\<close> is what holds of it in the middle of a tick.
  \<^item> \<open>source_inv\<close>: the universes, their order, the count of the active ones and the buffer for
    universe discovery.
\<close>

section \<open>Send buffers\<close>

definition preview_opt :: "bool \<Rightarrow> u8" where
  "preview_opt p = (if p then SACN_OPTVAL_PREVIEW else 0)"

definition buf_ok :: "acn_lib \<Rightarrow> u8 list \<Rightarrow> u8 list \<Rightarrow> u8 \<Rightarrow> u16 \<Rightarrow> bool \<Rightarrow> u8 \<Rightarrow> u8 \<Rightarrow> u8 list \<Rightarrow> bool" where
  "buf_ok L the_cid nm prio uni pv code sq buf \<longleftrightarrow>
     (\<exists>n area. n \<le> 512 \<and> length area = 512 \<and>
        buf = data_header L the_cid nm prio sq (preview_opt pv) uni code (int n) @ area)"

definition ids_ok :: "u8 list \<Rightarrow> u8 list \<Rightarrow> bool" where
  "ids_ok the_cid nm \<longleftrightarrow> length the_cid = 16 \<and> length nm = 64 \<and> name_field nm = nm"

lemma ids_ok_D:
  assumes "ids_ok the_cid nm"
  shows "length the_cid = 16" "length nm = 64" "name_field nm = nm"
  using assms by (simp_all add: ids_ok_def)

lemma name_field_prefix: "name_field (takeWhile (\<lambda>c. c \<noteq> 0) (name_field nm)) = name_field nm"
proof -
  let ?p = "\<lambda>c :: u8. c \<noteq> 0"
  have *: "takeWhile ?p (strncpy_bytes 63 nm @ [0]) = takeWhile ?p (take 63 nm)"
    using strncpy_bytes_prefix[of 63 nm] takeWhile_eq_all_conv[of ?p "strncpy_bytes 63 nm"] by (auto simp: takeWhile_append)
  have "length (takeWhile ?p (take 63 nm)) \<le> 63"
    using length_takeWhile_le[of ?p "take 63 nm"] by simp
  then have "take 63 (takeWhile ?p (take 63 nm)) = takeWhile ?p (take 63 nm)" by simp
  moreover have "takeWhile ?p (takeWhile ?p (take 63 nm)) = takeWhile ?p (take 63 nm)"
    unfolding takeWhile_eq_all_conv using set_takeWhileD[of _ ?p "take 63 nm"] by blast
  ultimately have "strncpy_bytes 63 (takeWhile ?p (take 63 nm)) = strncpy_bytes 63 nm"
    by (simp add: strncpy_bytes_def)
  then show ?thesis by (simp add: name_field_alt *)
qed

lemma strncpy_name: "length nm \<le> 63 \<Longrightarrow> strncpy_bytes 64 nm = name_field nm"
proof -
  assume n: "length nm \<le> 63"
  have l: "length (takeWhile (\<lambda>c. c \<noteq> 0) nm) \<le> 63" using length_takeWhile_le[of "\<lambda>c. c \<noteq> 0" nm] n by linarith
  have "strncpy_bytes 64 nm = strncpy_bytes 63 nm @ [0]"
    using replicate_64[OF l, of 0] n by (simp add: strncpy_bytes_def Let_def)
  then show ?thesis by (simp add: name_field_alt)
qed

lemma init_buf_ok:
  assumes "acn_laws L" "ids_ok the_cid nm"
  shows "\<exists>buf. init_sacn_data_send_buf L (replicate 638 0) code the_cid (takeWhile (\<lambda>c. c \<noteq> 0) nm) prio uni sync pv = Some buf \<and>
    buf_ok L the_cid nm prio uni pv code 0 buf"
proof -
  have nm: "name_field (takeWhile (\<lambda>c. c \<noteq> 0) nm) = nm"
    using name_field_prefix[of nm] ids_ok_D[OF assms(2)] by simp
  have "init_sacn_data_send_buf L (replicate 638 0) code the_cid (takeWhile (\<lambda>c. c \<noteq> 0) nm) prio uni sync pv =
      Some (data_header L the_cid nm prio 0 (preview_opt pv) uni code (int 0) @ replicate 512 0)"
    using init_sacn_data_send_buf_layout[OF assms(1), of "replicate 638 0" the_cid] ids_ok_D[OF assms(2)]
    by (simp add: nm preview_opt_def)
  then show ?thesis unfolding buf_ok_def by (intro exI conjI) (auto intro!: exI[of _ 0])
qed

lemma buf_ok_seq:
  "acn_laws L \<Longrightarrow> ids_ok the_cid nm \<Longrightarrow> buf_ok L the_cid nm prio uni pv code sq buf \<Longrightarrow>
   buf_ok L the_cid nm prio uni pv code sq' (pack_sequence_number buf sq')"
  unfolding buf_ok_def pack_sequence_number_def
  using header_field(1)[unfolded SET_SEQUENCE_def] ids_ok_D by metis

lemma buf_ok_priority:
  "acn_laws L \<Longrightarrow> ids_ok the_cid nm \<Longrightarrow> buf_ok L the_cid nm prio uni pv code sq buf \<Longrightarrow>
   buf_ok L the_cid nm prio' uni pv code sq (buf[108 := prio'])"
  unfolding buf_ok_def
  using header_field(2)[unfolded SET_PRIORITY_def] ids_ok_D by metis

lemma preview_bit:
  "preview_opt p OR SACN_OPTVAL_PREVIEW = preview_opt True" "preview_opt p AND NOT SACN_OPTVAL_PREVIEW = preview_opt False"
  by (simp_all add: preview_opt_def)

lemma buf_ok_preview:
  assumes "acn_laws L" "ids_ok the_cid nm" "buf_ok L the_cid nm prio uni pv code sq buf"
  shows "buf_ok L the_cid nm prio uni pv' code sq (SET_PREVIEW_OPT buf pv')"
proof -
  obtain n area where b: "n \<le> 512" "length area = 512" "buf = data_header L the_cid nm prio sq (preview_opt pv) uni code (int n) @ area"
    using assms(3) by (auto simp: buf_ok_def)
  have "SET_PREVIEW_OPT buf pv' = data_header L the_cid nm prio sq (preview_opt pv') uni code (int n) @ area"
    using header_field(3,4)[OF assms(1) ids_ok_D(1,2)[OF assms(2)]]
    by (simp add: SET_PREVIEW_OPT_def b(3) preview_bit)
  then show ?thesis using b(1,2) unfolding buf_ok_def by blast
qed

lemma buf_ok_name:
  assumes "acn_laws L" "ids_ok the_cid nm" "buf_ok L the_cid nm prio uni pv code sq buf" "length nm' \<le> 63"
  shows "buf_ok L the_cid (name_field nm') prio uni pv code sq (put_name nm' buf)"
proof -
  obtain n area where b: "n \<le> 512" "length area = 512" "buf = data_header L the_cid nm prio sq (preview_opt pv) uni code (int n) @ area"
    using assms(3) by (auto simp: buf_ok_def)
  have "length buf = 638" using b ids_ok_D[OF assms(2)] assms(1) by simp
  then have "put_bytes buf 44 (strncpy_bytes 64 nm') = Some (put_name nm' buf)"
    by (simp add: put_bytes_def put_name_def memcpy_at_def)
  then have "put_name nm' buf = data_header L the_cid (name_field nm') prio sq (preview_opt pv) uni code (int n) @ area"
    using header_field(6)[OF assms(1) ids_ok_D(1,2)[OF assms(2)], of prio sq "preview_opt pv" uni code "int n" area nm']
    unfolding b(3) strncpy_name[OF assms(4)] by simp
  then show ?thesis using b(1,2) unfolding buf_ok_def by blast
qed

lemma buf_ok_data:
  assumes "acn_laws L" "ids_ok the_cid nm" "buf_ok L the_cid nm prio uni pv code sq buf" "n \<le> 512" "n \<le> length new"
  shows "\<exists>buf'. update_send_buf_data L buf new (of_nat n) = Some buf' \<and> buf_ok L the_cid nm prio uni pv code sq buf'"
proof -
  obtain m area where b: "m \<le> 512" "length area = 512" "buf = data_header L the_cid nm prio sq (preview_opt pv) uni code (int m) @ area"
    using assms(3) by (auto simp: buf_ok_def)
  have un: "unat (of_nat n :: u16) = n" "uint (of_nat n :: u16) = int n"
    using assms(4) by (simp_all add: unat_of_nat uint_nat)
  have "update_send_buf_data L buf new (of_nat n) =
      Some (data_header L the_cid nm prio sq (preview_opt pv) uni code (int n) @ take n new @ drop n area)"
    using update_send_buf_data_layout[OF assms(1) ids_ok_D(1,2)[OF assms(2)] b(2), of "of_nat n"] assms(4,5)
    by (simp only: un b(3))
  moreover have "length (take n new @ drop n area) = 512" using assms(4,5) b(2) by simp
  ultimately show ?thesis using assms(4) unfolding buf_ok_def by blast
qed

text \<open>The slot count read back, and the slots changed in place.\<close>

lemma buf_count:
  assumes "acn_laws L" "length the_cid = 16" "length nm = 64" "n \<le> 512"
  shows "unpack_u16b L (take 2 (drop 123 (data_header L the_cid nm prio sq opts uni code (int n) @ area))) - 1 = of_nat n"
proof -
  let ?frm = "data_framing_layer L (int n) VECTOR_E131_DATA_PACKET nm prio sq opts uni"
  have "take 2 (drop 123 (data_header L the_cid nm prio sq opts uni code (int n) @ area)) = pack_u16b L (word_of_int (int n + 1))"
    using assms length_layers[OF assms(1)] flags_length_laws(1)[OF assms(1)]
    by (simp add: data_header_def dmp_layer_def)
  then show ?thesis using assms(1) by simp
qed

text \<open>The loop over the levels changes nothing in front of them.\<close>

lemma fold_behind:
  "length h = k \<Longrightarrow> fold (\<lambda>i buf. if P i then buf[k + i := 0] else buf) is (h @ a) =
   h @ fold (\<lambda>i a. if P i then a[i := 0] else a) is a"
  by (induction "is" arbitrary: a) (simp_all add: list_update_append)

lemma length_fold_update: "length (fold (\<lambda>i a. if P i then a[i := x] else a) is a) = length a"
  by (induction "is" arbitrary: a) simp_all

lemma zero_levels_buf_ok:
  assumes "acn_laws L" "ids_ok the_cid nm" "buf_ok L the_cid nm prio uni pv code sq (level_send_buf u)"
  shows "buf_ok L the_cid nm prio uni pv code sq (level_send_buf (zero_levels_where_pap_is_zero L u))"
proof -
  obtain n area where b: "n \<le> 512" "length area = 512" "level_send_buf u = data_header L the_cid nm prio sq (preview_opt pv) uni code (int n) @ area"
    using assms(3) by (auto simp: buf_ok_def)
  have l: "length (data_header L the_cid nm prio sq (preview_opt pv) uni code (int n)) = 126"
    using assms(1) ids_ok_D(1,2)[OF assms(2)] by simp
  define pap_count where "pap_count = unpack_u16b L (take 2 (drop 123 (pap_send_buf u))) - 1"
  define level_count where "level_count = unpack_u16b L (take 2 (drop 123 (level_send_buf u))) - 1"
  define P where "P i \<longleftrightarrow> i \<ge> unat pap_count \<or> pap_send_buf u ! (126 + i) = 0" for i
  have "level_send_buf (zero_levels_where_pap_is_zero L u) =
      fold (\<lambda>i buf. if P i then buf[126 + i := 0] else buf) [0..<unat level_count] (level_send_buf u)"
    by (simp add: zero_levels_where_pap_is_zero_def Let_def P_def pap_count_def level_count_def)
  also have "\<dots> = data_header L the_cid nm prio sq (preview_opt pv) uni code (int n) @
      fold (\<lambda>i a. if P i then a[i := 0] else a) [0..<unat level_count] area"
    unfolding b(3) by (rule fold_behind[OF l])
  finally have "level_send_buf (zero_levels_where_pap_is_zero L u) = data_header L the_cid nm prio sq (preview_opt pv) uni code (int n) @
      fold (\<lambda>i a. if P i then a[i := 0] else a) [0..<unat level_count] area" .
  moreover have "length (fold (\<lambda>i a. if P i then a[i := 0] else a) [0..<unat level_count] area) = 512"
    using b(2) by (simp only: length_fold_update)
  ultimately show ?thesis using b(1) unfolding buf_ok_def by blast
qed

section \<open>Universes\<close>

text \<open>What the invariant of a universe depends on.\<close>

definition core ::
    "'tm source_universe \<Rightarrow> u16 \<times> u8 \<times> bool \<times> u8 \<times> u8 list \<times> u8 list \<times> (bool \<times> bool \<times> bool \<times> bool) \<times> int \<times> int list" where
  "core u = (universe_id u, priority u, send_preview u, next_seq_num u, level_send_buf u, pap_send_buf u, flags u,
     num_terminations_sent u, map dest_terminations_sent (unicast_dests u))"

definition universe_shape :: "acn_lib \<Rightarrow> u8 list \<Rightarrow> u8 list \<Rightarrow> 'tm source_universe \<Rightarrow> bool" where
  "universe_shape L the_cid nm u \<longleftrightarrow> UNIVERSE_ID_VALID (universe_id u) \<and>
     (\<exists>sq. buf_ok L the_cid nm (priority u) (universe_id u) (send_preview u) 0 sq (level_send_buf u)) \<and>
     (\<exists>sq. buf_ok L the_cid nm (priority u) (universe_id u) (send_preview u) 0xdd sq (pap_send_buf u)) \<and>
     0 \<le> num_terminations_sent u \<and> (\<forall>n \<in> set (map dest_terminations_sent (unicast_dests u)). 0 \<le> n)"

definition universe_inv :: "acn_lib \<Rightarrow> u8 list \<Rightarrow> u8 list \<Rightarrow> 'tm source_universe \<Rightarrow> bool" where
  "universe_inv L the_cid nm u \<longleftrightarrow> UNIVERSE_ID_VALID (universe_id u) \<and>
     buf_ok L the_cid nm (priority u) (universe_id u) (send_preview u) 0 (next_seq_num u) (level_send_buf u) \<and>
     buf_ok L the_cid nm (priority u) (universe_id u) (send_preview u) 0xdd (next_seq_num u) (pap_send_buf u) \<and>
     flags u = (False, False, False, False) \<and>
     0 \<le> num_terminations_sent u \<and> (\<forall>n \<in> set (map dest_terminations_sent (unicast_dests u)). 0 \<le> n)"

lemma core_cong:
  assumes "core v = core u"
  shows "universe_shape L the_cid nm v = universe_shape L the_cid nm u" "universe_inv L the_cid nm v = universe_inv L the_cid nm u"
  using assms unfolding universe_shape_def universe_inv_def core_def prod.inject by (elim conjE, simp only:)+

lemma universe_inv_shape: "universe_inv L the_cid nm u \<Longrightarrow> universe_shape L the_cid nm u"
  unfolding universe_inv_def universe_shape_def by blast

lemma increment_inv:
  assumes "acn_laws L" "ids_ok the_cid nm" "universe_shape L the_cid nm u"
  shows "universe_inv L the_cid nm (increment_sequence_number u)"
proof -
  obtain sq sq' where b: "buf_ok L the_cid nm (priority u) (universe_id u) (send_preview u) 0 sq (level_send_buf u)"
      "buf_ok L the_cid nm (priority u) (universe_id u) (send_preview u) 0xdd sq' (pap_send_buf u)"
    using assms(3) unfolding universe_shape_def by blast
  show ?thesis
    using assms(3) buf_ok_seq[OF assms(1,2) b(1)] buf_ok_seq[OF assms(1,2) b(2)]
    by (simp add: universe_inv_def universe_shape_def increment_sequence_number_def Let_def flags_def)
qed

lemma increment_same:
  "universe_id (increment_sequence_number u) = universe_id u"
  "termination_state (increment_sequence_number u) = termination_state u"
  "num_terminations_sent (increment_sequence_number u) = num_terminations_sent u"
  "has_level_data (increment_sequence_number u) = has_level_data u"
  "has_pap_data (increment_sequence_number u) = has_pap_data u"
  "send_unicast_only (increment_sequence_number u) = send_unicast_only u"
  "unicast_dests (increment_sequence_number u) = unicast_dests u"
  "netints (increment_sequence_number u) = netints u"
  "priority (increment_sequence_number u) = priority u"
  "send_preview (increment_sequence_number u) = send_preview u"
  by (simp_all add: increment_sequence_number_def Let_def)

lemma core_suppression [simp]:
  "core (reset_transmission_suppression E s b u) = core u"
  "universe_id (reset_transmission_suppression E s b u) = universe_id u"
  "termination_state (reset_transmission_suppression E s b u) = termination_state u"
  "has_level_data (reset_transmission_suppression E s b u) = has_level_data u"
  "send_unicast_only (reset_transmission_suppression E s b u) = send_unicast_only u"
  "unicast_dests (reset_transmission_suppression E s b u) = unicast_dests u"
  "netints (reset_transmission_suppression E s b u) = netints u"
  by (simp_all add: reset_transmission_suppression_def core_def flags_def Let_def)

text \<open>What the order of the universes and the count of the active ones depend on.\<close>

definition ukey :: "'tm source_universe \<Rightarrow> u16 \<times> bool \<times> bool" where
  "ukey u = (universe_id u, has_level_data u, send_unicast_only u)"

definition active :: "u16 \<times> bool \<times> bool \<Rightarrow> bool" where
  "active k = (case k of (uni, lev, uo) \<Rightarrow> lev \<and> \<not> uo)"

lemma active_ukey: "active (ukey u) = IS_PART_OF_UNIVERSE_DISCOVERY u"
  by (simp add: active_def ukey_def IS_PART_OF_UNIVERSE_DISCOVERY_def)

end
