(* ===== verification/SourceTick.thy ===== *)
theory SourceTick
  imports SourceInv
begin

text \<open>
  A tick keeps the invariant of the sources, and brings everything that is terminating closer to
  its end.
  \<^item> \<open>dests_weight\<close> and \<open>budget\<close>: the termination packets still to be attempted for the
    destinations of a universe, and for the universe as a whole.
  \<^item> \<open>process_universe_cases\<close>: the universe at the index is changed in place, reset or removed.
  \<^item> \<open>process_source_inv\<close>, \<open>process_sources_inv\<close>: the invariant; no tick runs out of fuel.
\<close>

section \<open>The termination packets still to be attempted\<close>

definition dest_weight :: "unicast_destination \<Rightarrow> nat" where
  "dest_weight d = (if dest_state d = kNotTerminating then 0 else nat (3 - dest_terminations_sent d))"

definition dests_weight :: "unicast_destination list \<Rightarrow> nat" where
  "dests_weight ds = sum_list (map dest_weight ds)"

definition dests_nonneg :: "unicast_destination list \<Rightarrow> bool" where
  "dests_nonneg ds \<longleftrightarrow> (\<forall>d \<in> set ds. 0 \<le> dest_terminations_sent d)"

definition budget :: "'tm source_universe \<Rightarrow> nat" where
  "budget u = nat (3 - num_terminations_sent u) + dests_weight (unicast_dests u)"

lemma split_at: "i < length xs \<Longrightarrow> xs = take i xs @ xs ! i # drop (Suc i) xs"
  by (rule id_take_nth_drop)

lemma dests_weight_update:
  assumes "i < length ds"
  shows "dests_weight (ds[i := d]) + dest_weight (ds ! i) = dests_weight ds + dest_weight d"
proof -
  have "ds[i := d] = take i ds @ d # drop (Suc i) ds" using assms by (simp add: upd_conv_take_nth_drop)
  moreover have "dests_weight ds = dests_weight (take i ds @ ds ! i # drop (Suc i) ds)" using split_at[OF assms] by simp
  ultimately show ?thesis by (simp add: dests_weight_def)
qed

lemma dests_weight_remove:
  "i < length ds \<Longrightarrow> dests_weight (remove_index i ds) + dest_weight (ds ! i) = dests_weight ds"
proof -
  assume "i < length ds"
  then have "dests_weight ds = dests_weight (take i ds @ ds ! i # drop (Suc i) ds)" using split_at by fastforce
  then show ?thesis by (simp add: dests_weight_def remove_index_def)
qed

lemma set_remove_index: "set (remove_index i xs) \<subseteq> set xs"
  by (auto simp: remove_index_def dest: in_set_takeD in_set_dropD)

lemma dests_nonneg_change:
  "dests_nonneg ds \<Longrightarrow> dests_nonneg (remove_index i ds)"
  "dests_nonneg ds \<Longrightarrow> 0 \<le> dest_terminations_sent d \<Longrightarrow> dests_nonneg (ds[i := d])"
  using set_remove_index[of i ds] set_update_subset_insert[of ds i d] by (auto simp: dests_nonneg_def)

lemma remove_index_length: "i < length xs \<Longrightarrow> length (remove_index i xs) = length xs - 1"
  by (simp add: remove_index_def)

section \<open>Termination of the unicast destinations\<close>

text \<open>What terminating the destinations leaves as it was.\<close>

definition tkey where
  "tkey u = (universe_id u, termination_state u, num_terminations_sent u, priority u, sync_universe u, send_preview u,
     next_seq_num u, level_send_buf u, pap_send_buf u, has_level_data u, has_pap_data u, send_unicast_only u, netints u)"

lemma tkey_D:
  assumes "tkey v = tkey u"
  shows "universe_id v = universe_id u" "termination_state v = termination_state u"
    "num_terminations_sent v = num_terminations_sent u" "has_level_data v = has_level_data u" "ukey v = ukey u"
    "netints v = netints u" "level_send_buf v = level_send_buf u" "pap_send_buf v = pap_send_buf u"
    "priority v = priority u" "send_preview v = send_preview u"
  using assms by (simp_all add: tkey_def ukey_def)

lemma restore_terminated_opt: "SET_TERMINATED_OPT (SET_TERMINATED_OPT buf True) (TERMINATED_OPT_SET buf) = buf"
proof (cases "112 < length buf")
  case True
  have "(b OR SACN_OPTVAL_TERMINATED) AND NOT SACN_OPTVAL_TERMINATED = b" if "b AND SACN_OPTVAL_TERMINATED = 0" for b :: u8
  proof (rule bit_word_eqI)
    fix n assume "n < LENGTH(8)"
    have "\<not> (bit b n \<and> bit SACN_OPTVAL_TERMINATED n)" using that by (metis bit_and_iff bit_0_eq bot_apply bot_bool_def)
    then show "bit ((b OR SACN_OPTVAL_TERMINATED) AND NOT SACN_OPTVAL_TERMINATED) n = bit b n"
      using \<open>n < LENGTH(8)\<close> by (auto simp: bit_simps)
  qed
  moreover have "b OR SACN_OPTVAL_TERMINATED = b" if "b AND SACN_OPTVAL_TERMINATED \<noteq> 0" for b :: u8
  proof (rule bit_word_eqI)
    fix n assume n: "n < LENGTH(8)"
    have eq: "SACN_OPTVAL_TERMINATED = push_bit 6 1" by (simp add: SACN_OPTVAL_TERMINATED_def push_bit_eq_mult)
    have t: "bit SACN_OPTVAL_TERMINATED k \<longleftrightarrow> k = 6" if "k < 8" for k
      unfolding eq bit_push_bit_iff bit_1_iff possible_bit_word using that by auto
    have "bit b 6"
    proof (rule ccontr)
      assume "\<not> bit b 6"
      then have "b AND SACN_OPTVAL_TERMINATED = 0" by (intro bit_word_eqI) (use t in \<open>auto simp: bit_and_iff\<close>)
      then show False using that by simp
    qed
    then show "bit (b OR SACN_OPTVAL_TERMINATED) n = bit b n" using n t[of n] by (auto simp: bit_or_iff)
  qed
  ultimately show ?thesis
    using True by (auto simp: SET_TERMINATED_OPT_def TERMINATED_OPT_SET_def)
qed (simp add: SET_TERMINATED_OPT_def list_update_beyond)

lemma handle_tkey [simp]:
  "tkey (handle_data_packet_sent buf u) = tkey u" "unicast_dests (handle_data_packet_sent buf u) = unicast_dests u"
  by (simp_all add: handle_data_packet_sent_def tkey_def)

lemma send_termination_unicast_spec:
  assumes "send_termination_unicast E i u = (ok, v, c)"
  shows "tkey v = tkey u \<and>
    (\<exists>d. unicast_dests v = (unicast_dests u)[i := d] \<and> dest_state d = dest_state (unicast_dests u ! i) \<and>
         dest_addr d = dest_addr (unicast_dests u ! i) \<and>
         dest_terminations_sent d = dest_terminations_sent (unicast_dests u ! i) + 1)"
proof -
  define buf where "buf = SET_TERMINATED_OPT (level_send_buf u) True"
  define w where "w = u\<lparr>level_send_buf := buf\<rparr>"
  define w1 where "w1 = (if unicast_result E buf (dest_addr (unicast_dests u ! i)) = kEtcPalErrOk then handle_data_packet_sent buf w else w)"
  define d where "d = note_unicast_error E buf (unicast_dests u ! i)"
  have v: "v = w1\<lparr>unicast_dests := (unicast_dests w1)[i := d\<lparr>dest_terminations_sent := dest_terminations_sent d + 1\<rparr>],
      level_send_buf := SET_TERMINATED_OPT (level_send_buf w1) (TERMINATED_OPT_SET (level_send_buf u))\<rparr>"
    using assms by (auto simp: send_termination_unicast_def Let_def buf_def w_def w1_def d_def)
  have w1: "tkey w1 = tkey w" "unicast_dests w1 = unicast_dests u" "level_send_buf w1 = buf"
    by (auto simp: w1_def w_def handle_data_packet_sent_def tkey_def)
  have "level_send_buf v = level_send_buf u" unfolding v by (simp add: w1 buf_def restore_terminated_opt)
  then have "tkey v = tkey u" using w1(1) unfolding v by (simp add: tkey_def w_def)
  moreover have "unicast_dests v = (unicast_dests u)[i := d\<lparr>dest_terminations_sent := dest_terminations_sent d + 1\<rparr>]"
    unfolding v by (simp add: w1)
  ultimately show ?thesis
    by (intro conjI exI[of _ "d\<lparr>dest_terminations_sent := dest_terminations_sent d + 1\<rparr>"]) (simp_all add: d_def note_unicast_error_def)
qed

lemma finish_unicast_dest_termination_spec:
  assumes "i < length (unicast_dests u)"
  shows "tkey (finish_unicast_dest_termination i u) = tkey u"
    "dests_weight (unicast_dests (finish_unicast_dest_termination i u)) \<le> dests_weight (unicast_dests u)"
    "dests_nonneg (unicast_dests u) \<Longrightarrow> dests_nonneg (unicast_dests (finish_unicast_dest_termination i u))"
    "i \<le> length (unicast_dests (finish_unicast_dest_termination i u))"
proof -
  let ?ds = "unicast_dests u"
  show "tkey (finish_unicast_dest_termination i u) = tkey u"
    by (simp add: finish_unicast_dest_termination_def tkey_def)
  have "dest_weight (reset_unicast_dest d) = 0" for d by (simp add: dest_weight_def reset_unicast_dest_def)
  then show "dests_weight (unicast_dests (finish_unicast_dest_termination i u)) \<le> dests_weight ?ds"
    using dests_weight_remove[OF assms] dests_weight_update[OF assms, of "reset_unicast_dest (?ds ! i)"]
    by (simp add: finish_unicast_dest_termination_def)
  show "dests_nonneg ?ds \<Longrightarrow> dests_nonneg (unicast_dests (finish_unicast_dest_termination i u))"
    by (simp add: finish_unicast_dest_termination_def dests_nonneg_change reset_unicast_dest_def)
  show "i \<le> length (unicast_dests (finish_unicast_dest_termination i u))"
    using assms by (auto simp: finish_unicast_dest_termination_def remove_index_length)
qed

text \<open>
  The loop over the destinations. The last part is what makes termination progress: when a send
  fails, or a destination is left terminating, a packet has been attempted.
\<close>

lemma unicast_termination_loop_spec:
  "unicast_termination_loop E i ok leaving u calls = (ok', leaving', v, calls') \<Longrightarrow> i \<le> length (unicast_dests u) \<Longrightarrow>
   dests_nonneg (unicast_dests u) \<Longrightarrow>
   tkey v = tkey u \<and> dests_nonneg (unicast_dests v) \<and>
   dests_weight (unicast_dests v) \<le> dests_weight (unicast_dests u) \<and> (\<not> has_level_data u \<longrightarrow> ok' = ok) \<and>
   (ok \<and> (\<not> ok' \<or> leaving' \<and> \<not> leaving) \<longrightarrow> dests_weight (unicast_dests v) < dests_weight (unicast_dests u))"
proof (induction i arbitrary: ok leaving u calls)
  case (Suc i)
  let ?ds = "unicast_dests u"
  have i: "i < length ?ds" using Suc.prems(2) by simp
  show ?case
  proof (cases "dest_state (?ds ! i) = kNotTerminating")
    case True
    then show ?thesis using Suc.IH[of ok leaving u calls] Suc.prems i by simp
  next
    case False
    define may where "may \<longleftrightarrow> dest_terminations_sent (?ds ! i) < 3 \<and> has_level_data u"
    obtain ok1 u1 c where send: "(if may then and_then ok u (send_termination_unicast E i) else (ok, u, [])) = (ok1, u1, c)"
      by (metis prod_cases3)
    have u1: "tkey u1 = tkey u" "length (unicast_dests u1) = length ?ds" "dests_nonneg (unicast_dests u1)"
      "dests_weight (unicast_dests u1) \<le> dests_weight ?ds" "\<not> has_level_data u \<longrightarrow> ok1 = ok"
      "ok \<and> may \<longrightarrow> dests_weight (unicast_dests u1) < dests_weight ?ds"
      "\<not> may \<longrightarrow> ok1 = ok \<and> u1 = u" "\<not> ok \<longrightarrow> \<not> ok1"
    proof -
      have "tkey u1 = tkey u \<and> length (unicast_dests u1) = length ?ds \<and> dests_nonneg (unicast_dests u1) \<and>
        dests_weight (unicast_dests u1) \<le> dests_weight ?ds \<and> (\<not> has_level_data u \<longrightarrow> ok1 = ok) \<and>
        (ok \<and> may \<longrightarrow> dests_weight (unicast_dests u1) < dests_weight ?ds) \<and> (\<not> may \<longrightarrow> ok1 = ok \<and> u1 = u) \<and> (\<not> ok \<longrightarrow> \<not> ok1)"
      proof (cases "ok \<and> may")
        case True
        then have "send_termination_unicast E i u = (ok1, u1, c)" using send by (simp add: and_then_def)
        then obtain d where d: "tkey u1 = tkey u" "unicast_dests u1 = ?ds[i := d]" "dest_state d = dest_state (?ds ! i)"
            "dest_terminations_sent d = dest_terminations_sent (?ds ! i) + 1"
          using send_termination_unicast_spec by blast
        have nn: "0 \<le> dest_terminations_sent (?ds ! i)" using Suc.prems(3) i by (simp add: dests_nonneg_def)
        have "dest_weight d < dest_weight (?ds ! i)"
          using True False d(3,4) by (simp add: dest_weight_def may_def)
        then have "dests_weight (unicast_dests u1) < dests_weight ?ds"
          using dests_weight_update[OF i, of d] d(2) by simp
        then show ?thesis
          using d(1,2,4) True nn dests_nonneg_change(2)[OF Suc.prems(3), of d i] by (simp add: may_def)
      qed (use send Suc.prems(3) in \<open>auto simp: and_then_def may_def split: if_split_asm\<close>)
      then show "tkey u1 = tkey u" "length (unicast_dests u1) = length ?ds" "dests_nonneg (unicast_dests u1)"
        "dests_weight (unicast_dests u1) \<le> dests_weight ?ds" "\<not> has_level_data u \<longrightarrow> ok1 = ok"
        "ok \<and> may \<longrightarrow> dests_weight (unicast_dests u1) < dests_weight ?ds"
        "\<not> may \<longrightarrow> ok1 = ok \<and> u1 = u" "\<not> ok \<longrightarrow> \<not> ok1" by blast+
    qed
    have lev: "has_level_data u1 = has_level_data u" using tkey_D(4)[OF u1(1)] .
    have i1: "i < length (unicast_dests u1)" using i u1(2) by simp
    have step: "unicast_termination_loop E (Suc i) ok leaving u calls =
        (if dest_terminations_sent (unicast_dests u1 ! i) \<ge> 3 \<or> \<not> has_level_data u1
         then unicast_termination_loop E i ok1 leaving (finish_unicast_dest_termination i u1) (calls @ c)
         else unicast_termination_loop E i ok1 True u1 (calls @ c))"
      using False send by (simp add: may_def)
    show ?thesis
    proof (cases "dest_terminations_sent (unicast_dests u1 ! i) \<ge> 3 \<or> \<not> has_level_data u1")
      case True
      note f = finish_unicast_dest_termination_spec[OF i1]
      have "has_level_data (finish_unicast_dest_termination i u1) = has_level_data u"
        using tkey_D(4)[OF f(1)] lev by simp
      then show ?thesis
        using Suc.IH[of ok1 leaving "finish_unicast_dest_termination i u1" "calls @ c"] Suc.prems(1) True f u1 step by auto
    next
      case False
      then have "may \<or> \<not> may \<and> dest_terminations_sent (?ds ! i) < 3 \<and> has_level_data u \<and> u1 = u"
        using u1(7) lev by auto
      then have may: "may" by (auto simp: may_def)
      have "i \<le> length (unicast_dests u1)" using i1 by simp
      then show ?thesis
        using Suc.IH[of ok1 "True" u1 "calls @ c"] Suc.prems(1) False u1 step may lev by auto
    qed
  qed
qed simp

lemma process_unicast_termination_spec:
  assumes "process_unicast_termination E u = (ok, leaving, v, calls)" "dests_nonneg (unicast_dests u)"
  shows "tkey v = tkey u" "dests_nonneg (unicast_dests v)" "dests_weight (unicast_dests v) \<le> dests_weight (unicast_dests u)"
    "\<not> has_level_data u \<Longrightarrow> ok"
    "\<not> ok \<or> leaving \<Longrightarrow> dests_weight (unicast_dests v) < dests_weight (unicast_dests u)"
  using unicast_termination_loop_spec[OF assms(1)[unfolded process_unicast_termination_def] order_refl assms(2)] by auto

section \<open>Termination of a universe\<close>

lemma send_termination_multicast_spec:
  assumes "send_termination_multicast E u = (ok, v, calls)"
  shows "tkey (v\<lparr>num_terminations_sent := num_terminations_sent u\<rparr>) = tkey u"
    "num_terminations_sent v = num_terminations_sent u + 1" "map dest_key (unicast_dests v) = map dest_key (unicast_dests u)"
proof -
  define w where "w = u\<lparr>level_send_buf := SET_TERMINATED_OPT (level_send_buf u) True\<rparr>"
  obtain w1 where m: "send_universe_multicast E w (level_send_buf w) = (ok, w1, calls)"
    and v: "v = w1\<lparr>num_terminations_sent := num_terminations_sent w1 + 1,
      level_send_buf := SET_TERMINATED_OPT (level_send_buf w1) (TERMINATED_OPT_SET (level_send_buf u))\<rparr>"
    using assms by (auto simp: send_termination_multicast_def w_def Let_def split: prod.splits)
  note k = send_universe_multicast_sends(3)[OF m, unfolded keeps_def]
  have l: "level_send_buf v = level_send_buf u" using k by (simp add: v w_def restore_terminated_opt)
  show "num_terminations_sent v = num_terminations_sent u + 1" "map dest_key (unicast_dests v) = map dest_key (unicast_dests u)"
    using k by (simp_all add: v w_def)
  show "tkey (v\<lparr>num_terminations_sent := num_terminations_sent u\<rparr>) = tkey u"
    using k l by (simp add: tkey_def) (simp add: v w_def)
qed

text \<open>The destinations enter only with what \<open>dest_key\<close> shows of them.\<close>

lemma dest_key_cong:
  assumes "map dest_key ds' = map dest_key ds"
  shows "dests_weight ds' = dests_weight ds" "dests_nonneg ds' = dests_nonneg ds"
    "map dest_terminations_sent ds' = map dest_terminations_sent ds"
proof -
  have c: "map dest_terminations_sent xs = map (snd \<circ> snd) (map dest_key xs)" for xs by (simp add: dest_key_def)
  show m: "map dest_terminations_sent ds' = map dest_terminations_sent ds" unfolding c assms ..
  have w: "dest_weight = (\<lambda>(a, st, n). if st = kNotTerminating then 0 else nat (3 - n)) \<circ> dest_key"
    by (auto simp: fun_eq_iff dest_weight_def dest_key_def)
  show "dests_weight ds' = dests_weight ds" unfolding dests_weight_def w using assms by (simp only: flip: map_map)
  have "dests_nonneg xs \<longleftrightarrow> (\<forall>n \<in> set (map dest_terminations_sent xs). 0 \<le> n)" for xs by (simp add: dests_nonneg_def)
  then show "dests_nonneg ds' = dests_nonneg ds" using m by metis
qed

lemma core_tkey:
  assumes "tkey v = tkey u" "dests_nonneg (unicast_dests v)" "universe_shape L the_cid nm u"
  shows "universe_shape L the_cid nm v"
  using assms unfolding universe_shape_def tkey_def prod.inject dests_nonneg_def set_map
  by (elim conjE) (simp only:, blast)

lemma shape_nonneg: "universe_shape L the_cid nm u \<Longrightarrow> dests_nonneg (unicast_dests u)"
  by (simp add: universe_shape_def dests_nonneg_def)

lemma shape_num:
  "universe_shape L the_cid nm u \<Longrightarrow> 0 \<le> n \<Longrightarrow> tkey (v\<lparr>num_terminations_sent := num_terminations_sent u\<rparr>) = tkey u \<Longrightarrow>
   num_terminations_sent v = n \<Longrightarrow> dests_nonneg (unicast_dests v) \<Longrightarrow> universe_shape L the_cid nm v"
  by (auto simp: universe_shape_def tkey_def dests_nonneg_def)

lemma finish_unicast_dests_spec:
  "i \<le> length (unicast_dests u) \<Longrightarrow> dests_nonneg (unicast_dests u) \<Longrightarrow>
   tkey (finish_unicast_dests i u) = tkey u \<and> dests_nonneg (unicast_dests (finish_unicast_dests i u))"
proof (induction i arbitrary: u)
  case (Suc i)
  then have "i < length (unicast_dests u)" by simp
  from finish_unicast_dest_termination_spec[OF this] Suc show ?case by simp
qed simp

section \<open>One universe of a tick\<close>

text \<open>What a tick of the universes leaves as it was in the source.\<close>

definition ident where
  "ident s = (source_handle s, cid s, source_name s, terminating s, process_manually s, keep_alive_interval s,
     pap_keep_alive_interval s, universe_count_max s, universe_discovery_send_buf s)"

lemma remove_netints_only: "\<exists>ns. fold remove_from_source_netints xs s = s\<lparr>source_netints := ns\<rparr>"
proof (induction xs arbitrary: s)
  case (Cons x xs)
  have "\<exists>ns. remove_from_source_netints x s = s\<lparr>source_netints := ns\<rparr>"
    by (auto simp: remove_from_source_netints_def Let_def split: option.splits intro: exI[of _ "source_netints s"])
  then obtain ns where ns: "remove_from_source_netints x s = s\<lparr>source_netints := ns\<rparr>" by blast
  obtain ns' where "fold remove_from_source_netints xs (s\<lparr>source_netints := ns\<rparr>) = s\<lparr>source_netints := ns\<rparr>\<lparr>source_netints := ns'\<rparr>"
    using Cons.IH by blast
  then show ?case by (auto simp: ns)
next
  case Nil
  show ?case by (rule exI[of _ "source_netints s"]) simp
qed

definition one_if :: "bool \<Rightarrow> int" where "one_if b = (if b then 1 else 0)"

lemma finish_source_universe_termination_spec:
  assumes "i < length (universes s)" "dests_nonneg (unicast_dests (universes s ! i))"
  shows "ident (finish_source_universe_termination i s) = ident s"
    "num_active_universes (finish_source_universe_termination i s) =
       num_active_universes s - one_if (IS_PART_OF_UNIVERSE_DISCOVERY (universes s ! i))"
    "termination_state (universes s ! i) = kTerminatingAndRemoving \<Longrightarrow>
       universes (finish_source_universe_termination i s) = remove_index i (universes s)"
    "termination_state (universes s ! i) \<noteq> kTerminatingAndRemoving \<Longrightarrow>
       \<exists>w. tkey w = tkey (universes s ! i) \<and> dests_nonneg (unicast_dests w) \<and>
           universes (finish_source_universe_termination i s) = (universes s)[i := reset_universe w]"
proof -
  let ?u = "universes s ! i"
  define w where "w = finish_unicast_dests (length (unicast_dests ?u)) ?u"
  have w: "tkey w = tkey ?u" "dests_nonneg (unicast_dests w)"
    using finish_unicast_dests_spec[OF order_refl assms(2)] by (simp_all add: w_def)
  have part: "IS_PART_OF_UNIVERSE_DISCOVERY w = IS_PART_OF_UNIVERSE_DISCOVERY ?u"
    using tkey_D(5)[OF w(1)] by (simp flip: active_ukey)
  define s1 where "s1 = s\<lparr>universes := (universes s)[i := w],
    num_active_universes := num_active_universes s - one_if (IS_PART_OF_UNIVERSE_DISCOVERY ?u)\<rparr>"
  obtain ns where ns: "fold remove_from_source_netints (netints w) s1 = s1\<lparr>source_netints := ns\<rparr>"
    using remove_netints_only by blast
  have eq: "finish_source_universe_termination i s =
      (if termination_state ?u = kTerminatingAndRemoving then remove_sacn_source_universe i (s1\<lparr>source_netints := ns\<rparr>)
       else s1\<lparr>universes := (universes s1)[i := reset_universe w]\<rparr>)"
    unfolding ns[symmetric]
    by (simp add: finish_source_universe_termination_def w_def[symmetric] Let_def part s1_def one_if_def tkey_D(2)[OF w(1)])
  have "remove_index i ((universes s)[i := w]) = remove_index i (universes s)" by (simp add: remove_index_def)
  then show "ident (finish_source_universe_termination i s) = ident s"
    "num_active_universes (finish_source_universe_termination i s) = num_active_universes s - one_if (IS_PART_OF_UNIVERSE_DISCOVERY ?u)"
    "termination_state ?u = kTerminatingAndRemoving \<Longrightarrow>
       universes (finish_source_universe_termination i s) = remove_index i (universes s)"
    by (simp_all add: eq ident_def s1_def remove_sacn_source_universe_def)
  show "termination_state ?u \<noteq> kTerminatingAndRemoving \<Longrightarrow>
      \<exists>w. tkey w = tkey ?u \<and> dests_nonneg (unicast_dests w) \<and>
          universes (finish_source_universe_termination i s) = (universes s)[i := reset_universe w]"
    using w by (auto simp: eq s1_def intro!: exI[of _ w])
qed

lemma transmit_when_needed_spec:
  assumes "transmit_levels_and_pap_when_needed E mode u = (ok, v, c)"
  shows "tick_keeps u v" "pap_send_buf v = pap_send_buf u \<or> (\<exists>sq. pap_send_buf v = pack_sequence_number (pap_send_buf u) sq)"
proof -
  obtain ok1 u1 c1 where l: "transmit_levels E mode u = (ok1, u1, c1)" by (metis prod_cases3)
  obtain ok2 u2 c2 where p: "transmit_pap E mode ok1 u1 = (ok2, u2, c2)" by (metis prod_cases3)
  have v: "v = u2" using assms by (simp add: transmit_levels_and_pap_when_needed_def l p)
  show "tick_keeps u v" unfolding v by (rule tick_keeps_trans[OF transmit_levels_spec(4)[OF l] transmit_pap_spec(4)[OF p]])
  show "pap_send_buf v = pap_send_buf u \<or> (\<exists>sq. pap_send_buf v = pack_sequence_number (pap_send_buf u) sq)"
    using transmit_pap_spec(5)[OF p] transmit_levels_spec(5)[OF l] by (auto simp: v pap_packet_def)
qed

lemma transmit_shape:
  assumes "acn_laws L" "ids_ok the_cid nm" "universe_shape L the_cid nm u"
    and "transmit_levels_and_pap_when_needed E mode u = (ok, v, c)"
  shows "universe_shape L the_cid nm v" "ukey v = ukey u" "termination_state v = termination_state u" "budget v = budget u"
proof -
  note k = transmit_when_needed_spec(1)[OF assms(4), unfolded tick_keeps_def]
  have d: "map dest_terminations_sent (unicast_dests v) = map dest_terminations_sent (unicast_dests u)"
    using dest_key_cong(3) k by blast
  obtain sq where b: "buf_ok L the_cid nm (priority u) (universe_id u) (send_preview u) 0xdd sq (pap_send_buf v)"
    using transmit_when_needed_spec(2)[OF assms(4)] buf_ok_seq[OF assms(1,2)] assms(3)
    unfolding universe_shape_def by metis
  have eqs: "universe_id v = universe_id u" "priority v = priority u" "send_preview v = send_preview u"
    "level_send_buf v = level_send_buf u" "num_terminations_sent v = num_terminations_sent u"
    using k by simp_all
  show "universe_shape L the_cid nm v"
    using assms(3) b unfolding universe_shape_def d eqs by blast
  show "ukey v = ukey u" "termination_state v = termination_state u" using k by (simp_all add: ukey_def)
  have "map dest_key (unicast_dests v) = map dest_key (unicast_dests u)" using k by blast
  from dest_key_cong(1)[OF this] show "budget v = budget u" by (simp add: budget_def eqs)
qed

text \<open>
  What happens to the universe at index \<open>i\<close>: it stays (with less left to terminate, if it is being
  removed and the tick sends levels), it is reset after a termination without removal, or it is removed.
\<close>

definition stays :: "acn_lib \<Rightarrow> tick_mode \<Rightarrow> nat \<Rightarrow> 'tm sacn_source \<Rightarrow> 'tm sacn_source \<Rightarrow> bool" where
  "stays L mode i s s' \<longleftrightarrow> num_active_universes s' = num_active_universes s \<and>
     (\<exists>v. universes s' = (universes s)[i := v] \<and> universe_inv L (cid s) (source_name s) v \<and>
          ukey v = ukey (universes s ! i) \<and> termination_state v = termination_state (universes s ! i) \<and>
          budget v \<le> budget (universes s ! i) \<and>
          (mode \<noteq> kSacnSourceTickModeProcessPapOnly \<and> termination_state v = kTerminatingAndRemoving \<longrightarrow>
             budget v < budget (universes s ! i)))"

definition was_reset :: "acn_lib \<Rightarrow> nat \<Rightarrow> 'tm sacn_source \<Rightarrow> 'tm sacn_source \<Rightarrow> bool" where
  "was_reset L i s s' \<longleftrightarrow> termination_state (universes s ! i) = kTerminatingWithoutRemoving \<and>
     num_active_universes s' = num_active_universes s - one_if (IS_PART_OF_UNIVERSE_DISCOVERY (universes s ! i)) \<and>
     (\<exists>v. universes s' = (universes s)[i := v] \<and> universe_inv L (cid s) (source_name s) v \<and>
          universe_id v = universe_id (universes s ! i) \<and> \<not> has_level_data v \<and> termination_state v = kNotTerminating)"

definition was_removed :: "nat \<Rightarrow> 'tm sacn_source \<Rightarrow> 'tm sacn_source \<Rightarrow> bool" where
  "was_removed i s s' \<longleftrightarrow> termination_state (universes s ! i) = kTerminatingAndRemoving \<and>
     num_active_universes s' = num_active_universes s - one_if (IS_PART_OF_UNIVERSE_DISCOVERY (universes s ! i)) \<and>
     universes s' = at_index i increment_sequence_number (remove_index i (universes s))"

lemma budget_increment [simp]: "budget (increment_sequence_number u) = budget u"
  by (simp add: budget_def increment_same)

lemma process_multicast_termination_cases:
  assumes L: "acn_laws L" "ids_ok (cid s) (source_name s)" and i: "i < length (universes s)"
    and u: "universe_shape L (cid s) (source_name s) (universes s ! i)" "termination_state (universes s ! i) \<noteq> kNotTerminating"
    and p: "process_multicast_termination E i ut s = (ok, s', c)"
  shows "ident s' = ident s \<and>
    ((\<exists>v. s' = s\<lparr>universes := (universes s)[i := v]\<rparr> \<and> universe_shape L (cid s) (source_name s) v \<and> ukey v = ukey (universes s ! i) \<and>
          termination_state v = termination_state (universes s ! i) \<and> budget v \<le> budget (universes s ! i) \<and>
          (\<not> ut \<longrightarrow> budget v < budget (universes s ! i))) \<or>
     termination_state (universes s ! i) = kTerminatingAndRemoving \<and> universes s' = remove_index i (universes s) \<and>
       num_active_universes s' = num_active_universes s - one_if (IS_PART_OF_UNIVERSE_DISCOVERY (universes s ! i)) \<or>
     termination_state (universes s ! i) = kTerminatingWithoutRemoving \<and>
       num_active_universes s' = num_active_universes s - one_if (IS_PART_OF_UNIVERSE_DISCOVERY (universes s ! i)) \<and>
       (\<exists>v. universes s' = (universes s)[i := v] \<and> universe_shape L (cid s) (source_name s) v \<and>
          universe_id v = universe_id (universes s ! i) \<and> \<not> has_level_data v \<and> termination_state v = kNotTerminating))"
proof -
  let ?u = "universes s ! i"
  define may where "may \<longleftrightarrow> num_terminations_sent ?u < 3 \<and> has_level_data ?u"
  obtain ok1 v c1 where send: "(if may then send_termination_multicast E ?u else (True, ?u, [])) = (ok1, v, c1)"
    by (metis prod_cases3)
  have nn: "0 \<le> num_terminations_sent ?u" "dests_nonneg (unicast_dests ?u)"
    using u(1) shape_nonneg[OF u(1)] by (simp_all add: universe_shape_def)
  have v: "universe_shape L (cid s) (source_name s) v \<and> ukey v = ukey ?u \<and> termination_state v = termination_state ?u \<and>
      has_level_data v = has_level_data ?u \<and> budget v \<le> budget ?u \<and> (may \<longrightarrow> budget v < budget ?u) \<and> (\<not> may \<longrightarrow> v = ?u)"
  proof (cases "may")
    case True
    then have "send_termination_multicast E ?u = (ok1, v, c1)" using send by simp
    note m = send_termination_multicast_spec[OF this]
    note d = dest_key_cong[OF m(3)]
    have nv: "dests_nonneg (unicast_dests v)" using d(2) nn(2) by simp
    have s: "universe_shape L (cid s) (source_name s) v"
      using shape_num[OF u(1) _ m(1,2) nv] nn(1) by simp
    have "ukey v = ukey ?u" "termination_state v = termination_state ?u" "has_level_data v = has_level_data ?u"
      using m(1) by (simp_all add: tkey_def ukey_def)
    moreover have "budget v < budget ?u" using True d(1) m(2) by (simp add: budget_def may_def)
    ultimately show ?thesis using s True by simp
  qed (use send u(1) in auto)
  define s1 where "s1 = s\<lparr>universes := (universes s)[i := v]\<rparr>"
  have i1: "i < length (universes s1)" "universes s1 ! i = v" "ident s1 = ident s" "num_active_universes s1 = num_active_universes s"
    using i by (simp_all add: s1_def ident_def)
  have s': "s' = (if num_terminations_sent v \<ge> 3 \<and> \<not> ut \<or> \<not> has_level_data v then finish_source_universe_termination i s1 else s1)"
    using p unfolding process_multicast_termination_def Let_def may_def[symmetric] send prod.case s1_def[symmetric] by simp
  show ?thesis
  proof (cases "num_terminations_sent v \<ge> 3 \<and> \<not> ut \<or> \<not> has_level_data v")
    case False
    then have "\<not> ut \<longrightarrow> may" using v by (auto simp: may_def)
    then show ?thesis using False v s' i1(3) by (auto simp: s1_def)
  next
    case True
    have nv: "dests_nonneg (unicast_dests (universes s1 ! i))" using v shape_nonneg i1(2) by metis
    note f = finish_source_universe_termination_spec[OF i1(1) nv, unfolded i1]
    have part: "IS_PART_OF_UNIVERSE_DISCOVERY v = IS_PART_OF_UNIVERSE_DISCOVERY ?u" using v by (simp flip: active_ukey)
    have ft: "s' = finish_source_universe_termination i s1" using s' True by simp
    show ?thesis
    proof (cases "termination_state ?u = kTerminatingAndRemoving")
      case True
      have "remove_index i ((universes s)[i := v]) = remove_index i (universes s)" by (simp add: remove_index_def)
      then show ?thesis using True v f(1,2) f(3) part unfolding ft by (simp add: s1_def)
    next
      case False
      then have st: "termination_state ?u = kTerminatingWithoutRemoving" using u(2) by (cases "termination_state ?u") auto
      obtain w where w: "tkey w = tkey v" "dests_nonneg (unicast_dests w)"
          "universes (finish_source_universe_termination i s1) = (universes s1)[i := reset_universe w]"
        using f(4) False v by auto
      have sw: "universe_shape L (cid s) (source_name s) w" using core_tkey[OF w(1,2)] v by blast
      then have "universe_shape L (cid s) (source_name s) (reset_universe w)"
        by (simp add: universe_shape_def reset_universe_def)
      moreover have "universe_id (reset_universe w) = universe_id ?u"
        using tkey_D(1)[OF w(1)] v by (simp add: reset_universe_def ukey_def)
      ultimately show ?thesis
        using st f(1,2) part w(3) unfolding ft
        by (intro conjI disjI2 exI[of _ "reset_universe w"]) (simp_all add: s1_def reset_universe_def)
    qed
  qed
qed

lemma process_universe_cases:
  assumes L: "acn_laws L" "ids_ok (cid s) (source_name s)" and i: "i < length (universes s)"
    and u: "universe_inv L (cid s) (source_name s) (universes s ! i)"
    and p: "process_universe E mode i ok s = (ok', s', c)"
  shows "ident s' = ident s \<and> (stays L mode i s s' \<or> was_reset L i s s' \<or> mode \<noteq> kSacnSourceTickModeProcessPapOnly \<and> was_removed i s s')"
proof -
  let ?u = "universes s ! i"
  have shape: "universe_shape L (cid s) (source_name s) ?u" by (rule universe_inv_shape[OF u])
  obtain ok1 ut u1 c1 where ut: "(if mode \<noteq> kSacnSourceTickModeProcessPapOnly then process_unicast_termination E ?u
      else (ok, False, ?u, [])) = (ok1, ut, u1, c1)"
    by (metis prod_cases4)
  have u1: "tkey u1 = tkey ?u" "dests_nonneg (unicast_dests u1)" "dests_weight (unicast_dests u1) \<le> dests_weight (unicast_dests ?u)"
    "mode \<noteq> kSacnSourceTickModeProcessPapOnly \<and> (\<not> ok1 \<or> ut) \<longrightarrow> dests_weight (unicast_dests u1) < dests_weight (unicast_dests ?u)"
    using ut process_unicast_termination_spec[OF _ shape_nonneg[OF shape], of E ok1 ut u1 c1] shape_nonneg[OF shape]
    by (auto split: if_splits)
  have s1shape: "universe_shape L (cid s) (source_name s) u1" using core_tkey[OF u1(1,2) shape] .
  have b1: "budget u1 \<le> budget ?u"
    "mode \<noteq> kSacnSourceTickModeProcessPapOnly \<and> (\<not> ok1 \<or> ut) \<longrightarrow> budget u1 < budget ?u"
    using u1(3,4) tkey_D(3)[OF u1(1)] by (auto simp: budget_def)
  define s1 where "s1 = s\<lparr>universes := (universes s)[i := u1]\<rparr>"
  have i1: "i < length (universes s1)" "universes s1 ! i = u1" "ident s1 = ident s" "cid s1 = cid s" "source_name s1 = source_name s"
    "num_active_universes s1 = num_active_universes s" "remove_index i (universes s1) = remove_index i (universes s)"
    "\<And>v. (universes s1)[i := v] = (universes s)[i := v]"
    using i by (simp_all add: s1_def ident_def remove_index_def)
  have part: "IS_PART_OF_UNIVERSE_DISCOVERY u1 = IS_PART_OF_UNIVERSE_DISCOVERY ?u"
    using tkey_D(5)[OF u1(1)] by (simp flip: active_ukey)
  obtain ok2 s2 c2 where s2: "(if termination_state u1 = kNotTerminating then
        (case and_then ok1 u1 (transmit_levels_and_pap_when_needed E mode) of (ok, u, c) \<Rightarrow> (ok, s1\<lparr>universes := (universes s1)[i := u]\<rparr>, c))
      else if mode \<noteq> kSacnSourceTickModeProcessPapOnly then and_then ok1 s1 (process_multicast_termination E i ut)
      else (ok1, s1, [])) = (ok2, s2, c2)"
    by (metis prod_cases3)
  have s': "s' = s2\<lparr>universes := at_index i increment_sequence_number (universes s2)\<rparr>"
    using p by (simp only: process_universe_def ut prod.case Let_def s1_def[symmetric] s2 prod.inject)
  have at: "at_index i increment_sequence_number ((universes s)[i := v]) = (universes s)[i := increment_sequence_number v]" for v
    using i by (simp add: at_index_def)
  have ident': "ident s' = ident s2" by (simp add: s' ident_def)
  have stay: "stays L mode i s s'"
    if "universes s2 = (universes s)[i := v]" "num_active_universes s2 = num_active_universes s"
      "universe_shape L (cid s) (source_name s) v" "ukey v = ukey ?u"
      "termination_state v = termination_state ?u" "budget v \<le> budget ?u"
      "mode \<noteq> kSacnSourceTickModeProcessPapOnly \<and> termination_state v = kTerminatingAndRemoving \<longrightarrow> budget v < budget ?u" for v
    unfolding stays_def s' using that increment_inv[OF L that(3)] at[of v]
    by (intro conjI exI[of _ "increment_sequence_number v"]) (simp_all add: increment_same ukey_def)
  consider (transmit) "termination_state u1 = kNotTerminating"
    | (terminate) "termination_state u1 \<noteq> kNotTerminating" "mode \<noteq> kSacnSourceTickModeProcessPapOnly" ok1
    | (wait) "termination_state u1 \<noteq> kNotTerminating" "mode \<noteq> kSacnSourceTickModeProcessPapOnly \<longrightarrow> \<not> ok1"
    by blast
  then show ?thesis
  proof cases
    case transmit
    obtain ok3 v c3 where t: "and_then ok1 u1 (transmit_levels_and_pap_when_needed E mode) = (ok3, v, c3)" by (metis prod_cases3)
    have e2: "s2 = s1\<lparr>universes := (universes s1)[i := v]\<rparr>" using s2 transmit t by simp
    have v: "universe_shape L (cid s) (source_name s) v" "ukey v = ukey u1" "termination_state v = termination_state u1" "budget v = budget u1"
    proof -
      have "universe_shape L (cid s) (source_name s) v \<and> ukey v = ukey u1 \<and> termination_state v = termination_state u1 \<and> budget v = budget u1"
      proof (cases ok1)
        case True
        then have "transmit_levels_and_pap_when_needed E mode u1 = (ok3, v, c3)" using t by (simp add: and_then_def)
        from transmit_shape[OF L s1shape this] show ?thesis by blast
      qed (use t s1shape in \<open>simp add: and_then_def\<close>)
      then show "universe_shape L (cid s) (source_name s) v" "ukey v = ukey u1" "termination_state v = termination_state u1" "budget v = budget u1"
        by blast+
    qed
    have "stays L mode i s s'"
      by (rule stay[of v]) (use v b1(1) tkey_D[OF u1(1)] transmit i1(6,8) in \<open>simp_all add: e2\<close>)
    moreover have "ident s2 = ident s" using i1(3) by (simp add: e2 ident_def)
    ultimately show ?thesis using ident' by simp
  next
    case wait
    have "s2 = s1" using s2 wait by (cases "mode \<noteq> kSacnSourceTickModeProcessPapOnly") (auto simp: and_then_def)
    moreover have "stays L mode i s s'"
      by (rule stay[of u1])
         (use s1shape b1 tkey_D[OF u1(1)] i1(6) wait calculation in \<open>simp_all add: s1_def\<close>)
    ultimately show ?thesis using ident' i1(3) by simp
  next
    case terminate
    have "process_multicast_termination E i ut s1 = (ok2, s2, c2)" using s2 terminate by (simp add: and_then_def)
    from process_multicast_termination_cases[OF L[folded i1(4,5)] i1(1) _ _ this]
    have cases: "ident s2 = ident s \<and>
      ((\<exists>v. s2 = s1\<lparr>universes := (universes s1)[i := v]\<rparr> \<and> universe_shape L (cid s) (source_name s) v \<and> ukey v = ukey u1 \<and>
            termination_state v = termination_state u1 \<and> budget v \<le> budget u1 \<and> (\<not> ut \<longrightarrow> budget v < budget u1)) \<or>
       termination_state u1 = kTerminatingAndRemoving \<and> universes s2 = remove_index i (universes s) \<and>
         num_active_universes s2 = num_active_universes s - one_if (IS_PART_OF_UNIVERSE_DISCOVERY u1) \<or>
       termination_state u1 = kTerminatingWithoutRemoving \<and>
         num_active_universes s2 = num_active_universes s - one_if (IS_PART_OF_UNIVERSE_DISCOVERY u1) \<and>
         (\<exists>v. universes s2 = (universes s)[i := v] \<and> universe_shape L (cid s) (source_name s) v \<and>
            universe_id v = universe_id u1 \<and> \<not> has_level_data v \<and> termination_state v = kNotTerminating))"
      using s1shape terminate unfolding i1(2-8) by blast
    then consider (on) v where "s2 = s1\<lparr>universes := (universes s1)[i := v]\<rparr>" "universe_shape L (cid s) (source_name s) v" "ukey v = ukey u1"
          "termination_state v = termination_state u1" "budget v \<le> budget u1" "\<not> ut \<longrightarrow> budget v < budget u1"
      | (removed) "termination_state u1 = kTerminatingAndRemoving" "universes s2 = remove_index i (universes s)"
          "num_active_universes s2 = num_active_universes s - one_if (IS_PART_OF_UNIVERSE_DISCOVERY u1)"
      | (reset) v where "termination_state u1 = kTerminatingWithoutRemoving"
          "num_active_universes s2 = num_active_universes s - one_if (IS_PART_OF_UNIVERSE_DISCOVERY u1)"
          "universes s2 = (universes s)[i := v]" "universe_shape L (cid s) (source_name s) v"
          "universe_id v = universe_id u1" "\<not> has_level_data v" "termination_state v = kNotTerminating"
      by blast
    then show ?thesis
    proof cases
      case on
      have "stays L mode i s s'"
        by (rule stay[of v]) (use on b1 tkey_D[OF u1(1)] i1(6,8) terminate in auto)
      then show ?thesis using cases ident' by simp
    next
      case removed
      then have "was_removed i s s'"
        using tkey_D(2)[OF u1(1)] part by (simp add: was_removed_def s')
      then show ?thesis using cases ident' terminate by simp
    next
      case reset
      then have "was_reset L i s s'"
        using tkey_D(1,2)[OF u1(1)] part increment_inv[OF L reset(4)] at[of v] unfolding was_reset_def s'
        by (intro conjI exI[of _ "increment_sequence_number v"]) (simp_all add: increment_same)
      then show ?thesis using cases ident' by simp
    qed
  qed
qed

end
