(* ===== verification/SourceModule.thy ===== *)
theory SourceModule
  imports SourceTick
begin

text \<open>
  The invariant of a source and of the pool of sources, and that the ticks keep it.
  \<^item> \<open>source_inv\<close>: the universes satisfy \<open>universe_inv\<close> and are in descending order,
    \<open>num_active_universes\<close> counts those that are part of universe discovery, all universes of a
    terminating source are being removed, and the discovery buffer has its header.
  \<^item> \<open>budgets_below\<close>: what is left to terminate, which every tick that sends levels reduces.
\<close>

section \<open>The invariant of a source\<close>

definition descending :: "'tm source_universe list \<Rightarrow> bool" where
  "descending us \<longleftrightarrow> sorted_wrt (\<lambda>u v. universe_id v < universe_id u) us"

definition count_active :: "'tm source_universe list \<Rightarrow> int" where
  "count_active us = int (length (filter IS_PART_OF_UNIVERSE_DISCOVERY us))"

definition discovery_buf ::
    "acn_lib \<Rightarrow> u8 list \<Rightarrow> u8 list \<Rightarrow> nat \<Rightarrow> u8 \<Rightarrow> u8 \<Rightarrow> u8 list \<Rightarrow> u8 list" where
  "discovery_buf L the_cid nm n pg lst area =
     root_layer L (120 + 2 * int n) True the_cid @ discovery_framing_layer L (int n) nm @ discovery_layer L (int n) pg lst @ area"

definition discovery_ok :: "acn_lib \<Rightarrow> u8 list \<Rightarrow> u8 list \<Rightarrow> u8 list \<Rightarrow> bool" where
  "discovery_ok L the_cid nm buf \<longleftrightarrow>
     (\<exists>n pg lst area. n \<le> 512 \<and> length area = 1024 \<and> buf = discovery_buf L the_cid nm n pg lst area)"

definition all_removing :: "'tm sacn_source \<Rightarrow> bool" where
  "all_removing s \<longleftrightarrow> (\<forall>u \<in> set (universes s). termination_state u = kTerminatingAndRemoving)"

definition source_inv :: "acn_lib \<Rightarrow> 'tm sacn_source \<Rightarrow> bool" where
  "source_inv L s \<longleftrightarrow> ids_ok (cid s) (source_name s) \<and>
     (\<forall>u \<in> set (universes s). universe_inv L (cid s) (source_name s) u) \<and> descending (universes s) \<and>
     num_active_universes s = count_active (universes s) \<and> (terminating s \<longrightarrow> all_removing s) \<and>
     discovery_ok L (cid s) (source_name s) (universe_discovery_send_buf s)"

lemma source_inv_D:
  assumes "source_inv L s"
  shows "ids_ok (cid s) (source_name s)" "u \<in> set (universes s) \<Longrightarrow> universe_inv L (cid s) (source_name s) u"
    "descending (universes s)" "num_active_universes s = count_active (universes s)" "terminating s \<Longrightarrow> all_removing s"
    "discovery_ok L (cid s) (source_name s) (universe_discovery_send_buf s)"
  using assms by (simp_all add: source_inv_def)

section \<open>Lists of universes\<close>

lemma descending_update:
  assumes "descending us" "i < length us" "universe_id v = universe_id (us ! i)"
  shows "descending (us[i := v])"
proof -
  have "sorted_wrt (\<lambda>a b. b < a) (map universe_id (us[i := v])) = sorted_wrt (\<lambda>a b. b < a) (map universe_id us)"
    using assms(2,3) by (simp only: map_update) (metis list_update_id nth_map)
  then show ?thesis using assms(1) by (simp add: descending_def sorted_wrt_map)
qed

lemma descending_remove:
  assumes "descending us"
  shows "descending (remove_index i us)"
proof -
  have "set (drop (Suc i) us) \<subseteq> set (drop i us)" by (rule set_drop_subset_set_drop) simp
  moreover have "sorted_wrt (\<lambda>u v. universe_id v < universe_id u) (take i us @ drop i us)"
    using assms by (simp add: descending_def)
  ultimately show ?thesis
    unfolding descending_def remove_index_def sorted_wrt_append using sorted_wrt_drop assms[unfolded descending_def] by blast
qed

lemma count_active_split: "i < length us \<Longrightarrow> count_active us =
    count_active (take i us) + one_if (IS_PART_OF_UNIVERSE_DISCOVERY (us ! i)) + count_active (drop (Suc i) us)"
proof -
  assume "i < length us"
  from id_take_nth_drop[OF this]
  have "filter IS_PART_OF_UNIVERSE_DISCOVERY us = filter IS_PART_OF_UNIVERSE_DISCOVERY (take i us @ us ! i # drop (Suc i) us)"
    by (rule arg_cong)
  then show ?thesis unfolding count_active_def by (simp add: one_if_def)
qed

lemma count_active_update:
  "i < length us \<Longrightarrow> count_active (us[i := v]) =
     count_active us - one_if (IS_PART_OF_UNIVERSE_DISCOVERY (us ! i)) + one_if (IS_PART_OF_UNIVERSE_DISCOVERY v)"
  using count_active_split[of i us] count_active_split[of i "us[i := v]"] by simp

lemma count_active_remove:
  "i < length us \<Longrightarrow> count_active (remove_index i us) = count_active us - one_if (IS_PART_OF_UNIVERSE_DISCOVERY (us ! i))"
  using count_active_split[of i us] by (simp add: count_active_def remove_index_def)

lemma part_increment: "IS_PART_OF_UNIVERSE_DISCOVERY (increment_sequence_number u) = IS_PART_OF_UNIVERSE_DISCOVERY u"
  by (simp add: IS_PART_OF_UNIVERSE_DISCOVERY_def increment_same)

lemma at_index_increment:
  "descending us \<Longrightarrow> descending (at_index i increment_sequence_number us)"
  "count_active (at_index i increment_sequence_number us) = count_active us"
  by (simp_all add: at_index_def descending_update increment_same count_active_update part_increment)

lemma part_cong: "ukey v = ukey u \<Longrightarrow> IS_PART_OF_UNIVERSE_DISCOVERY v = IS_PART_OF_UNIVERSE_DISCOVERY u"
  by (simp flip: active_ukey)

lemma set_at_index: "u \<in> set (at_index i f xs) \<Longrightarrow> u \<in> set xs \<or> (i < length xs \<and> u = f (xs ! i))"
  by (auto simp: at_index_def dest: set_update_subset_insert[THEN subsetD] split: if_splits)

section \<open>The loop over the universes\<close>

lemma ident_D:
  assumes "ident s' = ident s"
  shows "source_handle s' = source_handle s" "cid s' = cid s" "source_name s' = source_name s" "terminating s' = terminating s"
    "process_manually s' = process_manually s" "universe_discovery_send_buf s' = universe_discovery_send_buf s"
  using assms by (simp_all add: ident_def)

text \<open>A step of one universe at index \<open>i\<close>, as the loop needs it.\<close>

lemma process_universe_inv:
  assumes L: "acn_laws L" and inv: "source_inv L s" and i: "i < length (universes s)"
    and p: "process_universe E mode i ok s = (ok', s', c)"
  shows "source_inv L s' \<and> ident s' = ident s \<and> i \<le> length (universes s')"
proof -
  note D = source_inv_D[OF inv]
  let ?us = "universes s"
  have u: "universe_inv L (cid s) (source_name s) (?us ! i)" using D(2) i by simp
  note cases = process_universe_cases[OF L D(1) i u p]
  then have id: "ident s' = ident s" by simp
  note ids = ident_D[OF id]
  have inv': "source_inv L s'"
    if "\<forall>u \<in> set (universes s'). universe_inv L (cid s) (source_name s) u" "descending (universes s')"
      "num_active_universes s' = count_active (universes s')" "terminating s \<longrightarrow> all_removing s'"
    using that D(1,6) unfolding source_inv_def ids by blast
  have upd: "\<forall>u \<in> set (?us[i := v]). universe_inv L (cid s) (source_name s) u"
    if "universe_inv L (cid s) (source_name s) v" for v
    using that D(2) set_update_subset_insert[of ?us i v] by blast
  from cases consider "stays L mode i s s'" | "was_reset L i s s'" | "was_removed i s s'" by blast
  then show ?thesis
  proof cases
    case 1
    then obtain v where v: "universes s' = ?us[i := v]" "universe_inv L (cid s) (source_name s) v" "ukey v = ukey (?us ! i)"
        "termination_state v = termination_state (?us ! i)" "num_active_universes s' = num_active_universes s"
      unfolding stays_def by blast
    have "universe_id v = universe_id (?us ! i)" using v(3) by (simp add: ukey_def)
    then have "descending (universes s')" unfolding v(1) using descending_update D(3) i by blast
    moreover have "num_active_universes s' = count_active (universes s')"
      using v(5) D(4) count_active_update[OF i, of v] part_cong[OF v(3)] by (simp add: v(1))
    moreover have "terminating s \<longrightarrow> all_removing s'"
      using D(5) v(1,4) i set_update_subset_insert[of ?us i v] by (auto simp: all_removing_def)
    ultimately show ?thesis using inv' upd[OF v(2)] v(1) id i by simp
  next
    case 2
    then obtain v where v: "universes s' = ?us[i := v]" "universe_inv L (cid s) (source_name s) v" "universe_id v = universe_id (?us ! i)"
        "\<not> has_level_data v" "termination_state (?us ! i) = kTerminatingWithoutRemoving"
        "num_active_universes s' = num_active_universes s - one_if (IS_PART_OF_UNIVERSE_DISCOVERY (?us ! i))"
      unfolding was_reset_def by blast
    have "descending (universes s')" unfolding v(1) using descending_update D(3) i v(3) by blast
    moreover have "num_active_universes s' = count_active (universes s')"
      using v(4,6) D(4) count_active_update[OF i, of v] by (simp add: v(1) one_if_def IS_PART_OF_UNIVERSE_DISCOVERY_def)
    moreover have "\<not> terminating s"
      using D(5) v(5) nth_mem[OF i] by (metis all_removing_def termination_state.distinct(1))
    ultimately show ?thesis using inv' upd[OF v(2)] v(1) id i by simp
  next
    case 3
    let ?r = "remove_index i ?us"
    have r: "universes s' = at_index i increment_sequence_number ?r"
        "num_active_universes s' = num_active_universes s - one_if (IS_PART_OF_UNIVERSE_DISCOVERY (?us ! i))"
      using 3 by (simp_all add: was_removed_def)
    have "universe_inv L (cid s) (source_name s) u" if "u \<in> set (universes s')" for u
      using set_at_index[OF that[unfolded r(1)]] set_remove_index[of i ?us] D(2) increment_inv[OF L D(1)] universe_inv_shape
      by (metis nth_mem subsetD)
    moreover have "descending (universes s')" unfolding r(1) by (intro at_index_increment descending_remove D(3))
    moreover have "num_active_universes s' = count_active (universes s')"
      using r(2) D(4) count_active_remove[OF i] by (simp add: r(1) at_index_increment)
    moreover have "terminating s \<longrightarrow> all_removing s'"
    proof (intro impI, unfold all_removing_def, intro ballI)
      fix u assume t: "terminating s" and u: "u \<in> set (universes s')"
      from set_at_index[OF u[unfolded r(1)]]
      consider "u \<in> set ?r" | "i < length ?r" "u = increment_sequence_number (?r ! i)"
        by blast
      then show "termination_state u = kTerminatingAndRemoving"
        using D(5)[OF t] set_remove_index[of i ?us] unfolding all_removing_def
        by cases (auto simp: increment_same dest!: nth_mem)
    qed
    moreover have "i \<le> length (universes s')" using i remove_index_length[OF i] by (auto simp: r(1) at_index_def)
    ultimately show ?thesis using inv' id by blast
  qed
qed

lemma process_universes_loop_inv:
  "process_universes_loop E mode i ok s calls = (ok', s', c) \<Longrightarrow> acn_laws L \<Longrightarrow> source_inv L s \<Longrightarrow> i \<le> length (universes s) \<Longrightarrow>
   source_inv L s' \<and> ident s' = ident s"
proof (induction i arbitrary: ok s calls)
  case (Suc i)
  obtain ok1 s1 c1 where p: "process_universe E mode i ok s = (ok1, s1, c1)" by (metis prod_cases3)
  have i: "i < length (universes s)" using Suc.prems(4) by simp
  note one = process_universe_inv[OF Suc.prems(2,3) i p]
  have "process_universes_loop E mode i ok1 s1 (calls @ c1) = (ok', s', c)" using Suc.prems(1) p by simp
  from Suc.IH[OF this Suc.prems(2)] one show ?case by simp
qed simp

section \<open>Terminating universes come to their end\<close>

definition after_tick :: "tick_mode \<Rightarrow> nat \<Rightarrow> nat" where
  "after_tick mode n = (if mode = kSacnSourceTickModeProcessPapOnly then n else n - 1)"

lemma nth_remove_index:
  "i < length xs \<Longrightarrow> j < length xs - 1 \<Longrightarrow> remove_index i xs ! j = (if j < i then xs ! j else xs ! Suc j)"
  by (auto simp: remove_index_def nth_append min_def)

lemma process_universe_budget:
  assumes L: "acn_laws L" and inv: "source_inv L s" and i: "i < length (universes s)"
    and p: "process_universe E mode i ok s = (ok', s', c)" and rem: "all_removing s"
    and b: "\<forall>j < length (universes s). budget (universes s ! j) < (if j < Suc i then n else after_tick mode n)"
  shows "all_removing s' \<and> (\<forall>j < length (universes s'). budget (universes s' ! j) < (if j < i then n else after_tick mode n))"
proof -
  note D = source_inv_D[OF inv]
  let ?us = "universes s"
  have u: "universe_inv L (cid s) (source_name s) (?us ! i)" using D(2) i by simp
  have ru: "termination_state (?us ! i) = kTerminatingAndRemoving" using rem i by (simp add: all_removing_def)
  have "stays L mode i s s' \<or> mode \<noteq> kSacnSourceTickModeProcessPapOnly \<and> was_removed i s s'"
    using process_universe_cases[OF L D(1) i u p] ru by (auto simp: was_reset_def)
  then consider (stays) "stays L mode i s s'" | (removed) "was_removed i s s'" by blast
  then show ?thesis
  proof cases
    case stays
    then obtain v where v: "universes s' = ?us[i := v]" "termination_state v = kTerminatingAndRemoving" "budget v \<le> budget (?us ! i)"
        "mode \<noteq> kSacnSourceTickModeProcessPapOnly \<longrightarrow> budget v < budget (?us ! i)"
      unfolding stays_def using ru by auto
    have "budget (?us ! i) < n" using b[rule_format, OF i] by simp
    then have "budget v < after_tick mode n" using v(3,4) by (auto simp: after_tick_def)
    moreover have "budget (?us ! j) < (if j < i then n else after_tick mode n)" if "j < length ?us" "j \<noteq> i" for j
      using b[rule_format, OF that(1)] that(2) by (auto split: if_splits)
    ultimately have "budget (universes s' ! j) < (if j < i then n else after_tick mode n)" if "j < length (universes s')" for j
      using that by (cases "j = i") (simp_all add: v(1))
    moreover have "all_removing s'"
      using rem v(2) set_update_subset_insert[of ?us i v] by (auto simp: all_removing_def v(1))
    ultimately show ?thesis by blast
  next
    case removed
    let ?r = "remove_index i ?us"
    have r: "universes s' = at_index i increment_sequence_number ?r" using removed by (simp add: was_removed_def)
    have len: "length (universes s') = length ?us - 1" using remove_index_length[OF i] by (simp add: r at_index_def)
    have nth: "budget (universes s' ! j) = budget (?r ! j)" for j
      by (cases "j = i") (simp_all add: r at_index_def nth_list_update)
    have "budget (universes s' ! j) < (if j < i then n else after_tick mode n)" if "j < length (universes s')" for j
    proof -
      have j: "j < length ?us - 1" using that by (simp only: len)
      then have "budget (universes s' ! j) = budget (?us ! (if j < i then j else Suc j))"
        unfolding nth using nth_remove_index[OF i j] by simp
      then show ?thesis using b[rule_format, of "if j < i then j else Suc j"] j i by (auto split: if_splits)
    qed
    moreover have "all_removing s'"
      unfolding all_removing_def
    proof (intro ballI)
      fix u assume "u \<in> set (universes s')"
      from set_at_index[OF this[unfolded r]] show "termination_state u = kTerminatingAndRemoving"
        using rem set_remove_index[of i ?us] unfolding all_removing_def
        by (auto simp: increment_same dest!: nth_mem)
    qed
    ultimately show ?thesis by blast
  qed
qed

lemma process_universes_loop_budget:
  "process_universes_loop E mode i ok s calls = (ok', s', c) \<Longrightarrow> acn_laws L \<Longrightarrow> source_inv L s \<Longrightarrow> i \<le> length (universes s) \<Longrightarrow>
   all_removing s \<Longrightarrow> \<forall>j < length (universes s). budget (universes s ! j) < (if j < i then n else after_tick mode n) \<Longrightarrow>
   all_removing s' \<and> (\<forall>j < length (universes s'). budget (universes s' ! j) < after_tick mode n)"
proof (induction i arbitrary: ok s calls)
  case (Suc i)
  obtain ok1 s1 c1 where p: "process_universe E mode i ok s = (ok1, s1, c1)" by (metis prod_cases3)
  have i: "i < length (universes s)" using Suc.prems(4) by simp
  note one = process_universe_inv[OF Suc.prems(2,3) i p]
  note bud = process_universe_budget[OF Suc.prems(2,3) i p Suc.prems(5,6)]
  have "process_universes_loop E mode i ok1 s1 (calls @ c1) = (ok', s', c)" using Suc.prems(1) p by simp
  from Suc.IH[OF this Suc.prems(2)] one bud show ?case by blast
qed simp

definition budgets_below :: "nat \<Rightarrow> 'tm sacn_source \<Rightarrow> bool" where
  "budgets_below n s \<longleftrightarrow> (\<forall>u \<in> set (universes s). budget u < n)"

lemma process_universes_spec:
  assumes "process_universes E mode s = (ok, s', c)" "acn_laws L" "source_inv L s"
  shows "source_inv L s'" "ident s' = ident s"
    "all_removing s \<Longrightarrow> budgets_below n s \<Longrightarrow> all_removing s' \<and> budgets_below (after_tick mode n) s'"
proof -
  show "source_inv L s'" "ident s' = ident s"
    using process_universes_loop_inv[OF assms(1)[unfolded process_universes_def] assms(2,3) order_refl] by auto
  assume a: "all_removing s" "budgets_below n s"
  then have "\<forall>j < length (universes s). budget (universes s ! j) < (if j < length (universes s) then n else after_tick mode n)"
    by (simp add: budgets_below_def)
  from process_universes_loop_budget[OF assms(1)[unfolded process_universes_def] assms(2,3) order_refl a(1) this]
  show "all_removing s' \<and> budgets_below (after_tick mode n) s'"
    by (auto simp: budgets_below_def in_set_conv_nth)
qed

end
