(* ===== verification/SourceDiscovery.thy ===== *)
theory SourceDiscovery
  imports SourceModule
begin

text \<open>
  Universe discovery: what \<open>pack_universe_discovery_page\<close> puts on a page, that the loop over the
  pages always returns, and which pages it sends.
  \<^item> \<open>discovery_buf_field\<close>: the macros on the discovery buffer, field by field.
  \<^item> \<open>pack_universes_spec\<close>, \<open>page_spec\<close>: the active universes on a page.
  \<^item> \<open>discovery_pages_spec\<close>: the pages sent, up to the first that no interface takes.
\<close>

section \<open>The fields of the discovery buffer\<close>

lemma discovery_buf_split:
  "discovery_buf L the_cid nm n pg lst area =
     udp_preamble L 16 @ flags_length L (104 + 2 * int n) @ (pack_u32b L (vector_root_extended L) @ take 16 the_cid) @
     flags_length L (82 + 2 * int n) @ pack_u32b L VECTOR_E131_EXTENDED_DISCOVERY @ nm @ pack_u32b L 0 @
     flags_length L (8 + 2 * int n) @ pack_u32b L VECTOR_UNIVERSE_DISCOVERY_UNIVERSE_LIST @ [pg] @ [lst] @ area"
  by (simp add: discovery_buf_def root_layer_def discovery_framing_layer_def discovery_layer_def mult.commute)

lemma discovery_buf_fields:
  assumes L: "acn_laws L" and ids: "ids_ok the_cid nm"
  shows "SET_UNIVERSE_COUNT L (discovery_buf L the_cid nm n pg lst area) (int m) = discovery_buf L the_cid nm m pg lst area"
    "SET_PAGE (discovery_buf L the_cid nm n pg lst area) pg' = discovery_buf L the_cid nm n pg' lst area"
    "SET_LAST_PAGE (discovery_buf L the_cid nm n pg lst area) lst' = discovery_buf L the_cid nm n pg lst' area"
    "length nm' \<le> 63 \<Longrightarrow> put_name nm' (discovery_buf L the_cid nm n pg lst area) = discovery_buf L the_cid (name_field nm') n pg lst area"
    "length (discovery_buf L the_cid nm n pg lst area) = 120 + length area"
proof -
  note len = ids_ok_D(1,2)[OF ids]
  note lens = flags_length_laws(1)[OF L] L len
  let ?root = "pack_u32b L (vector_root_extended L) @ take 16 the_cid"
  let ?vec = "pack_u32b L VECTOR_E131_EXTENDED_DISCOVERY"
  let ?frm = "?vec @ nm @ pack_u32b L 0"
  let ?lvec = "pack_u32b L VECTOR_UNIVERSE_DISCOVERY_UNIVERSE_LIST"
  define B where "B i j k = udp_preamble L 16 @ flags_length L (104 + 2 * i) @ ?root @ flags_length L (82 + 2 * j) @ ?frm @
    flags_length L (8 + 2 * k) @ ?lvec @ [pg] @ [lst] @ area" for i j k :: int
  have B: "discovery_buf L the_cid nm k pg lst area = B (int k) (int k) (int k)" for k
    by (simp add: discovery_buf_split B_def)
  let ?n = "int n" and ?m = "int m"
  have 1: "set_pdu_length L (B ?n ?n ?n) 16 (104 + 2 * ?m) = B ?m ?n ?n"
    unfolding B_def by (rule set_pdu_length_field[OF L refl]) (use lens in simp)
  have 2: "set_pdu_length L (B ?m ?n ?n) 38 (82 + 2 * ?m) = B ?m ?m ?n"
    unfolding B_def
    by (rule trans[OF set_pdu_length_field[OF L, of _ "udp_preamble L 16 @ flags_length L (104 + 2 * ?m) @ ?root" "82 + 2 * ?n"]],
        simp only: append_assoc) (simp_all add: lens)
  have 3: "set_pdu_length L (B ?m ?m ?n) 112 (8 + 2 * ?m) = B ?m ?m ?m"
    unfolding B_def
    by (rule trans[OF set_pdu_length_field[OF L, of _ "udp_preamble L 16 @ flags_length L (104 + 2 * ?m) @ ?root @
          flags_length L (82 + 2 * ?m) @ ?frm" "8 + 2 * ?n"]], simp only: append_assoc) (simp_all add: lens)
  have lin: "120 + ?m * 2 - int (16 :: nat) = 104 + 2 * ?m" "120 + ?m * 2 - 38 = 82 + 2 * ?m" "120 + ?m * 2 - 112 = 8 + 2 * ?m" by simp_all
  show "SET_UNIVERSE_COUNT L (discovery_buf L the_cid nm n pg lst area) ?m = discovery_buf L the_cid nm m pg lst area"
    unfolding SET_UNIVERSE_COUNT_def Let_def acn_lengths(3)[OF L] lin B 1 2 3 ..
  let ?head = "udp_preamble L 16 @ flags_length L (104 + 2 * ?n) @ ?root @ flags_length L (82 + 2 * ?n)"
  let ?pre = "?head @ ?frm @ flags_length L (8 + 2 * ?n) @ ?lvec"
  show "SET_PAGE (discovery_buf L the_cid nm n pg lst area) pg' = discovery_buf L the_cid nm n pg' lst area"
    unfolding SET_PAGE_def discovery_buf_split
    by (rule trans[OF upd_byte[of _ "?pre" pg]], simp only: append_assoc) (simp_all add: lens)
  show "SET_LAST_PAGE (discovery_buf L the_cid nm n pg lst area) lst' = discovery_buf L the_cid nm n pg lst' area"
    unfolding SET_LAST_PAGE_def discovery_buf_split
    by (rule trans[OF upd_byte[of _ "?pre @ [pg]" lst]], simp only: append_assoc) (simp_all add: lens)
  show "length (discovery_buf L the_cid nm n pg lst area) = 120 + length area"
    unfolding discovery_buf_split by (simp add: lens)
  assume nm': "length nm' \<le> 63"
  have "memcpy_at (?head @ ?vec @ nm @ pack_u32b L 0 @ xs) 44 (name_field nm') 64 = ?head @ ?vec @ name_field nm' @ pack_u32b L 0 @ xs" for xs
    by (rule trans[OF memcpy_field[of _ "?head @ ?vec" nm]], simp only: append_assoc) (simp_all add: lens)
  then show "put_name nm' (discovery_buf L the_cid nm n pg lst area) = discovery_buf L the_cid (name_field nm') n pg lst area"
    unfolding put_name_def strncpy_name[OF nm'] discovery_buf_split by simp
qed

lemma discovery_ok_name:
  assumes "acn_laws L" "ids_ok the_cid nm" "discovery_ok L the_cid nm buf" "length nm' \<le> 63"
  shows "discovery_ok L the_cid (name_field nm') (put_name nm' buf)"
  using assms(3) discovery_buf_fields(4)[OF assms(1,2,4)] unfolding discovery_ok_def by metis

lemma init_discovery_layout:
  assumes L: "acn_laws L" and "length the_cid = 16"
  shows "init_discovery_send_buf L the_cid nm = Some (discovery_buf L the_cid (name_field nm) 0 0 0 (replicate 1024 0))"
proof -
  note lens = length_layers[OF L]
  have r: "pack_sacn_root_layer L (replicate 1144 0) 0 120 True the_cid =
      Some (written_at (root_layer L 120 True the_cid) (replicate 1106 0), 38)"
    using pack_sacn_root_layer_written[OF L, of 0 "[]" "replicate 1144 0" the_cid 120 True] assms(2) by (simp add: written_at_Nil)
  show ?thesis
    using assms lens unfolding init_discovery_send_buf_def Let_def r
    by (simp add: written discovery_buf_def) (simp add: written_at_def)
qed

section \<open>A page\<close>

definition active_ids :: "'tm source_universe list \<Rightarrow> u16 list" where
  "active_ids us = map universe_id (filter IS_PART_OF_UNIVERSE_DISCOVERY us)"

definition id_bytes :: "acn_lib \<Rightarrow> u16 list \<Rightarrow> u8 list" where
  "id_bytes L ids = concat (map (pack_u16b L) ids)"

lemma length_id_bytes: "acn_laws L \<Longrightarrow> length (id_bytes L ids) = 2 * length ids"
  by (induction ids) (simp_all add: id_bytes_def)

lemma active_ids_simps [simp]:
  "active_ids [] = []"
  "active_ids (u # us) = (if IS_PART_OF_UNIVERSE_DISCOVERY u then universe_id u # active_ids us else active_ids us)"
  "active_ids (us @ vs) = active_ids us @ active_ids vs"
  by (simp_all add: active_ids_def)

text \<open>The universes \<open>processed\<close> to \<open>processed'\<close>, from the lowest, are on the page, behind what was packed before.\<close>

lemma pack_universes_spec:
  "pack_universes L us p k (h @ id_bytes L old @ area) = (p', k', buf') \<Longrightarrow> acn_laws L \<Longrightarrow> length h = 120 \<Longrightarrow>
   length old = k \<Longrightarrow> length (id_bytes L old @ area) = 1024 \<Longrightarrow> k \<le> 512 \<Longrightarrow> p \<le> length us \<Longrightarrow>
   p \<le> p' \<and> p' \<le> length us \<and> (p' = length us \<or> k' = 512) \<and> k' \<le> 512 \<and> (k < 512 \<and> p < length us \<longrightarrow> p < p') \<and>
   (\<exists>area'. buf' = h @ id_bytes L (old @ active_ids (take (p' - p) (drop p (rev us)))) @ area' \<and>
      length (id_bytes L (old @ active_ids (take (p' - p) (drop p (rev us)))) @ area') = 1024 \<and>
      k' = k + length (active_ids (take (p' - p) (drop p (rev us)))))"
proof (induction "length us - p" arbitrary: p k old area)
  case 0
  then have "p = length us" by simp
  then show ?case using 0 pack_universes.simps[of L us p k "h @ id_bytes L old @ area"] by simp
next
  case (Suc d)
  let ?u = "us ! (length us - 1 - p)"
  have p: "p < length us" using Suc.hyps(2) by simp
  have u: "rev us ! p = ?u" using p by (simp add: rev_nth)
  have dr: "drop p (rev us) = ?u # drop (Suc p) (rev us)" using p u by (metis Cons_nth_drop_Suc length_rev)
  show ?case
  proof (cases "k < 512")
    case False
    then show ?thesis
      using Suc.prems pack_universes.simps[of L us p k "h @ id_bytes L old @ area"]
      by (simp add: kSacnUniverseDiscoveryMaxUniversesPerPage_def)
  next
    case k: True
    have lo: "length (id_bytes L old) = 2 * k" using length_id_bytes[OF Suc.prems(2)] Suc.prems(4) by simp
    show ?thesis
    proof (cases "IS_PART_OF_UNIVERSE_DISCOVERY ?u")
      case False
      have "pack_universes L us p k (h @ id_bytes L old @ area) = pack_universes L us (Suc p) k (h @ id_bytes L old @ area)"
        using p k False by (subst pack_universes.simps) (simp add: kSacnUniverseDiscoveryMaxUniversesPerPage_def)
      with Suc.prems(1) have r: "pack_universes L us (Suc p) k (h @ id_bytes L old @ area) = (p', k', buf')" by simp
      have hyp: "d = length us - Suc p" "Suc p \<le> length us" using Suc.hyps(2) p by simp_all
      note IH = Suc.hyps(1)[OF hyp(1) r Suc.prems(2-6) hyp(2)]
      then have "Suc p \<le> p'" by blast
      then have "p' - p = Suc (p' - Suc p)" by simp
      then show ?thesis using IH False unfolding dr by simp
    next
      case True
      define bs where "bs = pack_u16b L (universe_id ?u)"
      have lb: "length bs = 2" using Suc.prems(2) by (simp add: bs_def)
      have la: "2 \<le> length area" using Suc.prems(5) k lo by simp
      define area1 where "area1 = drop 2 area"
      have new: "memcpy_at (h @ id_bytes L old @ area) (120 + 2 * k) bs 2 = h @ id_bytes L (old @ [universe_id ?u]) @ area1"
      proof -
        have a: "area = take 2 area @ area1" by (simp add: area1_def)
        have i: "id_bytes L (old @ [universe_id ?u]) = id_bytes L old @ bs" by (simp add: id_bytes_def bs_def)
        have "memcpy_at ((h @ id_bytes L old) @ take 2 area @ area1) (120 + 2 * k) bs 2 = (h @ id_bytes L old) @ bs @ area1"
          by (rule memcpy_field[OF refl]) (use Suc.prems(3) lo lb la in simp_all)
        then show ?thesis unfolding i using a by simp
      qed
      have "pack_universes L us p k (h @ id_bytes L old @ area) =
          pack_universes L us (Suc p) (Suc k) (memcpy_at (h @ id_bytes L old @ area) (120 + 2 * k) bs 2)"
        using p k True by (subst pack_universes.simps) (simp add: kSacnUniverseDiscoveryMaxUniversesPerPage_def bs_def)
      with Suc.prems(1) have r: "pack_universes L us (Suc p) (Suc k) (h @ id_bytes L (old @ [universe_id ?u]) @ area1) = (p', k', buf')"
        unfolding new by simp
      have hyp: "d = length us - Suc p" "Suc p \<le> length us" "length (old @ [universe_id ?u]) = Suc k" "Suc k \<le> 512"
        using Suc.hyps(2) p Suc.prems(4) k by simp_all
      have l1: "length (id_bytes L (old @ [universe_id ?u]) @ area1) = 1024"
        using Suc.prems(4,5) la k length_id_bytes[OF Suc.prems(2)] by (simp add: area1_def)
      note IH = Suc.hyps(1)[OF hyp(1) r Suc.prems(2,3) hyp(3) l1 hyp(4) hyp(2)]
      then have "Suc p \<le> p'" by blast
      then have "p' - p = Suc (p' - Suc p)" by simp
      then show ?thesis using IH True unfolding dr by simp
    qed
  qed
qed

text \<open>The page for the universes from \<open>p\<close> on.\<close>

definition last_page_number :: "'tm sacn_source \<Rightarrow> u8" where
  "last_page_number s = (if num_active_universes s > 0 then word_of_int ((num_active_universes s - 1) div 512) else 0)"

definition is_page :: "acn_lib \<Rightarrow> 'tm sacn_source \<Rightarrow> u8 \<Rightarrow> u16 list \<Rightarrow> u8 list \<Rightarrow> bool" where
  "is_page L s pg ids buf \<longleftrightarrow> (\<exists>rest. length (id_bytes L ids @ rest) = 1024 \<and>
     buf = discovery_buf L (cid s) (source_name s) (length ids) pg (last_page_number s) (id_bytes L ids @ rest))"

lemma page_spec:
  assumes L: "acn_laws L" and ids: "ids_ok (cid s) (source_name s)"
    and ok: "discovery_ok L (cid s) (source_name s) (universe_discovery_send_buf s)" and p: "p \<le> length (universes s)"
  shows "\<exists>p' buf'. pack_universe_discovery_page L p pg s =
      (length (active_ids (take (p' - p) (drop p (rev (universes s))))), p', s\<lparr>universe_discovery_send_buf := buf'\<rparr>) \<and>
    p \<le> p' \<and> p' \<le> length (universes s) \<and> (p < length (universes s) \<longrightarrow> p < p') \<and>
    (p' = length (universes s) \<or> length (active_ids (take (p' - p) (drop p (rev (universes s))))) = 512) \<and>
    length (active_ids (take (p' - p) (drop p (rev (universes s))))) \<le> 512 \<and>
    is_page L s pg (active_ids (take (p' - p) (drop p (rev (universes s))))) buf'"
proof -
  let ?us = "universes s"
  obtain n pg0 lst0 area where b: "length area = 1024"
      "universe_discovery_send_buf s = discovery_buf L (cid s) (source_name s) n pg0 lst0 area"
    using ok by (auto simp: discovery_ok_def)
  define h where "h = discovery_buf L (cid s) (source_name s) n pg0 lst0 []"
  have h: "universe_discovery_send_buf s = h @ id_bytes L [] @ area" "length h = 120"
    using discovery_buf_fields(5)[OF L ids] by (simp_all add: b(2) h_def discovery_buf_def id_bytes_def)
  obtain p' k' buf1 where u: "pack_universes L ?us p 0 (h @ id_bytes L [] @ area) = (p', k', buf1)" by (metis prod_cases3)
  define ids where "ids = active_ids (take (p' - p) (drop p (rev ?us)))"
  note sp = pack_universes_spec[OF u L h(2) _ _ _ p, simplified, folded ids_def]
  have "length (id_bytes L []) + length area = 1024" using b(1) by (simp add: id_bytes_def)
  from sp[OF this] obtain area' where a: "buf1 = h @ id_bytes L ids @ area'" "length (id_bytes L ids @ area') = 1024" "k' = length ids"
      "p \<le> p'" "p' \<le> length ?us" "p < length ?us \<longrightarrow> p < p'" "p' = length ?us \<or> k' = 512" "k' \<le> 512"
    by auto
  define buf' where "buf' = discovery_buf L (cid s) (source_name s) (length ids) pg (last_page_number s) (id_bytes L ids @ area')"
  have b1: "buf1 = discovery_buf L (cid s) (source_name s) n pg0 lst0 (id_bytes L ids @ area')"
    by (simp add: a(1) h_def discovery_buf_def)
  note fs = discovery_buf_fields(1-3)[OF L \<open>ids_ok (cid s) (source_name s)\<close>]
  have "pack_universe_discovery_page L p pg s = (length ids, p', s\<lparr>universe_discovery_send_buf := buf'\<rparr>)"
    unfolding pack_universe_discovery_page_def h(1) u prod.case Let_def b1 a(3) fs
      last_page_number_def[symmetric, unfolded of_nat_numeral[symmetric, where 'a=int] kSacnUniverseDiscoveryMaxUniversesPerPage_def[symmetric]]
      buf'_def ..
  moreover have "is_page L s pg ids buf'" using a(2) unfolding is_page_def buf'_def by blast
  ultimately show ?thesis using a unfolding ids_def by blast
qed

section \<open>The pages\<close>

function chunks :: "'a list \<Rightarrow> 'a list list" where
  "chunks xs = (if xs = [] then [] else take 512 xs # chunks (drop 512 xs))"
  by pat_completeness auto
termination by (relation "measure length") auto

declare chunks.simps [simp del]

definition page_calls :: "'tm sacn_source \<Rightarrow> u8 list \<Rightarrow> send_call list" where
  "page_calls s b = map (\<lambda>n. SendMulticast kSacnDiscoveryUniverse (netint_id n) b) (source_netints s)"

definition someone_takes :: "'tm source_env \<Rightarrow> 'tm sacn_source \<Rightarrow> u8 list \<Rightarrow> bool" where
  "someone_takes E s b \<longleftrightarrow> (\<exists>n \<in> set (source_netints s). multicast_result E kSacnDiscoveryUniverse b (netint_id n) = kEtcPalErrOk)"

lemma discovery_multicast_loop_spec:
  "\<exists>ok'. discovery_multicast_loop E b ns one ok calls =
     (one \<or> (\<exists>n \<in> set ns. multicast_result E kSacnDiscoveryUniverse b (netint_id n) = kEtcPalErrOk), ok',
      calls @ map (\<lambda>n. SendMulticast kSacnDiscoveryUniverse (netint_id n) b) ns)"
proof (induction ns arbitrary: one ok calls)
  case (Cons n ns)
  show ?case
    using Cons.IH[of True ok "calls @ [SendMulticast kSacnDiscoveryUniverse (netint_id n) b]"]
      Cons.IH[of one False "calls @ [SendMulticast kSacnDiscoveryUniverse (netint_id n) b]"]
    by (cases "multicast_result E kSacnDiscoveryUniverse b (netint_id n) = kEtcPalErrOk") (auto simp: Let_def)
qed simp

lemma discovery_pages_spec:
  "length (universes s) - p < fuel \<Longrightarrow> acn_laws (acn E) \<Longrightarrow> ids_ok (cid s) (source_name s) \<Longrightarrow>
   discovery_ok (acn E) (cid s) (source_name s) (universe_discovery_send_buf s) \<Longrightarrow> p \<le> length (universes s) \<Longrightarrow>
   \<exists>ok' buf' bs. discovery_pages fuel E p pg ok s calls =
       Some (ok', s\<lparr>universe_discovery_send_buf := buf'\<rparr>, calls @ concat (map (page_calls s) bs)) \<and>
     discovery_ok (acn E) (cid s) (source_name s) buf' \<and>
     length bs \<le> length (chunks (active_ids (drop p (rev (universes s))))) \<and>
     (\<forall>k < length bs. is_page (acn E) s (pg + of_nat k) (chunks (active_ids (drop p (rev (universes s)))) ! k) (bs ! k)) \<and>
     ((\<forall>b. someone_takes E s b) \<longrightarrow> length bs = length (chunks (active_ids (drop p (rev (universes s))))))"
proof (induction fuel arbitrary: p pg ok s calls)
  case (Suc fuel)
  let ?us = "universes s" and ?L = "acn E"
  obtain p' buf1 where pp: "pack_universe_discovery_page ?L p pg s =
      (length (active_ids (take (p' - p) (drop p (rev ?us)))), p', s\<lparr>universe_discovery_send_buf := buf1\<rparr>)"
    "p \<le> p'" "p' \<le> length ?us" "p < length ?us \<longrightarrow> p < p'"
    "p' = length ?us \<or> length (active_ids (take (p' - p) (drop p (rev ?us)))) = 512"
    "length (active_ids (take (p' - p) (drop p (rev ?us)))) \<le> 512"
    "is_page ?L s pg (active_ids (take (p' - p) (drop p (rev ?us)))) buf1"
    using page_spec[OF Suc.prems(2-5)] by blast
  define ids where "ids = active_ids (take (p' - p) (drop p (rev ?us)))"
  define R where "R = active_ids (drop p (rev ?us))"
  define R' where "R' = active_ids (drop p' (rev ?us))"
  have RR: "R = ids @ R'"
  proof -
    have "drop p (rev ?us) = take (p' - p) (drop p (rev ?us)) @ drop p' (rev ?us)"
      using pp(2) append_take_drop_id[of "p' - p" "drop p (rev ?us)"] by simp
    then show ?thesis unfolding R_def ids_def R'_def by (metis active_ids_simps(3))
  qed
  have full: "R' = [] \<or> length ids = 512" using pp(5) by (auto simp: R'_def ids_def)
  define s1 where "s1 = s\<lparr>universe_discovery_send_buf := buf1\<rparr>"
  have s1: "universes s1 = ?us" "cid s1 = cid s" "source_name s1 = source_name s" "source_netints s1 = source_netints s"
    "universe_discovery_send_buf s1 = buf1" "num_active_universes s1 = num_active_universes s"
    by (simp_all add: s1_def)
  have ok1: "discovery_ok ?L (cid s) (source_name s) buf1"
    using pp(6,7) unfolding is_page_def discovery_ok_def by blast
  obtain ok2 where m: "discovery_multicast_loop E buf1 (source_netints s) False ok calls =
      (someone_takes E s buf1, ok2, calls @ page_calls s buf1)"
    using discovery_multicast_loop_spec[of E buf1 "source_netints s" False ok calls] unfolding someone_takes_def page_calls_def by auto
  have step: "discovery_pages (Suc fuel) E p pg ok s calls =
      (if length ids = 0 then Some (ok, s1, calls)
       else if someone_takes E s buf1 then discovery_pages fuel E p' (pg + 1) ok2 s1 (calls @ page_calls s buf1)
       else Some (ok2, s1, calls @ page_calls s buf1))"
    using pp(1) m by (simp add: ids_def[symmetric] s1_def)
  show ?case
  proof (cases "ids = []")
    case True
    then have "R = []" using RR full by auto
    then show ?thesis
      unfolding step R_def[symmetric]
      by (intro exI[of _ ok] exI[of _ buf1] exI[of _ "[]"]) (use True ok1 in \<open>simp add: s1_def chunks.simps[of "[]"]\<close>)
  next
    case False
    have ch: "chunks R = ids # chunks R'"
    proof -
      have "take 512 R = ids" "drop 512 R = R'" using full pp(6) unfolding RR ids_def[symmetric] by auto
      then show ?thesis using False RR chunks.simps[of R] by simp
    qed
    have page: "is_page ?L s pg ids buf1" using pp(7) by (simp add: ids_def)
    show ?thesis
    proof (cases "someone_takes E s buf1")
      case False
      then show ?thesis
        unfolding step R_def[symmetric] ch
        by (intro exI[of _ ok2] exI[of _ buf1] exI[of _ "[buf1]"]) (use \<open>ids \<noteq> []\<close> ok1 page False in \<open>auto simp: s1_def\<close>)
    next
      case True
      have "p < length ?us"
      proof (rule ccontr)
        assume "\<not> p < length ?us"
        then have "ids = []" by (simp add: ids_def)
        then show False using False by simp
      qed
      then have lt: "length (universes s1) - p' < fuel" using Suc.prems(1) pp(2,3,4) by (auto simp: s1)
      have le: "p' \<le> length (universes s1)" using pp(3) by (simp add: s1)
      have i1: "ids_ok (cid s1) (source_name s1)" "discovery_ok ?L (cid s1) (source_name s1) (universe_discovery_send_buf s1)"
        using Suc.prems(3) ok1 by (simp_all add: s1)
      have same: "is_page ?L s1 = is_page ?L s" "page_calls s1 = page_calls s" "someone_takes E s1 = someone_takes E s"
        by (simp_all add: is_page_def page_calls_def someone_takes_def last_page_number_def s1 fun_eq_iff)
      obtain ok' buf' bs where r: "discovery_pages fuel E p' (pg + 1) ok2 s1 (calls @ page_calls s buf1) =
          Some (ok', s1\<lparr>universe_discovery_send_buf := buf'\<rparr>, (calls @ page_calls s buf1) @ concat (map (page_calls s) bs))"
        "discovery_ok ?L (cid s) (source_name s) buf'" "length bs \<le> length (chunks R')"
        "\<forall>k < length bs. is_page ?L s (pg + 1 + of_nat k) (chunks R' ! k) (bs ! k)"
        "(\<forall>b. someone_takes E s b) \<longrightarrow> length bs = length (chunks R')"
        using Suc.IH[OF lt Suc.prems(2) i1 le, of "pg + 1" ok2 "calls @ page_calls s buf1"] unfolding same s1 R'_def[symmetric] by blast
      have "is_page ?L s (pg + of_nat k) ((ids # chunks R') ! k) ((buf1 # bs) ! k)" if "k < length (buf1 # bs)" for k
        using that r(4) page by (cases k) (auto simp: add.assoc)
      then show ?thesis
        unfolding step R_def[symmetric] ch
        by (intro exI[of _ ok'] exI[of _ buf'] exI[of _ "buf1 # bs"]) (use \<open>ids \<noteq> []\<close> True r in \<open>simp add: s1_def\<close>)
    qed
  qed
qed simp

lemma send_universe_discovery_returns:
  assumes "acn_laws (acn E)" "ids_ok (cid s) (source_name s)"
    "discovery_ok (acn E) (cid s) (source_name s) (universe_discovery_send_buf s)"
  shows "\<exists>ok buf calls. send_universe_discovery E s = Some (ok, s\<lparr>universe_discovery_send_buf := buf\<rparr>, calls) \<and>
    discovery_ok (acn E) (cid s) (source_name s) buf"
proof (cases "source_netints s = []")
  case True
  then show ?thesis
    using assms(3)
    by (intro exI[of _ True] exI[of _ "universe_discovery_send_buf s"] exI[of _ "[]"]) (simp add: send_universe_discovery_def)
next
  case False
  then show ?thesis
    using discovery_pages_spec[of s 0 "Suc (length (universes s))" E 0 True "[]"] assms
    unfolding send_universe_discovery_def by auto
qed

section \<open>A tick of a source\<close>

lemma process_universe_discovery_spec:
  assumes L: "acn_laws (acn E)" and inv: "source_inv (acn E) s"
  shows "\<exists>ok s' calls. process_universe_discovery E s = Some (ok, s', calls) \<and> source_inv (acn E) s' \<and>
    universes s' = universes s \<and> source_handle s' = source_handle s \<and> process_manually s' = process_manually s \<and>
    terminating s' = terminating s \<and> (terminating s \<longrightarrow> ok)"
proof (cases "\<not> terminating s \<and> timer_is_expired E (universe_discovery_timer s)")
  case True
  obtain ok buf calls where r: "send_universe_discovery E s = Some (ok, s\<lparr>universe_discovery_send_buf := buf\<rparr>, calls)"
      "discovery_ok (acn E) (cid s) (source_name s) buf"
    using send_universe_discovery_returns[OF L source_inv_D(1)[OF inv] source_inv_D(6)[OF inv]] by blast
  show ?thesis
    using True r inv unfolding process_universe_discovery_def by (auto simp: source_inv_def all_removing_def)
next
  case False
  then show ?thesis using inv unfolding process_universe_discovery_def by auto
qed

lemma process_stats_log_same:
  "universes (process_stats_log E ok s) = universes s" "ident (process_stats_log E ok s) = ident s"
  "num_active_universes (process_stats_log E ok s) = num_active_universes s"
  by (simp_all add: process_stats_log_def Let_def ident_def)

lemma source_inv_cong:
  assumes "universes s' = universes s" "ident s' = ident s" "num_active_universes s' = num_active_universes s"
  shows "source_inv L s' = source_inv L s"
  using assms(1,3) ident_D[OF assms(2)] by (simp add: source_inv_def all_removing_def)

lemma process_source_spec:
  assumes L: "acn_laws (acn E)" and inv: "source_inv (acn E) s"
  shows "\<exists>s' calls. process_source E mode s = Some (s', calls) \<and> source_inv (acn E) s' \<and>
    source_handle s' = source_handle s \<and> process_manually s' = process_manually s \<and> terminating s' = terminating s \<and>
    (terminating s \<and> budgets_below n s \<longrightarrow> budgets_below (after_tick mode n) s')"
proof -
  obtain ok s1 c1 where d: "process_universe_discovery E s = Some (ok, s1, c1)" "source_inv (acn E) s1" "universes s1 = universes s"
      "source_handle s1 = source_handle s" "process_manually s1 = process_manually s" "terminating s1 = terminating s"
      "terminating s \<longrightarrow> ok"
    using process_universe_discovery_spec[OF assms] by blast
  obtain ok2 s2 c2 where a: "and_then ok s1 (process_universes E mode) = (ok2, s2, c2)" by (metis prod_cases3)
  have s2: "source_inv (acn E) s2 \<and> ident s2 = ident s1 \<and>
      (terminating s \<and> budgets_below n s \<longrightarrow> budgets_below (after_tick mode n) s2)"
  proof (cases ok)
    case True
    then have p: "process_universes E mode s1 = (ok2, s2, c2)" using a by (simp add: and_then_def)
    have "all_removing s1 \<and> budgets_below n s1" if "terminating s \<and> budgets_below n s"
      using that d(3,6) source_inv_D(5)[OF d(2)] by (simp add: budgets_below_def)
    then show ?thesis using process_universes_spec[OF p L d(2)] by blast
  next
    case False
    then show ?thesis using a d by (auto simp: and_then_def)
  qed
  define s3 where "s3 = process_stats_log E ok2 s2"
  note same = process_stats_log_same[of E ok2 s2, folded s3_def]
  have "process_source E mode s = Some (s3, c1 @ c2)" using a by (simp add: process_source_def d(1) s3_def)
  moreover have "source_inv (acn E) s3" using s2 source_inv_cong[OF same] by blast
  moreover have "budgets_below m s3 = budgets_below m s2" for m by (simp add: budgets_below_def same(1))
  ultimately show ?thesis
    using s2 d(4-6) ident_D[OF same(2)] ident_D[of s2 s1] by auto
qed

end
