(* ===== verification/SourcePool.thy ===== *)
theory SourcePool
  imports SourceDiscovery
begin

text \<open>
  The pool of sources: its invariant, that a tick over all sources keeps it, and that the thread
  comes to its end after a shutdown.
\<close>

section \<open>Setting things terminating\<close>

lemma set_unicast_dest_terminating_same:
  "dest_addr (set_unicast_dest_terminating b d) = dest_addr d"
  "0 \<le> dest_terminations_sent d \<Longrightarrow> 0 \<le> dest_terminations_sent (set_unicast_dest_terminating b d)"
  "b = kTerminateAndRemove \<Longrightarrow> dest_state (set_unicast_dest_terminating b d) = kTerminatingAndRemoving"
  by (cases b; simp add: set_unicast_dest_terminating_def Let_def)+

text \<open>The invariant does not depend on the termination states.\<close>

lemma universe_inv_dests:
  assumes "universe_inv L the_cid nm u" "0 \<le> n" "\<forall>d \<in> set ds. 0 \<le> dest_terminations_sent d"
    "universe_id v = universe_id u" "priority v = priority u" "send_preview v = send_preview u" "next_seq_num v = next_seq_num u"
    "level_send_buf v = level_send_buf u" "pap_send_buf v = pap_send_buf u" "flags v = flags u"
    "num_terminations_sent v = n" "unicast_dests v = ds"
  shows "universe_inv L the_cid nm v"
  using assms(1-3) unfolding universe_inv_def assms(4-) by simp

lemma universe_inv_nonneg:
  assumes "universe_inv L the_cid nm u"
  shows "0 \<le> num_terminations_sent u" "\<forall>d \<in> set (unicast_dests u). 0 \<le> dest_terminations_sent d"
  using assms by (simp_all add: universe_inv_def)

lemma set_universe_terminating_spec:
  fixes b :: terminating_behavior and u :: "'tm source_universe"
  defines "v \<equiv> set_universe_terminating b u"
  shows "universe_inv L the_cid nm u \<Longrightarrow> universe_inv L the_cid nm v" "ukey v = ukey u"
    "b = kTerminateAndRemove \<Longrightarrow> termination_state v = kTerminatingAndRemoving"
    "termination_state v = kTerminatingAndRemoving \<longleftrightarrow> b = kTerminateAndRemove \<or> termination_state u = kTerminatingAndRemoving"
    "has_pap_data v = has_pap_data u" "netints v = netints u"
proof -
  have v: "universe_id v = universe_id u \<and> priority v = priority u \<and> send_preview v = send_preview u \<and> next_seq_num v = next_seq_num u \<and>
      level_send_buf v = level_send_buf u \<and> pap_send_buf v = pap_send_buf u \<and> flags v = flags u \<and>
      num_terminations_sent v = (if termination_state u = kNotTerminating then 0 else num_terminations_sent u) \<and>
      unicast_dests v = map (set_unicast_dest_terminating b) (unicast_dests u) \<and> ukey v = ukey u \<and>
      has_pap_data v = has_pap_data u \<and> netints v = netints u"
    by (cases b) (auto simp: v_def set_universe_terminating_def flags_def ukey_def)
  show "ukey v = ukey u" "has_pap_data v = has_pap_data u" "netints v = netints u" using v by blast+
  show "b = kTerminateAndRemove \<Longrightarrow> termination_state v = kTerminatingAndRemoving"
    by (simp add: v_def set_universe_terminating_def)
  show "termination_state v = kTerminatingAndRemoving \<longleftrightarrow> b = kTerminateAndRemove \<or> termination_state u = kTerminatingAndRemoving"
    by (cases b) (auto simp: v_def set_universe_terminating_def)
  assume inv: "universe_inv L the_cid nm u"
  have "0 \<le> (if termination_state u = kNotTerminating then 0 else num_terminations_sent u)"
    using universe_inv_nonneg(1)[OF inv] by simp
  moreover have "\<forall>d \<in> set (map (set_unicast_dest_terminating b) (unicast_dests u)). 0 \<le> dest_terminations_sent d"
    using universe_inv_nonneg(2)[OF inv] set_unicast_dest_terminating_same(2) by auto
  ultimately show "universe_inv L the_cid nm v" by (rule universe_inv_dests[OF inv]) (use v in blast)+
qed

lemma map_ukey:
  fixes us vs :: "'tm source_universe list"
  assumes "map ukey vs = map ukey us"
  shows "descending vs = descending us" "count_active vs = count_active us" "length vs = length us"
proof -
  have m: "map universe_id ws = map fst (map ukey ws)" for ws :: "'tm source_universe list" by (simp add: ukey_def)
  have "descending ws \<longleftrightarrow> sorted_wrt (\<lambda>a b. b < a) (map universe_id ws)" for ws :: "'tm source_universe list"
    by (simp add: descending_def sorted_wrt_map)
  then show "descending vs = descending us" using assms by (simp only: m)
  have "IS_PART_OF_UNIVERSE_DISCOVERY = active \<circ> (ukey :: 'tm source_universe \<Rightarrow> _)" by (simp add: fun_eq_iff active_ukey)
  then have c: "count_active ws = int (length (filter active (map ukey ws)))" for ws :: "'tm source_universe list"
    by (simp add: count_active_def filter_map)
  show "count_active vs = count_active us" unfolding c assms ..
  show "length vs = length us" using assms by (rule map_eq_imp_length_eq)
qed

lemma set_source_terminating_spec:
  assumes "source_inv L s"
  shows "source_inv L (set_source_terminating s)" "terminating (set_source_terminating s)"
    "source_handle (set_source_terminating s) = source_handle s" "process_manually (set_source_terminating s) = process_manually s"
    "terminating s \<Longrightarrow> set_source_terminating s = s"
proof -
  let ?vs = "map (set_universe_terminating kTerminateAndRemove) (universes s)"
  note D = source_inv_D[OF assms]
  have k: "map ukey ?vs = map ukey (universes s)" by (simp add: set_universe_terminating_spec(2))
  have "\<forall>u \<in> set ?vs. universe_inv L (cid s) (source_name s) u \<and> termination_state u = kTerminatingAndRemoving"
  proof
    fix v assume "v \<in> set ?vs"
    then obtain u where u: "u \<in> set (universes s)" "v = set_universe_terminating kTerminateAndRemove u" by auto
    show "universe_inv L (cid s) (source_name s) v \<and> termination_state v = kTerminatingAndRemoving"
      unfolding u(2) using set_universe_terminating_spec(1)[OF D(2)[OF u(1)]] set_universe_terminating_spec(3)[OF refl] by blast
  qed
  then have "source_inv L (s\<lparr>terminating := True, universes := ?vs\<rparr>)"
    using D(1,3,4,6) map_ukey[OF k] by (simp add: source_inv_def all_removing_def)
  then show "source_inv L (set_source_terminating s)" using assms by (simp add: set_source_terminating_def)
qed (simp_all add: set_source_terminating_def)

section \<open>A tick of all sources\<close>

definition module_inv :: "acn_lib \<Rightarrow> 'tm source_module \<Rightarrow> bool" where
  "module_inv L M \<longleftrightarrow> distinct (map source_handle (sources M)) \<and> (\<forall>s \<in> set (sources M). source_inv L s)"

definition tracked :: "process_behavior \<Rightarrow> 'tm sacn_source \<Rightarrow> bool" where
  "tracked b s \<longleftrightarrow> process_manually s = (b = kProcessManualSources)"

text \<open>What is left to terminate in a source once it is set terminating.\<close>

definition ends_within :: "nat \<Rightarrow> 'tm sacn_source \<Rightarrow> bool" where
  "ends_within n s \<longleftrightarrow> budgets_below n (set_source_terminating s)"

text \<open>One source: what it becomes, and whether it stays.\<close>

definition next_source :: "acn_lib \<Rightarrow> process_behavior \<Rightarrow> bool \<Rightarrow> tick_mode \<Rightarrow> 'tm sacn_source \<Rightarrow> 'tm sacn_source \<Rightarrow> bool" where
  "next_source L b shutdown mode s s' \<longleftrightarrow> source_inv L s' \<and> source_handle s' = source_handle s \<and>
     process_manually s' = process_manually s \<and>
     (shutdown \<and> b = kProcessThreadedSources \<longrightarrow>
        terminating s' \<and> (\<forall>n. ends_within n s \<longrightarrow> ends_within (after_tick mode n) s'))"

lemma process_source_at_spec:
  assumes L: "acn_laws (acn E)" and inv: "module_inv (acn E) M" and i: "i < length (sources M)"
  shows "\<exists>M' c. process_source_at E b mode i M = Some (tracked b (sources M ! i), M', c) \<and>
    (if tracked b (sources M ! i)
     then \<exists>s' ss. M' = M\<lparr>sources := ss\<rparr> \<and> next_source (acn E) b (shutting_down M) mode (sources M ! i) s' \<and>
            ss = (if terminating s' \<and> universes s' = [] then remove_index i (sources M) else (sources M)[i := s'])
     else M' = M)"
proof (cases "tracked b (sources M ! i)")
  case False
  then show ?thesis by (simp add: process_source_at_def tracked_def Let_def)
next
  case True
  let ?s = "sources M ! i"
  have s: "source_inv (acn E) ?s" using inv i by (simp add: module_inv_def)
  define t where "t = (if \<not> (b = kProcessManualSources) \<and> shutting_down M then set_source_terminating ?s else ?s)"
  have t: "source_inv (acn E) t" "source_handle t = source_handle ?s" "process_manually t = process_manually ?s"
    using s set_source_terminating_spec[OF s] by (simp_all add: t_def)
  obtain s' c where p: "process_source E mode t = Some (s', c)" "source_inv (acn E) s'" "source_handle s' = source_handle t"
      "process_manually s' = process_manually t" "terminating s' = terminating t"
    using process_source_spec[OF L t(1)] by blast
  have down: "terminating s' \<and> (\<forall>n. ends_within n ?s \<longrightarrow> ends_within (after_tick mode n) s')"
    if "shutting_down M \<and> b = kProcessThreadedSources"
  proof -
    have tt: "t = set_source_terminating ?s" using that by (simp add: t_def)
    have ts: "terminating s'" using p(5) set_source_terminating_spec(2)[OF s] by (simp add: tt)
    have "ends_within (after_tick mode n) s'" if "ends_within n ?s" for n
      using that process_source_spec[OF L t(1), of mode n] p(1,5) ts set_source_terminating_spec(5)[OF p(2) ts]
      by (auto simp: ends_within_def tt)
    with ts show ?thesis by blast
  qed
  have "next_source (acn E) b (shutting_down M) mode ?s s'"
    using p t down by (simp add: next_source_def)
  moreover have "process_source_at E b mode i M =
      Some (True, M\<lparr>sources := (if terminating s' \<and> universes s' = [] then remove_index i (sources M) else (sources M)[i := s'])\<rparr>, c)"
  proof -
    have "remove_index i ((sources M)[i := s']) = remove_index i (sources M)" by (simp add: remove_index_def)
    then show ?thesis using True p(1) by (simp add: process_source_at_def tracked_def Let_def t_def)
  qed
  ultimately show ?thesis using True by auto
qed

lemma update_filter:
  "i < length xs \<Longrightarrow> P (xs ! i) \<Longrightarrow> P y \<Longrightarrow> filter (\<lambda>x. \<not> P x) (xs[i := y]) = filter (\<lambda>x. \<not> P x) xs"
  "i < length xs \<Longrightarrow> P (xs ! i) \<Longrightarrow> filter (\<lambda>x. \<not> P x) (remove_index i xs) = filter (\<lambda>x. \<not> P x) xs"
proof -
  have *: "filter (\<lambda>x. \<not> P x) xs = filter (\<lambda>x. \<not> P x) (take i xs) @ filter (\<lambda>x. \<not> P x) (drop (Suc i) xs)"
    if "i < length xs" "P (xs ! i)"
  proof -
    have "filter (\<lambda>x. \<not> P x) xs = filter (\<lambda>x. \<not> P x) (take i xs @ xs ! i # drop (Suc i) xs)"
      by (rule arg_cong[OF id_take_nth_drop[OF that(1)]])
    then show ?thesis using that(2) by simp
  qed
  show "i < length xs \<Longrightarrow> P (xs ! i) \<Longrightarrow> P y \<Longrightarrow> filter (\<lambda>x. \<not> P x) (xs[i := y]) = filter (\<lambda>x. \<not> P x) xs"
    using * by (simp add: upd_conv_take_nth_drop)
  show "i < length xs \<Longrightarrow> P (xs ! i) \<Longrightarrow> filter (\<lambda>x. \<not> P x) (remove_index i xs) = filter (\<lambda>x. \<not> P x) xs"
    using * by (simp add: remove_index_def)
qed

lemma module_inv_step:
  assumes "module_inv L M" "i < length (sources M)" "next_source L b sd mode (sources M ! i) s'"
    and "ss = (if gone then remove_index i (sources M) else (sources M)[i := s'])"
  shows "module_inv L (M\<lparr>sources := ss\<rparr>)"
proof -
  let ?xs = "sources M"
  have s': "source_inv L s'" "source_handle s' = source_handle (?xs ! i)" using assms(3) by (simp_all add: next_source_def)
  have "map source_handle (?xs[i := s']) = map source_handle ?xs"
    using s'(2) assms(2) by (simp add: map_update) (metis list_update_id nth_map)
  moreover have "distinct (map source_handle (remove_index i ?xs))"
    using assms(1) distinct_map[of source_handle ?xs] set_remove_index[of i ?xs]
    by (auto simp: module_inv_def remove_index_def distinct_map take_map[symmetric] drop_map[symmetric] set_take_disj_set_drop_if_distinct
        inj_on_subset)
  ultimately show ?thesis
    using assms(1,4) s'(1) set_remove_index[of i ?xs] set_update_subset_insert[of ?xs i s'] by (auto simp: module_inv_def)
qed

text \<open>
  What is left for the thread after a shutdown: the sources up to index \<open>i\<close> are still to be handled
  in this tick, the others have been.
\<close>

definition draining :: "process_behavior \<Rightarrow> tick_mode \<Rightarrow> nat \<Rightarrow> nat \<Rightarrow> 'tm source_module \<Rightarrow> bool" where
  "draining b mode n i M \<longleftrightarrow>
     (\<forall>j < length (sources M). tracked b (sources M ! j) \<longrightarrow>
        ends_within (if j < i then n else after_tick mode n) (sources M ! j) \<and> (i \<le> j \<longrightarrow> universes (sources M ! j) \<noteq> []))"

lemma draining_step:
  assumes d: "draining b mode n (Suc i) M" and i: "i < length (sources M)" and t: "tracked b (sources M ! i)"
    and s': "ends_within n (sources M ! i) \<longrightarrow> ends_within (after_tick mode n) s'" "terminating s'"
  shows "draining b mode n i
    (M\<lparr>sources := (if terminating s' \<and> universes s' = [] then remove_index i (sources M) else (sources M)[i := s'])\<rparr>)"
proof -
  let ?xs = "sources M"
  have old: "tracked b (?xs ! j) \<longrightarrow> ends_within (if j < i then n else after_tick mode n) (?xs ! j) \<and> (i \<le> j \<longrightarrow> universes (?xs ! j) \<noteq> [])"
    if "j < length ?xs" "j \<noteq> i" for j
    using d[unfolded draining_def, rule_format, OF that(1)] that(2) by (auto split: if_splits)
  have new: "ends_within (after_tick mode n) s'"
    using s'(1) d[unfolded draining_def, rule_format, OF i] t by simp
  show ?thesis
  proof (cases "universes s' = []")
    case False
    have "tracked b (?xs[i := s'] ! j) \<longrightarrow>
        ends_within (if j < i then n else after_tick mode n) (?xs[i := s'] ! j) \<and> (i \<le> j \<longrightarrow> universes (?xs[i := s'] ! j) \<noteq> [])"
      if "j < length ?xs" for j
      using old[OF that] new False that by (cases "j = i") simp_all
    then show ?thesis using False by (simp add: draining_def)
  next
    case True
    have "tracked b (remove_index i ?xs ! j) \<longrightarrow>
        ends_within (if j < i then n else after_tick mode n) (remove_index i ?xs ! j) \<and> (i \<le> j \<longrightarrow> universes (remove_index i ?xs ! j) \<noteq> [])"
      if "j < length ?xs - 1" for j
      using old[of j] old[of "Suc j"] that nth_remove_index[OF i that] by (cases "j < i") auto
    then show ?thesis using True s'(2) by (simp add: draining_def remove_index_length[OF i])
  qed
qed

lemma process_sources_loop_spec:
  assumes L: "acn_laws (acn E)"
  shows "module_inv (acn E) M \<Longrightarrow> i \<le> length (sources M) \<Longrightarrow>
   \<exists>M' c. process_sources_loop E b mode i k M calls = Some (k + length (filter (tracked b) (take i (sources M))), M', c) \<and>
     module_inv (acn E) M' \<and> shutting_down M' = shutting_down M \<and> thread_initialized M' = thread_initialized M \<and>
     filter (\<lambda>s. \<not> tracked b s) (sources M') = filter (\<lambda>s. \<not> tracked b s) (sources M) \<and>
     (shutting_down M \<and> b = kProcessThreadedSources \<and> draining b mode n i M \<longrightarrow> draining b mode n 0 M')"
proof (induction i arbitrary: k M calls)
  case (Suc i)
  let ?xs = "sources M"
  have i: "i < length ?xs" using Suc.prems(2) by simp
  have tk: "length (filter (tracked b) (take (Suc i) ?xs)) =
      length (filter (tracked b) (take i ?xs)) + (if tracked b (?xs ! i) then 1 else 0)"
    using i by (simp add: take_Suc_conv_app_nth)
  obtain M1 c1 where p: "process_source_at E b mode i M = Some (tracked b (?xs ! i), M1, c1)"
    and r: "if tracked b (?xs ! i)
       then \<exists>s' ss. M1 = M\<lparr>sources := ss\<rparr> \<and> next_source (acn E) b (shutting_down M) mode (?xs ! i) s' \<and>
              ss = (if terminating s' \<and> universes s' = [] then remove_index i ?xs else ?xs[i := s'])
       else M1 = M"
    using process_source_at_spec[OF L Suc.prems(1) i] by blast
  have m1: "module_inv (acn E) M1 \<and> i \<le> length (sources M1) \<and> take i (sources M1) = take i ?xs \<and>
      shutting_down M1 = shutting_down M \<and> thread_initialized M1 = thread_initialized M \<and>
      filter (\<lambda>s. \<not> tracked b s) (sources M1) = filter (\<lambda>s. \<not> tracked b s) ?xs \<and>
      (shutting_down M \<and> b = kProcessThreadedSources \<and> draining b mode n (Suc i) M \<longrightarrow> draining b mode n i M1)"
  proof (cases "tracked b (?xs ! i)")
    case False
    then have "M1 = M" using r by simp
    moreover have "draining b mode n i M" if "draining b mode n (Suc i) M"
    proof -
      have "tracked b (?xs ! j) \<longrightarrow> ends_within (if j < i then n else after_tick mode n) (?xs ! j) \<and> (i \<le> j \<longrightarrow> universes (?xs ! j) \<noteq> [])"
        if "j < length ?xs" for j
        using \<open>draining b mode n (Suc i) M\<close>[unfolded draining_def, rule_format, OF that] False by (cases "j = i") (auto split: if_splits)
      then show ?thesis by (simp add: draining_def)
    qed
    ultimately show ?thesis using Suc.prems(1) i by auto
  next
    case True
    then obtain s' ss where s': "M1 = M\<lparr>sources := ss\<rparr>" "next_source (acn E) b (shutting_down M) mode (?xs ! i) s'"
        "ss = (if terminating s' \<and> universes s' = [] then remove_index i ?xs else ?xs[i := s'])"
      using r by auto
    have ts: "tracked b s'" using s'(2) True by (simp add: next_source_def tracked_def)
    have inv: "module_inv (acn E) M1" unfolding s'(1) by (rule module_inv_step[OF Suc.prems(1) i s'(2,3)])
    have len: "i \<le> length ss" "take i ss = take i ?xs" using i by (auto simp: s'(3) remove_index_def)
    have fil: "filter (\<lambda>s. \<not> tracked b s) ss = filter (\<lambda>s. \<not> tracked b s) ?xs"
      using update_filter[where P = "tracked b" and xs = ?xs, OF i True] ts by (simp add: s'(3))
    have dr: "draining b mode n i M1" if "shutting_down M \<and> b = kProcessThreadedSources \<and> draining b mode n (Suc i) M"
      unfolding s'(1,3) using that s'(2) True i by (intro draining_step) (auto simp: next_source_def)
    show ?thesis using inv len fil dr unfolding s'(1) by auto
  qed
  have step: "process_sources_loop E b mode (Suc i) k M calls =
      process_sources_loop E b mode i (if tracked b (?xs ! i) then k + 1 else k) M1 (calls @ c1)"
    using p by simp
  obtain M2 c2 where r2: "process_sources_loop E b mode i (if tracked b (?xs ! i) then k + 1 else k) M1 (calls @ c1) =
      Some ((if tracked b (?xs ! i) then k + 1 else k) + length (filter (tracked b) (take i ?xs)), M2, c2)"
    "module_inv (acn E) M2" "shutting_down M2 = shutting_down M" "thread_initialized M2 = thread_initialized M"
    "filter (\<lambda>s. \<not> tracked b s) (sources M2) = filter (\<lambda>s. \<not> tracked b s) ?xs"
    "shutting_down M \<and> b = kProcessThreadedSources \<and> draining b mode n i M1 \<longrightarrow> draining b mode n 0 M2"
    using Suc.IH[of M1 "if tracked b (?xs ! i) then k + 1 else k" "calls @ c1"] m1 by (elim conjE) (simp only:, blast)
  have count: "(if tracked b (?xs ! i) then k + 1 else k) + length (filter (tracked b) (take i ?xs)) =
      k + length (filter (tracked b) (take (Suc i) ?xs))"
    unfolding tk by simp
  have "shutting_down M \<and> b = kProcessThreadedSources \<and> draining b mode n (Suc i) M \<longrightarrow> draining b mode n 0 M2"
    using r2(6) m1 by blast
  then show ?case unfolding step r2(1) count using r2(2-5) by blast
qed auto

lemma process_sources_spec:
  assumes "acn_laws (acn E)" "module_inv (acn E) M"
  shows "\<exists>M' c. process_sources E b mode M = Some (length (filter (tracked b) (sources M)), M', c) \<and>
     module_inv (acn E) M' \<and> shutting_down M' = shutting_down M \<and> thread_initialized M' = thread_initialized M \<and>
     filter (\<lambda>s. \<not> tracked b s) (sources M') = filter (\<lambda>s. \<not> tracked b s) (sources M) \<and>
     (shutting_down M \<and> b = kProcessThreadedSources \<and> (\<forall>s \<in> set (sources M). tracked b s \<longrightarrow> ends_within n s) \<longrightarrow>
        (\<forall>s \<in> set (sources M'). tracked b s \<longrightarrow> ends_within (after_tick mode n) s \<and> universes s \<noteq> []))"
proof -
  have "draining b mode n (length (sources M)) M" if "\<forall>s \<in> set (sources M). tracked b s \<longrightarrow> ends_within n s"
    using that by (simp add: draining_def)
  moreover have "\<forall>s \<in> set (sources M'). tracked b s \<longrightarrow> ends_within (after_tick mode n) s \<and> universes s \<noteq> []"
    if "draining b mode n 0 M'" for M' :: "'a source_module"
    using that by (auto simp: draining_def in_set_conv_nth)
  ultimately show ?thesis
    using process_sources_loop_spec[OF assms order_refl, of b mode 0 "[]" n] unfolding process_sources_def by (simp only: take_all order_refl add_0) blast
qed

end
