(* ===== verification/SourceCalls.thy ===== *)
theory SourceCalls
  imports SourcePool
begin

text \<open>
  The calls of the source API keep the invariant of the pool and never access memory outside a
  buffer. \<open>source_call\<close> is a call with what it depends on, \<open>exec_source\<close> its execution; the
  lemmas \<open>..._inv\<close> treat the functions of \<open>SourceApi\<close> one by one.
\<close>

section \<open>Changes of one universe and of one source\<close>

lemma index_where_D: "index_where P xs = Some i \<Longrightarrow> i < length xs \<and> P (xs ! i)"
  by (induction xs arbitrary: i) (auto split: if_splits)

lemma index_where_None: "index_where P xs = None \<Longrightarrow> x \<in> set xs \<Longrightarrow> \<not> P x"
  by (induction xs) (auto split: if_splits)

lemma put_source_inv:
  assumes "module_inv L M" "i < length (sources M)" "source_inv L s" "source_handle s = source_handle (sources M ! i)"
  shows "module_inv L (put_source i s M)"
proof -
  have "map source_handle ((sources M)[i := s]) = map source_handle (sources M)"
    using assms(2,4) by (simp add: map_update) (metis list_update_id nth_map)
  then show ?thesis
    using assms(1,3) set_update_subset_insert[of "sources M" i s] by (auto simp: module_inv_def put_source_def)
qed

lemma put_universe_inv:
  assumes inv: "source_inv L s" and j: "j < length (universes s)" and v: "universe_inv L (cid s) (source_name s) v"
    and k: "ukey v = ukey (universes s ! j)"
    and t: "termination_state (universes s ! j) = kTerminatingAndRemoving \<Longrightarrow> termination_state v = kTerminatingAndRemoving"
  shows "source_inv L (put_universe j v s)" "source_handle (put_universe j v s) = source_handle s"
proof -
  note D = source_inv_D[OF inv]
  have m: "map ukey ((universes s)[j := v]) = map ukey (universes s)"
    using k j by (simp add: map_update) (metis list_update_id nth_map)
  have "all_removing (put_universe j v s)" if "terminating s"
  proof -
    have "termination_state (universes s ! j) = kTerminatingAndRemoving" using D(5)[OF that] j by (simp add: all_removing_def)
    then show ?thesis
      using t D(5)[OF that] set_update_subset_insert[of "universes s" j v] by (auto simp: all_removing_def put_universe_def)
  qed
  then show "source_inv L (put_universe j v s)"
    using D(1-4,6) v map_ukey[OF m] set_update_subset_insert[of "universes s" j v]
    by (auto simp: source_inv_def put_universe_def)
  show "source_handle (put_universe j v s) = source_handle s" by (simp add: put_universe_def)
qed

lemma find_universe_D:
  assumes "find_universe h uni M = Some (i, j)"
  shows "i < length (sources M)" "j < length (universes (sources M ! i))" "source_handle (sources M ! i) = h"
    "universe_id (universes (sources M ! i) ! j) = uni"
    "termination_state (universes (sources M ! i) ! j) \<noteq> kTerminatingAndRemoving"
proof -
  have "get_source_index h M = Some i \<and> get_source_universe_index uni (sources M ! i) = Some j \<and>
      termination_state (universes (sources M ! i) ! j) \<noteq> kTerminatingAndRemoving"
    using assms by (auto simp: find_universe_def lookup_source_and_universe_def split: option.splits if_splits)
  then show "i < length (sources M)" "j < length (universes (sources M ! i))" "source_handle (sources M ! i) = h"
    "universe_id (universes (sources M ! i) ! j) = uni"
    "termination_state (universes (sources M ! i) ! j) \<noteq> kTerminatingAndRemoving"
    by (auto simp: get_source_index_def get_source_universe_index_def dest!: index_where_D)
qed

text \<open>A universe found by the API is changed: what is to be shown of the change.\<close>

lemma change_found:
  assumes "module_inv L M" "find_universe h uni M = Some (i, j)"
    and "universe_inv L (cid (sources M ! i)) (source_name (sources M ! i)) v" "ukey v = ukey (universes (sources M ! i) ! j)"
  shows "module_inv L (put_source i (put_universe j v (sources M ! i)) M)"
proof -
  note f = find_universe_D[OF assms(2)]
  have s: "source_inv L (sources M ! i)" using assms(1) f(1) by (simp add: module_inv_def)
  note p = put_universe_inv[OF s f(2) assms(3,4)]
  show ?thesis by (rule put_source_inv[OF assms(1) f(1) p]) (use f(5) in auto)
qed

lemma found_universe_inv:
  assumes "module_inv L M" "find_universe h uni M = Some (i, j)"
  shows "source_inv L (sources M ! i)" "ids_ok (cid (sources M ! i)) (source_name (sources M ! i))"
    "universe_inv L (cid (sources M ! i)) (source_name (sources M ! i)) (universes (sources M ! i) ! j)"
proof -
  note f = find_universe_D[OF assms(2)]
  show s: "source_inv L (sources M ! i)" using assms(1) f(1) by (simp add: module_inv_def)
  show "ids_ok (cid (sources M ! i)) (source_name (sources M ! i))" by (rule source_inv_D(1)[OF s])
  show "universe_inv L (cid (sources M ! i)) (source_name (sources M ! i)) (universes (sources M ! i) ! j)"
    using source_inv_D(2)[OF s] f(2) by simp
qed

section \<open>Settings\<close>

lemma universe_inv_buffers:
  assumes "universe_inv L the_cid nm u" "universe_id v = universe_id u" "next_seq_num v = next_seq_num u" "flags v = flags u"
    "num_terminations_sent v = num_terminations_sent u" "unicast_dests v = unicast_dests u"
    "buf_ok L the_cid nm' (priority v) (universe_id u) (send_preview v) 0 (next_seq_num u) (level_send_buf v)"
    "buf_ok L the_cid nm' (priority v) (universe_id u) (send_preview v) 0xdd (next_seq_num u) (pap_send_buf v)"
  shows "universe_inv L the_cid nm' v"
  using assms(1,7,8) unfolding universe_inv_def assms(2-6) by blast

lemma universe_inv_D:
  assumes "universe_inv L the_cid nm u"
  shows "buf_ok L the_cid nm (priority u) (universe_id u) (send_preview u) 0 (next_seq_num u) (level_send_buf u)"
    "buf_ok L the_cid nm (priority u) (universe_id u) (send_preview u) 0xdd (next_seq_num u) (pap_send_buf u)"
    "flags u = (False, False, False, False)" "UNIVERSE_ID_VALID (universe_id u)"
  using assms by (simp_all add: universe_inv_def)

lemma suppression_inv: "universe_inv L the_cid nm (reset_transmission_suppression E s b u) = universe_inv L the_cid nm u"
  "ukey (reset_transmission_suppression E s b u) = ukey u"
  by (rule core_cong(2)) (simp_all add: ukey_def)

lemma set_universe_priority_inv:
  assumes "acn_laws L" "ids_ok the_cid nm" "universe_inv L the_cid nm u"
  shows "universe_inv L the_cid nm (set_universe_priority E s p u)" "ukey (set_universe_priority E s p u) = ukey u"
proof -
  show "universe_inv L the_cid nm (set_universe_priority E s p u)"
    unfolding set_universe_priority_def suppression_inv
    by (rule universe_inv_buffers[OF assms(3)])
       (use buf_ok_priority[OF assms(1,2)] universe_inv_D[OF assms(3)] in \<open>auto simp: flags_def\<close>)
qed (simp add: set_universe_priority_def suppression_inv, simp add: ukey_def)

lemma set_preview_flag_inv:
  assumes "acn_laws L" "ids_ok the_cid nm" "universe_inv L the_cid nm u"
  shows "universe_inv L the_cid nm (set_preview_flag E s p u)" "ukey (set_preview_flag E s p u) = ukey u"
proof -
  show "universe_inv L the_cid nm (set_preview_flag E s p u)"
    unfolding set_preview_flag_def suppression_inv
    by (rule universe_inv_buffers[OF assms(3)])
       (use buf_ok_preview[OF assms(1,2)] universe_inv_D[OF assms(3)] in \<open>auto simp: flags_def\<close>)
qed (simp add: set_preview_flag_def suppression_inv, simp add: ukey_def)

lemma ids_ok_name: "ids_ok the_cid nm \<Longrightarrow> ids_ok the_cid (name_field nm')"
  by (simp add: ids_ok_def name_field_idem)

lemma set_source_name_inv:
  assumes L: "acn_laws L" and inv: "source_inv L s" and n: "length nm' \<le> 63"
  shows "source_inv L (set_source_name E nm' s)" "source_handle (set_source_name E nm' s) = source_handle s"
proof -
  note D = source_inv_D[OF inv]
  define s1 where "s1 = s\<lparr>source_name := strncpy_bytes 64 nm', universe_discovery_send_buf := put_name nm' (universe_discovery_send_buf s)\<rparr>"
  define rename where "rename u = reset_transmission_suppression E s1 kResetLevelAndPap
    (u\<lparr>level_send_buf := put_name nm' (level_send_buf u), pap_send_buf := put_name nm' (pap_send_buf u)\<rparr>)" for u
  have eq: "set_source_name E nm' s = s1\<lparr>universes := map rename (universes s)\<rparr>"
    by (simp add: set_source_name_def s1_def rename_def Let_def)
  have u: "universe_inv L (cid s) (name_field nm') (rename u)" if "u \<in> set (universes s)" for u
    unfolding rename_def suppression_inv
    by (rule universe_inv_buffers[OF D(2)[OF that]])
       (use buf_ok_name[OF L D(1) _ n] universe_inv_D[OF D(2)[OF that]] in \<open>auto simp: flags_def\<close>)
  have k: "map ukey (map rename (universes s)) = map ukey (universes s)"
    by (simp add: rename_def suppression_inv) (simp add: ukey_def)
  have t: "termination_state (rename u) = termination_state u" for u by (simp add: rename_def)
  show "source_inv L (set_source_name E nm' s)"
    using ids_ok_name[OF D(1)] u D(3-5) map_ukey[OF k] t discovery_ok_name[OF L D(1) D(6) n]
    unfolding source_inv_def eq by (auto simp: s1_def strncpy_name[OF n] all_removing_def)
  show "source_handle (set_source_name E nm' s) = source_handle s" by (simp add: eq s1_def)
qed

section \<open>Levels and priorities\<close>

lemma cancel_termination_same:
  "universe_inv L the_cid nm u \<Longrightarrow> universe_inv L the_cid nm (cancel_termination_if_not_removing u)"
  "ukey (cancel_termination_if_not_removing u) = ukey u"
  "termination_state u = kTerminatingAndRemoving \<Longrightarrow> cancel_termination_if_not_removing u = u"
  "universe_id (cancel_termination_if_not_removing u) = universe_id u" "priority (cancel_termination_if_not_removing u) = priority u"
  "send_preview (cancel_termination_if_not_removing u) = send_preview u"
  "next_seq_num (cancel_termination_if_not_removing u) = next_seq_num u"
  "flags (cancel_termination_if_not_removing u) = flags u"
  "level_send_buf (cancel_termination_if_not_removing u) = level_send_buf u"
  "pap_send_buf (cancel_termination_if_not_removing u) = pap_send_buf u"
  "has_pap_data (cancel_termination_if_not_removing u) = has_pap_data u"
  "send_unicast_only (cancel_termination_if_not_removing u) = send_unicast_only u"
  by (auto simp: cancel_termination_if_not_removing_def universe_inv_def ukey_def flags_def reset_unicast_dest_def)

text \<open>New levels in the buffer, zeroed where the priority is zero.\<close>

lemma store_levels_inv:
  assumes L: "acn_laws L" "ids_ok the_cid nm" and u: "universe_inv L the_cid nm u" and n: "n \<le> 512" "n \<le> length ls"
  shows "\<exists>buf. update_send_buf_data L (level_send_buf u) ls (of_nat n) = Some buf \<and>
    (\<forall>v. v = (let w = u\<lparr>level_send_buf := buf, has_level_data := True\<rparr> in if has_pap_data w then zero_levels_where_pap_is_zero L w else w) \<longrightarrow>
      universe_inv L the_cid nm v \<and> universe_id v = universe_id u \<and> termination_state v = termination_state u \<and>
      send_unicast_only v = send_unicast_only u \<and> has_level_data v)"
proof -
  note D = universe_inv_D[OF u]
  obtain buf where buf: "update_send_buf_data L (level_send_buf u) ls (of_nat n) = Some buf"
      "buf_ok L the_cid nm (priority u) (universe_id u) (send_preview u) 0 (next_seq_num u) buf"
    using buf_ok_data[OF L D(1) n] by blast
  define w where "w = u\<lparr>level_send_buf := buf, has_level_data := True\<rparr>"
  have w: "universe_inv L the_cid nm w"
    by (rule universe_inv_buffers[OF u]) (use buf(2) D in \<open>simp_all add: w_def flags_def\<close>)
  have z: "universe_inv L the_cid nm (zero_levels_where_pap_is_zero L w)"
  proof (rule universe_inv_buffers[OF w])
    show "buf_ok L the_cid nm (priority (zero_levels_where_pap_is_zero L w)) (universe_id w) (send_preview (zero_levels_where_pap_is_zero L w)) 0
        (next_seq_num w) (level_send_buf (zero_levels_where_pap_is_zero L w))"
      using zero_levels_buf_ok[OF L universe_inv_D(1)[OF w]] by (simp add: zero_levels_where_pap_is_zero_def Let_def)
  qed (use universe_inv_D(2)[OF w] in \<open>simp_all add: zero_levels_where_pap_is_zero_def Let_def flags_def\<close>)
  have same: "universe_id (zero_levels_where_pap_is_zero L w) = universe_id u"
    "termination_state (zero_levels_where_pap_is_zero L w) = termination_state u"
    "send_unicast_only (zero_levels_where_pap_is_zero L w) = send_unicast_only u" "has_level_data (zero_levels_where_pap_is_zero L w)"
    by (simp_all add: zero_levels_where_pap_is_zero_def Let_def w_def)
  show ?thesis
    using buf(1) w z same unfolding w_def[symmetric] Let_def by (intro exI[of _ buf]) (auto simp: w_def)
qed

text \<open>The universe at \<open>j\<close> of a source becomes active, or stays what it was.\<close>

lemma activate_inv:
  assumes inv: "source_inv L s" and j: "j < length (universes s)" and v: "universe_inv L (cid s) (source_name s) v"
    and same: "universe_id v = universe_id (universes s ! j)"
    and t: "\<not> terminating s"
  shows "source_inv L (s\<lparr>universes := (universes s)[j := v], num_active_universes := num_active_universes s -
      one_if (IS_PART_OF_UNIVERSE_DISCOVERY (universes s ! j)) + one_if (IS_PART_OF_UNIVERSE_DISCOVERY v)\<rparr>)"
proof -
  note D = source_inv_D[OF inv]
  show ?thesis
    using D(1,2,4,6) v t descending_update[OF D(3) j same] count_active_update[OF j, of v] set_update_subset_insert[of "universes s" j v]
    by (auto simp: source_inv_def)
qed

lemma state_update_levels_inv:
  assumes L: "acn_laws (acn E)" and inv: "source_inv (acn E) s" and j: "j < length (universes s)" and t: "\<not> terminating s"
    and n: "n \<le> 512" "n \<le> length ls"
  shows "\<exists>s'. state_update_levels E ls n j s = Some s' \<and> source_inv (acn E) s' \<and> source_handle s' = source_handle s"
proof (cases "n = 0")
  case True
  then show ?thesis using inv by (simp add: state_update_levels_def)
next
  case False
  note D = source_inv_D[OF inv]
  let ?u = "universes s ! j"
  define c where "c = cancel_termination_if_not_removing ?u"
  have u: "universe_inv (acn E) (cid s) (source_name s) ?u" using D(2) j by simp
  have c: "universe_inv (acn E) (cid s) (source_name s) c" unfolding c_def by (rule cancel_termination_same(1)[OF u])
  obtain buf where buf: "update_send_buf_data (acn E) (level_send_buf c) ls (of_nat n) = Some buf"
    and spec: "\<And>v. v = (let w = c\<lparr>level_send_buf := buf, has_level_data := True\<rparr> in if has_pap_data w then zero_levels_where_pap_is_zero (acn E) w else w) \<Longrightarrow>
      universe_inv (acn E) (cid s) (source_name s) v \<and> universe_id v = universe_id c \<and> termination_state v = termination_state c \<and>
      send_unicast_only v = send_unicast_only c \<and> has_level_data v"
    using store_levels_inv[OF L D(1) c n] by blast
  define v where "v = (let w = c\<lparr>level_send_buf := buf, has_level_data := True\<rparr> in if has_pap_data w then zero_levels_where_pap_is_zero (acn E) w else w)"
  define r where "r = reset_transmission_suppression E s kResetLevel v"
  have r: "universe_inv (acn E) (cid s) (source_name s) r" "universe_id r = universe_id ?u"
    "send_unicast_only r = send_unicast_only ?u" "has_level_data r"
    using spec[OF v_def] by (simp_all add: r_def suppression_inv c_def cancel_termination_same)
  let ?s' = "s\<lparr>universes := (universes s)[j := r], num_active_universes := num_active_universes s -
      one_if (IS_PART_OF_UNIVERSE_DISCOVERY ?u) + one_if (IS_PART_OF_UNIVERSE_DISCOVERY r)\<rparr>"
  have count: "(if \<not> IS_PART_OF_UNIVERSE_DISCOVERY ?u \<and> IS_PART_OF_UNIVERSE_DISCOVERY r then num_active_universes s + 1 else num_active_universes s) =
      num_active_universes s - one_if (IS_PART_OF_UNIVERSE_DISCOVERY ?u) + one_if (IS_PART_OF_UNIVERSE_DISCOVERY r)"
    using r(3,4) by (auto simp: one_if_def IS_PART_OF_UNIVERSE_DISCOVERY_def)
  have "state_update_levels E ls n j s = Some (s\<lparr>universes := (universes s)[j := r],
      num_active_universes := (if \<not> IS_PART_OF_UNIVERSE_DISCOVERY ?u \<and> IS_PART_OF_UNIVERSE_DISCOVERY r
        then num_active_universes s + 1 else num_active_universes s)\<rparr>)"
    using False buf by (simp add: state_update_levels_def Let_def c_def[symmetric] r_def v_def)
  then have "state_update_levels E ls n j s = Some ?s'" unfolding count .
  moreover have "source_inv (acn E) ?s'" by (rule activate_inv[OF inv j r(1,2) t])
  ultimately show ?thesis by simp
qed

lemma state_update_pap_inv:
  assumes L: "acn_laws (acn E)" and inv: "source_inv (acn E) s" and j: "j < length (universes s)" and n: "n \<le> 512" "n \<le> length ps"
  shows "\<exists>s'. state_update_pap E ps n j s = Some s' \<and> source_inv (acn E) s' \<and> source_handle s' = source_handle s \<and>
    terminating s' = terminating s \<and> length (universes s') = length (universes s)"
proof (cases "n = 0")
  case True
  then show ?thesis using inv by (simp add: state_update_pap_def)
next
  case False
  note D = source_inv_D[OF inv]
  let ?u = "universes s ! j"
  have u: "universe_inv (acn E) (cid s) (source_name s) ?u" using D(2) j by simp
  note U = universe_inv_D[OF u]
  obtain buf where buf: "update_send_buf_data (acn E) (pap_send_buf ?u) ps (of_nat n) = Some buf"
      "buf_ok (acn E) (cid s) (source_name s) (priority ?u) (universe_id ?u) (send_preview ?u) 0xdd (next_seq_num ?u) buf"
    using buf_ok_data[OF L D(1) U(2) n] by blast
  define v where "v = ?u\<lparr>pap_send_buf := buf, has_pap_data := True\<rparr>"
  define r where "r = reset_transmission_suppression E s kResetPap v"
  have "universe_inv (acn E) (cid s) (source_name s) v"
    by (rule universe_inv_buffers[OF u]) (use buf(2) U in \<open>simp_all add: v_def flags_def\<close>)
  then have r: "universe_inv (acn E) (cid s) (source_name s) r" "ukey r = ukey ?u" "termination_state r = termination_state ?u"
    by (simp_all add: r_def suppression_inv) (simp_all add: v_def ukey_def)
  have "state_update_pap E ps n j s = Some (put_universe j r s)"
    using False buf(1) by (simp add: state_update_pap_def Let_def r_def v_def put_universe_def)
  moreover have "source_inv (acn E) (put_universe j r s)" by (rule put_universe_inv(1)[OF inv j r(1,2)]) (simp add: r(3))
  ultimately show ?thesis by (simp add: put_universe_def)
qed

lemma update_levels_and_or_pap_inv:
  assumes L: "acn_laws (acn E)" and inv: "source_inv (acn E) s" and j: "j < length (universes s)" and t: "\<not> terminating s"
    and n: "n \<le> 512" "\<forall>xs. ls = Some xs \<longrightarrow> n \<le> length xs" and m: "m \<le> 512" "\<forall>xs. ps = Some xs \<longrightarrow> m \<le> length xs"
  shows "\<exists>s'. update_levels_and_or_pap E ls n ps m j s = Some s' \<and> source_inv (acn E) s' \<and> source_handle s' = source_handle s"
proof -
  obtain s1 where s1: "(case ps of None \<Rightarrow> Some s | Some ps \<Rightarrow> state_update_pap E ps m j s) = Some s1" "source_inv (acn E) s1"
      "source_handle s1 = source_handle s" "terminating s1 = terminating s" "length (universes s1) = length (universes s)"
    using state_update_pap_inv[OF L inv j m(1)] m(2) inv by (cases ps) auto
  have j1: "j < length (universes s1)" "\<not> terminating s1" using s1 j t by simp_all
  show ?thesis
    using state_update_levels_inv[OF L s1(2) j1 n(1)] n(2) s1 by (cases ls) (auto simp: update_levels_and_or_pap_def)
qed

section \<open>Adding\<close>

lemma add_sacn_source_inv:
  assumes L: "acn_laws (acn (tick_env V))" and inv: "module_inv (acn (tick_env V)) M"
    and c: "length (config_cid config) = 16" "length (config_name config) \<le> 63"
  shows "\<exists>res M'. add_sacn_source V h config M = Some (res, M') \<and> module_inv (acn (tick_env V)) M'"
proof (cases "h = kSacnSourceInvalid \<or> get_source_index h M \<noteq> None \<or> \<not> has_room V (length (sources M)) \<or> \<not> alloc_ok V")
  case True
  then show ?thesis using inv init_discovery_layout[OF L c(1)] by (auto simp: add_sacn_source_def Let_def)
next
  case False
  define buf where "buf = discovery_buf (acn (tick_env V)) (config_cid config) (name_field (config_name config)) 0 0 0 (replicate 1024 0)"
  have b: "init_discovery_send_buf (acn (tick_env V)) (config_cid config) (config_name config) = Some buf"
    unfolding buf_def by (rule init_discovery_layout[OF L c(1)])
  obtain s where s: "add_sacn_source V h config M = Some (kEtcPalErrOk, M\<lparr>sources := sources M @ [s]\<rparr>)"
      "source_handle s = h" "cid s = config_cid config" "source_name s = name_field (config_name config)" "universes s = []"
      "num_active_universes s = 0" "universe_discovery_send_buf s = buf" "\<not> terminating s"
    using False by (simp add: add_sacn_source_def b Let_def strncpy_name[OF c(2)])
  have "discovery_ok (acn (tick_env V)) (cid s) (source_name s) buf"
    unfolding discovery_ok_def buf_def s(3,4) by (intro exI[of _ 0] exI[of _ 0] exI[of _ 0] exI[of _ "replicate 1024 0"]) simp
  then have "source_inv (acn (tick_env V)) s"
    using c(1) s by (simp add: source_inv_def ids_ok_def name_field_idem descending_def count_active_def)
  moreover have "h \<notin> source_handle ` set (sources M)"
    using False index_where_None[of "\<lambda>s. source_handle s = h" "sources M"] by (auto simp: get_source_index_def)
  ultimately show ?thesis using s(1,2) inv by (simp add: module_inv_def)
qed

lemma add_source_netints_same:
  "add_source_netints room ns s = (res, s') \<Longrightarrow> \<exists>xs. s' = s\<lparr>source_netints := xs\<rparr>"
proof (induction ns arbitrary: s)
  case Nil
  then have "s' = s\<lparr>source_netints := source_netints s\<rparr>" by simp
  then show ?case ..
next
  case (Cons n ns)
  obtain r1 s1 where a: "add_sacn_source_netint room n s = (r1, s1)" by (metis surj_pair)
  have "\<exists>xs. s1 = s\<lparr>source_netints := xs\<rparr>"
    using a by (auto simp: add_sacn_source_netint_def split: option.splits if_splits intro: exI[of _ "source_netints s"])
  then obtain xs where xs: "s1 = s\<lparr>source_netints := xs\<rparr>" by blast
  show ?case
  proof (cases "r1 = kEtcPalErrOk")
    case True
    then have "add_source_netints room ns s1 = (res, s')" using Cons.prems a by simp
    then obtain ys where "s' = s1\<lparr>source_netints := ys\<rparr>" using Cons.IH by blast
    then show ?thesis unfolding xs by auto
  next
    case False
    then have "s' = s1" using Cons.prems a by simp
    then show ?thesis using xs by blast
  qed
qed

lemma netints_inv: "source_inv L (s\<lparr>source_netints := xs\<rparr>) = source_inv L s"
  by (simp add: source_inv_def all_removing_def)

lemma add_unicast_dests_spec:
  "add_unicast_dests room as u = (res, v) \<Longrightarrow> universe_inv L the_cid nm u \<Longrightarrow>
   universe_inv L the_cid nm v \<and> ukey v = ukey u \<and> termination_state v = termination_state u"
proof (induction "as" arbitrary: u)
  case (Cons a as)
  obtain r1 u1 where d: "add_sacn_unicast_dest room a u = (r1, u1)" by (metis surj_pair)
  have u1: "universe_inv L the_cid nm u1 \<and> ukey u1 = ukey u \<and> termination_state u1 = termination_state u"
    using d Cons.prems(2)
    by (auto simp: add_sacn_unicast_dest_def new_unicast_dest_def universe_inv_def ukey_def flags_def split: if_splits)
  then show ?case using Cons d by (auto split: if_splits)
qed simp

lemma new_universe_inv:
  assumes L: "acn_laws (acn (tick_env V))" and ids: "ids_ok (cid s) (source_name s)" and v: "UNIVERSE_ID_VALID (config_universe config)"
  shows "\<exists>u. new_universe V config s = Some u \<and> universe_inv (acn (tick_env V)) (cid s) (source_name s) u \<and>
    ukey u = (config_universe config, False, config_send_unicast_only config) \<and> termination_state u = kNotTerminating"
proof -
  obtain lb where lb: "init_sacn_data_send_buf (acn (tick_env V)) (replicate 638 0) 0 (cid s) (takeWhile (\<lambda>c. c \<noteq> 0) (source_name s))
      (config_priority config) (config_universe config) (config_sync_universe config) (config_send_preview config) = Some lb"
    "buf_ok (acn (tick_env V)) (cid s) (source_name s) (config_priority config) (config_universe config) (config_send_preview config) 0 0 lb"
    using init_buf_ok[OF L ids] by blast
  obtain pb where pb: "init_sacn_data_send_buf (acn (tick_env V)) (replicate 638 0) 0xdd (cid s) (takeWhile (\<lambda>c. c \<noteq> 0) (source_name s))
      (config_priority config) (config_universe config) (config_sync_universe config) (config_send_preview config) = Some pb"
    "buf_ok (acn (tick_env V)) (cid s) (source_name s) (config_priority config) (config_universe config) (config_send_preview config) 0xdd 0 pb"
    using init_buf_ok[OF L ids] by blast
  show ?thesis
    using lb pb v by (simp add: new_universe_def Let_def universe_inv_def ukey_def flags_def)
qed

lemma insert_index_le: "insert_index uni us \<le> length us"
  by (induction us) auto

lemma insert_descending:
  assumes d: "descending us" and new: "\<forall>u \<in> set us. universe_id u \<noteq> universe_id v"
  shows "descending (take (insert_index (universe_id v) us) us @ v # drop (insert_index (universe_id v) us) us)"
  using assms
proof (induction us)
  case (Cons u us)
  have d: "descending us" "\<forall>w \<in> set us. universe_id w < universe_id u" using Cons.prems(1) by (simp_all add: descending_def)
  show ?case
  proof (cases "universe_id u > universe_id v")
    case True
    have "descending (take (insert_index (universe_id v) us) us @ v # drop (insert_index (universe_id v) us) us)"
      using Cons.IH[OF d(1)] Cons.prems(2) by simp
    moreover have "\<forall>w \<in> set (take (insert_index (universe_id v) us) us @ v # drop (insert_index (universe_id v) us) us). universe_id w < universe_id u"
      using True d(2) by (auto dest: in_set_takeD in_set_dropD)
    ultimately show ?thesis using True by (simp add: descending_def)
  next
    case False
    then have "universe_id u < universe_id v" using Cons.prems(2) by (metis linorder_neqE list.set_intros(1))
    then show ?thesis using False d Cons.prems(1) by (auto simp: descending_def)
  qed
qed (simp add: descending_def)

lemma add_sacn_source_universe_inv:
  assumes L: "acn_laws (acn (tick_env V))" and inv: "source_inv (acn (tick_env V)) s" and t: "\<not> terminating s"
    and v: "UNIVERSE_ID_VALID (config_universe config)" and new: "\<forall>u \<in> set (universes s). universe_id u \<noteq> config_universe config"
  shows "\<exists>res j s'. add_sacn_source_universe V config s = Some (res, j, s') \<and> source_inv (acn (tick_env V)) s' \<and>
    source_handle s' = source_handle s \<and> (res = kEtcPalErrOk \<longrightarrow> j < length (universes s'))"
proof (cases "universe_count_max s \<noteq> kSacnSourceInfiniteUniverses \<and> length (universes s) \<ge> universe_count_max s \<or>
    \<not> has_room V (length (universes s))")
  case True
  then show ?thesis using inv by (auto simp: add_sacn_source_universe_def)
next
  case False
  note D = source_inv_D[OF inv]
  obtain u where u: "new_universe V config s = Some u" "universe_inv (acn (tick_env V)) (cid s) (source_name s) u"
      "ukey u = (config_universe config, False, config_send_unicast_only config)" "termination_state u = kNotTerminating"
    using new_universe_inv[OF L D(1) v] by blast
  obtain r1 u1 where d: "(if alloc_ok V then add_unicast_dests (has_room V) (config_unicast_destinations config) u else (kEtcPalErrNoMem, u)) = (r1, u1)"
    by (metis surj_pair)
  have u1: "universe_inv (acn (tick_env V)) (cid s) (source_name s) u1" "ukey u1 = ukey u"
    using d add_unicast_dests_spec[OF _ u(2)] u(2) by (auto split: if_splits)
  obtain r2 ns where n: "(if r1 = kEtcPalErrOk then initialize_netints V (config_universe config) else (r1, [])) = (r2, ns)"
    by (metis surj_pair)
  define w where "w = u1\<lparr>netints := ns\<rparr>"
  have w: "universe_inv (acn (tick_env V)) (cid s) (source_name s) w" "ukey w = ukey u"
    using u1 by (simp_all add: w_def universe_inv_def ukey_def flags_def)
  have wid: "universe_id w = config_universe config" "\<not> has_level_data w" using w(2) u(3) by (simp_all add: ukey_def)
  let ?at = "insert_index (config_universe config) (universes s)"
  let ?us = "take ?at (universes s) @ w # drop ?at (universes s)"
  have eq: "add_sacn_source_universe V config s =
      Some (if r2 = kEtcPalErrOk then (kEtcPalErrOk, ?at, s\<lparr>universes := ?us\<rparr>) else (r2, ?at, s))"
    using False u(1) d n by (auto simp: add_sacn_source_universe_def Let_def w_def)
  have "descending ?us" using insert_descending[OF D(3), of w] new by (simp add: wid)
  moreover have "count_active ?us = count_active (universes s)"
  proof -
    have "\<not> IS_PART_OF_UNIVERSE_DISCOVERY w" using wid(2) by (simp add: IS_PART_OF_UNIVERSE_DISCOVERY_def)
    then have "filter IS_PART_OF_UNIVERSE_DISCOVERY ?us = filter IS_PART_OF_UNIVERSE_DISCOVERY (take ?at (universes s) @ drop ?at (universes s))"
      unfolding filter_append by simp
    then show ?thesis by (simp only: count_active_def append_take_drop_id)
  qed
  moreover have "\<forall>x \<in> set ?us. universe_inv (acn (tick_env V)) (cid s) (source_name s) x"
    using D(2) w(1) by (auto dest: in_set_takeD in_set_dropD)
  ultimately have "source_inv (acn (tick_env V)) (s\<lparr>universes := ?us\<rparr>)"
    using D(1,4,6) t by (simp add: source_inv_def)
  moreover have "?at < Suc (length (universes s))" using insert_index_le[of "config_universe config" "universes s"] by simp
  ultimately show ?thesis unfolding eq using inv by simp
qed

section \<open>The calls\<close>

lemma descending_distinct: "descending us \<Longrightarrow> i < length us \<Longrightarrow> j < length us \<Longrightarrow> universe_id (us ! i) = universe_id (us ! j) \<Longrightarrow> i = j"
  using sorted_wrt_nth_less[of "\<lambda>u v. universe_id v < universe_id u" us] unfolding descending_def
  by (metis linorder_neqE_nat order_less_irrefl)

text \<open>A universe being removed is taken out at once when it is added again.\<close>

lemma finish_removed_inv:
  assumes inv: "source_inv L s" and j: "j < length (universes s)" and r: "termination_state (universes s ! j) = kTerminatingAndRemoving"
    and t: "\<not> terminating s"
  shows "source_inv L (finish_source_universe_termination j s)" "source_handle (finish_source_universe_termination j s) = source_handle s"
    "\<not> terminating (finish_source_universe_termination j s)"
    "\<forall>u \<in> set (universes (finish_source_universe_termination j s)). universe_id u \<noteq> universe_id (universes s ! j)"
proof -
  note D = source_inv_D[OF inv]
  have nn: "dests_nonneg (unicast_dests (universes s ! j))" using shape_nonneg[OF universe_inv_shape[OF D(2)]] j by simp
  note f = finish_source_universe_termination_spec[OF j nn]
  note id = ident_D[OF f(1)]
  note us = f(3)[OF r]
  show "source_inv L (finish_source_universe_termination j s)"
    using D(1,2,4,6) t f(2) descending_remove[OF D(3)] count_active_remove[OF j] set_remove_index[of j "universes s"]
    unfolding source_inv_def id us by auto
  show "source_handle (finish_source_universe_termination j s) = source_handle s" "\<not> terminating (finish_source_universe_termination j s)"
    using id t by simp_all
  show "\<forall>u \<in> set (universes (finish_source_universe_termination j s)). universe_id u \<noteq> universe_id (universes s ! j)"
  proof
    fix u assume "u \<in> set (universes (finish_source_universe_termination j s))"
    then obtain k where k: "k < length (remove_index j (universes s))" "u = remove_index j (universes s) ! k"
      unfolding us by (auto simp: in_set_conv_nth)
    then have k': "k < length (universes s) - 1" using remove_index_length[OF j] by simp
    have "(if k < j then k else Suc k) < length (universes s)" "(if k < j then k else Suc k) \<noteq> j" using k' j by auto
    then have "universe_id (universes s ! (if k < j then k else Suc k)) \<noteq> universe_id (universes s ! j)"
      using descending_distinct[OF D(3) _ j] by blast
    then show "universe_id u \<noteq> universe_id (universes s ! j)" unfolding k(2) nth_remove_index[OF j k'] by (cases "k < j") simp_all
  qed
qed

lemma sacn_source_add_universe_inv:
  assumes L: "acn_laws (acn (tick_env V))" and inv: "module_inv (acn (tick_env V)) M"
  shows "\<exists>res M'. sacn_source_add_universe V h config M = Some (res, M') \<and> module_inv (acn (tick_env V)) M'"
proof (cases "\<not> is_initialized V \<or> (h = kSacnSourceInvalid \<or> \<not> UNIVERSE_ID_VALID (config_universe config) \<or>
    config_sync_universe config \<noteq> 0 \<and> \<not> UNIVERSE_ID_VALID (config_sync_universe config) \<or>
    list_ex (ip_is_invalid V) (config_unicast_destinations config)) \<or> \<not> lock_taken V")
  case True
  then show ?thesis using inv by (auto simp: sacn_source_add_universe_def)
next
  case ok: False
  show ?thesis
  proof (cases "get_source_index h M")
    case None
    then show ?thesis using ok inv by (auto simp: sacn_source_add_universe_def)
  next
    case (Some i)
    let ?s = "sources M ! i"
    have i: "i < length (sources M)" using Some by (auto simp: get_source_index_def dest: index_where_D)
    have s: "source_inv (acn (tick_env V)) ?s" using inv i by (simp add: module_inv_def)
    show ?thesis
    proof (cases "terminating ?s")
      case True
      then show ?thesis using ok inv Some by (auto simp: sacn_source_add_universe_def Let_def)
    next
      case t: False
      define r where "r = (case get_source_universe_index (config_universe config) ?s of
          None \<Rightarrow> (kEtcPalErrOk, ?s)
        | Some j \<Rightarrow> if termination_state (universes ?s ! j) = kTerminatingAndRemoving
                   then (kEtcPalErrOk, finish_source_universe_termination j ?s) else (kEtcPalErrExists, ?s))"
      obtain res s1 where rs: "r = (res, s1)" by (metis surj_pair)
      have eq: "sacn_source_add_universe V h config M = (if res \<noteq> kEtcPalErrOk then Some (res, M)
          else do {
            (res, j, s) \<leftarrow> add_sacn_source_universe V config s1;
            let (res, s) = (if res = kEtcPalErrOk then add_source_netints (has_room V) (netints (universes s ! j)) s else (res, s));
            Some (res, put_source i s M)
          })"
        using ok Some t rs by (auto simp: sacn_source_add_universe_def Let_def r_def)
      show ?thesis
      proof (cases "res = kEtcPalErrOk")
        case False
        then show ?thesis using eq inv by simp
      next
        case True
        have s1: "source_inv (acn (tick_env V)) s1 \<and> source_handle s1 = source_handle ?s \<and> \<not> terminating s1 \<and>
            (\<forall>u \<in> set (universes s1). universe_id u \<noteq> config_universe config)"
        proof (cases "get_source_universe_index (config_universe config) ?s")
          case None
          then show ?thesis
            using rs s t index_where_None[of "\<lambda>u. universe_id u = config_universe config" "universes ?s"]
            by (auto simp: r_def get_source_universe_index_def)
        next
          case (Some j)
          have j: "j < length (universes ?s)" "universe_id (universes ?s ! j) = config_universe config"
            using Some by (auto simp: get_source_universe_index_def dest!: index_where_D)
          have rem: "termination_state (universes ?s ! j) = kTerminatingAndRemoving"
            using Some rs True by (auto simp: r_def split: if_splits)
          have "s1 = finish_source_universe_termination j ?s" using Some rs rem by (simp add: r_def)
          then show ?thesis using finish_removed_inv[OF s j(1) rem t] j(2) by simp
        qed
        obtain res2 j s2 where a: "add_sacn_source_universe V config s1 = Some (res2, j, s2)" "source_inv (acn (tick_env V)) s2"
            "source_handle s2 = source_handle s1"
          using add_sacn_source_universe_inv[OF L, of s1 config] s1 ok by blast
        obtain res3 s3 where n: "(if res2 = kEtcPalErrOk then add_source_netints (has_room V) (netints (universes s2 ! j)) s2 else (res2, s2)) = (res3, s3)"
          by (metis surj_pair)
        have s3: "source_inv (acn (tick_env V)) s3 \<and> source_handle s3 = source_handle s2"
          using n a(2) add_source_netints_same netints_inv by (fastforce split: if_splits)
        have "sacn_source_add_universe V h config M = Some (res3, put_source i s3 M)"
          unfolding eq using True a(1) n by simp
        then show ?thesis using put_source_inv[OF inv i, of s3] s3 a(3) s1 by simp
      qed
    qed
  qed
qed

lemma sacn_source_create_inv:
  assumes L: "acn_laws (acn (tick_env V))" and inv: "module_inv (acn (tick_env V)) M" and c: "length (config_cid config) = 16"
  shows "\<exists>res h M'. sacn_source_create V config M = Some (res, h, M') \<and> module_inv (acn (tick_env V)) M'"
proof -
  obtain res M1 where m: "(if \<not> manually_process_source config then initialize_source_thread V M else (kEtcPalErrOk, M)) = (res, M1)"
    by (metis surj_pair)
  have m1: "module_inv (acn (tick_env V)) M1"
    using m inv by (auto simp: initialize_source_thread_def module_inv_def split: if_splits)
  show ?thesis
  proof (cases "length (config_name config) \<le> 63")
    case True
    obtain r2 M2 where a: "add_sacn_source V (next_handle V) config M1 = Some (r2, M2)" "module_inv (acn (tick_env V)) M2"
      using add_sacn_source_inv[OF L m1 c True] by blast
    show ?thesis unfolding sacn_source_create_def m prod.case Let_def using inv m1 a by auto
  next
    case False
    then show ?thesis using inv by (simp add: sacn_source_create_def)
  qed
qed

lemma sacn_source_send_now_inv:
  assumes L: "acn_laws (acn (tick_env V))" and inv: "module_inv (acn (tick_env V)) M" and n: "n \<le> length data"
  shows "\<exists>res M' c. sacn_source_send_now V h uni code data n M = Some (res, M', c) \<and> module_inv (acn (tick_env V)) M'"
proof (cases "\<not> is_initialized V \<or> (h = kSacnSourceInvalid \<or> \<not> UNIVERSE_ID_VALID uni \<or> n > 512 \<or> n = 0) \<or> \<not> lock_taken V \<or>
    find_universe h uni M = None")
  case True
  then show ?thesis using inv by (auto simp: sacn_source_send_now_def)
next
  case False
  then obtain i j where f: "find_universe h uni M = Some (i, j)" by auto
  note fi = found_universe_inv[OF inv f]
  let ?E = "tick_env V" and ?s = "sources M ! i" and ?u = "universes (sources M ! i) ! j"
  obtain b1 where b1: "init_sacn_data_send_buf (acn ?E) (replicate 638 0) code (cid ?s) (takeWhile (\<lambda>c. c \<noteq> 0) (source_name ?s))
      (priority ?u) (universe_id ?u) (sync_universe ?u) (send_preview ?u) = Some b1"
    "buf_ok (acn ?E) (cid ?s) (source_name ?s) (priority ?u) (universe_id ?u) (send_preview ?u) code 0 b1"
    using init_buf_ok[OF L fi(2)] by blast
  have n512: "n \<le> 512" using False by auto
  obtain b2 where b2: "update_send_buf_data (acn ?E) (pack_sequence_number b1 (next_seq_num ?u)) data (of_nat n) = Some b2"
    using buf_ok_data[OF L fi(2) buf_ok_seq[OF L fi(2) b1(2)] n512 n] by blast
  obtain ok1 u1 c1 where m: "send_universe_multicast ?E ?u b2 = (ok1, u1, c1)" by (metis prod_cases3)
  obtain ok2 u2 c2 where uc: "send_universe_unicast ?E u1 b2 = (ok2, u2, c2)" by (metis prod_cases3)
  have k: "keeps ?u u2" using keeps_trans send_universe_multicast_sends(3)[OF m] send_universe_unicast_sends(3)[OF uc] by blast
  note kD = keeps_D[OF k]
  have "universe_shape (acn ?E) (cid ?s) (source_name ?s) u2 = universe_shape (acn ?E) (cid ?s) (source_name ?s) ?u"
    unfolding universe_shape_def kD dest_key_cong(3)[OF kD(17)] ..
  then have shape: "universe_shape (acn ?E) (cid ?s) (source_name ?s) u2" using universe_inv_shape[OF fi(3)] by blast
  define v where "v = increment_sequence_number u2"
  have v: "universe_inv (acn ?E) (cid ?s) (source_name ?s) v" "ukey v = ukey ?u"
    using increment_inv[OF L fi(2) shape] kD by (simp_all add: v_def ukey_def increment_same)
  have "\<exists>res c. sacn_source_send_now V h uni code data n M = Some (res, put_source i (put_universe j v ?s) M, c)"
    using False f b1(1) b2 m uc by (auto simp: sacn_source_send_now_def Let_def v_def)
  then show ?thesis using change_found[OF inv f v] by blast
qed

lemma disable_pap_inv:
  "universe_inv L the_cid nm (disable_pap_data u) = universe_inv L the_cid nm u" "ukey (disable_pap_data u) = ukey u"
  by (simp_all add: disable_pap_data_def universe_inv_def flags_def ukey_def)

text \<open>The functions that update levels: the universe changed first, then the buffers.\<close>

lemma update_found:
  assumes L: "acn_laws (acn E)" and inv: "module_inv (acn E) M" and f: "find_universe h uni M = Some (i, j)"
    and u: "universe_inv (acn E) (cid (sources M ! i)) (source_name (sources M ! i)) u" "ukey u = ukey (universes (sources M ! i) ! j)"
    and n: "n \<le> 512" "\<forall>xs. ls = Some xs \<longrightarrow> n \<le> length xs" and m: "m \<le> 512" "\<forall>xs. ps = Some xs \<longrightarrow> m \<le> length xs"
  shows "\<exists>s'. update_levels_and_or_pap E ls n ps m j (put_universe j u (sources M ! i)) = Some s' \<and> module_inv (acn E) (put_source i s' M)"
proof -
  note fD = find_universe_D[OF f]
  note fi = found_universe_inv[OF inv f]
  let ?s = "put_universe j u (sources M ! i)"
  have s: "source_inv (acn E) ?s" "source_handle ?s = source_handle (sources M ! i)"
    using put_universe_inv[OF fi(1) fD(2) u] fD(5) by auto
  have t: "\<not> terminating ?s"
    using source_inv_D(5)[OF fi(1)] fD(2,5) by (auto simp: put_universe_def all_removing_def)
  have j: "j < length (universes ?s)" using fD(2) by (simp add: put_universe_def)
  obtain s' where s': "update_levels_and_or_pap E ls n ps m j ?s = Some s'" "source_inv (acn E) s'" "source_handle s' = source_handle ?s"
    using update_levels_and_or_pap_inv[OF L s(1) j t n m] by blast
  have "module_inv (acn E) (put_source i s' M)"
    by (rule put_source_inv[OF inv fD(1) s'(2)]) (simp add: s'(3) s(2))
  then show ?thesis using s'(1) by blast
qed

lemma sacn_source_update_levels_inv:
  assumes L: "acn_laws (acn (tick_env V))" and inv: "module_inv (acn (tick_env V)) M" and n: "\<forall>xs. ls = Some xs \<longrightarrow> n \<le> length xs"
  shows "\<exists>M'. sacn_source_update_levels V h uni ls n M = Some M' \<and> module_inv (acn (tick_env V)) M'"
proof (cases "n > 512 \<or> \<not> lock_taken V \<or> find_universe h uni M = None")
  case True
  then show ?thesis using inv by (auto simp: sacn_source_update_levels_def kSacnDmxAddressCount_def)
next
  case False
  then obtain i j where f: "find_universe h uni M = Some (i, j)" by auto
  let ?u = "universes (sources M ! i) ! j"
  define u where "u = (if ls = None then disable_pap_data (set_universe_terminating kTerminateWithoutRemoving ?u) else ?u)"
  have u: "universe_inv (acn (tick_env V)) (cid (sources M ! i)) (source_name (sources M ! i)) u" "ukey u = ukey ?u"
    using found_universe_inv(3)[OF inv f] set_universe_terminating_spec(1,2) by (auto simp: u_def disable_pap_inv)
  have n512: "n \<le> 512" using False by simp
  obtain s' where s': "update_levels_and_or_pap (tick_env V) ls n None 0 j (put_universe j u (sources M ! i)) = Some s'"
      "module_inv (acn (tick_env V)) (put_source i s' M)"
    using update_found[OF L inv f u n512 n, where m = 0 and ps = None] by auto
  show ?thesis using False f s' by (auto simp: sacn_source_update_levels_def kSacnDmxAddressCount_def Let_def u_def)
qed

lemma sacn_source_update_levels_and_pap_found:
  assumes "n \<le> 512" "m \<le> 512" "lock_taken V" "find_universe h uni M = Some (i, j)"
  shows "sacn_source_update_levels_and_pap V h uni ls n ps m M =
    map_option (\<lambda>s. put_source i s M)
      (update_levels_and_or_pap (tick_env V) ls n (if ls = None then None else ps) m j
        (put_universe j (if ls = None \<or> ps = None
            then disable_pap_data (if ls = None then set_universe_terminating kTerminateWithoutRemoving (universes (sources M ! i) ! j)
                                   else universes (sources M ! i) ! j)
            else if ls = None then set_universe_terminating kTerminateWithoutRemoving (universes (sources M ! i) ! j)
                 else universes (sources M ! i) ! j) (sources M ! i)))"
  using assms by (simp add: sacn_source_update_levels_and_pap_def kSacnDmxAddressCount_def Let_def
      split: option.split Option.bind_split)

lemma sacn_source_update_levels_and_pap_inv:
  assumes L: "acn_laws (acn (tick_env V))" and inv: "module_inv (acn (tick_env V)) M"
    and n: "\<forall>xs. ls = Some xs \<longrightarrow> n \<le> length xs" and m: "\<forall>xs. ps = Some xs \<longrightarrow> m \<le> length xs"
  shows "\<exists>M'. sacn_source_update_levels_and_pap V h uni ls n ps m M = Some M' \<and> module_inv (acn (tick_env V)) M'"
proof (cases "n > 512 \<or> m > 512 \<or> \<not> lock_taken V \<or> find_universe h uni M = None")
  case True
  then show ?thesis using inv by (auto simp: sacn_source_update_levels_and_pap_def kSacnDmxAddressCount_def)
next
  case False
  then obtain i j where f: "find_universe h uni M = Some (i, j)" by auto
  let ?u = "universes (sources M ! i) ! j"
  define u1 where "u1 = (if ls = None then set_universe_terminating kTerminateWithoutRemoving ?u else ?u)"
  define u where "u = (if ls = None \<or> ps = None then disable_pap_data u1 else u1)"
  have u: "universe_inv (acn (tick_env V)) (cid (sources M ! i)) (source_name (sources M ! i)) u" "ukey u = ukey ?u"
    using found_universe_inv(3)[OF inv f] set_universe_terminating_spec(1,2) by (auto simp: u_def u1_def disable_pap_inv)
  define ps' where "ps' = (if ls = None then None else ps)"
  have m': "\<forall>xs. ps' = Some xs \<longrightarrow> m \<le> length xs" using m by (auto simp: ps'_def)
  have b: "n \<le> 512" "m \<le> 512" and lock: "lock_taken V" using False by simp_all
  obtain s' where s': "update_levels_and_or_pap (tick_env V) ls n ps' m j (put_universe j u (sources M ! i)) = Some s'"
      "module_inv (acn (tick_env V)) (put_source i s' M)"
    using update_found[OF L inv f u b(1) n b(2) m'] by auto
  have "sacn_source_update_levels_and_pap V h uni ls n ps m M = Some (put_source i s' M)"
    unfolding sacn_source_update_levels_and_pap_found[OF b lock f] u1_def[symmetric] u_def[symmetric] ps'_def[symmetric] s'(1) by simp
  then show ?thesis using s'(2) by blast
qed

lemma change_universe_inv:
  assumes inv: "module_inv L M"
    and f: "\<And>s u. ids_ok (cid s) (source_name s) \<Longrightarrow> universe_inv L (cid s) (source_name s) u \<Longrightarrow>
      universe_inv L (cid s) (source_name s) (f s u) \<and> ukey (f s u) = ukey u"
  shows "module_inv L (snd (change_universe V valid h uni f M))"
proof (cases "find_universe h uni M")
  case (Some ij)
  obtain i j where ij: "ij = (i, j)" by (metis surj_pair)
  note fi = found_universe_inv[OF inv Some[unfolded ij]]
  show ?thesis
    using inv f[OF fi(2,3)] change_found[OF inv Some[unfolded ij]] by (simp add: change_universe_def Some ij Let_def)
qed (use inv in \<open>simp add: change_universe_def\<close>)

lemma sacn_source_add_unicast_destination_inv:
  assumes inv: "module_inv L M"
  shows "module_inv L (snd (sacn_source_add_unicast_destination V h uni addr M))"
proof (cases "find_universe h uni M")
  case (Some ij)
  obtain i j where ij: "ij = (i, j)" by (metis surj_pair)
  note f = Some[unfolded ij]
  note fi = found_universe_inv[OF inv f]
  let ?s = "sources M ! i" and ?u = "universes (sources M ! i) ! j"
  obtain r1 u1 where r1: "(case get_unicast_dest_index addr ?u of None \<Rightarrow> (kEtcPalErrOk, ?u)
      | Some k \<Rightarrow> if dest_state (unicast_dests ?u ! k) = kTerminatingAndRemoving
                 then (kEtcPalErrOk, finish_unicast_dest_termination k ?u) else (kEtcPalErrExists, ?u)) = (r1, u1)"
    by (rule prod.exhaust)
  have u1: "universe_inv L (cid ?s) (source_name ?s) u1 \<and> ukey u1 = ukey ?u"
  proof (cases "u1 = ?u")
    case False
    then obtain k where k: "get_unicast_dest_index addr ?u = Some k" "u1 = finish_unicast_dest_termination k ?u"
      using r1 by (auto split: option.splits if_splits)
    have kl: "k < length (unicast_dests ?u)" using k(1) by (auto simp: get_unicast_dest_index_def dest: index_where_D)
    note fs = finish_unicast_dest_termination_spec[OF kl, folded k(2)]
    have "\<forall>d \<in> set (unicast_dests u1). 0 \<le> dest_terminations_sent d"
      using fs(3) universe_inv_nonneg(2)[OF fi(3)] by (simp add: dests_nonneg_def)
    moreover have "flags u1 = flags ?u" by (simp add: k(2) finish_unicast_dest_termination_def flags_def)
    moreover have "next_seq_num u1 = next_seq_num ?u" using fs(1) by (simp add: tkey_def)
    ultimately have "universe_inv L (cid ?s) (source_name ?s) u1"
      using tkey_D[OF fs(1)] universe_inv_nonneg(1)[OF fi(3)] by (intro universe_inv_dests[OF fi(3)]) auto
    then show ?thesis using tkey_D(5)[OF fs(1)] by simp
  qed (use fi(3) in simp)
  obtain r2 u2 where r2: "(if r1 = kEtcPalErrOk then add_sacn_unicast_dest (has_room V) addr u1 else (r1, u1)) = (r2, u2)"
    by (rule prod.exhaust)
  have u2: "universe_inv L (cid ?s) (source_name ?s) u2 \<and> ukey u2 = ukey ?u"
    using r2 u1 by (auto simp: add_sacn_unicast_dest_def new_unicast_dest_def universe_inv_def ukey_def flags_def split: if_splits)
  define u3 where "u3 = (if r2 = kEtcPalErrOk then reset_transmission_suppression (tick_env V) ?s kResetLevelAndPap u2 else u2)"
  have u3: "universe_inv L (cid ?s) (source_name ?s) u3" "ukey u3 = ukey ?u"
    using u2 by (simp_all add: u3_def suppression_inv)
  have "snd (sacn_source_add_unicast_destination V h uni addr M) = M \<or>
      snd (sacn_source_add_unicast_destination V h uni addr M) = put_source i (put_universe j u3 ?s) M"
    unfolding sacn_source_add_unicast_destination_def f option.case(2) prod.case Let_def r1 r2 u3_def[symmetric] by simp
  then show ?thesis using inv change_found[OF inv f u3] by auto
qed (use inv in \<open>simp add: sacn_source_add_unicast_destination_def\<close>)

lemma sacn_source_remove_unicast_destination_inv:
  assumes inv: "module_inv L M"
  shows "module_inv L (sacn_source_remove_unicast_destination V h uni addr M)"
proof (cases "find_universe h uni M")
  case (Some ij)
  obtain i j where ij: "ij = (i, j)" by (metis surj_pair)
  note f = Some[unfolded ij]
  note fi = found_universe_inv[OF inv f]
  let ?s = "sources M ! i" and ?u = "universes (sources M ! i) ! j"
  have "module_inv L (put_source i (put_universe j
      (?u\<lparr>unicast_dests := (unicast_dests ?u)[k := set_unicast_dest_terminating kTerminateAndRemove (unicast_dests ?u ! k)]\<rparr>) ?s) M)"
    if k: "k < length (unicast_dests ?u)" for k
  proof -
    define d where "d = set_unicast_dest_terminating kTerminateAndRemove (unicast_dests ?u ! k)"
    have "0 \<le> dest_terminations_sent d"
      using universe_inv_nonneg(2)[OF fi(3)] k by (simp add: d_def set_unicast_dest_terminating_same(2))
    then have "\<forall>d \<in> set ((unicast_dests ?u)[k := d]). 0 \<le> dest_terminations_sent d"
      using universe_inv_nonneg(2)[OF fi(3)] set_update_subset_insert[of "unicast_dests ?u" k d] by auto
    then have "universe_inv L (cid ?s) (source_name ?s) (?u\<lparr>unicast_dests := (unicast_dests ?u)[k := d]\<rparr>)"
      by (intro universe_inv_dests[OF fi(3) universe_inv_nonneg(1)[OF fi(3)]]) (simp_all add: flags_def)
    then show ?thesis unfolding d_def by (rule change_found[OF inv f]) (simp add: ukey_def)
  qed
  then show ?thesis
    using inv by (auto simp: sacn_source_remove_unicast_destination_def f Let_def get_unicast_dest_index_def split: option.splits dest!: index_where_D)
qed (use inv in \<open>simp add: sacn_source_remove_unicast_destination_def\<close>)

section \<open>Networking\<close>

lemma netints_universe_inv:
  "universe_inv L the_cid nm (u\<lparr>netints := ns\<rparr>) = universe_inv L the_cid nm u" "ukey (u\<lparr>netints := ns\<rparr>) = ukey u"
  by (simp_all add: universe_inv_def flags_def ukey_def)

definition keeps_source :: "acn_lib \<Rightarrow> 'tm sacn_source \<Rightarrow> 'tm sacn_source \<Rightarrow> bool" where
  "keeps_source L s s' \<longleftrightarrow> source_inv L s' \<and> source_handle s' = source_handle s \<and> length (universes s') = length (universes s)"

lemma reset_source_universe_networking_inv:
  assumes inv: "source_inv L s" and j: "j < length (universes s)"
  shows "keeps_source L s (snd (reset_source_universe_networking V ini j s))"
proof -
  obtain res ns where ini: "ini = (res, ns)" by (metis surj_pair)
  let ?u = "universes s ! j"
  define s1 where "s1 = put_universe j (?u\<lparr>netints := ns\<rparr>) s"
  have s1: "source_inv L s1" "source_handle s1 = source_handle s" "length (universes s1) = length (universes s)"
    using put_universe_inv[OF inv j, of "?u\<lparr>netints := ns\<rparr>"] source_inv_D(2)[OF inv] j
    by (auto simp: s1_def netints_universe_inv put_universe_def)
  obtain r2 s2 where r2: "(if res = kEtcPalErrOk then add_source_netints (has_room V) ns s1 else (res, s1)) = (r2, s2)" by (metis surj_pair)
  have "source_inv L s2 \<and> source_handle s2 = source_handle s \<and> universes s2 = universes s1 \<and> cid s2 = cid s1 \<and> source_name s2 = source_name s1"
  proof (cases "res = kEtcPalErrOk")
    case True
    then have "add_source_netints (has_room V) ns s1 = (r2, s2)" using r2 by simp
    then obtain xs where s2: "s2 = s1\<lparr>source_netints := xs\<rparr>" using add_source_netints_same by blast
    show ?thesis unfolding s2 using s1(1,2) by (simp add: netints_inv)
  qed (use r2 s1 in simp)
  then have s2: "source_inv L s2" "source_handle s2 = source_handle s" "universes s2 = universes s1" "cid s2 = cid s1" "source_name s2 = source_name s1"
    by simp_all
  have j2: "j < length (universes s2)" using j s1(3) s2(3) by simp
  have u2: "universe_inv L (cid s2) (source_name s2) (universes s2 ! j)" using source_inv_D(2)[OF s2(1)] j2 by simp
  let ?r = "reset_transmission_suppression (tick_env V) s2 kResetLevelAndPap (universes s2 ! j)"
  have s3: "source_inv L (put_universe j ?r s2)" "source_handle (put_universe j ?r s2) = source_handle s2"
    "length (universes (put_universe j ?r s2)) = length (universes s2)"
    using put_universe_inv[OF s2(1) j2, of ?r] u2 by (auto simp: suppression_inv put_universe_def)
  have "snd (reset_source_universe_networking V ini j s) = (if r2 = kEtcPalErrOk then put_universe j ?r s2 else s2)"
    unfolding reset_source_universe_networking_def ini prod.case Let_def s1_def[symmetric] r2 by simp
  then show ?thesis using s1(3) s2 s3 by (simp add: keeps_source_def)
qed

lemma reset_universes_inv:
  assumes f: "\<And>j s. source_inv L s \<Longrightarrow> j < length (universes s) \<Longrightarrow> keeps_source L s (snd (f j s))"
  shows "source_inv L s \<Longrightarrow> j + n \<le> length (universes s) \<Longrightarrow> keeps_source L s (snd (reset_universes f j n s))"
proof (induction n arbitrary: j s)
  case (Suc n)
  obtain res s1 where r: "f j s = (res, s1)" by (metis surj_pair)
  have s1: "keeps_source L s s1" using f[OF Suc.prems(1), of j] Suc.prems(2) r by simp
  then show ?case
    using Suc.IH[of s1 "j + 1"] Suc.prems(2) r by (auto simp: keeps_source_def)
qed (simp add: keeps_source_def)

lemma reset_sources_inv:
  assumes f: "\<And>j s. source_inv L s \<Longrightarrow> j < length (universes s) \<Longrightarrow> keeps_source L s (snd (f j s))"
  shows "module_inv L M \<Longrightarrow> i + n \<le> length (sources M) \<Longrightarrow> module_inv L (snd (reset_sources f i n M))"
proof (induction n arbitrary: i M)
  case (Suc n)
  have i: "i < length (sources M)" using Suc.prems(2) by simp
  let ?s = "clear_source_netints (sources M ! i)"
  have "source_inv L (sources M ! i)" using Suc.prems(1) i by (simp add: module_inv_def)
  then have s: "source_inv L ?s" "source_handle ?s = source_handle (sources M ! i)" "universes ?s = universes (sources M ! i)"
    by (simp_all add: clear_source_netints_def netints_inv)
  obtain res s1 where r: "reset_universes f 0 (length (universes (sources M ! i))) ?s = (res, s1)" by (metis surj_pair)
  have "keeps_source L ?s s1"
    using reset_universes_inv[of L f ?s 0 "length (universes (sources M ! i))", OF f s(1)] r s(3) by simp
  then have m: "module_inv L (put_source i s1 M)"
    using s(2) by (intro put_source_inv[OF Suc.prems(1) i]) (simp_all add: keeps_source_def)
  show ?case using Suc.IH[OF m, of "i + 1"] Suc.prems(2) m r by (simp add: put_source_def)
qed simp

end
