(* ===== verification/SourceRun.thy ===== *)
theory SourceRun
  imports SourceCalls
begin

text \<open>
  Any sequence of calls of the source API and of ticks keeps the invariant of the sources and never
  accesses memory outside a buffer: \<open>exec_source\<close> runs one call, \<open>run_source\<close> a sequence of calls, each
  in an environment of its own. The second part is the thread of the sources: after a shutdown it
  ends within a bounded number of passes.
\<close>

section \<open>The remaining calls\<close>

lemma sacn_source_change_name_inv:
  assumes L: "acn_laws L" and inv: "module_inv L M"
  shows "module_inv L (snd (sacn_source_change_name V h nm M))"
proof (cases "length nm \<le> 63")
  case True
  have "module_inv L (put_source i (set_source_name (tick_env V) nm (sacn_source_at)) M)"
    if "get_source_index h M = Some i" "sacn_source_at = sources M ! i" for i sacn_source_at
  proof -
    have i: "i < length (sources M)" using that(1) by (auto simp: get_source_index_def dest: index_where_D)
    then have "source_inv L (sources M ! i)" using inv by (simp add: module_inv_def)
    then show ?thesis unfolding that(2) using set_source_name_inv[OF L _ True] by (intro put_source_inv[OF inv i]) auto
  qed
  then show ?thesis using inv by (simp add: sacn_source_change_name_def split: option.split)
qed (use inv in \<open>simp add: sacn_source_change_name_def\<close>)

lemma sacn_source_destroy_inv:
  assumes inv: "module_inv L M"
  shows "module_inv L (sacn_source_destroy V h M)"
proof -
  have "module_inv L (put_source i (set_source_terminating (sources M ! i)) M)" if "get_source_index h M = Some i" for i
  proof -
    have i: "i < length (sources M)" using that by (auto simp: get_source_index_def dest: index_where_D)
    then have "source_inv L (sources M ! i)" using inv by (simp add: module_inv_def)
    then show ?thesis using set_source_terminating_spec(1,3) by (intro put_source_inv[OF inv i]) auto
  qed
  then show ?thesis using inv by (simp add: sacn_source_destroy_def split: option.split)
qed

lemma sacn_source_remove_universe_inv:
  assumes inv: "module_inv L M"
  shows "module_inv L (sacn_source_remove_universe V h uni M)"
proof (cases "find_universe h uni M")
  case (Some ij)
  obtain i j where ij: "ij = (i, j)" by (metis surj_pair)
  note f = Some[unfolded ij]
  show ?thesis
    using inv change_found[OF inv f set_universe_terminating_spec(1)[OF found_universe_inv(3)[OF inv f]] set_universe_terminating_spec(2)]
    by (simp add: sacn_source_remove_universe_def f Let_def)
qed (use inv in \<open>simp add: sacn_source_remove_universe_def\<close>)

lemma sacn_source_change_priority_inv:
  "acn_laws L \<Longrightarrow> module_inv L M \<Longrightarrow> module_inv L (snd (sacn_source_change_priority V h uni p M))"
  unfolding sacn_source_change_priority_def by (rule change_universe_inv) (auto intro: set_universe_priority_inv)

lemma sacn_source_change_preview_flag_inv:
  "acn_laws L \<Longrightarrow> module_inv L M \<Longrightarrow> module_inv L (snd (sacn_source_change_preview_flag V h uni p M))"
  unfolding sacn_source_change_preview_flag_def by (rule change_universe_inv) (auto intro: set_preview_flag_inv)

lemma sacn_source_reset_networking_inv:
  assumes "module_inv L M"
  shows "module_inv L (snd (sacn_source_reset_networking V M))"
  using assms by (auto simp: sacn_source_reset_networking_def intro!: reset_sources_inv reset_source_universe_networking_inv)

lemma add_source_netints_keeps:
  assumes "source_inv L s"
  shows "keeps_source L s (snd (add_source_netints room ns s))"
proof -
  obtain res s1 where r: "add_source_netints room ns s = (res, s1)" by (metis surj_pair)
  then obtain xs where "s1 = s\<lparr>source_netints := xs\<rparr>" using add_source_netints_same by blast
  then show ?thesis using assms by (simp add: r keeps_source_def netints_inv)
qed

lemma reset_listed_universe_inv:
  "source_inv L s \<Longrightarrow> j < length (universes s) \<Longrightarrow> keeps_source L s (snd (reset_listed_universe V nls ini j s))"
  by (simp add: reset_listed_universe_def Let_def add_source_netints_keeps reset_source_universe_networking_inv)

lemma sacn_source_reset_networking_per_universe_inv:
  assumes "module_inv L M"
  shows "module_inv L (snd (sacn_source_reset_networking_per_universe V nls ini M))"
  using assms by (auto simp: sacn_source_reset_networking_per_universe_def intro!: reset_sources_inv reset_listed_universe_inv)

lemma tick_inv:
  assumes "acn_laws (acn (tick_env V))" "module_inv (acn (tick_env V)) M"
  shows "\<exists>n M' c. sacn_source_process_manual V mode M = Some (n, M', c) \<and> module_inv (acn (tick_env V)) M'"
    "\<exists>n M' c. thread_tick V mode M = Some (n, M', c) \<and> module_inv (acn (tick_env V)) M'"
proof -
  have p: "\<exists>n M' c. process_sources (tick_env V) b mode M = Some (n, M', c) \<and> module_inv (acn (tick_env V)) M'" for b
    using process_sources_spec[OF assms, of b mode] by blast
  show "\<exists>n M' c. sacn_source_process_manual V mode M = Some (n, M', c) \<and> module_inv (acn (tick_env V)) M'"
    "\<exists>n M' c. thread_tick V mode M = Some (n, M', c) \<and> module_inv (acn (tick_env V)) M'"
    using p assms(2) by (simp_all add: sacn_source_process_manual_def thread_tick_def)
qed

section \<open>Sequences of calls\<close>

datatype source_call =
    CreateSource source_config
  | DestroySource int
  | ChangeName int "u8 list"
  | AddUniverse int universe_config
  | RemoveUniverse int u16
  | AddUnicastDestination int u16 ip_addr
  | RemoveUnicastDestination int u16 ip_addr
  | ChangePriority int u16 u8
  | ChangePreviewFlag int u16 bool
  | SendNow int u16 u8 "u8 list" nat
  | UpdateSourceLevels int u16 "u8 list option" nat
  | UpdateSourceLevelsAndPap int u16 "u8 list option" nat "u8 list option" nat
  | ProcessManual tick_mode
  | ThreadTick tick_mode
  | ResetNetworking
  | ResetNetworkingPerUniverse "netint_list list" "nat \<Rightarrow> etcpal_error \<times> mcast_netint_id list"
  | StateInit
  | StateDeinit bool bool

primrec exec_source :: "'tm api_env \<Rightarrow> source_call \<Rightarrow> 'tm source_module \<Rightarrow> 'tm source_module option" where
  "exec_source V (CreateSource config) M = map_option (\<lambda>(_, _, M'). M') (sacn_source_create V config M)"
| "exec_source V (DestroySource h) M = Some (sacn_source_destroy V h M)"
| "exec_source V (ChangeName h nm) M = Some (snd (sacn_source_change_name V h nm M))"
| "exec_source V (AddUniverse h config) M = map_option snd (sacn_source_add_universe V h config M)"
| "exec_source V (RemoveUniverse h uni) M = Some (sacn_source_remove_universe V h uni M)"
| "exec_source V (AddUnicastDestination h uni addr) M = Some (snd (sacn_source_add_unicast_destination V h uni addr M))"
| "exec_source V (RemoveUnicastDestination h uni addr) M = Some (sacn_source_remove_unicast_destination V h uni addr M)"
| "exec_source V (ChangePriority h uni p) M = Some (snd (sacn_source_change_priority V h uni p M))"
| "exec_source V (ChangePreviewFlag h uni p) M = Some (snd (sacn_source_change_preview_flag V h uni p M))"
| "exec_source V (SendNow h uni code data n) M = map_option (\<lambda>(_, M', _). M') (sacn_source_send_now V h uni code data n M)"
| "exec_source V (UpdateSourceLevels h uni ls n) M = sacn_source_update_levels V h uni ls n M"
| "exec_source V (UpdateSourceLevelsAndPap h uni ls n ps m) M = sacn_source_update_levels_and_pap V h uni ls n ps m M"
| "exec_source V (ProcessManual mode) M = map_option (\<lambda>(_, M', _). M') (sacn_source_process_manual V mode M)"
| "exec_source V (ThreadTick mode) M = map_option (\<lambda>(_, M', _). M') (thread_tick V mode M)"
| "exec_source V ResetNetworking M = Some (snd (sacn_source_reset_networking V M))"
| "exec_source V (ResetNetworkingPerUniverse nls ini) M = Some (snd (sacn_source_reset_networking_per_universe V nls ini M))"
| "exec_source V StateInit M = Some (sacn_source_state_init M)"
| "exec_source V (StateDeinit lock1 lock2) M = Some (fst (sacn_source_state_deinit lock1 lock2 M))"

text \<open>
  What the caller owes: a CID is an array of 16 bytes, and an array passed with its size has that
  many entries.
\<close>

primrec source_call_ok :: "source_call \<Rightarrow> bool" where
  "source_call_ok (CreateSource config) = (length (config_cid config) = 16)"
| "source_call_ok (DestroySource h) = True"
| "source_call_ok (ChangeName h nm) = True"
| "source_call_ok (AddUniverse h config) = True"
| "source_call_ok (RemoveUniverse h uni) = True"
| "source_call_ok (AddUnicastDestination h uni addr) = True"
| "source_call_ok (RemoveUnicastDestination h uni addr) = True"
| "source_call_ok (ChangePriority h uni p) = True"
| "source_call_ok (ChangePreviewFlag h uni p) = True"
| "source_call_ok (SendNow h uni code data n) = (n \<le> length data)"
| "source_call_ok (UpdateSourceLevels h uni ls n) = (\<forall>xs. ls = Some xs \<longrightarrow> n \<le> length xs)"
| "source_call_ok (UpdateSourceLevelsAndPap h uni ls n ps m) =
     ((\<forall>xs. ls = Some xs \<longrightarrow> n \<le> length xs) \<and> (\<forall>xs. ps = Some xs \<longrightarrow> m \<le> length xs))"
| "source_call_ok (ProcessManual mode) = True"
| "source_call_ok (ThreadTick mode) = True"
| "source_call_ok ResetNetworking = True"
| "source_call_ok (ResetNetworkingPerUniverse nls ini) = True"
| "source_call_ok StateInit = True"
| "source_call_ok (StateDeinit lock1 lock2) = True"

lemma exec_source_inv:
  assumes L: "acn_laws (acn (tick_env V))" and inv: "module_inv (acn (tick_env V)) M" and ok: "source_call_ok c"
  shows "\<exists>M'. exec_source V c M = Some M' \<and> module_inv (acn (tick_env V)) M'"
proof (cases c)
  case (CreateSource config)
  then show ?thesis using sacn_source_create_inv[OF L inv, of config] ok by auto
next
  case (AddUniverse h config)
  then show ?thesis using sacn_source_add_universe_inv[OF L inv, of h config] by auto
next
  case (SendNow h uni code data n)
  then show ?thesis using sacn_source_send_now_inv[OF L inv, of n data h uni code] ok by auto
next
  case (UpdateSourceLevels h uni ls n)
  then show ?thesis using sacn_source_update_levels_inv[OF L inv, of ls n h uni] ok by simp
next
  case (UpdateSourceLevelsAndPap h uni ls n ps m)
  then show ?thesis using sacn_source_update_levels_and_pap_inv[OF L inv, of ls n ps m h uni] ok by simp
next
  case (ProcessManual mode)
  then show ?thesis using tick_inv(1)[OF L inv, of mode] by auto
next
  case (ThreadTick mode)
  then show ?thesis using tick_inv(2)[OF L inv, of mode] by auto
next
  case StateInit
  then show ?thesis using inv by (simp add: sacn_source_state_init_def module_inv_def)
next
  case (StateDeinit lock1 lock2)
  then show ?thesis using inv by (simp add: sacn_source_state_deinit_def module_inv_def Let_def)
qed (use L inv in \<open>simp_all add: sacn_source_destroy_inv sacn_source_change_name_inv sacn_source_remove_universe_inv
      sacn_source_add_unicast_destination_inv sacn_source_remove_unicast_destination_inv sacn_source_change_priority_inv
      sacn_source_change_preview_flag_inv sacn_source_reset_networking_inv sacn_source_reset_networking_per_universe_inv\<close>)

text \<open>A sequence of calls; \<open>None\<close> is an access outside a buffer or a loop that does not end.\<close>

definition step_source :: "'tm api_env \<times> source_call \<Rightarrow> 'tm source_module option \<Rightarrow> 'tm source_module option" where
  "step_source Vc M = Option.bind M (exec_source (fst Vc) (snd Vc))"

definition run_source :: "('tm api_env \<times> source_call) list \<Rightarrow> 'tm source_module \<Rightarrow> 'tm source_module option" where
  "run_source cs M = fold step_source cs (Some M)"

definition safe_state :: "acn_lib \<Rightarrow> 'tm source_module option \<Rightarrow> bool" where
  "safe_state L x \<longleftrightarrow> (\<exists>M. x = Some M \<and> module_inv L M)"

interpretation source_calls: invariant_machine step_source "\<lambda>x. acn_laws L \<longrightarrow> safe_state L x"
    "\<lambda>Vc. acn (tick_env (fst Vc)) = L \<and> source_call_ok (snd Vc)" for L
  by unfold_locales (use exec_source_inv in \<open>fastforce simp: step_source_def safe_state_def\<close>)

definition initial_source_module :: "'tm source_module" where
  "initial_source_module = \<lparr>shutting_down = False, thread_initialized = False, sources = []\<rparr>"

lemma initial_module_inv: "module_inv L initial_source_module"
  by (simp add: module_inv_def initial_source_module_def)

lemma run_source_inv:
  assumes "acn_laws L" "\<forall>Vc \<in> set cs. acn (tick_env (fst Vc)) = L \<and> source_call_ok (snd Vc)"
  shows "safe_state L (run_source cs initial_source_module)"
proof -
  have "safe_state L (Some initial_source_module)" by (simp add: safe_state_def initial_module_inv)
  then show ?thesis
    using source_calls.run_inv[of L "Some initial_source_module" cs] assms by (simp add: run_source_def list_all_iff)
qed

section \<open>The thread ends after a shutdown\<close>

lemma dests_weight_le: "dests_nonneg ds \<Longrightarrow> dests_weight ds \<le> 3 * length ds"
  by (induction ds) (auto simp: dests_nonneg_def dests_weight_def dest_weight_def)

lemma budget_le: "universe_inv L the_cid nm u \<Longrightarrow> budget u \<le> 3 + 3 * length (unicast_dests u)"
  using universe_inv_nonneg[of L the_cid nm u] dests_weight_le[of "unicast_dests u"]
  by (simp add: budget_def dests_nonneg_def)

lemma ends_within_dests:
  assumes inv: "source_inv L s" and d: "\<forall>u \<in> set (universes s). length (unicast_dests u) \<le> d"
  shows "ends_within (4 + 3 * d) s"
proof -
  have inv': "source_inv L (set_source_terminating s)" by (rule set_source_terminating_spec(1)[OF inv])
  have "length (unicast_dests (set_universe_terminating b u)) = length (unicast_dests u)" for b and u :: "'a source_universe"
    by (cases b) (simp_all add: set_universe_terminating_def Let_def)
  then have d': "\<forall>u \<in> set (universes (set_source_terminating s)). length (unicast_dests u) \<le> d"
    using d by (auto simp: set_source_terminating_def)
  have "budget u < 4 + 3 * d" if "u \<in> set (universes (set_source_terminating s))" for u
    using budget_le[OF source_inv_D(2)[OF inv' that]] d'[rule_format, OF that] by linarith
  then show ?thesis by (simp add: ends_within_def budgets_below_def)
qed

lemma ends_within_0: "ends_within 0 s \<Longrightarrow> universes s = []"
  by (auto simp: ends_within_def budgets_below_def set_source_terminating_def split: if_splits)

definition pass_ok :: "acn_lib \<Rightarrow> 'tm pass_env \<Rightarrow> bool" where
  "pass_ok L P \<longleftrightarrow> acn (tick_env (levels_env P)) = L \<and> acn (tick_env (pap_env P)) = L \<and>
     lock_taken (levels_env P) \<and> lock_taken (pap_env P) \<and> flag_lock P"

definition thread_ends_within :: "nat \<Rightarrow> 'tm source_module \<Rightarrow> bool" where
  "thread_ends_within n M \<longleftrightarrow> (\<forall>s \<in> set (sources M). tracked kProcessThreadedSources s \<longrightarrow> ends_within n s)"

lemma thread_tick_spec:
  assumes "acn_laws L" "acn (tick_env V) = L" "lock_taken V" "module_inv L M" "shutting_down M" "thread_ends_within n M"
  shows "\<exists>M' c. thread_tick V mode M = Some (length (filter (tracked kProcessThreadedSources) (sources M)), M', c) \<and>
    module_inv L M' \<and> shutting_down M' \<and> filter process_manually (sources M') = filter process_manually (sources M) \<and>
    thread_ends_within (after_tick mode n) M' \<and>
    (\<forall>s \<in> set (sources M'). tracked kProcessThreadedSources s \<longrightarrow> universes s \<noteq> [])"
proof -
  have t: "(\<lambda>s :: 'a sacn_source. \<not> tracked kProcessThreadedSources s) = process_manually" by (simp add: tracked_def fun_eq_iff)
  show ?thesis
    using process_sources_spec[of "tick_env V" M kProcessThreadedSources mode n] assms
    by (simp add: thread_tick_def t thread_ends_within_def) blast
qed

lemma source_thread_pass_spec:
  assumes L: "acn_laws L" and P: "pass_ok L P" and inv: "module_inv L M" "shutting_down M" "thread_ends_within n M"
  shows "\<exists>k M' c. source_thread_pass P keep M = Some (False, k, M', c) \<and> module_inv L M' \<and> shutting_down M' \<and>
    filter process_manually (sources M') = filter process_manually (sources M) \<and> thread_ends_within (n - 1) M' \<and>
    (n \<le> 1 \<longrightarrow> k = 0) \<and> (k = 0 \<longrightarrow> sources M' = filter process_manually (sources M'))"
proof -
  let ?tracked = "tracked kProcessThreadedSources :: 'a sacn_source \<Rightarrow> bool"
  obtain k1 M1 c1 where one: "thread_tick (levels_env P) kSacnSourceTickModeProcessLevelsOnly M = Some (k1, M1, c1)"
      "module_inv L M1" "shutting_down M1" "filter process_manually (sources M1) = filter process_manually (sources M)"
      "thread_ends_within (n - 1) M1" "\<forall>s \<in> set (sources M1). ?tracked s \<longrightarrow> universes s \<noteq> []"
    using thread_tick_spec[OF L _ _ inv, of "levels_env P" kSacnSourceTickModeProcessLevelsOnly] P by (auto simp: pass_ok_def after_tick_def)
  let ?k = "length (filter ?tracked (sources M1))"
  note pap = thread_tick_spec[OF L _ _ one(2,3), of "pap_env P" _ kSacnSourceTickModeProcessPapOnly]
  obtain M2 c2 where two: "thread_tick (pap_env P) kSacnSourceTickModeProcessPapOnly M1 = Some (?k, M2, c2)"
      "module_inv L M2" "shutting_down M2" "filter process_manually (sources M2) = filter process_manually (sources M1)"
      "thread_ends_within (n - 1) M2" "\<forall>s \<in> set (sources M2). ?tracked s \<longrightarrow> universes s \<noteq> []"
    using pap[OF _ _ one(5)] P by (auto simp: pass_ok_def after_tick_def)
  have zero: "?k = 0" if "n \<le> 1"
    using that one(5,6) ends_within_0 by (auto simp: thread_ends_within_def filter_empty_conv)
  have gone: "sources M2 = filter process_manually (sources M2)" if "?k = 0"
  proof -
    have "thread_ends_within 0 M1" using that by (auto simp: thread_ends_within_def filter_empty_conv)
    then have "thread_ends_within 0 M2" using pap[of 0] P two(1) by (auto simp: pass_ok_def after_tick_def)
    then have "\<not> ?tracked s" if "s \<in> set (sources M2)" for s
      using that two(6) ends_within_0 by (auto simp: thread_ends_within_def)
    then show ?thesis by (simp add: tracked_def filter_id_conv)
  qed
  have "source_thread_pass P keep M = Some (False, ?k, M2, c1 @ c2)"
    using one(1) two(1,3) P by (simp add: source_thread_pass_def pass_ok_def)
  then show ?thesis
    using two(2,3,4,5) one(4) zero gone by (intro exI[of _ ?k] exI[of _ M2] exI[of _ "c1 @ c2"]) simp
qed

lemma source_thread_ends:
  assumes L: "acn_laws L"
  shows "module_inv L M \<Longrightarrow> shutting_down M \<Longrightarrow> thread_ends_within n M \<Longrightarrow> n \<le> length Ps \<Longrightarrow> \<forall>P \<in> set Ps. pass_ok L P \<Longrightarrow>
    keep \<or> k > 0 \<Longrightarrow> 0 < n \<Longrightarrow>
    \<exists>M'. source_thread Ps keep k M = Some (True, M') \<and> sources M' = filter process_manually (sources M)"
proof (induction Ps arbitrary: n keep k M)
  case (Cons P Ps)
  have P: "pass_ok L P" using Cons.prems(5) by simp
  obtain k1 M1 c where pass: "source_thread_pass P keep M = Some (False, k1, M1, c)" "module_inv L M1" "shutting_down M1"
      "filter process_manually (sources M1) = filter process_manually (sources M)" "thread_ends_within (n - 1) M1"
      "n \<le> 1 \<longrightarrow> k1 = 0" "k1 = 0 \<longrightarrow> sources M1 = filter process_manually (sources M1)"
    using source_thread_pass_spec[OF L P Cons.prems(1-3), of keep] by blast
  have step: "source_thread (P # Ps) keep k M = source_thread Ps False k1 M1" using pass(1) Cons.prems(6) by auto
  show ?case
  proof (cases "k1 = 0")
    case True
    then have "source_thread Ps False k1 M1 = Some (True, M1)" by (cases Ps) simp_all
    then show ?thesis unfolding step using True pass(4,7) by simp
  next
    case False
    have n: "n - 1 \<le> length Ps" "0 < n - 1" using Cons.prems(4) pass(6) False by auto
    have ok: "\<forall>P \<in> set Ps. pass_ok L P" using Cons.prems(5) by simp
    show ?thesis
      unfolding step using Cons.IH[OF pass(2,3,5) n(1) ok _ n(2), of False k1] False pass(4) by simp
  qed
qed simp

end
