(* ===== verification/SourceTicks.thy ===== *)
theory SourceTicks
  imports SourceSends SourceInv
begin

text \<open>
  Successive ticks of one universe that is not terminating: \<open>universe_ticks\<close> runs \<open>process_universe\<close>
  for a list of environments and modes. \<open>one_tick\<close> reduces a tick to \<open>transmit_levels\<close> and
  \<open>transmit_pap\<close>. \<open>level_schedule\<close> is what transmission suppression promises for a universe without
  priorities: the numbers of the packets to send.
\<close>

section \<open>One tick\<close>

fun universe_ticks ::
    "('tm source_env \<times> tick_mode) list \<Rightarrow> nat \<Rightarrow> 'tm sacn_source \<Rightarrow> 'tm sacn_source \<times> send_call list" where
  "universe_ticks [] i s = (s, [])"
| "universe_ticks ((E, mode) # Es) i s =
     (case process_universe E mode i True s of (ok, s1, c) \<Rightarrow>
      case universe_ticks Es i s1 of (s2, c') \<Rightarrow> (s2, c @ c'))"

definition ticking :: "'tm source_universe \<Rightarrow> bool" where
  "ticking u \<longleftrightarrow> termination_state u = kNotTerminating \<and> (\<forall>d \<in> set (unicast_dests u). dest_state d = kNotTerminating)"

lemma unicast_termination_loop_idle:
  "(\<forall>d \<in> set (unicast_dests u). dest_state d = kNotTerminating) \<Longrightarrow> k \<le> length (unicast_dests u) \<Longrightarrow>
   unicast_termination_loop E k ok trm u calls = (ok, trm, u, calls)"
  by (induction k) auto

lemma one_tick:
  assumes t: "ticking (universes s ! i)" and i: "i < length (universes s)"
    and p: "process_universe E mode i True s = (ok, s', c)"
  shows "\<exists>v. transmit_levels_and_pap_when_needed E mode (universes s ! i) = (ok, v, c) \<and>
    s' = s\<lparr>universes := (universes s)[i := increment_sequence_number v]\<rparr>"
proof -
  let ?u = "universes s ! i"
  have d: "\<forall>d \<in> set (unicast_dests ?u). dest_state d = kNotTerminating" "termination_state ?u = kNotTerminating"
    using t by (simp_all add: ticking_def)
  have first: "(if mode \<noteq> kSacnSourceTickModeProcessPapOnly then process_unicast_termination E ?u else (True, False, ?u, [])) = (True, False, ?u, [])"
    by (simp add: process_unicast_termination_def unicast_termination_loop_idle[OF d(1) order_refl])
  obtain ok1 v c1 where v: "transmit_levels_and_pap_when_needed E mode ?u = (ok1, v, c1)" by (metis prod_cases3)
  have "process_universe E mode i True s = (ok1, s\<lparr>universes := (universes s)[i := increment_sequence_number v]\<rparr>, c1)"
    unfolding process_universe_def first prod.case Let_def using d(2) i v by (simp add: and_then_def at_index_def)
  then show ?thesis using p v by simp
qed

lemma transmit_split:
  assumes "transmit_levels_and_pap_when_needed E mode u = (ok, v, c)"
  obtains ok1 w c1 c2 where "transmit_levels E mode u = (ok1, w, c1)" "transmit_pap E mode ok1 w = (ok, v, c2)" "c = c1 @ c2"
proof -
  obtain ok1 w c1 where l: "transmit_levels E mode u = (ok1, w, c1)" by (metis prod_cases3)
  obtain ok2 x c2 where p: "transmit_pap E mode ok1 w = (ok2, x, c2)" by (metis prod_cases3)
  have "ok = ok2" "v = x" "c = c1 @ c2" using assms unfolding transmit_levels_and_pap_when_needed_def l prod.case p by simp_all
  then show ?thesis using that[OF l] p by simp
qed

lemma tick_keeps_D:
  assumes "tick_keeps u v"
  shows "universe_id v = universe_id u" "next_seq_num v = next_seq_num u" "level_send_buf v = level_send_buf u"
    "has_level_data v = has_level_data u" "has_pap_data v = has_pap_data u" "mcast_targets v = mcast_targets u"
    "ucast_targets v = ucast_targets u" "ticking v = ticking u"
proof -
  have k: "map dest_key (unicast_dests v) = map dest_key (unicast_dests u)" and s: "termination_state v = termination_state u"
    using assms by (simp_all add: tick_keeps_def)
  have u: "ucast_targets w = map fst (filter (\<lambda>k. fst (snd k) = kNotTerminating) (map dest_key (unicast_dests w)))" for w :: "'b source_universe"
    by (simp add: ucast_targets_def filter_map comp_def dest_key_def)
  have t: "ticking w \<longleftrightarrow> termination_state w = kNotTerminating \<and> (\<forall>k \<in> set (map dest_key (unicast_dests w)). fst (snd k) = kNotTerminating)"
    for w :: "'b source_universe" by (simp add: ticking_def dest_key_def)
  show "ucast_targets v = ucast_targets u" unfolding u k ..
  show "ticking v = ticking u" unfolding t k s ..
qed (use assms in \<open>simp_all add: tick_keeps_def mcast_targets_def\<close>)

lemma increment_same_targets:
  "mcast_targets (increment_sequence_number u) = mcast_targets u" "ucast_targets (increment_sequence_number u) = ucast_targets u"
  "ticking (increment_sequence_number u) = ticking u"
  "level_packets_sent_before_suppression (increment_sequence_number u) = level_packets_sent_before_suppression u"
  "flags (increment_sequence_number u) = (False, False, False, False)"
  by (simp_all add: increment_sequence_number_def Let_def mcast_targets_def ucast_targets_def ticking_def flags_def)

section \<open>A failing interface\<close>

lemma starved_tick:
  assumes t: "ticking u" and n: "n \<in> set (mcast_targets u)" and fail: "\<And>buf. multicast_result E (universe_id u) buf n \<noteq> kEtcPalErrOk"
    and p: "transmit_levels_and_pap_when_needed E mode u = (ok, v, c)"
  shows "SendUnicast a b \<notin> set c" "tick_keeps u v"
    "0 \<le> level_packets_sent_before_suppression u \<Longrightarrow> level_packets_sent_before_suppression u \<le> 4 \<Longrightarrow> has_level_data u \<Longrightarrow>
     level_packets_sent_before_suppression v =
       (if mode \<noteq> kSacnSourceTickModeProcessPapOnly then min 4 (level_packets_sent_before_suppression u + 1)
        else level_packets_sent_before_suppression u)"
proof -
  obtain ok1 w c1 c2 where s: "transmit_levels E mode u = (ok1, w, c1)" "transmit_pap E mode ok1 w = (ok, v, c2)" "c = c1 @ c2"
    using transmit_split[OF p] .
  note l = transmit_levels_spec[OF s(1)] and q = transmit_pap_spec[OF s(2)]
  note k = tick_keeps_D[OF l(4)]
  have bad: "\<not> (\<forall>n \<in> set (mcast_targets u). mcast_ok E u buf n)" for buf
    using n fail by (auto simp: mcast_ok_def)
  have no: "SendUnicast a b \<notin> set (sent_calls E u buf)" for buf
    by (simp only: sent_calls_def bad if_False append_Nil2) auto
  have "sent_calls E w buf = sent_calls E u buf" for buf by (rule sent_keeps(1)) (use k in simp_all)
  then show "SendUnicast a b \<notin> set c" using no l(2) q(2) by (simp add: s(3))
  show "tick_keeps u v" by (rule tick_keeps_trans[OF l(4) q(4)])
  assume "0 \<le> level_packets_sent_before_suppression u" "level_packets_sent_before_suppression u \<le> 4" "has_level_data u"
  then show "level_packets_sent_before_suppression v =
      (if mode \<noteq> kSacnSourceTickModeProcessPapOnly then min 4 (level_packets_sent_before_suppression u + 1)
       else level_packets_sent_before_suppression u)"
    by (auto simp: q(6) l(8) levels_due_def count_sent_def NUM_PRE_SUPPRESSION_PACKETS_def)
qed

lemma starved_ticks:
  assumes "\<forall>(E, mode) \<in> set Es. \<forall>buf. multicast_result E (universe_id (universes s ! i)) buf n \<noteq> kEtcPalErrOk"
    and "ticking (universes s ! i)" "i < length (universes s)" "n \<in> set (mcast_targets (universes s ! i))"
    and "0 \<le> level_packets_sent_before_suppression (universes s ! i)" "level_packets_sent_before_suppression (universes s ! i) \<le> 4"
      "has_level_data (universes s ! i)"
  shows "SendUnicast a b \<notin> set (snd (universe_ticks Es i s)) \<and>
    level_packets_sent_before_suppression (universes (fst (universe_ticks Es i s)) ! i) =
      min 4 (level_packets_sent_before_suppression (universes s ! i) +
        int (length (filter (\<lambda>(E, mode). mode \<noteq> kSacnSourceTickModeProcessPapOnly) Es)))"
  using assms
proof (induction Es arbitrary: s)
  case (Cons x Es)
  obtain E mode where x: "x = (E, mode)" by (metis surj_pair)
  let ?u = "universes s ! i"
  obtain ok s1 c where p: "process_universe E mode i True s = (ok, s1, c)" by (metis prod_cases3)
  obtain v where v: "transmit_levels_and_pap_when_needed E mode ?u = (ok, v, c)"
      "s1 = s\<lparr>universes := (universes s)[i := increment_sequence_number v]\<rparr>"
    using one_tick[OF Cons.prems(2,3) p] by blast
  have u1: "universes s1 ! i = increment_sequence_number v" "length (universes s1) = length (universes s)"
    using Cons.prems(3) by (simp_all add: v(2))
  have fail: "multicast_result E (universe_id ?u) buf n \<noteq> kEtcPalErrOk" for buf using Cons.prems(1) x by auto
  note st = starved_tick[OF Cons.prems(2,4) fail v(1)]
  note k = tick_keeps_D[OF st(2)]
  have lv: "level_packets_sent_before_suppression (universes s1 ! i) =
      (if mode \<noteq> kSacnSourceTickModeProcessPapOnly then min 4 (level_packets_sent_before_suppression ?u + 1)
       else level_packets_sent_before_suppression ?u)"
    unfolding u1(1) increment_same_targets by (rule st(3)[OF Cons.prems(5-7)])
  have IH: "SendUnicast a b \<notin> set (snd (universe_ticks Es i s1)) \<and>
      level_packets_sent_before_suppression (universes (fst (universe_ticks Es i s1)) ! i) =
        min 4 (level_packets_sent_before_suppression (universes s1 ! i) +
          int (length (filter (\<lambda>(E, mode). mode \<noteq> kSacnSourceTickModeProcessPapOnly) Es)))"
  proof (rule Cons.IH)
    show "\<forall>(E, mode) \<in> set Es. \<forall>buf. multicast_result E (universe_id (universes s1 ! i)) buf n \<noteq> kEtcPalErrOk"
      using Cons.prems(1) by (simp add: u1(1) increment_same k)
    show "ticking (universes s1 ! i)" "n \<in> set (mcast_targets (universes s1 ! i))" "has_level_data (universes s1 ! i)"
      using Cons.prems by (simp_all add: u1(1) increment_same increment_same_targets k)
    show "0 \<le> level_packets_sent_before_suppression (universes s1 ! i)" "level_packets_sent_before_suppression (universes s1 ! i) \<le> 4"
      unfolding lv using Cons.prems(5,6) by auto
    show "i < length (universes s1)" using Cons.prems(3) u1(2) by simp
  qed
  have "universe_ticks (x # Es) i s = (fst (universe_ticks Es i s1), c @ snd (universe_ticks Es i s1))"
    by (simp add: x p split: prod.split)
  then show ?case using IH st(1)[of a b] Cons.prems(5,6) unfolding lv by (auto simp: x)
qed simp

section \<open>Transmission suppression and sequence numbers\<close>

text \<open>
  The sequence numbers of the packets sent in ticks with the keep-alive timer expired or not (\<open>es\<close>),
  when \<open>k\<close> packets have been sent since the last change and \<open>sq\<close> is the next number.
\<close>

fun level_schedule :: "int \<Rightarrow> u8 \<Rightarrow> bool list \<Rightarrow> u8 list" where
  "level_schedule k sq [] = []"
| "level_schedule k sq (e # es) =
     (if k < 4 \<or> e then sq # level_schedule (if k < 4 then k + 1 else k) (sq + 1) es else level_schedule k sq es)"

definition packet_calls :: "'tm source_universe \<Rightarrow> u8 list \<Rightarrow> send_call list" where
  "packet_calls u buf = map (\<lambda>n. SendMulticast (universe_id u) n buf) (mcast_targets u) @ map (\<lambda>a. SendUnicast a buf) (ucast_targets u)"

definition serving :: "'tm source_env \<Rightarrow> bool" where
  "serving E \<longleftrightarrow> (\<forall>uni buf n. multicast_result E uni buf n = kEtcPalErrOk) \<and> (\<forall>buf a. unicast_result E buf a = kEtcPalErrOk)"

lemma serving_sends:
  assumes "serving E"
  shows "sent_calls E u buf = packet_calls u buf" "sent_some E u buf = (mcast_targets u \<noteq> [] \<or> ucast_targets u \<noteq> [])"
proof -
  have ok: "mcast_ok E u buf n" "ucast_ok E buf a" for n a using assms unfolding serving_def mcast_ok_def ucast_ok_def by blast+
  show "sent_calls E u buf = packet_calls u buf" by (simp add: sent_calls_def packet_calls_def ok)
  show "sent_some E u buf = (mcast_targets u \<noteq> [] \<or> ucast_targets u \<noteq> [])"
    by (simp add: sent_some_def ok ex_in_conv del: split_paired_Ex)
qed

text \<open>The buffer as it was, numbered again.\<close>

definition numbered :: "u8 list \<Rightarrow> 'tm source_universe \<Rightarrow> bool" where
  "numbered B u \<longleftrightarrow> level_send_buf u = pack_sequence_number B (next_seq_num u) \<and> 125 < length B \<and> B ! 125 = 0 \<and>
     flags u = (False, False, False, False)"

lemma served_tick:
  assumes E: "serving E" and u: "numbered B u" "has_level_data u" "\<not> has_pap_data u" "mcast_targets u \<noteq> [] \<or> ucast_targets u \<noteq> []"
    and mode: "mode \<noteq> kSacnSourceTickModeProcessPapOnly"
    and p: "transmit_levels_and_pap_when_needed E mode u = (ok, v, c)"
    and due: "due = (level_packets_sent_before_suppression u < 4 \<or> timer_is_expired E (level_keep_alive_timer u))"
  shows "c = (if due then packet_calls u (level_send_buf u) else [])" "tick_keeps u v" "numbered B (increment_sequence_number v)"
    "next_seq_num (increment_sequence_number v) = (if due then next_seq_num u + 1 else next_seq_num u)"
    "level_packets_sent_before_suppression v =
       (if level_packets_sent_before_suppression u < 4 then level_packets_sent_before_suppression u + 1
        else level_packets_sent_before_suppression u)"
proof -
  obtain ok1 w c1 c2 where s: "transmit_levels E mode u = (ok1, w, c1)" "transmit_pap E mode ok1 w = (ok, v, c2)" "c = c1 @ c2"
    using transmit_split[OF p] .
  note l = transmit_levels_spec[OF s(1)] and q = transmit_pap_spec[OF s(2)]
  have d: "levels_due E mode u = due" using mode u(2) by (simp add: levels_due_def NUM_PRE_SUPPRESSION_PACKETS_def due)
  have np: "\<not> pap_due E mode w" using tick_keeps_D(5)[OF l(4)] u(3) by (simp add: pap_due_def)
  show k: "tick_keeps u v" by (rule tick_keeps_trans[OF l(4) q(4)])
  show "c = (if due then packet_calls u (level_send_buf u) else [])"
    using l(2) q(2) np by (simp add: s(3) d serving_sends[OF E])
  show "level_packets_sent_before_suppression v =
      (if level_packets_sent_before_suppression u < 4 then level_packets_sent_before_suppression u + 1
       else level_packets_sent_before_suppression u)"
    by (auto simp: q(6) l(8) d due count_sent_def NUM_PRE_SUPPRESSION_PACKETS_def)
  have n: "level_send_buf u = pack_sequence_number B (next_seq_num u)" "125 < length B" "B ! 125 = 0" "flags u = (False, False, False, False)"
    using u(1) by (simp_all add: numbered_def)
  have "level_send_buf u ! 125 = 0" using n(2,3) by (simp add: n(1) pack_sequence_number_def)
  moreover have "flags v = mark_sent (level_send_buf u) due (False, False, False, False)"
    using q(3) np l(3) u(4) by (simp add: d n(4) serving_sends[OF E] mark_sent_def[of _ False])
  ultimately have "flags v = (due, False, False, due)" by (cases due) (simp_all add: mark_sent_def)
  then have f: "levels_sent_this_tick v = due" "\<not> pap_sent_this_tick v" "\<not> other_sent_this_tick v" by (simp_all add: flags_def)
  note kd = tick_keeps_D[OF k]
  show sq: "next_seq_num (increment_sequence_number v) = (if due then next_seq_num u + 1 else next_seq_num u)"
    using f kd(2) by (simp add: increment_sequence_number_def Let_def)
  have "level_send_buf (increment_sequence_number v) =
      pack_sequence_number (level_send_buf v) (next_seq_num (increment_sequence_number v))"
    using f by (simp add: increment_sequence_number_def Let_def)
  also have "\<dots> = pack_sequence_number B (next_seq_num (increment_sequence_number v))"
    by (simp add: kd(3) n(1) pack_sequence_number_def)
  finally show "numbered B (increment_sequence_number v)"
    using n(2,3) by (simp add: numbered_def increment_same_targets)
qed

lemma served_ticks:
  assumes "\<forall>(E, mode) \<in> set Es. serving E \<and> mode \<noteq> kSacnSourceTickModeProcessPapOnly \<and> (\<forall>t t'. timer_is_expired E t = timer_is_expired E t')"
    and "ticking (universes s ! i)" "i < length (universes s)" "numbered B (universes s ! i)" "has_level_data (universes s ! i)"
      "\<not> has_pap_data (universes s ! i)" "mcast_targets (universes s ! i) \<noteq> [] \<or> ucast_targets (universes s ! i) \<noteq> []"
  shows "snd (universe_ticks Es i s) =
    concat (map (\<lambda>sq. packet_calls (universes s ! i) (pack_sequence_number B sq))
      (level_schedule (level_packets_sent_before_suppression (universes s ! i)) (next_seq_num (universes s ! i))
        (map (\<lambda>(E, mode). timer_is_expired E t) Es)))"
  using assms
proof (induction Es arbitrary: s)
  case (Cons x Es)
  obtain E mode where x: "x = (E, mode)" by (metis surj_pair)
  have E: "serving E" "mode \<noteq> kSacnSourceTickModeProcessPapOnly" "\<And>t t'. timer_is_expired E t = timer_is_expired E t'"
    using Cons.prems(1) x by auto
  let ?u = "universes s ! i"
  obtain ok s1 c where p: "process_universe E mode i True s = (ok, s1, c)" by (metis prod_cases3)
  obtain v where v: "transmit_levels_and_pap_when_needed E mode ?u = (ok, v, c)"
      "s1 = s\<lparr>universes := (universes s)[i := increment_sequence_number v]\<rparr>"
    using one_tick[OF Cons.prems(2,3) p] by blast
  have u1: "universes s1 ! i = increment_sequence_number v" "length (universes s1) = length (universes s)"
    using Cons.prems(3) by (simp_all add: v(2))
  note tick = served_tick[OF E(1) Cons.prems(4-7) E(2) v(1) refl]
  note k = tick_keeps_D[OF tick(2)]
  have same: "packet_calls (universes s1 ! i) = packet_calls ?u"
    by (simp add: packet_calls_def u1(1) increment_same increment_same_targets k fun_eq_iff)
  have IH: "snd (universe_ticks Es i s1) =
    concat (map (\<lambda>sq. packet_calls ?u (pack_sequence_number B sq))
      (level_schedule (level_packets_sent_before_suppression v) (next_seq_num (increment_sequence_number v))
        (map (\<lambda>(E, mode). timer_is_expired E t) Es)))"
  proof (rule trans[OF Cons.IH])
    show "\<forall>(E, mode) \<in> set Es. serving E \<and> mode \<noteq> kSacnSourceTickModeProcessPapOnly \<and> (\<forall>t t'. timer_is_expired E t = timer_is_expired E t')"
      using Cons.prems(1) by simp
    show "numbered B (universes s1 ! i)" unfolding u1(1) by (rule tick(3))
    show "ticking (universes s1 ! i)" "has_level_data (universes s1 ! i)" "\<not> has_pap_data (universes s1 ! i)"
      "mcast_targets (universes s1 ! i) \<noteq> [] \<or> ucast_targets (universes s1 ! i) \<noteq> []"
      using Cons.prems by (simp_all add: u1(1) increment_same increment_same_targets k)
    show "i < length (universes s1)" using Cons.prems(3) u1(2) by simp
  qed (simp only: same, simp only: u1(1) increment_same_targets)
  have buf: "level_send_buf ?u = pack_sequence_number B (next_seq_num ?u)" using Cons.prems(4) by (simp add: numbered_def)
  have ex: "timer_is_expired E (level_keep_alive_timer ?u) = timer_is_expired E t" by (rule E(3))
  have "snd (universe_ticks (x # Es) i s) = c @ snd (universe_ticks Es i s1)"
    by (simp add: x p split: prod.split)
  then show ?case unfolding IH tick(1,4,5) ex buf by (simp add: x)
qed simp

lemma level_schedule_first:
  "0 \<le> k \<Longrightarrow> k \<le> 4 \<Longrightarrow> level_schedule k sq (replicate n False) = map (\<lambda>j. sq + of_nat j) [0..<min n (nat (4 - k))]"
proof (induction n arbitrary: k sq)
  case (Suc n)
  show ?case
  proof (cases "k < 4")
    case True
    have "min (Suc n) (nat (4 - k)) = Suc (min n (nat (4 - (k + 1))))" using True by auto
    then have "map (\<lambda>j. sq + of_nat j) [0..<min (Suc n) (nat (4 - k))] = sq # map (\<lambda>j. sq + 1 + of_nat j) [0..<min n (nat (4 - (k + 1)))]"
      by (simp only: map_upt_Suc) (simp add: add.assoc)
    then show ?thesis using Suc.IH[of "k + 1" "sq + 1"] Suc.prems True by simp
  next
    case False
    then show ?thesis using Suc.IH[of k sq] Suc.prems by simp
  qed
qed simp

end
