(* ===== verification/SourceExample.thy ===== *)
theory SourceExample
  imports SourceRun SourceTicks
begin

text \<open>
  A concrete environment, calls and universes, on which the properties of the sources are
  instantiated.
\<close>

section \<open>A concrete environment\<close>

definition demo_env :: "nat source_env" where
  "demo_env = \<lparr>acn = big_endian_lib, timer_start = (\<lambda>ms. 0), timer_reset = (\<lambda>t. t), timer_is_expired = (\<lambda>t. False),
     multicast_result = (\<lambda>uni buf n. kEtcPalErrOk), unicast_result = (\<lambda>buf a. kEtcPalErrOk),
     unicast_last_error = (\<lambda>buf a e. e)\<rparr>"

definition demo_api :: "nat api_env" where
  "demo_api = \<lparr>tick_env = demo_env, is_initialized = True, lock_taken = True, has_room = (\<lambda>n. True), alloc_ok = True,
     thread_create_result = kEtcPalErrOk, next_handle = 0, zero_timer = 0,
     ip_is_invalid = (\<lambda>a. a = 0), initialize_netints = (\<lambda>uni. (kEtcPalErrOk, [(1, 0)]))\<rparr>"

definition demo_source :: source_config where
  "demo_source = \<lparr>config_cid = replicate 16 7, config_name = [0x41], config_universe_count_max = 0, manually_process_source = False,
     config_keep_alive_interval = 800, config_pap_keep_alive_interval = 1000\<rparr>"

definition demo_universe :: "u16 \<Rightarrow> universe_config" where
  "demo_universe uni = \<lparr>config_universe = uni, config_priority = 100, config_send_preview = False, config_send_unicast_only = False,
     config_unicast_destinations = [10], config_sync_universe = 0\<rparr>"

definition demo_calls :: "(nat api_env \<times> source_call) list" where
  "demo_calls = map (Pair demo_api)
     [CreateSource demo_source, AddUniverse 0 (demo_universe 1), UpdateSourceLevels 0 1 (Some [10, 20]) 2,
      ThreadTick kSacnSourceTickModeProcessLevelsOnly, RemoveUniverse 0 1, StateDeinit True True]"

lemma demo_calls_ok: "\<forall>Vc \<in> set demo_calls. acn (tick_env (fst Vc)) = big_endian_lib \<and> source_call_ok (snd Vc)"
  by (simp add: demo_calls_def demo_api_def demo_env_def demo_source_def)

lemma demo_created:
  "\<exists>M s. exec_source demo_api (CreateSource demo_source) initial_source_module = Some M \<and> sources M = [s] \<and>
     source_handle s = 0 \<and> universes s = [] \<and> \<not> terminating s \<and> universe_count_max s = 0 \<and> source_inv big_endian_lib s"
proof -
  have len: "length (config_cid demo_source) = 16" by (simp add: demo_source_def)
  obtain M where M: "exec_source demo_api (CreateSource demo_source) initial_source_module = Some M" "module_inv big_endian_lib M"
    using exec_source_inv[of demo_api initial_source_module "CreateSource demo_source"] len initial_module_inv big_endian_laws
    by (auto simp: demo_api_def demo_env_def)
  have d: "acn (tick_env demo_api) = big_endian_lib" by (simp add: demo_api_def demo_env_def)
  note i = init_discovery_layout[OF big_endian_laws len, of "config_name demo_source"]
  have "\<exists>s. sources M = [s] \<and> source_handle s = 0 \<and> universes s = [] \<and> \<not> terminating s \<and> universe_count_max s = 0"
    using M(1) i unfolding exec_source.simps sacn_source_create_def add_sacn_source_def kSacnSourceInvalid_def d
    by (simp add: demo_api_def demo_source_def initial_source_module_def initialize_source_thread_def get_source_index_def Let_def) auto
  then obtain s where s: "sources M = [s]" "source_handle s = 0" "universes s = []" "\<not> terminating s" "universe_count_max s = 0"
    by blast
  then have "source_inv big_endian_lib s" using M(2) by (simp add: module_inv_def)
  then show ?thesis using M(1) s by blast
qed

lemma demo_added:
  "\<exists>M s u. run_source (take 2 demo_calls) initial_source_module = Some M \<and> sources M = [s] \<and> source_handle s = 0 \<and>
     universes s = [u] \<and> universe_id u = 1"
proof -
  obtain M s where s: "exec_source demo_api (CreateSource demo_source) initial_source_module = Some M" "sources M = [s]"
     "source_handle s = 0" "universes s = []" "\<not> terminating s" "universe_count_max s = 0" "source_inv big_endian_lib s"
    using demo_created by auto
  have d: "acn (tick_env demo_api) = big_endian_lib" by (simp add: demo_api_def demo_env_def)
  obtain u where u: "new_universe demo_api (demo_universe 1) s = Some u" "ukey u = (1, False, False)"
    using new_universe_inv[of demo_api s "demo_universe 1"] big_endian_laws source_inv_D(1)[OF s(7)] unfolding d
    by (auto simp: demo_universe_def UNIVERSE_ID_VALID_def)
  define u1 where "u1 = u\<lparr>unicast_dests := unicast_dests u @ [new_unicast_dest 10], netints := [(1, 0)]\<rparr>"
  have "add_sacn_source_universe demo_api (demo_universe 1) s = Some (kEtcPalErrOk, 0, s\<lparr>universes := [u1]\<rparr>)"
    unfolding add_sacn_source_universe_def using u(1) s(4,6)
    by (simp add: kSacnSourceInfiniteUniverses_def demo_api_def demo_universe_def add_sacn_unicast_dest_def u1_def Let_def)
  moreover obtain xs r where "add_source_netints (has_room demo_api) (netints u1) (s\<lparr>universes := [u1]\<rparr>) = (r, (s\<lparr>universes := [u1]\<rparr>)\<lparr>source_netints := xs\<rparr>)"
    using add_source_netints_same by (metis surj_pair)
  ultimately have "exec_source demo_api (AddUniverse 0 (demo_universe 1)) M = Some (put_source 0 (s\<lparr>universes := [u1], source_netints := xs\<rparr>) M)"
    using s by (simp add: sacn_source_add_universe_def get_source_index_def get_source_universe_index_def Let_def)
      (simp add: demo_api_def demo_universe_def kSacnSourceInvalid_def UNIVERSE_ID_VALID_def)
  then have "run_source (take 2 demo_calls) initial_source_module = Some (put_source 0 (s\<lparr>universes := [u1], source_netints := xs\<rparr>) M)"
    using s(1) by (simp add: run_source_def step_source_def demo_calls_def del: exec_source.simps)
  moreover have "universe_id u1 = 1" using u(2) by (simp add: ukey_def u1_def)
  ultimately show ?thesis using s(2,3) by (intro exI[of _ "put_source 0 (s\<lparr>universes := [u1], source_netints := xs\<rparr>) M"]) (simp add: put_source_def)
qed
section \<open>A concrete source\<close>

definition demo_buf :: "u8 \<Rightarrow> u8 list" where
  "demo_buf code = data_header big_endian_lib (replicate 16 7) (name_field [0x41]) 100 0 (preview_opt False) 1 code (int 2) @
     [10, 20] @ replicate 510 0"

definition demo_state :: "nat source_universe" where
  "demo_state = \<lparr>universe_id = 1, termination_state = kNotTerminating, num_terminations_sent = 0, priority = 100, sync_universe = 0,
     send_preview = False, next_seq_num = 0, level_packets_sent_before_suppression = 0, level_keep_alive_timer = 0,
     level_send_buf = demo_buf 0, has_level_data = True, levels_sent_this_tick = False,
     pap_packets_sent_before_suppression = 0, pap_keep_alive_timer = 0, pap_send_buf = demo_buf 0xdd, has_pap_data = False,
     pap_sent_this_tick = False, other_sent_this_tick = False, anything_sent_this_tick = False,
     unicast_dests = [new_unicast_dest 10], send_unicast_only = False, last_send_error = kEtcPalErrOk, netints = [(1, 0)]\<rparr>"

definition demo_sending :: "nat sacn_source" where
  "demo_sending = \<lparr>source_handle = 0, cid = replicate 16 7, source_name = name_field [0x41], terminating = False,
     universes = [demo_state], num_active_universes = 1, universe_discovery_timer = 0, process_manually = False,
     keep_alive_interval = 800, pap_keep_alive_interval = 1000, universe_count_max = 0, stats_log_timer = 0,
     total_tick_count = 0, failed_tick_count = 0, source_netints = [\<lparr>netint_id = (1, 0), num_refs = 1\<rparr>],
     universe_discovery_send_buf = discovery_buf big_endian_lib (replicate 16 7) (name_field [0x41]) 0 0 0 (replicate 1024 0)\<rparr>"

lemma demo_ids: "ids_ok (replicate 16 7) (name_field [0x41])"
  by (simp add: ids_ok_def name_field_idem)

lemma demo_state_inv: "universe_inv big_endian_lib (replicate 16 7) (name_field [0x41]) demo_state"
proof -
  have "buf_ok big_endian_lib (replicate 16 7) (name_field [0x41]) 100 1 False code 0 (demo_buf code)" for code
    unfolding buf_ok_def demo_buf_def by (intro exI[of _ 2] exI[of _ "[10, 20] @ replicate 510 0"]) simp
  then show ?thesis by (simp add: universe_inv_def demo_state_def UNIVERSE_ID_VALID_def flags_def new_unicast_dest_def)
qed

lemma demo_sending_inv: "source_inv big_endian_lib demo_sending"
proof -
  have "discovery_ok big_endian_lib (replicate 16 7) (name_field [0x41])
      (discovery_buf big_endian_lib (replicate 16 7) (name_field [0x41]) 0 0 0 (replicate 1024 0))"
    unfolding discovery_ok_def by (intro exI[of _ 0] exI[of _ 0] exI[of _ 0] exI[of _ "replicate 1024 0"]) simp
  then show ?thesis
    using demo_ids demo_state_inv
    by (simp add: source_inv_def demo_sending_def descending_def count_active_def)
       (simp add: demo_state_def IS_PART_OF_UNIVERSE_DISCOVERY_def)
qed

lemma demo_targets: "mcast_targets demo_state = [(1, 0)]" "ucast_targets demo_state = [10]" "ticking demo_state"
  by (simp_all add: mcast_targets_def ucast_targets_def ticking_def demo_state_def new_unicast_dest_def)

end
