(* ===== verification/SourcePages.thy ===== *)
theory SourcePages
  imports SourceDiscovery
begin

text \<open>
  The pages of universe discovery as a receiver sees them: the universe list layer of a page is
  parsed back to the identifiers on the page and to its page numbers. \<open>chunks\<close> cuts a list into
  pieces of 512.
\<close>

section \<open>Chunks\<close>

lemma chunks_Nil [simp]: "chunks [] = []"
  by (simp add: chunks.simps)

lemma concat_chunks: "concat (chunks xs) = xs"
proof (induction xs rule: chunks.induct)
  case (1 xs)
  then show ?case by (cases "xs = []") (simp_all add: chunks.simps[of xs])
qed

lemma chunks_length: "c \<in> set (chunks xs) \<Longrightarrow> 0 < length c \<and> length c \<le> 512"
proof (induction xs rule: chunks.induct)
  case (1 xs)
  then show ?case by (cases "xs = []") (auto simp: chunks.simps[of xs])
qed

lemma length_chunks: "length (chunks xs) = (length xs + 511) div 512"
proof (induction xs rule: chunks.induct)
  case (1 xs)
  show ?case
  proof (cases "xs = []")
    case False
    have "length (chunks xs) = Suc ((length xs - 512 + 511) div 512)" using 1 False by (simp add: chunks.simps[of xs])
    also have "\<dots> = (length xs + 511) div 512"
    proof (cases "length xs \<le> 512")
      case True
      have "0 < length xs" using False by simp
      then have "512 \<le> length xs + 511" "length xs + 511 < 1024" using True by linarith+
      then show ?thesis using True by (simp add: div_nat_eqI)
    qed simp
    finally show ?thesis .
  qed simp
qed

section \<open>A page read back\<close>

lemma id_bytes_nth: "acn_laws L \<Longrightarrow> k < length ids \<Longrightarrow> take 2 (drop (2 * k) (id_bytes L ids)) = pack_u16b L (ids ! k)"
proof (induction ids arbitrary: k)
  case (Cons x ids)
  then show ?case by (cases k) (simp_all add: id_bytes_def)
qed simp

lemma list_layer_parses:
  assumes L: "acn_laws L" and n: "0 < length ids" "length ids \<le> 512"
  shows "unpack_universe_discovery dyn L (discovery_layer L (int (length ids)) pg lst @ id_bytes L ids) (8 + 2 * length ids) =
    Some (Some (\<lparr>page = uint pg, last_page = uint lst, universes = Some 8, num_universes = length ids\<rparr>, ids))"
proof -
  let ?n = "length ids"
  define data where "data = discovery_layer L (int ?n) pg lst @ id_bytes L ids"
  note lens = flags_length_laws(1)[OF L] L
  let ?f = "flags_length L (8 + 2 * int ?n)"
  let ?v = "pack_u32b L VECTOR_UNIVERSE_DISCOVERY_UNIVERSE_LIST"
  have data: "data = ?f @ ?v @ [pg] @ [lst] @ id_bytes L ids"
    by (simp add: data_def discovery_layer_def mult.commute)
  obtain c v' where c: "?v = c # v'" using L by (cases "?v") (metis acn_lengths(2) length_0_conv zero_neq_numeral, auto)
  have len: "length data = 8 + 2 * ?n" by (simp add: data lens length_id_bytes[OF L])
  have g0: "get_bytes data 0 3 = Some (?f @ [c])"
    by (rule get_field[of _ "[]"], simp only: data c append_Nil) (simp_all add: lens)
  have g2: "get_bytes data 2 4 = Some ?v"
    by (rule get_field[of _ "?f"], simp only: data append_assoc) (simp_all add: lens)
  have g6: "get_byte data 6 = Some pg" by (rule get_byte_field[of _ "?f @ ?v"], simp only: data append_assoc) (simp_all add: lens)
  have g7: "get_byte data 7 = Some lst" by (rule get_byte_field[of _ "?f @ ?v @ [pg]"], simp only: data append_assoc) (simp_all add: lens)
  have size: "ACN_PDU_LENGTH L (?f @ [c]) = 8 + 2 * int ?n" using n by (intro flags_length_laws(4)[OF L]) simp_all
  have parse: "parse_sacn_universe_discovery_layer L data (8 + 2 * ?n) =
      Some (Some \<lparr>page = uint pg, last_page = uint lst, universes = Some 8, num_universes = ?n\<rparr>)"
    using n(1) by (simp add: parse_sacn_universe_discovery_layer_def g0 g2 g6 g7 size acn_unpack[OF L])
  have "take 2 (drop (8 + 2 * k) data) = pack_u16b L (ids ! k)" if "k < ?n" for k
  proof -
    have "drop 8 data = id_bytes L ids" unfolding data by (simp add: lens)
    then have "drop (8 + 2 * k) data = drop (2 * k) (id_bytes L ids)" by (simp add: add.commute drop_drop[symmetric] del: drop_drop)
    then show ?thesis using id_bytes_nth[OF L that] by simp
  qed
  then have "map (\<lambda>k. unpack_u16b L (take 2 (drop (8 + 2 * k) data))) [0..<?n] = ids"
    by (intro nth_equalityI) (simp_all add: acn_unpack[OF L])
  then have "read_universe_list L data 8 0 ?n (replicate (if dyn then ?n else 512) 0) =
      Some (ids @ drop ?n (replicate (if dyn then ?n else 512) 0))"
    using n len by (simp add: read_universe_list_spec)
  then show ?thesis
    unfolding data_def[symmetric] unpack_universe_discovery_def parse
    by (cases dyn) (simp_all add: parse_sacn_universe_list_def SACN_MAX_UNIVERSES_PER_PAGE_def)
qed

lemma page_parses:
  assumes L: "acn_laws L" and ids: "ids_ok (cid s) (source_name s)" and p: "is_page L s pg us buf" and n: "0 < length us" "length us \<le> 512"
  shows "unpack_universe_discovery dyn L (drop 112 (take (120 + 2 * length us) buf)) (8 + 2 * length us) =
    Some (Some (\<lparr>page = uint pg, last_page = uint (last_page_number s), universes = Some 8, num_universes = length us\<rparr>, us))"
proof -
  obtain rest where b: "buf = discovery_buf L (cid s) (source_name s) (length us) pg (last_page_number s) (id_bytes L us @ rest)"
    using p by (auto simp: is_page_def)
  note len = ids_ok_D(1,2)[OF ids] length_layers[OF L] L
  define head where "head = root_layer L (120 + 2 * int (length us)) True (cid s) @ discovery_framing_layer L (int (length us)) (source_name s)"
  have "buf = head @ discovery_layer L (int (length us)) pg (last_page_number s) @ id_bytes L us @ rest"
    by (simp add: b head_def discovery_buf_def)
  moreover have "length head = 112" using len by (simp add: head_def)
  moreover have "length (discovery_layer L (int (length us)) pg (last_page_number s)) = 8" using len by simp
  ultimately have "drop 112 (take (120 + 2 * length us) buf) = discovery_layer L (int (length us)) pg (last_page_number s) @ id_bytes L us"
    by (simp add: length_id_bytes[OF L])
  then show ?thesis by (simp only: list_layer_parses[OF L n])
qed

end
