(* ===== verification/SourceLevels.thy ===== *)
theory SourceLevels
  imports SourceCalls
begin

text \<open>
  What the send buffers hold after levels and priorities have been updated: the slots given, and
  a level of 0 wherever the priority is 0 or missing.
\<close>

lemma update_stores:
  assumes L: "acn_laws L" "ids_ok the_cid nm" and b: "buf_ok L the_cid nm prio uni pv code sq buf" and n: "n \<le> 512" "n \<le> length new"
  shows "\<exists>buf'. update_send_buf_data L buf new (of_nat n) = Some buf' \<and> buf_ok L the_cid nm prio uni pv code sq buf' \<and>
    unpack_u16b L (take 2 (drop 123 buf')) - 1 = of_nat n \<and> length buf' = 638 \<and> (\<forall>k < n. buf' ! (126 + k) = new ! k)"
proof -
  note len = ids_ok_D(1,2)[OF L(2)]
  obtain m area where m: "m \<le> 512" "length area = 512" "buf = data_header L the_cid nm prio sq (preview_opt pv) uni code (int m) @ area"
    using b by (auto simp: buf_ok_def)
  define w :: u16 where "w = of_nat n"
  have w: "unat w = n" "uint w = int n" using n(1) by (simp_all add: w_def unat_of_nat uint_nat)
  let ?h = "data_header L the_cid nm prio sq (preview_opt pv) uni code (int n)"
  let ?a = "take n new @ drop n area"
  have up: "update_send_buf_data L buf new w = Some (?h @ ?a)"
    using update_send_buf_data_layout[OF L(1) len m(2), of w new] n w by (simp add: m(3))
  have a: "length ?a = 512" using m(2) n by simp
  have "buf_ok L the_cid nm prio uni pv code sq (?h @ ?a)" using a n(1) unfolding buf_ok_def by blast
  moreover have "unpack_u16b L (take 2 (drop 123 (?h @ ?a))) - 1 = of_nat n" by (rule buf_count[OF L(1) len n(1)])
  moreover have "(?h @ ?a) ! (126 + k) = new ! k" if "k < n" for k
    using that n L(1) len by (simp add: nth_append)
  moreover have "length (?h @ ?a) = 638" using a L(1) len by simp
  ultimately show ?thesis using up unfolding w_def by blast
qed

lemma length_fold_offset: "length (fold (\<lambda>i a. if P i then a[off + i := x] else a) is a) = length a"
  by (induction "is" arbitrary: a) simp_all

lemma nth_fold_offset:
  "off + n \<le> length a \<Longrightarrow> fold (\<lambda>i a. if P i then a[off + i := x] else a) [0..<n] a ! (off + k) = (if k < n \<and> P k then x else a ! (off + k))"
proof (induction n)
  case (Suc n)
  then show ?case by (cases "k = n") (auto simp: nth_list_update length_fold_offset)
qed simp

lemma zero_levels_stores:
  assumes c: "unpack_u16b L (take 2 (drop 123 (level_send_buf u))) - 1 = of_nat n" "unpack_u16b L (take 2 (drop 123 (pap_send_buf u))) - 1 = of_nat m"
    and b: "n \<le> 512" "m \<le> 512" "length (level_send_buf u) = 638"
  shows "level_send_buf (zero_levels_where_pap_is_zero L u) ! (126 + k) =
    (if k < n \<and> (m \<le> k \<or> pap_send_buf u ! (126 + k) = 0) then 0 else level_send_buf u ! (126 + k))"
proof -
  have un: "unat (of_nat n :: u16) = n" "unat (of_nat m :: u16) = m" using b(1,2) by (simp_all add: unat_of_nat)
  have "126 + n \<le> length (level_send_buf u)" using b by simp
  from nth_fold_offset[OF this, of "\<lambda>i. m \<le> i \<or> pap_send_buf u ! (126 + i) = 0" 0 k] show ?thesis
    by (simp add: zero_levels_where_pap_is_zero_def Let_def c un)
qed

lemma reset_suppression_same:
  "level_send_buf (reset_transmission_suppression E s b u) = level_send_buf u"
  "pap_send_buf (reset_transmission_suppression E s b u) = pap_send_buf u"
  "has_pap_data (reset_transmission_suppression E s b u) = has_pap_data u"
  "b = kResetLevel \<Longrightarrow> level_packets_sent_before_suppression (reset_transmission_suppression E s b u) = 0"
  "b = kResetLevel \<Longrightarrow> pap_packets_sent_before_suppression (reset_transmission_suppression E s b u) = pap_packets_sent_before_suppression u"
  "b = kResetPap \<Longrightarrow> pap_packets_sent_before_suppression (reset_transmission_suppression E s b u) = 0"
  by (simp_all add: reset_transmission_suppression_def Let_def)

lemma zero_levels_same:
  "pap_send_buf (zero_levels_where_pap_is_zero L u) = pap_send_buf u" "has_level_data (zero_levels_where_pap_is_zero L u) = has_level_data u"
  "has_pap_data (zero_levels_where_pap_is_zero L u) = has_pap_data u"
  "termination_state (zero_levels_where_pap_is_zero L u) = termination_state u"
  "pap_packets_sent_before_suppression (zero_levels_where_pap_is_zero L u) = pap_packets_sent_before_suppression u"
  by (simp_all add: zero_levels_where_pap_is_zero_def Let_def)

lemma cancel_termination_suppression:
  "pap_packets_sent_before_suppression (cancel_termination_if_not_removing u) = pap_packets_sent_before_suppression u"
  "termination_state u \<noteq> kTerminatingAndRemoving \<Longrightarrow> termination_state (cancel_termination_if_not_removing u) = kNotTerminating"
  by (cases "termination_state u"; simp add: cancel_termination_if_not_removing_def)+

text \<open>Priorities and then levels, for the universe at \<open>j\<close>.\<close>

definition holds_levels_and_pap :: "u8 list \<Rightarrow> nat \<Rightarrow> u8 list \<Rightarrow> nat \<Rightarrow> 'tm source_universe \<Rightarrow> bool" where
  "holds_levels_and_pap ls n ps m u \<longleftrightarrow>
     (\<forall>k < n. level_send_buf u ! (126 + k) = (if k < m \<and> ps ! k \<noteq> 0 then ls ! k else 0)) \<and>
     (\<forall>k < m. pap_send_buf u ! (126 + k) = ps ! k) \<and> has_level_data u \<and> has_pap_data u \<and>
     level_packets_sent_before_suppression u = 0 \<and> pap_packets_sent_before_suppression u = 0 \<and>
     termination_state u = kNotTerminating"

lemma update_levels_and_pap_stores:
  assumes L: "acn_laws (acn E)" and inv: "source_inv (acn E) s" and j: "j < length (universes s)"
    and t: "termination_state (universes s ! j) \<noteq> kTerminatingAndRemoving"
    and n: "0 < n" "n \<le> 512" "n \<le> length ls" and m: "0 < m" "m \<le> 512" "m \<le> length ps"
  shows "\<exists>s'. update_levels_and_or_pap E (Some ls) n (Some ps) m j s = Some s' \<and> length (universes s') = length (universes s) \<and>
    holds_levels_and_pap ls n ps m (universes s' ! j)"
proof -
  let ?u = "universes s ! j"
  note D = source_inv_D[OF inv]
  have u: "universe_inv (acn E) (cid s) (source_name s) ?u" using D(2) j by simp
  note U = universe_inv_D[OF u]
  obtain pb where pb: "update_send_buf_data (acn E) (pap_send_buf ?u) ps (of_nat m) = Some pb"
      "unpack_u16b (acn E) (take 2 (drop 123 pb)) - 1 = of_nat m" "\<forall>k < m. pb ! (126 + k) = ps ! k"
    using update_stores[OF L D(1) U(2) m(2,3)] by blast
  define r where "r = reset_transmission_suppression E s kResetPap (?u\<lparr>pap_send_buf := pb, has_pap_data := True\<rparr>)"
  define s1 where "s1 = s\<lparr>universes := (universes s)[j := r]\<rparr>"
  have first: "state_update_pap E ps m j s = Some s1"
    using m(1) pb(1) by (simp add: state_update_pap_def Let_def r_def s1_def)
  define c where "c = cancel_termination_if_not_removing r"
  have r: "level_send_buf r = level_send_buf ?u" "pap_send_buf r = pb" "has_pap_data r" "pap_packets_sent_before_suppression r = 0"
    "termination_state r = termination_state ?u"
    by (simp_all add: r_def reset_suppression_same)
  have c: "level_send_buf c = level_send_buf ?u" "pap_send_buf c = pb" "has_pap_data c" "pap_packets_sent_before_suppression c = 0"
    "termination_state c = kNotTerminating"
    using r t by (simp_all add: c_def cancel_termination_same cancel_termination_suppression)
  obtain lb where lb: "update_send_buf_data (acn E) (level_send_buf ?u) ls (of_nat n) = Some lb"
      "unpack_u16b (acn E) (take 2 (drop 123 lb)) - 1 = of_nat n" "length lb = 638" "\<forall>k < n. lb ! (126 + k) = ls ! k"
    using update_stores[OF L D(1) U(1) n(2,3)] by blast
  define w where "w = c\<lparr>level_send_buf := lb, has_level_data := True\<rparr>"
  define v where "v = reset_transmission_suppression E s1 kResetLevel (zero_levels_where_pap_is_zero (acn E) w)"
  have u1: "universes s1 ! j = r" using j by (simp add: s1_def)
  have "\<exists>s2. state_update_levels E ls n j s1 = Some s2 \<and> universes s2 = (universes s1)[j := v]"
    using n(1) lb(1) c(3) unfolding state_update_levels_def u1 by (simp add: Let_def c_def[symmetric] c(1) w_def v_def)
  then obtain s2 where second: "state_update_levels E ls n j s1 = Some s2" "universes s2 = (universes s1)[j := v]" by blast
  have w: "level_send_buf w = lb" "pap_send_buf w = pb" "has_level_data w" "has_pap_data w" "pap_packets_sent_before_suppression w = 0"
    "termination_state w = kNotTerminating"
    using c by (simp_all add: w_def)
  have levels: "level_send_buf v ! (126 + k) = (if k < m \<and> ps ! k \<noteq> 0 then ls ! k else 0)" if "k < n" for k
    using zero_levels_stores[of "acn E" w n m k] lb(2-4) pb(2,3) n(2) m(2) that w
    by (auto simp: v_def reset_suppression_same)
  have "holds_levels_and_pap ls n ps m v"
    using levels pb(3) w unfolding holds_levels_and_pap_def v_def
    by (simp add: reset_suppression_same zero_levels_same)
  then show ?thesis
    using first second j by (simp add: update_levels_and_or_pap_def s1_def)
qed

end
