(* ===== verification/SourceProps.thy ===== *)
theory SourceProps
  imports SourceExample SourcePages SourceLevels
begin

text \<open>
  What holds of the sACN sources: their state after any sequence of calls, the packets in
  their buffers, the ticks of a universe, universe discovery and the end of the thread. Each property is
  followed by an instance on concrete calls and a concrete environment.
\<close>

section \<open>Any sequence of calls\<close>

text \<open>
  C7: Memory safety and the invariant of the sources. For every sequence of calls of the source
  API, ticks and network resets, in any environments, whose arrays have the sizes the caller
  states: no call accesses memory outside a buffer, every loop ends, and the state reached is well
  formed. Handles are distinct; the universes of a source are strictly descending; the count of
  active universes, which the page numbers of universe discovery are computed from, is the
  number of universes that have levels and are sent by multicast, so the unsigned counter never
  wraps; both send buffers of every universe hold a packet with the universe's settings.
\<close>

theorem source_calls_safe:
  assumes "acn_laws L" "\<forall>Vc \<in> set cs. acn (tick_env (fst Vc)) = L \<and> source_call_ok (snd Vc)"
  shows "\<exists>M. run_source cs initial_source_module = Some M \<and> module_inv L M \<and>
    distinct (map source_handle (sources M)) \<and>
    (\<forall>s \<in> set (sources M).
       sorted_wrt (\<lambda>u v. universe_id v < universe_id u) (universes s) \<and>
       num_active_universes s = int (length (filter IS_PART_OF_UNIVERSE_DISCOVERY (universes s))) \<and>
       (\<forall>u \<in> set (universes s). UNIVERSE_ID_VALID (universe_id u) \<and> universe_inv L (cid s) (source_name s) u))"
proof -
  obtain M where M: "run_source cs initial_source_module = Some M" "module_inv L M"
    using run_source_inv[OF assms] by (auto simp: safe_state_def)
  have "sorted_wrt (\<lambda>u v. universe_id v < universe_id u) (universes s) \<and>
      num_active_universes s = int (length (filter IS_PART_OF_UNIVERSE_DISCOVERY (universes s))) \<and>
      (\<forall>u \<in> set (universes s). UNIVERSE_ID_VALID (universe_id u) \<and> universe_inv L (cid s) (source_name s) u)"
    if "s \<in> set (sources M)" for s
  proof -
    have s: "source_inv L s" using M(2) that by (simp add: module_inv_def)
    have "UNIVERSE_ID_VALID (universe_id u)" if "u \<in> set (universes s)" for u
      using source_inv_D(2)[OF s that] by (simp add: universe_inv_def)
    then show ?thesis
      using source_inv_D[OF s] by (simp add: descending_def count_active_def)
  qed
  then show ?thesis using M by (auto simp: module_inv_def)
qed

theorem source_calls_safe_witness:
  "\<exists>M. run_source demo_calls initial_source_module = Some M \<and> module_inv big_endian_lib M"
  using source_calls_safe[OF big_endian_laws demo_calls_ok] by blast

lemma buf_ok_parses:
  assumes L: "acn_laws L" and ids: "ids_ok the_cid nm" and b: "buf_ok L the_cid nm prio uni pv code sq buf"
  shows "\<exists>n \<le> 512. ACN_PDU_LENGTH L (take 3 (drop 16 buf)) + 16 = int (126 + n) \<and>
    (\<exists>out'. parse_sacn_data_packet L (drop 38 (take (126 + n) buf)) (88 + n) out = Some (True, out') \<and>
      name (source_info out') = nm \<and> Pdu.priority (universe_data out') = prio \<and> preview (universe_data out') = pv \<and>
      Pdu.universe_id (universe_data out') = uni \<and> start_code (universe_data out') = code \<and> seq out' = sq \<and> \<not> terminated out' \<and>
      slot_range (universe_data out') = \<lparr>start_address = 1, address_count = int n\<rparr>)"
proof -
  obtain n area where n: "n \<le> 512" "length area = 512"
      "buf = data_header L the_cid nm prio sq (preview_opt pv) uni code (int n) @ area"
    using b by (auto simp: buf_ok_def)
  note len = ids_ok_D[OF ids]
  define w :: u16 where "w = of_nat n"
  have w: "unat w = n" "uint w = int n" using n(1) by (simp_all add: w_def unat_of_nat uint_nat)
  let ?h = "data_header L the_cid nm prio sq (preview_opt pv) uni code (int n)"
  let ?rest = "data_framing_layer L (int n) VECTOR_E131_DATA_PACKET nm prio sq (preview_opt pv) uni @ dmp_layer L (int n) code"
  have h: "?h = root_layer L (126 + int n) False the_cid @ ?rest" by (simp add: data_header_def)
  have lh: "length ?h = 126" "length (root_layer L (126 + int n) False the_cid) = 38" using L len length_layers[OF L] by simp_all
  have packet: "drop 38 (take (126 + n) buf) = ?rest @ take n area"
    unfolding n(3) using lh n(1,2) by (simp add: h)
  have flags: "preview_opt pv AND SACN_OPTVAL_TERMINATED = 0" "(preview_opt pv AND SACN_OPTVAL_PREVIEW \<noteq> 0) = pv"
    by (simp_all add: preview_opt_def SACN_OPTVAL_TERMINATED_def SACN_OPTVAL_PREVIEW_def)
  have parse: "\<exists>out'. parse_sacn_data_packet L (drop 38 (take (126 + n) buf)) (88 + n) out = Some (True, out') \<and>
      name (source_info out') = nm \<and> Pdu.priority (universe_data out') = prio \<and> preview (universe_data out') = pv \<and>
      Pdu.universe_id (universe_data out') = uni \<and> start_code (universe_data out') = code \<and> seq out' = sq \<and> \<not> terminated out' \<and>
      slot_range (universe_data out') = \<lparr>start_address = 1, address_count = int n\<rparr>"
    using parse_data_layers[OF L len(2), of "take n area" w prio sq "preview_opt pv" uni code out] n(1,2) w flags len(3)
    unfolding packet by simp
  obtain v where v: "pack_u32b L (vector_root_data L) = v" "length v = 4" using L by simp
  then obtain c v' where c: "v = c # v'" by (cases v) auto
  have fl: "length (flags_length L (110 + int n)) = 2" "length (udp_preamble L 16) = 16" using flags_length_laws(1)[OF L] L by simp_all
  have "take 3 (drop 16 buf) = flags_length L (110 + int n) @ [c]"
    unfolding n(3) h root_layer_def using fl by (simp add: v c)
  then have "ACN_PDU_LENGTH L (take 3 (drop 16 buf)) + 16 = int (126 + n)"
    using flags_length_laws(4)[OF L, of "110 + int n" c] n(1) by simp
  then show ?thesis using n(1) parse by blast
qed

text \<open>
  C14: Every packet a source holds is well formed. After any sequence of calls, for each of the two
  send buffers of each universe there is a slot count \<open>n\<close> of at most 512 such that the packet is the
  first \<open>126 + n\<close> bytes, as the length in its root layer says, and a receiver that parses what
  follows the root layer accepts it and reads back the source's name, the universe's number,
  priority and preview flag, the next sequence number, no termination, the start code of levels or
  of priorities, and \<open>n\<close> slots from address 1.
\<close>

theorem reachable_packets_parse:
  assumes "acn_laws L" "\<forall>Vc \<in> set cs. acn (tick_env (fst Vc)) = L \<and> source_call_ok (snd Vc)"
    and "run_source cs initial_source_module = Some M" "s \<in> set (sources M)" "u \<in> set (universes s)"
    and "(code, buf) \<in> {(0, level_send_buf u), (0xdd, pap_send_buf u)}"
  shows "\<exists>n \<le> 512. ACN_PDU_LENGTH L (take 3 (drop 16 buf)) + 16 = int (126 + n) \<and>
    (\<exists>out'. parse_sacn_data_packet L (drop 38 (take (126 + n) buf)) (88 + n) out = Some (True, out') \<and>
      name (source_info out') = source_name s \<and> Pdu.priority (universe_data out') = priority u \<and>
      preview (universe_data out') = send_preview u \<and> Pdu.universe_id (universe_data out') = universe_id u \<and>
      start_code (universe_data out') = code \<and> seq out' = next_seq_num u \<and> \<not> terminated out' \<and>
      slot_range (universe_data out') = \<lparr>start_address = 1, address_count = int n\<rparr>)"
proof -
  have s: "source_inv L s" using run_source_inv[OF assms(1,2)] assms(3,4) by (auto simp: safe_state_def module_inv_def)
  have "buf_ok L (cid s) (source_name s) (priority u) (universe_id u) (send_preview u) code (next_seq_num u) buf"
    using source_inv_D(2)[OF s assms(5)] assms(6) by (auto simp: universe_inv_def)
  then show ?thesis by (rule buf_ok_parses[OF assms(1) source_inv_D(1)[OF s]])
qed

theorem reachable_packets_parse_witness:
  "\<exists>M s u. run_source (take 2 demo_calls) initial_source_module = Some M \<and> sources M = [s] \<and> universes s = [u] \<and> universe_id u = 1 \<and>
     (\<exists>n \<le> 512. ACN_PDU_LENGTH big_endian_lib (take 3 (drop 16 (pap_send_buf u))) + 16 = int (126 + n))"
proof -
  obtain M s u where r: "run_source (take 2 demo_calls) initial_source_module = Some M" "sources M = [s]" "universes s = [u]" "universe_id u = 1"
    using demo_added by blast
  have ok: "\<forall>Vc \<in> set (take 2 demo_calls). acn (tick_env (fst Vc)) = big_endian_lib \<and> source_call_ok (snd Vc)"
    using demo_calls_ok by (meson in_set_takeD)
  have "s \<in> set (sources M)" "u \<in> set (universes s)" "(0xdd, pap_send_buf u) \<in> {(0, level_send_buf u), (0xdd, pap_send_buf u)}"
    using r by simp_all
  from reachable_packets_parse[OF big_endian_laws ok r(1) this, of blank_data] r show ?thesis by blast
qed

section \<open>Ticks of a universe\<close>

text \<open>
  C9: Transmission suppression and sequence numbers. A universe with levels and no priorities that is
  not terminating, on a network that takes every packet, sends over any number of ticks exactly
  the packets of the schedule \<open>level_schedule\<close>: its level buffer to every multicast interface and
  then to every unicast destination, in each of the ticks until four packets have been sent since
  the last change, and after that only in the ticks in which the keep-alive timer has expired. The
  sequence numbers of the packets sent are consecutive, starting at the universe's next one and
  wrapping at 256: no number is skipped or used twice, whatever is suppressed.
\<close>

theorem level_packets_follow_schedule:
  assumes "acn_laws L" "ids_ok (cid s) (source_name s)" "universe_inv L (cid s) (source_name s) (universes s ! i)"
    and "i < length (universes s)" "termination_state (universes s ! i) = kNotTerminating"
      "\<forall>d \<in> set (unicast_dests (universes s ! i)). dest_state d = kNotTerminating"
      "has_level_data (universes s ! i)" "\<not> has_pap_data (universes s ! i)"
      "mcast_targets (universes s ! i) \<noteq> [] \<or> ucast_targets (universes s ! i) \<noteq> []"
    and "\<forall>(E, mode) \<in> set Es. serving E \<and> mode \<noteq> kSacnSourceTickModeProcessPapOnly \<and> (\<forall>t t'. timer_is_expired E t = timer_is_expired E t')"
  shows "snd (universe_ticks Es i s) =
    concat (map (\<lambda>sq. packet_calls (universes s ! i) (pack_sequence_number (level_send_buf (universes s ! i)) sq))
      (level_schedule (level_packets_sent_before_suppression (universes s ! i)) (next_seq_num (universes s ! i))
        (map (\<lambda>(E, mode). timer_is_expired E t) Es)))"
proof -
  let ?u = "universes s ! i"
  obtain n area where b: "level_send_buf ?u = data_header L (cid s) (source_name s) (priority ?u) (next_seq_num ?u)
      (preview_opt (send_preview ?u)) (universe_id ?u) 0 (int n) @ area" "length area = 512" and f: "flags ?u = (False, False, False, False)"
    using assms(3) by (auto simp: universe_inv_def buf_ok_def)
  note h = header_field[OF assms(1) ids_ok_D(1,2)[OF assms(2)]]
  have "pack_sequence_number (level_send_buf ?u) (next_seq_num ?u) = level_send_buf ?u" "level_send_buf ?u ! 125 = 0"
    using h(1)[unfolded SET_SEQUENCE_def] h(5) by (simp_all add: b(1) pack_sequence_number_def)
  moreover have "125 < length (level_send_buf ?u)" by (simp add: b)
  ultimately have num: "numbered (level_send_buf ?u) ?u" using f by (simp add: numbered_def)
  have t: "ticking ?u" using assms(5,6) by (simp add: ticking_def)
  show ?thesis by (rule served_ticks[OF assms(10) t assms(4) num assms(7,8,9)])
qed

theorem level_packets_follow_schedule_witness:
  "snd (universe_ticks (replicate 6 (demo_env, kSacnSourceTickModeProcessLevelsOnly)) 0 demo_sending) =
     concat (map (\<lambda>sq. [SendMulticast 1 (1, 0) (pack_sequence_number (demo_buf 0) sq), SendUnicast 10 (pack_sequence_number (demo_buf 0) sq)])
       [0, 1, 2, 3])"
proof -
  let ?Es = "replicate 6 (demo_env, kSacnSourceTickModeProcessLevelsOnly)"
  have u: "universes demo_sending = [demo_state]" by (simp add: demo_sending_def)
  have Es: "\<forall>(E, mode) \<in> set ?Es. serving E \<and> mode \<noteq> kSacnSourceTickModeProcessPapOnly \<and> (\<forall>t t'. timer_is_expired E t = timer_is_expired E t')"
    by (simp add: serving_def demo_env_def)
  have inv: "universe_inv big_endian_lib (cid demo_sending) (source_name demo_sending) (universes demo_sending ! 0)"
    "ids_ok (cid demo_sending) (source_name demo_sending)"
    using demo_state_inv demo_ids by (simp_all add: u) (simp_all add: demo_sending_def)
  have "map (\<lambda>(E, mode). timer_is_expired E 0) ?Es = replicate 6 False" by (simp add: demo_env_def)
  moreover have "level_schedule 0 0 (replicate 6 False) = [0, 1, 2, 3]" by (simp add: eval_nat_numeral)
  moreover have "packet_calls demo_state buf = [SendMulticast 1 (1, 0) buf, SendUnicast 10 buf]" for buf
    by (simp add: packet_calls_def demo_targets) (simp add: demo_state_def)
  ultimately show ?thesis
    using level_packets_follow_schedule[OF big_endian_laws inv(2,1), of ?Es 0] Es demo_targets
    by (simp add: u) (simp add: demo_state_def ticking_def new_unicast_dest_def)
qed

text \<open>
  C13: A failing interface starves the unicast destinations. When one of the multicast interfaces of a
  universe refuses every packet, no tick of any mode makes a call for any of the universe's unicast
  destinations, for as long as the interface fails: the call is skipped by the short-circuit of
  \<open>all_sends_succeeded && send_universe_unicast(...)\<close>. The suppression counter advances in every
  tick that processes levels all the same, up to four, so the unsent packets are taken for sent and
  the source goes over to its slow keep-alive rate.
\<close>

theorem failing_interface_starves_unicast:
  assumes "i < length (universes s)" "termination_state (universes s ! i) = kNotTerminating"
      "\<forall>d \<in> set (unicast_dests (universes s ! i)). dest_state d = kNotTerminating" "has_level_data (universes s ! i)"
      "0 \<le> level_packets_sent_before_suppression (universes s ! i)" "level_packets_sent_before_suppression (universes s ! i) \<le> 4"
    and "\<not> send_unicast_only (universes s ! i)" "n \<in> set (netints (universes s ! i))"
    and "\<forall>(E, mode) \<in> set Es. \<forall>buf. multicast_result E (universe_id (universes s ! i)) buf n \<noteq> kEtcPalErrOk"
  shows "(\<forall>a b. SendUnicast a b \<notin> set (snd (universe_ticks Es i s))) \<and>
    level_packets_sent_before_suppression (universes (fst (universe_ticks Es i s)) ! i) =
      min 4 (level_packets_sent_before_suppression (universes s ! i) +
        int (length (filter (\<lambda>(E, mode). mode \<noteq> kSacnSourceTickModeProcessPapOnly) Es)))"
proof -
  have "ticking (universes s ! i)" "n \<in> set (mcast_targets (universes s ! i))"
    using assms by (simp_all add: ticking_def mcast_targets_def)
  from starved_ticks[OF assms(9) this(1) assms(1) this(2) assms(5,6,4)] show ?thesis by blast
qed

definition refusing_env :: "nat source_env" where
  "refusing_env = demo_env\<lparr>multicast_result := (\<lambda>uni buf n. kEtcPalErrSys)\<rparr>"

theorem failing_interface_starves_unicast_witness:
  "ucast_targets (universes demo_sending ! 0) = [10] \<and>
   (\<forall>a b. SendUnicast a b \<notin> set (snd (universe_ticks (replicate 5 (refusing_env, kSacnSourceTickModeProcessLevelsOnly)) 0 demo_sending))) \<and>
   level_packets_sent_before_suppression
     (universes (fst (universe_ticks (replicate 5 (refusing_env, kSacnSourceTickModeProcessLevelsOnly)) 0 demo_sending)) ! 0) = 4"
proof -
  have u: "universes demo_sending = [demo_state]" by (simp add: demo_sending_def)
  have "\<forall>(E, mode) \<in> set (replicate 5 (refusing_env, kSacnSourceTickModeProcessLevelsOnly)).
      \<forall>buf. multicast_result E (universe_id (universes demo_sending ! 0)) buf (1, 0) \<noteq> kEtcPalErrOk"
    by (simp add: refusing_env_def)
  from failing_interface_starves_unicast[OF _ _ _ _ _ _ _ _ this] show ?thesis
    using demo_targets by (simp add: u) (simp add: demo_state_def new_unicast_dest_def)
qed

section \<open>The thread\<close>

text \<open>
  C8: The thread of the sources ends. Once \<open>shutting_down\<close> is set, the thread function returns after
  at most \<open>4 + 3 * d\<close> passes, where \<open>d\<close> bounds the number of unicast destinations of a universe
  and the locks are obtained: whatever the network does with the termination packets, every pass
  uses up one of the attempts left for each universe, and every source of the thread is
  removed. The sources that are processed manually are left alone and in order.
\<close>

theorem source_thread_stops:
  assumes "acn_laws L" "module_inv L M" "shutting_down M"
    and "\<forall>s \<in> set (sources M). \<forall>u \<in> set (universes s). length (unicast_dests u) \<le> d"
    and "\<forall>P \<in> set Ps. acn (tick_env (levels_env P)) = L \<and> acn (tick_env (pap_env P)) = L \<and>
           lock_taken (levels_env P) \<and> lock_taken (pap_env P) \<and> flag_lock P"
    and "4 + 3 * d \<le> length Ps"
  shows "\<exists>M'. source_thread_function Ps M = Some (True, M') \<and> sources M' = filter process_manually (sources M)"
proof -
  have "\<forall>P \<in> set Ps. pass_ok L P" using assms(5) by (simp add: pass_ok_def)
  moreover have "thread_ends_within (4 + 3 * d) M"
    using assms(2,4) unfolding thread_ends_within_def module_inv_def by (blast intro: ends_within_dests)
  ultimately show ?thesis
    using source_thread_ends[OF assms(1-3) _ assms(6), of True 0] by (simp add: source_thread_function_def)
qed

definition demo_pass :: "nat pass_env" where
  "demo_pass = \<lparr>levels_env = demo_api, pap_env = demo_api, flag_lock = True\<rparr>"

theorem source_thread_stops_witness:
  "\<exists>M'. source_thread_function (replicate 7 demo_pass)
      \<lparr>shutting_down = True, thread_initialized = False, sources = [demo_sending]\<rparr> = Some (True, M') \<and> sources M' = []"
proof -
  let ?M = "\<lparr>shutting_down = True, thread_initialized = False, sources = [demo_sending]\<rparr>"
  have "module_inv big_endian_lib ?M" using demo_sending_inv by (simp add: module_inv_def)
  from source_thread_stops[OF big_endian_laws this, of 1 "replicate 7 demo_pass"] show ?thesis
    by (simp add: demo_pass_def demo_api_def demo_env_def) (simp add: demo_sending_def demo_state_def)
qed

section \<open>Universe discovery\<close>

lemma div_512_bounds:
  fixes x :: int
  assumes "0 \<le> x" "x \<le> 65535"
  shows "0 \<le> x div 512" "x div 512 < 256"
  using assms zdiv_mono1[of x 65535 512] by simp_all

text \<open>
  Universe discovery announces exactly the active universes. When the discovery timer of a source
  expires and every page is taken by some interface, the source multicasts on every one of its
  interfaces a sequence of pages. A receiver that parses the universe lists of these pages reads
  non-empty lists of at most 512 universes, numbered 0, 1, ... with the number of the last page,
  and the lists put together are the universes with levels that are sent by multicast, in
  ascending order, each once. The page numbers never wrap.
\<close>

theorem discovery_pages_roundtrip:
  assumes "acn_laws (acn E)" "source_inv (acn E) s" "\<not> terminating s" "timer_is_expired E (universe_discovery_timer s)"
    and "\<forall>b. \<exists>n \<in> set (source_netints s). multicast_result E kSacnDiscoveryUniverse b (netint_id n) = kEtcPalErrOk"
  shows "\<exists>ok s' bs pages.
    process_universe_discovery E s =
      Some (ok, s', concat (map (\<lambda>b. map (\<lambda>n. SendMulticast kSacnDiscoveryUniverse (netint_id n) b) (source_netints s)) bs)) \<and>
    length pages = length bs \<and> concat pages = map universe_id (filter IS_PART_OF_UNIVERSE_DISCOVERY (rev (universes s))) \<and>
    sorted_wrt (<) (concat pages) \<and> (\<forall>us \<in> set pages. us \<noteq> [] \<and> length us \<le> 512) \<and>
    (\<forall>k < length bs. \<exists>p.
       unpack_universe_discovery dyn (acn E) (drop 112 (take (120 + 2 * length (pages ! k)) (bs ! k))) (8 + 2 * length (pages ! k)) =
         Some (Some (p, pages ! k)) \<and>
       page p = int k \<and> last_page p = int (length bs) - 1)"
proof -
  note D = source_inv_D[OF assms(2)]
  define ids where "ids = active_ids (rev (universes s))"
  have asc: "sorted_wrt (<) ids"
    using D(3) by (simp add: ids_def active_ids_def sorted_wrt_map sorted_wrt_filter descending_def sorted_wrt_rev)
  then have small: "length ids \<le> 65536" by (intro distinct_u16_length) (simp add: strict_sorted_iff)
  have takes: "\<forall>b. someone_takes E s b" using assms(5) by (simp add: someone_takes_def)
  have netints: "source_netints s \<noteq> []" using assms(5) by auto
  obtain ok' buf' bs where r: "discovery_pages (Suc (length (universes s))) E 0 0 True s [] =
        Some (ok', s\<lparr>universe_discovery_send_buf := buf'\<rparr>, concat (map (page_calls s) bs))"
      "length bs = length (chunks ids)" "\<forall>k < length bs. is_page (acn E) s (of_nat k) (chunks ids ! k) (bs ! k)"
    using discovery_pages_spec[of s 0 "Suc (length (universes s))" E 0 True "[]"] assms(1) D(1,6) takes
    unfolding drop_0 ids_def[symmetric] diff_zero append_Nil add_0 by blast
  have few: "length bs \<le> 128" using small by (simp add: r(2) length_chunks)
  have num: "num_active_universes s = int (length ids)"
    using D(4) by (simp add: ids_def active_ids_def count_active_def rev_filter[symmetric])
  have last: "uint (last_page_number s) = int (length bs) - 1" if "0 < length bs"
  proof -
    have pos: "0 < length ids" using that r(2) by (cases ids) auto
    have "int (length bs) - 1 = (int (length ids) - 1) div 512" using pos unfolding r(2) length_chunks by (simp add: zdiv_int) 
    moreover have "0 \<le> int (length ids) - 1" "int (length ids) - 1 \<le> 65535" using pos small by linarith+
    then have "0 \<le> (int (length ids) - 1) div 512" "(int (length ids) - 1) div 512 < 256" by (simp_all only: div_512_bounds)
    ultimately show ?thesis using pos by (simp add: last_page_number_def num uint_word_of_int)
  qed
  have pages: "\<exists>p. unpack_universe_discovery dyn (acn E) (drop 112 (take (120 + 2 * length (chunks ids ! k)) (bs ! k))) (8 + 2 * length (chunks ids ! k)) =
         Some (Some (p, chunks ids ! k)) \<and> page p = int k \<and> last_page p = int (length bs) - 1" if k: "k < length bs" for k
  proof -
    have c: "0 < length (chunks ids ! k)" "length (chunks ids ! k) \<le> 512" using chunks_length[of "chunks ids ! k" ids] k r(2) by simp_all
    have "uint (of_nat k :: u8) = int k" using k few by (simp add: uint_nat unat_of_nat)
    moreover have "uint (last_page_number s) = int (length bs) - 1" using k by (intro last) auto
    ultimately show ?thesis
      using page_parses[OF assms(1) D(1) r(3)[rule_format, OF k] c, of dyn] by simp
  qed
  have run: "process_universe_discovery E s = Some (ok', s\<lparr>universe_discovery_send_buf := buf',
      universe_discovery_timer := timer_reset E (universe_discovery_timer s)\<rparr>, concat (map (page_calls s) bs))"
    using assms(3,4) netints r(1) by (simp add: process_universe_discovery_def send_universe_discovery_def)
  show ?thesis
    using run r(2) asc pages chunks_length[of _ ids] concat_chunks[of ids]
    by (intro exI[of _ ok'] exI[of _ "s\<lparr>universe_discovery_send_buf := buf', universe_discovery_timer := timer_reset E (universe_discovery_timer s)\<rparr>"]
        exI[of _ bs] exI[of _ "chunks ids"]) (auto simp: page_calls_def[abs_def] ids_def active_ids_def)
qed

definition expired_env :: "nat source_env" where
  "expired_env = demo_env\<lparr>timer_is_expired := (\<lambda>t. True)\<rparr>"

theorem discovery_pages_roundtrip_witness:
  "\<exists>ok s' b p. process_universe_discovery expired_env demo_sending = Some (ok, s', [SendMulticast kSacnDiscoveryUniverse (1, 0) b]) \<and>
     unpack_universe_discovery True big_endian_lib (drop 112 (take 122 b)) 10 = Some (Some (p, [1])) \<and> page p = 0 \<and> last_page p = 0"
proof -
  have E: "acn expired_env = big_endian_lib" by (simp add: expired_env_def demo_env_def)
  have n: "source_netints demo_sending = [\<lparr>netint_id = (1, 0), num_refs = 1\<rparr>]" by (simp add: demo_sending_def)
  have ids: "map universe_id (filter IS_PART_OF_UNIVERSE_DISCOVERY (rev (universes demo_sending))) = [1]"
    by (simp add: demo_sending_def demo_state_def IS_PART_OF_UNIVERSE_DISCOVERY_def)
  obtain ok s' bs pages where r: "process_universe_discovery expired_env demo_sending =
      Some (ok, s', concat (map (\<lambda>b. [SendMulticast kSacnDiscoveryUniverse (1, 0) b]) bs))"
    "length pages = length bs" "concat pages = [1]" "\<forall>us \<in> set pages. us \<noteq> []"
    "\<forall>k < length bs. \<exists>p. unpack_universe_discovery True big_endian_lib (drop 112 (take (120 + 2 * length (pages ! k)) (bs ! k)))
         (8 + 2 * length (pages ! k)) = Some (Some (p, pages ! k)) \<and> page p = int k \<and> last_page p = int (length bs) - 1"
    using discovery_pages_roundtrip[of expired_env demo_sending True, unfolded E n ids, OF big_endian_laws demo_sending_inv]
    by (auto simp: expired_env_def demo_env_def demo_sending_def)
  have "pages = [[1]]" using r(3,4) by (cases pages) (auto simp: append_eq_Cons_conv concat_eq_Nil_conv neq_Nil_conv)
  moreover from this obtain b where "bs = [b]" using r(2) by (cases bs) auto
  ultimately show ?thesis using r(1,5) by auto
qed

section \<open>Levels and priorities\<close>

text \<open>
  C37: \<open>sacn_source_update_levels_and_pap\<close> stores what the caller gave. For a universe that is not being
  removed and sizes from 1 to 512, the level buffer holds after the call, for each of the \<open>n\<close> slots
  given, the new level where the new priority is not 0, and 0 where the priority is 0 or not
  given; the priority buffer holds the \<open>m\<close> priorities. The universe sends both, starts again to
  send every packet four times, and is no longer terminating.
\<close>

theorem update_levels_and_pap_effect:
  assumes "acn_laws (acn (tick_env V))" "module_inv (acn (tick_env V)) M" "find_universe h uni M = Some (i, j)" "lock_taken V"
    and "0 < n" "n \<le> 512" "n \<le> length ls" "0 < m" "m \<le> 512" "m \<le> length ps"
  shows "\<exists>M'. sacn_source_update_levels_and_pap V h uni (Some ls) n (Some ps) m M = Some M' \<and>
    (let u = universes (sources M' ! i) ! j in
      (\<forall>k < n. level_send_buf u ! (126 + k) = (if k < m \<and> ps ! k \<noteq> 0 then ls ! k else 0)) \<and>
      (\<forall>k < m. pap_send_buf u ! (126 + k) = ps ! k) \<and> has_level_data u \<and> has_pap_data u \<and>
      level_packets_sent_before_suppression u = 0 \<and> pap_packets_sent_before_suppression u = 0 \<and>
      termination_state u = kNotTerminating)"
proof -
  note f = find_universe_D[OF assms(3)]
  let ?s = "sources M ! i"
  obtain s' where s': "update_levels_and_or_pap (tick_env V) (Some ls) n (Some ps) m j ?s = Some s'"
      "length (universes s') = length (universes ?s)" "holds_levels_and_pap ls n ps m (universes s' ! j)"
    using update_levels_and_pap_stores[OF assms(1) found_universe_inv(1)[OF assms(2,3)] f(2,5) assms(5-10)] by blast
  have "sacn_source_update_levels_and_pap V h uni (Some ls) n (Some ps) m M = Some (put_source i s' M)"
    unfolding sacn_source_update_levels_and_pap_found[OF assms(6,9,4,3)] using s'(1) by (simp add: put_universe_def)
  moreover have "sources (put_source i s' M) ! i = s'" using f(1) by (simp add: put_source_def)
  ultimately show ?thesis using s'(3) by (simp add: holds_levels_and_pap_def)
qed

theorem update_levels_and_pap_effect_witness:
  "\<exists>M'. sacn_source_update_levels_and_pap demo_api 0 1 (Some [7, 8, 9]) 3 (Some [100, 0]) 2
       \<lparr>shutting_down = False, thread_initialized = False, sources = [demo_sending]\<rparr> = Some M' \<and>
     map (\<lambda>k. level_send_buf (universes (sources M' ! 0) ! 0) ! (126 + k)) [0, 1, 2] = [7, 0, 0]"
proof -
  let ?M = "\<lparr>shutting_down = False, thread_initialized = False, sources = [demo_sending]\<rparr>"
  have E: "acn (tick_env demo_api) = big_endian_lib" "lock_taken demo_api" by (simp_all add: demo_api_def demo_env_def)
  have inv: "module_inv big_endian_lib ?M" using demo_sending_inv by (simp add: module_inv_def)
  have f: "find_universe 0 1 ?M = Some (0, 0)"
    by (simp add: find_universe_def lookup_source_and_universe_def get_source_index_def get_source_universe_index_def demo_sending_def demo_state_def)
  obtain M' where M': "sacn_source_update_levels_and_pap demo_api 0 1 (Some [7, 8, 9]) 3 (Some [100, 0]) 2 ?M = Some M'"
      "\<forall>k < 3. level_send_buf (universes (sources M' ! 0) ! 0) ! (126 + k) = (if k < 2 \<and> [100, 0 :: u8] ! k \<noteq> 0 then [7, 8, 9] ! k else 0)"
    using update_levels_and_pap_effect[of demo_api, unfolded E(1), OF big_endian_laws inv f E(2), of 3 "[7, 8, 9]" 2 "[100, 0]"]
    by (auto simp: Let_def)
  then show ?thesis using M'(2)[rule_format, of 0] M'(2)[rule_format, of 1] M'(2)[rule_format, of 2] by simp
qed

end
