(* ===== verification/Detector.thy ===== *)
theory Detector
  imports RemoteSource Pdu
begin

text \<open>
  The source detector: src/sACN/src/sacn/source_detector_state.c, source_detector.c and the files
  of mem/source_detector. It collects the universe discovery pages of every source on the network,
  tells the application when the list of universes of a source changed, and when a source is gone.
  \<^item> \<open>detector_state\<close> holds the static variables: the detector, the tree of known sources (keys
    in \<open>discovery_tree\<close>, structs in \<open>discovery_mem\<close>), the table of remote sources, and whether the
    receive thread's context points to the detector.
  \<^item> The array \<open>universes\<close> of a source is the whole allocation, so its length is the capacity; what
    \<open>realloc\<close> leaves in the new part is \<open>realloc_fill\<close>. \<open>size_t\<close> arithmetic is modulo \<open>SIZE_MOD\<close>. An
    operation is \<open>None\<close> where the code would read or write outside an array, or never return.
  \<^item> \<open>detector_ext\<close> is what the library is built with and on, \<open>detector_call\<close> what the outside world
    does during one call: locks, allocations, the results of the socket functions.
  \<^item> A callback is an event in the order of the calls; the opaque context pointer and the
    address a page came from are left out. The pointers passed are not null.
\<close>

section \<open>State\<close>

definition kSacnSourceDetectorInfinite :: int where "kSacnSourceDetectorInfinite = 0"

record 'tm discovery_source =
  src_handle :: u16
  src_name :: "u8 list"
  src_universes :: "u16 list"
  src_num_universes :: nat
  universes_dirty :: bool
  last_notified_universe_count :: nat
  suppress_universe_limit_exceeded_notification :: bool
  expiration_timer :: 'tm
  next_universe_index :: nat
  next_page :: int

record 'cid discovery_page =
  sender_cid :: 'cid
  page_source_name :: "u8 list"
  this_page :: int
  final_page :: int
  page_universes :: "u16 list option"
  page_num_universes :: nat

record detector_callbacks =
  has_source_updated :: bool
  has_source_expired :: bool
  has_limit_exceeded :: bool

record detector_config =
  config_callbacks :: detector_callbacks
  config_source_count_max :: int
  config_universes_per_source_max :: int

record source_detector =
  created :: bool
  detector_netints :: "(nat \<times> u32) list"
  suppress_source_limit_exceeded_notification :: bool
  callbacks :: detector_callbacks
  source_count_max :: int
  universes_per_source_max :: int

record ('cid, 't, 'c, 'm, 's, 'tm) detector_state =
  detector :: source_detector
  discovery_tree :: 's
  discovery_mem :: "u16 \<Rightarrow> 'tm discovery_source"
  remote :: "('cid, 't, 'c, 'm) remote_table"
  context_detector :: bool

datatype 'cid detector_event =
    SourceUpdated u16 'cid "u8 list" "u16 list option" nat
  | SourceExpired u16 'cid "u8 list"
  | LimitExceeded

record ('cid, 't, 'c, 'm, 's) detector_ext =
  remote_lib :: "('cid, 't, 'c, 'm) remote_ext"
  source_rb :: "(u16, 's) rbtree_ops"
  packing :: acn_lib
  SACN_DYNAMIC_MEM :: bool
  max_sources :: nat
  max_universes_per_source :: nat

record 'tm detector_call =
  call_initialized :: bool
  cb_lock_taken :: bool
  receiver_lock_taken :: bool
  page_lock_taken :: bool
  start_timer :: "int \<Rightarrow> 'tm"
  reset_timer :: "'tm \<Rightarrow> 'tm"
  timer_expired :: "'tm \<Rightarrow> bool"
  remote_memory :: remote_alloc
  source_alloc_ok :: bool
  universes_alloc_ok :: bool
  source_node_ok :: bool
  page_alloc_ok :: bool
  replace_realloc_ok :: bool
  refit_realloc_ok :: bool
  realloc_fill :: "nat \<Rightarrow> u16"
  notify_alloc_ok :: bool
  expired_alloc_ok :: bool
  expired_realloc_ok :: "nat \<Rightarrow> bool"
  sys_netints_result :: etcpal_error
  netints_result :: etcpal_error
  netints_found :: "(nat \<times> u32) list"
  assign_result :: etcpal_error
  sockets_result :: etcpal_error

definition size_diff :: "nat \<Rightarrow> nat \<Rightarrow> nat" where "size_diff a b = (a + SIZE_MOD - b) mod SIZE_MOD"

definition put_discovery_source ::
    "u16 \<Rightarrow> 'tm discovery_source \<Rightarrow> ('cid, 't, 'c, 'm, 's, 'tm) detector_state \<Rightarrow> ('cid, 't, 'c, 'm, 's, 'tm) detector_state" where
  "put_discovery_source h src D = D\<lparr>discovery_mem := (discovery_mem D)(h := src)\<rparr>"

section \<open>Sources\<close>

definition init_universe_discovery_sources ::
    "('cid, 't, 'c, 'm, 's) detector_ext \<Rightarrow> ('cid, 't, 'c, 'm, 's, 'tm) detector_state \<Rightarrow>
     etcpal_error \<times> ('cid, 't, 'c, 'm, 's, 'tm) detector_state" where
  "init_universe_discovery_sources X D = (kEtcPalErrOk, D\<lparr>discovery_tree := rb_init (source_rb X)\<rparr>)"

text \<open>\<open>remove_remote_source_handle\<close> as the callers here use it.\<close>

definition drop_handle ::
    "('cid, 't, 'c, 'm, 's) detector_ext \<Rightarrow> u16 \<Rightarrow> ('cid, 't, 'c, 'm, 's, 'tm) detector_state \<Rightarrow>
     ('cid, 't, 'c, 'm, 's, 'tm) detector_state" where
  "drop_handle X h D = D\<lparr>remote := snd (remove_remote_source_handle (remote_lib X) h (remote D))\<rparr>"

definition new_discovery_source ::
    "('cid, 't, 'c, 'm, 's) detector_ext \<Rightarrow> 'tm detector_call \<Rightarrow> u16 \<Rightarrow> u8 list \<Rightarrow> 'tm discovery_source" where
  "new_discovery_source X V h nm =
     \<lparr>src_handle = h, src_name = strncpy_bytes kSacnSourceNameMaxLen nm,
      src_universes = replicate (if SACN_DYNAMIC_MEM X then kSacnInitialCapacity else max_universes_per_source X) 0,
      src_num_universes = 0, universes_dirty = True, last_notified_universe_count = 0,
      suppress_universe_limit_exceeded_notification = False,
      expiration_timer = start_timer V (kSacnUniverseDiscoveryInterval * 2), next_universe_index = 0, next_page = 0\<rparr>"

text \<open>The result has the handle under which the new source is stored.\<close>

definition add_sacn_universe_discovery_source ::
    "('cid, 't, 'c, 'm, 's) detector_ext \<Rightarrow> 'tm detector_call \<Rightarrow> 'cid \<Rightarrow> u8 list \<Rightarrow>
     ('cid, 't, 'c, 'm, 's, 'tm) detector_state \<Rightarrow>
     etcpal_error \<times> u16 option \<times> ('cid, 't, 'c, 'm, 's, 'tm) detector_state" where
  "add_sacn_universe_discovery_source X V the_cid nm D =
     (let existing_handle = get_remote_source_handle (remote_lib X) (remote D) the_cid in
      if existing_handle \<noteq> kSacnRemoteSourceInvalid \<and> rb_find (source_rb X) (discovery_tree D) existing_handle
      then (kEtcPalErrExists, None, D)
      else
        let (result, h, R) = add_remote_source_handle (remote_lib X) (remote_memory V) the_cid (remote D);
            D = D\<lparr>remote := R\<rparr>;
            cleanup = (\<lambda>D. case h of None \<Rightarrow> D | Some h \<Rightarrow> drop_handle X h D)
        in case (result, h) of
             (kEtcPalErrOk, Some handle) \<Rightarrow>
               if \<not> source_alloc_ok V \<or> (SACN_DYNAMIC_MEM X \<and> \<not> universes_alloc_ok V)
               then (kEtcPalErrNoMem, None, cleanup D)
               else let (result, t) = rb_insert (source_rb X) (source_node_ok V) (discovery_tree D) handle;
                        D = D\<lparr>discovery_tree := t\<rparr>
                    in if result = kEtcPalErrOk
                       then (kEtcPalErrOk, Some handle, put_discovery_source handle (new_discovery_source X V handle nm) D)
                       else (result, None, cleanup D)
           | _ \<Rightarrow> (result, None, cleanup D))"

definition remove_sacn_universe_discovery_source ::
    "('cid, 't, 'c, 'm, 's) detector_ext \<Rightarrow> u16 \<Rightarrow> ('cid, 't, 'c, 'm, 's, 'tm) detector_state \<Rightarrow>
     etcpal_error \<times> ('cid, 't, 'c, 'm, 's, 'tm) detector_state" where
  "remove_sacn_universe_discovery_source X h D =
     (if h = kSacnRemoteSourceInvalid then (kEtcPalErrSys, D)
      else let (result, t) = rb_remove (source_rb X) (discovery_tree D) h;
               D = D\<lparr>discovery_tree := t\<rparr>
           in (result, if result = kEtcPalErrOk then drop_handle X (src_handle (discovery_mem D h)) D else D))"

text \<open>\<open>deinit_universe_discovery_sources\<close> deallocates every source.\<close>

definition deinit_universe_discovery_sources ::
    "('cid, 't, 'c, 'm, 's) detector_ext \<Rightarrow> ('cid, 't, 'c, 'm, 's, 'tm) detector_state \<Rightarrow>
     ('cid, 't, 'c, 'm, 's, 'tm) detector_state" where
  "deinit_universe_discovery_sources X D =
     (fold (\<lambda>h. drop_handle X (src_handle (discovery_mem D h))) (rb_iter (source_rb X) (discovery_tree D)) D)
       \<lparr>discovery_tree := snd (rb_clear (source_rb X) (discovery_tree D))\<rparr>"

text \<open>
  The universes from \<open>start\<close> on are replaced by \<open>n\<close> universes. The result is the number of
  universes that fit, with the source.
\<close>

definition replace_universe_discovery_universes ::
    "('cid, 't, 'c, 'm, 's) detector_ext \<Rightarrow> bool \<Rightarrow> (nat \<Rightarrow> u16) \<Rightarrow> nat \<Rightarrow> u16 list \<Rightarrow> nat \<Rightarrow> nat \<Rightarrow>
     'tm discovery_source \<Rightarrow> (nat \<times> 'tm discovery_source) option" where
  "replace_universe_discovery_universes X realloc_ok fill start us n limit src =
     (let needed = (start + n) mod SIZE_MOD in
      if SACN_DYNAMIC_MEM X \<and> limit \<noteq> size_of_int kSacnSourceDetectorInfinite \<and> needed > limit
      then Some (size_diff limit start, src)
      else case check_capacity (SACN_DYNAMIC_MEM X) realloc_ok (max_universes_per_source X) (length (src_universes src)) needed of
             None \<Rightarrow> None
           | Some None \<Rightarrow> Some (if SACN_DYNAMIC_MEM X then 0 else size_diff (max_universes_per_source X) start, src)
           | Some (Some cap) \<Rightarrow>
               let array = src_universes src @ map fill [length (src_universes src)..<cap] in
               if start + n \<le> length array \<and> n \<le> length us
               then Some (n, src\<lparr>src_universes := memcpy_at array start us n, src_num_universes := needed\<rparr>)
               else None)"

section \<open>Pages\<close>

text \<open>
  The results: the error, the handle of the source, whether \<open>limit_exceeded\<close> was set, the state.
\<close>

definition find_or_add_source ::
    "('cid, 't, 'c, 'm, 's) detector_ext \<Rightarrow> 'tm detector_call \<Rightarrow> 'cid discovery_page \<Rightarrow>
     ('cid, 't, 'c, 'm, 's, 'tm) detector_state \<Rightarrow>
     etcpal_error \<times> u16 option \<times> bool \<times> ('cid, 't, 'c, 'm, 's, 'tm) detector_state" where
  "find_or_add_source X V pg D =
     (let h = get_remote_source_handle (remote_lib X) (remote D) (sender_cid pg);
          (result, source, D) =
            (if h \<noteq> kSacnRemoteSourceInvalid \<and> rb_find (source_rb X) (discovery_tree D) h
             then (kEtcPalErrOk, Some h, D)
             else if SACN_DYNAMIC_MEM X \<and> source_count_max (detector D) \<noteq> kSacnSourceDetectorInfinite \<and>
                     rb_size (source_rb X) (discovery_tree D) \<ge> size_of_int (source_count_max (detector D))
             then (kEtcPalErrNoMem, None, D)
             else add_sacn_universe_discovery_source X V (sender_cid pg) (page_source_name pg) D)
      in if result = kEtcPalErrNoMem \<and> \<not> suppress_source_limit_exceeded_notification (detector D)
         then (result, source, True, D\<lparr>detector := (detector D)\<lparr>suppress_source_limit_exceeded_notification := True\<rparr>\<rparr>)
         else (result, source, False, D))"

text \<open>\<open>None\<close> where \<open>memcmp\<close> would read behind the end of the array.\<close>

definition page_modifies_universe_list :: "'tm discovery_source \<Rightarrow> 'cid discovery_page \<Rightarrow> bool option" where
  "page_modifies_universe_list src pg =
     (let n = page_num_universes pg;
          num_remaining_universes = size_diff (src_num_universes src) (next_universe_index src)
      in case (page_universes pg, n) of
           (None, Suc _) \<Rightarrow> Some False
         | (incoming, _) \<Rightarrow>
             if n > num_remaining_universes then Some True
             else if this_page pg = final_page pg \<and> n < num_remaining_universes then Some True
             else if n = 0 then Some False
             else case incoming of
                    None \<Rightarrow> None
                  | Some us \<Rightarrow>
                      if next_universe_index src + n \<le> length (src_universes src) \<and> n \<le> length us
                      then Some (\<not> memcmp_eq (drop (next_universe_index src) (src_universes src)) us n)
                      else None)"

definition restart_sequence :: "'tm discovery_source \<Rightarrow> 'tm discovery_source" where
  "restart_sequence src = src\<lparr>next_universe_index := 0, next_page := 0\<rparr>"

text \<open>The modified part of the list is replaced; the result has whether \<open>limit_exceeded\<close> was set.\<close>

definition replace_with_page ::
    "('cid, 't, 'c, 'm, 's) detector_ext \<Rightarrow> 'tm detector_call \<Rightarrow> nat \<Rightarrow> 'cid discovery_page \<Rightarrow>
     'tm discovery_source \<Rightarrow> (bool \<times> 'tm discovery_source) option" where
  "replace_with_page X V limit pg src =
     (let src = src\<lparr>universes_dirty := True\<rparr>;
          start = next_universe_index src;
          us = (case page_universes pg of None \<Rightarrow> [] | Some us \<Rightarrow> us)
      in do {
        (replace_result, src) \<leftarrow>
          replace_universe_discovery_universes X (replace_realloc_ok V) (realloc_fill V) start us (page_num_universes pg) limit src;
        if replace_result < page_num_universes pg
        then do {
          src \<leftarrow> (if replace_result > 0
                 then map_option snd (replace_universe_discovery_universes X (refit_realloc_ok V) (realloc_fill V) start us
                                        replace_result limit src)
                 else Some src);
          Some (\<not> suppress_universe_limit_exceeded_notification src, src\<lparr>suppress_universe_limit_exceeded_notification := True\<rparr>)
        }
        else Some (False, src)
      })"

definition strictly_ascending :: "u16 list \<Rightarrow> nat \<Rightarrow> bool" where
  "strictly_ascending us n \<longleftrightarrow> list_all (\<lambda>i. us ! (i - 1) < us ! i) [1..<n]"

text \<open>The last page of a sequence: whether \<open>source_updated\<close> is to be called, and the source.\<close>

definition finish_sequence :: "'tm discovery_source \<Rightarrow> bool \<times> 'tm discovery_source" where
  "finish_sequence src =
     (let src = restart_sequence src;
          src = src\<lparr>universes_dirty := universes_dirty src \<and> strictly_ascending (src_universes src) (src_num_universes src)\<rparr>
      in if universes_dirty src
         then (True, src\<lparr>
           suppress_universe_limit_exceeded_notification :=
             (if src_num_universes src < last_notified_universe_count src then False
              else suppress_universe_limit_exceeded_notification src),
           universes_dirty := False, last_notified_universe_count := src_num_universes src\<rparr>)
         else (False, src))"

text \<open>The pages of one source: whether to notify of an update, and of a limit, and the source.\<close>

definition take_page ::
    "('cid, 't, 'c, 'm, 's) detector_ext \<Rightarrow> 'tm detector_call \<Rightarrow> nat \<Rightarrow> 'cid discovery_page \<Rightarrow>
     'tm discovery_source \<Rightarrow> (bool \<times> bool \<times> 'tm discovery_source) option" where
  "take_page X V limit pg src =
     (let src = src\<lparr>expiration_timer := reset_timer V (expiration_timer src)\<rparr> in
      if this_page pg \<noteq> 0 \<and> this_page pg \<noteq> next_page src
      then Some (False, False, restart_sequence src)
      else do {
        let src = (if this_page pg = 0 then restart_sequence src else src);
        modifies \<leftarrow> page_modifies_universe_list src pg;
        (limited, src) \<leftarrow> (if modifies then replace_with_page X V limit pg src else Some (False, src));
        if this_page pg < final_page pg
        then Some (False, limited,
                   src\<lparr>next_universe_index := (next_universe_index src + page_num_universes pg) mod SIZE_MOD,
                       next_page := next_page src + 1\<rparr>)
        else let (updated, src) = finish_sequence src in Some (updated, limited, src)
      })"

text \<open>
  The arguments of \<open>source_updated\<close>: the notification's handle keeps its initial value, the list
  is null when its copy could not be allocated or is empty.
\<close>

definition updated_event ::
    "('cid, 't, 'c, 'm, 's) detector_ext \<Rightarrow> 'tm detector_call \<Rightarrow> 'cid discovery_page \<Rightarrow> 'tm discovery_source \<Rightarrow>
     'cid detector_event" where
  "updated_event X V pg src =
     SourceUpdated kSacnRemoteSourceInvalid (sender_cid pg) (page_source_name pg)
       (if src_num_universes src \<noteq> 0 \<and> (SACN_DYNAMIC_MEM X \<longrightarrow> notify_alloc_ok V)
        then Some (take (src_num_universes src) (src_universes src)) else None)
       (src_num_universes src)"

definition process_universe_discovery_page ::
    "('cid, 't, 'c, 'm, 's) detector_ext \<Rightarrow> 'tm detector_call \<Rightarrow> 'cid discovery_page \<Rightarrow>
     ('cid, 't, 'c, 'm, 's, 'tm) detector_state \<Rightarrow>
     (('cid, 't, 'c, 'm, 's, 'tm) detector_state \<times> 'cid detector_event list) option" where
  "process_universe_discovery_page X V pg D =
     (if \<not> page_lock_taken V then Some (D, [])
      else
        let (result, found, limited, D) = find_or_add_source X V pg D;
            limit_event = (\<lambda>b. if b \<and> has_limit_exceeded (callbacks (detector D)) then [LimitExceeded] else [])
        in case (result, found) of
             (kEtcPalErrOk, Some h) \<Rightarrow>
               do {
                 (updated, limited', src) \<leftarrow>
                   take_page X V (size_of_int (universes_per_source_max (detector D))) pg (discovery_mem D h);
                 Some (put_discovery_source h src D,
                       (if updated \<and> has_source_updated (callbacks (detector D)) then [updated_event X V pg src] else []) @
                       limit_event (limited \<or> limited'))
               }
           | _ \<Rightarrow> Some (D, limit_event limited))"

definition handle_sacn_universe_discovery_packet ::
    "('cid, 't, 'c, 'm, 's) detector_ext \<Rightarrow> 'tm detector_call \<Rightarrow> u8 list \<Rightarrow> nat \<Rightarrow> 'cid \<Rightarrow> u8 list \<Rightarrow>
     ('cid, 't, 'c, 'm, 's, 'tm) detector_state \<Rightarrow>
     (('cid, 't, 'c, 'm, 's, 'tm) detector_state \<times> 'cid detector_event list) option" where
  "handle_sacn_universe_discovery_packet X V data datalen the_cid nm D =
     (if datalen = 0 \<or> \<not> cb_lock_taken V \<or> \<not> receiver_lock_taken V \<or> \<not> context_detector D then Some (D, [])
      else do {
        parsed \<leftarrow> parse_sacn_universe_discovery_layer (packing X) data datalen;
        case parsed of
          None \<Rightarrow> Some (D, [])
        | Some p \<Rightarrow> do {
            let n = num_universes p;
            let array = (if SACN_DYNAMIC_MEM X
                         then (if n > 0 \<and> page_alloc_ok V then Some (replicate n 0) else None)
                         else Some (replicate SACN_MAX_UNIVERSES_PER_PAGE 0));
            us \<leftarrow> (case array of
                    None \<Rightarrow> Some None
                  | Some a \<Rightarrow> map_option (\<lambda>(ok, us). Some us) (parse_sacn_universe_list (packing X) data (universes p) n a));
            process_universe_discovery_page X V
              \<lparr>sender_cid = the_cid, page_source_name = nm, this_page = page p, final_page = last_page p,
               page_universes = us, page_num_universes = n\<rparr> D
          }
      })"

end
