(* ===== verification/DetectorApi.thy ===== *)
theory DetectorApi
  imports Detector
begin

text \<open>
  The rest of the source detector: the expiry of sources (\<open>process_source_detector\<close> and
  mem/source_detector/source_detector_expired_source.c), the single detector object
  (mem/source_detector/source_detector.c) and the public functions (source_detector.c). What the
  socket functions and the receive thread's start return is in \<open>detector_call\<close>.
\<close>

section \<open>Expiry\<close>

record 'cid expired_source =
  expired_handle :: u16
  expired_cid :: 'cid
  expired_name :: "u8 list"

text \<open>The notification's buffer is a null pointer (\<open>None\<close>) until the first source is added.\<close>

definition add_sacn_source_detector_expired_source ::
    "('cid, 't, 'c, 'm, 's) detector_ext \<Rightarrow> 'tm detector_call \<Rightarrow> ('cid, 't, 'c, 'm, 's, 'tm) detector_state \<Rightarrow>
     u16 \<Rightarrow> u8 list \<Rightarrow> 'cid expired_source buf option \<Rightarrow>
     (etcpal_error \<times> 'cid expired_source buf option) option" where
  "add_sacn_source_detector_expired_source X V D h nm buffer =
     (if h = kSacnRemoteSourceInvalid then Some (kEtcPalErrSys, buffer)
      else case get_remote_source_cid (remote_lib X) (remote D) h of
             None \<Rightarrow> Some (kEtcPalErrNotFound, buffer)
           | Some c \<Rightarrow>
               (case (if buffer = None \<and> (SACN_DYNAMIC_MEM X \<longrightarrow> expired_alloc_ok V)
                      then Some \<lparr>items = [], capacity = kSacnInitialCapacity\<rparr> else buffer) of
                  None \<Rightarrow> Some (kEtcPalErrNoMem, None)
                | Some b \<Rightarrow>
                    (case append_item (SACN_DYNAMIC_MEM X) (expired_realloc_ok V (length (items b))) (max_sources X)
                            \<lparr>expired_handle = h, expired_cid = c, expired_name = strncpy_bytes kSacnSourceNameMaxLen nm\<rparr> b of
                       None \<Rightarrow> None
                     | Some (added, b) \<Rightarrow> Some (if added then kEtcPalErrOk else kEtcPalErrNoMem, Some b))))"

text \<open>
  The loop over the sources. \<open>expiring\<close> says that the callback of the notification was set. Whether a
  source could be added to the notification is not looked at.
\<close>

fun collect_expired ::
    "('cid, 't, 'c, 'm, 's) detector_ext \<Rightarrow> 'tm detector_call \<Rightarrow> u16 list \<Rightarrow> ('cid, 't, 'c, 'm, 's, 'tm) detector_state \<Rightarrow>
     bool \<Rightarrow> 'cid expired_source buf option \<Rightarrow>
     (('cid, 't, 'c, 'm, 's, 'tm) detector_state \<times> bool \<times> 'cid expired_source buf option) option" where
  "collect_expired X V [] D expiring buffer = Some (D, expiring, buffer)"
| "collect_expired X V (h # hs) D expiring buffer =
     (let src = discovery_mem D h in
      if timer_expired V (expiration_timer src)
      then (case add_sacn_source_detector_expired_source X V D (src_handle src) (src_name src) buffer of
              None \<Rightarrow> None
            | Some (_, buffer) \<Rightarrow>
                collect_expired X V hs (D\<lparr>detector := (detector D)\<lparr>suppress_source_limit_exceeded_notification := False\<rparr>\<rparr>)
                  True buffer)
      else collect_expired X V hs D expiring buffer)"

definition process_source_detector ::
    "('cid, 't, 'c, 'm, 's) detector_ext \<Rightarrow> 'tm detector_call \<Rightarrow> ('cid, 't, 'c, 'm, 's, 'tm) detector_state \<Rightarrow>
     (('cid, 't, 'c, 'm, 's, 'tm) detector_state \<times> 'cid detector_event list) option" where
  "process_source_detector X V D =
     (if \<not> cb_lock_taken V \<or> \<not> receiver_lock_taken V \<or> \<not> context_detector D then Some (D, [])
      else do {
        (D, expiring, buffer) \<leftarrow> collect_expired X V (rb_iter (source_rb X) (discovery_tree D)) D False None;
        let expired = (case buffer of None \<Rightarrow> [] | Some b \<Rightarrow> items b);
        Some (fold (\<lambda>e D. snd (remove_sacn_universe_discovery_source X (expired_handle e) D)) expired D,
              if expiring \<and> has_source_expired (callbacks (detector D))
              then map (\<lambda>e. SourceExpired (expired_handle e) (expired_cid e) (expired_name e)) expired else [])
      })"

section \<open>The detector\<close>

definition init_source_detector ::
    "('cid, 't, 'c, 'm, 's, 'tm) detector_state \<Rightarrow> etcpal_error \<times> ('cid, 't, 'c, 'm, 's, 'tm) detector_state" where
  "init_source_detector D = (kEtcPalErrOk, D\<lparr>detector := (detector D)\<lparr>created := False, detector_netints := []\<rparr>\<rparr>)"

definition deinit_source_detector ::
    "('cid, 't, 'c, 'm, 's, 'tm) detector_state \<Rightarrow> ('cid, 't, 'c, 'm, 's, 'tm) detector_state" where
  "deinit_source_detector D = D\<lparr>detector := (detector D)\<lparr>detector_netints := []\<rparr>\<rparr>"

definition add_sacn_source_detector ::
    "'tm detector_call \<Rightarrow> detector_config \<Rightarrow> ('cid, 't, 'c, 'm, 's, 'tm) detector_state \<Rightarrow>
     etcpal_error \<times> bool \<times> ('cid, 't, 'c, 'm, 's, 'tm) detector_state" where
  "add_sacn_source_detector V config D =
     (if created (detector D) then (kEtcPalErrExists, False, D)
      else if netints_result V \<noteq> kEtcPalErrOk
      then (netints_result V, False, D\<lparr>detector := (detector D)\<lparr>detector_netints := netints_found V\<rparr>\<rparr>)
      else (kEtcPalErrOk, True,
            D\<lparr>detector := \<lparr>created = True, detector_netints = netints_found V,
                suppress_source_limit_exceeded_notification = False, callbacks = config_callbacks config,
                source_count_max = config_source_count_max config,
                universes_per_source_max = config_universes_per_source_max config\<rparr>\<rparr>))"

definition get_sacn_source_detector :: "('cid, 't, 'c, 'm, 's, 'tm) detector_state \<Rightarrow> source_detector option" where
  "get_sacn_source_detector D = (if created (detector D) then Some (detector D) else None)"

definition remove_sacn_source_detector ::
    "('cid, 't, 'c, 'm, 's) detector_ext \<Rightarrow> ('cid, 't, 'c, 'm, 's, 'tm) detector_state \<Rightarrow>
     ('cid, 't, 'c, 'm, 's, 'tm) detector_state" where
  "remove_sacn_source_detector X D =
     (if created (detector D)
      then D\<lparr>detector := (detector D)\<lparr>created := False,
               detector_netints := (if SACN_DYNAMIC_MEM X then [] else detector_netints (detector D))\<rparr>\<rparr>
      else D)"

text \<open>
  \<open>assign_source_detector_to_thread\<close> and \<open>remove_source_detector_from_thread\<close> of
  \<open>receiver_state.c\<close>, for what they do to the thread's pointer; \<open>assign_result\<close> is the result of
  adding the sockets and starting the thread.
\<close>

definition assign_source_detector_to_thread ::
    "'tm detector_call \<Rightarrow> ('cid, 't, 'c, 'm, 's, 'tm) detector_state \<Rightarrow> etcpal_error \<times> ('cid, 't, 'c, 'm, 's, 'tm) detector_state" where
  "assign_source_detector_to_thread V D =
     (assign_result V, if assign_result V = kEtcPalErrOk then D\<lparr>context_detector := True\<rparr> else D)"

definition remove_source_detector_from_thread ::
    "('cid, 't, 'c, 'm, 's, 'tm) detector_state \<Rightarrow> ('cid, 't, 'c, 'm, 's, 'tm) detector_state" where
  "remove_source_detector_from_thread D = D\<lparr>context_detector := False\<rparr>"

section \<open>Public functions\<close>

text \<open>\<open>memset\<close> with 0 of a configuration: no callbacks, no limits.\<close>

definition sacn_source_detector_config_init :: detector_config where
  "sacn_source_detector_config_init =
     \<lparr>config_callbacks = \<lparr>has_source_updated = False, has_source_expired = False, has_limit_exceeded = False\<rparr>,
      config_source_count_max = 0, config_universes_per_source_max = 0\<rparr>"

definition sacn_source_detector_create ::
    "('cid, 't, 'c, 'm, 's) detector_ext \<Rightarrow> 'tm detector_call \<Rightarrow> detector_config option \<Rightarrow>
     ('cid, 't, 'c, 'm, 's, 'tm) detector_state \<Rightarrow> etcpal_error \<times> ('cid, 't, 'c, 'm, 's, 'tm) detector_state" where
  "sacn_source_detector_create X V config D =
     (if \<not> call_initialized V then (kEtcPalErrNotInit, D)
      else case config of
             None \<Rightarrow> (kEtcPalErrInvalid, D)
           | Some config \<Rightarrow>
               if \<not> has_source_updated (config_callbacks config) \<or> \<not> has_source_expired (config_callbacks config)
               then (kEtcPalErrInvalid, D)
               else if \<not> receiver_lock_taken V then (kEtcPalErrSys, D)
               else
                 let (res, added, D) = add_sacn_source_detector V config D;
                     (res, D) = (if res = kEtcPalErrOk then assign_source_detector_to_thread V D else (res, D))
                 in (res, if res \<noteq> kEtcPalErrOk \<and> added
                          then remove_sacn_source_detector X (remove_source_detector_from_thread D) else D))"

definition sacn_source_detector_destroy ::
    "('cid, 't, 'c, 'm, 's) detector_ext \<Rightarrow> 'tm detector_call \<Rightarrow> ('cid, 't, 'c, 'm, 's, 'tm) detector_state \<Rightarrow>
     ('cid, 't, 'c, 'm, 's, 'tm) detector_state" where
  "sacn_source_detector_destroy X V D =
     (if call_initialized V \<and> cb_lock_taken V \<and> receiver_lock_taken V \<and> get_sacn_source_detector D \<noteq> None
      then remove_sacn_source_detector X (remove_source_detector_from_thread D)
      else D)"

definition sacn_source_detector_reset_networking ::
    "'tm detector_call \<Rightarrow> ('cid, 't, 'c, 'm, 's, 'tm) detector_state \<Rightarrow> etcpal_error \<times> ('cid, 't, 'c, 'm, 's, 'tm) detector_state" where
  "sacn_source_detector_reset_networking V D =
     (if \<not> call_initialized V then (kEtcPalErrNotInit, D)
      else if \<not> receiver_lock_taken V then (kEtcPalErrSys, D)
      else if sys_netints_result V \<noteq> kEtcPalErrOk then (sys_netints_result V, D)
      else if get_sacn_source_detector D = None then (kEtcPalErrOk, D)
      else (if netints_result V = kEtcPalErrOk then sockets_result V else netints_result V,
            D\<lparr>detector := (detector D)\<lparr>detector_netints := netints_found V\<rparr>\<rparr>))"

text \<open>The interfaces written to an array of \<open>n\<close> entries, and their total number.\<close>

definition get_source_detector_netints :: "source_detector \<Rightarrow> nat \<Rightarrow> (nat \<times> u32) list \<times> nat" where
  "get_source_detector_netints d n = (take n (detector_netints d), length (detector_netints d))"

definition sacn_source_detector_get_network_interfaces ::
    "'tm detector_call \<Rightarrow> nat \<Rightarrow> ('cid, 't, 'c, 'm, 's, 'tm) detector_state \<Rightarrow> (nat \<times> u32) list \<times> nat" where
  "sacn_source_detector_get_network_interfaces V n D =
     (if receiver_lock_taken V
      then (case get_sacn_source_detector D of None \<Rightarrow> ([], 0) | Some d \<Rightarrow> get_source_detector_netints d n)
      else ([], 0))"

end
