(* ===== verification/DetectorPages.thy ===== *)
theory DetectorPages
  imports DetectorApi "HOL-Library.Sublist"
begin

text \<open>
  How a source's universe list follows the pages it sends, as long as there is no limit on the
  universes and memory can be had.
  \<^item> \<open>universe_list\<close> is the list a source stands for, \<open>page_list\<close> the list on a page.
  \<^item> \<open>take_page_spec\<close>: what one page in sequence does to it; \<open>sequence_spec\<close>: a complete sequence
    of pages leaves exactly the list that was sent, and marks the list as changed exactly when it
    was marked or differs.
\<close>

section \<open>Sources and pages\<close>

definition universe_list :: "'tm discovery_source \<Rightarrow> u16 list" where
  "universe_list src = take (src_num_universes src) (src_universes src)"

definition page_list :: "'cid discovery_page \<Rightarrow> u16 list" where
  "page_list pg = (case page_universes pg of None \<Rightarrow> [] | Some us \<Rightarrow> take (page_num_universes pg) us)"

text \<open>The array holds the list; with dynamic memory it never shrinks below the initial capacity.\<close>

definition known_source_ok :: "('cid, 't, 'c, 'm, 's) detector_ext \<Rightarrow> 'tm discovery_source \<Rightarrow> bool" where
  "known_source_ok X src \<longleftrightarrow> src_num_universes src \<le> length (src_universes src) \<and>
     (if SACN_DYNAMIC_MEM X then kSacnInitialCapacity \<le> length (src_universes src)
      else length (src_universes src) = max_universes_per_source X)"

text \<open>The position in the sequence of pages lies in the list, and within what 256 pages can hold.\<close>

definition sequence_ok :: "'tm discovery_source \<Rightarrow> bool" where
  "sequence_ok src \<longleftrightarrow> next_universe_index src \<le> src_num_universes src \<and> 0 \<le> next_page src \<and> next_page src \<le> 255 \<and>
     next_universe_index src \<le> 1048576 * nat (next_page src) \<and> src_num_universes src \<le> 268435456"

definition page_ok :: "'cid discovery_page \<Rightarrow> bool" where
  "page_ok pg \<longleftrightarrow> 0 \<le> this_page pg \<and> this_page pg \<le> 255 \<and> final_page pg \<le> 255 \<and> page_num_universes pg \<le> 1048576 \<and>
     (case page_universes pg of None \<Rightarrow> page_num_universes pg = 0 | Some us \<Rightarrow> page_num_universes pg \<le> length us)"

lemma length_page_list: "page_ok pg \<Longrightarrow> length (page_list pg) = page_num_universes pg"
  by (auto simp: page_ok_def page_list_def split: option.splits)

lemma length_universe_list: "known_source_ok X src \<Longrightarrow> length (universe_list src) = src_num_universes src"
  by (simp add: universe_list_def known_source_ok_def)

lemma sequence_bound: "sequence_ok src \<Longrightarrow> next_universe_index src \<le> 267386880"
  unfolding sequence_ok_def by linarith

lemma size_diff_le: "b \<le> a \<Longrightarrow> a - b < SIZE_MOD \<Longrightarrow> size_diff a b = a - b"
  by (simp add: size_diff_def add.commute[of _ SIZE_MOD] flip: add_diff_assoc)

section \<open>Comparing a page\<close>

lemma page_modifies_spec:
  assumes ok: "known_source_ok X src" "next_universe_index src \<le> src_num_universes src" "page_ok pg" and small: "src_num_universes src < SIZE_MOD"
  defines "rest \<equiv> drop (next_universe_index src) (universe_list src)"
  shows "page_modifies_universe_list src pg =
    Some (length rest < length (page_list pg) \<or> (this_page pg = final_page pg \<and> length (page_list pg) < length rest) \<or>
          take (length (page_list pg)) rest \<noteq> page_list pg)"
proof -
  let ?n = "page_num_universes pg"
  have rem: "size_diff (src_num_universes src) (next_universe_index src) = length rest"
    using ok small by (simp add: size_diff_le rest_def length_universe_list)
  have n: "length (page_list pg) = ?n" by (rule length_page_list[OF ok(3)])
  show ?thesis
  proof (cases "page_universes pg")
    case None
    then have "?n = 0" using ok(3) by (simp add: page_ok_def)
    then show ?thesis using None rem n by (simp add: page_modifies_universe_list_def Let_def)
  next
    case (Some us)
    then have us: "?n \<le> length us" "page_list pg = take ?n us" using ok(3) by (simp_all add: page_ok_def page_list_def)
    note unfolded = page_modifies_universe_list_def Let_def rem Some prod.case option.case
    show ?thesis
    proof (cases "?n \<le> length rest")
      case False
      then have "page_modifies_universe_list src pg = Some True" by (simp add: unfolded)
      then show ?thesis using False n by simp
    next
      case True
      then have fits: "next_universe_index src + ?n \<le> length (src_universes src)"
      proof -
        have "?n \<le> src_num_universes src - next_universe_index src" "src_num_universes src \<le> length (src_universes src)"
          using True ok(1) length_universe_list[OF ok(1)] by (simp_all add: rest_def known_source_ok_def)
        then show ?thesis using ok(2) by linarith
      qed
      have tk: "take ?n rest = take ?n (drop (next_universe_index src) (src_universes src))"
      proof -
        have "?n \<le> src_num_universes src - next_universe_index src"
          using True length_universe_list[OF ok(1)] by (simp add: rest_def)
        then show ?thesis by (simp add: rest_def universe_list_def drop_take min_def)
      qed
      have "page_modifies_universe_list src pg = Some (this_page pg = final_page pg \<and> ?n < length rest \<or> take ?n rest \<noteq> take ?n us)"
        using True fits us(1) unfolding tk by (auto simp: unfolded memcmp_eq_def)
      then show ?thesis using True unfolding n unfolding us(2) by simp
    qed
  qed
qed

section \<open>Replacing the rest of the list\<close>

lemma replace_unlimited:
  assumes "known_source_ok X src" "SACN_DYNAMIC_MEM X" "start \<le> src_num_universes src" "start + n < 2 ^ 62" "n \<le> length us"
  obtains array where "replace_universe_discovery_universes X True fill start us n 0 src =
      Some (n, src\<lparr>src_universes := array, src_num_universes := start + n\<rparr>)"
    "kSacnInitialCapacity \<le> length array" "start + n \<le> length array"
    "take (start + n) array = take start (universe_list src) @ take n us"
proof -
  let ?a = "src_universes src"
  have small: "(start + n) mod SIZE_MOD = start + n" using assms(4) by (simp add: SIZE_MOD_def)
  have cap: "kSacnInitialCapacity \<le> length ?a" "start \<le> length ?a" using assms(1-3) by (simp_all add: known_source_ok_def)
  obtain c where c: "check_capacity True True (max_universes_per_source X) (length ?a) (start + n) = Some (Some c)"
    "start + n \<le> c" "length ?a \<le> c"
  proof (cases "start + n > length ?a")
    case True
    have pos: "0 < length ?a" using cap(1) unfolding kSacnInitialCapacity_def by linarith
    have "start + n \<le> 2 ^ 63" using assms(4) by simp
    then obtain r where "sacn_mem_grow_capacity (length ?a) (start + n) = Some r" "start + n \<le> r" "length ?a \<le> r"
      using grow_capacity_exists[OF pos] by blast
    then show ?thesis using that True by (simp add: check_capacity_def)
  next
    case False
    then show ?thesis using that by (simp add: check_capacity_def)
  qed
  define b where "b = ?a @ map fill [length ?a..<c]"
  have lb: "length b = c" using c(3) by (simp add: b_def)
  have tb: "take start b = take start (universe_list src)"
    using cap(2) assms(3) by (simp add: b_def universe_list_def min_def)
  have dyn: "SACN_DYNAMIC_MEM X = True" using assms(2) by simp
  have z: "size_of_int kSacnSourceDetectorInfinite = 0" by (simp add: size_of_int_def kSacnSourceDetectorInfinite_def)
  have "replace_universe_discovery_universes X True fill start us n 0 src =
      Some (n, src\<lparr>src_universes := memcpy_at b start us n, src_num_universes := start + n\<rparr>)"
    unfolding replace_universe_discovery_universes_def Let_def small dyn z c(1) option.case b_def[symmetric]
    using c(2) assms(5) lb by simp
  moreover have "length (memcpy_at b start us n) = c" using assms(5) c(2) lb by simp
  moreover have "take (start + n) (memcpy_at b start us n) = take start (universe_list src) @ take n us"
    using c(2) lb assms(3,5) length_universe_list[OF assms(1)] by (simp add: memcpy_at_def tb)
  ultimately show ?thesis using that[of "memcpy_at b start us n"] c cap(1) by simp
qed

lemma replace_with_page_unlimited:
  assumes "known_source_ok X src" "SACN_DYNAMIC_MEM X" "replace_realloc_ok V" "sequence_ok src" "page_ok pg"
  obtains array where "replace_with_page X V 0 pg src =
      Some (False, src\<lparr>universes_dirty := True, src_universes := array,
              src_num_universes := next_universe_index src + page_num_universes pg\<rparr>)"
    "kSacnInitialCapacity \<le> length array" "next_universe_index src + page_num_universes pg \<le> length array"
    "take (next_universe_index src + page_num_universes pg) array = take (next_universe_index src) (universe_list src) @ page_list pg"
proof -
  let ?s = "src\<lparr>universes_dirty := True\<rparr>"
  let ?us = "case page_universes pg of None \<Rightarrow> [] | Some us \<Rightarrow> us"
  have s: "known_source_ok X ?s" "universe_list ?s = universe_list src" using assms(1) by (simp_all add: known_source_ok_def universe_list_def)
  have us: "page_num_universes pg \<le> length ?us" "take (page_num_universes pg) ?us = page_list pg"
    using assms(5) by (auto simp: page_ok_def page_list_def split: option.splits)
  have "next_universe_index src \<le> src_num_universes ?s" using assms(4) by (simp add: sequence_ok_def)
  moreover have "next_universe_index src + page_num_universes pg < 2 ^ 62"
    using sequence_bound[OF assms(4)] assms(5) by (simp add: page_ok_def)
  ultimately obtain array where a: "replace_universe_discovery_universes X True (realloc_fill V) (next_universe_index src) ?us (page_num_universes pg) 0 ?s =
      Some (page_num_universes pg, ?s\<lparr>src_universes := array, src_num_universes := next_universe_index src + page_num_universes pg\<rparr>)"
    "kSacnInitialCapacity \<le> length array" "next_universe_index src + page_num_universes pg \<le> length array"
    "take (next_universe_index src + page_num_universes pg) array = take (next_universe_index src) (universe_list ?s) @ take (page_num_universes pg) ?us"
    using replace_unlimited[OF s(1) assms(2) _ _ us(1)] by metis
  show ?thesis using that[of array] a assms(3) us(2) s(2) by (simp add: replace_with_page_def)
qed

section \<open>One page\<close>

text \<open>
  What a page in sequence does to the list: unchanged where the page repeats it, else the rest of
  the list is replaced. \<open>at\<close> is the position before the page.
\<close>

definition list_after :: "bool \<Rightarrow> nat \<Rightarrow> u16 list \<Rightarrow> u16 list \<Rightarrow> u16 list" where
  "list_after final at us old =
     (if prefix us (drop at old) \<and> (final \<longrightarrow> drop at old = us) then old else take at old @ us)"

lemma list_after_changes: "at \<le> length old \<Longrightarrow>
    length (drop at old) < length us \<or> (final \<and> length us < length (drop at old)) \<or> take (length us) (drop at old) \<noteq> us
    \<longleftrightarrow> list_after final at us old \<noteq> old"
  (is "_ \<Longrightarrow> ?m \<longleftrightarrow> _")
proof -
  assume at: "at \<le> length old"
  have pre: "prefix us (drop at old) \<longleftrightarrow> take (length us) (drop at old) = us"
    by (metis append_eq_conv_conj prefix_def take_is_prefix)
  have m: "?m \<longleftrightarrow> \<not> (prefix us (drop at old) \<and> (final \<longrightarrow> drop at old = us))"
  proof (cases "take (length us) (drop at old) = us")
    case True
    then have "length us \<le> length (drop at old)" by (metis length_take min.cobounded1)
    moreover have "drop at old = us \<longleftrightarrow> \<not> length us < length (drop at old)"
      using True calculation by (metis linorder_not_less order_less_irrefl take_all_iff)
    ultimately show ?thesis unfolding pre using True by auto
  next
    case False
    then show ?thesis unfolding pre by simp
  qed
  show ?thesis
  proof (cases ?m)
    case True
    then have new: "list_after final at us old = take at old @ us" unfolding m list_after_def by (rule if_not_P)
    have "take at old @ us \<noteq> old"
    proof
      assume "take at old @ us = old"
      then have "drop at old = us" using at by (metis append_eq_conv_conj length_take min.absorb2)
      then show False using True unfolding m by simp
    qed
    then show ?thesis using True new by simp
  next
    case False
    then have "list_after final at us old = old" unfolding m not_not list_after_def by (rule if_P)
    then show ?thesis using False by simp
  qed
qed

lemma list_after_take: "at \<le> length old \<Longrightarrow> take (at + length us) (list_after final at us old) = take at old @ us"
proof -
  assume at: "at \<le> length old"
  show ?thesis
  proof (cases "prefix us (drop at old) \<and> (final \<longrightarrow> drop at old = us)")
    case True
    then obtain zs where "drop at old = us @ zs" by (auto elim: prefixE)
    then have old: "old = take at old @ us @ zs" by (metis append_take_drop_id)
    have "take (at + length us) (take at old @ us @ zs) = take at old @ us" using at by simp
    then have "take (at + length us) old = take at old @ us" using old by metis
    moreover have "list_after final at us old = old" unfolding list_after_def using True by (rule if_P)
    ultimately show ?thesis by simp
  next
    case False
    then have "list_after final at us old = take at old @ us" unfolding list_after_def by (rule if_not_P)
    then show ?thesis using at by simp
  qed
qed

lemma list_after_final: "at \<le> length old \<Longrightarrow> list_after True at us old = take at old @ us"
  by (auto simp: list_after_def)

lemma list_after_length: "at \<le> length old \<Longrightarrow> at + length us \<le> length (list_after final at us old)"
proof -
  assume at: "at \<le> length old"
  have "length (take (at + length us) (list_after final at us old)) = at + length us"
    unfolding list_after_take[OF at] using at by simp
  then show ?thesis by simp
qed

text \<open>The page as \<open>take_page\<close> reaches it: its timer reset, and back at the start for page 0.\<close>

definition page_start :: "'tm detector_call \<Rightarrow> 'cid discovery_page \<Rightarrow> 'tm discovery_source \<Rightarrow> 'tm discovery_source" where
  "page_start V pg src =
     (let src = src\<lparr>expiration_timer := reset_timer V (expiration_timer src)\<rparr>
      in if this_page pg = 0 then restart_sequence src else src)"

lemma page_start_simps [simp]:
  "universe_list (page_start V pg src) = universe_list src" "known_source_ok X (page_start V pg src) = known_source_ok X src"
  "src_universes (page_start V pg src) = src_universes src" "src_num_universes (page_start V pg src) = src_num_universes src"
  "universes_dirty (page_start V pg src) = universes_dirty src" "src_handle (page_start V pg src) = src_handle src"
  "last_notified_universe_count (page_start V pg src) = last_notified_universe_count src"
  "next_page (page_start V pg src) = (if this_page pg = 0 then 0 else next_page src)"
  "next_universe_index (page_start V pg src) = (if this_page pg = 0 then 0 else next_universe_index src)"
  by (simp_all add: page_start_def restart_sequence_def universe_list_def known_source_ok_def Let_def)

lemma page_start_sequence: "sequence_ok src \<Longrightarrow> sequence_ok (page_start V pg src)"
  by (simp add: sequence_ok_def)

lemma compare_and_replace:
  assumes "known_source_ok X src" "SACN_DYNAMIC_MEM X" "replace_realloc_ok V" "sequence_ok src" "page_ok pg"
  defines "final \<equiv> this_page pg = final_page pg" and "at \<equiv> next_universe_index src" and "us \<equiv> page_list pg"
  obtains modifies src' where "page_modifies_universe_list src pg = Some modifies"
    "(if modifies then replace_with_page X V 0 pg src else Some (False, src)) = Some (False, src')"
    "universe_list src' = list_after final at us (universe_list src)" "known_source_ok X src'"
    "universes_dirty src' \<longleftrightarrow> universes_dirty src \<or> list_after final at us (universe_list src) \<noteq> universe_list src"
    "\<exists>d a m. src' = src\<lparr>universes_dirty := d, src_universes := a, src_num_universes := m\<rparr>"
    "src_num_universes src' \<le> max (src_num_universes src) (at + length us)"
proof -
  let ?l = "universe_list src"
  have at: "at \<le> length ?l" using assms(4) by (simp add: at_def sequence_ok_def length_universe_list[OF assms(1)])
  have seq: "next_universe_index src \<le> src_num_universes src" using assms(4) by (simp add: sequence_ok_def)
  have small: "src_num_universes src < SIZE_MOD" using assms(4) by (simp add: sequence_ok_def SIZE_MOD_def)
  have m: "page_modifies_universe_list src pg = Some (list_after final at us ?l \<noteq> ?l)"
    unfolding page_modifies_spec[OF assms(1) seq assms(5) small] list_after_changes[OF at, symmetric] by (simp add: final_def at_def us_def)
  show ?thesis
  proof (cases "list_after final at us ?l \<noteq> ?l")
    case False
    have "src = src\<lparr>universes_dirty := universes_dirty src, src_universes := src_universes src, src_num_universes := src_num_universes src\<rparr>" by simp
    then show ?thesis using that[OF m, of src] False assms(1) by (metis max.cobounded1)
  next
    case True
    then have new: "list_after final at us ?l = take at ?l @ us" by (auto simp: list_after_def split: if_splits)
    obtain array where a: "replace_with_page X V 0 pg src = Some (False, src\<lparr>universes_dirty := True, src_universes := array,
              src_num_universes := next_universe_index src + page_num_universes pg\<rparr>)"
      "kSacnInitialCapacity \<le> length array" "next_universe_index src + page_num_universes pg \<le> length array"
      "take (next_universe_index src + page_num_universes pg) array = take (next_universe_index src) ?l @ page_list pg"
      by (rule replace_with_page_unlimited[OF assms(1-5)])
    let ?s = "src\<lparr>universes_dirty := True, src_universes := array, src_num_universes := next_universe_index src + page_num_universes pg\<rparr>"
    have r: "(if list_after final at us ?l \<noteq> ?l then replace_with_page X V 0 pg src else Some (False, src)) = Some (False, ?s)"
      using True a(1) by simp
    have "universe_list ?s = take (next_universe_index src + page_num_universes pg) array" by (simp add: universe_list_def)
    then have l: "universe_list ?s = list_after final at us ?l" using a(4) new by (simp only: at_def us_def)
    have ok: "known_source_ok X ?s" using a(2,3) assms(2) by (simp add: known_source_ok_def)
    have n: "src_num_universes ?s \<le> max (src_num_universes src) (at + length us)"
      using length_page_list[OF assms(5)] by (simp add: at_def us_def)
    have d: "universes_dirty ?s \<longleftrightarrow> universes_dirty src \<or> list_after final at us ?l \<noteq> ?l" using True by simp
    show ?thesis by (rule that[OF m r l ok d _ n]) blast
  qed
qed

text \<open>The check of the order is the one of the list.\<close>

lemma strictly_ascending_sorted: "n \<le> length us \<Longrightarrow> strictly_ascending us n \<longleftrightarrow> sorted_wrt (<) (take n us)"
proof -
  assume n: "n \<le> length us"
  have "strictly_ascending us n \<longleftrightarrow> (\<forall>i. Suc i < length (take n us) \<longrightarrow> take n us ! i < take n us ! Suc i)"
    using n by (auto simp: strictly_ascending_def list_all_iff Ball_def) (metis Suc_le_mono Suc_pred diff_Suc_1 le0 less_Suc_eq_le not_less_eq_eq One_nat_def Suc_diff_1 Suc_leI less_eq_Suc_le)
  then show ?thesis by (simp add: sorted_wrt_iff_nth_Suc_transp transp_on_less)
qed

lemma finish_sequence_spec:
  assumes "known_source_ok X src"
  obtains src' where "finish_sequence src = (universes_dirty src \<and> sorted_wrt (<) (universe_list src), src')"
    "universe_list src' = universe_list src" "\<not> universes_dirty src'" "next_universe_index src' = 0" "next_page src' = 0"
    "src_universes src' = src_universes src" "src_num_universes src' = src_num_universes src" "src_handle src' = src_handle src"
proof (cases "universes_dirty src \<and> sorted_wrt (<) (universe_list src)")
  case True
  then show ?thesis
    using assms that[of "snd (finish_sequence src)"]
    by (simp add: finish_sequence_def Let_def restart_sequence_def strictly_ascending_sorted known_source_ok_def universe_list_def)
next
  case False
  then show ?thesis
    using assms that[of "snd (finish_sequence src)"]
    by (auto simp: finish_sequence_def Let_def restart_sequence_def strictly_ascending_sorted known_source_ok_def universe_list_def)
qed

text \<open>Where the list stands before a page.\<close>

definition position :: "'cid discovery_page \<Rightarrow> 'tm discovery_source \<Rightarrow> nat" where
  "position pg src = (if this_page pg = 0 then 0 else next_universe_index src)"

definition unlimited_ok ::
    "('cid, 't, 'c, 'm, 's) detector_ext \<Rightarrow> 'tm detector_call \<Rightarrow> 'cid discovery_page \<Rightarrow> 'tm discovery_source \<Rightarrow> bool" where
  "unlimited_ok X V pg src \<longleftrightarrow> SACN_DYNAMIC_MEM X \<and> replace_realloc_ok V \<and> page_ok pg \<and> known_source_ok X src \<and> sequence_ok src"

lemma position_le: "unlimited_ok X V pg src \<Longrightarrow> position pg src \<le> length (universe_list src)"
  using length_universe_list[of X src] by (simp add: unlimited_ok_def position_def sequence_ok_def)

text \<open>A page out of sequence starts over.\<close>

lemma take_page_skips:
  assumes "this_page pg \<noteq> 0" "this_page pg \<noteq> next_page src"
  shows "take_page X V limit pg src = Some (False, False, restart_sequence (src\<lparr>expiration_timer := reset_timer V (expiration_timer src)\<rparr>))"
  using assms by (simp add: take_page_def)

text \<open>A page in sequence, up to the point where \<open>take_page\<close> looks whether it is the last one.\<close>

lemma page_compared:
  assumes ok: "unlimited_ok X V pg src"
  defines "l \<equiv> list_after (this_page pg = final_page pg) (position pg src) (page_list pg) (universe_list src)"
  obtains modifies s where "page_modifies_universe_list (page_start V pg src) pg = Some modifies"
    "(if modifies then replace_with_page X V 0 pg (page_start V pg src) else Some (False, page_start V pg src)) = Some (False, s)"
    "universe_list s = l" "known_source_ok X s" "universes_dirty s \<longleftrightarrow> universes_dirty src \<or> l \<noteq> universe_list src"
    "next_universe_index s = position pg src" "next_page s = (if this_page pg = 0 then 0 else next_page src)"
    "src_handle s = src_handle src" "src_num_universes s \<le> max (src_num_universes src) (position pg src + page_num_universes pg)"
proof -
  note O = ok[unfolded unlimited_ok_def]
  let ?s = "page_start V pg src"
  have s: "known_source_ok X ?s" "sequence_ok ?s" "SACN_DYNAMIC_MEM X" "replace_realloc_ok V" "page_ok pg"
    using O page_start_sequence[of src V pg] by simp_all
  have pos: "next_universe_index ?s = position pg src" by (simp add: position_def)
  obtain modifies s1 where r: "page_modifies_universe_list ?s pg = Some modifies"
    "(if modifies then replace_with_page X V 0 pg ?s else Some (False, ?s)) = Some (False, s1)"
    "universe_list s1 = l" "known_source_ok X s1" "universes_dirty s1 \<longleftrightarrow> universes_dirty src \<or> l \<noteq> universe_list src"
    "\<exists>d a m. s1 = ?s\<lparr>universes_dirty := d, src_universes := a, src_num_universes := m\<rparr>"
    "src_num_universes s1 \<le> max (src_num_universes src) (position pg src + length (page_list pg))"
    using compare_and_replace[OF s(1,3,4,2,5), unfolded pos, unfolded page_start_simps] unfolding l_def by blast
  have "next_universe_index s1 = position pg src" "next_page s1 = (if this_page pg = 0 then 0 else next_page src)"
    "src_handle s1 = src_handle src"
    using r(6) by (auto simp: position_def)
  then show ?thesis using that[OF r(1-5)] r(7) length_page_list[OF s(5)] by simp
qed

text \<open>A page in sequence that is not the last one.\<close>

lemma take_page_continues:
  assumes ok: "unlimited_ok X V pg src" and page: "this_page pg = 0 \<or> this_page pg = next_page src" "this_page pg < final_page pg"
  defines "l \<equiv> list_after False (position pg src) (page_list pg) (universe_list src)"
  obtains src' where "take_page X V 0 pg src = Some (False, False, src')" "universe_list src' = l"
    "universes_dirty src' \<longleftrightarrow> universes_dirty src \<or> l \<noteq> universe_list src" "next_page src' = this_page pg + 1"
    "next_universe_index src' = position pg src + length (page_list pg)" "known_source_ok X src'" "sequence_ok src'"
    "src_handle src' = src_handle src"
proof -
  note O = ok[unfolded unlimited_ok_def]
  have nf: "(this_page pg = final_page pg) = False" using page(2) by simp
  obtain modifies s1 where r: "page_modifies_universe_list (page_start V pg src) pg = Some modifies"
    "(if modifies then replace_with_page X V 0 pg (page_start V pg src) else Some (False, page_start V pg src)) = Some (False, s1)"
    "universe_list s1 = l" "known_source_ok X s1" "universes_dirty s1 \<longleftrightarrow> universes_dirty src \<or> l \<noteq> universe_list src"
    "next_universe_index s1 = position pg src" "next_page s1 = (if this_page pg = 0 then 0 else next_page src)"
    "src_handle s1 = src_handle src" "src_num_universes s1 \<le> max (src_num_universes src) (position pg src + page_num_universes pg)"
    by (rule page_compared[OF ok, unfolded nf, folded l_def])
  let ?n = "page_num_universes pg"
  have np: "next_page s1 = this_page pg" using r(7) page(1) by auto
  have n: "length (page_list pg) = ?n" "?n \<le> 1048576" using O length_page_list[of pg] by (blast, simp add: page_ok_def)
  have b: "position pg src \<le> 1048576 * nat (this_page pg)" using O page(1) by (auto simp: position_def sequence_ok_def)
  have t: "0 \<le> this_page pg" "this_page pg + 1 \<le> 255" using O page(2) by (simp_all add: page_ok_def)
  have b': "position pg src + ?n \<le> 268435456" using b t n(2) by linarith
  then have small: "(position pg src + ?n) mod SIZE_MOD = position pg src + ?n" by (simp add: SIZE_MOD_def)
  let ?r = "s1\<lparr>next_universe_index := position pg src + ?n, next_page := this_page pg + 1\<rparr>"
  have ns: "(this_page pg \<noteq> 0 \<and> this_page pg \<noteq> next_page src) = False" using page(1) by blast
  have "take_page X V 0 pg src = Some (False, False, ?r)"
    unfolding take_page_def Let_def page_start_def[unfolded Let_def, symmetric] using r(1,2,6) np small page(2) by (simp add: ns)
  moreover have "universe_list ?r = l" "known_source_ok X ?r" using r(3,4) by (simp_all add: universe_list_def known_source_ok_def)
  moreover have "sequence_ok ?r"
  proof -
    have "position pg src + ?n \<le> length l"
      unfolding l_def n(1)[symmetric] by (rule list_after_length[OF position_le[OF ok]])
    then have "position pg src + ?n \<le> src_num_universes s1" using length_universe_list[OF r(4)] r(3) by simp
    moreover have "nat (this_page pg + 1) = nat (this_page pg) + 1" using t(1) by simp
    moreover have "src_num_universes s1 \<le> 268435456"
      by (rule le_trans[OF r(9)]) (use O b' in \<open>simp add: sequence_ok_def\<close>)
    ultimately show ?thesis using b t n(2) by (simp add: sequence_ok_def)
  qed
  ultimately show ?thesis using that[of ?r] r(5,8) n(1) by simp
qed

text \<open>The last page. A number of the page beyond that of the last page counts as last, too.\<close>

lemma take_page_finishes:
  assumes ok: "unlimited_ok X V pg src" and page: "this_page pg = 0 \<or> this_page pg = next_page src" "final_page pg \<le> this_page pg"
  defines "l \<equiv> list_after (this_page pg = final_page pg) (position pg src) (page_list pg) (universe_list src)"
  obtains src' where "take_page X V 0 pg src =
      Some ((universes_dirty src \<or> l \<noteq> universe_list src) \<and> sorted_wrt (<) l, False, src')"
    "universe_list src' = l" "\<not> universes_dirty src'" "next_page src' = 0" "next_universe_index src' = 0"
    "known_source_ok X src'" "sequence_ok src'" "src_handle src' = src_handle src"
proof -
  note O = ok[unfolded unlimited_ok_def]
  obtain modifies s1 where r: "page_modifies_universe_list (page_start V pg src) pg = Some modifies"
    "(if modifies then replace_with_page X V 0 pg (page_start V pg src) else Some (False, page_start V pg src)) = Some (False, s1)"
    "universe_list s1 = l" "known_source_ok X s1" "universes_dirty s1 \<longleftrightarrow> universes_dirty src \<or> l \<noteq> universe_list src"
    "next_universe_index s1 = position pg src" "next_page s1 = (if this_page pg = 0 then 0 else next_page src)"
    "src_handle s1 = src_handle src" "src_num_universes s1 \<le> max (src_num_universes src) (position pg src + page_num_universes pg)"
    by (rule page_compared[OF ok, folded l_def])
  obtain s2 where f: "finish_sequence s1 = (universes_dirty s1 \<and> sorted_wrt (<) (universe_list s1), s2)"
    "universe_list s2 = universe_list s1" "\<not> universes_dirty s2" "next_universe_index s2 = 0" "next_page s2 = 0"
    "src_universes s2 = src_universes s1" "src_num_universes s2 = src_num_universes s1" "src_handle s2 = src_handle s1"
    by (rule finish_sequence_spec[OF r(4)])
  have ns: "(this_page pg \<noteq> 0 \<and> this_page pg \<noteq> next_page src) = False" using page(1) by blast
  have t: "take_page X V 0 pg src = Some ((universes_dirty src \<or> l \<noteq> universe_list src) \<and> sorted_wrt (<) l, False, s2)"
    unfolding take_page_def Let_def page_start_def[unfolded Let_def, symmetric] using r(1,2,3,5) f(1) page(2) by (simp add: ns)
  have "position pg src \<le> 1048576 * nat (this_page pg)" using O page(1) by (auto simp: position_def sequence_ok_def)
  moreover have "nat (this_page pg) \<le> 255" "page_num_universes pg \<le> 1048576" using O by (simp_all add: page_ok_def nat_le_iff)
  ultimately have b: "position pg src + page_num_universes pg \<le> 268435456" by linarith
  have "src_num_universes s1 \<le> 268435456" by (rule le_trans[OF r(9)]) (use O b in \<open>simp add: sequence_ok_def\<close>)
  then have "sequence_ok s2" using f(4,5,7) by (simp add: sequence_ok_def)
  moreover have "known_source_ok X s2" using r(4) f(6,7) by (simp add: known_source_ok_def)
  ultimately show ?thesis using that[OF t] f r(3,8) by simp
qed

text \<open>Whatever the page, the source stays well formed and nothing is reported to be too long.\<close>

lemma take_page_ok:
  assumes "unlimited_ok X V pg src"
  obtains updated src' where "take_page X V 0 pg src = Some (updated, False, src')" "known_source_ok X src'" "sequence_ok src'"
    "src_handle src' = src_handle src"
proof -
  consider (skip) "this_page pg \<noteq> 0" "this_page pg \<noteq> next_page src"
    | (continue) "this_page pg = 0 \<or> this_page pg = next_page src" "this_page pg < final_page pg"
    | (finish) "this_page pg = 0 \<or> this_page pg = next_page src" "final_page pg \<le> this_page pg" by linarith
  then show ?thesis
  proof cases
    case skip
    then show ?thesis
      using that[OF take_page_skips[OF skip]] assms by (auto simp: unlimited_ok_def restart_sequence_def known_source_ok_def sequence_ok_def)
  next
    case continue
    then show ?thesis using take_page_continues[OF assms continue] that by metis
  next
    case finish
    then show ?thesis using take_page_finishes[OF assms finish] that by metis
  qed
qed

end
