(* ===== verification/DetectorInv.thy ===== *)
theory DetectorInv
  imports DetectorPages
begin

text \<open>
  The invariant of the source detector and that its operations keep it.
  \<^item> \<open>detector_inv\<close>: the remote source table is well formed, every known source is stored under its
    own handle, has an entry in that table, and is well formed (\<open>known_source_ok\<close>, \<open>sequence_ok\<close>).
  \<^item> \<open>find_or_add_source_cases\<close>: what becomes of a page's source.
  \<^item> \<open>process_page_inv\<close>, \<open>process_source_detector_spec\<close>: with no limit on the universes and memory
    for them, no page and no tick accesses memory outside an array, and the invariant is kept.
\<close>

section \<open>The invariant\<close>

definition discovery_handles ::
    "('cid, 't, 'c, 'm, 's) detector_ext \<Rightarrow> ('cid, 't, 'c, 'm, 's, 'tm) detector_state \<Rightarrow> u16 set" where
  "discovery_handles X D = set (rb_iter (source_rb X) (discovery_tree D))"

text \<open>The handle and the count of the CID in the table.\<close>

definition entry_of ::
    "('cid, 't, 'c, 'm, 's) detector_ext \<Rightarrow> ('cid, 't, 'c, 'm, 's, 'tm) detector_state \<Rightarrow> 'cid \<Rightarrow> (u16 \<times> nat) option" where
  "entry_of X D = remote_entries (remote_lib X) (remote D)"

definition detector_laws ::
    "('cid::linorder, 't, 'c, 'm, 's) detector_ext \<Rightarrow> ('t \<Rightarrow> bool) \<Rightarrow> ('c \<Rightarrow> bool) \<Rightarrow> ('s \<Rightarrow> bool) \<Rightarrow> bool" where
  "detector_laws X wft wfc wfs \<longleftrightarrow> remote_laws (remote_lib X) wft wfc \<and> rbtree_laws (source_rb X) wfs"

definition detector_inv ::
    "('cid, 't, 'c, 'm, 's) detector_ext \<Rightarrow> ('t \<Rightarrow> bool) \<Rightarrow> ('c \<Rightarrow> bool) \<Rightarrow> ('s \<Rightarrow> bool) \<Rightarrow>
     ('cid, 't, 'c, 'm, 's, 'tm) detector_state \<Rightarrow> bool" where
  "detector_inv X wft wfc wfs D \<longleftrightarrow>
     remote_inv (remote_lib X) wft wfc (remote D) \<and> wfs (discovery_tree D) \<and>
     (\<forall>h \<in> discovery_handles X D.
        (\<exists>c n. entry_of X D c = Some (h, n)) \<and> src_handle (discovery_mem D h) = h \<and>
        known_source_ok X (discovery_mem D h) \<and> sequence_ok (discovery_mem D h))"

lemma detector_invD:
  assumes "detector_inv X wft wfc wfs D"
  shows "remote_inv (remote_lib X) wft wfc (remote D)" "wfs (discovery_tree D)"
    "h \<in> discovery_handles X D \<Longrightarrow> \<exists>c n. entry_of X D c = Some (h, n)"
    "h \<in> discovery_handles X D \<Longrightarrow> src_handle (discovery_mem D h) = h"
    "h \<in> discovery_handles X D \<Longrightarrow> known_source_ok X (discovery_mem D h)"
    "h \<in> discovery_handles X D \<Longrightarrow> sequence_ok (discovery_mem D h)"
  using assms unfolding detector_inv_def by blast+

lemma detector_lawsD:
  assumes "detector_laws X wft wfc wfs"
  shows "remote_laws (remote_lib X) wft wfc" "rbtree_laws (source_rb X) wfs"
  using assms by (simp_all add: detector_laws_def)

text \<open>A handle is an entry's of one CID only, and is not the invalid one.\<close>

lemma entry_facts:
  assumes "detector_laws X wft wfc wfs" "detector_inv X wft wfc wfs D" "entry_of X D c = Some (h, n)"
  shows "h \<noteq> kSacnRemoteSourceInvalid" "entry_of X D d = Some (h, m) \<Longrightarrow> d = c"
    "get_remote_source_cid (remote_lib X) (remote D) h = Some c"
    "get_remote_source_handle (remote_lib X) (remote D) c = h"
proof -
  have ok: "remote_laws (remote_lib X) wft wfc \<and> remote_inv (remote_lib X) wft wfc (remote D)"
    using detector_lawsD(1)[OF assms(1)] detector_invD(1)[OF assms(2)] by blast
  show "h \<noteq> kSacnRemoteSourceInvalid" using remote_sources.entry_valid[OF ok] assms(3) unfolding entry_of_def by blast
  show "d = c" if "entry_of X D d = Some (h, m)"
    using remote_sources.entry_unique[OF ok] assms(3) that unfolding entry_of_def by blast
  show "get_remote_source_cid (remote_lib X) (remote D) h = Some c"
    using get_remote_source_cid_entries ok assms(3) unfolding entry_of_def by blast
  show "get_remote_source_handle (remote_lib X) (remote D) c = h"
    using assms(3) by (simp add: get_remote_source_handle_entries entry_of_def)
qed

text \<open>The detector object and the thread's pointer play no part in the invariant.\<close>

lemma detector_inv_same:
  assumes "detector_inv X wft wfc wfs D" "discovery_tree D' = discovery_tree D" "discovery_mem D' = discovery_mem D" "remote D' = remote D"
  shows "detector_inv X wft wfc wfs D'"
  using assms by (simp add: detector_inv_def discovery_handles_def entry_of_def)

lemma put_discovery_source_inv:
  assumes "detector_inv X wft wfc wfs D" "src_handle src = h" "known_source_ok X src" "sequence_ok src"
  shows "detector_inv X wft wfc wfs (put_discovery_source h src D)"
  using assms by (auto simp: detector_inv_def discovery_handles_def entry_of_def put_discovery_source_def)

text \<open>A change of the remote source table that keeps the handles of the known sources.\<close>

lemma remote_change_inv:
  assumes "detector_inv X wft wfc wfs D" "remote_inv (remote_lib X) wft wfc R"
    and "\<And>h c n. h \<in> discovery_handles X D \<Longrightarrow> entry_of X D c = Some (h, n) \<Longrightarrow> \<exists>n. remote_entries (remote_lib X) R c = Some (h, n)"
  shows "detector_inv X wft wfc wfs (D\<lparr>remote := R\<rparr>)"
proof -
  have "\<exists>c n. entry_of X (D\<lparr>remote := R\<rparr>) c = Some (h, n)" if "h \<in> discovery_handles X D" for h
    using detector_invD(3)[OF assms(1) that] assms(3)[OF that] unfolding entry_of_def by simp blast
  then show ?thesis using assms(1,2) by (simp add: detector_inv_def discovery_handles_def)
qed

section \<open>Adding a source\<close>

lemma drop_acquired:
  assumes L: "detector_laws X wft wfc wfs" and inv: "detector_inv X wft wfc wfs D"
    and r: "add_remote_source_handle (remote_lib X) A c (remote D) = (kEtcPalErrOk, Some h, R)"
    and t: "wfs t" "set (rb_iter (source_rb X) t) = discovery_handles X D"
  shows "detector_inv X wft wfc wfs (drop_handle X h (D\<lparr>remote := R, discovery_tree := t\<rparr>))"
    "discovery_handles X (drop_handle X h (D\<lparr>remote := R, discovery_tree := t\<rparr>)) = discovery_handles X D"
    "entry_of X (drop_handle X h (D\<lparr>remote := R, discovery_tree := t\<rparr>)) = entry_of X D"
proof -
  have ok: "remote_laws (remote_lib X) wft wfc \<and> remote_inv (remote_lib X) wft wfc (remote D)"
    using detector_lawsD(1)[OF L] detector_invD(1)[OF inv] by blast
  obtain R' where R': "remove_remote_source_handle (remote_lib X) h R = (kEtcPalErrOk, R')"
    "remote_inv (remote_lib X) wft wfc R'" "remote_entries (remote_lib X) R' = remote_entries (remote_lib X) (remote D)"
    using remote_sources.acquire_release[OF ok r] by blast
  have eq: "drop_handle X h (D\<lparr>remote := R, discovery_tree := t\<rparr>) = D\<lparr>remote := R', discovery_tree := t\<rparr>"
    by (simp add: drop_handle_def R'(1))
  show "discovery_handles X (drop_handle X h (D\<lparr>remote := R, discovery_tree := t\<rparr>)) = discovery_handles X D"
    unfolding eq using t by (simp add: discovery_handles_def)
  show "entry_of X (drop_handle X h (D\<lparr>remote := R, discovery_tree := t\<rparr>)) = entry_of X D"
    unfolding eq by (simp add: entry_of_def R'(3))
  show "detector_inv X wft wfc wfs (drop_handle X h (D\<lparr>remote := R, discovery_tree := t\<rparr>))"
    unfolding eq using inv R'(2,3) t by (simp add: detector_inv_def discovery_handles_def entry_of_def)
qed

text \<open>A source that is not known is either added with a new state or nothing is changed.\<close>

lemma new_source_ok:
  "known_source_ok X (new_discovery_source X V h nm)" "sequence_ok (new_discovery_source X V h nm)"
  "universe_list (new_discovery_source X V h nm) = []" "universes_dirty (new_discovery_source X V h nm)"
  "src_handle (new_discovery_source X V h nm) = h" "next_page (new_discovery_source X V h nm) = 0"
  by (simp_all add: new_discovery_source_def known_source_ok_def sequence_ok_def universe_list_def)

text \<open>Whether the sender of a page is a known source.\<close>

definition known :: "('cid, 't, 'c, 'm, 's) detector_ext \<Rightarrow> ('cid, 't, 'c, 'm, 's, 'tm) detector_state \<Rightarrow> 'cid \<Rightarrow> u16 option" where
  "known X D c = (case entry_of X D c of None \<Rightarrow> None | Some (h, n) \<Rightarrow> if h \<in> discovery_handles X D then Some h else None)"

lemma known_iff: "known X D c = Some h \<longleftrightarrow> (\<exists>n. entry_of X D c = Some (h, n)) \<and> h \<in> discovery_handles X D"
  by (auto simp: known_def split: option.splits)

lemma known_lookup:
  fixes c :: "'cid::linorder"
  assumes L: "detector_laws X wft wfc wfs" and inv: "detector_inv X wft wfc wfs D"
  defines "h \<equiv> get_remote_source_handle (remote_lib X) (remote D) c"
  shows "h \<noteq> kSacnRemoteSourceInvalid \<and> rb_find (source_rb X) (discovery_tree D) h \<longleftrightarrow> known X D c = Some h"
    "known X D c = Some g \<Longrightarrow> h = g"
proof -
  have f: "rb_find (source_rb X) (discovery_tree D) h \<longleftrightarrow> h \<in> discovery_handles X D"
    using rb_find_iff[OF detector_lawsD(2)[OF L] detector_invD(2)[OF inv]] by (simp add: discovery_handles_def)
  have h: "h = (case entry_of X D c of None \<Rightarrow> kSacnRemoteSourceInvalid | Some (h, n) \<Rightarrow> h)"
    by (simp add: h_def get_remote_source_handle_entries entry_of_def)
  show "h = g" if "known X D c = Some g" using that h by (auto simp: known_iff)
  show "h \<noteq> kSacnRemoteSourceInvalid \<and> rb_find (source_rb X) (discovery_tree D) h \<longleftrightarrow> known X D c = Some h"
  proof (cases "entry_of X D c")
    case None
    then show ?thesis using h by (simp add: known_def)
  next
    case (Some p)
    obtain g n where p: "p = (g, n)" by (cases p)
    have g: "h = g" "g \<noteq> kSacnRemoteSourceInvalid" using h entry_facts(1)[OF L inv Some[unfolded p]] Some p by simp_all
    then show ?thesis unfolding f by (auto simp: known_iff Some p)
  qed
qed

lemma add_source_cases:
  assumes L: "detector_laws X wft wfc wfs" and inv: "detector_inv X wft wfc wfs D" and new: "known X D c = None"
  obtains (added) h n D' where "add_sacn_universe_discovery_source X V c nm D = (kEtcPalErrOk, Some h, D')"
      "detector_inv X wft wfc wfs D'" "discovery_handles X D' = insert h (discovery_handles X D)" "h \<notin> discovery_handles X D"
      "discovery_mem D' = (discovery_mem D)(h := new_discovery_source X V h nm)" "entry_of X D' = (entry_of X D)(c \<mapsto> (h, n + 1))"
      "detector D' = detector D" "context_detector D' = context_detector D"
    | (failed) e D' where "add_sacn_universe_discovery_source X V c nm D = (e, None, D')" "e \<noteq> kEtcPalErrOk"
      "detector_inv X wft wfc wfs D'" "discovery_handles X D' = discovery_handles X D" "discovery_mem D' = discovery_mem D"
      "entry_of X D' = entry_of X D" "detector D' = detector D" "context_detector D' = context_detector D"
proof -
  have ok: "remote_laws (remote_lib X) wft wfc \<and> remote_inv (remote_lib X) wft wfc (remote D)"
    using detector_lawsD(1)[OF L] detector_invD(1)[OF inv] by blast
  have guard: "(get_remote_source_handle (remote_lib X) (remote D) c \<noteq> kSacnRemoteSourceInvalid \<and>
      rb_find (source_rb X) (discovery_tree D) (get_remote_source_handle (remote_lib X) (remote D) c)) = False"
    using known_lookup(1)[OF L inv, of c] new by simp
  note call = add_sacn_universe_discovery_source_def Let_def guard if_False
  note T = detector_lawsD(2)[OF L] and wt = detector_invD(2)[OF inv]
  show ?thesis
  proof (cases rule: remote_sources.acquire_cases[OF ok, of "remote_memory V" c, case_names acquired failed])
    case (failed e R)
    have eq: "add_sacn_universe_discovery_source X V c nm D = (e, None, D\<lparr>remote := R\<rparr>)"
      unfolding call failed(1) using failed(2) by (simp split: etcpal_error.split)
    have "detector_inv X wft wfc wfs (D\<lparr>remote := R\<rparr>)"
      using remote_change_inv[OF inv, of R] failed(3,4) by (simp add: entry_of_def)
    then show ?thesis using that(2)[OF eq failed(2)] failed(4) by (simp add: discovery_handles_def entry_of_def)
  next
    case (acquired h n R)
    have entry: "remote_entries (remote_lib X) R = (entry_of X D)(c \<mapsto> (h, n + 1))" using acquired(3) by (simp add: entry_of_def)
    have h: "h \<notin> discovery_handles X D"
    proof
      assume "h \<in> discovery_handles X D"
      then obtain d m where d: "entry_of X D d = Some (h, m)" using detector_invD(3)[OF inv] by blast
      have "d = c"
      proof (rule ccontr)
        assume "d \<noteq> c"
        then have "remote_entries (remote_lib X) R d = Some (h, m)" using entry d by simp
        moreover have "remote_entries (remote_lib X) R c = Some (h, n + 1)" using entry by simp
        ultimately show False using remote_sources.entry_unique[OF acquired(2)] \<open>d \<noteq> c\<close> by blast
      qed
      then have "known X D c = Some h" using d \<open>h \<in> discovery_handles X D\<close> by (simp add: known_def)
      then show False using new by simp
    qed
    have drop: "detector_inv X wft wfc wfs (drop_handle X h (D\<lparr>remote := R, discovery_tree := discovery_tree D\<rparr>))"
      "discovery_handles X (drop_handle X h (D\<lparr>remote := R, discovery_tree := discovery_tree D\<rparr>)) = discovery_handles X D"
      "entry_of X (drop_handle X h (D\<lparr>remote := R, discovery_tree := discovery_tree D\<rparr>)) = entry_of X D"
      using drop_acquired[OF L inv acquired(1) wt] by (simp_all add: discovery_handles_def)
    let ?drop = "drop_handle X h (D\<lparr>remote := R, discovery_tree := discovery_tree D\<rparr>)"
    have same: "discovery_mem ?drop = discovery_mem D" "detector ?drop = detector D" "context_detector ?drop = context_detector D"
      by (simp_all add: drop_handle_def)
    show ?thesis
    proof (cases "\<not> source_alloc_ok V \<or> (SACN_DYNAMIC_MEM X \<and> \<not> universes_alloc_ok V)")
      case True
      then have "add_sacn_universe_discovery_source X V c nm D = (kEtcPalErrNoMem, None, ?drop)"
        unfolding call acquired(1) by (simp add: drop_handle_def)
      then show ?thesis by (rule that(2)) (use drop same in simp_all)
    next
      case mem: False
      obtain e t where t: "rb_insert (source_rb X) (source_node_ok V) (discovery_tree D) h = (e, t)" by (rule prod.exhaust)
      show ?thesis
      proof (cases "e = kEtcPalErrOk")
        case False
        have td: "t = discovery_tree D" by (rule rb_insert_fail[OF T wt t False])
        have "add_sacn_universe_discovery_source X V c nm D = (e, None, ?drop)"
          unfolding call acquired(1) using mem False t td by (auto simp: drop_handle_def)
        then show ?thesis using False by (rule that(2)) (use drop same in simp_all)
      next
        case True
        let ?D = "put_discovery_source h (new_discovery_source X V h nm) (D\<lparr>remote := R, discovery_tree := t\<rparr>)"
        have eq: "add_sacn_universe_discovery_source X V c nm D = (kEtcPalErrOk, Some h, ?D)"
          unfolding call acquired(1) using mem True t by simp
        have set: "set (rb_iter (source_rb X) t) = insert h (discovery_handles X D)"
          using rb_insert_Ok[OF T wt t[unfolded True]] by (simp add: discovery_handles_def)
        have hs: "discovery_handles X ?D = insert h (discovery_handles X D)" using set by (simp add: discovery_handles_def put_discovery_source_def)
        have es: "entry_of X ?D = (entry_of X D)(c \<mapsto> (h, n + 1))" using entry by (simp add: entry_of_def put_discovery_source_def)
        have ms: "discovery_mem ?D = (discovery_mem D)(h := new_discovery_source X V h nm)" by (simp add: put_discovery_source_def)
        have ent: "\<exists>d m. entry_of X ?D d = Some (g, m)" if g: "g \<in> discovery_handles X ?D" for g
        proof (cases "g = h")
          case True
          then show ?thesis unfolding es by (intro exI[of _ c] exI[of _ "n + 1"]) simp
        next
          case False
          then obtain d m where d: "entry_of X D d = Some (g, m)" using g detector_invD(3)[OF inv, of g] hs by auto
          show ?thesis
          proof (cases "d = c")
            case True
            then have "n \<noteq> 0" "g = h" using acquired(4) d by (auto simp: entry_of_def split: if_splits)
            then show ?thesis using False by simp
          next
            case False
            then show ?thesis unfolding es using d by (intro exI[of _ d] exI[of _ m]) simp
          qed
        qed
        have "detector_inv X wft wfc wfs ?D"
          unfolding detector_inv_def using ent detector_invD[OF inv] rb_insert_wf[OF T wt t] acquired(2)
          by (auto simp: hs ms new_source_ok) (simp_all add: put_discovery_source_def)
        then show ?thesis using that(1)[OF eq _ hs h ms es] by (simp add: put_discovery_source_def)
      qed
    qed
  qed
qed

section \<open>A page\<close>

lemma find_or_add_known:
  assumes "detector_laws X wft wfc wfs" "detector_inv X wft wfc wfs D" "known X D (sender_cid pg) = Some h"
  shows "find_or_add_source X V pg D = (kEtcPalErrOk, Some h, False, D)"
proof -
  define g where "g = get_remote_source_handle (remote_lib X) (remote D) (sender_cid pg)"
  have g: "g = h" unfolding g_def by (rule known_lookup(2)[OF assms])
  have "g \<noteq> kSacnRemoteSourceInvalid \<and> rb_find (source_rb X) (discovery_tree D) g"
    using known_lookup(1)[OF assms(1,2), of "sender_cid pg"] assms(3) g unfolding g_def by simp
  then show ?thesis unfolding find_or_add_source_def Let_def g_def[symmetric] using g by simp
qed

lemma find_or_add_cases:
  assumes L: "detector_laws X wft wfc wfs" and inv: "detector_inv X wft wfc wfs D"
  obtains (known) h where "find_or_add_source X V pg D = (kEtcPalErrOk, Some h, False, D)" "known X D (sender_cid pg) = Some h"
    | (added) h n D' where "find_or_add_source X V pg D = (kEtcPalErrOk, Some h, False, D')" "known X D (sender_cid pg) = None"
      "detector_inv X wft wfc wfs D'" "discovery_handles X D' = insert h (discovery_handles X D)" "h \<notin> discovery_handles X D"
      "discovery_mem D' = (discovery_mem D)(h := new_discovery_source X V h (page_source_name pg))"
      "entry_of X D' = (entry_of X D)(sender_cid pg \<mapsto> (h, n + 1))" "detector D' = detector D" "context_detector D' = context_detector D"
    | (failed) e lim D' b where "find_or_add_source X V pg D = (e, None, lim, D')" "e \<noteq> kEtcPalErrOk"
      "detector_inv X wft wfc wfs D'" "discovery_handles X D' = discovery_handles X D" "discovery_mem D' = discovery_mem D"
      "entry_of X D' = entry_of X D" "detector D' = (detector D)\<lparr>suppress_source_limit_exceeded_notification := b\<rparr>"
      "context_detector D' = context_detector D"
proof (cases "known X D (sender_cid pg)")
  case (Some h)
  then show ?thesis using that(1)[of h] find_or_add_known[OF L inv Some] by simp
next
  case None
  have guard: "(get_remote_source_handle (remote_lib X) (remote D) (sender_cid pg) \<noteq> kSacnRemoteSourceInvalid \<and>
      rb_find (source_rb X) (discovery_tree D) (get_remote_source_handle (remote_lib X) (remote D) (sender_cid pg))) = False"
    using known_lookup(1)[OF L inv, of "sender_cid pg"] None by simp
  define full where "full \<longleftrightarrow> SACN_DYNAMIC_MEM X \<and> source_count_max (detector D) \<noteq> kSacnSourceDetectorInfinite \<and>
                     rb_size (source_rb X) (discovery_tree D) \<ge> size_of_int (source_count_max (detector D))"
  note call = find_or_add_source_def Let_def guard if_False full_def[symmetric]
  note goal = that
  text \<open>A failure with error \<open>e\<close> in state \<open>D1\<close>, with the notification suppressed from now on or not.\<close>
  have fail: thesis if r: "(if full then (kEtcPalErrNoMem, None, D) else add_sacn_universe_discovery_source X V (sender_cid pg) (page_source_name pg) D) = (e, None, D1)"
    and D1: "e \<noteq> kEtcPalErrOk" "detector_inv X wft wfc wfs D1" "discovery_handles X D1 = discovery_handles X D" "discovery_mem D1 = discovery_mem D"
      "entry_of X D1 = entry_of X D" "detector D1 = detector D" "context_detector D1 = context_detector D" for e D1
  proof (cases "e = kEtcPalErrNoMem \<and> \<not> suppress_source_limit_exceeded_notification (detector D1)")
    case True
    let ?D = "D1\<lparr>detector := (detector D1)\<lparr>suppress_source_limit_exceeded_notification := True\<rparr>\<rparr>"
    have eq: "find_or_add_source X V pg D = (e, None, True, ?D)" unfolding call r prod.case using True by simp
    have inv': "detector_inv X wft wfc wfs ?D" by (rule detector_inv_same[OF D1(2)]) simp_all
    have sets: "discovery_handles X ?D = discovery_handles X D1" "entry_of X ?D = entry_of X D1" by (simp_all add: discovery_handles_def entry_of_def)
    show ?thesis by (rule goal(3)[OF eq D1(1) inv', of True]) (use D1 sets in simp_all)
  next
    case False
    have eq: "find_or_add_source X V pg D = (e, None, False, D1)" unfolding call r prod.case using False by simp
    show ?thesis
      by (rule goal(3)[OF eq D1(1,2), of "suppress_source_limit_exceeded_notification (detector D)"]) (use D1 in simp_all)
  qed
  show ?thesis
  proof (cases full)
    case True
    then show ?thesis using inv by (intro fail[of kEtcPalErrNoMem D]) simp_all
  next
    case False
    show ?thesis
    proof (cases rule: add_source_cases[OF L inv None, of V "page_source_name pg", case_names added failed])
      case (added h n D')
      have eq: "find_or_add_source X V pg D = (kEtcPalErrOk, Some h, False, D')" unfolding call using False added(1) by simp
      show ?thesis by (rule goal(2)[OF eq None added(2-8)])
    next
      case (failed e D')
      then show ?thesis using False by (intro fail[of e D']) simp_all
    qed
  qed
qed

text \<open>What \<open>process_universe_discovery_page\<close> does once the source is there.\<close>

definition page_result ::
    "('cid, 't, 'c, 'm, 's) detector_ext \<Rightarrow> 'tm detector_call \<Rightarrow> 'cid discovery_page \<Rightarrow> u16 \<Rightarrow>
     ('cid, 't, 'c, 'm, 's, 'tm) detector_state \<Rightarrow> bool \<Rightarrow> 'tm discovery_source \<Rightarrow>
     ('cid, 't, 'c, 'm, 's, 'tm) detector_state \<times> 'cid detector_event list" where
  "page_result X V pg h D updated src =
     (put_discovery_source h src D,
      if updated \<and> has_source_updated (callbacks (detector D)) then [updated_event X V pg src] else [])"

lemma process_page_found:
  assumes "page_lock_taken V" "find_or_add_source X V pg D = (kEtcPalErrOk, Some h, False, D1)"
    and "universes_per_source_max (detector D1) = 0" "take_page X V 0 pg (discovery_mem D1 h) = Some (updated, False, src)"
  shows "process_universe_discovery_page X V pg D = Some (page_result X V pg h D1 updated src)"
  using assms by (simp add: process_universe_discovery_page_def size_of_int_def page_result_def)

lemma page_result_inv:
  assumes "detector_inv X wft wfc wfs D" "src_handle src = h" "known_source_ok X src" "sequence_ok src"
  shows "detector_inv X wft wfc wfs (fst (page_result X V pg h D updated src))"
    "discovery_handles X (fst (page_result X V pg h D updated src)) = discovery_handles X D"
    "entry_of X (fst (page_result X V pg h D updated src)) = entry_of X D"
    "detector (fst (page_result X V pg h D updated src)) = detector D"
    "context_detector (fst (page_result X V pg h D updated src)) = context_detector D"
    "discovery_mem (fst (page_result X V pg h D updated src)) = (discovery_mem D)(h := src)"
  using put_discovery_source_inv[OF assms]
  by (simp_all add: page_result_def put_discovery_source_def discovery_handles_def entry_of_def)

lemma process_page_inv:
  assumes L: "detector_laws X wft wfc wfs" and inv: "detector_inv X wft wfc wfs D"
    and pg: "SACN_DYNAMIC_MEM X" "replace_realloc_ok V" "page_ok pg" "universes_per_source_max (detector D) = 0"
  shows "\<exists>D' es. process_universe_discovery_page X V pg D = Some (D', es) \<and> detector_inv X wft wfc wfs D' \<and>
    universes_per_source_max (detector D') = 0 \<and> discovery_handles X D \<subseteq> discovery_handles X D'"
proof (cases "page_lock_taken V")
  case False
  then show ?thesis using inv pg(4) by (simp add: process_universe_discovery_page_def)
next
  case lock: True
  have go: ?thesis if f: "find_or_add_source X V pg D = (kEtcPalErrOk, Some h, False, D1)" and D1: "detector_inv X wft wfc wfs D1"
      "detector D1 = detector D" "h \<in> discovery_handles X D1" "discovery_handles X D \<subseteq> discovery_handles X D1" for h D1
  proof -
    have u: "unlimited_ok X V pg (discovery_mem D1 h)" using pg detector_invD(5,6)[OF D1(1,3)] by (simp add: unlimited_ok_def)
    obtain upd src where t: "take_page X V 0 pg (discovery_mem D1 h) = Some (upd, False, src)" "known_source_ok X src" "sequence_ok src"
      "src_handle src = src_handle (discovery_mem D1 h)" by (rule take_page_ok[OF u])
    have h: "src_handle src = h" using t(4) detector_invD(4)[OF D1(1,3)] by simp
    note R = page_result_inv[OF D1(1) h t(2,3), of V pg upd]
    have lim: "universes_per_source_max (detector D1) = 0" using D1(2) pg(4) by simp
    have "process_universe_discovery_page X V pg D = Some (page_result X V pg h D1 upd src)"
      by (rule process_page_found[OF lock f lim t(1)])
    then show ?thesis using R(1,2,4) D1(2,4) pg(4) by (intro exI[of _ "fst (page_result X V pg h D1 upd src)"] exI[of _ "snd (page_result X V pg h D1 upd src)"]) simp
  qed
  show ?thesis
  proof (cases rule: find_or_add_cases[OF L inv, of V pg, case_names known added failed])
    case (known h)
    then show ?thesis using inv by (intro go[of h D]) (simp_all add: known_iff)
  next
    case (added h n D')
    then show ?thesis by (intro go[of h D']) auto
  next
    case (failed e lim D' b)
    then show ?thesis using lock pg(4) by (auto simp: process_universe_discovery_page_def split: etcpal_error.splits)
  qed
qed

end
