(* ===== verification/DetectorExpiry.thy ===== *)
theory DetectorExpiry
  imports DetectorInv
begin

text \<open>
  The expiry of sources: what \<open>process_source_detector\<close> removes and notifies.
  \<^item> \<open>remove_source_spec\<close>: one source goes, and its user of the remote source handle with it.
  \<^item> \<open>collect_expired_spec\<close>: the notification's list is the expired sources in ascending order of the
    handles, or part of it when memory runs out.
  \<^item> \<open>process_source_detector_spec\<close>: the whole tick.
\<close>

section \<open>Removing sources\<close>

lemma remove_source_spec:
  assumes L: "detector_laws X wft wfc wfs" and inv: "detector_inv X wft wfc wfs D" and h: "h \<in> discovery_handles X D"
    and e: "entry_of X D c = Some (h, n)"
  obtains D' where "remove_sacn_universe_discovery_source X h D = (kEtcPalErrOk, D')" "detector_inv X wft wfc wfs D'"
    "discovery_handles X D' = discovery_handles X D - {h}" "discovery_mem D' = discovery_mem D" "detector D' = detector D"
    "context_detector D' = context_detector D" "entry_of X D' = (entry_of X D)(c := if n \<le> 1 then None else Some (h, n - 1))"
proof -
  have ok: "remote_laws (remote_lib X) wft wfc \<and> remote_inv (remote_lib X) wft wfc (remote D)"
    using detector_lawsD(1)[OF L] detector_invD(1)[OF inv] by blast
  obtain R where R: "remove_remote_source_handle (remote_lib X) h (remote D) = (kEtcPalErrOk, R)"
    "remote_inv (remote_lib X) wft wfc R"
    "remote_entries (remote_lib X) R = (entry_of X D)(c := if n \<le> 1 then None else Some (h, n - 1))"
    using remote_sources.release_entry[OF ok e[unfolded entry_of_def]] unfolding entry_of_def by blast
  obtain r t where t: "rb_remove (source_rb X) (discovery_tree D) h = (r, t)" by (rule prod.exhaust)
  have T: "r = kEtcPalErrOk" "set (rb_iter (source_rb X) t) = discovery_handles X D - {h}" "wfs t"
    using rb_remove_Ok[OF detector_lawsD(2)[OF L] detector_invD(2)[OF inv], of h] h
      rb_remove_wf[OF detector_lawsD(2)[OF L] detector_invD(2)[OF inv] t]
    by (simp_all add: t discovery_handles_def)
  let ?D = "D\<lparr>discovery_tree := t, remote := R\<rparr>"
  have r: "remove_sacn_universe_discovery_source X h D = (kEtcPalErrOk, ?D)"
    using entry_facts(1)[OF L inv e] detector_invD(4)[OF inv h] T(1) t R(1)
    by (simp add: remove_sacn_universe_discovery_source_def drop_handle_def)
  have hs: "discovery_handles X ?D = discovery_handles X D - {h}" using T(2) by (simp add: discovery_handles_def)
  have es: "entry_of X ?D = (entry_of X D)(c := if n \<le> 1 then None else Some (h, n - 1))" using R(3) by (simp add: entry_of_def)
  have ent: "\<exists>d m. entry_of X ?D d = Some (g, m)" if g: "g \<in> discovery_handles X ?D" for g
  proof -
    have "g \<in> discovery_handles X D" "g \<noteq> h" using g hs by simp_all
    then obtain d m where d: "entry_of X D d = Some (g, m)" using detector_invD(3)[OF inv] by blast
    then have "d \<noteq> c" using e \<open>g \<noteq> h\<close> by auto
    then show ?thesis unfolding es using d by (intro exI[of _ d] exI[of _ m]) simp
  qed
  have "detector_inv X wft wfc wfs ?D"
    unfolding detector_inv_def using ent detector_invD[OF inv] T(3) R(2) hs by simp
  then show ?thesis using that[OF r _ hs _ _ _ es] by simp
qed

text \<open>The table after the sources with the handles \<open>hs\<close> are gone.\<close>

definition released :: "u16 set \<Rightarrow> ('cid \<Rightarrow> (u16 \<times> nat) option) \<Rightarrow> 'cid \<Rightarrow> (u16 \<times> nat) option" where
  "released hs entries c =
     (case entries c of None \<Rightarrow> None
      | Some (h, n) \<Rightarrow> if h \<in> hs then (if n \<le> 1 then None else Some (h, n - 1)) else Some (h, n))"

lemma released_empty: "released {} e = e"
  by (simp add: released_def fun_eq_iff split: option.split)

definition remove_sources ::
    "('cid, 't, 'c, 'm, 's) detector_ext \<Rightarrow> u16 list \<Rightarrow> ('cid, 't, 'c, 'm, 's, 'tm) detector_state \<Rightarrow>
     ('cid, 't, 'c, 'm, 's, 'tm) detector_state" where
  "remove_sources X hs D = fold (\<lambda>h D. snd (remove_sacn_universe_discovery_source X h D)) hs D"

lemma remove_sources_spec:
  assumes "detector_laws X wft wfc wfs"
  shows "detector_inv X wft wfc wfs D \<Longrightarrow> distinct hs \<Longrightarrow> set hs \<subseteq> discovery_handles X D \<Longrightarrow>
    detector_inv X wft wfc wfs (remove_sources X hs D) \<and>
    discovery_handles X (remove_sources X hs D) = discovery_handles X D - set hs \<and>
    discovery_mem (remove_sources X hs D) = discovery_mem D \<and> detector (remove_sources X hs D) = detector D \<and>
    context_detector (remove_sources X hs D) = context_detector D \<and>
    entry_of X (remove_sources X hs D) = released (set hs) (entry_of X D)"
proof (induction hs arbitrary: D)
  case Nil
  then show ?case by (simp add: released_empty remove_sources_def)
next
  case (Cons h hs)
  obtain c n where e: "entry_of X D c = Some (h, n)" using detector_invD(3)[OF Cons.prems(1), of h] Cons.prems(3) by auto
  have h: "h \<in> discovery_handles X D" using Cons.prems(3) by simp
  obtain D1 where D1: "remove_sacn_universe_discovery_source X h D = (kEtcPalErrOk, D1)" "detector_inv X wft wfc wfs D1"
    "discovery_handles X D1 = discovery_handles X D - {h}" "discovery_mem D1 = discovery_mem D" "detector D1 = detector D"
    "context_detector D1 = context_detector D" "entry_of X D1 = (entry_of X D)(c := if n \<le> 1 then None else Some (h, n - 1))"
    by (rule remove_source_spec[OF assms Cons.prems(1) h e])
  have sub: "set hs \<subseteq> discovery_handles X D1" using Cons.prems(2,3) D1(3) by auto
  have rel: "released (set hs) (entry_of X D1) = released (insert h (set hs)) (entry_of X D)"
  proof
    fix d
    have uniq: "d = c" if "entry_of X D d = Some (h, m)" for m
      by (rule entry_facts(2)[OF assms Cons.prems(1) e that])
    show "released (set hs) (entry_of X D1) d = released (insert h (set hs)) (entry_of X D) d"
    proof (cases "d = c")
      case True
      then show ?thesis using e Cons.prems(2) by (simp add: released_def D1(7))
    next
      case False
      then have "\<not> (\<exists>m. entry_of X D d = Some (h, m))" using uniq by blast
      then show ?thesis using False by (auto simp: released_def D1(7) split: option.split)
    qed
  qed
  have step: "remove_sources X (h # hs) D = remove_sources X hs D1" using D1(1) by (simp add: remove_sources_def)
  have d: "distinct hs" using Cons.prems(2) by simp
  have sets: "discovery_handles X D - {h} - set hs = discovery_handles X D - set (h # hs)" by auto
  show ?case unfolding step using Cons.IH[OF D1(2) d sub] unfolding D1(3-6) rel sets by simp
qed

section \<open>Collecting\<close>

definition expired_entry :: "('cid, 't, 'c, 'm, 's) detector_ext \<Rightarrow> ('cid, 't, 'c, 'm, 's, 'tm) detector_state \<Rightarrow> u16 \<Rightarrow> 'cid expired_source" where
  "expired_entry X D h =
     \<lparr>expired_handle = h, expired_cid = the (get_remote_source_cid (remote_lib X) (remote D) h),
      expired_name = strncpy_bytes kSacnSourceNameMaxLen (src_name (discovery_mem D h))\<rparr>"

definition expired_handles :: "('cid, 't, 'c, 'm, 's) detector_ext \<Rightarrow> 'tm detector_call \<Rightarrow> ('cid, 't, 'c, 'm, 's, 'tm) detector_state \<Rightarrow> u16 list" where
  "expired_handles X V D = filter (\<lambda>h. timer_expired V (expiration_timer (discovery_mem D h))) (rb_iter (source_rb X) (discovery_tree D))"

definition buffered :: "'a buf option \<Rightarrow> 'a list" where
  "buffered b = (case b of None \<Rightarrow> [] | Some b \<Rightarrow> items b)"

definition buffer_ok :: "('cid, 't, 'c, 'm, 's) detector_ext \<Rightarrow> 'a buf option \<Rightarrow> bool" where
  "buffer_ok X b \<longleftrightarrow> (case b of None \<Rightarrow> True | Some b \<Rightarrow> buf_ok (SACN_DYNAMIC_MEM X) (max_sources X) b)"

text \<open>There is always room in the notification.\<close>

definition expiry_memory :: "('cid, 't, 'c, 'm, 's) detector_ext \<Rightarrow> 'tm detector_call \<Rightarrow> bool" where
  "expiry_memory X V \<longleftrightarrow> SACN_DYNAMIC_MEM X \<and> expired_alloc_ok V \<and> (\<forall>n. expired_realloc_ok V n)"

lemma add_expired_spec:
  assumes L: "detector_laws X wft wfc wfs" and inv: "detector_inv X wft wfc wfs D" and h: "h \<in> discovery_handles X D"
    and b: "buffer_ok X b" "length (buffered b) < 2 ^ 62"
  shows "\<exists>r b'. add_sacn_source_detector_expired_source X V D (src_handle (discovery_mem D h)) (src_name (discovery_mem D h)) b = Some (r, b') \<and>
    buffer_ok X b' \<and> (buffered b' = buffered b \<and> \<not> expiry_memory X V \<or> buffered b' = buffered b @ [expired_entry X D h])"
proof -
  obtain c n where e: "entry_of X D c = Some (h, n)" using detector_invD(3)[OF inv h] by blast
  note cid = entry_facts(1,3)[OF L inv e]
  let ?x = "expired_entry X D h"
  define b1 where "b1 = (if b = None \<and> (SACN_DYNAMIC_MEM X \<longrightarrow> expired_alloc_ok V) then Some \<lparr>items = [], capacity = kSacnInitialCapacity\<rparr> else b)"
  have call: "add_sacn_source_detector_expired_source X V D (src_handle (discovery_mem D h)) (src_name (discovery_mem D h)) b =
      (case b1 of None \<Rightarrow> Some (kEtcPalErrNoMem, None)
       | Some b \<Rightarrow> (case append_item (SACN_DYNAMIC_MEM X) (expired_realloc_ok V (length (items b))) (max_sources X) ?x b of
                       None \<Rightarrow> None | Some (added, b) \<Rightarrow> Some (if added then kEtcPalErrOk else kEtcPalErrNoMem, Some b)))"
    using cid detector_invD(4)[OF inv h]
    by (simp add: add_sacn_source_detector_expired_source_def b1_def expired_entry_def split: option.split)
  have b1: "buffered b1 = buffered b" "buffer_ok X b1"
    using b(1) by (auto simp: b1_def buffered_def buffer_ok_def buf_ok_def kSacnInitialCapacity_def split: option.splits)
  show ?thesis
  proof (cases b1)
    case None
    then have "b = None" "\<not> expiry_memory X V" by (auto simp: b1_def expiry_memory_def split: if_splits)
    then show ?thesis unfolding call None by (simp add: buffer_ok_def)
  next
    case (Some a)
    have a: "buf_ok (SACN_DYNAMIC_MEM X) (max_sources X) a" "length (items a) < 2 ^ 62" "items a = buffered b"
      using b1 b(2) Some by (simp_all add: buffered_def buffer_ok_def)
    show ?thesis
    proof (cases rule: append_item_returns[OF a(1,2), of "expired_realloc_ok V (length (items a))" ?x, case_names full added])
      case full
      then have "\<not> expiry_memory X V" by (auto simp: expiry_memory_def)
      then show ?thesis unfolding call Some using full(1) a by (simp add: buffered_def buffer_ok_def)
    next
      case (added b')
      then show ?thesis unfolding call Some using a by (simp add: buffered_def buffer_ok_def)
    qed
  qed
qed

text \<open>The state with the flag \<open>s\<close> that suppresses the notification about too many sources.\<close>

definition with_suppress :: "bool \<Rightarrow> ('cid, 't, 'c, 'm, 's, 'tm) detector_state \<Rightarrow> ('cid, 't, 'c, 'm, 's, 'tm) detector_state" where
  "with_suppress s D = D\<lparr>detector := (detector D)\<lparr>suppress_source_limit_exceeded_notification := s\<rparr>\<rparr>"

lemma with_suppress_simps [simp]:
  "discovery_mem (with_suppress s D) = discovery_mem D" "discovery_tree (with_suppress s D) = discovery_tree D"
  "remote (with_suppress s D) = remote D" "discovery_handles X (with_suppress s D) = discovery_handles X D"
  "entry_of X (with_suppress s D) = entry_of X D" "expired_entry X (with_suppress s D) = expired_entry X D"
  "detector_inv X wft wfc wfs (with_suppress s D) = detector_inv X wft wfc wfs D" "with_suppress s (with_suppress t D) = with_suppress s D"
  "context_detector (with_suppress s D) = context_detector D" "callbacks (detector (with_suppress s D)) = callbacks (detector D)"
  "universes_per_source_max (detector (with_suppress s D)) = universes_per_source_max (detector D)"
  "suppress_source_limit_exceeded_notification (detector (with_suppress s D)) = s"
  "with_suppress (suppress_source_limit_exceeded_notification (detector D)) D = D"
  by (simp_all add: with_suppress_def discovery_handles_def entry_of_def expired_entry_def detector_inv_def fun_eq_iff)

lemma collect_expired_spec:
  assumes L: "detector_laws X wft wfc wfs"
  shows "detector_inv X wft wfc wfs D \<Longrightarrow> set hs \<subseteq> discovery_handles X D \<Longrightarrow> buffer_ok X b \<Longrightarrow>
    length (buffered b) + length hs < 2 ^ 62 \<Longrightarrow>
    \<exists>b' gone. collect_expired X V hs D expiring b =
      Some (with_suppress (suppress_source_limit_exceeded_notification (detector D) \<and>
              filter (\<lambda>h. timer_expired V (expiration_timer (discovery_mem D h))) hs = []) D,
            expiring \<or> filter (\<lambda>h. timer_expired V (expiration_timer (discovery_mem D h))) hs \<noteq> [], b') \<and>
      buffered b' = buffered b @ map (expired_entry X D) gone \<and>
      subseq gone (filter (\<lambda>h. timer_expired V (expiration_timer (discovery_mem D h))) hs) \<and>
      (expiry_memory X V \<longrightarrow> gone = filter (\<lambda>h. timer_expired V (expiration_timer (discovery_mem D h))) hs)"
proof (induction hs arbitrary: D expiring b)
  case Nil
  show ?case by (intro exI[of _ b] exI[of _ "[]"]) simp
next
  case (Cons h hs)
  let ?exp = "\<lambda>h. timer_expired V (expiration_timer (discovery_mem D h))"
  have sub: "set hs \<subseteq> discovery_handles X D" "h \<in> discovery_handles X D" using Cons.prems(2) by simp_all
  show ?case
  proof (cases "?exp h")
    case False
    have len: "length (buffered b) + length hs < 2 ^ 62" using Cons.prems(4) by simp
    show ?thesis using Cons.IH[OF Cons.prems(1) sub(1) Cons.prems(3) len, of expiring] False by simp
  next
    case True
    have "length (buffered b) < 2 ^ 62" using Cons.prems(4) by simp
    from add_expired_spec[OF L Cons.prems(1) sub(2) Cons.prems(3) this, of V]
    obtain r b1 where b1: "add_sacn_source_detector_expired_source X V D (src_handle (discovery_mem D h)) (src_name (discovery_mem D h)) b = Some (r, b1)"
      "buffer_ok X b1" "buffered b1 = buffered b \<and> \<not> expiry_memory X V \<or> buffered b1 = buffered b @ [expired_entry X D h]"
      by blast
    have step: "collect_expired X V (h # hs) D expiring b = collect_expired X V hs (with_suppress False D) True b1"
      using True b1(1) by (simp add: with_suppress_def)
    have len: "length (buffered b1) + length hs < 2 ^ 62" using b1(3) Cons.prems(4) by auto
    obtain b' gone where r: "collect_expired X V hs (with_suppress False D) True b1 = Some (with_suppress False D, True, b')"
      "buffered b' = buffered b1 @ map (expired_entry X D) gone" "subseq gone (filter ?exp hs)" "expiry_memory X V \<longrightarrow> gone = filter ?exp hs"
      using Cons.IH[of "with_suppress False D" b1 True] Cons.prems(1) sub(1) b1(2) len by auto
    from b1(3) show ?thesis
    proof
      assume "buffered b1 = buffered b \<and> \<not> expiry_memory X V"
      then show ?thesis using step r True by (intro exI[of _ b'] exI[of _ gone]) auto
    next
      assume "buffered b1 = buffered b @ [expired_entry X D h]"
      then show ?thesis using step r True by (intro exI[of _ b'] exI[of _ "h # gone"]) auto
    qed
  qed
qed

section \<open>The tick\<close>

text \<open>
  The sources that go are expired ones, in ascending order; all of them when there is memory for
  the notification. The state is the one without them, and the events name them.
\<close>

lemma process_source_detector_spec:
  assumes L: "detector_laws X wft wfc wfs" and inv: "detector_inv X wft wfc wfs D"
    and on: "cb_lock_taken V" "receiver_lock_taken V" "context_detector D"
  obtains gone where "process_source_detector X V D =
      Some (remove_sources X gone (with_suppress (suppress_source_limit_exceeded_notification (detector D) \<and> expired_handles X V D = []) D),
        if has_source_expired (callbacks (detector D))
        then map (\<lambda>h. SourceExpired h (the (get_remote_source_cid (remote_lib X) (remote D) h))
                    (strncpy_bytes kSacnSourceNameMaxLen (src_name (discovery_mem D h)))) gone else [])"
    "subseq gone (expired_handles X V D)" "expiry_memory X V \<longrightarrow> gone = expired_handles X V D"
    "distinct gone" "set gone \<subseteq> discovery_handles X D"
proof -
  let ?hs = "rb_iter (source_rb X) (discovery_tree D)"
  have dist: "distinct ?hs" using rb_distinct[OF detector_lawsD(2)[OF L] detector_invD(2)[OF inv]] .
  have set: "set ?hs = discovery_handles X D" by (simp add: discovery_handles_def)
  have len: "length (buffered None) + length ?hs < 2 ^ 62" using distinct_u16_length[OF dist] by (simp add: buffered_def)
  have b: "buffer_ok X None" by (simp add: buffer_ok_def)
  from collect_expired_spec[OF L inv equalityD1[OF set] b len, of V False, folded expired_handles_def]
  obtain b' gone where r: "collect_expired X V ?hs D False None =
      Some (with_suppress (suppress_source_limit_exceeded_notification (detector D) \<and> expired_handles X V D = []) D, expired_handles X V D \<noteq> [], b')"
    "buffered b' = buffered None @ map (expired_entry X D) gone" "subseq gone (expired_handles X V D)"
    "expiry_memory X V \<longrightarrow> gone = expired_handles X V D" by auto
  have items: "(case b' of None \<Rightarrow> [] | Some b \<Rightarrow> items b) = map (expired_entry X D) gone"
    using r(2) by (simp add: buffered_def split: option.splits)
  have gone: "distinct gone" "set gone \<subseteq> discovery_handles X D"
  proof -
    obtain N where "gone = nths (expired_handles X V D) N" using r(3) by (auto simp: subseq_conv_nths)
    then have "distinct gone" "set gone \<subseteq> set (expired_handles X V D)" using dist
      by (auto simp: expired_handles_def intro: distinct_nthsI dest: in_set_nthsD)
    then show "distinct gone" "set gone \<subseteq> discovery_handles X D" using set by (auto simp: expired_handles_def)
  qed
  let ?D = "with_suppress (suppress_source_limit_exceeded_notification (detector D) \<and> expired_handles X V D = []) D"
  have rem: "fold (\<lambda>e D. snd (remove_sacn_universe_discovery_source X (expired_handle e) D)) (map (expired_entry X D) gone) ?D =
      remove_sources X gone ?D"
    by (simp add: remove_sources_def fold_map comp_def expired_entry_def)
  have det: "detector (remove_sources X gone ?D) = detector ?D"
    using remove_sources_spec[OF L, of ?D gone] inv gone by simp
  have empty: "gone = []" if "expired_handles X V D = []" using r(3) that by simp
  have "process_source_detector X V D = Some (remove_sources X gone ?D,
        if has_source_expired (callbacks (detector D))
        then map (\<lambda>h. SourceExpired h (the (get_remote_source_cid (remote_lib X) (remote D) h))
                    (strncpy_bytes kSacnSourceNameMaxLen (src_name (discovery_mem D h)))) gone else [])"
    unfolding process_source_detector_def using on
    by (simp add: r(1) items rem empty) (auto simp: expired_entry_def empty)
  then show ?thesis using that r(3,4) gone by blast
qed

end
