(* ===== verification/DetectorSequence.thy ===== *)
theory DetectorSequence
  imports DetectorExpiry
begin

text \<open>
  A complete sequence of pages of one source, processed in order: \<open>process_pages\<close> is the calls of
  \<open>process_universe_discovery_page\<close>, each in an environment of its own.
  \<^item> \<open>rest_of_sequence\<close>: the induction over the pages, with what the earlier pages (\<open>pre\<close>) have
    done to the list the source had before (\<open>old\<close>).
  \<^item> \<open>known_sequence\<close>, \<open>sequence_outcome\<close>: the whole sequence of a known source, and of any source.
\<close>

section \<open>Sequences of pages\<close>

fun process_pages ::
    "('cid, 't, 'c, 'm, 's) detector_ext \<Rightarrow> ('tm detector_call \<times> 'cid discovery_page) list \<Rightarrow>
     ('cid, 't, 'c, 'm, 's, 'tm) detector_state \<Rightarrow> (('cid, 't, 'c, 'm, 's, 'tm) detector_state \<times> 'cid detector_event list) option" where
  "process_pages X [] D = Some (D, [])"
| "process_pages X ((V, pg) # ps) D =
     do {
       (D, es) \<leftarrow> process_universe_discovery_page X V pg D;
       (D, es') \<leftarrow> process_pages X ps D;
       Some (D, es @ es')
     }"

text \<open>The pages \<open>k\<close>, \<open>k + 1\<close>, ... up to the last page \<open>n\<close> of the source with CID \<open>c\<close>.\<close>

fun pages_from :: "'cid \<Rightarrow> int \<Rightarrow> int \<Rightarrow> 'cid discovery_page list \<Rightarrow> bool" where
  "pages_from c k n [] \<longleftrightarrow> k = n + 1"
| "pages_from c k n (pg # pgs) \<longleftrightarrow>
     sender_cid pg = c \<and> this_page pg = k \<and> final_page pg = n \<and> page_ok pg \<and> pages_from c (k + 1) n pgs"

text \<open>The lock is obtained and there is memory for the list and for the copy in the notification.\<close>

definition page_memory :: "('cid, 't, 'c, 'm, 's) detector_ext \<Rightarrow> 'tm detector_call \<Rightarrow> bool" where
  "page_memory X V \<longleftrightarrow> SACN_DYNAMIC_MEM X \<and> page_lock_taken V \<and> replace_realloc_ok V \<and> notify_alloc_ok V"

definition update_of :: "'cid \<Rightarrow> u8 list \<Rightarrow> u16 list \<Rightarrow> 'cid detector_event" where
  "update_of c nm us = SourceUpdated kSacnRemoteSourceInvalid c nm (if us = [] then None else Some us) (length us)"

lemma pages_from_le: "pages_from c k n pgs \<Longrightarrow> k \<le> n + 1"
  by (induction pgs arbitrary: k) force+

lemma updated_event_list:
  assumes "known_source_ok X src" "notify_alloc_ok V"
  shows "updated_event X V pg src = update_of (sender_cid pg) (page_source_name pg) (universe_list src)"
  using assms by (auto simp: updated_event_def update_of_def universe_list_def known_source_ok_def)

section \<open>A page of a known source\<close>

lemma process_known_page:
  assumes L: "detector_laws X wft wfc wfs" and inv: "detector_inv X wft wfc wfs D" and k: "known X D (sender_cid pg) = Some h"
    and V: "page_memory X V" and lim: "universes_per_source_max (detector D) = 0"
    and t: "take_page X V 0 pg (discovery_mem D h) = Some (updated, False, src)" "known_source_ok X src" "sequence_ok src"
      "src_handle src = src_handle (discovery_mem D h)"
  obtains D' where "process_universe_discovery_page X V pg D =
      Some (D', if updated \<and> has_source_updated (callbacks (detector D))
                then [update_of (sender_cid pg) (page_source_name pg) (universe_list src)] else [])"
    "detector_inv X wft wfc wfs D'" "known X D' = known X D" "discovery_mem D' = (discovery_mem D)(h := src)" "detector D' = detector D"
proof -
  have h: "h \<in> discovery_handles X D" using k by (simp add: known_iff)
  have sh: "src_handle src = h" using t(4) detector_invD(4)[OF inv h] by simp
  have V': "page_lock_taken V" "notify_alloc_ok V" using V by (simp_all add: page_memory_def)
  note R = page_result_inv[OF inv sh t(2,3), of V pg updated]
  have "process_universe_discovery_page X V pg D = Some (page_result X V pg h D updated src)"
    by (rule process_page_found[OF V'(1) find_or_add_known[OF L inv k] lim t(1)])
  moreover have "known X (fst (page_result X V pg h D updated src)) = known X D"
    unfolding known_def[abs_def] R(2,3) ..
  ultimately show ?thesis
    using that[of "fst (page_result X V pg h D updated src)"] R updated_event_list[OF t(2) V'(2)]
    by (simp add: page_result_def)
qed

section \<open>The induction over the pages\<close>

text \<open>What the pages before have done to the list: repeated a part of it, or replaced it.\<close>

definition progress :: "u16 list \<Rightarrow> bool \<Rightarrow> u16 list \<Rightarrow> 'tm discovery_source \<Rightarrow> bool" where
  "progress old dirty pre src \<longleftrightarrow>
     (universe_list src = old \<and> prefix pre old \<and> universes_dirty src = dirty) \<or>
     (universe_list src = pre \<and> \<not> prefix pre old \<and> universes_dirty src)"

lemma progress_step:
  assumes "progress old dirty pre src" "universe_list src' = list_after False (length pre) us (universe_list src)"
    "universes_dirty src' \<longleftrightarrow> universes_dirty src \<or> universe_list src' \<noteq> universe_list src"
  shows "progress old dirty (pre @ us) src'"
  using assms(1) unfolding progress_def
proof (elim disjE conjE)
  assume a: "universe_list src = old" "prefix pre old" "universes_dirty src = dirty"
  then obtain zs where old: "old = pre @ zs" by (auto elim: prefixE)
  show "universe_list src' = old \<and> prefix (pre @ us) old \<and> universes_dirty src' = dirty \<or>
    universe_list src' = pre @ us \<and> \<not> prefix (pre @ us) old \<and> universes_dirty src'"
  proof (cases "prefix us zs")
    case True
    then show ?thesis using assms(2,3) a old by (simp add: list_after_def)
  next
    case False
    then have new: "universe_list src' = pre @ us" using assms(2) a old by (simp add: list_after_def)
    have "pre @ us \<noteq> old" using False old by auto
    then show ?thesis using assms(3) a new False old by simp
  qed
next
  assume b: "universe_list src = pre" "\<not> prefix pre old" "universes_dirty src"
  have "universe_list src' = pre @ us" using assms(2) b by (auto simp: list_after_def)
  moreover have "\<not> prefix (pre @ us) old" using b(2) by (auto dest: append_prefixD)
  ultimately show "universe_list src' = old \<and> prefix (pre @ us) old \<and> universes_dirty src' = dirty \<or>
    universe_list src' = pre @ us \<and> \<not> prefix (pre @ us) old \<and> universes_dirty src'"
    using assms(3) b(3) by simp
qed

lemma progress_last:
  assumes "progress old dirty pre src"
  shows "list_after True (length pre) us (universe_list src) = pre @ us"
    "universes_dirty src \<or> pre @ us \<noteq> universe_list src \<longleftrightarrow> dirty \<or> pre @ us \<noteq> old"
proof -
  have "length pre \<le> length (universe_list src)" "take (length pre) (universe_list src) = pre"
    using assms by (auto simp: progress_def prefix_def)
  then show "list_after True (length pre) us (universe_list src) = pre @ us" by (simp add: list_after_final)
  show "universes_dirty src \<or> pre @ us \<noteq> universe_list src \<longleftrightarrow> dirty \<or> pre @ us \<noteq> old"
    using assms by (auto simp: progress_def)
qed

lemma rest_of_sequence:
  assumes L: "detector_laws X wft wfc wfs"
  shows "detector_inv X wft wfc wfs D \<Longrightarrow> known X D c = Some h \<Longrightarrow> universes_per_source_max (detector D) = 0 \<Longrightarrow>
    has_source_updated (callbacks (detector D)) \<Longrightarrow> \<forall>(V, pg) \<in> set ps. page_memory X V \<Longrightarrow> ps \<noteq> [] \<Longrightarrow>
    pages_from c k n (map snd ps) \<Longrightarrow> k = 0 \<or> next_page (discovery_mem D h) = k \<Longrightarrow>
    (if k = 0 then 0 else next_universe_index (discovery_mem D h)) = length pre \<Longrightarrow> progress old dirty pre (discovery_mem D h) \<Longrightarrow>
    new = pre @ concat (map (page_list \<circ> snd) ps) \<Longrightarrow>
    \<exists>D'. process_pages X ps D =
        Some (D', if (dirty \<or> new \<noteq> old) \<and> sorted_wrt (<) new then [update_of c (page_source_name (snd (last ps))) new] else []) \<and>
      detector_inv X wft wfc wfs D' \<and> known X D' c = Some h \<and> detector D' = detector D \<and>
      universe_list (discovery_mem D' h) = new \<and> \<not> universes_dirty (discovery_mem D' h)"
proof (induction ps arbitrary: D k pre)
  case Nil
  then show ?case by simp
next
  case (Cons p ps)
  obtain V pg where p: "p = (V, pg)" by (cases p)
  let ?src = "discovery_mem D h"
  note inv = Cons.prems(1) and lim = Cons.prems(3)
  have pg: "sender_cid pg = c" "this_page pg = k" "final_page pg = n" "page_ok pg" "pages_from c (k + 1) n (map snd ps)"
    using Cons.prems(7) by (simp_all add: p)
  have V: "page_memory X V" using Cons.prems(5) by (simp add: p)
  have kn: "known X D (sender_cid pg) = Some h" using Cons.prems(2) pg(1) by simp
  then have h: "h \<in> discovery_handles X D" by (simp add: known_iff)
  have u: "unlimited_ok X V pg ?src" using V pg(4) detector_invD(5,6)[OF inv h] by (simp add: unlimited_ok_def page_memory_def)
  have pos: "position pg ?src = length pre" using Cons.prems(9) pg(2) by (simp add: position_def)
  have seq: "this_page pg = 0 \<or> this_page pg = next_page ?src" using Cons.prems(8) pg(2) by auto
  show ?case
  proof (cases "ps = []")
    case True
    then have kn': "k = n" using pg(5) by simp
    have fin: "final_page pg \<le> this_page pg" "(this_page pg = final_page pg) = True" using pg(2,3) kn' by simp_all
    have new: "new = pre @ page_list pg" using Cons.prems(11) True by (simp add: p)
    obtain src where t: "take_page X V 0 pg ?src = Some ((dirty \<or> new \<noteq> old) \<and> sorted_wrt (<) new, False, src)"
      "universe_list src = new" "\<not> universes_dirty src" "known_source_ok X src" "sequence_ok src" "src_handle src = src_handle ?src"
      by (rule take_page_finishes[OF u seq fin(1), unfolded fin(2) pos progress_last[OF Cons.prems(10)], folded new]) blast
    obtain D' where D': "process_universe_discovery_page X V pg D =
      Some (D', if ((dirty \<or> new \<noteq> old) \<and> sorted_wrt (<) new) \<and> has_source_updated (callbacks (detector D))
                then [update_of (sender_cid pg) (page_source_name pg) (universe_list src)] else [])"
      "detector_inv X wft wfc wfs D'" "known X D' = known X D" "discovery_mem D' = (discovery_mem D)(h := src)" "detector D' = detector D"
      by (rule process_known_page[OF L inv kn V lim t(1,4,5,6)])
    show ?thesis
      using D' t(2,3) Cons.prems(2,4) pg(1) by (intro exI[of _ D']) (simp add: p True)
  next
    case False
    then obtain q qs where qs: "ps = q # qs" by (cases ps) auto
    have less: "this_page pg < final_page pg" using pages_from_le[of c "k + 1 + 1" n "map snd qs"] pg(2,3,5) qs by simp
    obtain src where t: "take_page X V 0 pg ?src = Some (False, False, src)"
      "universe_list src = list_after False (position pg ?src) (page_list pg) (universe_list ?src)"
      "universes_dirty src \<longleftrightarrow> universes_dirty ?src \<or> list_after False (position pg ?src) (page_list pg) (universe_list ?src) \<noteq> universe_list ?src"
      "next_page src = this_page pg + 1" "next_universe_index src = position pg ?src + length (page_list pg)" "known_source_ok X src"
      "sequence_ok src" "src_handle src = src_handle ?src"
      by (rule take_page_continues[OF u seq less])
    obtain D1 where D1: "process_universe_discovery_page X V pg D =
      Some (D1, if False \<and> has_source_updated (callbacks (detector D))
                then [update_of (sender_cid pg) (page_source_name pg) (universe_list src)] else [])"
      "detector_inv X wft wfc wfs D1" "known X D1 = known X D" "discovery_mem D1 = (discovery_mem D)(h := src)" "detector D1 = detector D"
      by (rule process_known_page[OF L inv kn V lim t(1,6,7,8)])
    have mem: "discovery_mem D1 h = src" using D1(4) by simp
    have prog: "progress old dirty (pre @ page_list pg) (discovery_mem D1 h)"
      unfolding mem by (rule progress_step[OF Cons.prems(10)]) (use t(2,3) pos in simp_all)
    have k0: "0 \<le> k" using pg(2,4) by (simp add: page_ok_def)
    have "\<exists>D'. process_pages X ps D1 =
        Some (D', if (dirty \<or> new \<noteq> old) \<and> sorted_wrt (<) new then [update_of c (page_source_name (snd (last ps))) new] else []) \<and>
      detector_inv X wft wfc wfs D' \<and> known X D' c = Some h \<and> detector D' = detector D1 \<and>
      universe_list (discovery_mem D' h) = new \<and> \<not> universes_dirty (discovery_mem D' h)"
    proof (rule Cons.IH[OF D1(2) _ _ _ _ False pg(5) _ _ prog])
      show "known X D1 c = Some h" using D1(3) Cons.prems(2) by simp
      show "universes_per_source_max (detector D1) = 0" "has_source_updated (callbacks (detector D1))" using D1(5) lim Cons.prems(4) by simp_all
      show "\<forall>(V, pg) \<in> set ps. page_memory X V" using Cons.prems(5) by simp
      show "k + 1 = 0 \<or> next_page (discovery_mem D1 h) = k + 1" using t(4) mem pg(2) by simp
      show "(if k + 1 = 0 then 0 else next_universe_index (discovery_mem D1 h)) = length (pre @ page_list pg)"
        using t(5) mem pos k0 by simp
      show "new = (pre @ page_list pg) @ concat (map (page_list \<circ> snd) ps)" using Cons.prems(11) by (simp add: p comp_def)
    qed
    then obtain D' where "process_pages X ps D1 =
        Some (D', if (dirty \<or> new \<noteq> old) \<and> sorted_wrt (<) new then [update_of c (page_source_name (snd (last ps))) new] else [])"
      "detector_inv X wft wfc wfs D'" "known X D' c = Some h" "detector D' = detector D1"
      "universe_list (discovery_mem D' h) = new" "\<not> universes_dirty (discovery_mem D' h)" by blast
    then show ?thesis using D1(1,5) False by (intro exI[of _ D']) (simp add: p)
  qed
qed

section \<open>The whole sequence\<close>

text \<open>The list a source had before, and whether the application has not been told of it yet.\<close>

definition heard :: "('cid, 't, 'c, 'm, 's) detector_ext \<Rightarrow> ('cid, 't, 'c, 'm, 's, 'tm) detector_state \<Rightarrow> 'cid \<Rightarrow> u16 list \<times> bool" where
  "heard X D c =
     (case known X D c of None \<Rightarrow> ([], True)
      | Some h \<Rightarrow> (universe_list (discovery_mem D h), universes_dirty (discovery_mem D h)))"

lemma known_sequence:
  assumes "detector_laws X wft wfc wfs" "detector_inv X wft wfc wfs D" "known X D c = Some h" "universes_per_source_max (detector D) = 0"
    "has_source_updated (callbacks (detector D))" "\<forall>(V, pg) \<in> set ps. page_memory X V" "ps \<noteq> []" "pages_from c 0 n (map snd ps)"
  defines "new \<equiv> concat (map (page_list \<circ> snd) ps)"
  shows "\<exists>D'. process_pages X ps D =
        Some (D', if (snd (heard X D c) \<or> new \<noteq> fst (heard X D c)) \<and> sorted_wrt (<) new
                  then [update_of c (page_source_name (snd (last ps))) new] else []) \<and>
      detector_inv X wft wfc wfs D' \<and> known X D' c = Some h \<and> detector D' = detector D \<and> heard X D' c = (new, False)"
proof -
  let ?src = "discovery_mem D h"
  have hd: "heard X D c = (universe_list ?src, universes_dirty ?src)" using assms(3) by (simp add: heard_def)
  have pr: "progress (universe_list ?src) (universes_dirty ?src) [] ?src" by (simp add: progress_def)
  have k0: "(0::int) = 0 \<or> next_page ?src = 0" by simp
  have at: "(if (0::int) = 0 then 0 else next_universe_index ?src) = length []" by simp
  have new: "new = [] @ concat (map (page_list \<circ> snd) ps)" by (simp add: new_def)
  obtain D' where D': "process_pages X ps D = Some (D', if (universes_dirty ?src \<or> new \<noteq> universe_list ?src) \<and> sorted_wrt (<) new
       then [update_of c (page_source_name (snd (last ps))) new] else [])"
    "detector_inv X wft wfc wfs D'" "known X D' c = Some h" "detector D' = detector D"
    "universe_list (discovery_mem D' h) = new" "\<not> universes_dirty (discovery_mem D' h)"
    using rest_of_sequence[OF assms(1-8) k0 at pr new] by blast
  have "heard X D' c = (new, False)" using D'(3,5,6) by (simp add: heard_def)
  then show ?thesis unfolding hd fst_conv snd_conv using D'(1-4) by blast
qed

text \<open>A source that is new is added with the first page; the rest is as for a known one.\<close>

lemma added_first:
  assumes L: "detector_laws X wft wfc wfs" and inv: "detector_inv X wft wfc wfs D" and "page_lock_taken V"
    and ok: "fst (find_or_add_source X V pg D) = kEtcPalErrOk"
  obtains D1 h where "process_universe_discovery_page X V pg D = process_universe_discovery_page X V pg D1"
    "detector_inv X wft wfc wfs D1" "known X D1 (sender_cid pg) = Some h" "detector D1 = detector D"
    "heard X D1 (sender_cid pg) = heard X D (sender_cid pg)"
proof (cases rule: find_or_add_cases[OF L inv, of V pg, case_names known added failed])
  case (known h)
  then show ?thesis using that[of D h] inv by blast
next
  case (added h n D')
  have k: "known X D' (sender_cid pg) = Some h" using added(4,7) by (simp add: known_def)
  have "find_or_add_source X V pg D' = (kEtcPalErrOk, Some h, False, D')" by (rule find_or_add_known[OF L added(3) k])
  then have "process_universe_discovery_page X V pg D = process_universe_discovery_page X V pg D'"
    using added(1) assms(3) by (simp add: process_universe_discovery_page_def)
  moreover have "heard X D' (sender_cid pg) = heard X D (sender_cid pg)"
    using k added(2,6) by (simp add: heard_def new_source_ok)
  ultimately show ?thesis using that[of D' h] added(3,8) k by blast
next
  case (failed e lim D' b)
  then show ?thesis using ok by simp
qed

lemma sequence_outcome:
  assumes L: "detector_laws X wft wfc wfs" and inv: "detector_inv X wft wfc wfs D" and lim: "universes_per_source_max (detector D) = 0"
    and cb: "has_source_updated (callbacks (detector D))" and V: "\<forall>(V, pg) \<in> set ps. page_memory X V" and ps: "ps \<noteq> []"
    and pages: "pages_from c 0 n (map snd ps)" and ok: "fst (find_or_add_source X (fst (hd ps)) (snd (hd ps)) D) = kEtcPalErrOk"
  defines "new \<equiv> concat (map (page_list \<circ> snd) ps)"
  shows "\<exists>D'. process_pages X ps D =
        Some (D', if (snd (heard X D c) \<or> new \<noteq> fst (heard X D c)) \<and> sorted_wrt (<) new
                  then [update_of c (page_source_name (snd (last ps))) new] else []) \<and>
      detector_inv X wft wfc wfs D' \<and> detector D' = detector D \<and> heard X D' c = (new, False)"
proof -
  obtain V pg qs where q: "ps = (V, pg) # qs" using ps by (cases ps) auto
  have c: "sender_cid pg = c" using pages q by simp
  have lock: "page_lock_taken V" using V q by (simp add: page_memory_def)
  have ok': "fst (find_or_add_source X V pg D) = kEtcPalErrOk" using ok q by simp
  obtain D1 h where D1: "process_universe_discovery_page X V pg D = process_universe_discovery_page X V pg D1"
    "detector_inv X wft wfc wfs D1" "known X D1 (sender_cid pg) = Some h" "detector D1 = detector D"
    "heard X D1 (sender_cid pg) = heard X D (sender_cid pg)"
    by (rule added_first[OF L inv lock ok'])
  have same: "process_pages X ps D = process_pages X ps D1" using D1(1) q by simp
  have lim1: "universes_per_source_max (detector D1) = 0" and cb1: "has_source_updated (callbacks (detector D1))" using D1(4) lim cb by simp_all
  obtain D' where "process_pages X ps D1 =
        Some (D', if (snd (heard X D1 c) \<or> new \<noteq> fst (heard X D1 c)) \<and> sorted_wrt (<) new
                  then [update_of c (page_source_name (snd (last ps))) new] else [])"
      "detector_inv X wft wfc wfs D'" "known X D' c = Some h" "detector D' = detector D1" "heard X D' c = (new, False)"
    using known_sequence[OF L D1(2) D1(3)[unfolded c] lim1 cb1 V ps pages] unfolding new_def by blast
  then show ?thesis unfolding same D1(5)[unfolded c] D1(4) by blast
qed

end
