(* ===== verification/DetectorRun.thy ===== *)
theory DetectorRun
  imports DetectorSequence
begin

text \<open>
  Any sequence of packets, ticks and API calls, in any order, each in an environment of its own:
  \<open>exec_detector\<close> runs one, \<open>run_detector\<close> all of them and gives the events. \<open>overreads\<close> are the
  packets that announce more universes than they hold: \<open>run_detector_None\<close> shows that they are the
  only calls that access memory outside an array, and the interpretation \<open>detector_calls\<close> of
  \<open>invariant_machine\<close> that the invariant holds until then, for detectors without a limit on the
  universes of a source.
\<close>

section \<open>Packets\<close>

definition received_page :: "'cid \<Rightarrow> u8 list \<Rightarrow> universe_discovery \<Rightarrow> u16 list \<Rightarrow> 'cid discovery_page" where
  "received_page c nm p us =
     \<lparr>sender_cid = c, page_source_name = nm, this_page = page p, final_page = last_page p,
      page_universes = (if num_universes p = 0 then None else Some us), page_num_universes = num_universes p\<rparr>"

text \<open>The length of a PDU has at most 20 bits.\<close>

definition pdu_length_law :: "acn_lib \<Rightarrow> bool" where
  "pdu_length_law L \<longleftrightarrow> (\<forall>bs. ACN_PDU_LENGTH L bs < 2 ^ 20)"

text \<open>The packet announces universes that lie, wholly or partly, behind its end, and is longer than the header.\<close>

definition announces_too_many :: "acn_lib \<Rightarrow> u8 list \<Rightarrow> bool" where
  "announces_too_many L data \<longleftrightarrow>
     (case parse_sacn_universe_discovery_layer L data (length data) of
        Some (Some p) \<Rightarrow> 8 < length data \<and> length data < 8 + 2 * num_universes p
      | _ \<Rightarrow> False)"

text \<open>Such a packet is looked at.\<close>

definition overreads ::
    "('cid, 't, 'c, 'm, 's) detector_ext \<Rightarrow> 'tm detector_call \<Rightarrow> u8 list \<Rightarrow> ('cid, 't, 'c, 'm, 's, 'tm) detector_state \<Rightarrow> bool" where
  "overreads X V data D \<longleftrightarrow>
     cb_lock_taken V \<and> receiver_lock_taken V \<and> context_detector D \<and> announces_too_many (packing X) data"

lemma read_universe_list_ok:
  "at + 2 * (i + n) \<le> length buf \<Longrightarrow> i + n \<le> length us \<Longrightarrow>
   \<exists>us'. read_universe_list L buf at i n us = Some us' \<and> length us' = length us"
proof (induction n arbitrary: i us)
  case 0
  then show ?case by simp
next
  case (Suc n)
  have "at + i * 2 + 2 \<le> length buf" using Suc.prems(1) by simp
  then obtain bs where bs: "get_bytes buf (at + i * 2) 2 = Some bs" by (simp add: get_bytes_def)
  obtain us' where "read_universe_list L buf at (i + 1) n (us[i := unpack_u16b L bs]) = Some us'" "length us' = length us"
    using Suc.IH[of "i + 1" "us[i := unpack_u16b L bs]"] Suc.prems by auto
  then show ?case using bs Suc.prems(2) by simp
qed

lemma read_universe_list_short:
  "length buf < at + 2 * (i + n) \<Longrightarrow> at + 2 * i \<le> length buf \<Longrightarrow> read_universe_list L buf at i n us = None"
proof (induction n arbitrary: i us)
  case (Suc n)
  then show ?case by (cases "at + 2 * i + 2 \<le> length buf") (simp_all add: get_bytes_def)
qed simp

lemma read_universe_list_length: "read_universe_list L buf at i n us = Some us' \<Longrightarrow> length us' = length us"
proof (induction n arbitrary: i us)
  case (Suc n)
  then show ?case by (auto split: if_splits Option.bind_splits)
qed simp

lemma parse_fields:
  assumes "parse_sacn_universe_discovery_layer L data n = Some (Some p)"
  shows "0 \<le> page p" "page p \<le> 255" "0 \<le> last_page p" "last_page p \<le> 255"
    "universes p = (if n > 8 then Some 8 else None)" "8 \<le> n" "pdu_length_law L \<Longrightarrow> num_universes p \<le> 1048576"
proof -
  show "8 \<le> n" using assms by (auto simp: parse_sacn_universe_discovery_layer_def split: if_splits)
  show "num_universes p \<le> 1048576" if law: "pdu_length_law L"
  proof -
    have "ACN_PDU_LENGTH L bs < 1048576" for bs using law by (simp add: pdu_length_law_def)
    moreover have "(x - 8) div 2 \<le> 1048576" if "x < 1048576" for x :: int using that by presburger
    ultimately have "nat ((ACN_PDU_LENGTH L bs - 8) div 2) \<le> 1048576" for bs by (simp add: nat_le_iff)
    then show ?thesis
      using assms unfolding parse_sacn_universe_discovery_layer_def by (auto split: if_splits Option.bind_splits simp: Let_def)
  qed
  obtain b c m where p: "p = \<lparr>page = uint (b :: u8), last_page = uint (c :: u8), universes = (if n > 8 then Some 8 else None), num_universes = m\<rparr>"
    using assms unfolding parse_sacn_universe_discovery_layer_def
    by (auto split: if_splits Option.bind_splits simp: Let_def)
  have "uint b < 256" "uint c < 256" using uint_lt2p[of b] uint_lt2p[of c] by simp_all
  then show "0 \<le> page p" "page p \<le> 255" "0 \<le> last_page p" "last_page p \<le> 255" "universes p = (if n > 8 then Some 8 else None)"
    unfolding p by simp_all
qed

lemma received_page_ok:
  assumes "parse_sacn_universe_discovery_layer L data n = Some (Some p)" "num_universes p \<le> 1048576" "length us = num_universes p"
  shows "page_ok (received_page c nm p us)" "page_list (received_page c nm p us) = us"
  using parse_fields(1-5)[OF assms(1)] assms(2,3) by (auto simp: received_page_def page_ok_def page_list_def)

text \<open>A packet the detector takes is a page with the universes that are in it.\<close>

lemma handle_packet_page:
  assumes on: "data \<noteq> []" "cb_lock_taken V" "receiver_lock_taken V" "context_detector D" and mem: "SACN_DYNAMIC_MEM X" "page_alloc_ok V"
    and p: "parse_sacn_universe_discovery_layer (packing X) data (length data) = Some (Some p)"
    and us: "parse_sacn_universe_list (packing X) data (universes p) (num_universes p) (replicate (num_universes p) 0) = Some (ok, us)"
  shows "handle_sacn_universe_discovery_packet X V data (length data) c nm D = process_universe_discovery_page X V (received_page c nm p us) D"
  using assms by (simp add: handle_sacn_universe_discovery_packet_def received_page_def)

lemma parse_layer_returns: "\<exists>r. parse_sacn_universe_discovery_layer L data (length data) = Some r"
proof (cases "8 \<le> length data")
  case True
  have "\<exists>bs. get_bytes data 0 3 = Some bs" "\<exists>bs. get_bytes data 2 4 = Some bs" "\<exists>b. get_byte data 6 = Some b" "\<exists>b. get_byte data 7 = Some b"
    using True by (auto simp: get_bytes_def get_byte_def)
  then show ?thesis using True by (auto simp: parse_sacn_universe_discovery_layer_def Let_def)
qed (simp add: parse_sacn_universe_discovery_layer_def)

lemma handle_packet_cases:
  assumes law: "pdu_length_law (packing X)" and mem: "SACN_DYNAMIC_MEM X" "page_alloc_ok V"
  obtains (ignored) "\<not> overreads X V data D" "handle_sacn_universe_discovery_packet X V data (length data) c nm D = Some (D, [])"
    | (outside) "overreads X V data D" "handle_sacn_universe_discovery_packet X V data (length data) c nm D = None"
    | (page) pg where "\<not> overreads X V data D"
        "handle_sacn_universe_discovery_packet X V data (length data) c nm D = process_universe_discovery_page X V pg D" "page_ok pg"
proof (cases "data \<noteq> [] \<and> cb_lock_taken V \<and> receiver_lock_taken V \<and> context_detector D")
  case False
  have "\<not> announces_too_many (packing X) []" by (simp add: announces_too_many_def parse_sacn_universe_discovery_layer_def)
  then show ?thesis using ignored False by (auto simp: handle_sacn_universe_discovery_packet_def overreads_def)
next
  case on: True
  then have at: "overreads X V data D \<longleftrightarrow> announces_too_many (packing X) data" by (simp add: overreads_def)
  obtain r where r: "parse_sacn_universe_discovery_layer (packing X) data (length data) = Some r" using parse_layer_returns by blast
  show ?thesis
  proof (cases r)
    case None
    then show ?thesis using ignored r on at by (simp add: handle_sacn_universe_discovery_packet_def announces_too_many_def)
  next
    case (Some p)
    note f = parse_fields[OF r[unfolded Some]]
    let ?n = "num_universes p" and ?list = "parse_sacn_universe_list (packing X) data (universes p) (num_universes p) (replicate (num_universes p) 0)"
    have over: "announces_too_many (packing X) data \<longleftrightarrow> 8 < length data \<and> length data < 8 + 2 * ?n"
      using r Some by (simp add: announces_too_many_def)
    show ?thesis
    proof (cases "8 < length data \<and> length data < 8 + 2 * ?n")
      case True
      then have n: "0 < ?n" by linarith
      have "read_universe_list (packing X) data 8 0 ?n (replicate ?n 0) = None" by (rule read_universe_list_short) (use True in simp_all)
      then have "handle_sacn_universe_discovery_packet X V data (length data) c nm D = None"
        using on r Some True mem n f(5)
        by (simp add: handle_sacn_universe_discovery_packet_def parse_sacn_universe_list_def)
      then show ?thesis using outside at over True by blast
    next
      case False
      have "\<exists>ok us. ?list = Some (ok, us) \<and> length us = ?n"
      proof (cases "length data > 8")
        case True
        then show ?thesis
          using read_universe_list_ok[of 8 0 ?n data "replicate ?n 0" "packing X"] False f(5)
          by (auto simp: parse_sacn_universe_list_def)
      next
        case False
        then show ?thesis using f(5) by (simp add: parse_sacn_universe_list_def)
      qed
      then obtain ok us where us: "?list = Some (ok, us)" "length us = ?n" by blast
      have "page_ok (received_page c nm p us)" by (rule received_page_ok(1)[OF r[unfolded Some] f(7)[OF law] us(2)])
      then show ?thesis
        using page[of "received_page c nm p us"] handle_packet_page[OF _ _ _ _ mem r[unfolded Some] us(1), of D c nm] on at over False by blast
    qed
  qed
qed

section \<open>Sequences of calls\<close>

datatype 'cid detector_op =
    PacketArrives "u8 list" 'cid "u8 list"
  | ProcessDetector
  | CreateDetector "detector_config option"
  | DestroyDetector
  | ResetDetectorNetworking

fun exec_detector ::
    "('cid, 't, 'c, 'm, 's) detector_ext \<Rightarrow> 'tm detector_call \<Rightarrow> 'cid detector_op \<Rightarrow> ('cid, 't, 'c, 'm, 's, 'tm) detector_state \<Rightarrow>
     (('cid, 't, 'c, 'm, 's, 'tm) detector_state \<times> 'cid detector_event list) option" where
  "exec_detector X V (PacketArrives data c nm) D = handle_sacn_universe_discovery_packet X V data (length data) c nm D"
| "exec_detector X V ProcessDetector D = process_source_detector X V D"
| "exec_detector X V (CreateDetector config) D = Some (snd (sacn_source_detector_create X V config D), [])"
| "exec_detector X V DestroyDetector D = Some (sacn_source_detector_destroy X V D, [])"
| "exec_detector X V ResetDetectorNetworking D = Some (snd (sacn_source_detector_reset_networking V D), [])"

fun run_detector ::
    "('cid, 't, 'c, 'm, 's) detector_ext \<Rightarrow> ('tm detector_call \<times> 'cid detector_op) list \<Rightarrow>
     ('cid, 't, 'c, 'm, 's, 'tm) detector_state \<Rightarrow> (('cid, 't, 'c, 'm, 's, 'tm) detector_state \<times> 'cid detector_event list) option" where
  "run_detector X [] D = Some (D, [])"
| "run_detector X ((V, c) # cs) D =
     do {
       (D, es) \<leftarrow> exec_detector X V c D;
       (D, es') \<leftarrow> run_detector X cs D;
       Some (D, es @ es')
     }"

text \<open>
  What is assumed of a call: the memory for a page's universes can be had, and no limit of universes
  is asked for. Nothing is assumed of the packets.
\<close>

definition detector_op_ok :: "'tm detector_call \<times> 'cid detector_op \<Rightarrow> bool" where
  "detector_op_ok Vc \<longleftrightarrow>
     (case snd Vc of
        PacketArrives data c nm \<Rightarrow> page_alloc_ok (fst Vc) \<and> replace_realloc_ok (fst Vc)
      | CreateDetector (Some config) \<Rightarrow> config_universes_per_source_max config = 0
      | _ \<Rightarrow> True)"

definition op_overreads ::
    "('cid, 't, 'c, 'm, 's) detector_ext \<Rightarrow> 'tm detector_call \<times> 'cid detector_op \<Rightarrow> ('cid, 't, 'c, 'm, 's, 'tm) detector_state \<Rightarrow> bool" where
  "op_overreads X Vc D \<longleftrightarrow> (case snd Vc of PacketArrives data c nm \<Rightarrow> overreads X (fst Vc) data D | _ \<Rightarrow> False)"

definition running_inv ::
    "('cid::linorder, 't, 'c, 'm, 's) detector_ext \<Rightarrow> ('t \<Rightarrow> bool) \<Rightarrow> ('c \<Rightarrow> bool) \<Rightarrow> ('s \<Rightarrow> bool) \<Rightarrow>
     ('cid, 't, 'c, 'm, 's, 'tm) detector_state \<Rightarrow> bool" where
  "running_inv X wft wfc wfs D \<longleftrightarrow> detector_laws X wft wfc wfs \<and> pdu_length_law (packing X) \<and> SACN_DYNAMIC_MEM X \<and> detector_inv X wft wfc wfs D \<and>
     universes_per_source_max (detector D) = 0"

lemma running_inv_same:
  assumes "running_inv X wft wfc wfs D" "discovery_tree D' = discovery_tree D" "discovery_mem D' = discovery_mem D" "remote D' = remote D"
    "universes_per_source_max (detector D') = 0"
  shows "running_inv X wft wfc wfs D'"
  using assms detector_inv_same[of X wft wfc wfs D D'] by (simp add: running_inv_def)

lemma exec_detector_inv:
  assumes inv: "running_inv X wft wfc wfs D" and ok: "detector_op_ok (V, c)"
  shows "if op_overreads X (V, c) D then exec_detector X V c D = None
    else \<exists>D' es. exec_detector X V c D = Some (D', es) \<and> running_inv X wft wfc wfs D'"
proof -
  note I = inv[unfolded running_inv_def]
  show ?thesis
  proof (cases c)
    case (PacketArrives data c' nm)
    have p: "pdu_length_law (packing X)" "page_alloc_ok V" "replace_realloc_ok V"
      using ok PacketArrives I by (simp_all add: detector_op_ok_def)
    have over: "op_overreads X (V, c) D \<longleftrightarrow> overreads X V data D" using PacketArrives by (simp add: op_overreads_def)
    show ?thesis
    proof (cases rule: handle_packet_cases[OF p(1) _ p(2), where data = data and D = D and c = c' and nm = nm, case_names dyn ignored outside page])
      case dyn
      then show ?case using I by blast
    next
      case ignored
      then show ?thesis using inv PacketArrives over by simp
    next
      case outside
      then show ?thesis using PacketArrives over by simp
    next
      case (page pg)
      obtain D' es where "process_universe_discovery_page X V pg D = Some (D', es)" "detector_inv X wft wfc wfs D'"
        "universes_per_source_max (detector D') = 0"
        using process_page_inv[of X wft wfc wfs D V pg] I p(3) page(3) by blast
      then show ?thesis using I page(1,2) PacketArrives over by (simp add: running_inv_def)
    qed
  next
    case ProcessDetector
    show ?thesis
    proof (cases "cb_lock_taken V \<and> receiver_lock_taken V \<and> context_detector D")
      case False
      then show ?thesis using inv ProcessDetector by (auto simp: process_source_detector_def op_overreads_def)
    next
      case True
      define D1 where "D1 = with_suppress (suppress_source_limit_exceeded_notification (detector D) \<and> expired_handles X V D = []) D"
      obtain gone es where g: "process_source_detector X V D = Some (remove_sources X gone D1, es)" "distinct gone" "set gone \<subseteq> discovery_handles X D"
      proof -
        have on: "detector_laws X wft wfc wfs" "detector_inv X wft wfc wfs D" "cb_lock_taken V" "receiver_lock_taken V" "context_detector D"
          using I True by blast+
        show thesis by (rule process_source_detector_spec[OF on, folded D1_def]) (rule that)
      qed
      have "detector_inv X wft wfc wfs D1" "discovery_handles X D1 = discovery_handles X D" "universes_per_source_max (detector D1) = 0"
        using I by (simp_all add: D1_def)
      then have "running_inv X wft wfc wfs (remove_sources X gone D1)"
        using remove_sources_spec[of X wft wfc wfs D1 gone] I g(2,3) by (simp add: running_inv_def)
      then show ?thesis using g(1) ProcessDetector by (simp add: op_overreads_def)
    qed
  next
    case (CreateDetector config)
    have "running_inv X wft wfc wfs (snd (sacn_source_detector_create X V config D))"
      by (rule running_inv_same[OF inv])
         (use I ok CreateDetector in \<open>auto simp: sacn_source_detector_create_def add_sacn_source_detector_def
            assign_source_detector_to_thread_def remove_sacn_source_detector_def remove_source_detector_from_thread_def
            detector_op_ok_def Let_def split: option.splits\<close>)
    then show ?thesis using CreateDetector by (simp add: op_overreads_def)
  next
    case DestroyDetector
    have "running_inv X wft wfc wfs (sacn_source_detector_destroy X V D)"
      by (rule running_inv_same[OF inv])
         (use I in \<open>simp_all add: sacn_source_detector_destroy_def remove_sacn_source_detector_def remove_source_detector_from_thread_def\<close>)
    then show ?thesis using DestroyDetector by (simp add: op_overreads_def)
  next
    case ResetDetectorNetworking
    have "running_inv X wft wfc wfs (snd (sacn_source_detector_reset_networking V D))"
      by (rule running_inv_same[OF inv]) (use I in \<open>simp_all add: sacn_source_detector_reset_networking_def\<close>)
    then show ?thesis using ResetDetectorNetworking by (simp add: op_overreads_def)
  qed
qed

text \<open>One call on a state that may have been lost to an access outside an array.\<close>

definition step_detector ::
    "('cid, 't, 'c, 'm, 's) detector_ext \<Rightarrow> 'tm detector_call \<times> 'cid detector_op \<Rightarrow>
     ('cid, 't, 'c, 'm, 's, 'tm) detector_state option \<Rightarrow> ('cid, 't, 'c, 'm, 's, 'tm) detector_state option" where
  "step_detector X Vc s = (case s of None \<Rightarrow> None | Some D \<Rightarrow> map_option fst (exec_detector X (fst Vc) (snd Vc) D))"

interpretation detector_calls: invariant_machine "step_detector X"
    "\<lambda>s. \<forall>D :: ('cid::linorder, 't, 'c, 'm, 's, 'tm) detector_state. s = Some D \<longrightarrow> running_inv X wft wfc wfs D" detector_op_ok
  for X wft wfc wfs
proof unfold_locales
  fix s :: "('cid::linorder, 't, 'c, 'm, 's, 'tm) detector_state option" and c :: "'tm detector_call \<times> 'cid detector_op"
  assume s: "\<forall>D. s = Some D \<longrightarrow> running_inv X wft wfc wfs D" "detector_op_ok c"
  show "\<forall>D. step_detector X c s = Some D \<longrightarrow> running_inv X wft wfc wfs D"
  proof (cases s)
    case (Some D)
    then show ?thesis using s exec_detector_inv[of X wft wfc wfs D "fst c" "snd c"] by (auto simp: step_detector_def split: if_splits)
  qed (simp add: step_detector_def)
qed

lemma step_detector_simps [simp]:
  "step_detector X c None = None" "step_detector X (V, c') (Some D) = map_option fst (exec_detector X V c' D)"
  by (simp_all add: step_detector_def)

lemma step_detector_None: "fold (step_detector X) cs None = None"
  by (induction cs) simp_all

lemma run_detector_steps: "map_option fst (run_detector X cs D) = fold (step_detector X) cs (Some D)"
proof (induction cs arbitrary: D)
  case (Cons p cs)
  obtain V c where p: "p = (V, c)" by (cases p)
  show ?case
  proof (cases "exec_detector X V c D")
    case None
    then show ?thesis by (simp add: p step_detector_None)
  next
    case (Some r)
    obtain D' es where r: "r = (D', es)" by (cases r)
    have "map_option fst (run_detector X (p # cs) D) = map_option fst (run_detector X cs D')"
      using Some by (cases "run_detector X cs D'") (auto simp: p r)
    then show ?thesis using Cons.IH[of D'] Some by (simp add: p r)
  qed
qed simp

text \<open>The only calls that access memory outside an array are packets that announce too many universes.\<close>

lemma run_detector_None:
  "running_inv X wft wfc wfs D \<Longrightarrow> list_all detector_op_ok cs \<Longrightarrow>
   run_detector X cs D = None \<longleftrightarrow>
     (\<exists>k < length cs. \<exists>D' es. run_detector X (take k cs) D = Some (D', es) \<and> op_overreads X (cs ! k) D')"
proof (induction cs arbitrary: D)
  case (Cons p cs)
  obtain V c where p: "p = (V, c)" by (cases p)
  have ok: "detector_op_ok (V, c)" using Cons.prems(2) by (simp add: p)
  have split: "(\<exists>k < length (p # cs). P k) \<longleftrightarrow> P 0 \<or> (\<exists>k < length cs. P (Suc k))" for P by (auto simp: less_Suc_eq_0_disj)
  show ?case
  proof (cases "op_overreads X (V, c) D")
    case True
    then show ?thesis using exec_detector_inv[OF Cons.prems(1) ok] unfolding split by (simp add: p)
  next
    case False
    then obtain D1 es1 where e: "exec_detector X V c D = Some (D1, es1)" "running_inv X wft wfc wfs D1"
      using exec_detector_inv[OF Cons.prems(1) ok] by auto
    have "run_detector X (p # cs) D = None \<longleftrightarrow> run_detector X cs D1 = None"
      by (cases "run_detector X cs D1") (auto simp: p e(1))
    moreover have "(\<exists>D' es. run_detector X (take (Suc k) (p # cs)) D = Some (D', es) \<and> op_overreads X ((p # cs) ! Suc k) D') \<longleftrightarrow>
        (\<exists>D' es. run_detector X (take k cs) D1 = Some (D', es) \<and> op_overreads X (cs ! k) D')" for k
      by (cases "run_detector X (take k cs) D1") (auto simp: p e(1))
    ultimately show ?thesis using Cons.IH[OF e(2)] Cons.prems(2) False unfolding split by (simp add: p)
  qed
qed simp

text \<open>The state the library starts with: no sources, no detector.\<close>

definition initial_detector_state ::
    "('cid, 't, 'c, 'm, 's) detector_ext \<Rightarrow> ('cid, 't, 'c, 'm, 's, 'tm) detector_state \<Rightarrow> ('cid, 't, 'c, 'm, 's, 'tm) detector_state" where
  "initial_detector_state X D =
     (let D = D\<lparr>remote := snd (init_remote_sources (remote_lib X) (remote D))\<rparr>;
          D = snd (init_universe_discovery_sources X D)
      in snd (init_source_detector D))"

lemma initial_detector_inv:
  assumes "detector_laws X wft wfc wfs"
  shows "detector_inv X wft wfc wfs (initial_detector_state X D)" "discovery_handles X (initial_detector_state X D) = {}"
    "entry_of X (initial_detector_state X D) c = None" "known X (initial_detector_state X D) c = None"
    "detector (initial_detector_state X D) = (detector D)\<lparr>created := False, detector_netints := []\<rparr>"
proof -
  note R = remote_lawsD(1,2)[OF detector_lawsD(1)[OF assms]] and T = detector_lawsD(2)[OF assms]
  let ?D = "initial_detector_state X D"
  have e: "remote_cids (remote_lib X) (remote ?D) = {}" "remote_handles (remote_lib X) (remote ?D) = {}" "discovery_handles X ?D = {}"
    using rb_init_iter[OF R(1)] rb_init_iter[OF R(2)] rb_init_iter[OF T]
    by (simp_all add: initial_detector_state_def init_remote_sources_def init_universe_discovery_sources_def init_source_detector_def
        remote_cids_def remote_handles_def discovery_handles_def)
  have w: "wft (handle_tree (remote ?D))" "wfc (cid_tree (remote ?D))" "wfs (discovery_tree ?D)"
    using rb_init_wf[OF R(1)] rb_init_wf[OF R(2)] rb_init_wf[OF T]
    by (simp_all add: initial_detector_state_def init_remote_sources_def init_universe_discovery_sources_def init_source_detector_def)
  have ri: "remote_inv (remote_lib X) wft wfc (remote ?D)" using w e by (simp add: remote_inv_def)
  show "detector_inv X wft wfc wfs ?D" using ri w e by (simp add: detector_inv_def)
  show "discovery_handles X ?D = {}" by (rule e(3))
  show n: "entry_of X ?D c = None"
    using remote_finds(1)[OF detector_lawsD(1)[OF assms] ri] e by (simp add: entry_of_def remote_entries_def)
  show "known X ?D c = None" using n by (simp add: known_def)
  show "detector ?D = (detector D)\<lparr>created := False, detector_netints := []\<rparr>"
    by (simp add: initial_detector_state_def init_remote_sources_def init_universe_discovery_sources_def init_source_detector_def)
qed

end
