(* ===== verification/DetectorExample.thy ===== *)
theory DetectorExample
  imports DetectorRun
begin

text \<open>
  A concrete detector, on which the examples of the properties run: trees as sorted lists, CIDs as
  numbers, a handle manager that gives the lowest free handle, timers as numbers. \<open>demo_detector\<close> is
  a created detector without limits that knows no source; \<open>demo_knowing\<close> the same with the source of
  CID 7, handle 0, which has announced the universes 1 and 2.
\<close>

definition first_free :: "(int \<Rightarrow> bool) \<Rightarrow> int" where
  "first_free used = (case find (\<lambda>i. \<not> used (int i)) [0..<0xffff] of None \<Rightarrow> 0 | Some i \<Rightarrow> int i)"

lemma first_free_0: "\<not> used 0 \<Longrightarrow> first_free used = 0"
  unfolding first_free_def by (subst upt_conv_Cons) simp_all

lemma first_free_laws:
  "0 \<le> first_free used \<and> first_free used \<le> 0xfffe \<and> ((\<exists>i. 0 \<le> i \<and> i \<le> 0xfffe \<and> \<not> used i) \<longrightarrow> \<not> used (first_free used))"
proof (cases "find (\<lambda>i. \<not> used (int i)) [0..<0xffff]")
  case None
  have "used i" if "0 \<le> i" "i \<le> 0xfffe" for i
  proof -
    have all: "\<forall>x < 65535. used (int x)" using None unfolding find_None_iff by simp
    have "nat i < 65535" using that by simp
    then have "used (int (nat i))" using all by blast
    then show ?thesis using that(1) by simp
  qed
  then show ?thesis using None by (auto simp: first_free_def)
next
  case (Some k)
  then have "k < 0xffff" "\<not> used (int k)" unfolding find_Some_iff by auto
  then show ?thesis using Some by (simp add: first_free_def)
qed

definition demo_remote_lib :: "(nat, nat list, u16 list, unit) remote_ext" where
  "demo_remote_lib = \<lparr>handle_rb = list_rbtree, cid_rb = list_rbtree, init_remote_handles = (\<lambda>_. ()),
     next_remote_handle = (\<lambda>used mgr. (first_free used, mgr))\<rparr>"

definition demo_detector_lib :: "(nat, nat list, u16 list, unit, u16 list) detector_ext" where
  "demo_detector_lib = \<lparr>remote_lib = demo_remote_lib, source_rb = list_rbtree, packing = big_endian_lib,
     SACN_DYNAMIC_MEM = True, max_sources = 0, max_universes_per_source = 0\<rparr>"

abbreviation list_wf :: "'a::linorder list \<Rightarrow> bool" where "list_wf t \<equiv> sorted t \<and> distinct t"

lemma demo_detector_laws: "detector_laws demo_detector_lib list_wf list_wf list_wf"
proof -
  have "handle_mgr_laws demo_remote_lib" using first_free_laws unfolding handle_mgr_laws_def demo_remote_lib_def by simp blast
  then show ?thesis
    using list_rbtree_laws by (simp add: detector_laws_def remote_laws_def demo_detector_lib_def) (simp add: demo_remote_lib_def list_rbtree_laws)
qed

definition demo_detector_call :: "nat detector_call" where
  "demo_detector_call = \<lparr>call_initialized = True, cb_lock_taken = True, receiver_lock_taken = True, page_lock_taken = True,
     start_timer = nat, reset_timer = (\<lambda>t. t), timer_expired = (\<lambda>t. True),
     remote_memory = \<lparr>handle_alloc_ok = True, cid_alloc_ok = True, handle_node_ok = True, cid_node_ok = True\<rparr>,
     source_alloc_ok = True, universes_alloc_ok = True, source_node_ok = True, page_alloc_ok = True,
     replace_realloc_ok = True, refit_realloc_ok = True, realloc_fill = (\<lambda>_. 0), notify_alloc_ok = True,
     expired_alloc_ok = True, expired_realloc_ok = (\<lambda>_. True), sys_netints_result = kEtcPalErrOk, netints_result = kEtcPalErrOk,
     netints_found = [(1, 0)], assign_result = kEtcPalErrOk, sockets_result = kEtcPalErrOk\<rparr>"

definition demo_config :: "int \<Rightarrow> detector_config" where
  "demo_config limit =
     \<lparr>config_callbacks = \<lparr>has_source_updated = True, has_source_expired = True, has_limit_exceeded = True\<rparr>,
      config_source_count_max = 0, config_universes_per_source_max = limit\<rparr>"

definition demo_created :: "int \<Rightarrow> source_detector" where
  "demo_created limit = \<lparr>created = True, detector_netints = [(1, 0)], suppress_source_limit_exceeded_notification = False,
     callbacks = config_callbacks (demo_config limit), source_count_max = 0, universes_per_source_max = limit\<rparr>"

definition demo_known_source :: "nat discovery_source" where
  "demo_known_source = \<lparr>src_handle = 0, src_name = replicate 64 0, src_universes = [1, 2, 0, 0, 0, 0, 0, 0], src_num_universes = 2,
     universes_dirty = False, last_notified_universe_count = 2, suppress_universe_limit_exceeded_notification = False,
     expiration_timer = 0, next_universe_index = 0, next_page = 0\<rparr>"

definition demo_detector :: "(nat, nat list, u16 list, unit, u16 list, nat) detector_state" where
  "demo_detector = \<lparr>detector = demo_created 0, discovery_tree = [], discovery_mem = (\<lambda>_. demo_known_source),
     remote = \<lparr>handle_tree = [], handle_mem = (\<lambda>_. 0), cid_tree = [],
       cid_mem = (\<lambda>_. \<lparr>entry_cid = 7, refcount = 1\<rparr>), remote_handle_mgr = ()\<rparr>,
     context_detector = True\<rparr>"

definition demo_knowing :: "(nat, nat list, u16 list, unit, u16 list, nat) detector_state" where
  "demo_knowing = demo_detector\<lparr>discovery_tree := [0], remote := (remote demo_detector)\<lparr>handle_tree := [7], cid_tree := [0]\<rparr>\<rparr>"

lemmas demo_detector_defs = demo_detector_lib_def demo_remote_lib_def demo_detector_def demo_knowing_def demo_created_def
  demo_config_def demo_detector_call_def list_rbtree_def

lemma demo_settings:
  "universes_per_source_max (detector demo_detector) = 0" "universes_per_source_max (detector demo_knowing) = 0"
  "has_source_updated (callbacks (detector demo_detector))" "has_source_updated (callbacks (detector demo_knowing))"
  "has_source_expired (callbacks (detector demo_knowing))" "context_detector demo_detector" "context_detector demo_knowing"
  by (simp_all add: demo_detector_defs)

lemma demo_detector_known: "known demo_detector_lib demo_detector c = None"
  by (simp add: known_def entry_of_def remote_entries_def demo_detector_defs)

lemma demo_knowing_entry: "entry_of demo_detector_lib demo_knowing c = (if c = 7 then Some (0, 1) else None)"
  by (simp add: entry_of_def remote_entries_def demo_detector_defs)

lemma demo_knowing_handles: "discovery_handles demo_detector_lib demo_knowing = {0}"
  by (simp add: discovery_handles_def demo_detector_defs)

lemma demo_knowing_known: "known demo_detector_lib demo_knowing 7 = Some 0"
  by (simp add: known_def demo_knowing_entry demo_knowing_handles)

lemma demo_detector_inv: "detector_inv demo_detector_lib list_wf list_wf list_wf demo_detector"
  by (simp add: detector_inv_def remote_inv_def remote_cids_def remote_handles_def discovery_handles_def demo_detector_defs)

lemma demo_source_list: "universe_list demo_known_source = [1, 2]"
  by (simp add: universe_list_def demo_known_source_def)

lemma demo_knowing_inv: "detector_inv demo_detector_lib list_wf list_wf list_wf demo_knowing"
proof -
  have m: "discovery_mem demo_knowing h = demo_known_source" for h by (simp add: demo_knowing_def demo_detector_def)
  have r: "remote_inv demo_remote_lib list_wf list_wf (remote demo_knowing)"
    by (simp add: remote_inv_def remote_cids_def remote_handles_def demo_detector_defs kSacnRemoteSourceInvalid_def)
  have s: "known_source_ok demo_detector_lib demo_known_source" "sequence_ok demo_known_source" "src_handle demo_known_source = 0"
    by (simp_all add: known_source_ok_def sequence_ok_def demo_known_source_def demo_detector_lib_def kSacnInitialCapacity_def)
  have lib: "remote_lib demo_detector_lib = demo_remote_lib" by (simp add: demo_detector_lib_def)
  have t: "list_wf (discovery_tree demo_knowing)" by (simp add: demo_knowing_def)
  show ?thesis unfolding detector_inv_def lib demo_knowing_handles m using r s t by (auto simp: demo_knowing_entry)
qed

lemma demo_knowing_heard: "heard demo_detector_lib demo_knowing 7 = ([1, 2], False)"
proof -
  have "discovery_mem demo_knowing 0 = demo_known_source" by (simp add: demo_knowing_def demo_detector_def)
  then show ?thesis by (simp add: heard_def demo_knowing_known demo_source_list) (simp add: demo_known_source_def)
qed

lemma demo_memory: "page_memory demo_detector_lib demo_detector_call"
  by (simp add: page_memory_def demo_detector_lib_def demo_detector_call_def)

text \<open>A page of the source with CID 7.\<close>

definition demo_page :: "int \<Rightarrow> int \<Rightarrow> u16 list \<Rightarrow> nat discovery_page" where
  "demo_page k n us = \<lparr>sender_cid = 7, page_source_name = [100], this_page = k, final_page = n,
     page_universes = Some us, page_num_universes = length us\<rparr>"

lemma demo_page_simps [simp]:
  "sender_cid (demo_page k n us) = 7" "this_page (demo_page k n us) = k" "final_page (demo_page k n us) = n"
  "page_source_name (demo_page k n us) = [100]" "page_list (demo_page k n us) = us"
  "page_ok (demo_page k n us) \<longleftrightarrow> 0 \<le> k \<and> k \<le> 255 \<and> n \<le> 255 \<and> length us \<le> 1048576"
  by (simp_all add: demo_page_def page_list_def page_ok_def)

lemma demo_adds: "fst (find_or_add_source demo_detector_lib demo_detector_call (demo_page k n us) demo_detector) = kEtcPalErrOk"
proof -
  have "\<not> remote_source_handle_in_use demo_remote_lib (remote demo_detector) 0"
    by (simp add: remote_source_handle_in_use_def get_remote_source_cid_def demo_detector_defs)
  then have "next_remote_handle demo_remote_lib (remote_source_handle_in_use demo_remote_lib (remote demo_detector)) () = (0, ())"
    by (simp add: demo_remote_lib_def first_free_0)
  then show ?thesis
    by (simp add: find_or_add_source_def get_remote_source_handle_def add_sacn_universe_discovery_source_def add_remote_source_handle_def
        demo_detector_lib_def demo_detector_def demo_detector_call_def demo_created_def kSacnSourceDetectorInfinite_def)
       (simp add: demo_remote_lib_def list_rbtree_def)
qed

end
