(* ===== verification/DetectorLimits.thy ===== *)
theory DetectorLimits
  imports DetectorExample
begin

text \<open>
  What happens when a source announces more universes than the detector was configured for
  (\<open>universes_per_source_max\<close>), and when a detector is destroyed and created again.
  \<^item> The position in the list advances by the universes on a page even when they did not fit, and so
    leaves the list: the number of remaining universes then wraps around, and the next page is
    compared with what is behind the array.
  \<^item> A page that does not fit always counts as a change, so the application is told of an update by
    every sequence of pages.
  \<^item> Destroying the detector leaves the known sources in their tree.
\<close>

section \<open>Pages beyond the limit\<close>

lemma page_list_pos: "page_ok pg \<Longrightarrow> page_list pg \<noteq> [] \<Longrightarrow> 0 < page_num_universes pg"
  using length_page_list[of pg] by (cases "page_list pg") auto

lemma page_num_small: "page_ok pg \<Longrightarrow> page_num_universes pg \<le> 1048576"
  by (simp add: page_ok_def)

text \<open>A page that starts inside the limit and does not fit.\<close>

lemma size_of_int_small: "0 \<le> i \<Longrightarrow> i < 2 ^ 64 \<Longrightarrow> size_of_int i = nat i"
  by (simp add: size_of_int_def)

lemma replace_over_limit:
  assumes "SACN_DYNAMIC_MEM X" "0 < limit" "start \<le> limit" "limit < start + n" "start + n < SIZE_MOD"
  shows "replace_universe_discovery_universes X ok fill start us n limit src = Some (limit - start, src)"
  using assms by (simp add: replace_universe_discovery_universes_def size_of_int_def kSacnSourceDetectorInfinite_def size_diff_le)

lemma replace_in_array:
  assumes "SACN_DYNAMIC_MEM X" "start + n \<le> limit" "start + n \<le> length (src_universes src)" "n \<le> length us" "start + n < SIZE_MOD"
  shows "replace_universe_discovery_universes X ok fill start us n limit src =
    Some (n, src\<lparr>src_universes := memcpy_at (src_universes src) start us n, src_num_universes := start + n\<rparr>)"
  using assms by (simp add: replace_universe_discovery_universes_def check_capacity_def)

text \<open>The list is full: a page behind it changes nothing but marks the list as changed.\<close>

lemma full_page_modifies:
  assumes "page_ok pg" "page_list pg \<noteq> []" "next_universe_index src = src_num_universes src" "src_num_universes src < SIZE_MOD"
  shows "page_modifies_universe_list src pg = Some True"
proof -
  have n: "0 < page_num_universes pg" by (rule page_list_pos[OF assms(1,2)])
  moreover have "page_universes pg \<noteq> None" using assms(1) n by (auto simp: page_ok_def split: option.splits)
  moreover have "size_diff (src_num_universes src) (next_universe_index src) = 0" using assms(3,4) by (simp add: size_diff_le)
  ultimately show ?thesis by (auto simp: page_modifies_universe_list_def Let_def split: option.split)
qed

lemma replace_full:
  fixes src :: "'tm discovery_source"
  assumes "SACN_DYNAMIC_MEM X" "page_ok pg" "page_list pg \<noteq> []" "next_universe_index src = limit" "0 < limit" "limit \<le> 268435456"
  shows "replace_with_page X V limit pg src =
    Some (\<not> suppress_universe_limit_exceeded_notification src,
          src\<lparr>universes_dirty := True, suppress_universe_limit_exceeded_notification := True\<rparr>)"
proof -
  have n: "0 < page_num_universes pg" "page_num_universes pg \<le> 1048576"
    using page_list_pos[OF assms(2,3)] page_num_small[OF assms(2)] by simp_all
  have r: "replace_universe_discovery_universes X ok fill limit us (page_num_universes pg) limit s = Some (0, s)" for ok fill us and s :: "'tm discovery_source"
    using replace_over_limit[OF assms(1,5) le_refl, of "page_num_universes pg"] n assms(6) by (simp add: SIZE_MOD_def)
  show ?thesis using assms(4) n by (simp add: replace_with_page_def Let_def r)
qed

text \<open>The first page of a list that is in the limit and in the array.\<close>

lemma first_page_fits:
  assumes X: "SACN_DYNAMIC_MEM X" and ok: "known_source_ok X src" and pg: "page_ok pg" "this_page pg = 0" "0 < final_page pg"
    and fits: "page_num_universes pg \<le> limit" "page_num_universes pg \<le> length (src_universes src)" and small: "src_num_universes src < SIZE_MOD"
  obtains s where "take_page X V limit pg src = Some (False, False, s)" "next_universe_index s = page_num_universes pg" "next_page s = 1"
    "length (src_universes s) = length (src_universes src)" "page_num_universes pg \<le> src_num_universes s"
    "src_num_universes s \<le> length (src_universes s)" "src_handle s = src_handle src"
proof -
  let ?s = "page_start V pg src" and ?n = "page_num_universes pg"
  have s: "known_source_ok X ?s" "next_universe_index ?s = 0" "next_page ?s = 0" using ok pg(2) by simp_all
  have seq: "next_universe_index ?s \<le> src_num_universes ?s" and sm: "src_num_universes ?s < SIZE_MOD" using s(2) small by simp_all
  obtain m where m: "page_modifies_universe_list ?s pg = Some m" "\<not> m \<longrightarrow> ?n \<le> src_num_universes src"
    using page_modifies_spec[OF s(1) seq pg(1) sm] s(2) length_page_list[OF pg(1)] length_universe_list[OF ok] by auto
  have n: "?n < SIZE_MOD" using page_num_small[OF pg(1)] by (simp add: SIZE_MOD_def)
  let ?us = "case page_universes pg of None \<Rightarrow> [] | Some us \<Rightarrow> us"
  have us: "?n \<le> length ?us" using pg(1) by (auto simp: page_ok_def split: option.splits)
  let ?r = "if m then ?s\<lparr>universes_dirty := True, src_universes := memcpy_at (src_universes src) 0 ?us ?n, src_num_universes := ?n\<rparr> else ?s"
  have "(if m then replace_with_page X V limit pg ?s else Some (False, ?s)) = Some (False, ?r)"
    using X s(2) fits us n replace_in_array[of X 0 ?n limit "?s\<lparr>universes_dirty := True\<rparr>" ?us] by (simp add: replace_with_page_def Let_def)
  then have "take_page X V limit pg src = Some (False, False, ?r\<lparr>next_universe_index := ?n, next_page := 1\<rparr>)"
    using m(1) s(2,3) pg(2,3) n unfolding take_page_def Let_def page_start_def[unfolded Let_def, symmetric] by (auto split: if_splits)
  then show ?thesis
    by (rule that) (use m(2) us fits(2) ok in \<open>auto simp: known_source_ok_def\<close>)
qed

text \<open>The second page leaves the limit and the array: as much of it as fits is stored, the position is behind the array.\<close>

lemma second_page_overflows:
  assumes X: "SACN_DYNAMIC_MEM X" and pg: "page_ok pg" "this_page pg = 1" "1 < final_page pg" "next_page src = 1"
    and over: "0 < limit" "next_universe_index src \<le> limit" "limit \<le> length (src_universes src)"
      "length (src_universes src) < next_universe_index src + page_num_universes pg"
    and num: "next_universe_index src \<le> src_num_universes src" "src_num_universes src \<le> length (src_universes src)" "next_universe_index src \<le> 1048576"
  obtains lim s where "take_page X V limit pg src = Some (False, lim, s)" "next_universe_index s = next_universe_index src + page_num_universes pg"
    "next_page s = 2" "length (src_universes s) = length (src_universes src)" "src_num_universes s \<le> length (src_universes s)" "src_handle s = src_handle src"
proof -
  let ?s = "page_start V pg src" and ?n = "page_num_universes pg" and ?at = "next_universe_index src"
  have s: "next_universe_index ?s = ?at" "next_page ?s = 1" using pg(2,4) by simp_all
  have n: "?n \<le> 1048576" by (rule page_num_small[OF pg(1)])
  have pos: "0 < ?n" using over by simp
  have us: "page_universes pg \<noteq> None" "?n \<le> length (case page_universes pg of None \<Rightarrow> [] | Some us \<Rightarrow> us)"
    using pg(1) pos by (auto simp: page_ok_def split: option.splits)
  have small: "src_num_universes src < SIZE_MOD" "?at + ?n < SIZE_MOD" using num(2,3) over n by (simp_all add: SIZE_MOD_def)
  have "size_diff (src_num_universes src) ?at = src_num_universes src - ?at" using num(1) small(1) by (simp add: size_diff_le)
  then have m: "page_modifies_universe_list ?s pg = Some True"
    using us(1) over num s(1) by (auto simp: page_modifies_universe_list_def Let_def split: option.split)
  let ?us = "case page_universes pg of None \<Rightarrow> [] | Some us \<Rightarrow> us"
  let ?d = "?s\<lparr>universes_dirty := True\<rparr>"
  have r: "replace_universe_discovery_universes X ok fill ?at ?us ?n limit ?d = Some (limit - ?at, ?d)" for ok fill
    by (rule replace_over_limit) (use X over small in simp_all)
  have k: "limit - ?at < ?n" using over by simp
  define e where "e = (if limit - ?at > 0 then ?d\<lparr>src_universes := memcpy_at (src_universes src) ?at ?us (limit - ?at), src_num_universes := limit\<rparr> else ?d)"
  have refit: "(if limit - ?at > 0 then map_option snd (replace_universe_discovery_universes X (refit_realloc_ok V) (realloc_fill V) ?at ?us (limit - ?at) limit ?d)
      else Some ?d) = Some e"
    using X over k us(2) small(2) replace_in_array[of X ?at "limit - ?at" limit ?d ?us] by (simp add: e_def)
  have w: "replace_with_page X V limit pg ?s =
      Some (\<not> suppress_universe_limit_exceeded_notification e, e\<lparr>suppress_universe_limit_exceeded_notification := True\<rparr>)"
    using k refit pg(2) by (cases "limit - ?at > 0") (auto simp: replace_with_page_def Let_def r)
  have e: "next_universe_index e = ?at" "next_page e = 1" "length (src_universes e) = length (src_universes src)"
    "src_num_universes e \<le> length (src_universes e)" "src_handle e = src_handle src"
    using s us(2) k over num(2) by (auto simp: e_def)
  let ?r = "e\<lparr>suppress_universe_limit_exceeded_notification := True, next_universe_index := ?at + ?n, next_page := 2\<rparr>"
  have "take_page X V limit pg src = Some (False, \<not> suppress_universe_limit_exceeded_notification e, ?r)"
    using m w e(1,2) pg(2,3,4) small(2) unfolding take_page_def Let_def page_start_def[unfolded Let_def, symmetric] by simp
  then show ?thesis by (rule that) (use e in simp_all)
qed

text \<open>The third page is compared with what is behind the array.\<close>

lemma third_page_overreads:
  assumes pg: "page_ok pg" "page_list pg \<noteq> []" "this_page pg = 2" "2 < final_page pg" "next_page src = 2"
    and over: "src_num_universes src \<le> length (src_universes src)" "length (src_universes src) < next_universe_index src" "next_universe_index src \<le> 2097152"
  shows "take_page X V limit pg src = None"
proof -
  have n: "0 < page_num_universes pg" "page_num_universes pg \<le> 1048576"
    using page_list_pos[OF pg(1,2)] page_num_small[OF pg(1)] by simp_all
  obtain us where us: "page_universes pg = Some us" using pg(1) n(1) by (cases "page_universes pg") (simp_all add: page_ok_def)
  have d: "size_diff (src_num_universes src) (next_universe_index src) = src_num_universes src + SIZE_MOD - next_universe_index src"
    using over by (simp add: size_diff_def SIZE_MOD_def)
  have "page_modifies_universe_list (page_start V pg src) pg = None"
    using over n us pg(3,4) d by (auto simp: page_modifies_universe_list_def Let_def SIZE_MOD_def)
  then show ?thesis
    using pg(3,5) unfolding take_page_def Let_def page_start_def[unfolded Let_def, symmetric] by simp
qed

section \<open>A page that is stored already, and one that finds the list full\<close>

lemma take_page_repeated:
  fixes V :: "'tm detector_call"
  assumes ok: "known_source_ok X src" and pg: "page_ok pg" "this_page pg = 0" "0 < final_page pg" and list: "universe_list src = page_list pg"
  defines "s \<equiv> (page_start V pg src)\<lparr>next_universe_index := length (page_list pg), next_page := 1\<rparr>"
  shows "take_page X V limit pg src = Some (False, False, s)" "known_source_ok X s" "universe_list s = page_list pg"
    "src_num_universes s = length (page_list pg)" "next_universe_index s = length (page_list pg)" "next_page s = 1" "src_handle s = src_handle src"
proof -
  let ?s = "page_start V pg src"
  have n: "page_num_universes pg = length (page_list pg)" "page_num_universes pg < SIZE_MOD"
    using length_page_list[OF pg(1)] page_num_small[OF pg(1)] by (simp_all add: SIZE_MOD_def)
  have num: "src_num_universes src = length (page_list pg)" using length_universe_list[OF ok] list by simp
  have st: "known_source_ok X ?s" "next_universe_index ?s \<le> src_num_universes ?s" "src_num_universes ?s < SIZE_MOD"
    using ok num n pg(2) by simp_all
  have "page_modifies_universe_list ?s pg = Some False"
    using page_modifies_spec[OF st(1,2) pg(1) st(3)] list pg(2,3) by simp
  then show "take_page X V limit pg src = Some (False, False, s)"
    using pg(2,3) n unfolding take_page_def Let_def page_start_def[unfolded Let_def, symmetric] by (simp add: s_def)
  show "known_source_ok X s" "universe_list s = page_list pg" "src_num_universes s = length (page_list pg)"
    "next_universe_index s = length (page_list pg)" "next_page s = 1" "src_handle s = src_handle src"
    using ok list num by (auto simp: s_def page_start_def restart_sequence_def known_source_ok_def universe_list_def Let_def pg(2))
qed

lemma take_page_full:
  assumes X: "SACN_DYNAMIC_MEM X" and ok: "known_source_ok X src" "next_universe_index src = src_num_universes src" "src_num_universes src = limit"
    and lim: "0 < limit" "limit \<le> 1048576" "sorted_wrt (<) (universe_list src)"
    and pg: "page_ok pg" "page_list pg \<noteq> []" "this_page pg = 1" "final_page pg = 1" "next_page src = 1"
  obtains b s where "take_page X V limit pg src = Some (True, b, s)" "known_source_ok X s" "sequence_ok s" "src_handle s = src_handle src"
    "universe_list s = universe_list src" "\<not> universes_dirty s"
proof -
  let ?s = "page_start V pg src"
  define s1 where "s1 = ?s\<lparr>universes_dirty := True, suppress_universe_limit_exceeded_notification := True\<rparr>"
  have st: "next_universe_index ?s = limit" "next_universe_index ?s = src_num_universes ?s" "src_num_universes ?s < SIZE_MOD"
    using ok lim pg(3) by (simp_all add: SIZE_MOD_def)
  have m: "page_modifies_universe_list ?s pg = Some True" by (rule full_page_modifies[OF pg(1,2) st(2,3)])
  have r: "replace_with_page X V limit pg ?s = Some (\<not> suppress_universe_limit_exceeded_notification ?s, s1)"
    using replace_full[OF X pg(1,2) st(1) lim(1)] lim(2) by (simp add: s1_def)
  have s1: "known_source_ok X s1" "universe_list s1 = universe_list src" "universes_dirty s1" "src_handle s1 = src_handle src"
    using ok(1) by (auto simp: s1_def page_start_def known_source_ok_def universe_list_def restart_sequence_def Let_def)
  obtain s2 where f: "finish_sequence s1 = (universes_dirty s1 \<and> sorted_wrt (<) (universe_list s1), s2)"
    "universe_list s2 = universe_list s1" "\<not> universes_dirty s2" "next_universe_index s2 = 0" "next_page s2 = 0"
    "src_universes s2 = src_universes s1" "src_num_universes s2 = src_num_universes s1" "src_handle s2 = src_handle s1"
    by (rule finish_sequence_spec[OF s1(1)])
  have t: "take_page X V limit pg src = Some (True, \<not> suppress_universe_limit_exceeded_notification ?s, s2)"
    using m r f(1) s1(2,3) lim(3) pg(3,4,5) unfolding take_page_def Let_def page_start_def[unfolded Let_def, symmetric] by simp
  have "known_source_ok X s2" using s1(1) f(6,7) by (simp add: known_source_ok_def)
  moreover have "sequence_ok s2" using f(4,5,7) ok(3) lim(2) by (simp add: sequence_ok_def s1_def)
  ultimately show ?thesis using that[OF t] f s1 by simp
qed

section \<open>Pages of a stored source, whatever the limit\<close>

definition found :: "('cid, 't, 'c, 'm, 's) detector_ext \<Rightarrow> ('cid, 't, 'c, 'm, 's, 'tm) detector_state \<Rightarrow> 'cid \<Rightarrow> u16 \<Rightarrow> bool" where
  "found X D c h \<longleftrightarrow> get_remote_source_handle (remote_lib X) (remote D) c = h \<and> h \<noteq> kSacnRemoteSourceInvalid \<and>
     rb_find (source_rb X) (discovery_tree D) h"

lemma known_found:
  assumes "detector_laws X wft wfc wfs" "detector_inv X wft wfc wfs D" "known X D c = Some h"
  shows "found X D c h"
  using known_lookup(1)[OF assms(1,2), of c] known_lookup(2)[OF assms] assms(3) unfolding found_def by simp

lemma found_put [simp]: "found X (put_discovery_source g src D) c h = found X D c h"
  by (simp add: found_def put_discovery_source_def)

text \<open>The events of a page, with what \<open>take_page\<close> reports.\<close>

definition page_events ::
    "('cid, 't, 'c, 'm, 's) detector_ext \<Rightarrow> 'tm detector_call \<Rightarrow> 'cid discovery_page \<Rightarrow> source_detector \<Rightarrow> bool \<Rightarrow> bool \<Rightarrow>
     'tm discovery_source \<Rightarrow> 'cid detector_event list" where
  "page_events X V pg d updated limited src =
     (if updated \<and> has_source_updated (callbacks d) then [updated_event X V pg src] else []) @
     (if limited \<and> has_limit_exceeded (callbacks d) then [LimitExceeded] else [])"

lemma process_found_page:
  assumes "page_lock_taken V" "found X D (sender_cid pg) h"
  shows "process_universe_discovery_page X V pg D =
    map_option (\<lambda>(updated, limited, src). (put_discovery_source h src D, page_events X V pg (detector D) updated limited src))
      (take_page X V (size_of_int (universes_per_source_max (detector D))) pg (discovery_mem D h))"
proof -
  have "find_or_add_source X V pg D = (kEtcPalErrOk, Some h, False, D)"
    using assms(2) by (simp add: find_or_add_source_def found_def)
  then show ?thesis
    using assms(1) by (cases "take_page X V (size_of_int (universes_per_source_max (detector D))) pg (discovery_mem D h)")
      (auto simp: process_universe_discovery_page_def page_events_def)
qed

lemma put_simps [simp]:
  "detector (put_discovery_source h src D) = detector D" "discovery_mem (put_discovery_source h src D) h = src"
  "put_discovery_source h s2 (put_discovery_source h src D) = put_discovery_source h s2 D"
  "context_detector (put_discovery_source h src D) = context_detector D"
  by (simp_all add: put_discovery_source_def)

lemma known_put [simp]: "known X (put_discovery_source h src D) = known X D"
proof -
  have same: "discovery_tree (put_discovery_source h src D) = discovery_tree D" "remote (put_discovery_source h src D) = remote D"
    by (simp_all add: put_discovery_source_def)
  show ?thesis unfolding known_def[abs_def] entry_of_def discovery_handles_def same ..
qed

text \<open>A detector with a limit of two universes that knows the source of CID 7.\<close>

definition demo_limited :: "(nat, nat list, u16 list, unit, u16 list, nat) detector_state" where
  "demo_limited = demo_knowing\<lparr>detector := demo_created 2\<rparr>"

lemma demo_limited_facts:
  "detector_inv demo_detector_lib list_wf list_wf list_wf demo_limited" "known demo_detector_lib demo_limited 7 = Some 0"
  "heard demo_detector_lib demo_limited 7 = ([1, 2], False)" "universes_per_source_max (detector demo_limited) = 2"
  "has_source_updated (callbacks (detector demo_limited))" "discovery_mem demo_limited 0 = demo_known_source"
proof -
  show "detector_inv demo_detector_lib list_wf list_wf list_wf demo_limited"
    by (rule detector_inv_same[OF demo_knowing_inv]) (simp_all add: demo_limited_def)
  have k: "known demo_detector_lib demo_limited = known demo_detector_lib demo_knowing"
  proof -
    have same: "discovery_tree demo_limited = discovery_tree demo_knowing" "remote demo_limited = remote demo_knowing"
      by (simp_all add: demo_limited_def)
    show ?thesis unfolding known_def[abs_def] entry_of_def discovery_handles_def same ..
  qed
  then show "known demo_detector_lib demo_limited 7 = Some 0" by (simp add: demo_knowing_known)
  show m: "discovery_mem demo_limited 0 = demo_known_source" by (simp add: demo_limited_def demo_knowing_def demo_detector_def)
  show "heard demo_detector_lib demo_limited 7 = ([1, 2], False)"
    using m by (simp add: heard_def k demo_knowing_known demo_source_list) (simp add: demo_known_source_def)
  show "universes_per_source_max (detector demo_limited) = 2" "has_source_updated (callbacks (detector demo_limited))"
    by (simp_all add: demo_limited_def demo_created_def demo_config_def)
qed

end
