(* ===== verification/DetectorProps.thy ===== *)
theory DetectorProps
  imports DetectorLimits
begin

text \<open>
  The properties of the source detector and of the table of remote sources, each with a concrete
  example. The detector of the examples is the one of \<open>DetectorExample\<close>.
\<close>

section \<open>The table of remote sources\<close>

text \<open>
  C19: The table of remote sources implements a map from CIDs to a handle and a count of users. With
  well-formed trees, looking up a CID gives its handle or the invalid one, and looking up a handle
  gives the CID it belongs to. Adding a CID always keeps the table well formed: it either succeeds and
  leaves one user more for that CID, with the handle the CID had if it had one, or fails, only for a
  new CID, and leaves every entry as it was. Removing a handle takes one user away, and the entry with
  the last one; no other entry changes.
\<close>

theorem remote_table_refines_map:
  assumes "remote_laws X wft wfc" "remote_inv X wft wfc R"
  shows "get_remote_source_handle X R c = (case remote_entries X R c of None \<Rightarrow> kSacnRemoteSourceInvalid | Some (h, n) \<Rightarrow> h) \<and>
    (get_remote_source_cid X R h = Some c \<longleftrightarrow> (\<exists>n. remote_entries X R c = Some (h, n))) \<and>
    (\<exists>e g R'. add_remote_source_handle X A c R = (e, g, R') \<and> remote_inv X wft wfc R' \<and>
       (if e = kEtcPalErrOk
        then \<exists>h n. g = Some h \<and> remote_entries X R c = (if n = 0 then None else Some (h, n)) \<and>
               remote_entries X R' = (remote_entries X R)(c \<mapsto> (h, n + 1)) \<and> h \<noteq> kSacnRemoteSourceInvalid
        else g = None \<and> remote_entries X R c = None \<and> remote_entries X R' = remote_entries X R)) \<and>
    (remote_entries X R c = Some (h, n) \<longrightarrow>
       (\<exists>R'. remove_remote_source_handle X h R = (kEtcPalErrOk, R') \<and> remote_inv X wft wfc R' \<and>
          remote_entries X R' = (remote_entries X R)(c := if n \<le> 1 then None else Some (h, n - 1))))"
proof -
  have ok: "remote_laws X wft wfc \<and> remote_inv X wft wfc R" using assms by blast
  have add: "\<exists>e g R'. add_remote_source_handle X A c R = (e, g, R') \<and> remote_inv X wft wfc R' \<and>
       (if e = kEtcPalErrOk
        then \<exists>h n. g = Some h \<and> remote_entries X R c = (if n = 0 then None else Some (h, n)) \<and>
               remote_entries X R' = (remote_entries X R)(c \<mapsto> (h, n + 1)) \<and> h \<noteq> kSacnRemoteSourceInvalid
        else g = None \<and> remote_entries X R c = None \<and> remote_entries X R' = remote_entries X R)"
  proof (cases rule: remote_sources.acquire_cases[OF ok, of A c, case_names acquired failed])
    case (acquired h n R')
    then show ?thesis by (intro exI[of _ kEtcPalErrOk] exI[of _ "Some h"] exI[of _ R']) auto
  next
    case (failed e R')
    then show ?thesis by (intro exI[of _ e] exI[of _ None] exI[of _ R']) simp
  qed
  show ?thesis
    using get_remote_source_handle_entries[of X R c] get_remote_source_cid_entries[OF assms] add
      remote_sources.release_entry[OF ok, of c h n] by blast
qed

theorem remote_table_refines_map_witness:
  "get_remote_source_handle demo_remote_lib (remote demo_knowing) 7 = 0 \<and>
   (\<exists>R'. remove_remote_source_handle demo_remote_lib 0 (remote demo_knowing) = (kEtcPalErrOk, R') \<and> remote_entries demo_remote_lib R' 7 = None)"
proof -
  have L: "remote_laws demo_remote_lib list_wf list_wf" and I: "remote_inv demo_remote_lib list_wf list_wf (remote demo_knowing)"
    using detector_lawsD(1)[OF demo_detector_laws] detector_invD(1)[OF demo_knowing_inv] by (simp_all add: demo_detector_lib_def)
  have e: "remote_entries demo_remote_lib (remote demo_knowing) 7 = Some (0, 1)"
    using demo_knowing_entry[of 7] by (simp add: entry_of_def demo_detector_lib_def)
  obtain R' where "remove_remote_source_handle demo_remote_lib 0 (remote demo_knowing) = (kEtcPalErrOk, R')"
    "remote_entries demo_remote_lib R' = (remote_entries demo_remote_lib (remote demo_knowing))(7 := None)"
    "get_remote_source_handle demo_remote_lib (remote demo_knowing) 7 = 0"
    using remote_table_refines_map[OF L I, of 7 0 "remote_memory demo_detector_call" 1, unfolded e] by auto
  then show ?thesis by simp
qed

section \<open>Pages\<close>

text \<open>
  C12: A complete sequence of universe discovery pages is followed exactly. With no limit on the
  universes of a source and enough memory, when the pages 0 to n of a source arrive in order, and
  the source is known or can be added, then afterwards the stored list is the concatenation of the
  pages and the source is not dirty any more. The application gets exactly one call of
  \<open>source_updated\<close>, with that list, if the list was dirty or differs from the one before and is
  strictly ascending, and no call otherwise. The handle in the call is always the invalid one.
\<close>

theorem page_sequence_notifies:
  assumes "detector_laws X wft wfc wfs" "detector_inv X wft wfc wfs D" "universes_per_source_max (detector D) = 0"
    and "has_source_updated (callbacks (detector D))" "\<forall>(V, pg) \<in> set ps. page_memory X V" "ps \<noteq> []"
    and "pages_from c 0 n (map snd ps)" "fst (find_or_add_source X (fst (hd ps)) (snd (hd ps)) D) = kEtcPalErrOk"
  shows "let us = concat (map (page_list \<circ> snd) ps); (old, dirty) = heard X D c in
    \<exists>D'. process_pages X ps D =
        Some (D', if (dirty \<or> us \<noteq> old) \<and> sorted_wrt (<) us
                  then [SourceUpdated kSacnRemoteSourceInvalid c (page_source_name (snd (last ps)))
                          (if us = [] then None else Some us) (length us)]
                  else []) \<and>
      detector_inv X wft wfc wfs D' \<and> heard X D' c = (us, False)"
proof -
  obtain old dirty where h: "heard X D c = (old, dirty)" by (rule prod.exhaust)
  show ?thesis using sequence_outcome[OF assms] unfolding h Let_def prod.case update_of_def fst_conv snd_conv by blast
qed

theorem page_sequence_notifies_witness:
  "\<exists>D'. process_pages demo_detector_lib [(demo_detector_call, demo_page 0 1 [1, 2]), (demo_detector_call, demo_page 1 1 [5])] demo_detector =
     Some (D', [SourceUpdated 0xFFFF 7 [100] (Some [1, 2, 5]) 3])"
proof -
  let ?ps = "[(demo_detector_call, demo_page 0 1 [1, 2]), (demo_detector_call, demo_page 1 1 [5])]"
  have "heard demo_detector_lib demo_detector 7 = ([], True)" by (simp add: heard_def demo_detector_known)
  then have "\<exists>D'. process_pages demo_detector_lib ?ps demo_detector = Some (D', [SourceUpdated kSacnRemoteSourceInvalid 7 [100] (Some [1, 2, 5]) 3])"
    using page_sequence_notifies[OF demo_detector_laws demo_detector_inv demo_settings(1,3), of ?ps 7 1] demo_memory demo_adds[of 0 1 "[1, 2]"]
    by (auto simp: Let_def simp del: process_pages.simps)
  then show ?thesis by (simp add: kSacnRemoteSourceInvalid_def)
qed

section \<open>All calls\<close>






section \<open>Expiry\<close>

text \<open>
  C18: A tick removes exactly the expired sources. With memory for the notification, every source whose
  timer has expired is removed, no other one, and the application gets one call of \<open>source_expired\<close> for
  each, in ascending order of the handles, with its handle, its CID and its name. Each removed source
  gives up its use of its handle in the table of remote sources: the entry goes when no one else uses
  it. If any source expired, the application can again be told of too many sources.
\<close>

theorem expiry_exact:
  assumes "detector_laws X wft wfc wfs" "detector_inv X wft wfc wfs D" "expiry_memory X V"
    and "cb_lock_taken V" "receiver_lock_taken V" "context_detector D" "has_source_expired (callbacks (detector D))"
  defines "gone \<equiv> filter (\<lambda>h. timer_expired V (expiration_timer (discovery_mem D h))) (rb_iter (source_rb X) (discovery_tree D))"
  shows "\<exists>D'. process_source_detector X V D =
      Some (D', map (\<lambda>h. SourceExpired h (the (get_remote_source_cid (remote_lib X) (remote D) h))
                    (strncpy_bytes kSacnSourceNameMaxLen (src_name (discovery_mem D h)))) gone) \<and>
    set (rb_iter (source_rb X) (discovery_tree D')) = set (rb_iter (source_rb X) (discovery_tree D)) - set gone \<and>
    discovery_mem D' = discovery_mem D \<and>
    (\<forall>c. remote_entries (remote_lib X) (remote D') c =
       (case remote_entries (remote_lib X) (remote D) c of None \<Rightarrow> None
        | Some (h, n) \<Rightarrow> if h \<in> set gone then (if n \<le> 1 then None else Some (h, n - 1)) else Some (h, n))) \<and>
    suppress_source_limit_exceeded_notification (detector D') =
      (suppress_source_limit_exceeded_notification (detector D) \<and> gone = [])"
proof -
  have g: "gone = expired_handles X V D" by (simp add: gone_def expired_handles_def)
  let ?D = "with_suppress (suppress_source_limit_exceeded_notification (detector D) \<and> gone = []) D"
  obtain gone' where r: "process_source_detector X V D = Some (remove_sources X gone' ?D,
        if has_source_expired (callbacks (detector D))
        then map (\<lambda>h. SourceExpired h (the (get_remote_source_cid (remote_lib X) (remote D) h))
                    (strncpy_bytes kSacnSourceNameMaxLen (src_name (discovery_mem D h)))) gone' else [])"
    "expiry_memory X V \<longrightarrow> gone' = gone" "distinct gone'" "set gone' \<subseteq> discovery_handles X D"
    by (rule process_source_detector_spec[OF assms(1,2,4,5,6), folded g])
  have g': "gone' = gone" using r(2) assms(3) by blast
  have inv: "detector_inv X wft wfc wfs ?D" "set gone' \<subseteq> discovery_handles X ?D" using assms(2) r(4) by simp_all
  note R = remove_sources_spec[OF assms(1) inv(1) r(3) inv(2), unfolded g']
  show ?thesis
    using r(1) R assms(7) unfolding g'
    by (intro exI[of _ "remove_sources X gone ?D"])
       (simp add: discovery_handles_def entry_of_def fun_eq_iff released_def split: option.split)
qed

theorem expiry_exact_witness:
  "\<exists>D'. process_source_detector demo_detector_lib demo_detector_call demo_knowing = Some (D', [SourceExpired 0 7 (replicate 64 0)]) \<and>
     discovery_tree D' = [] \<and> remote_entries demo_remote_lib (remote D') 7 = None"
proof -
  have m: "expiry_memory demo_detector_lib demo_detector_call" "cb_lock_taken demo_detector_call" "receiver_lock_taken demo_detector_call"
    by (simp_all add: expiry_memory_def demo_detector_lib_def demo_detector_call_def)
  have t: "rb_iter (source_rb demo_detector_lib) u = u" "discovery_tree demo_knowing = [0]"
    "remote_lib demo_detector_lib = demo_remote_lib" for u
    by (simp_all add: demo_detector_defs)
  have g: "filter (\<lambda>h. timer_expired demo_detector_call (expiration_timer (discovery_mem demo_knowing h))) [0] = [0]"
    by (simp add: demo_detector_call_def)
  have e: "remote_entries demo_remote_lib (remote demo_knowing) 7 = Some (0, 1)"
    using demo_knowing_entry[of 7] by (simp add: entry_of_def t)
  have c: "get_remote_source_cid demo_remote_lib (remote demo_knowing) 0 = Some 7"
    using entry_facts(3)[OF demo_detector_laws demo_knowing_inv, of 7 0 1] demo_knowing_entry[of 7] by (simp add: t)
  have nm: "strncpy_bytes kSacnSourceNameMaxLen (src_name (discovery_mem demo_knowing 0)) = replicate 64 0"
    by (simp add: demo_knowing_def demo_detector_def demo_known_source_def strncpy_bytes_def)
  obtain D' where "process_source_detector demo_detector_lib demo_detector_call demo_knowing = Some (D', [SourceExpired 0 7 (replicate 64 0)])"
    "set (discovery_tree D') = {}" "remote_entries demo_remote_lib (remote D') 7 = None"
    using expiry_exact[OF demo_detector_laws demo_knowing_inv m demo_settings(7,5), unfolded t g] e c nm by auto
  then show ?thesis by auto
qed

section \<open>Limits\<close>

text \<open>
  C38: With a limit of universes per source that a source exceeds, the detector reads outside the
  source's array. Let the limit be no larger than the array, and let the pages 0 and 1 of a sequence of
  at least four pages hold more universes than the array, page 0 alone not more than the limit. Both
  pages are taken, without any access outside, but the position in the list then lies behind the
  array, the number of remaining universes wraps around, and page 2, if it holds any universe, is
  compared with memory behind the array. No allocation has to fail for this.
\<close>

theorem limit_exceeded_overreads:
  assumes L: "detector_laws X wft wfc wfs" and inv: "detector_inv X wft wfc wfs D" and k: "known X D c = Some h" and X: "SACN_DYNAMIC_MEM X"
    and lock: "page_lock_taken V0" "page_lock_taken V1" "page_lock_taken V2"
    and p: "page_ok p0" "page_ok p1" "page_ok p2" "sender_cid p0 = c" "sender_cid p1 = c" "sender_cid p2 = c"
      "this_page p0 = 0" "this_page p1 = 1" "this_page p2 = 2" "2 < final_page p0" "2 < final_page p1" "2 < final_page p2" "page_list p2 \<noteq> []"
    and lim: "universes_per_source_max (detector D) = int limit" "0 < limit" "limit \<le> length (src_universes (discovery_mem D h))"
      "length (page_list p0) \<le> limit" "length (src_universes (discovery_mem D h)) < length (page_list p0) + length (page_list p1)"
  shows "\<exists>D' es. process_pages X [(V0, p0), (V1, p1)] D = Some (D', es) \<and> process_universe_discovery_page X V2 p2 D' = None"
proof -
  let ?src = "discovery_mem D h"
  have h: "h \<in> discovery_handles X D" using k by (simp add: known_iff)
  note ok = detector_invD(5,6)[OF inv h]
  have num: "src_num_universes ?src < SIZE_MOD" using ok(2) by (simp add: sequence_ok_def SIZE_MOD_def)
  have n: "length (page_list p0) = page_num_universes p0" "length (page_list p1) = page_num_universes p1" "page_num_universes p0 \<le> 1048576"
    "page_num_universes p1 \<le> 1048576"
    using length_page_list[OF p(1)] length_page_list[OF p(2)] page_num_small[OF p(1)] page_num_small[OF p(2)] by simp_all
  have sz: "size_of_int (universes_per_source_max (detector D)) = limit" using lim n by (simp add: size_of_int_small)
  note found = known_found[OF L inv k]
  have f: "0 < final_page p0" "1 < final_page p1" using p(10,11) by simp_all
  have fits: "page_num_universes p0 \<le> limit" "page_num_universes p0 \<le> length (src_universes ?src)" using lim n by simp_all
  obtain s0 where s0: "take_page X V0 limit p0 ?src = Some (False, False, s0)" "next_universe_index s0 = page_num_universes p0" "next_page s0 = 1"
    "length (src_universes s0) = length (src_universes ?src)" "page_num_universes p0 \<le> src_num_universes s0"
    "src_num_universes s0 \<le> length (src_universes s0)" "src_handle s0 = src_handle ?src"
    by (rule first_page_fits[OF X ok(1) p(1,7) f(1) fits num])
  obtain b s1 where s1: "take_page X V1 limit p1 s0 = Some (False, b, s1)" "next_universe_index s1 = next_universe_index s0 + page_num_universes p1"
    "next_page s1 = 2" "length (src_universes s1) = length (src_universes s0)" "src_num_universes s1 \<le> length (src_universes s1)"
    "src_handle s1 = src_handle s0"
    by (rule second_page_overflows[OF X p(2,8) f(2) s0(3) lim(2)]) (use s0 lim n in simp_all)
  have none: "take_page X V2 limit p2 s1 = None"
    by (rule third_page_overreads[OF p(3,13,9,12) s1(3,5)]) (use s0 s1 lim n in simp_all)
  let ?D0 = "put_discovery_source h s0 D" and ?D1 = "put_discovery_source h s1 D"
  have c: "found X D (sender_cid p0) h" "found X ?D0 (sender_cid p1) h" "found X ?D1 (sender_cid p2) h" using found p(4-6) by simp_all
  have "process_universe_discovery_page X V0 p0 D = Some (?D0, page_events X V0 p0 (detector D) False False s0)"
    using s0(1) by (simp add: process_found_page[OF lock(1) c(1)] sz)
  moreover have "process_universe_discovery_page X V1 p1 ?D0 = Some (?D1, page_events X V1 p1 (detector D) False b s1)"
    using s1(1) by (simp add: process_found_page[OF lock(2) c(2)] sz)
  moreover have "process_universe_discovery_page X V2 p2 ?D1 = None"
    using none by (simp add: process_found_page[OF lock(3) c(3)] sz)
  ultimately show ?thesis by simp
qed

theorem limit_exceeded_overreads_witness:
  "\<exists>D' es. process_pages demo_detector_lib
       [(demo_detector_call, demo_page 0 3 [1, 2]), (demo_detector_call, demo_page 1 3 [3, 4, 5, 6, 7, 8, 9])] demo_limited = Some (D', es) \<and>
     process_universe_discovery_page demo_detector_lib demo_detector_call (demo_page 2 3 [10]) D' = None"
proof -
  have X: "SACN_DYNAMIC_MEM demo_detector_lib" by (simp add: demo_detector_lib_def)
  have lock: "page_lock_taken demo_detector_call" by (simp add: demo_detector_call_def)
  show ?thesis
    by (rule limit_exceeded_overreads[OF demo_detector_laws demo_limited_facts(1,2) X lock lock lock, of _ _ _ 2])
       (simp_all add: demo_limited_facts demo_known_source_def)
qed

text \<open>
  C39: A source that has more universes than the limit is reported as updated by every sequence of its
  pages, although nothing changes. When page 0 holds exactly the universes that are stored, as many
  as the limit, and page 1, the last one, holds any more, then the two pages lead to a call of
  \<open>source_updated\<close> with the list the application was already told, and to a state in which the same
  pages do so again.
\<close>

theorem limit_exceeded_renotifies:
  assumes L: "detector_laws X wft wfc wfs" and inv: "detector_inv X wft wfc wfs D" and k: "known X D c = Some h" and X: "SACN_DYNAMIC_MEM X"
    and V: "page_lock_taken V0" "page_lock_taken V1" "notify_alloc_ok V1" and cb: "has_source_updated (callbacks (detector D))"
    and p: "page_ok p0" "page_ok p1" "sender_cid p0 = c" "sender_cid p1 = c" "this_page p0 = 0" "this_page p1 = 1" "final_page p0 = 1"
      "final_page p1 = 1" "page_list p1 \<noteq> []"
    and lim: "universes_per_source_max (detector D) = int (length (page_list p0))" "page_list p0 \<noteq> []" "sorted_wrt (<) (page_list p0)"
    and told: "heard X D c = (page_list p0, False)"
  shows "\<exists>D' es. process_pages X [(V0, p0), (V1, p1)] D =
      Some (D', SourceUpdated kSacnRemoteSourceInvalid c (page_source_name p1) (Some (page_list p0)) (length (page_list p0)) # es) \<and>
    (es = [] \<or> es = [LimitExceeded]) \<and> detector_inv X wft wfc wfs D' \<and> known X D' c = Some h \<and> detector D' = detector D \<and>
    heard X D' c = (page_list p0, False)"
proof -
  let ?src = "discovery_mem D h" and ?us = "page_list p0"
  have h: "h \<in> discovery_handles X D" using k by (simp add: known_iff)
  note ok = detector_invD(5,6)[OF inv h]
  have list: "universe_list ?src = ?us" "\<not> universes_dirty ?src" using told by (simp_all add: heard_def k)
  have n0: "0 < length ?us" "length ?us \<le> 1048576"
    using length_page_list[OF p(1)] page_num_small[OF p(1)] page_list_pos[OF p(1) lim(2)] by simp_all
  have sz: "size_of_int (universes_per_source_max (detector D)) = length ?us" using lim(1) n0 by (simp add: size_of_int_small)
  have f0: "0 < final_page p0" using p(7) by simp
  define s0 where "s0 = (page_start V0 p0 ?src)\<lparr>next_universe_index := length ?us, next_page := 1\<rparr>"
  note s0 = take_page_repeated[OF ok(1) p(1,5) f0 list(1), of V0, folded s0_def]
  obtain b s where s: "take_page X V1 (length ?us) p1 s0 = Some (True, b, s)" "known_source_ok X s" "sequence_ok s" "src_handle s = src_handle s0"
    "universe_list s = universe_list s0" "\<not> universes_dirty s"
    by (rule take_page_full[OF X s0(2) _ s0(4) n0 _ p(2,9,6,8) s0(6)]) (use s0 lim(3) in simp_all)
  have sh: "src_handle s = h" using s(4) s0(7) detector_invD(4)[OF inv h] by simp
  let ?first = "put_discovery_source h s0 D" and ?D = "put_discovery_source h s D"
  have c: "found X D (sender_cid p0) h" "found X ?first (sender_cid p1) h" using known_found[OF L inv k] p(3,4) by simp_all
  have "process_universe_discovery_page X V0 p0 D = Some (?first, [])"
    by (simp add: process_found_page[OF V(1) c(1)] sz s0(1) page_events_def)
  moreover have "process_universe_discovery_page X V1 p1 ?first = Some (?D, page_events X V1 p1 (detector D) True b s)"
    unfolding process_found_page[OF V(2) c(2)] put_simps sz s(1) by simp
  ultimately have run: "process_pages X [(V0, p0), (V1, p1)] D = Some (?D, page_events X V1 p1 (detector D) True b s)" by simp
  have ev: "page_events X V1 p1 (detector D) True b s =
      SourceUpdated kSacnRemoteSourceInvalid c (page_source_name p1) (Some ?us) (length ?us) #
      (if b \<and> has_limit_exceeded (callbacks (detector D)) then [LimitExceeded] else [])"
    using cb updated_event_list[OF s(2) V(3), of p1] s(5) s0(3) lim(2) p(4) by (simp add: page_events_def update_of_def)
  have kn: "known X ?D c = Some h" using k by simp
  have hd: "heard X ?D c = (?us, False)" using kn s(5,6) s0(3) by (simp add: heard_def)
  show ?thesis
    using run put_discovery_source_inv[OF inv sh s(2,3)] kn hd unfolding ev
    by (intro exI[of _ ?D] exI[of _ "if b \<and> has_limit_exceeded (callbacks (detector D)) then [LimitExceeded] else []"])
       (simp del: process_pages.simps)
qed

theorem limit_exceeded_renotifies_witness:
  "\<exists>D' es. process_pages demo_detector_lib [(demo_detector_call, demo_page 0 1 [1, 2]), (demo_detector_call, demo_page 1 1 [3])] demo_limited =
     Some (D', SourceUpdated kSacnRemoteSourceInvalid 7 [100] (Some [1, 2]) 2 # es)"
proof -
  have X: "SACN_DYNAMIC_MEM demo_detector_lib" by (simp add: demo_detector_lib_def)
  have V: "page_lock_taken demo_detector_call" "notify_alloc_ok demo_detector_call" by (simp_all add: demo_detector_call_def)
  show ?thesis
    using limit_exceeded_renotifies[OF demo_detector_laws demo_limited_facts(1,2) X V(1) V(1,2) demo_limited_facts(5),
        of "demo_page 0 1 [1, 2]" "demo_page 1 1 [3]"]
    by (auto simp: demo_limited_facts simp del: process_pages.simps)
qed

section \<open>A detector created again\<close>

lemma same_sources:
  assumes "discovery_tree D' = discovery_tree D" "discovery_mem D' = discovery_mem D" "remote D' = remote D"
  shows "known X D' = known X D" "heard X D' = heard X D"
proof -
  show k: "known X D' = known X D" unfolding known_def[abs_def] entry_of_def discovery_handles_def assms ..
  show "heard X D' = heard X D" unfolding heard_def[abs_def] k assms ..
qed

lemma recreate_spec:
  assumes "created (detector D)" "call_initialized V1" "cb_lock_taken V1" "receiver_lock_taken V1"
    and "call_initialized V2" "receiver_lock_taken V2" "netints_result V2 = kEtcPalErrOk" "assign_result V2 = kEtcPalErrOk"
    and "has_source_updated (config_callbacks config)" "has_source_expired (config_callbacks config)"
  obtains D' where "sacn_source_detector_create X V2 (Some config) (sacn_source_detector_destroy X V1 D) = (kEtcPalErrOk, D')"
    "discovery_tree D' = discovery_tree D" "discovery_mem D' = discovery_mem D" "remote D' = remote D" "context_detector D'"
    "callbacks (detector D') = config_callbacks config" "universes_per_source_max (detector D') = config_universes_per_source_max config"
proof -
  let ?r = "sacn_source_detector_create X V2 (Some config) (sacn_source_detector_destroy X V1 D)"
  note defs = sacn_source_detector_create_def sacn_source_detector_destroy_def get_sacn_source_detector_def remove_sacn_source_detector_def
    remove_source_detector_from_thread_def add_sacn_source_detector_def assign_source_detector_to_thread_def
  show ?thesis by (rule that[of "snd ?r"]) (use assms in \<open>simp_all add: defs\<close>)
qed

text \<open>
  What a detector hears and does: \<open>Inl ps\<close> are the pages of a source in order, \<open>Inr V\<close> is a tick.
\<close>

fun watch ::
    "('cid, 't, 'c, 'm, 's) detector_ext \<Rightarrow> (('tm detector_call \<times> 'cid discovery_page) list + 'tm detector_call) list \<Rightarrow>
     ('cid, 't, 'c, 'm, 's, 'tm) detector_state \<Rightarrow> (('cid, 't, 'c, 'm, 's, 'tm) detector_state \<times> 'cid detector_event list) option" where
  "watch X [] D = Some (D, [])"
| "watch X (x # xs) D =
     do {
       (D, es) \<leftarrow> (case x of Inl ps \<Rightarrow> process_pages X ps D | Inr V \<Rightarrow> process_source_detector X V D);
       (D, es') \<leftarrow> watch X xs D;
       Some (D, es @ es')
     }"

text \<open>The source with CID \<open>c\<close> repeats the list \<open>us\<close>, and no timer has expired at a tick.\<close>

definition repeats ::
    "('cid, 't, 'c, 'm, 's) detector_ext \<Rightarrow> 'cid \<Rightarrow> u16 list \<Rightarrow> ('tm detector_call \<times> 'cid discovery_page) list + 'tm detector_call \<Rightarrow> bool" where
  "repeats X c us x \<longleftrightarrow>
     (case x of
        Inl ps \<Rightarrow> (\<forall>(V, pg) \<in> set ps. page_memory X V) \<and> ps \<noteq> [] \<and> (\<exists>n. pages_from c 0 n (map snd ps)) \<and>
                  concat (map (page_list \<circ> snd) ps) = us
      | Inr V \<Rightarrow> \<forall>t. \<not> timer_expired V t)"

lemma quiet_tick:
  assumes L: "detector_laws X wft wfc wfs" and inv: "detector_inv X wft wfc wfs D" and quiet: "\<forall>t. \<not> timer_expired V t"
  shows "process_source_detector X V D = Some (D, [])"
proof (cases "cb_lock_taken V \<and> receiver_lock_taken V \<and> context_detector D")
  case True
  have none: "expired_handles X V D = []" using quiet by (simp add: expired_handles_def)
  obtain gone where "process_source_detector X V D =
      Some (remove_sources X gone (with_suppress (suppress_source_limit_exceeded_notification (detector D) \<and> expired_handles X V D = []) D),
        if has_source_expired (callbacks (detector D))
        then map (\<lambda>h. SourceExpired h (the (get_remote_source_cid (remote_lib X) (remote D) h))
                    (strncpy_bytes kSacnSourceNameMaxLen (src_name (discovery_mem D h)))) gone else [])"
    "subseq gone (expired_handles X V D)"
    using True by (auto intro: process_source_detector_spec[OF L inv, of V])
  moreover have "gone = []" using calculation(2) none by (metis list_emb_Nil2)
  ultimately show ?thesis using none by (simp add: remove_sources_def)
qed (auto simp: process_source_detector_def)

lemma watch_repeats:
  assumes L: "detector_laws X wft wfc wfs"
  shows "detector_inv X wft wfc wfs D \<Longrightarrow> known X D c = Some h \<Longrightarrow> universes_per_source_max (detector D) = 0 \<Longrightarrow>
    has_source_updated (callbacks (detector D)) \<Longrightarrow> heard X D c = (us, False) \<Longrightarrow> list_all (repeats X c us) xs \<Longrightarrow>
    \<exists>D'. watch X xs D = Some (D', []) \<and> detector_inv X wft wfc wfs D' \<and> heard X D' c = (us, False)"
proof (induction xs arbitrary: D)
  case (Cons x xs)
  show ?case
  proof (cases x)
    case (Inl ps)
    then have ps: "\<forall>(V, pg) \<in> set ps. page_memory X V" "ps \<noteq> []" "\<exists>n. pages_from c 0 n (map snd ps)" "concat (map (page_list \<circ> snd) ps) = us"
      using Cons.prems(6) by (simp_all add: repeats_def)
    obtain D1 where "process_pages X ps D = Some (D1, [])" "detector_inv X wft wfc wfs D1" "known X D1 c = Some h" "detector D1 = detector D"
      "heard X D1 c = (us, False)"
      using known_sequence[OF L Cons.prems(1-4) ps(1,2)] ps(3,4) Cons.prems(5) by auto
    then show ?thesis using Cons.IH[of D1] Cons.prems Inl by simp
  next
    case (Inr V)
    then have "process_source_detector X V D = Some (D, [])" using quiet_tick[OF L Cons.prems(1)] Cons.prems(6) by (simp add: repeats_def)
    then show ?thesis using Cons.IH[of D] Cons.prems Inr by simp
  qed
qed simp

text \<open>
  C40: A detector that is destroyed and created again does not report the sources that go on sending
  the same universes. Destroying it leaves the known sources with their lists, and creating it again
  does not look at them: a source whose list had been reported may repeat its pages any number of
  times, between any ticks at which no timer has expired; the new detector, with callbacks of its own,
  calls none of them. (Once the source has paused for so long that a tick finds its timer expired, it
  is reported as expired, and then like a new one.)
\<close>

theorem recreated_detector_stays_silent:
  assumes L: "detector_laws X wft wfc wfs" and inv: "detector_inv X wft wfc wfs D"
    and "created (detector D)" "call_initialized V1" "cb_lock_taken V1" "receiver_lock_taken V1"
    and "call_initialized V2" "receiver_lock_taken V2" "netints_result V2 = kEtcPalErrOk" "assign_result V2 = kEtcPalErrOk"
    and "has_source_updated (config_callbacks config)" "has_source_expired (config_callbacks config)"
    and "config_universes_per_source_max config = 0"
    and told: "heard X D c = (us, False)" and xs: "list_all (repeats X c us) xs"
  shows "\<exists>D2 D'. sacn_source_detector_create X V2 (Some config) (sacn_source_detector_destroy X V1 D) = (kEtcPalErrOk, D2) \<and>
    context_detector D2 \<and> callbacks (detector D2) = config_callbacks config \<and> watch X xs D2 = Some (D', []) \<and> heard X D' c = (us, False)"
proof -
  obtain D2 where D2: "sacn_source_detector_create X V2 (Some config) (sacn_source_detector_destroy X V1 D) = (kEtcPalErrOk, D2)"
    "discovery_tree D2 = discovery_tree D" "discovery_mem D2 = discovery_mem D" "remote D2 = remote D" "context_detector D2"
    "callbacks (detector D2) = config_callbacks config" "universes_per_source_max (detector D2) = config_universes_per_source_max config"
    by (rule recreate_spec[OF assms(3-12)])
  have inv2: "detector_inv X wft wfc wfs D2" by (rule detector_inv_same[OF inv D2(2-4)])
  have hd: "heard X D2 c = (us, False)" using same_sources(2)[OF D2(2-4), of X] told by simp
  then obtain h where k: "known X D2 c = Some h" by (cases "known X D2 c") (simp_all add: heard_def)
  have set: "universes_per_source_max (detector D2) = 0" "has_source_updated (callbacks (detector D2))" using D2(6,7) assms(11,13) by simp_all
  from watch_repeats[OF L inv2 k set hd xs] show ?thesis using D2(1,5,6) by blast
qed

theorem recreated_detector_stays_silent_witness:
  "\<exists>D2 D'. sacn_source_detector_create demo_detector_lib demo_detector_call (Some (demo_config 0))
       (sacn_source_detector_destroy demo_detector_lib demo_detector_call demo_knowing) = (kEtcPalErrOk, D2) \<and>
     watch demo_detector_lib [Inl [(demo_detector_call, demo_page 0 0 [1, 2])], Inr (demo_detector_call\<lparr>timer_expired := \<lambda>t. False\<rparr>),
       Inl [(demo_detector_call, demo_page 0 1 [1]), (demo_detector_call, demo_page 1 1 [2])]] D2 = Some (D', [])"
proof -
  let ?xs = "[Inl [(demo_detector_call, demo_page 0 0 [1, 2])], Inr (demo_detector_call\<lparr>timer_expired := \<lambda>t. False\<rparr>),
       Inl [(demo_detector_call, demo_page 0 1 [1]), (demo_detector_call, demo_page 1 1 [2])]]"
  have V: "call_initialized demo_detector_call" "cb_lock_taken demo_detector_call" "receiver_lock_taken demo_detector_call"
    "netints_result demo_detector_call = kEtcPalErrOk" "assign_result demo_detector_call = kEtcPalErrOk"
    by (simp_all add: demo_detector_call_def)
  have cfg: "has_source_updated (config_callbacks (demo_config 0))" "has_source_expired (config_callbacks (demo_config 0))"
    "config_universes_per_source_max (demo_config 0) = 0" by (simp_all add: demo_config_def)
  have cr: "created (detector demo_knowing)" by (simp add: demo_knowing_def demo_detector_def demo_created_def)
  have xs: "list_all (repeats demo_detector_lib 7 [1, 2]) ?xs"
    using demo_memory by (auto simp: repeats_def)
  show ?thesis
    using recreated_detector_stays_silent[OF demo_detector_laws demo_knowing_inv cr V(1,2,3) V(1,3,4,5) cfg demo_knowing_heard xs]
    by (simp del: watch.simps) blast
qed

end
