(* ===== verification/DetectorSystem.thy ===== *)
theory DetectorSystem
  imports DetectorLimits SourceProps
begin

text \<open>
  The source and the source detector together: the universe discovery packets a source multicasts
  (\<open>process_universe_discovery\<close> of source_state.c) are handed to a detector
  (\<open>handle_sacn_universe_discovery_packet\<close> of source_detector_state.c), which reports exactly the
  universes that are active.
\<close>

section \<open>Packets as pages\<close>

lemma read_universe_list_bound: "read_universe_list L buf at i n us = Some us' \<Longrightarrow> 0 < n \<Longrightarrow> at + 2 * (i + n) \<le> length buf"
proof (induction n arbitrary: i us)
  case (Suc n)
  obtain bs where bs: "get_bytes buf (at + i * 2) 2 = Some bs" "read_universe_list L buf at (i + 1) n (us[i := unpack_u16b L bs]) = Some us'"
    using Suc.prems(1) by (auto split: Option.bind_splits if_splits)
  then have "at + i * 2 + 2 \<le> length buf" by (simp add: get_bytes_def split: if_splits)
  then show ?case using Suc.IH[OF bs(2)] by (cases "n = 0") auto
qed simp

lemma unpacked_packet:
  assumes "unpack_universe_discovery True L data n = Some (Some (p, us))"
  shows "parse_sacn_universe_discovery_layer L data n = Some (Some p)"
    "\<exists>ok. parse_sacn_universe_list L data (universe_discovery.universes p) (universe_discovery.num_universes p) (replicate (universe_discovery.num_universes p) 0) = Some (ok, us)"
    "length us = universe_discovery.num_universes p" "n > 8 \<Longrightarrow> us \<noteq> [] \<Longrightarrow> 8 + 2 * length us \<le> length data"
proof -
  obtain ok us' where r: "parse_sacn_universe_discovery_layer L data n = Some (Some p)"
    "parse_sacn_universe_list L data (universe_discovery.universes p) (universe_discovery.num_universes p) (replicate (universe_discovery.num_universes p) 0) = Some (ok, us')"
    "us = take (universe_discovery.num_universes p) us'"
    using assms unfolding unpack_universe_discovery_def by (auto split: Option.bind_splits option.splits simp: Let_def)
  have len: "length us' = universe_discovery.num_universes p"
    using r(2) by (auto simp: parse_sacn_universe_list_def split: option.splits Option.bind_splits dest: read_universe_list_length)
  then have us: "us = us'" using r(3) by simp
  show "parse_sacn_universe_discovery_layer L data n = Some (Some p)" by (rule r(1))
  show "\<exists>ok. parse_sacn_universe_list L data (universe_discovery.universes p) (universe_discovery.num_universes p) (replicate (universe_discovery.num_universes p) 0) = Some (ok, us)" using r(2) us by blast
  show l: "length us = universe_discovery.num_universes p" using len us by simp
  show "8 + 2 * length us \<le> length data" if "n > 8" "us \<noteq> []"
  proof -
    have "universe_discovery.universes p = Some 8" using parse_fields(5)[OF r(1)] that(1) by simp
    then have "read_universe_list L data 8 0 (universe_discovery.num_universes p) (replicate (universe_discovery.num_universes p) 0) = Some us'"
      using r(2) by (auto simp: parse_sacn_universe_list_def split: Option.bind_splits)
    moreover have "0 < universe_discovery.num_universes p" using l that(2) by (cases us) simp_all
    ultimately show ?thesis using read_universe_list_bound[of L data 8 0 "universe_discovery.num_universes p" "replicate (universe_discovery.num_universes p) 0" us'] l by simp
  qed
qed

lemma context_kept:
  assumes "process_universe_discovery_page X V pg D = Some (D', es)"
  shows "context_detector D' = context_detector D"
proof -
  have add: "context_detector (snd (snd (add_sacn_universe_discovery_source X V c nm D))) = context_detector D" for c nm
    by (auto simp: add_sacn_universe_discovery_source_def drop_handle_def put_discovery_source_def Let_def
        split: prod.splits option.splits etcpal_error.splits)
  have "context_detector (snd (snd (snd (find_or_add_source X V pg D)))) = context_detector D"
    using add[of "sender_cid pg" "page_source_name pg"] by (auto simp: find_or_add_source_def Let_def split: prod.splits)
  then show ?thesis
    using assms by (auto simp: process_universe_discovery_page_def put_discovery_source_def
        split: prod.splits option.splits etcpal_error.splits Option.bind_splits if_splits)
qed

text \<open>Packets that are pages to the detector, one after the other.\<close>

lemma run_packets:
  assumes "\<And>k D. k \<in> set ks \<Longrightarrow> context_detector D \<Longrightarrow>
      handle_sacn_universe_discovery_packet X (V k) (data k) (length (data k)) c nm D = process_universe_discovery_page X (V k) (pg k) D"
  shows "context_detector D \<Longrightarrow>
    run_detector X (map (\<lambda>k. (V k, PacketArrives (data k) c nm)) ks) D = process_pages X (map (\<lambda>k. (V k, pg k)) ks) D"
  using assms
proof (induction ks arbitrary: D)
  case (Cons k ks)
  have h: "handle_sacn_universe_discovery_packet X (V k) (data k) (length (data k)) c nm D = process_universe_discovery_page X (V k) (pg k) D"
    using Cons.prems by simp
  show ?case
  proof (cases "process_universe_discovery_page X (V k) (pg k) D")
    case None
    then show ?thesis using h by simp
  next
    case (Some r)
    obtain D1 es where r: "r = (D1, es)" by (cases r)
    have "context_detector D1" using context_kept[OF Some[unfolded r]] Cons.prems(1) by simp
    then show ?thesis using Cons.IH[of D1] Cons.prems(2) h Some r by simp
  qed
qed simp

lemma pages_from_upt:
  assumes "\<And>k. a \<le> k \<Longrightarrow> k < b \<Longrightarrow> sender_cid (f k) = c \<and> this_page (f k) = int k \<and> final_page (f k) = int b - 1 \<and> page_ok (f k)" "a \<le> b"
  shows "pages_from c (int a) (int b - 1) (map f [a..<b])"
  using assms
proof (induction "b - a" arbitrary: a)
  case (Suc d)
  then have "a < b" by simp
  then have "[a..<b] = a # [Suc a..<b]" by (rule upt_conv_Cons)
  moreover have "pages_from c (int (Suc a)) (int b - 1) (map f [Suc a..<b])" using Suc \<open>a < b\<close> by (intro Suc.hyps(1)) auto
  ultimately show ?case using Suc.prems(1)[of a] \<open>a < b\<close> by (simp add: add.commute)
qed simp

text \<open>Only the sender and its name count for whether a page finds its source.\<close>

lemma find_or_add_sender:
  "sender_cid pg = sender_cid pg' \<Longrightarrow> page_source_name pg = page_source_name pg' \<Longrightarrow> find_or_add_source X V pg D = find_or_add_source X V pg' D"
  unfolding find_or_add_source_def by (simp only:)

section \<open>The property\<close>

text \<open>The universe list layer of a page with \<open>n\<close> universes, as the receive thread cuts it out of the packet.\<close>

definition list_layer :: "nat \<Rightarrow> u8 list \<Rightarrow> u8 list" where
  "list_layer n buf = drop 112 (take (120 + 2 * n) buf)"

text \<open>A packet of the source is a page to the detector.\<close>

lemma announced_page:
  assumes on: "cb_lock_taken V" "receiver_lock_taken V" "SACN_DYNAMIC_MEM X" "page_alloc_ok V"
    and u: "unpack_universe_discovery True (packing X) (list_layer (length us) b) (8 + 2 * length us) = Some (Some (p, us))"
    and us: "us \<noteq> []" "length us \<le> 512"
  shows "context_detector D \<Longrightarrow> handle_sacn_universe_discovery_packet X V (list_layer (length us) b) (length (list_layer (length us) b)) c nm D =
      process_universe_discovery_page X V (received_page c nm p us) D"
    "page_ok (received_page c nm p us)" "page_list (received_page c nm p us) = us"
proof -
  note U = unpacked_packet[OF u]
  have n: "8 + 2 * length us > 8" using us(1) by (cases us) simp_all
  have len: "length (list_layer (length us) b) = 8 + 2 * length us"
    using U(4)[OF n us(1)] by (simp add: list_layer_def)
  obtain ok where r: "parse_sacn_universe_list (packing X) (list_layer (length us) b) (universe_discovery.universes p) (universe_discovery.num_universes p)
      (replicate (universe_discovery.num_universes p) 0) = Some (ok, us)" using U(2) by blast
  have ne: "list_layer (length us) b \<noteq> []" using len by (cases "list_layer (length us) b") simp_all
  show "handle_sacn_universe_discovery_packet X V (list_layer (length us) b) (length (list_layer (length us) b)) c nm D =
      process_universe_discovery_page X V (received_page c nm p us) D" if "context_detector D"
    by (rule handle_packet_page[OF ne on(1,2) that on(3,4) U(1)[folded len] r])
  show "page_ok (received_page c nm p us)" "page_list (received_page c nm p us) = us"
    using received_page_ok[OF U(1) _ U(3)] U(3) us(2) by simp_all
qed

lemma concat_nth_map: "length xs = n \<Longrightarrow> concat (map ((!) xs) [0..<n]) = concat xs"
  by (metis map_nth)

lemma sorted_active: "source_inv L s \<Longrightarrow> sorted_wrt (<) (map universe_id (filter IS_PART_OF_UNIVERSE_DISCOVERY (rev (universes s))))"
  using source_inv_D(3)[of L s] by (simp add: sorted_wrt_map sorted_wrt_filter descending_def sorted_wrt_rev)

text \<open>
  C10: A detector that hears a source reports its active universes, exactly. When the discovery timer
  of a source expires and every page is taken by some interface, the source multicasts its pages on
  every one of its interfaces, and when the universe lists of these packets reach a detector in order,
  which knows the source or can add it, has no limit on universes and memory for them, then the
  detector holds exactly the universes with levels that the source sends by multicast, in
  ascending order. The application gets one call of \<open>source_updated\<close> with this list if it was not told
  it already, and none otherwise, and no packet is rejected on the way.
\<close>

theorem detector_hears_source:
  assumes L: "acn_laws (acn E)" and s: "source_inv (acn E) s" "\<not> terminating s" "timer_is_expired E (universe_discovery_timer s)"
    and taken: "\<forall>b. \<exists>n \<in> set (source_netints s). multicast_result E kSacnDiscoveryUniverse b (netint_id n) = kEtcPalErrOk"
    and uids: "uids = map universe_id (filter IS_PART_OF_UNIVERSE_DISCOVERY (rev (universes s)))" "uids \<noteq> []"
    and X: "detector_laws X wft wfc wfs" "packing X = acn E"
    and D: "detector_inv X wft wfc wfs D" "universes_per_source_max (detector D) = 0" "has_source_updated (callbacks (detector D))" "context_detector D"
    and V: "\<forall>k. page_memory X (V k) \<and> page_alloc_ok (V k) \<and> cb_lock_taken (V k) \<and> receiver_lock_taken (V k)"
    and room: "\<forall>pg. sender_cid pg = c \<and> page_source_name pg = nm \<longrightarrow> fst (find_or_add_source X (V 0) pg D) = kEtcPalErrOk"
  shows "\<exists>ok s' bs pages D'.
    process_universe_discovery E s =
      Some (ok, s', concat (map (\<lambda>b. map (\<lambda>n. SendMulticast kSacnDiscoveryUniverse (netint_id n) b) (source_netints s)) bs)) \<and>
    length pages = length bs \<and> concat pages = uids \<and> (\<forall>us \<in> set pages. us \<noteq> []) \<and>
    run_detector X (map (\<lambda>k. (V k, PacketArrives (list_layer (length (pages ! k)) (bs ! k)) c nm)) [0..<length bs]) D =
      Some (D', if heard X D c = (uids, False) then []
                else [SourceUpdated kSacnRemoteSourceInvalid c nm (Some uids) (length uids)]) \<and>
    detector_inv X wft wfc wfs D' \<and> heard X D' c = (uids, False)"
proof -
  obtain ok s' bs pages where P: "process_universe_discovery E s =
      Some (ok, s', concat (map (\<lambda>b. map (\<lambda>n. SendMulticast kSacnDiscoveryUniverse (netint_id n) b) (source_netints s)) bs))"
    "length pages = length bs" "concat pages = uids" "\<forall>us \<in> set pages. us \<noteq> [] \<and> length us \<le> 512"
    "\<forall>k < length bs. \<exists>p. unpack_universe_discovery True (acn E) (list_layer (length (pages ! k)) (bs ! k)) (8 + 2 * length (pages ! k)) =
         Some (Some (p, pages ! k)) \<and> page p = int k \<and> last_page p = int (length bs) - 1"
    using discovery_pages_roundtrip[OF L s taken, of True] unfolding uids(1) list_layer_def by blast
  obtain p where p: "\<forall>k < length bs. unpack_universe_discovery True (acn E) (list_layer (length (pages ! k)) (bs ! k)) (8 + 2 * length (pages ! k)) =
         Some (Some (p k, pages ! k)) \<and> page (p k) = int k \<and> last_page (p k) = int (length bs) - 1"
    using P(5) by metis
  define pg where "pg k = received_page c nm (p k) (pages ! k)" for k
  have dyn: "SACN_DYNAMIC_MEM X" using V by (simp add: page_memory_def)
  have "length bs \<noteq> 0" using P(2,3) uids(2) by auto
  then have ks: "[0..<length bs] \<noteq> []" "hd [0..<length bs] = 0" "last [0..<length bs] = length bs - 1" by simp_all
  have page: "context_detector D'' \<Longrightarrow> handle_sacn_universe_discovery_packet X (V k) (list_layer (length (pages ! k)) (bs ! k))
        (length (list_layer (length (pages ! k)) (bs ! k))) c nm D'' = process_universe_discovery_page X (V k) (pg k) D''"
    "page_ok (pg k)" "page_list (pg k) = pages ! k" if k: "k < length bs" for k D''
  proof -
    have u: "unpack_universe_discovery True (packing X) (list_layer (length (pages ! k)) (bs ! k)) (8 + 2 * length (pages ! k)) = Some (Some (p k, pages ! k))"
      using p k X(2) by simp
    have us: "pages ! k \<noteq> []" "length (pages ! k) \<le> 512" using P(2,4) k by simp_all
    have on: "cb_lock_taken (V k)" "receiver_lock_taken (V k)" "page_alloc_ok (V k)" using V by simp_all
    note A = announced_page[OF on(1,2) dyn on(3) u us]
    show "context_detector D'' \<Longrightarrow> handle_sacn_universe_discovery_packet X (V k) (list_layer (length (pages ! k)) (bs ! k))
        (length (list_layer (length (pages ! k)) (bs ! k))) c nm D'' = process_universe_discovery_page X (V k) (pg k) D''"
      "page_ok (pg k)" "page_list (pg k) = pages ! k"
      unfolding pg_def by (rule A(1), assumption) (rule A(2), rule A(3))
  qed
  let ?ps = "map (\<lambda>k. (V k, pg k)) [0..<length bs]"
  have run: "run_detector X (map (\<lambda>k. (V k, PacketArrives (list_layer (length (pages ! k)) (bs ! k)) c nm)) [0..<length bs]) D = process_pages X ?ps D"
    by (rule run_packets[OF _ D(4)]) (use page(1) in simp)
  have ids: "sender_cid (pg k) = c" "page_source_name (pg k) = nm" for k by (simp_all add: pg_def received_page_def)
  have "sender_cid (pg k) = c \<and> this_page (pg k) = int k \<and> final_page (pg k) = int (length bs) - 1 \<and> page_ok (pg k)" if "k < length bs" for k
    using p page(2) that by (simp add: pg_def received_page_def)
  then have "pages_from c (int 0) (int (length bs) - 1) (map pg [0..<length bs])" by (intro pages_from_upt) simp_all
  then have from0: "pages_from c 0 (int (length bs) - 1) (map snd ?ps)" by (simp add: comp_def)
  have mem: "\<forall>(V, pg) \<in> set ?ps. page_memory X V" using V by auto
  have ne: "?ps \<noteq> []" using ks(1) by simp
  have hd: "fst (find_or_add_source X (fst (hd ?ps)) (snd (hd ?ps)) D) = kEtcPalErrOk" using room ids ks by (simp add: hd_map)
  have nth: "map (page_list \<circ> snd) ?ps = map ((!) pages) [0..<length bs]" using page(3) by simp
  have list: "concat (map (page_list \<circ> snd) ?ps) = uids" unfolding nth concat_nth_map[OF P(2)] P(3) ..
  have nm: "page_source_name (snd (last ?ps)) = nm" using ids ks(1) by (simp add: last_map)
  obtain D' where D': "process_pages X ?ps D =
        Some (D', if (snd (heard X D c) \<or> uids \<noteq> fst (heard X D c)) \<and> sorted_wrt (<) uids then [update_of c nm uids] else [])"
      "detector_inv X wft wfc wfs D'" "heard X D' c = (uids, False)"
    using sequence_outcome[OF X(1) D(1-3) mem ne from0 hd] unfolding list nm by blast
  have "sorted_wrt (<) uids" unfolding uids(1) by (rule sorted_active[OF s(1)])
  then have "process_pages X ?ps D = Some (D', if heard X D c = (uids, False) then []
      else [SourceUpdated kSacnRemoteSourceInvalid c nm (Some uids) (length uids)])"
    using D'(1) uids(2) by (cases "heard X D c") (auto simp: update_of_def)
  then show ?thesis using P(1-4) run D'(2,3) by (intro exI[of _ ok] exI[of _ s'] exI[of _ bs] exI[of _ pages] exI[of _ D']) simp
qed

theorem detector_hears_source_witness:
  "\<exists>ok s' b D'. process_universe_discovery expired_env demo_sending = Some (ok, s', [SendMulticast kSacnDiscoveryUniverse (1, 0) b]) \<and>
     run_detector demo_detector_lib [(demo_detector_call, PacketArrives (list_layer 1 b) 7 [100])] demo_detector =
       Some (D', [SourceUpdated 0xFFFF 7 [100] (Some [1]) 1])"
proof -
  have E: "acn expired_env = big_endian_lib" by (simp add: expired_env_def demo_env_def)
  have n: "source_netints demo_sending = [\<lparr>netint_id = (1, 0), num_refs = 1\<rparr>]" by (simp add: demo_sending_def)
  have ids: "map universe_id (filter IS_PART_OF_UNIVERSE_DISCOVERY (rev (universes demo_sending))) = [1]"
    by (simp add: demo_sending_def demo_state_def IS_PART_OF_UNIVERSE_DISCOVERY_def)
  have X: "packing demo_detector_lib = acn expired_env" by (simp add: E demo_detector_lib_def)
  have V: "\<forall>k. page_memory demo_detector_lib ((\<lambda>k :: nat. demo_detector_call) k) \<and> page_alloc_ok ((\<lambda>k :: nat. demo_detector_call) k) \<and>
      cb_lock_taken ((\<lambda>k :: nat. demo_detector_call) k) \<and> receiver_lock_taken ((\<lambda>k :: nat. demo_detector_call) k)"
    using demo_memory by (simp add: demo_detector_call_def)
  have room: "\<forall>pg. sender_cid pg = 7 \<and> page_source_name pg = [100] \<longrightarrow>
      fst (find_or_add_source demo_detector_lib ((\<lambda>k :: nat. demo_detector_call) 0) pg demo_detector) = kEtcPalErrOk"
  proof (intro allI impI, elim conjE)
    fix pg :: "nat discovery_page" assume a: "sender_cid pg = 7" "page_source_name pg = [100]"
    have same: "find_or_add_source demo_detector_lib demo_detector_call pg demo_detector =
        find_or_add_source demo_detector_lib demo_detector_call (demo_page 0 0 []) demo_detector"
      by (rule find_or_add_sender) (use a in simp_all)
    show "fst (find_or_add_source demo_detector_lib demo_detector_call pg demo_detector) = kEtcPalErrOk"
      unfolding same by (rule demo_adds)
  qed
  have h: "heard demo_detector_lib demo_detector 7 = ([], True)" by (simp add: heard_def demo_detector_known)
  have src: "\<not> terminating demo_sending" "timer_is_expired expired_env (universe_discovery_timer demo_sending)"
    "\<forall>b. \<exists>n \<in> set [\<lparr>netint_id = (1, 0), num_refs = 1\<rparr>]. multicast_result expired_env kSacnDiscoveryUniverse b (netint_id n) = kEtcPalErrOk"
    by (simp_all add: expired_env_def demo_env_def demo_sending_def)
  have one: "[1 :: u16] \<noteq> []" by simp
  obtain ok s' bs pages D' where W: "process_universe_discovery expired_env demo_sending =
      Some (ok, s', concat (map (\<lambda>b. map (\<lambda>n. SendMulticast kSacnDiscoveryUniverse (netint_id n) b) [\<lparr>netint_id = (1, 0), num_refs = 1\<rparr>]) bs))"
    "length pages = length bs" "concat pages = [1 :: u16]" "\<forall>us \<in> set pages. us \<noteq> []"
    "run_detector demo_detector_lib (map (\<lambda>k. (demo_detector_call, PacketArrives (list_layer (length (pages ! k)) (bs ! k)) 7 [100])) [0..<length bs]) demo_detector =
      Some (D', if heard demo_detector_lib demo_detector 7 = ([1], False) then []
                else [SourceUpdated kSacnRemoteSourceInvalid 7 [100] (Some [1]) (length [1 :: u16])])"
    using detector_hears_source[of expired_env demo_sending "[1]" demo_detector_lib list_wf list_wf list_wf demo_detector
        "\<lambda>k. demo_detector_call" 7 "[100]", unfolded E n ids,
        OF big_endian_laws demo_sending_inv src(1,2,3) refl one demo_detector_laws X[unfolded E] demo_detector_inv demo_settings(1,3,6) V room]
    by blast
  have "pages = [[1 :: u16]]" using W(3,4) by (cases pages) (auto simp: append_eq_Cons_conv concat_eq_Nil_conv neq_Nil_conv)
  moreover from this obtain b where "bs = [b]" using W(2) by (cases bs) auto
  ultimately show ?thesis using W(1,5) by (simp add: kSacnRemoteSourceInvalid_def h del: run_detector.simps)
qed

end
