(* ===== verification/Receiver.thy ===== *)
theory Receiver
  imports SourceLoss Pdu
begin

text \<open>
  The receivers of the sACN library: their state and the operations of src/sACN/src/sacn/mem/receiver
  (receiver.c, tracked_source.c, sampling_period_netint.c, the list of a thread's receivers in
  recv_thread_context.c) and the parts of receiver_state.c that do not concern packets or ticks.
  \<^item> \<open>receiver_module\<close> holds the static variables: the trees of receivers by handle and by universe,
    the structs (\<open>receiver_mem\<close>), the threads, the table of remote sources, the termination sets
    of all universes (\<open>loss\<close>), and the system's network interfaces for receivers.
  \<^item> Trees hold keys; the structs are in a store beside them. What \<open>malloc\<close> leaves in a field is the
    value the store had.
  \<^item> \<open>receiver_ext\<close> is what the library is built with and on, \<open>receiver_call\<close> what the outside world
    does during one call: locks, timers, allocations, results of the socket functions.
  \<^item> A callback is an event; whether the internal or the application's callback was called is its
    first argument. Context pointers and the address a packet came from are left out.
\<close>

section \<open>State\<close>

text \<open>A network interface: IP type and index, in the order of \<open>sampling_period_netint_compare\<close>.\<close>

type_synonym netint_id = "nat \<times> u32"

record mcast_interface =
  iface :: netint_id
  netint_status :: etcpal_error

record netint_config =
  app_netints :: "mcast_interface list option"
  no_netints :: bool

datatype recv_state = kRecvStateWaitingForPap | kRecvStateHaveDmxOnly | kRecvStateHavePapOnly | kRecvStateHaveDmxAndPap

record 'tm tracked_source =
  tracked_handle :: u16
  tracked_name :: "u8 list"
  tracked_netint :: netint_id
  packet_timer :: 'tm
  tracked_seq :: u8
  tracked_terminated :: bool
  dmx_received_since_last_tick :: bool
  recv_state :: recv_state
  pap_timer :: 'tm

record receiver_callbacks =
  calls_universe_data :: bool
  calls_sources_lost :: bool
  calls_sampling_period_started :: bool
  calls_sampling_period_ended :: bool
  calls_source_pap_lost :: bool
  calls_source_limit_exceeded :: bool

record 'n sampling_netints =
  sp_tree :: 'n
  in_future_sampling_period :: "netint_id \<Rightarrow> bool"

record ('c, 'k, 'n, 'tm) receiver =
  receiver_handle :: int
  receiver_universe :: u16
  receiver_thread :: "nat option"
  receiver_netints :: "netint_id list"
  sampling :: bool
  notified_sampling_started :: bool
  sample_timer :: 'tm
  sampling_period_netints :: "'n sampling_netints"
  suppress_limit_exceeded_notification :: bool
  source_tree :: 'c
  source_mem :: "u16 \<Rightarrow> 'tm tracked_source"
  term_sets :: "('k, 'tm) termination_set list"
  filter_preview_data :: bool
  api_callbacks :: receiver_callbacks
  internal_callbacks :: receiver_callbacks
  receiver_source_max :: nat
  footprint :: SacnRecvUniverseSubrange
  receiver_ipv4 :: bool
  receiver_ipv6 :: bool

record recv_context =
  ctx_running :: bool
  ctx_receivers :: "int list"
  ctx_num_receivers :: nat

record ('cid, 't, 'c, 'm, 'k, 'n, 'h, 'tm) receiver_module =
  handle_tree_of_receivers :: 'h
  universe_tree_of_receivers :: 'c
  universe_receiver :: "u16 \<Rightarrow> int"
  receiver_mem :: "int \<Rightarrow> ('c, 'k, 'n, 'tm) receiver"
  receiver_handle_mgr :: 'm
  contexts :: "recv_context list"
  expired_wait :: u32
  receiver_sys_netints :: "mcast_interface list"
  loss :: "'k loss_state"
  remotes :: "('cid, 't, 'c, 'm) remote_table"

datatype caller = Internal | Api

datatype 'cid receiver_event =
    UniverseData caller int 'cid u16 "u8 list" SacnRecvUniverseData "u8 list"
  | SourcesLost caller int u16 "'cid lost_source list"
  | SamplingStarted caller int u16
  | SamplingEnded caller int u16
  | SourcePapLost caller int u16 u16 'cid "u8 list"
  | SourceLimitExceeded caller int u16

record ('cid, 't, 'c, 'm, 'k, 'n, 'h) receiver_ext =
  remotes_lib :: "('cid, 't, 'c, 'm) remote_ext"
  sets_rb :: "(ts_key, 'k) rbtree_ops"
  netints_rb :: "(netint_id, 'n) rbtree_ops"
  receivers_rb :: "(int, 'h) rbtree_ops"
  u16_rb :: "(u16, 'c) rbtree_ops"
  init_receiver_handles :: "int \<Rightarrow> 'm"
  next_receiver_handle :: "(int \<Rightarrow> bool) \<Rightarrow> 'm \<Rightarrow> int \<times> 'm"
  packet_lib :: acn_lib
  dynamic_mem :: bool
  priority_extension :: bool
  max_sources_per_universe :: nat
  max_netints :: nat
  ip_type_invalid :: nat

record 'tm receiver_call =
  rx_initialized :: bool
  rx_cb_lock :: bool
  rx_lock :: bool
  rx_start :: "int \<Rightarrow> 'tm"
  rx_reset :: "'tm \<Rightarrow> 'tm"
  rx_expired :: "'tm \<Rightarrow> bool"
  rx_remote_memory :: remote_alloc
  tracked_alloc_ok :: bool
  tracked_node_ok :: bool
  sp_alloc_ok :: "netint_id \<Rightarrow> bool"
  sp_node_ok :: "netint_id \<Rightarrow> bool"
  receiver_alloc_ok :: bool
  receiver_node_ok :: bool
  universe_node_ok :: bool
  netints_alloc_ok :: bool
  periodic_buffers_ok :: bool
  erase_buffer_ok :: "int \<Rightarrow> bool"
  status_room :: "u16 \<Rightarrow> bool"
  set_allocs :: "int \<Rightarrow> bool list"
  lost_capacity :: "int \<Rightarrow> nat"
  lost_realloc_ok :: "nat \<Rightarrow> bool"
  ipv4_sockets_result :: "int \<Rightarrow> etcpal_error"
  ipv6_sockets_result :: "int \<Rightarrow> etcpal_error"
  thread_start_result :: etcpal_error
  reset_sockets_result :: etcpal_error
  sys_netints_found :: "mcast_interface list"

definition kSacnReceiverInvalid :: int where "kSacnReceiverInvalid = -1"
definition kSacnReceiverInfiniteSources :: nat where "kSacnReceiverInfiniteSources = 0"
definition kSacnSourceLossTimeout :: int where "kSacnSourceLossTimeout = 2500"
definition kSacnWaitForPriority :: int where "kSacnWaitForPriority = 1500"
definition kSacnSampleTime :: int where "kSacnSampleTime = 1500"
definition kSacnDefaultExpiredWaitMs :: u32 where "kSacnDefaultExpiredWaitMs = 1000"
definition kSacnStartcodeDmx :: u8 where "kSacnStartcodeDmx = 0"
definition kSacnStartcodePriority :: u8 where "kSacnStartcodePriority = 0xdd"

text \<open>A C string in an array, the characters before the terminator.\<close>

definition c_string :: "u8 list \<Rightarrow> u8 list" where "c_string cs = takeWhile (\<lambda>c. c \<noteq> 0) cs"

definition put_receiver ::
    "('c, 'k, 'n, 'tm) receiver \<Rightarrow> ('cid, 't, 'c, 'm, 'k, 'n, 'h, 'tm) receiver_module \<Rightarrow>
     ('cid, 't, 'c, 'm, 'k, 'n, 'h, 'tm) receiver_module" where
  "put_receiver R M = M\<lparr>receiver_mem := (receiver_mem M)(receiver_handle R := R)\<rparr>"

definition put_tracked_source ::
    "u16 \<Rightarrow> 'tm tracked_source \<Rightarrow> ('c, 'k, 'n, 'tm) receiver \<Rightarrow> ('c, 'k, 'n, 'tm) receiver" where
  "put_tracked_source h src R = R\<lparr>source_mem := (source_mem R)(h := src)\<rparr>"

section \<open>Tracked sources\<close>

definition new_tracked_source ::
    "('cid, 't, 'c, 'm, 'k, 'n, 'h) receiver_ext \<Rightarrow> 'tm receiver_call \<Rightarrow> ('c, 'k, 'n, 'tm) receiver \<Rightarrow> u16 \<Rightarrow>
     u8 list \<Rightarrow> netint_id \<Rightarrow> u8 \<Rightarrow> u8 \<Rightarrow> 'tm tracked_source" where
  "new_tracked_source X V R h nm netint seq_num first_start_code =
     (let src = (source_mem R h)\<lparr>tracked_handle := h, tracked_name := c_string nm, tracked_netint := netint,
            packet_timer := rx_start V kSacnSourceLossTimeout, tracked_seq := seq_num,
            tracked_terminated := False, dmx_received_since_last_tick := True\<rparr>
      in if \<not> priority_extension X then src
         else if sampling R
         then if first_start_code = kSacnStartcodePriority
              then src\<lparr>recv_state := kRecvStateHavePapOnly, pap_timer := rx_start V kSacnSourceLossTimeout\<rparr>
              else src\<lparr>recv_state := kRecvStateHaveDmxOnly\<rparr>
         else src\<lparr>recv_state := (if first_start_code = kSacnStartcodePriority then kRecvStateHavePapOnly
                                else kRecvStateWaitingForPap),
                  pap_timer := rx_start V kSacnWaitForPriority\<rparr>)"

definition has_source_room ::
    "('cid, 't, 'c, 'm, 'k, 'n, 'h) receiver_ext \<Rightarrow> ('c, 'k, 'n, 'tm) receiver \<Rightarrow> bool" where
  "has_source_room X R =
     (let current_number_of_sources = rb_size (u16_rb X) (source_tree R) in
      if dynamic_mem X
      then receiver_source_max R = kSacnReceiverInfiniteSources \<or> current_number_of_sources < receiver_source_max R
      else current_number_of_sources <
             (if receiver_source_max R > max_sources_per_universe X \<or> receiver_source_max R = kSacnReceiverInfiniteSources
              then max_sources_per_universe X else receiver_source_max R))"

text \<open>The result has the handle of the new source.\<close>

definition add_sacn_tracked_source ::
    "('cid, 't, 'c, 'm, 'k, 'n, 'h) receiver_ext \<Rightarrow> 'tm receiver_call \<Rightarrow> 'cid \<Rightarrow> u8 list \<Rightarrow> netint_id \<Rightarrow> u8 \<Rightarrow> u8 \<Rightarrow>
     ('c, 'k, 'n, 'tm) receiver \<Rightarrow> ('cid, 't, 'c, 'm) remote_table \<Rightarrow>
     etcpal_error \<times> u16 option \<times> ('c, 'k, 'n, 'tm) receiver \<times> ('cid, 't, 'c, 'm) remote_table" where
  "add_sacn_tracked_source X V sender_cid nm netint seq_num first_start_code R T =
     (if \<not> (has_source_room X R \<and> tracked_alloc_ok V) then (kEtcPalErrNoMem, None, R, T)
      else
        let (result, h, T) = add_remote_source_handle (remotes_lib X) (rx_remote_memory V) sender_cid T;
            cleanup = (\<lambda>T. case h of None \<Rightarrow> T | Some h \<Rightarrow> snd (remove_remote_source_handle (remotes_lib X) h T))
        in case (result, h) of
             (kEtcPalErrOk, Some h) \<Rightarrow>
               let (result, t) = rb_insert (u16_rb X) (tracked_node_ok V) (source_tree R) h;
                   R = R\<lparr>source_tree := t\<rparr>
               in if result = kEtcPalErrOk
                  then (kEtcPalErrOk, Some h,
                        put_tracked_source h (new_tracked_source X V R h nm netint seq_num first_start_code) R, T)
                  else (result, None, R, cleanup T)
           | _ \<Rightarrow> (result, None, R, cleanup T))"

text \<open>\<open>tracked_source_tree_dealloc\<close> releases the handle of a removed source.\<close>

definition tracked_source_tree_dealloc ::
    "('cid, 't, 'c, 'm, 'k, 'n, 'h) receiver_ext \<Rightarrow> ('c, 'k, 'n, 'tm) receiver \<Rightarrow> u16 \<Rightarrow>
     ('cid, 't, 'c, 'm) remote_table \<Rightarrow> ('cid, 't, 'c, 'm) remote_table" where
  "tracked_source_tree_dealloc X R h T =
     snd (remove_remote_source_handle (remotes_lib X) (tracked_handle (source_mem R h)) T)"

definition remove_receiver_source ::
    "('cid, 't, 'c, 'm, 'k, 'n, 'h) receiver_ext \<Rightarrow> u16 \<Rightarrow>
     ('c, 'k, 'n, 'tm) receiver \<times> ('cid, 't, 'c, 'm) remote_table \<Rightarrow>
     ('c, 'k, 'n, 'tm) receiver \<times> ('cid, 't, 'c, 'm) remote_table" where
  "remove_receiver_source X h = (\<lambda>(R, T).
     if h = kSacnRemoteSourceInvalid then (R, T)
     else let (result, t) = rb_remove (u16_rb X) (source_tree R) h
          in (R\<lparr>source_tree := t\<rparr>, if result = kEtcPalErrOk then tracked_source_tree_dealloc X R h T else T))"

definition clear_sources ::
    "('cid, 't, 'c, 'm, 'k, 'n, 'h) receiver_ext \<Rightarrow> ('c, 'k, 'n, 'tm) receiver \<Rightarrow>
     ('cid, 't, 'c, 'm) remote_table \<Rightarrow>
     etcpal_error \<times> ('c, 'k, 'n, 'tm) receiver \<times> ('cid, 't, 'c, 'm) remote_table" where
  "clear_sources X R T =
     (let T = fold (tracked_source_tree_dealloc X R) (rb_iter (u16_rb X) (source_tree R)) T;
          (result, t) = rb_clear (u16_rb X) (source_tree R)
      in (result, R\<lparr>source_tree := t\<rparr>, T))"

definition clear_receiver_sources ::
    "('cid, 't, 'c, 'm, 'k, 'n, 'h) receiver_ext \<Rightarrow> ('c, 'k, 'n, 'tm) receiver \<Rightarrow>
     ('cid, 't, 'c, 'm) remote_table \<Rightarrow>
     etcpal_error \<times> ('c, 'k, 'n, 'tm) receiver \<times> ('cid, 't, 'c, 'm) remote_table" where
  "clear_receiver_sources X R T = clear_sources X (R\<lparr>suppress_limit_exceeded_notification := False\<rparr>) T"

section \<open>Sampling periods\<close>

definition sampling_period_netint_compare :: "netint_id \<Rightarrow> netint_id \<Rightarrow> int" where
  "sampling_period_netint_compare lhs rhs =
     (let res = of_bool (fst lhs > fst rhs) - of_bool (fst lhs < fst rhs) in
      if res = 0 then of_bool (snd lhs > snd rhs) - of_bool (snd lhs < snd rhs) else res)"

definition add_sacn_sampling_period_netint ::
    "('cid, 't, 'c, 'm, 'k, 'n, 'h) receiver_ext \<Rightarrow> 'tm receiver_call \<Rightarrow> netint_id \<Rightarrow> bool \<Rightarrow>
     'n sampling_netints \<Rightarrow> etcpal_error \<times> 'n sampling_netints" where
  "add_sacn_sampling_period_netint X V netint_id future S =
     (if \<not> sp_alloc_ok V netint_id then (kEtcPalErrNoMem, S)
      else let (result, t) = rb_insert (netints_rb X) (sp_node_ok V netint_id) (sp_tree S) netint_id;
               S = S\<lparr>sp_tree := t\<rparr>
           in if result = kEtcPalErrOk
              then (kEtcPalErrOk, S\<lparr>in_future_sampling_period := (in_future_sampling_period S)(netint_id := future)\<rparr>)
              else (if result = kEtcPalErrExists then kEtcPalErrOk else result, S))"

text \<open>The loop that removes one current interface after the other; \<open>None\<close> if it does not end.\<close>

partial_function (option) remove_current_sampling_period_netints ::
    "('cid, 't, 'c, 'm, 'k, 'n, 'h) receiver_ext \<Rightarrow> 'n sampling_netints \<Rightarrow> 'n sampling_netints option" where
  "remove_current_sampling_period_netints X S =
     (case find (\<lambda>n. \<not> in_future_sampling_period S n) (rb_iter (netints_rb X) (sp_tree S)) of
        None \<Rightarrow> Some S
      | Some n \<Rightarrow> remove_current_sampling_period_netints X (S\<lparr>sp_tree := snd (rb_remove (netints_rb X) (sp_tree S) n)\<rparr>))"

declare remove_current_sampling_period_netints.simps [code]

definition remove_sampling_period_netint ::
    "('cid, 't, 'c, 'm, 'k, 'n, 'h) receiver_ext \<Rightarrow> netint_id \<Rightarrow> 'n sampling_netints \<Rightarrow>
     etcpal_error \<times> 'n sampling_netints" where
  "remove_sampling_period_netint X netint_id S =
     (let (res, t) = rb_remove (netints_rb X) (sp_tree S) netint_id in (res, S\<lparr>sp_tree := t\<rparr>))"

definition begin_sampling_period ::
    "'tm receiver_call \<Rightarrow> ('c, 'k, 'n, 'tm) receiver \<Rightarrow> ('c, 'k, 'n, 'tm) receiver" where
  "begin_sampling_period V R =
     (if \<not> sampling R
      then R\<lparr>sampling := True, notified_sampling_started := False, sample_timer := rx_start V kSacnSampleTime\<rparr>
      else R)"

definition end_current_sampling_period ::
    "('cid, 't, 'c, 'm, 'k, 'n, 'h) receiver_ext \<Rightarrow> 'tm receiver_call \<Rightarrow> ('c, 'k, 'n, 'tm) receiver \<Rightarrow>
     ('c, 'k, 'n, 'tm) receiver option" where
  "end_current_sampling_period X V R =
     map_option (\<lambda>S.
       let R = R\<lparr>sampling_period_netints := S, sampling := False\<rparr>;
           ids = rb_iter (netints_rb X) (sp_tree S)
       in if rb_size (netints_rb X) (sp_tree S) > 0
          then begin_sampling_period V
                 (R\<lparr>sampling_period_netints := S\<lparr>in_future_sampling_period :=
                      fold (\<lambda>n future. future(n := False)) ids (in_future_sampling_period S)\<rparr>\<rparr>)
          else R)
       (remove_current_sampling_period_netints X (sampling_period_netints R))"

end
