(* ===== verification/ReceiverPackets.thy ===== *)
theory ReceiverPackets
  imports Receiver
begin

text \<open>
  What a receiver does with an sACN data packet: \<open>handle_sacn_data_packet\<close> of
  src/sACN/src/sacn/receiver_state.c and the functions it calls. A packet is looked up by its
  universe, dropped if its interface waits for a later sampling period or its sequence number is
  old, and otherwise moves the state of its source; \<open>deliver_receive_callbacks\<close> then tells the
  application, first of an exceeded limit, then of lost per-address priorities, then the data.
\<close>

section \<open>Lookups\<close>

text \<open>A pointer to a receiver is its handle.\<close>

definition lookup_receiver ::
    "('cid, 't, 'c, 'm, 'k, 'n, 'h) receiver_ext \<Rightarrow> ('cid, 't, 'c, 'm, 'k, 'n, 'h, 'tm) receiver_module \<Rightarrow> int \<Rightarrow> int option" where
  "lookup_receiver X M h = (if rb_find (receivers_rb X) (handle_tree_of_receivers M) h then Some h else None)"

definition lookup_receiver_by_universe ::
    "('cid, 't, 'c, 'm, 'k, 'n, 'h) receiver_ext \<Rightarrow> ('cid, 't, 'c, 'm, 'k, 'n, 'h, 'tm) receiver_module \<Rightarrow> u16 \<Rightarrow> int option" where
  "lookup_receiver_by_universe X M universe =
     (if rb_find (u16_rb X) (universe_tree_of_receivers M) universe then Some (universe_receiver M universe) else None)"

section \<open>Delivery\<close>

text \<open>The internal callback is called before the application's.\<close>

definition deliver :: "bool \<Rightarrow> bool \<Rightarrow> (caller \<Rightarrow> 'cid receiver_event) \<Rightarrow> 'cid receiver_event list" where
  "deliver internal api ev = (if internal then [ev Internal] else []) @ (if api then [ev Api] else [])"

definition to_callbacks ::
    "(receiver_callbacks \<Rightarrow> bool) \<Rightarrow> ('c, 'k, 'n, 'tm) receiver \<Rightarrow> (caller \<Rightarrow> 'cid receiver_event) \<Rightarrow> 'cid receiver_event list" where
  "to_callbacks calls R ev = deliver (calls (internal_callbacks R)) (calls (api_callbacks R)) ev"

section \<open>Known sources\<close>

definition check_sequence :: "u8 \<Rightarrow> u8 \<Rightarrow> bool" where
  "check_sequence new_seq old_seq \<longleftrightarrow>
     (let seqnum_cmp = uint new_seq - uint old_seq in seqnum_cmp > 0 \<or> seqnum_cmp \<le> -20)"

definition mark_source_terminated :: "'tm receiver_call \<Rightarrow> 'tm tracked_source \<Rightarrow> 'tm tracked_source" where
  "mark_source_terminated V src = src\<lparr>tracked_terminated := True, packet_timer := rx_start V 0\<rparr>"

text \<open>The results: the source, the notification of lost per-address priorities, \<open>notify\<close>.\<close>

definition process_null_start_code ::
    "('cid, 't, 'c, 'm, 'k, 'n, 'h) receiver_ext \<Rightarrow> 'tm receiver_call \<Rightarrow> ('c, 'k, 'n, 'tm) receiver \<Rightarrow>
     ('cid, 't, 'c, 'm) remote_table \<Rightarrow> 'tm tracked_source \<Rightarrow> 'tm tracked_source \<times> 'cid receiver_event list \<times> bool" where
  "process_null_start_code X V R T src =
     (let src = src\<lparr>dmx_received_since_last_tick := True, packet_timer := rx_start V kSacnSourceLossTimeout\<rparr> in
      if \<not> priority_extension X then (src, [], True)
      else case recv_state src of
             kRecvStateHavePapOnly \<Rightarrow> (src\<lparr>recv_state := kRecvStateHaveDmxAndPap\<rparr>, [], True)
           | kRecvStateWaitingForPap \<Rightarrow>
               if rx_expired V (pap_timer src)
               then (src\<lparr>recv_state := kRecvStateHaveDmxOnly, pap_timer := rx_start V kSacnSourceLossTimeout\<rparr>, [], True)
               else (src, [], False)
           | kRecvStateHaveDmxOnly \<Rightarrow> (src, [], True)
           | kRecvStateHaveDmxAndPap \<Rightarrow>
               if rx_expired V (pap_timer src)
               then (src\<lparr>recv_state := kRecvStateHaveDmxOnly\<rparr>,
                     case get_remote_source_cid (remotes_lib X) T (tracked_handle src) of
                       None \<Rightarrow> []
                     | Some cid \<Rightarrow>
                         to_callbacks calls_source_pap_lost R
                           (\<lambda>w. SourcePapLost w (receiver_handle R) (receiver_universe R) (tracked_handle src) cid
                                  (tracked_name src)), True)
               else (src, [], True))"

definition process_pap :: "'tm receiver_call \<Rightarrow> 'tm tracked_source \<Rightarrow> 'tm tracked_source" where
  "process_pap V src =
     (case recv_state src of
        kRecvStateWaitingForPap \<Rightarrow> src\<lparr>recv_state := kRecvStateHaveDmxAndPap, pap_timer := rx_start V kSacnSourceLossTimeout\<rparr>
      | kRecvStateHaveDmxOnly \<Rightarrow> src\<lparr>recv_state := kRecvStateHaveDmxAndPap, pap_timer := rx_start V kSacnSourceLossTimeout\<rparr>
      | kRecvStateHaveDmxAndPap \<Rightarrow> src\<lparr>pap_timer := rx_reset V (pap_timer src)\<rparr>
      | kRecvStateHavePapOnly \<Rightarrow> src\<lparr>pap_timer := rx_reset V (pap_timer src)\<rparr>)"

text \<open>
  A packet of a source that is tracked: the source, and, unless the packet is dropped, the
  notification of lost priorities and \<open>notify\<close>.
\<close>

definition process_known_source_data ::
    "('cid, 't, 'c, 'm, 'k, 'n, 'h) receiver_ext \<Rightarrow> 'tm receiver_call \<Rightarrow> netint_id \<Rightarrow> parsed_data \<Rightarrow>
     ('c, 'k, 'n, 'tm) receiver \<Rightarrow> ('cid, 't, 'c, 'm) remote_table \<Rightarrow> 'tm tracked_source \<Rightarrow>
     'tm tracked_source \<times> ('cid receiver_event list \<times> bool) option" where
  "process_known_source_data X V netint p R T src =
     (if tracked_netint src \<noteq> netint \<and> \<not> sampling R then (src, None)
      else
        let src = src\<lparr>tracked_netint := netint\<rparr>;
            src = (if parsed_data.terminated p then mark_source_terminated V src else src)
        in if tracked_terminated src then (src, None)
           else if \<not> check_sequence (seq p) (tracked_seq src) then (src, None)
           else
             let src = src\<lparr>tracked_seq := seq p\<rparr>;
                 code = start_code (universe_data p)
             in if code = kSacnStartcodeDmx
                then let (src, lost, notify) = process_null_start_code X V R T src in (src, Some (lost, notify))
                else if priority_extension X \<and> code = kSacnStartcodePriority then (process_pap V src, Some ([], True))
                else (src, Some ([], code \<noteq> kSacnStartcodePriority)))"

section \<open>New sources\<close>

text \<open>
  The results: the receiver, the remote sources, the handle of the new source, the notification
  of an exceeded limit, \<open>notify\<close>.
\<close>

definition process_new_source_data ::
    "('cid, 't, 'c, 'm, 'k, 'n, 'h) receiver_ext \<Rightarrow> 'tm receiver_call \<Rightarrow> 'cid \<Rightarrow> netint_id \<Rightarrow> parsed_data \<Rightarrow>
     ('c, 'k, 'n, 'tm) receiver \<Rightarrow> ('cid, 't, 'c, 'm) remote_table \<Rightarrow>
     ('c, 'k, 'n, 'tm) receiver \<times> ('cid, 't, 'c, 'm) remote_table \<times> u16 option \<times> 'cid receiver_event list \<times> bool" where
  "process_new_source_data X V cid netint p R T =
     (let code = start_code (universe_data p) in
      if code \<noteq> kSacnStartcodeDmx \<and> \<not> (priority_extension X \<and> code = kSacnStartcodePriority)
      then (R, T, None, [], False)
      else
        let (result, new_source, R, T) =
              add_sacn_tracked_source X V cid (name (source_info p)) netint (seq p) code R T
        in if result = kEtcPalErrOk
           then (R, T, new_source, [], \<not> (priority_extension X \<and> code = kSacnStartcodeDmx \<and> \<not> sampling R))
           else if \<not> suppress_limit_exceeded_notification R
           then (R\<lparr>suppress_limit_exceeded_notification := True\<rparr>, T, new_source,
                 to_callbacks calls_source_limit_exceeded R
                   (\<lambda>w. SourceLimitExceeded w (receiver_handle R) (receiver_universe R)), True)
           else (R, T, new_source, [], True))"

section \<open>Data packets\<close>

text \<open>
  The data that is delivered: the receiver's universe, whether the interface is in the sampling
  period, and at most the footprint's number of slots. The last component holds these slots.
\<close>

definition delivered_data ::
    "('c, 'k, 'n, 'tm) receiver \<Rightarrow> bool \<Rightarrow> SacnRecvUniverseData \<Rightarrow> SacnRecvUniverseData" where
  "delivered_data R in_sampling_period ud =
     ud\<lparr>universe_id := receiver_universe R, is_sampling := in_sampling_period,
        slot_range := (if address_count (slot_range ud) > address_count (footprint R)
                       then (slot_range ud)\<lparr>address_count := address_count (footprint R)\<rparr> else slot_range ud)\<rparr>"

definition universe_data_events ::
    "'cid \<Rightarrow> u8 list \<Rightarrow> bool \<Rightarrow> parsed_data \<Rightarrow> ('c, 'k, 'n, 'tm) receiver \<Rightarrow> u16 \<Rightarrow> bool \<Rightarrow> 'cid receiver_event list" where
  "universe_data_events cid data in_sampling_period p R h notify =
     (if notify \<and> \<not> (preview (universe_data p) \<and> filter_preview_data R)
      then let ud = delivered_data R in_sampling_period (universe_data p)
           in to_callbacks calls_universe_data R
                (\<lambda>w. UniverseData w (receiver_handle R) cid h (c_string (name (source_info p))) ud
                       (take (nat (address_count (slot_range ud))) (drop (slot_values ud) data)))
      else [])"

text \<open>The \<open>memset\<close> to 0 of the notification that the parser fills in.\<close>

definition blank_parsed_data :: parsed_data where
  "blank_parsed_data =
     \<lparr>source_info = \<lparr>SacnRemoteSource.source_handle = 0, SacnRemoteSource.source_cid = [], name = replicate kSacnSourceNameMaxLen 0\<rparr>,
      seq = 0, parsed_data.terminated = False,
      universe_data = \<lparr>universe_id = 0, priority = 0, preview = False, is_sampling = False, start_code = 0,
        slot_range = \<lparr>start_address = 0, address_count = 0\<rparr>, slot_values = 0\<rparr>\<rparr>"

text \<open>A parsed packet for the receiver of its universe.\<close>

definition receive_data ::
    "('cid, 't, 'c, 'm, 'k, 'n, 'h) receiver_ext \<Rightarrow> 'tm receiver_call \<Rightarrow> u8 list \<Rightarrow> 'cid \<Rightarrow> netint_id \<Rightarrow> parsed_data \<Rightarrow>
     ('c, 'k, 'n, 'tm) receiver \<Rightarrow> ('cid, 't, 'c, 'm, 'k, 'n, 'h, 'tm) receiver_module \<Rightarrow>
     ('cid, 't, 'c, 'm, 'k, 'n, 'h, 'tm) receiver_module \<times> 'cid receiver_event list" where
  "receive_data X V data cid netint p R M =
     (let S = sampling_period_netints R;
          sp_netint = rb_find (netints_rb X) (sp_tree S) netint
      in if sp_netint \<and> in_future_sampling_period S netint then (M, [])
         else
           let h = get_remote_source_handle (remotes_lib X) (remotes M) cid in
           if rb_find (u16_rb X) (source_tree R) h
           then case process_known_source_data X V netint p R (remotes M) (source_mem R h) of
                  (src, outcome) \<Rightarrow>
                    (put_receiver (put_tracked_source h src R) M,
                     case outcome of None \<Rightarrow> []
                     | Some (lost, notify) \<Rightarrow> lost @ universe_data_events cid data sp_netint p R h notify)
           else if parsed_data.terminated p then (M, [])
           else case process_new_source_data X V cid netint p R (remotes M) of
                  (R', T, source, limit, notify) \<Rightarrow>
                    (put_receiver R' (M\<lparr>remotes := T\<rparr>),
                     limit @ (case source of None \<Rightarrow> []
                              | Some h \<Rightarrow> universe_data_events cid data sp_netint p R' h notify)))"

definition handle_sacn_data_packet ::
    "('cid, 't, 'c, 'm, 'k, 'n, 'h) receiver_ext \<Rightarrow> 'tm receiver_call \<Rightarrow> nat \<Rightarrow> u8 list \<Rightarrow> nat \<Rightarrow> 'cid \<Rightarrow> netint_id \<Rightarrow>
     ('cid, 't, 'c, 'm, 'k, 'n, 'h, 'tm) receiver_module \<Rightarrow>
     (('cid, 't, 'c, 'm, 'k, 'n, 'h, 'tm) receiver_module \<times> 'cid receiver_event list) option" where
  "handle_sacn_data_packet X V thread data datalen cid netint M =
     (if \<not> rx_cb_lock V \<or> \<not> thread < length (contexts M) then Some (M, [])
      else do {
        (parse_res, p) \<leftarrow> parse_sacn_data_packet (packet_lib X) data datalen blank_parsed_data;
        if \<not> parse_res \<or> (\<not> priority_extension X \<and> start_code (universe_data p) = kSacnStartcodePriority) \<or> \<not> rx_lock V
        then Some (M, [])
        else case lookup_receiver_by_universe X M (universe_id (universe_data p)) of
               None \<Rightarrow> Some (M, [])
             | Some h \<Rightarrow> Some (receive_data X V data cid netint p (receiver_mem M h) M)
      })"

end
