(* ===== verification/ReceiverTick.thy ===== *)
theory ReceiverTick
  imports ReceiverPackets
begin

text \<open>
  The periodic work of a receiver thread: \<open>process_receivers\<close> of
  src/sACN/src/sacn/receiver_state.c and the functions it calls, with the status lists of
  mem/receiver/status_lists.c. Sampling periods end, sources are checked for their timeouts, and
  those that are gone are handed to the tracking of lost sources (\<open>SourceLoss\<close>).
  \<^item> Whether a status list has room for a source, whether the buffers of a tick can be had, the
    results of the allocations of termination sets, and the capacity of the notification's buffer
    are parts of \<open>receiver_call\<close>.
\<close>

section \<open>Status lists\<close>

record status_lists =
  offline_sources :: "lost_source_internal list"
  online_sources :: "remote_source_internal list"
  unknown_sources :: "remote_source_internal list"

definition zero_status_lists :: status_lists where
  "zero_status_lists = \<lparr>offline_sources = [], online_sources = [], unknown_sources = []\<rparr>"

definition add_offline_source ::
    "'tm receiver_call \<Rightarrow> u16 \<Rightarrow> u8 list \<Rightarrow> bool \<Rightarrow> status_lists \<Rightarrow> bool \<times> status_lists" where
  "add_offline_source V h nm term sl =
     (if h = kSacnRemoteSourceInvalid \<or> \<not> status_room V h then (False, sl)
      else (True, sl\<lparr>offline_sources := offline_sources sl @ [\<lparr>lost_handle = h, lost_name = nm, lost_terminated = term\<rparr>]\<rparr>))"

definition add_online_source ::
    "'tm receiver_call \<Rightarrow> u16 \<Rightarrow> u8 list \<Rightarrow> status_lists \<Rightarrow> bool \<times> status_lists" where
  "add_online_source V h nm sl =
     (if h = kSacnRemoteSourceInvalid \<or> \<not> status_room V h then (False, sl)
      else (True, sl\<lparr>online_sources := online_sources sl @ [\<lparr>remote_handle = h, remote_name = nm\<rparr>]\<rparr>))"

definition add_unknown_source ::
    "'tm receiver_call \<Rightarrow> u16 \<Rightarrow> u8 list \<Rightarrow> status_lists \<Rightarrow> bool \<times> status_lists" where
  "add_unknown_source V h nm sl =
     (if h = kSacnRemoteSourceInvalid \<or> \<not> status_room V h then (False, sl)
      else (True, sl\<lparr>unknown_sources := unknown_sources sl @ [\<lparr>remote_handle = h, remote_name = nm\<rparr>]\<rparr>))"

section \<open>Timeouts\<close>

definition update_source_status ::
    "'tm receiver_call \<Rightarrow> 'tm tracked_source \<Rightarrow> status_lists \<Rightarrow> 'tm tracked_source \<times> status_lists" where
  "update_source_status V src sl =
     (if rx_expired V (packet_timer src)
      then (src, snd (add_offline_source V (tracked_handle src) (tracked_name src) (tracked_terminated src) sl))
      else if dmx_received_since_last_tick src
      then (src\<lparr>dmx_received_since_last_tick := False\<rparr>,
            snd (add_online_source V (tracked_handle src) (tracked_name src) sl))
      else (src, snd (add_unknown_source V (tracked_handle src) (tracked_name src) sl)))"

text \<open>The first result is false when the source is to be removed at once.\<close>

definition check_source_timeouts ::
    "('cid, 't, 'c, 'm, 'k, 'n, 'h) receiver_ext \<Rightarrow> 'tm receiver_call \<Rightarrow> 'tm tracked_source \<Rightarrow> status_lists \<Rightarrow>
     bool \<times> 'tm tracked_source \<times> status_lists" where
  "check_source_timeouts X V src sl =
     (if priority_extension X \<and> recv_state src = kRecvStateWaitingForPap
      then (\<not> rx_expired V (packet_timer src), src, sl)
      else (True, update_source_status V src sl))"

text \<open>The loop over the sources: those to erase, the status lists, the receiver.\<close>

definition check_source ::
    "('cid, 't, 'c, 'm, 'k, 'n, 'h) receiver_ext \<Rightarrow> 'tm receiver_call \<Rightarrow> u16 \<Rightarrow>
     u16 list \<times> status_lists \<times> ('c, 'k, 'n, 'tm) receiver \<Rightarrow>
     u16 list \<times> status_lists \<times> ('c, 'k, 'n, 'tm) receiver" where
  "check_source X V h = (\<lambda>(to_erase, sl, R).
     let (keep, src, sl) = check_source_timeouts X V (source_mem R h) sl
     in (if keep then to_erase else to_erase @ [tracked_handle src], sl, put_tracked_source h src R))"

section \<open>Lost sources\<close>

text \<open>What the tracking of lost sources uses: its trees, the timers, and the CIDs of the remote sources.\<close>

definition loss_environment ::
    "('cid, 't, 'c, 'm, 'k, 'n, 'h) receiver_ext \<Rightarrow> 'tm receiver_call \<Rightarrow> ('cid, 't, 'c, 'm) remote_table \<Rightarrow>
     ('k, 'tm, 'cid) loss_ext" where
  "loss_environment X V T =
     \<lparr>set_tree = sets_rb X, timer_start = (\<lambda>ms. rx_start V (uint ms)), timer_is_expired = rx_expired V,
      remote_source_cid = get_remote_source_cid (remotes_lib X) T, dynamic_buffers = dynamic_mem X,
      max_lost_sources = max_sources_per_universe X, realloc_ok = lost_realloc_ok V\<rparr>"

definition process_receiver_sources ::
    "('cid, 't, 'c, 'm, 'k, 'n, 'h) receiver_ext \<Rightarrow> 'tm receiver_call \<Rightarrow> ('c, 'k, 'n, 'tm) receiver \<Rightarrow>
     ('cid, 't, 'c, 'm, 'k, 'n, 'h, 'tm) receiver_module \<Rightarrow>
     (('cid, 't, 'c, 'm, 'k, 'n, 'h, 'tm) receiver_module \<times> 'cid receiver_event list) option" where
  "process_receiver_sources X V R M =
     (if \<not> erase_buffer_ok V (receiver_handle R) then Some (put_receiver R M, [])
      else
        let (to_erase, sl, R) =
              fold (check_source X V) (rb_iter (u16_rb X) (source_tree R)) ([], zero_status_lists, R);
            E = loss_environment X V (remotes M);
            u = receiver_universe R;
            (res, st, sets) = mark_sources_offline E u (offline_sources sl) (unknown_sources sl) (expired_wait M)
                                ((loss M)\<lparr>allocs := set_allocs V (receiver_handle R)\<rparr>) (term_sets R);
            (st, sets) = mark_sources_online E u (online_sources sl) (st, sets)
        in do {
          (st, sets, lost) \<leftarrow> get_expired_sources E st sets
                              \<lparr>items = [], capacity = lost_capacity V (receiver_handle R)\<rparr>;
          let R = R\<lparr>term_sets := sets\<rparr>;
          let (R, T) = fold (remove_receiver_source X) to_erase (R, remotes M);
          let (R, T) = (if items lost \<noteq> []
                        then let (R, T) = fold (\<lambda>l. remove_receiver_source X (lost_source.source_handle l)) (items lost) (R, T)
                             in (R\<lparr>suppress_limit_exceeded_notification := False\<rparr>, T)
                        else (R, T));
          Some (put_receiver R (M\<lparr>loss := st, remotes := T\<rparr>),
                if items lost \<noteq> []
                then to_callbacks calls_sources_lost R (\<lambda>w. SourcesLost w (receiver_handle R) u (items lost)) else [])
        })"

section \<open>The tick\<close>

text \<open>
  One receiver of the thread. The events of ended and of started sampling periods and of lost
  sources are collected in three lists.
\<close>

definition process_receiver ::
    "('cid, 't, 'c, 'm, 'k, 'n, 'h) receiver_ext \<Rightarrow> 'tm receiver_call \<Rightarrow> int \<Rightarrow>
     ('cid, 't, 'c, 'm, 'k, 'n, 'h, 'tm) receiver_module \<Rightarrow>
     (('cid, 't, 'c, 'm, 'k, 'n, 'h, 'tm) receiver_module \<times>
      'cid receiver_event list \<times> 'cid receiver_event list \<times> 'cid receiver_event list) option" where
  "process_receiver X V h M =
     (let R = receiver_mem M h; ending = sampling R \<and> rx_expired V (sample_timer R) in
      do {
        R \<leftarrow> (if ending then end_current_sampling_period X V R else Some R);
        let started = \<not> notified_sampling_started R;
        let R = R\<lparr>notified_sampling_started := True\<rparr>;
        (M, lost) \<leftarrow> process_receiver_sources X V R M;
        Some (M,
          if ending then to_callbacks calls_sampling_period_ended R
                           (\<lambda>w. SamplingEnded w (receiver_handle R) (receiver_universe R)) else [],
          if started then to_callbacks calls_sampling_period_started R
                            (\<lambda>w. SamplingStarted w (receiver_handle R) (receiver_universe R)) else [],
          lost)
      })"

fun process_receiver_list ::
    "('cid, 't, 'c, 'm, 'k, 'n, 'h) receiver_ext \<Rightarrow> 'tm receiver_call \<Rightarrow> int list \<Rightarrow>
     ('cid, 't, 'c, 'm, 'k, 'n, 'h, 'tm) receiver_module \<Rightarrow>
     (('cid, 't, 'c, 'm, 'k, 'n, 'h, 'tm) receiver_module \<times>
      'cid receiver_event list \<times> 'cid receiver_event list \<times> 'cid receiver_event list) option" where
  "process_receiver_list X V [] M = Some (M, [], [], [])"
| "process_receiver_list X V (h # hs) M =
     do {
       (M, ended, started, lost) \<leftarrow> process_receiver X V h M;
       (M, ended', started', lost') \<leftarrow> process_receiver_list X V hs M;
       Some (M, ended @ ended', started @ started', lost @ lost')
     }"

text \<open>
  The arrays of notifications have \<open>num_receivers\<close> entries, one for each receiver of the thread's
  list at most: a longer list would be written behind their end.
\<close>

definition process_receivers ::
    "('cid, 't, 'c, 'm, 'k, 'n, 'h) receiver_ext \<Rightarrow> 'tm receiver_call \<Rightarrow> nat \<Rightarrow>
     ('cid, 't, 'c, 'm, 'k, 'n, 'h, 'tm) receiver_module \<Rightarrow>
     (('cid, 't, 'c, 'm, 'k, 'n, 'h, 'tm) receiver_module \<times> 'cid receiver_event list) option" where
  "process_receivers X V thread M =
     (if \<not> rx_cb_lock V \<or> \<not> rx_lock V \<or> \<not> thread < length (contexts M) \<or> \<not> periodic_buffers_ok V then Some (M, [])
      else
        let context = contexts M ! thread in
        if length (ctx_receivers context) > ctx_num_receivers context then None
        else map_option (\<lambda>(M, ended, started, lost). (M, ended @ started @ lost))
               (process_receiver_list X V (ctx_receivers context) M))"

end
