(* ===== verification/ReceiverNetints.thy ===== *)
theory ReceiverNetints
  imports Receiver
begin

text \<open>
  The network interfaces of a receiver: the functions of src/sACN/src/sacn/sockets.c that choose
  them from the application's list or the system's and schedule the new ones for a sampling period.
  An array with a null pointer is \<open>None\<close>; a list without a null pointer has at least one entry or
  is refused. The status codes are written into the configuration, which is a result.
\<close>

section \<open>Validation\<close>

definition netint_id_index_in_array :: "netint_id \<Rightarrow> mcast_interface list \<Rightarrow> int" where
  "netint_id_index_in_array netint_id array =
     (case find (\<lambda>i. iface (array ! i) = netint_id) [0..<length array] of None \<Rightarrow> -1 | Some i \<Rightarrow> int i)"

definition netints_valid ::
    "('cid, 't, 'c, 'm, 'k, 'n, 'h) receiver_ext \<Rightarrow> mcast_interface list option \<Rightarrow> bool" where
  "netints_valid X netints \<longleftrightarrow>
     (case netints of None \<Rightarrow> True
      | Some ns \<Rightarrow> ns \<noteq> [] \<and> list_all (\<lambda>n. snd (iface n) \<noteq> 0 \<and> fst (iface n) \<noteq> ip_type_invalid X) ns)"

definition validated_status ::
    "('cid, 't, 'c, 'm, 'k, 'n, 'h) receiver_ext \<Rightarrow> mcast_interface list \<Rightarrow> bool \<Rightarrow> mcast_interface \<Rightarrow> mcast_interface" where
  "validated_status X sys_netints none n =
     n\<lparr>netint_status :=
        (if \<not> none \<and> netints_valid X (Some [n])
         then let i = netint_id_index_in_array (iface n) sys_netints in
              if i = -1 then kEtcPalErrNotFound else netint_status (sys_netints ! nat i)
         else kEtcPalErrInvalid)\<rparr>"

definition valid_netints :: "mcast_interface list \<Rightarrow> nat" where
  "valid_netints ns = length (filter (\<lambda>n. netint_status n = kEtcPalErrOk) ns)"

text \<open>The results: the error, \<open>num_valid_netints\<close>, and the configuration with its status codes.\<close>

definition sacn_validate_netint_config ::
    "('cid, 't, 'c, 'm, 'k, 'n, 'h) receiver_ext \<Rightarrow> netint_config option \<Rightarrow> mcast_interface list \<Rightarrow>
     etcpal_error \<times> nat \<times> netint_config option" where
  "sacn_validate_netint_config X config sys_netints =
     (let verdict = (\<lambda>n. if n > 0 \<or> (\<exists>c \<in> set_option config. no_netints c) then kEtcPalErrOk else kEtcPalErrNoNetints)
      in case config of
           None \<Rightarrow> (verdict (valid_netints sys_netints), valid_netints sys_netints, None)
         | Some c \<Rightarrow>
             (case app_netints c of
                None \<Rightarrow> let n = (if \<not> no_netints c then valid_netints sys_netints else 0) in (verdict n, n, config)
              | Some ns \<Rightarrow>
                  if \<not> dynamic_mem X \<and> length ns > max_netints X then (kEtcPalErrNoMem, 0, config)
                  else let ns = map (validated_status X sys_netints (no_netints c)) ns
                       in (verdict (valid_netints ns), valid_netints ns, Some (c\<lparr>app_netints := Some ns\<rparr>))))"

text \<open>The interfaces that a configuration stands for.\<close>

definition chosen_netints :: "netint_config option \<Rightarrow> mcast_interface list \<Rightarrow> mcast_interface list" where
  "chosen_netints config sys_netints =
     (case config of None \<Rightarrow> sys_netints
      | Some c \<Rightarrow> if no_netints c then []
                  else (case app_netints c of None \<Rightarrow> sys_netints | Some ns \<Rightarrow> ns))"

section \<open>The sampling period of new interfaces\<close>

fun add_new_netints ::
    "('cid, 't, 'c, 'm, 'k, 'n, 'h) receiver_ext \<Rightarrow> 'tm receiver_call \<Rightarrow> netint_id list \<Rightarrow> bool \<Rightarrow>
     mcast_interface list \<Rightarrow> 'n sampling_netints \<Rightarrow> etcpal_error \<times> 'n sampling_netints" where
  "add_new_netints X V current future [] S = (kEtcPalErrOk, S)"
| "add_new_netints X V current future (n # ns) S =
     (if netint_status n \<noteq> kEtcPalErrOk \<or> iface n \<in> set current then add_new_netints X V current future ns S
      else let (res, S) = add_sacn_sampling_period_netint X V (iface n) future S
           in if res = kEtcPalErrOk then add_new_netints X V current future ns S else (res, S))"

fun remove_old_netints ::
    "('cid, 't, 'c, 'm, 'k, 'n, 'h) receiver_ext \<Rightarrow> mcast_interface list \<Rightarrow> netint_id list \<Rightarrow>
     'n sampling_netints \<Rightarrow> etcpal_error \<times> 'n sampling_netints" where
  "remove_old_netints X netints [] S = (kEtcPalErrOk, S)"
| "remove_old_netints X netints (n # ns) S =
     (if n \<in> iface ` set netints then remove_old_netints X netints ns S
      else let (res, S) = remove_sampling_period_netint X n S
           in if res = kEtcPalErrOk \<or> res = kEtcPalErrNotFound then remove_old_netints X netints ns S else (res, S))"

definition update_sampling_period_netints ::
    "('cid, 't, 'c, 'm, 'k, 'n, 'h) receiver_ext \<Rightarrow> 'tm receiver_call \<Rightarrow> netint_id list \<Rightarrow> bool \<Rightarrow>
     mcast_interface list \<Rightarrow> 'n sampling_netints \<Rightarrow> etcpal_error \<times> 'n sampling_netints" where
  "update_sampling_period_netints X V current currently_sampling netints S =
     (let (res, S) = add_new_netints X V current currently_sampling netints S
      in if res = kEtcPalErrOk \<and> currently_sampling then remove_old_netints X netints current S else (res, S))"

section \<open>The interfaces of a receiver\<close>

text \<open>
  The loop that copies the valid interfaces without duplicates; \<open>room\<close> is the number of entries
  that were allocated. \<open>None\<close> is a write behind them.
\<close>

fun copy_netints ::
    "('cid, 't, 'c, 'm, 'k, 'n, 'h) receiver_ext \<Rightarrow> nat \<Rightarrow> mcast_interface list \<Rightarrow> netint_id list \<Rightarrow>
     (etcpal_error \<times> netint_id list) option" where
  "copy_netints X room [] copied = Some (kEtcPalErrOk, copied)"
| "copy_netints X room (n # ns) copied =
     (if \<not> dynamic_mem X \<and> length copied \<ge> max_netints X then Some (kEtcPalErrNoMem, copied)
      else if netint_status n = kEtcPalErrOk \<and> iface n \<notin> set copied
      then if length copied < room then copy_netints X room ns (copied @ [iface n]) else None
      else copy_netints X room ns copied)"

definition sacn_initialize_internal_netints ::
    "('cid, 't, 'c, 'm, 'k, 'n, 'h) receiver_ext \<Rightarrow> 'tm receiver_call \<Rightarrow> netint_config option \<Rightarrow> nat \<Rightarrow>
     mcast_interface list \<Rightarrow> (etcpal_error \<times> netint_id list) option" where
  "sacn_initialize_internal_netints X V config num_valid sys_netints =
     (let none = (\<exists>c \<in> set_option config. no_netints c) in
      if dynamic_mem X \<and> \<not> none \<and> \<not> netints_alloc_ok V then Some (kEtcPalErrNoMem, [])
      else copy_netints X (if dynamic_mem X then (if none then 0 else num_valid) else max_netints X)
             (chosen_netints config sys_netints) [])"

text \<open>
  The results: the error, the receiver's interfaces, and its sampling period.
\<close>

definition sacn_initialize_receiver_netints ::
    "('cid, 't, 'c, 'm, 'k, 'n, 'h) receiver_ext \<Rightarrow> 'tm receiver_call \<Rightarrow> netint_config option \<Rightarrow> mcast_interface list \<Rightarrow>
     bool \<Rightarrow> netint_id list \<Rightarrow> 'n sampling_netints \<Rightarrow>
     (etcpal_error \<times> netint_id list \<times> 'n sampling_netints) option" where
  "sacn_initialize_receiver_netints X V config sys_netints currently_sampling current S =
     (let (res, num_valid, config) = sacn_validate_netint_config X config sys_netints in
      if res \<noteq> kEtcPalErrOk then Some (res, current, S)
      else let (res, S) = update_sampling_period_netints X V current currently_sampling
                            (chosen_netints config sys_netints) S
           in if res \<noteq> kEtcPalErrOk then Some (res, current, S)
              else map_option (\<lambda>(res, ns). (res, ns, S))
                     (sacn_initialize_internal_netints X V config num_valid sys_netints))"

fun add_all_netints ::
    "('cid, 't, 'c, 'm, 'k, 'n, 'h) receiver_ext \<Rightarrow> 'tm receiver_call \<Rightarrow> netint_id list \<Rightarrow>
     'n sampling_netints \<Rightarrow> etcpal_error \<times> 'n sampling_netints" where
  "add_all_netints X V [] S = (kEtcPalErrOk, S)"
| "add_all_netints X V (n # ns) S =
     (let (res, S) = add_sacn_sampling_period_netint X V n False S
      in if res = kEtcPalErrOk then add_all_netints X V ns S else (res, S))"

definition sacn_add_all_netints_to_sampling_period ::
    "('cid, 't, 'c, 'm, 'k, 'n, 'h) receiver_ext \<Rightarrow> 'tm receiver_call \<Rightarrow> netint_id list \<Rightarrow>
     'n sampling_netints \<Rightarrow> etcpal_error \<times> 'n sampling_netints" where
  "sacn_add_all_netints_to_sampling_period X V netints S =
     (let (res, t) = rb_clear (netints_rb X) (sp_tree S); S = S\<lparr>sp_tree := t\<rparr>
      in if res = kEtcPalErrOk then add_all_netints X V netints S else (res, S))"

end
