(* ===== verification/ReceiverApi.thy ===== *)
theory ReceiverApi
  imports ReceiverTick ReceiverNetints
begin

text \<open>
  Creating, changing and destroying receivers: src/sACN/src/sacn/receiver.c, the functions of
  receiver_state.c and mem/receiver it calls, and the list of receivers of a thread.
  \<^item> The sockets of a receiver are results of the call, one for each IP version; removing them
    changes nothing of the model. A thread that could be started is running.
  \<^item> Freeing memory changes nothing; a struct that is in no tree and no list is not accessed.
\<close>

section \<open>The pool of receivers\<close>

record receiver_config =
  config_universe :: u16
  config_callbacks :: receiver_callbacks
  config_footprint :: SacnRecvUniverseSubrange
  config_source_count_max :: int
  config_flags :: u32
  config_ipv4 :: bool
  config_ipv6 :: bool

definition kSacnReceiverOptsFilterPreviewData :: u32 where "kSacnReceiverOptsFilterPreviewData = 1"

definition no_callbacks :: receiver_callbacks where
  "no_callbacks = \<lparr>calls_universe_data = False, calls_sources_lost = False, calls_sampling_period_started = False,
     calls_sampling_period_ended = False, calls_source_pap_lost = False, calls_source_limit_exceeded = False\<rparr>"

definition init_receivers ::
    "('cid, 't, 'c, 'm, 'k, 'n, 'h) receiver_ext \<Rightarrow> ('cid, 't, 'c, 'm, 'k, 'n, 'h, 'tm) receiver_module \<Rightarrow>
     etcpal_error \<times> ('cid, 't, 'c, 'm, 'k, 'n, 'h, 'tm) receiver_module" where
  "init_receivers X M =
     (kEtcPalErrOk, M\<lparr>handle_tree_of_receivers := rb_init (receivers_rb X), universe_tree_of_receivers := rb_init (u16_rb X)\<rparr>)"

definition insert_receiver_into_maps ::
    "('cid, 't, 'c, 'm, 'k, 'n, 'h) receiver_ext \<Rightarrow> 'tm receiver_call \<Rightarrow> int \<Rightarrow> u16 \<Rightarrow>
     ('cid, 't, 'c, 'm, 'k, 'n, 'h, 'tm) receiver_module \<Rightarrow>
     etcpal_error \<times> ('cid, 't, 'c, 'm, 'k, 'n, 'h, 'tm) receiver_module" where
  "insert_receiver_into_maps X V h universe M =
     (let (res, t) = rb_insert (receivers_rb X) (receiver_node_ok V) (handle_tree_of_receivers M) h;
          M = M\<lparr>handle_tree_of_receivers := t\<rparr>
      in if res \<noteq> kEtcPalErrOk then (res, M)
         else let (res, c) = rb_insert (u16_rb X) (universe_node_ok V) (universe_tree_of_receivers M) universe;
                  M = M\<lparr>universe_tree_of_receivers := c\<rparr>
              in if res \<noteq> kEtcPalErrOk
                 then (res, M\<lparr>handle_tree_of_receivers :=
                              snd (rb_remove (receivers_rb X) (handle_tree_of_receivers M) h)\<rparr>)
                 else (kEtcPalErrOk, M\<lparr>universe_receiver := (universe_receiver M)(universe := h)\<rparr>))"

definition remove_receiver_from_maps ::
    "('cid, 't, 'c, 'm, 'k, 'n, 'h) receiver_ext \<Rightarrow> ('c, 'k, 'n, 'tm) receiver \<Rightarrow>
     ('cid, 't, 'c, 'm, 'k, 'n, 'h, 'tm) receiver_module \<Rightarrow> ('cid, 't, 'c, 'm, 'k, 'n, 'h, 'tm) receiver_module" where
  "remove_receiver_from_maps X R M =
     M\<lparr>universe_tree_of_receivers := snd (rb_remove (u16_rb X) (universe_tree_of_receivers M) (receiver_universe R)),
       handle_tree_of_receivers := snd (rb_remove (receivers_rb X) (handle_tree_of_receivers M) (receiver_handle R))\<rparr>"

text \<open>
  The results: the error, whether \<open>receiver_state\<close> was written (the new receiver is at its
  handle), the module.
\<close>

definition add_sacn_receiver ::
    "('cid, 't, 'c, 'm, 'k, 'n, 'h) receiver_ext \<Rightarrow> 'tm receiver_call \<Rightarrow> int \<Rightarrow> receiver_config \<Rightarrow> netint_config option \<Rightarrow>
     receiver_callbacks option \<Rightarrow> ('cid, 't, 'c, 'm, 'k, 'n, 'h, 'tm) receiver_module \<Rightarrow>
     (etcpal_error \<times> bool \<times> ('cid, 't, 'c, 'm, 'k, 'n, 'h, 'tm) receiver_module) option" where
  "add_sacn_receiver X V h config netint_config internal M =
     (if lookup_receiver_by_universe X M (config_universe config) \<noteq> None then Some (kEtcPalErrExists, False, M)
      else if h = kSacnReceiverInvalid \<or> \<not> receiver_alloc_ok V then Some (kEtcPalErrNoMem, False, M)
      else do {
        let S = (sampling_period_netints (receiver_mem M h))\<lparr>sp_tree := rb_init (netints_rb X)\<rparr>;
        (res, ns, S) \<leftarrow> sacn_initialize_receiver_netints X V netint_config (receiver_sys_netints M) False [] S;
        if res \<noteq> kEtcPalErrOk then Some (res, False, M)
        else
          let R = (receiver_mem M h)\<lparr>receiver_handle := h, receiver_universe := config_universe config,
                receiver_thread := None, receiver_netints := ns, sampling_period_netints := S, sampling := False,
                notified_sampling_started := False, suppress_limit_exceeded_notification := False,
                source_tree := rb_init (u16_rb X), term_sets := [],
                filter_preview_data := (config_flags config AND kSacnReceiverOptsFilterPreviewData \<noteq> 0),
                api_callbacks := config_callbacks config,
                internal_callbacks := (case internal of None \<Rightarrow> no_callbacks | Some c \<Rightarrow> c),
                receiver_source_max := size_of_int (config_source_count_max config),
                footprint := config_footprint config,
                receiver_ipv4 := config_ipv4 config, receiver_ipv6 := config_ipv6 config\<rparr>;
              (res, M) = insert_receiver_into_maps X V h (config_universe config) (put_receiver R M)
          in Some (res, True, M)
      })"

definition remove_sacn_receiver ::
    "('cid, 't, 'c, 'm, 'k, 'n, 'h) receiver_ext \<Rightarrow> 'tm receiver_call \<Rightarrow> int \<Rightarrow>
     ('cid, 't, 'c, 'm, 'k, 'n, 'h, 'tm) receiver_module \<Rightarrow> ('cid, 't, 'c, 'm, 'k, 'n, 'h, 'tm) receiver_module" where
  "remove_sacn_receiver X V h M =
     (let R = receiver_mem M h;
          st = clear_term_set_list (loss_environment X V (remotes M)) (term_sets R) (loss M);
          (res, R', T) = clear_sources X R (remotes M)
      in remove_receiver_from_maps X R (put_receiver R' (M\<lparr>loss := st, remotes := T\<rparr>)))"

definition deinit_receivers ::
    "('cid, 't, 'c, 'm, 'k, 'n, 'h) receiver_ext \<Rightarrow> 'tm receiver_call \<Rightarrow>
     ('cid, 't, 'c, 'm, 'k, 'n, 'h, 'tm) receiver_module \<Rightarrow> ('cid, 't, 'c, 'm, 'k, 'n, 'h, 'tm) receiver_module" where
  "deinit_receivers X V M =
     (fold (\<lambda>h M.
         let R = receiver_mem M h;
             st = clear_term_set_list (loss_environment X V (remotes M)) (term_sets R) (loss M);
             (res, R', T) = clear_sources X R (remotes M)
         in put_receiver R' (M\<lparr>loss := st, remotes := T\<rparr>))
        (rb_iter (receivers_rb X) (handle_tree_of_receivers M)) M)
       \<lparr>handle_tree_of_receivers := snd (rb_clear (receivers_rb X) (handle_tree_of_receivers M)),
        universe_tree_of_receivers := snd (rb_clear (u16_rb X) (universe_tree_of_receivers M))\<rparr>"

definition update_receiver_universe ::
    "('cid, 't, 'c, 'm, 'k, 'n, 'h) receiver_ext \<Rightarrow> 'tm receiver_call \<Rightarrow> int \<Rightarrow> u16 \<Rightarrow>
     ('cid, 't, 'c, 'm, 'k, 'n, 'h, 'tm) receiver_module \<Rightarrow>
     etcpal_error \<times> ('cid, 't, 'c, 'm, 'k, 'n, 'h, 'tm) receiver_module" where
  "update_receiver_universe X V h new_universe M =
     (let (res, c) = rb_remove (u16_rb X) (universe_tree_of_receivers M) (receiver_universe (receiver_mem M h));
          M = M\<lparr>universe_tree_of_receivers := c\<rparr>
      in if res \<noteq> kEtcPalErrOk then (res, M)
         else let (res, c) = rb_insert (u16_rb X) (universe_node_ok V) (universe_tree_of_receivers M) new_universe;
                  M = put_receiver ((receiver_mem M h)\<lparr>receiver_universe := new_universe\<rparr>)
                        (M\<lparr>universe_tree_of_receivers := c\<rparr>)
              in (res, if res = kEtcPalErrOk
                       then M\<lparr>universe_receiver := (universe_receiver M)(new_universe := h)\<rparr> else M))"

text \<open>\<open>mutex_created\<close>: the result of creating the mutex of the callbacks.\<close>

definition sacn_receiver_state_init ::
    "('cid, 't, 'c, 'm, 'k, 'n, 'h) receiver_ext \<Rightarrow> bool \<Rightarrow> ('cid, 't, 'c, 'm, 'k, 'n, 'h, 'tm) receiver_module \<Rightarrow>
     etcpal_error \<times> ('cid, 't, 'c, 'm, 'k, 'n, 'h, 'tm) receiver_module" where
  "sacn_receiver_state_init X mutex_created M =
     (if mutex_created then kEtcPalErrOk else kEtcPalErrSys,
      M\<lparr>receiver_handle_mgr := init_receiver_handles X (-1), expired_wait := kSacnDefaultExpiredWaitMs\<rparr>)"

section \<open>Threads\<close>

definition add_receiver_to_list :: "int \<Rightarrow> recv_context \<Rightarrow> recv_context" where
  "add_receiver_to_list h context =
     context\<lparr>ctx_receivers := ctx_receivers context @ [h], ctx_num_receivers := ctx_num_receivers context + 1\<rparr>"

definition remove_receiver_from_list :: "int \<Rightarrow> recv_context \<Rightarrow> recv_context" where
  "remove_receiver_from_list h context =
     (if h \<in> set (ctx_receivers context)
      then context\<lparr>ctx_receivers := remove1 h (ctx_receivers context), ctx_num_receivers := ctx_num_receivers context - 1\<rparr>
      else context)"

text \<open>
  The combined result of the sockets for IPv4 and IPv6; the functions that add them are called only
  if the receiver supports their IP version.
\<close>

definition add_receiver_sockets :: "bool \<Rightarrow> bool \<Rightarrow> etcpal_error \<Rightarrow> etcpal_error \<Rightarrow> etcpal_error" where
  "add_receiver_sockets ipv4 ipv6 ipv4_added ipv6_added =
     (let ipv4_res = (if ipv4 then ipv4_added else kEtcPalErrNoNetints);
          ipv6_res = (if (ipv4_res = kEtcPalErrOk \<or> ipv4_res = kEtcPalErrNoNetints) \<and> ipv6
                      then ipv6_added else kEtcPalErrNoNetints)
      in if (ipv4_res = kEtcPalErrNoNetints \<or> ipv4_res = kEtcPalErrOk) \<and> ipv6_res \<noteq> kEtcPalErrNoNetints
         then ipv6_res else ipv4_res)"

text \<open>The results of adding the sockets of a receiver, by what the operating system does.\<close>

definition sockets_added :: "'tm receiver_call \<Rightarrow> ('c, 'k, 'n, 'tm) receiver \<Rightarrow> etcpal_error" where
  "sockets_added V R =
     add_receiver_sockets (receiver_ipv4 R) (receiver_ipv6 R)
       (ipv4_sockets_result V (receiver_handle R)) (ipv6_sockets_result V (receiver_handle R))"

text \<open>The loop that looks for the thread with the lowest number of receivers.\<close>

definition least_loaded :: "recv_context list \<Rightarrow> nat option" where
  "least_loaded cs =
     fold (\<lambda>i assigned. case assigned of
               None \<Rightarrow> Some i
             | Some j \<Rightarrow> if ctx_num_receivers (cs ! i) < ctx_num_receivers (cs ! j) then Some i else Some j)
       [0..<length cs] None"

definition assign_receiver_to_thread ::
    "'tm receiver_call \<Rightarrow> int \<Rightarrow> ('cid, 't, 'c, 'm, 'k, 'n, 'h, 'tm) receiver_module \<Rightarrow>
     etcpal_error \<times> ('cid, 't, 'c, 'm, 'k, 'n, 'h, 'tm) receiver_module" where
  "assign_receiver_to_thread V h M =
     (case least_loaded (contexts M) of
        None \<Rightarrow> (kEtcPalErrSys, M)
      | Some i \<Rightarrow>
          let M = put_receiver ((receiver_mem M h)\<lparr>receiver_thread := Some i\<rparr>) M;
              context = contexts M ! i;
              res = sockets_added V (receiver_mem M h);
              res = (if res = kEtcPalErrOk \<and> \<not> ctx_running context then thread_start_result V else res)
          in (res, if res = kEtcPalErrOk
                   then M\<lparr>contexts := (contexts M)[i := add_receiver_to_list h (context\<lparr>ctx_running := True\<rparr>)]\<rparr> else M))"

definition remove_receiver_from_thread ::
    "int \<Rightarrow> ('cid, 't, 'c, 'm, 'k, 'n, 'h, 'tm) receiver_module \<Rightarrow> ('cid, 't, 'c, 'm, 'k, 'n, 'h, 'tm) receiver_module" where
  "remove_receiver_from_thread h M =
     (case receiver_thread (receiver_mem M h) of
        None \<Rightarrow> M
      | Some i \<Rightarrow> if i < length (contexts M)
                  then M\<lparr>contexts := (contexts M)[i := remove_receiver_from_list h (contexts M ! i)]\<rparr> else M)"

section \<open>Private functions of the API\<close>

definition get_next_receiver_handle ::
    "('cid, 't, 'c, 'm, 'k, 'n, 'h) receiver_ext \<Rightarrow> ('cid, 't, 'c, 'm, 'k, 'n, 'h, 'tm) receiver_module \<Rightarrow>
     int \<times> ('cid, 't, 'c, 'm, 'k, 'n, 'h, 'tm) receiver_module" where
  "get_next_receiver_handle X M =
     (let (h, mgr) = next_receiver_handle X (\<lambda>i. lookup_receiver X M i \<noteq> None) (receiver_handle_mgr M)
      in (h, M\<lparr>receiver_handle_mgr := mgr\<rparr>))"

text \<open>The results: the error, the handle if it is written, the module.\<close>

definition create_sacn_receiver ::
    "('cid, 't, 'c, 'm, 'k, 'n, 'h) receiver_ext \<Rightarrow> 'tm receiver_call \<Rightarrow> receiver_config \<Rightarrow> netint_config option \<Rightarrow>
     receiver_callbacks option \<Rightarrow> ('cid, 't, 'c, 'm, 'k, 'n, 'h, 'tm) receiver_module \<Rightarrow>
     (etcpal_error \<times> int option \<times> ('cid, 't, 'c, 'm, 'k, 'n, 'h, 'tm) receiver_module) option" where
  "create_sacn_receiver X V config netint_config internal M =
     (let (h, M) = get_next_receiver_handle X M in
      do {
        (res, added, M) \<leftarrow> add_sacn_receiver X V h config netint_config internal M;
        let (res, M) = (if res = kEtcPalErrOk
                        then assign_receiver_to_thread V h
                               (put_receiver (begin_sampling_period V (receiver_mem M h)) M)
                        else (res, M));
        Some (if res = kEtcPalErrOk then (res, Some h, M)
              else (res, None, if added then remove_sacn_receiver X V h (remove_receiver_from_thread h M) else M))
      })"

definition destroy_sacn_receiver ::
    "('cid, 't, 'c, 'm, 'k, 'n, 'h) receiver_ext \<Rightarrow> 'tm receiver_call \<Rightarrow> int \<Rightarrow>
     ('cid, 't, 'c, 'm, 'k, 'n, 'h, 'tm) receiver_module \<Rightarrow>
     etcpal_error \<times> ('cid, 't, 'c, 'm, 'k, 'n, 'h, 'tm) receiver_module" where
  "destroy_sacn_receiver X V h M =
     (if h = kSacnReceiverInvalid then (kEtcPalErrSys, M)
      else case lookup_receiver X M h of
             None \<Rightarrow> (kEtcPalErrNotFound, M)
           | Some h \<Rightarrow> (kEtcPalErrOk, remove_sacn_receiver X V h (remove_receiver_from_thread h M)))"

definition clear_term_sets_and_sources ::
    "('cid, 't, 'c, 'm, 'k, 'n, 'h) receiver_ext \<Rightarrow> 'tm receiver_call \<Rightarrow> int \<Rightarrow>
     ('cid, 't, 'c, 'm, 'k, 'n, 'h, 'tm) receiver_module \<Rightarrow>
     etcpal_error \<times> ('cid, 't, 'c, 'm, 'k, 'n, 'h, 'tm) receiver_module" where
  "clear_term_sets_and_sources X V h M =
     (let R = receiver_mem M h;
          st = clear_term_set_list (loss_environment X V (remotes M)) (term_sets R) (loss M);
          (res, R, T) = clear_receiver_sources X (R\<lparr>term_sets := []\<rparr>) (remotes M)
      in (res, put_receiver R (M\<lparr>loss := st, remotes := T\<rparr>)))"

definition change_sacn_receiver_universe ::
    "('cid, 't, 'c, 'm, 'k, 'n, 'h) receiver_ext \<Rightarrow> 'tm receiver_call \<Rightarrow> int \<Rightarrow> u16 \<Rightarrow>
     ('cid, 't, 'c, 'm, 'k, 'n, 'h, 'tm) receiver_module \<Rightarrow>
     etcpal_error \<times> ('cid, 't, 'c, 'm, 'k, 'n, 'h, 'tm) receiver_module" where
  "change_sacn_receiver_universe X V h new_universe M =
     (if h = kSacnReceiverInvalid then (kEtcPalErrSys, M)
      else if lookup_receiver_by_universe X M new_universe \<noteq> None then (kEtcPalErrExists, M)
      else case lookup_receiver X M h of
             None \<Rightarrow> (kEtcPalErrNotFound, M)
           | Some h \<Rightarrow>
               let (res, M) = clear_term_sets_and_sources X V h M;
                   (res, M) = (if res = kEtcPalErrOk then update_receiver_universe X V h new_universe M else (res, M));
                   res = (if res = kEtcPalErrOk then sockets_added V (receiver_mem M h) else res);
                   (res, M) =
                     (if res = kEtcPalErrOk
                      then let (res, S) = sacn_add_all_netints_to_sampling_period X V (receiver_netints (receiver_mem M h))
                                            (sampling_period_netints (receiver_mem M h))
                           in (res, put_receiver ((receiver_mem M h)\<lparr>sampling_period_netints := S\<rparr>) M)
                      else (res, M))
               in (res, if res = kEtcPalErrOk then put_receiver (begin_sampling_period V (receiver_mem M h)) M else M))"

section \<open>Resetting the network\<close>

definition terminate_sources_on_removed_netints ::
    "('cid, 't, 'c, 'm, 'k, 'n, 'h) receiver_ext \<Rightarrow> 'tm receiver_call \<Rightarrow>
     ('c, 'k, 'n, 'tm) receiver \<Rightarrow> ('c, 'k, 'n, 'tm) receiver" where
  "terminate_sources_on_removed_netints X V R =
     fold (\<lambda>h R. if tracked_netint (source_mem R h) \<in> set (receiver_netints R) then R
                else put_tracked_source h (mark_source_terminated V (source_mem R h)) R)
       (rb_iter (u16_rb X) (source_tree R)) R"

text \<open>What both reset functions do to one receiver.\<close>

definition reset_receiver ::
    "('cid, 't, 'c, 'm, 'k, 'n, 'h) receiver_ext \<Rightarrow> 'tm receiver_call \<Rightarrow> netint_config option \<Rightarrow> int \<Rightarrow>
     ('cid, 't, 'c, 'm, 'k, 'n, 'h, 'tm) receiver_module \<Rightarrow>
     (etcpal_error \<times> ('cid, 't, 'c, 'm, 'k, 'n, 'h, 'tm) receiver_module) option" where
  "reset_receiver X V config h M =
     (let R = receiver_mem M h in
      do {
        (res, ns, S) \<leftarrow> sacn_initialize_receiver_netints X V config (receiver_sys_netints M) (sampling R)
                         (receiver_netints R) (sampling_period_netints R);
        let R = R\<lparr>receiver_netints := ns, sampling_period_netints := S\<rparr>;
        let res = (if res = kEtcPalErrOk then sockets_added V R else res);
        Some (res, put_receiver (if res = kEtcPalErrOk
                                 then begin_sampling_period V (terminate_sources_on_removed_netints X V R) else R) M)
      })"

fun reset_receivers ::
    "('cid, 't, 'c, 'm, 'k, 'n, 'h) receiver_ext \<Rightarrow> 'tm receiver_call \<Rightarrow> (int \<times> netint_config option) list \<Rightarrow>
     ('cid, 't, 'c, 'm, 'k, 'n, 'h, 'tm) receiver_module \<Rightarrow>
     (etcpal_error \<times> ('cid, 't, 'c, 'm, 'k, 'n, 'h, 'tm) receiver_module) option" where
  "reset_receivers X V [] M = Some (kEtcPalErrOk, M)"
| "reset_receivers X V ((h, config) # rs) M =
     (if lookup_receiver X M h = None then Some (kEtcPalErrSys, M)
      else do {
        (res, M) \<leftarrow> reset_receiver X V config h M;
        if res = kEtcPalErrOk then reset_receivers X V rs M else Some (res, M)
      })"

text \<open>\<open>sacn_sockets_reset_receiver\<close> finds the system's interfaces anew.\<close>

definition reset_sys_netints ::
    "'tm receiver_call \<Rightarrow> ('cid, 't, 'c, 'm, 'k, 'n, 'h, 'tm) receiver_module \<Rightarrow>
     etcpal_error \<times> ('cid, 't, 'c, 'm, 'k, 'n, 'h, 'tm) receiver_module" where
  "reset_sys_netints V M = (reset_sockets_result V, M\<lparr>receiver_sys_netints := sys_netints_found V\<rparr>)"

definition sacn_receiver_reset_networking ::
    "('cid, 't, 'c, 'm, 'k, 'n, 'h) receiver_ext \<Rightarrow> 'tm receiver_call \<Rightarrow>
     ('cid, 't, 'c, 'm, 'k, 'n, 'h, 'tm) receiver_module \<Rightarrow>
     (etcpal_error \<times> ('cid, 't, 'c, 'm, 'k, 'n, 'h, 'tm) receiver_module) option" where
  "sacn_receiver_reset_networking X V M =
     (if \<not> rx_initialized V then Some (kEtcPalErrNotInit, M)
      else if \<not> rx_lock V then Some (kEtcPalErrSys, M)
      else let (res, M) = reset_sys_netints V M in
           if res \<noteq> kEtcPalErrOk then Some (res, M)
           else reset_receivers X V (map (\<lambda>h. (h, None)) (rb_iter (receivers_rb X) (handle_tree_of_receivers M))) M)"

definition sacn_receiver_reset_networking_per_receiver ::
    "('cid, 't, 'c, 'm, 'k, 'n, 'h) receiver_ext \<Rightarrow> 'tm receiver_call \<Rightarrow> (int \<times> netint_config) list option \<Rightarrow>
     ('cid, 't, 'c, 'm, 'k, 'n, 'h, 'tm) receiver_module \<Rightarrow>
     (etcpal_error \<times> ('cid, 't, 'c, 'm, 'k, 'n, 'h, 'tm) receiver_module) option" where
  "sacn_receiver_reset_networking_per_receiver X V netint_lists M =
     (case netint_lists of
        None \<Rightarrow> Some (kEtcPalErrInvalid, M)
      | Some [] \<Rightarrow> Some (kEtcPalErrInvalid, M)
      | Some netint_lists \<Rightarrow>
          if \<not> rx_initialized V then Some (kEtcPalErrNotInit, M)
          else if \<not> rx_lock V then Some (kEtcPalErrSys, M)
          else if \<not> list_all (\<lambda>h. h \<in> fst ` set netint_lists) (rb_iter (receivers_rb X) (handle_tree_of_receivers M)) \<or>
                  length netint_lists \<noteq> length (rb_iter (receivers_rb X) (handle_tree_of_receivers M))
          then Some (kEtcPalErrInvalid, M)
          else let (res, M) = reset_sys_netints V M in
               if res \<noteq> kEtcPalErrOk then Some (res, M)
               else reset_receivers X V (map (\<lambda>(h, c). (h, Some c)) netint_lists) M)"

section \<open>Public functions\<close>

text \<open>\<open>memset\<close> with 0 and the values that are not 0.\<close>

definition sacn_receiver_config_init :: receiver_config where
  "sacn_receiver_config_init =
     \<lparr>config_universe = 0, config_callbacks = no_callbacks, config_footprint = \<lparr>start_address = 1, address_count = 512\<rparr>,
      config_source_count_max = int kSacnReceiverInfiniteSources, config_flags = 0, config_ipv4 = True, config_ipv6 = True\<rparr>"

definition sacn_receiver_create ::
    "('cid, 't, 'c, 'm, 'k, 'n, 'h) receiver_ext \<Rightarrow> 'tm receiver_call \<Rightarrow> receiver_config option \<Rightarrow> netint_config option \<Rightarrow>
     ('cid, 't, 'c, 'm, 'k, 'n, 'h, 'tm) receiver_module \<Rightarrow>
     (etcpal_error \<times> int option \<times> ('cid, 't, 'c, 'm, 'k, 'n, 'h, 'tm) receiver_module) option" where
  "sacn_receiver_create X V config netint_config M =
     (if \<not> rx_initialized V then Some (kEtcPalErrNotInit, None, M)
      else case config of
             None \<Rightarrow> Some (kEtcPalErrInvalid, None, M)
           | Some config \<Rightarrow>
               if \<not> UNIVERSE_ID_VALID (config_universe config) \<or> \<not> calls_universe_data (config_callbacks config) \<or>
                  \<not> calls_sources_lost (config_callbacks config) \<or> \<not> calls_sampling_period_ended (config_callbacks config)
               then Some (kEtcPalErrInvalid, None, M)
               else if \<not> rx_lock V then Some (kEtcPalErrSys, None, M)
               else create_sacn_receiver X V config netint_config None M)"

definition sacn_receiver_destroy ::
    "('cid, 't, 'c, 'm, 'k, 'n, 'h) receiver_ext \<Rightarrow> 'tm receiver_call \<Rightarrow> int \<Rightarrow>
     ('cid, 't, 'c, 'm, 'k, 'n, 'h, 'tm) receiver_module \<Rightarrow>
     etcpal_error \<times> ('cid, 't, 'c, 'm, 'k, 'n, 'h, 'tm) receiver_module" where
  "sacn_receiver_destroy X V h M =
     (if \<not> rx_initialized V then (kEtcPalErrNotInit, M)
      else if h = kSacnReceiverInvalid then (kEtcPalErrInvalid, M)
      else if \<not> rx_cb_lock V \<or> \<not> rx_lock V then (kEtcPalErrSys, M)
      else destroy_sacn_receiver X V h M)"

definition sacn_receiver_get_universe ::
    "('cid, 't, 'c, 'm, 'k, 'n, 'h) receiver_ext \<Rightarrow> 'tm receiver_call \<Rightarrow> int \<Rightarrow>
     ('cid, 't, 'c, 'm, 'k, 'n, 'h, 'tm) receiver_module \<Rightarrow> etcpal_error \<times> u16 option" where
  "sacn_receiver_get_universe X V h M =
     (if \<not> rx_initialized V then (kEtcPalErrNotInit, None)
      else if \<not> rx_lock V then (kEtcPalErrSys, None)
      else case lookup_receiver X M h of
             None \<Rightarrow> (kEtcPalErrNotFound, None)
           | Some h \<Rightarrow> (kEtcPalErrOk, Some (receiver_universe (receiver_mem M h))))"

definition sacn_receiver_get_footprint ::
    "('cid, 't, 'c, 'm, 'k, 'n, 'h) receiver_ext \<Rightarrow> 'tm receiver_call \<Rightarrow> int \<Rightarrow>
     ('cid, 't, 'c, 'm, 'k, 'n, 'h, 'tm) receiver_module \<Rightarrow> etcpal_error \<times> SacnRecvUniverseSubrange option" where
  "sacn_receiver_get_footprint X V h M =
     (let result = fst (sacn_receiver_get_universe X V h M)
      in (result, if result = kEtcPalErrOk then Some \<lparr>start_address = 1, address_count = 512\<rparr> else None))"

definition sacn_receiver_change_universe ::
    "('cid, 't, 'c, 'm, 'k, 'n, 'h) receiver_ext \<Rightarrow> 'tm receiver_call \<Rightarrow> int \<Rightarrow> u16 \<Rightarrow>
     ('cid, 't, 'c, 'm, 'k, 'n, 'h, 'tm) receiver_module \<Rightarrow>
     etcpal_error \<times> ('cid, 't, 'c, 'm, 'k, 'n, 'h, 'tm) receiver_module" where
  "sacn_receiver_change_universe X V h new_universe M =
     (if \<not> rx_initialized V then (kEtcPalErrNotInit, M)
      else if \<not> UNIVERSE_ID_VALID new_universe then (kEtcPalErrInvalid, M)
      else if \<not> rx_lock V then (kEtcPalErrSys, M)
      else change_sacn_receiver_universe X V h new_universe M)"

definition sacn_receiver_change_footprint :: "int \<Rightarrow> SacnRecvUniverseSubrange \<Rightarrow> etcpal_error" where
  "sacn_receiver_change_footprint h new_footprint = kEtcPalErrNotImpl"

definition sacn_receiver_change_universe_and_footprint :: "int \<Rightarrow> u16 \<Rightarrow> SacnRecvUniverseSubrange \<Rightarrow> etcpal_error" where
  "sacn_receiver_change_universe_and_footprint h new_universe new_footprint = kEtcPalErrNotImpl"

definition get_receiver_netints :: "('c, 'k, 'n, 'tm) receiver \<Rightarrow> nat \<Rightarrow> netint_id list \<times> nat" where
  "get_receiver_netints R n = (take n (receiver_netints R), length (receiver_netints R))"

definition sacn_receiver_get_network_interfaces ::
    "('cid, 't, 'c, 'm, 'k, 'n, 'h) receiver_ext \<Rightarrow> 'tm receiver_call \<Rightarrow> int \<Rightarrow> nat \<Rightarrow>
     ('cid, 't, 'c, 'm, 'k, 'n, 'h, 'tm) receiver_module \<Rightarrow> netint_id list \<times> nat" where
  "sacn_receiver_get_network_interfaces X V h n M =
     (case (if rx_lock V then lookup_receiver X M h else None) of
        None \<Rightarrow> ([], 0) | Some h \<Rightarrow> get_receiver_netints (receiver_mem M h) n)"

definition sacn_receiver_set_expired_wait ::
    "'tm receiver_call \<Rightarrow> u32 \<Rightarrow> ('cid, 't, 'c, 'm, 'k, 'n, 'h, 'tm) receiver_module \<Rightarrow>
     ('cid, 't, 'c, 'm, 'k, 'n, 'h, 'tm) receiver_module" where
  "sacn_receiver_set_expired_wait V wait_ms M =
     (if rx_initialized V \<and> rx_lock V then M\<lparr>expired_wait := wait_ms\<rparr> else M)"

definition sacn_receiver_get_expired_wait ::
    "'tm receiver_call \<Rightarrow> ('cid, 't, 'c, 'm, 'k, 'n, 'h, 'tm) receiver_module \<Rightarrow> u32" where
  "sacn_receiver_get_expired_wait V M =
     (if rx_initialized V \<and> rx_lock V then expired_wait M else kSacnDefaultExpiredWaitMs)"

end
