(* ===== verification/LossNames.thy ===== *)
theory LossNames
  imports SourceLoss
begin

text \<open>
  What the receiver relies on in the tracking of lost sources (\<open>SourceLoss\<close>), besides the invariant
  of the lists.
  \<^item> \<open>named\<close>: every source of a universe's termination sets satisfies a predicate on its handle
    and name. Marking sources offline keeps it if the sources of the two status lists do.
  \<^item> \<open>get_expired_sources_returns\<close>: taking the expired sets returns, whatever \<open>realloc\<close> does.
  \<^item> \<open>expired_handles_gone\<close>: a source that is reported lost is in no termination set any more.
\<close>

section \<open>Names\<close>

definition named ::
    "('t, 'tm, 'cid) loss_ext \<Rightarrow> u16 \<Rightarrow> (u16 \<Rightarrow> u8 list \<Rightarrow> bool) \<Rightarrow> 't loss_state \<Rightarrow> bool" where
  "named E u Q st \<longleftrightarrow> (\<forall>k \<in> all_keys E st. snd k = u \<longrightarrow> Q (fst k) (ts_name (ts_mem st k)))"

lemma named_sub:
  "named E u Q st \<Longrightarrow> all_keys E st' \<subseteq> all_keys E st \<Longrightarrow> ts_mem st' = ts_mem st \<Longrightarrow> named E u Q st'"
  by (auto simp: named_def)

lemma named_insert:
  assumes "rbtree_laws (set_tree E) wft" "wft (ts_sources ts)" "wft (term_set_sources st)"
    and "ts_keys E ts \<subseteq> all_keys E st" "insert_new_ts_src E (h, u) src st ts = (res, st', ts')"
    and "named E u Q st" "Q h (ts_name src)"
  shows "named E u Q st'"
  using assms(1-5)
proof (cases rule: insert_new_ts_src_cases)
  case ok
  then show ?thesis using assms(6,7) by (auto simp: named_def)
next
  case failed
  then show ?thesis using assms(6) by (auto simp: named_def)
qed

lemma next_alloc_keys: "next_alloc st = (b, st') \<Longrightarrow> all_keys E st' = all_keys E st"
  by (rule next_alloc_simps(3))

lemma named_next_alloc:
  assumes "next_alloc st = (b, st')"
  shows "named E u Q st' = named E u Q st"
  by (simp add: named_def next_alloc_keys[OF assms] next_alloc_simps(2)[OF assms])

lemma named_add_unknown:
  assumes R: "rbtree_laws (set_tree E) wft"
  shows "add_unknown_sources E u srcs st ts = (res, st', ts') \<Longrightarrow> wft (ts_sources ts) \<Longrightarrow>
    wft (term_set_sources st) \<Longrightarrow> ts_keys E ts \<subseteq> all_keys E st \<Longrightarrow> named E u Q st \<Longrightarrow>
    \<forall>s \<in> set srcs. Q (remote_handle s) (remote_name s) \<Longrightarrow> named E u Q st'"
proof (induction srcs arbitrary: st ts)
  case Nil
  then show ?case by simp
next
  case (Cons s srcs)
  show ?case
  proof (cases "find_existing_ts_src E u (remote_handle s) st")
    case True
    then show ?thesis using Cons by simp
  next
    case False
    obtain b st1 where a: "next_alloc st = (b, st1)" by fastforce
    note s1 = next_alloc_simps(1,2)[OF a] next_alloc_keys[OF a, of E]
    show ?thesis
    proof (cases b)
      case False
      then show ?thesis using Cons.prems(1,5) \<open>\<not> find_existing_ts_src E u (remote_handle s) st\<close> a
          named_next_alloc[OF a, of E u Q] by simp
    next
      case True
      obtain e st2 ts2 where i: "insert_new_ts_src E (remote_handle s, u)
          \<lparr>ts_name = remote_name s, offline = False, terminated = False\<rparr> st1 ts = (e, st2, ts2)"
        by (metis prod_cases3)
      have w1: "wft (term_set_sources st1)" "ts_keys E ts \<subseteq> all_keys E st1" using Cons.prems s1 by simp_all
      have n2: "named E u Q st2"
        using named_insert[OF R Cons.prems(2) w1 i] Cons.prems(5,6) named_next_alloc[OF a, of E u Q] by simp
      show ?thesis
      proof (cases "e = kEtcPalErrOk")
        case False
        then show ?thesis using Cons.prems(1) \<open>\<not> find_existing_ts_src E u (remote_handle s) st\<close> a True i n2 by simp
      next
        case e: True
        then have run: "add_unknown_sources E u srcs st2 ts2 = (res, st', ts')"
          using Cons.prems(1) \<open>\<not> find_existing_ts_src E u (remote_handle s) st\<close> a True i by simp
        from R Cons.prems(2) w1 i show ?thesis
        proof (cases rule: insert_new_ts_src_cases)
          case ok
          have "ts_keys E ts2 \<subseteq> all_keys E st2" using ok w1(2) by auto
          then show ?thesis using Cons.IH[OF run ok(3,4) _ n2] Cons.prems(6) by simp
        qed (use e in simp)
      qed
    qed
  qed
qed

lemma named_new_term_set:
  assumes R: "rbtree_laws (set_tree E) wft" and w: "wft (term_set_sources st)"
    and n: "new_term_set E u t unknown src st L = (res, st', L')" and q: "named E u Q st"
    and "Q (lost_handle src) (lost_name src)" "\<forall>s \<in> set unknown. Q (remote_handle s) (remote_name s)"
  shows "named E u Q st'"
proof -
  let ?ts = "\<lparr>wait_period = timer_start E t, ts_sources = rb_init (set_tree E)\<rparr>"
  obtain b1 st1 where a1: "next_alloc st = (b1, st1)" by fastforce
  obtain b2 st2 where a2: "next_alloc st1 = (b2, st2)" by fastforce
  note s1 = next_alloc_simps(1,2)[OF a1] next_alloc_keys[OF a1, of E] and s2 = next_alloc_simps(1,2)[OF a2] next_alloc_keys[OF a2, of E]
  obtain e st3 ts3 where i: "insert_new_ts_src E (lost_handle src, u)
      \<lparr>ts_name = lost_name src, offline = True, terminated = lost_terminated src\<rparr> st2 ?ts = (e, st3, ts3)"
    by (metis prod_cases3)
  have init: "wft (ts_sources ?ts)" "ts_keys E ?ts = {}"
    using rb_init_wf[OF R] rb_init_iter[OF R] by (simp_all add: ts_keys_def)
  have q2: "named E u Q st1" "named E u Q st2" using q named_next_alloc[OF a1, of E u Q] named_next_alloc[OF a2, of E u Q] by simp_all
  have q3: "named E u Q st3"
    using named_insert[OF R init(1) _ _ i q2(2)] w s1 s2 init(2) assms(5) by simp
  show ?thesis
  proof (cases "b1 \<and> b2 \<and> e = kEtcPalErrOk")
    case False
    then show ?thesis using n a1 a2 i q q2 q3 by (auto simp: new_term_set_def split: if_splits)
  next
    case True
    obtain e4 st4 ts4 where u: "add_unknown_sources E u unknown st3 ts3 = (e4, st4, ts4)" by (metis prod_cases3)
    have "st' = st4" using n True a1 a2 i u by (simp add: new_term_set_def)
    have w2: "wft (term_set_sources st2)" "ts_keys E ?ts \<subseteq> all_keys E st2" using w s1 s2 init(2) by simp_all
    from R init(1) w2 i show ?thesis
    proof (cases rule: insert_new_ts_src_cases)
      case ok
      have "ts_keys E ts3 \<subseteq> all_keys E st3" unfolding ok(5,6) init(2) by simp
      then show ?thesis
        using named_add_unknown[OF R u ok(3,4) _ q3 assms(6)] \<open>st' = st4\<close> by simp
    qed (use True in simp)
  qed
qed

lemma named_mark_offline:
  assumes R: "rbtree_laws (set_tree E) wft"
  shows "fold (mark_source_offline E u w unknown) srcs (res, st, L) = (res', st', L') \<Longrightarrow>
    list_inv E wft u st L \<Longrightarrow> named E u Q st \<Longrightarrow> \<forall>s \<in> set srcs. Q (lost_handle s) (lost_name s) \<Longrightarrow>
    \<forall>s \<in> set unknown. Q (remote_handle s) (remote_name s) \<Longrightarrow> named E u Q st'"
proof (induction srcs arbitrary: res st L)
  case Nil
  then show ?case by simp
next
  case (Cons s srcs)
  obtain res1 st1 L1 where m: "mark_source_offline E u w unknown s (res, st, L) = (res1, st1, L1)"
    by (metis prod_cases3)
  have f: "fold (mark_source_offline E u w unknown) srcs (res1, st1, L1) = (res', st', L')"
    using Cons.prems(1) m by simp
  note inv1 = mark_source_offline_effect(1)[OF R Cons.prems(2) m]
  have wf: "wft (term_set_sources st)" using Cons.prems(2) by (simp add: list_inv_def sets_wf_def)
  have "named E u Q st1"
  proof (cases "find_existing_ts_src E u (lost_handle s) st")
    case True
    then have "(lost_handle s, u) \<in> all_keys E st" using find_existing_iff[OF R wf] by simp
    then show ?thesis using m True Cons.prems(3)
      by (auto simp: mark_source_offline_def Let_def named_def all_keys_def split: if_splits)
  next
    case False
    show ?thesis
    proof (cases "res = kEtcPalErrOk")
      case True
      then have "new_term_set E u w unknown s st L = (res1, st1, L1)"
        using m False by (simp add: mark_source_offline_def)
      then show ?thesis using named_new_term_set[OF R wf _ Cons.prems(3)] Cons.prems(4,5) by simp
    next
      case res: False
      then show ?thesis using m False Cons.prems(3) by (simp add: mark_source_offline_def)
    qed
  qed
  then show ?case using Cons.IH[OF f inv1] Cons.prems(4,5) by simp
qed

section \<open>Taking the expired sets\<close>

lemma add_lost_source_returns:
  assumes "buf_ok (dynamic_buffers E) (max_lost_sources E) b" "length (items b) < 2 ^ 62"
  obtains (full) "add_lost_source E h cid nm t b = Some (False, b)"
    | (added) b' x where "add_lost_source E h cid nm t b = Some (True, b')" "items b' = items b @ [x]"
      "lost_source.source_handle x = h" "lost_source.source_cid x = cid" "source_name x = nm" "buf_ok (dynamic_buffers E) (max_lost_sources E) b'"
proof (cases "h = kSacnRemoteSourceInvalid")
  case True
  then show ?thesis using full by (simp add: add_lost_source_def)
next
  case False
  let ?x = "\<lparr>lost_source.source_handle = h, source_cid = cid, source_name = nm, was_terminated = t\<rparr>"
  from assms show ?thesis
  proof (cases rule: append_item_returns[where ok = "realloc_ok E (length (items b))" and x = ?x])
    case full
    then show ?thesis using that(1) False by (simp add: add_lost_source_def)
  next
    case (added b')
    then show ?thesis using that(2)[of b' ?x] False by (simp add: add_lost_source_def)
  qed
qed

text \<open>The entry of a notification for the source with key \<open>k\<close>.\<close>

definition reported :: "('t, 'tm, 'cid) loss_ext \<Rightarrow> 't loss_state \<Rightarrow> ts_key \<Rightarrow> 'cid lost_source \<Rightarrow> bool" where
  "reported E st k x \<longleftrightarrow> lost_source.source_handle x = fst k \<and> source_name x = ts_name (ts_mem st k) \<and>
     remote_source_cid E (fst k) = Some (lost_source.source_cid x)"

lemma reported_mem: "ts_mem st' = ts_mem st \<Longrightarrow> reported E st' = reported E st"
  by (simp add: fun_eq_iff reported_def)

lemma expire_sources_returns:
  "buf_ok (dynamic_buffers E) (max_lost_sources E) b \<Longrightarrow> length (items b) + length ks < 2 ^ 62 \<Longrightarrow> n \<le> length (items b) \<Longrightarrow>
    \<exists>b' xs. expire_sources E st ks n b = Some (all_offline st ks, b') \<and>
      buf_ok (dynamic_buffers E) (max_lost_sources E) b' \<and> length (items b') \<le> length (items b) + length ks \<and>
      items b' = (if all_offline st ks then items b @ xs else take (length (items b) - n) (items b)) \<and>
      (\<forall>x \<in> set xs. \<exists>k \<in> set ks. reported E st k x)"
proof (induction ks arbitrary: n b)
  case Nil
  then show ?case by auto
next
  case (Cons k ks)
  show ?case
  proof (cases "offline (ts_mem st k)")
    case False
    then show ?thesis using Cons.prems by (intro exI[of _ "b\<lparr>items := take (length (items b) - n) (items b)\<rparr>"] exI[of _ "[]"]) (auto simp: buf_ok_def)
  next
    case off: True
    show ?thesis
    proof (cases "remote_source_cid E (fst k)")
      case None
      obtain b' xs where IH: "expire_sources E st ks n b = Some (all_offline st ks, b')"
        "buf_ok (dynamic_buffers E) (max_lost_sources E) b'" "length (items b') \<le> length (items b) + length ks"
        "items b' = (if all_offline st ks then items b @ xs else take (length (items b) - n) (items b))"
        "\<forall>x \<in> set xs. \<exists>k \<in> set ks. reported E st k x"
        using Cons.IH[of b n] Cons.prems by auto
      show ?thesis by (rule exI[of _ b'], rule exI[of _ xs]) (use IH off None in auto)
    next
      case (Some cid)
      have small: "length (items b) < 2 ^ 62" using Cons.prems(2) by simp
      from Cons.prems(1) small show ?thesis
      proof (cases rule: add_lost_source_returns[where h = "fst k" and cid = cid and nm = "ts_name (ts_mem st k)"
            and t = "terminated (ts_mem st k)"])
        case full
        obtain b' xs where IH: "expire_sources E st ks n b = Some (all_offline st ks, b')"
          "buf_ok (dynamic_buffers E) (max_lost_sources E) b'" "length (items b') \<le> length (items b) + length ks"
          "items b' = (if all_offline st ks then items b @ xs else take (length (items b) - n) (items b))"
          "\<forall>x \<in> set xs. \<exists>k \<in> set ks. reported E st k x"
          using Cons.IH[of b n] Cons.prems by auto
        show ?thesis by (rule exI[of _ b'], rule exI[of _ xs]) (use IH off Some full in auto)
      next
        case (added b1 x)
        obtain b' xs where IH: "expire_sources E st ks (n + 1) b1 = Some (all_offline st ks, b')"
          "buf_ok (dynamic_buffers E) (max_lost_sources E) b'" "length (items b') \<le> length (items b1) + length ks"
          "items b' = (if all_offline st ks then items b1 @ xs else take (length (items b1) - (n + 1)) (items b1))"
          "\<forall>x \<in> set xs. \<exists>k \<in> set ks. reported E st k x"
          using Cons.IH[of b1 "n + 1"] Cons.prems added by auto
        show ?thesis by (rule exI[of _ b'], rule exI[of _ "x # xs"]) (use IH off Some added in \<open>auto simp: reported_def\<close>)
      qed
    qed
  qed
qed

lemma get_expired_sources_returns:
  assumes R: "rbtree_laws (set_tree E) wft"
  shows "sets_wf E wft st L \<Longrightarrow> buf_ok (dynamic_buffers E) (max_lost_sources E) b \<Longrightarrow>
    length (items b) + list_size E L < 2 ^ 62 \<Longrightarrow>
    \<exists>st' L' b' xs. get_expired_sources E st L b = Some (st', L', b') \<and> items b' = items b @ xs \<and>
      (\<forall>x \<in> set xs. \<exists>k \<in> list_keys E (filter (due E st) L). reported E st k x)"
proof (induction L arbitrary: st b)
  case Nil
  then show ?case by simp
next
  case (Cons ts L)
  let ?ks = "rb_iter (set_tree E) (ts_sources ts)"
  have wf: "wft (ts_sources ts)" "sets_wf E wft st L" "wft (term_set_sources st)"
    using Cons.prems(1) by (auto simp: sets_wf_def)
  have size: "list_size E (ts # L) = length ?ks + list_size E L" by (simp add: list_size_def)
  obtain b1 xs where ex: "(if timer_is_expired E (wait_period ts) then expire_sources E st ?ks 0 b else Some (False, b)) =
      Some (due E st ts, b1)" "buf_ok (dynamic_buffers E) (max_lost_sources E) b1"
    "length (items b1) \<le> length (items b) + length ?ks" "items b1 = items b @ xs"
    "\<forall>x \<in> set xs. due E st ts \<and> (\<exists>k \<in> ts_keys E ts. reported E st k x)"
  proof (cases "timer_is_expired E (wait_period ts)")
    case False
    then show ?thesis using that[of b "[]"] Cons.prems(2) by (simp add: due_def)
  next
    case True
    obtain b1 ys where y: "expire_sources E st ?ks 0 b = Some (all_offline st ?ks, b1)"
      "buf_ok (dynamic_buffers E) (max_lost_sources E) b1" "length (items b1) \<le> length (items b) + length ?ks"
      "items b1 = (if all_offline st ?ks then items b @ ys else take (length (items b) - 0) (items b))"
      "\<forall>x \<in> set ys. \<exists>k \<in> set ?ks. reported E st k x"
      using expire_sources_returns[OF Cons.prems(2), of ?ks 0 st] Cons.prems(3) size by auto
    show ?thesis
      by (rule that[of b1 "if all_offline st ?ks then ys else []"]) (use y True in \<open>auto simp: due_def ts_keys_def\<close>)
  qed
  define st1 where "st1 = (if due E st ts then clear_ts E ts st else st)"
  have s1: "sets_wf E wft st1 L" "ts_mem st1 = ts_mem st"
    using clear_ts_effect[OF R wf(3), of ts] wf by (simp_all add: st1_def sets_wf_def)
  have bound: "length (items b1) + list_size E L < 2 ^ 62" using ex(3) Cons.prems(3) size by simp
  obtain st' L' b' ys where IH: "get_expired_sources E st1 L b1 = Some (st', L', b')" "items b' = items b1 @ ys"
    "\<forall>x \<in> set ys. \<exists>k \<in> list_keys E (filter (due E st1) L). reported E st1 k x"
    using Cons.IH[OF s1(1) ex(2) bound] by blast
  have eq: "get_expired_sources E st (ts # L) b = Some (st', (if due E st ts then L' else ts # L'), b')"
    unfolding get_expired_sources.simps ex(1) using IH(1) by (cases "due E st ts") (simp_all add: st1_def)
  have "\<forall>x \<in> set (xs @ ys). \<exists>k \<in> list_keys E (filter (due E st) (ts # L)). reported E st k x"
    using IH(3) ex(5) unfolding due_mem[OF s1(2), of E] reported_mem[OF s1(2), of E] by auto
  then show ?case using eq IH(2) ex(4) by (intro exI[of _ st'] exI[of _ "if due E st ts then L' else ts # L'"] exI[of _ b'] exI[of _ "xs @ ys"]) simp
qed

text \<open>The size of a universe's list is bounded by the number of handles.\<close>

lemma list_size_card:
  assumes R: "rbtree_laws (set_tree E) wft"
  shows "sets_wf E wft st L \<Longrightarrow> disjoint_keys (abs_list E L) \<Longrightarrow> list_size E L = card (list_keys E L)"
proof (induction L)
  case Nil
  then show ?case by (simp add: list_size_def)
next
  case (Cons ts L)
  have "length (rb_iter (set_tree E) (ts_sources ts)) = card (ts_keys E ts)"
    using rb_distinct[OF R] Cons.prems(1) by (simp add: ts_keys_def distinct_card)
  moreover have "card (ts_keys E ts \<union> list_keys E L) = card (ts_keys E ts) + card (list_keys E L)"
    using Cons.prems(2) by (intro card_Un_disjoint) (auto simp: list_keys_abs ts_keys_def list_keys_def)
  ultimately show ?case using Cons by (simp add: list_size_def)
qed

lemma list_size_bound:
  assumes R: "rbtree_laws (set_tree E) wft" and inv: "list_inv E wft u st L"
  shows "list_size E L \<le> 65536"
proof -
  have s: "list_size E L = card (list_keys E L)"
    using list_size_card[OF R] inv by (auto simp: list_inv_def)
  have "list_keys E L \<subseteq> (\<lambda>h. (h, u)) ` UNIV" using inv by (auto simp: list_inv_def)
  then have "card (list_keys E L) \<le> card ((\<lambda>h. (h, u)) ` (UNIV :: u16 set))" by (intro card_mono) simp_all
  also have "\<dots> \<le> 65536" using card_image_le[of "UNIV :: u16 set" "\<lambda>h. (h, u)"] by (simp add: card_word)
  finally show ?thesis using s by simp
qed

lemma expired_handles_gone:
  assumes R: "rbtree_laws (set_tree E) wft" and inv: "list_inv E wft u st L"
    and b: "items b = []" "buf_ok (dynamic_buffers E) (max_lost_sources E) b"
  obtains st' L' b' where "get_expired_sources E st L b = Some (st', L', b')" "list_inv E wft u st' L'"
    "all_keys E st' \<subseteq> all_keys E st" "ts_mem st' = ts_mem st"
    "\<And>k. snd k \<noteq> u \<Longrightarrow> k \<in> all_keys E st' \<longleftrightarrow> k \<in> all_keys E st"
    "\<And>x. x \<in> set (items b') \<Longrightarrow> (lost_source.source_handle x, u) \<in> all_keys E st - all_keys E st' \<and>
        reported E st (lost_source.source_handle x, u) x"
proof -
  have wf: "sets_wf E wft st L" and keys: "list_keys E L = {k \<in> all_keys E st. snd k = u}"
    using inv by (simp_all add: list_inv_def)
  obtain st' L' b' where g: "get_expired_sources E st L b = Some (st', L', b')"
    "\<forall>x \<in> set (items b'). \<exists>k \<in> list_keys E (filter (due E st) L). reported E st k x"
    using get_expired_sources_returns[OF R wf b(2)] b(1) list_size_bound[OF R inv] by auto
  have removed: "all_keys E st' = all_keys E st - list_keys E (filter (due E st) L)" "ts_mem st' = ts_mem st"
    using get_expired_sources_removed[OF R wf g(1)] by blast+
  have sub: "list_keys E (filter (due E st) L) \<subseteq> {k \<in> all_keys E st. snd k = u}"
    using keys by (auto simp: list_keys_def)
  show thesis
  proof (rule that[OF g(1) get_expired_sources_inv[OF R inv g(1)]])
    show "all_keys E st' \<subseteq> all_keys E st" "ts_mem st' = ts_mem st" using removed by auto
    show "k \<in> all_keys E st' \<longleftrightarrow> k \<in> all_keys E st" if "snd k \<noteq> u" for k using removed(1) sub that by auto
    fix x assume "x \<in> set (items b')"
    then obtain k where k: "k \<in> list_keys E (filter (due E st) L)" "reported E st k x" using g(2) by blast
    then have "k = (lost_source.source_handle x, u)" using sub by (auto simp: prod_eq_iff reported_def)
    then show "(lost_source.source_handle x, u) \<in> all_keys E st - all_keys E st' \<and>
        reported E st (lost_source.source_handle x, u) x"
      using k removed(1) sub by auto
  qed
qed

end
