(* ===== verification/ReceiverInv.thy ===== *)
theory ReceiverInv
  imports ReceiverApi LossNames
begin

text \<open>
  The invariant of one receiver, and that the operations on its tracked sources keep it.
  \<^item> \<open>shared\<close>: how a receiver's tracked sources and the other users of the table of remote sources
    share its entries: each tracked handle has an entry, whose count is that of the others plus one.
  \<^item> \<open>sources_ok\<close>: the tree of tracked sources is well formed, within the limit of sources.
  \<^item> \<open>pending_ok\<close>: the termination sets are those of the receiver's universe, and name only sources
    that are tracked and have been announced to the application.
  \<^item> \<open>sampling_ok\<close>: an interface waits for a later sampling period only while one is running.
\<close>

section \<open>The library's trees and handles\<close>

record ('t, 'c, 'k, 'n, 'h) tree_wf =
  wf_cids :: "'t \<Rightarrow> bool"
  wf_handles :: "'c \<Rightarrow> bool"
  wf_sets :: "'k \<Rightarrow> bool"
  wf_netints :: "'n \<Rightarrow> bool"
  wf_receivers :: "'h \<Rightarrow> bool"
  wf_u16 :: "'c \<Rightarrow> bool"

text \<open>The handle manager gives -1 or a handle that is not in use.\<close>

definition receiver_laws ::
    "('cid::linorder, 't, 'c, 'm, 'k, 'n, 'h) receiver_ext \<Rightarrow> ('t, 'c, 'k, 'n, 'h) tree_wf \<Rightarrow> bool" where
  "receiver_laws X W \<longleftrightarrow>
     remote_laws (remotes_lib X) (wf_cids W) (wf_handles W) \<and> rbtree_laws (sets_rb X) (wf_sets W) \<and>
     rbtree_laws (netints_rb X) (wf_netints W) \<and> rbtree_laws (receivers_rb X) (wf_receivers W) \<and>
     rbtree_laws (u16_rb X) (wf_u16 W) \<and>
     (\<forall>used mgr. fst (next_receiver_handle X used mgr) = -1 \<or> \<not> used (fst (next_receiver_handle X used mgr)))"

lemma receiver_lawsD:
  assumes "receiver_laws X W"
  shows "remote_laws (remotes_lib X) (wf_cids W) (wf_handles W)" "rbtree_laws (sets_rb X) (wf_sets W)"
    "rbtree_laws (netints_rb X) (wf_netints W)" "rbtree_laws (receivers_rb X) (wf_receivers W)"
    "rbtree_laws (u16_rb X) (wf_u16 W)"
    "fst (next_receiver_handle X used mgr) \<noteq> -1 \<Longrightarrow> \<not> used (fst (next_receiver_handle X used mgr))"
  using assms unfolding receiver_laws_def by blast+

section \<open>Sharing the entries of the table\<close>

definition shared ::
    "('cid \<Rightarrow> (u16 \<times> nat) option) \<Rightarrow> ('cid \<Rightarrow> (u16 \<times> nat) option) \<Rightarrow> u16 set \<Rightarrow> bool" where
  "shared others entries S \<longleftrightarrow>
     (\<forall>c. case others c of
            Some (h, m) \<Rightarrow> 0 < m \<and> entries c = Some (h, m + of_bool (h \<in> S))
          | None \<Rightarrow> (\<forall>h n. entries c = Some (h, n) \<longrightarrow> n = 1 \<and> h \<in> S)) \<and>
     (\<forall>h \<in> S. \<exists>c n. entries c = Some (h, n))"

lemma sharedD:
  assumes "shared others entries S"
  shows "others c = Some (h, m) \<Longrightarrow> 0 < m \<and> entries c = Some (h, m + of_bool (h \<in> S))"
    "others c = None \<Longrightarrow> entries c = Some (h, n) \<Longrightarrow> n = 1 \<and> h \<in> S"
    "h \<in> S \<Longrightarrow> \<exists>c n. entries c = Some (h, n)"
proof -
  from assms have s: "case others c of Some (h, m) \<Rightarrow> 0 < m \<and> entries c = Some (h, m + of_bool (h \<in> S))
      | None \<Rightarrow> (\<forall>h n. entries c = Some (h, n) \<longrightarrow> n = 1 \<and> h \<in> S)" for c
    unfolding shared_def by blast
  show "others c = Some (h, m) \<Longrightarrow> 0 < m \<and> entries c = Some (h, m + of_bool (h \<in> S))"
    "others c = None \<Longrightarrow> entries c = Some (h, n) \<Longrightarrow> n = 1 \<and> h \<in> S"
    using s[of c] by auto
  show "h \<in> S \<Longrightarrow> \<exists>c n. entries c = Some (h, n)" using assms unfolding shared_def by blast
qed

text \<open>One more tracked source, and one less; entries of different CIDs have different handles.\<close>

lemma shared_acquire:
  assumes "shared others entries S" "entries' = entries(c \<mapsto> (h, n + 1))"
    and "entries c = (if n = 0 then None else Some (h, n))" "h \<notin> S"
    and uniq: "\<And>d m. entries' d = Some (h, m) \<Longrightarrow> d = c"
  shows "shared others entries' (insert h S)"
  unfolding shared_def
proof (intro conjI allI ballI)
  fix d
  show "case others d of Some (g, m) \<Rightarrow> 0 < m \<and> entries' d = Some (g, m + of_bool (g \<in> insert h S))
        | None \<Rightarrow> (\<forall>g m. entries' d = Some (g, m) \<longrightarrow> m = 1 \<and> g \<in> insert h S)"
  proof (cases "others d")
    case None
    have "n = 0" if "d = c" using sharedD(2)[OF assms(1) None] assms(3,4) that by (auto split: if_splits)
    then show ?thesis using None sharedD(2)[OF assms(1) None] assms(2) by auto
  next
    case (Some p)
    obtain g m where p: "others d = Some (g, m)" using Some by (cases p) auto
    note s = sharedD(1)[OF assms(1) p]
    show ?thesis
    proof (cases "d = c")
      case True
      then have "g = h" "m = n" using s assms(3,4) by (auto split: if_splits)
      then show ?thesis using s True p assms(2) by simp
    next
      case False
      then have "entries' d = Some (g, m + of_bool (g \<in> S))" using s assms(2) by simp
      moreover from this have "g \<noteq> h" using uniq False by blast
      ultimately show ?thesis using s p by simp
    qed
  qed
next
  fix g assume g: "g \<in> insert h S"
  show "\<exists>d m. entries' d = Some (g, m)"
  proof (cases "g = h")
    case True
    then have "entries' c = Some (g, n + 1)" using assms(2) by simp
    then show ?thesis by blast
  next
    case False
    obtain d m where "entries d = Some (g, m)" using sharedD(3)[OF assms(1), of g] g False by blast
    then have "entries' d = Some (g, m)" using assms(2,3) False by (auto split: if_splits)
    then show ?thesis by blast
  qed
qed

lemma shared_release:
  assumes "shared others entries S" "entries c = Some (h, n)" "h \<in> S"
    and "entries' = entries(c := if n \<le> 1 then None else Some (h, n - 1))"
    and uniq: "\<And>d m. entries d = Some (h, m) \<Longrightarrow> d = c"
  shows "shared others entries' (S - {h})"
  unfolding shared_def
proof (intro conjI allI ballI)
  fix d
  show "case others d of Some (g, m) \<Rightarrow> 0 < m \<and> entries' d = Some (g, m + of_bool (g \<in> S - {h}))
        | None \<Rightarrow> (\<forall>g m. entries' d = Some (g, m) \<longrightarrow> m = 1 \<and> g \<in> S - {h})"
  proof (cases "others d")
    case None
    have "n = 1" if "d = c" using sharedD(2)[OF assms(1) None] assms(2) that by simp
    then have "entries d = Some (g, m) \<and> d \<noteq> c" if "entries' d = Some (g, m)" for g m
      using that assms(4) by (auto split: if_splits)
    then have "m = 1 \<and> g \<in> S - {h}" if "entries' d = Some (g, m)" for g m
      using sharedD(2)[OF assms(1) None, of g m] uniq[of d m] that by blast
    then show ?thesis using None by simp
  next
    case (Some p)
    obtain g m where p: "others d = Some (g, m)" using Some by (cases p) auto
    note s = sharedD(1)[OF assms(1) p]
    show ?thesis
    proof (cases "d = c")
      case True
      then have "g = h" "n = m + 1" using s assms(2,3) by auto
      then show ?thesis using s True p assms(4) by simp
    next
      case False
      then have "entries' d = Some (g, m + of_bool (g \<in> S))" using s assms(4) by simp
      moreover have "g \<noteq> h" using uniq False s by blast
      ultimately show ?thesis using s p by simp
    qed
  qed
next
  fix g assume g: "g \<in> S - {h}"
  obtain d m where "entries d = Some (g, m)" using sharedD(3)[OF assms(1), of g] g by blast
  moreover from this have "d \<noteq> c" using assms(2) g by auto
  ultimately show "\<exists>d m. entries' d = Some (g, m)" using assms(4) by auto
qed

section \<open>The sources of a receiver\<close>

definition tracked :: "('cid, 't, 'c, 'm, 'k, 'n, 'h) receiver_ext \<Rightarrow> ('c, 'k, 'n, 'tm) receiver \<Rightarrow> u16 set" where
  "tracked X R = set (rb_iter (u16_rb X) (source_tree R))"

text \<open>The number of sources a receiver may track, \<open>None\<close> if there is no limit.\<close>

definition source_limit :: "('cid, 't, 'c, 'm, 'k, 'n, 'h) receiver_ext \<Rightarrow> ('c, 'k, 'n, 'tm) receiver \<Rightarrow> nat option" where
  "source_limit X R =
     (if receiver_source_max R = kSacnReceiverInfiniteSources
      then if dynamic_mem X then None else Some (max_sources_per_universe X)
      else if dynamic_mem X then Some (receiver_source_max R)
      else Some (min (receiver_source_max R) (max_sources_per_universe X)))"

definition sources_wf ::
    "('cid, 't, 'c, 'm, 'k, 'n, 'h) receiver_ext \<Rightarrow> ('t, 'c, 'k, 'n, 'h) tree_wf \<Rightarrow> ('c, 'k, 'n, 'tm) receiver \<Rightarrow> bool" where
  "sources_wf X W R \<longleftrightarrow>
     wf_u16 W (source_tree R) \<and> (\<forall>h \<in> tracked X R. tracked_handle (source_mem R h) = h) \<and>
     (\<forall>m. source_limit X R = Some m \<longrightarrow> card (tracked X R) \<le> m)"

definition sources_ok ::
    "('cid::linorder, 't, 'c, 'm, 'k, 'n, 'h) receiver_ext \<Rightarrow> ('t, 'c, 'k, 'n, 'h) tree_wf \<Rightarrow>
     ('cid \<Rightarrow> (u16 \<times> nat) option) \<Rightarrow> ('c, 'k, 'n, 'tm) receiver \<Rightarrow> ('cid, 't, 'c, 'm) remote_table \<Rightarrow> bool" where
  "sources_ok X W others R T \<longleftrightarrow>
     sources_wf X W R \<and> remote_inv (remotes_lib X) (wf_cids W) (wf_handles W) T \<and>
     shared others (remote_entries (remotes_lib X) T) (tracked X R)"

lemma sources_okD:
  assumes "sources_ok X W others R T"
  shows "sources_wf X W R" "remote_inv (remotes_lib X) (wf_cids W) (wf_handles W) T"
    "shared others (remote_entries (remotes_lib X) T) (tracked X R)" "wf_u16 W (source_tree R)"
    "h \<in> tracked X R \<Longrightarrow> tracked_handle (source_mem R h) = h"
    "source_limit X R = Some m \<Longrightarrow> card (tracked X R) \<le> m"
  using assms by (auto simp: sources_ok_def sources_wf_def)

lemma tracked_finds:
  assumes "receiver_laws X W" "wf_u16 W (source_tree R)"
  shows "rb_find (u16_rb X) (source_tree R) h \<longleftrightarrow> h \<in> tracked X R"
    "rb_size (u16_rb X) (source_tree R) = card (tracked X R)"
  using rb_find_iff[OF receiver_lawsD(5)[OF assms(1)] assms(2)] rb_size_iter[OF receiver_lawsD(5)[OF assms(1)] assms(2)]
    rb_distinct[OF receiver_lawsD(5)[OF assms(1)] assms(2)]
  by (simp_all add: tracked_def distinct_card)

text \<open>A sender whose source is tracked, by its entry in the table.\<close>

lemma tracked_entry:
  fixes c :: "'cid::linorder"
  assumes L: "receiver_laws X W" and ok: "sources_ok X W others R T"
  defines "h \<equiv> get_remote_source_handle (remotes_lib X) T c"
  shows "h \<in> tracked X R \<longleftrightarrow> (\<exists>n. remote_entries (remotes_lib X) T c = Some (h, n) \<and> h \<in> tracked X R)"
    "h \<in> tracked X R \<Longrightarrow> get_remote_source_cid (remotes_lib X) T h = Some c"
    "g \<in> tracked X R \<Longrightarrow> g \<noteq> kSacnRemoteSourceInvalid"
proof -
  have table: "remote_laws (remotes_lib X) (wf_cids W) (wf_handles W) \<and> remote_inv (remotes_lib X) (wf_cids W) (wf_handles W) T"
    using receiver_lawsD(1)[OF L] sources_okD(2)[OF ok] by blast
  have valid: "g \<noteq> kSacnRemoteSourceInvalid" if "g \<in> tracked X R" for g
    using sharedD(3)[OF sources_okD(3)[OF ok] that] remote_sources.entry_valid[OF table] by blast
  then show "g \<in> tracked X R \<Longrightarrow> g \<noteq> kSacnRemoteSourceInvalid" .
  show one: "h \<in> tracked X R \<longleftrightarrow> (\<exists>n. remote_entries (remotes_lib X) T c = Some (h, n) \<and> h \<in> tracked X R)"
    using valid[of h] unfolding h_def get_remote_source_handle_entries by (auto split: option.splits)
  show "h \<in> tracked X R \<Longrightarrow> get_remote_source_cid (remotes_lib X) T h = Some c"
    using one get_remote_source_cid_entries table by blast
qed

text \<open>Changes that leave the tree of sources, the handles in the structs and the limit alone.\<close>

lemma sources_ok_same:
  assumes "sources_ok X W others R T" "source_tree R' = source_tree R"
    and "\<And>h. tracked_handle (source_mem R' h) = tracked_handle (source_mem R h)"
    and "receiver_source_max R' = receiver_source_max R"
  shows "sources_ok X W others R' T"
  using assms by (simp add: sources_ok_def sources_wf_def tracked_def source_limit_def cong: if_cong)

lemma has_source_room_limit:
  assumes "receiver_laws X W" "wf_u16 W (source_tree R)"
  shows "has_source_room X R \<longleftrightarrow> (\<forall>m. source_limit X R = Some m \<longrightarrow> card (tracked X R) < m)"
  by (auto simp: has_source_room_def source_limit_def tracked_finds(2)[OF assms] Let_def)

section \<open>Adding and removing sources\<close>

lemma new_tracked_source_tree: "new_tracked_source X V (R\<lparr>source_tree := t\<rparr>) = new_tracked_source X V R"
  by (simp add: fun_eq_iff new_tracked_source_def Let_def cong: if_cong)

lemma add_tracked_cases:
  assumes L: "receiver_laws X W" and ok: "sources_ok X W others R T"
    and new: "get_remote_source_handle (remotes_lib X) T c \<notin> tracked X R"
  obtains (added) h T' t where
      "add_sacn_tracked_source X V c nm netint sn code R T =
        (kEtcPalErrOk, Some h, put_tracked_source h (new_tracked_source X V R h nm netint sn code) (R\<lparr>source_tree := t\<rparr>), T')"
      "h \<notin> tracked X R" "set (rb_iter (u16_rb X) t) = insert h (tracked X R)" "has_source_room X R"
      "\<exists>n. remote_entries (remotes_lib X) T' c = Some (h, n)"
      "sources_ok X W others (put_tracked_source h (new_tracked_source X V R h nm netint sn code) (R\<lparr>source_tree := t\<rparr>)) T'"
    | (failed) e T' where "add_sacn_tracked_source X V c nm netint sn code R T = (e, None, R, T')" "e \<noteq> kEtcPalErrOk"
      "sources_ok X W others R T'"
proof -
  have table: "remote_laws (remotes_lib X) (wf_cids W) (wf_handles W) \<and> remote_inv (remotes_lib X) (wf_cids W) (wf_handles W) T"
    using receiver_lawsD(1)[OF L] sources_okD(2)[OF ok] by blast
  note U = receiver_lawsD(5)[OF L] and wf = sources_okD(4)[OF ok]
  show thesis
  proof (cases "has_source_room X R \<and> tracked_alloc_ok V")
    case False
    then have "add_sacn_tracked_source X V c nm netint sn code R T = (kEtcPalErrNoMem, None, R, T)"
      unfolding add_sacn_tracked_source_def by simp
    then show ?thesis using failed ok by simp
  next
    case room: True
    show ?thesis
    proof (cases rule: remote_sources.acquire_cases[OF table, of "rx_remote_memory V" c, case_names acquired failed])
      case (failed e T')
      have "add_sacn_tracked_source X V c nm netint sn code R T = (e, None, R, T')"
        using room failed(1,2) by (auto simp: add_sacn_tracked_source_def split: etcpal_error.splits)
      moreover have "sources_ok X W others R T'"
        using ok failed(3,4) by (simp add: sources_ok_def)
      ultimately show ?thesis using that(2) failed(2) by blast
    next
      case (acquired h n T1)
      have uniq: "d = c" if "remote_entries (remotes_lib X) T1 d = Some (h, m)" for d m
        using remote_sources.entry_unique[OF acquired(2) that, of c "n + 1"] acquired(3) by simp
      have h: "h \<notin> tracked X R"
      proof
        assume h: "h \<in> tracked X R"
        then obtain d m where d: "remote_entries (remotes_lib X) T d = Some (h, m)"
          using sharedD(3)[OF sources_okD(3)[OF ok]] by blast
        have "d = c" using uniq[of d m] d acquired(3) by (cases "d = c") simp_all
        then have "get_remote_source_handle (remotes_lib X) T c = h" using d by (simp add: get_remote_source_handle_entries)
        then show False using h new by simp
      qed
      obtain e t where t: "rb_insert (u16_rb X) (tracked_node_ok V) (source_tree R) h = (e, t)" by (rule prod.exhaust)
      show ?thesis
      proof (cases "e = kEtcPalErrOk")
        case True
        let ?R = "put_tracked_source h (new_tracked_source X V R h nm netint sn code) (R\<lparr>source_tree := t\<rparr>)"
        have set: "set (rb_iter (u16_rb X) t) = insert h (tracked X R)" and wt: "wf_u16 W t"
          using rb_insert_Ok[OF U wf] rb_insert_wf[OF U wf t] t True by (auto simp: tracked_def)
        have eq: "add_sacn_tracked_source X V c nm netint sn code R T = (kEtcPalErrOk, Some h, ?R, T1)"
          using room acquired(1) t True by (simp add: add_sacn_tracked_source_def Let_def new_tracked_source_tree)
        have tr: "tracked X ?R = insert h (tracked X R)" using set by (simp add: tracked_def put_tracked_source_def)
        have th: "tracked_handle (new_tracked_source X V R h nm netint sn code) = h"
          by (simp add: new_tracked_source_def Let_def)
        have lim: "card (tracked X ?R) \<le> m" if "source_limit X ?R = Some m" for m
        proof -
          have "source_limit X R = Some m" using that by (simp add: source_limit_def put_tracked_source_def cong: if_cong)
          then have "card (tracked X R) < m" using room has_source_room_limit[OF L wf] by blast
          then show ?thesis using h tr by (simp add: tracked_def)
        qed
        have "sources_wf X W ?R"
          using lim wt sources_okD(5)[OF ok] th unfolding sources_wf_def tr
          by (auto simp: put_tracked_source_def)
        moreover have "shared others (remote_entries (remotes_lib X) T1) (tracked X ?R)"
          unfolding tr by (rule shared_acquire[OF sources_okD(3)[OF ok] acquired(3,4) h uniq])
        ultimately have "sources_ok X W others ?R T1" using acquired(2) by (simp add: sources_ok_def)
        moreover have "\<exists>n. remote_entries (remotes_lib X) T1 c = Some (h, n)" using acquired(3) by simp
        ultimately show ?thesis using that(1)[OF eq h set] room by blast
      next
        case False
        obtain T2 where T2: "remove_remote_source_handle (remotes_lib X) h T1 = (kEtcPalErrOk, T2)"
          "remote_inv (remotes_lib X) (wf_cids W) (wf_handles W) T2"
          "remote_entries (remotes_lib X) T2 = remote_entries (remotes_lib X) T"
          using remote_sources.acquire_release[OF table acquired(1)] by blast
        have td: "t = source_tree R" by (rule rb_insert_fail[OF U wf t False])
        have "add_sacn_tracked_source X V c nm netint sn code R T = (e, None, R, T2)"
          using room acquired(1) t td False T2(1) by (simp add: add_sacn_tracked_source_def)
        moreover have "sources_ok X W others R T2" using ok T2(2,3) by (simp add: sources_ok_def)
        ultimately show ?thesis using that(2) False by blast
      qed
    qed
  qed
qed

lemma dealloc_shared:
  assumes L: "receiver_laws X W" and inv: "remote_inv (remotes_lib X) (wf_cids W) (wf_handles W) T"
    and sh: "shared others (remote_entries (remotes_lib X) T) S" and h: "h \<in> S" "tracked_handle (source_mem R h) = h"
  shows "remote_inv (remotes_lib X) (wf_cids W) (wf_handles W) (tracked_source_tree_dealloc X R h T) \<and>
    shared others (remote_entries (remotes_lib X) (tracked_source_tree_dealloc X R h T)) (S - {h})"
proof -
  have table: "remote_laws (remotes_lib X) (wf_cids W) (wf_handles W) \<and> remote_inv (remotes_lib X) (wf_cids W) (wf_handles W) T"
    using receiver_lawsD(1)[OF L] inv by blast
  obtain c n where c: "remote_entries (remotes_lib X) T c = Some (h, n)" using sharedD(3)[OF sh h(1)] by blast
  obtain T' where T': "remove_remote_source_handle (remotes_lib X) h T = (kEtcPalErrOk, T')"
    "remote_inv (remotes_lib X) (wf_cids W) (wf_handles W) T'"
    "remote_entries (remotes_lib X) T' = (remote_entries (remotes_lib X) T)(c := if n \<le> 1 then None else Some (h, n - 1))"
    using remote_sources.release_entry[OF table c] by blast
  have "shared others (remote_entries (remotes_lib X) T') (S - {h})"
    by (rule shared_release[OF sh c h(1) T'(3)]) (use remote_sources.entry_unique[OF table] c in blast)
  then show ?thesis using T'(1,2) h(2) by (simp add: tracked_source_tree_dealloc_def)
qed

lemma deallocs_shared:
  assumes L: "receiver_laws X W" and th: "\<forall>h \<in> set hs. tracked_handle (source_mem R h) = h"
  shows "remote_inv (remotes_lib X) (wf_cids W) (wf_handles W) T \<Longrightarrow>
    shared others (remote_entries (remotes_lib X) T) S \<Longrightarrow> set hs \<subseteq> S \<Longrightarrow> distinct hs \<Longrightarrow>
    remote_inv (remotes_lib X) (wf_cids W) (wf_handles W) (fold (tracked_source_tree_dealloc X R) hs T) \<and>
    shared others (remote_entries (remotes_lib X) (fold (tracked_source_tree_dealloc X R) hs T)) (S - set hs)"
  using th
proof (induction hs arbitrary: T S)
  case Nil
  then show ?case by simp
next
  case (Cons h hs)
  have one: "h \<in> S" "tracked_handle (source_mem R h) = h" using Cons.prems by simp_all
  have rest: "set hs \<subseteq> S - {h}" "distinct hs" "\<forall>h \<in> set hs. tracked_handle (source_mem R h) = h" using Cons.prems by auto
  have d: "S - insert h (set hs) = S - {h} - set hs" by blast
  from dealloc_shared[OF L Cons.prems(1,2) one] have
    "remote_inv (remotes_lib X) (wf_cids W) (wf_handles W) (tracked_source_tree_dealloc X R h T)"
    "shared others (remote_entries (remotes_lib X) (tracked_source_tree_dealloc X R h T)) (S - {h})" by blast+
  from Cons.IH[OF this rest] show ?case unfolding fold_simps list.set d .
qed

lemma release_tracked:
  assumes L: "receiver_laws X W" and ok: "sources_ok X W others R T" and h: "h \<in> tracked X R"
    and t: "wf_u16 W t" "set (rb_iter (u16_rb X) t) = tracked X R - {h}"
  shows "sources_ok X W others (R\<lparr>source_tree := t\<rparr>) (tracked_source_tree_dealloc X R h T)"
proof -
  have tr: "tracked X (R\<lparr>source_tree := t\<rparr>) = tracked X R - {h}" using t(2) by (simp add: tracked_def)
  have "card (tracked X R - {h}) \<le> m" if "source_limit X R = Some m" for m
    using sources_okD(6)[OF ok that] card_Diff1_le[of "tracked X R" h] by simp
  then have "sources_wf X W (R\<lparr>source_tree := t\<rparr>)"
    using t(1) sources_okD(5)[OF ok] unfolding sources_wf_def tr by (simp add: source_limit_def cong: if_cong)
  then show ?thesis
    using dealloc_shared[OF L sources_okD(2,3)[OF ok] h sources_okD(5)[OF ok h]] unfolding sources_ok_def tr by blast
qed

lemma remove_source_effect:
  assumes L: "receiver_laws X W" and ok: "sources_ok X W others R T" and r: "remove_receiver_source X h (R, T) = (R', T')"
  shows "sources_ok X W others R' T'" "tracked X R' = tracked X R - {h}" "\<exists>t. R' = R\<lparr>source_tree := t\<rparr>"
proof -
  note U = receiver_lawsD(5)[OF L] and wf = sources_okD(4)[OF ok]
  obtain e t where t: "rb_remove (u16_rb X) (source_tree R) h = (e, t)" by (rule prod.exhaust)
  have all: "sources_ok X W others R' T' \<and> tracked X R' = tracked X R - {h} \<and> (\<exists>t. R' = R\<lparr>source_tree := t\<rparr>)"
  proof (cases "h \<in> tracked X R")
    case True
    then have e: "e = kEtcPalErrOk" "set (rb_iter (u16_rb X) t) = tracked X R - {h}" "wf_u16 W t"
      using rb_remove_Ok[OF U wf, of h] rb_remove_wf[OF U wf t] t by (simp_all add: tracked_def)
    have "h \<noteq> kSacnRemoteSourceInvalid" by (rule tracked_entry(3)[OF L ok True])
    then have "R' = R\<lparr>source_tree := t\<rparr>" "T' = tracked_source_tree_dealloc X R h T"
      using r t e(1) by (auto simp: remove_receiver_source_def tracked_source_tree_dealloc_def)
    then show ?thesis using release_tracked[OF L ok True e(3,2)] e(2) by (auto simp: tracked_def)
  next
    case False
    then have "rb_remove (u16_rb X) (source_tree R) h = (kEtcPalErrNotFound, source_tree R)"
      using rb_remove_absent[OF U wf] by (simp add: tracked_def)
    then have "R' = R" "T' = T" using r by (auto simp: remove_receiver_source_def split: if_splits)
    then show ?thesis using ok False by (auto intro: exI[of _ "source_tree R"])
  qed
  then show "sources_ok X W others R' T'" "tracked X R' = tracked X R - {h}" "\<exists>t. R' = R\<lparr>source_tree := t\<rparr>" by blast+
qed

lemma remove_sources_effect:
  assumes L: "receiver_laws X W"
  shows "sources_ok X W others R T \<Longrightarrow> fold (remove_receiver_source X) hs (R, T) = (R', T') \<Longrightarrow>
    sources_ok X W others R' T' \<and> tracked X R' = tracked X R - set hs \<and> (\<exists>t. R' = R\<lparr>source_tree := t\<rparr>)"
proof (induction hs arbitrary: R T)
  case Nil
  then show ?case by (auto intro: exI[of _ "source_tree R'"])
next
  case (Cons h hs)
  obtain R1 T1 where r: "remove_receiver_source X h (R, T) = (R1, T1)" by (rule prod.exhaust)
  note e = remove_source_effect[OF L Cons.prems(1) r]
  have "fold (remove_receiver_source X) hs (R1, T1) = (R', T')" using Cons.prems(2) r by simp
  from Cons.IH[OF e(1) this] e(2,3) show ?case by auto
qed

text \<open>Clearing the tree releases every handle.\<close>

lemma clear_sources_effect:
  assumes L: "receiver_laws X W" and ok: "sources_ok X W others R T"
  obtains t T' where "clear_sources X R T = (kEtcPalErrOk, R\<lparr>source_tree := t\<rparr>, T')"
    "sources_ok X W others (R\<lparr>source_tree := t\<rparr>) T'" "tracked X (R\<lparr>source_tree := t\<rparr>) = {}"
proof -
  note U = receiver_lawsD(5)[OF L] and wf = sources_okD(4)[OF ok]
  obtain e t where t: "rb_clear (u16_rb X) (source_tree R) = (e, t)" by (rule prod.exhaust)
  have c: "e = kEtcPalErrOk" "wf_u16 W t" "rb_iter (u16_rb X) t = []"
    using U wf t by (auto simp: rbtree_laws_def)
  let ?hs = "rb_iter (u16_rb X) (source_tree R)" and ?R = "R\<lparr>source_tree := t\<rparr>"
  define T' where "T' = fold (tracked_source_tree_dealloc X R) ?hs T"
  have tr: "tracked X ?R = {}" using c(3) by (simp add: tracked_def)
  have "\<forall>h \<in> set ?hs. tracked_handle (source_mem R h) = h" using sources_okD(5)[OF ok] by (simp add: tracked_def)
  from deallocs_shared[OF L this sources_okD(2,3)[OF ok]] have
    "remote_inv (remotes_lib X) (wf_cids W) (wf_handles W) T'" "shared others (remote_entries (remotes_lib X) T') (tracked X ?R)"
    using rb_distinct[OF U wf] tr by (simp_all add: tracked_def T'_def)
  moreover have "sources_wf X W ?R" using c(2) unfolding sources_wf_def tr by simp
  ultimately have "sources_ok X W others ?R T'" by (simp add: sources_ok_def)
  moreover have "clear_sources X R T = (kEtcPalErrOk, ?R, T')" using t c(1) by (simp add: clear_sources_def T'_def)
  ultimately show ?thesis using that tr by blast
qed

section \<open>Termination sets\<close>

definition pending ::
    "('cid, 't, 'c, 'm, 'k, 'n, 'h) receiver_ext \<Rightarrow> 'k loss_state \<Rightarrow> ts_key set" where
  "pending X st = set (rb_iter (sets_rb X) (term_set_sources st))"

definition waiting_for_pap ::
    "('cid, 't, 'c, 'm, 'k, 'n, 'h) receiver_ext \<Rightarrow> 'tm tracked_source \<Rightarrow> bool" where
  "waiting_for_pap X src \<longleftrightarrow> priority_extension X \<and> recv_state src = kRecvStateWaitingForPap"

text \<open>A tracked source with its name that the receiver has delivered data of.\<close>

definition announced ::
    "('cid, 't, 'c, 'm, 'k, 'n, 'h) receiver_ext \<Rightarrow> ('c, 'k, 'n, 'tm) receiver \<Rightarrow> u16 \<Rightarrow> u8 list \<Rightarrow> bool" where
  "announced X R h nm \<longleftrightarrow> h \<in> tracked X R \<and> nm = tracked_name (source_mem R h) \<and> \<not> waiting_for_pap X (source_mem R h)"

definition pending_ok ::
    "('cid, 't, 'c, 'm, 'k, 'n, 'h) receiver_ext \<Rightarrow> ('t, 'c, 'k, 'n, 'h) tree_wf \<Rightarrow> ('c, 'k, 'n, 'tm) receiver \<Rightarrow>
     'k loss_state \<Rightarrow> bool" where
  "pending_ok X W R st \<longleftrightarrow>
     (\<forall>V T. list_inv (loss_environment X V T) (wf_sets W) (receiver_universe R) st (term_sets R)) \<and>
     (\<forall>k \<in> pending X st. snd k = receiver_universe R \<longrightarrow> announced X R (fst k) (ts_name (ts_mem st k)))"

lemma loss_environment_simps [simp]:
  "set_tree (loss_environment X V T) = sets_rb X" "dynamic_buffers (loss_environment X V T) = dynamic_mem X"
  "max_lost_sources (loss_environment X V T) = max_sources_per_universe X"
  "remote_source_cid (loss_environment X V T) = get_remote_source_cid (remotes_lib X) T"
  by (simp_all add: loss_environment_def)

lemma all_keys_pending: "all_keys (loss_environment X V T) st = pending X st"
  by (simp add: all_keys_def pending_def)

lemma pending_ok_iff:
  fixes V :: "'tm receiver_call" and R :: "('c, 'k, 'n, 'tm) receiver"
  shows "pending_ok X W R st \<longleftrightarrow>
     list_inv (loss_environment X V T) (wf_sets W) (receiver_universe R) st (term_sets R) \<and>
     named (loss_environment X V T) (receiver_universe R) (announced X R) st"
proof -
  have "list_inv (loss_environment X V' T') = list_inv (loss_environment X V T)" for V' :: "'tm receiver_call" and T'
    by (rule keys_tree_cong(5)) simp
  then have "(\<forall>V T. list_inv (loss_environment X V T) (wf_sets W) (receiver_universe R) st (term_sets R)) \<longleftrightarrow>
      list_inv (loss_environment X V T) (wf_sets W) (receiver_universe R) st (term_sets R)"
    by metis
  then show ?thesis by (simp add: pending_ok_def named_def all_keys_pending)
qed

lemma pending_ok_announced:
  assumes "pending_ok X W R st" "receiver_universe R' = receiver_universe R" "term_sets R' = term_sets R"
    and "\<And>h nm. (h, receiver_universe R) \<in> pending X st \<Longrightarrow> announced X R h nm \<Longrightarrow> announced X R' h nm"
  shows "pending_ok X W R' st"
  using assms unfolding pending_ok_def by (metis prod.collapse)

lemma pending_ok_other:
  fixes R :: "('c, 'k, 'n, 'tm) receiver"
  assumes "pending_ok X W R st" "wf_sets W (term_set_sources st')"
    and "\<And>k. snd k = receiver_universe R \<Longrightarrow> k \<in> pending X st' \<longleftrightarrow> k \<in> pending X st"
    and "\<And>k. snd k = receiver_universe R \<Longrightarrow> k \<in> pending X st \<Longrightarrow> ts_mem st' k = ts_mem st k"
  shows "pending_ok X W R st'"
  unfolding pending_ok_def
proof (intro conjI allI)
  fix V :: "'tm receiver_call" and T
  show "list_inv (loss_environment X V T) (wf_sets W) (receiver_universe R) st' (term_sets R)"
    by (rule list_inv_other[of _ _ _ st]) (use assms(1-3) in \<open>simp_all add: pending_ok_def all_keys_pending\<close>)
next
  show "\<forall>k \<in> pending X st'. snd k = receiver_universe R \<longrightarrow> announced X R (fst k) (ts_name (ts_mem st' k))"
    using assms(1,3,4) unfolding pending_ok_def by metis
qed

text \<open>A tracked source whose struct changes keeps its name, and does not go back to waiting.\<close>

lemma pending_ok_put:
  assumes "pending_ok X W R st" "tracked_name src = tracked_name (source_mem R h)"
    and "waiting_for_pap X src \<Longrightarrow> waiting_for_pap X (source_mem R h)"
  shows "pending_ok X W (put_tracked_source h src R) st"
  by (rule pending_ok_announced[OF assms(1)])
     (use assms(2,3) in \<open>auto simp: put_tracked_source_def announced_def tracked_def\<close>)

section \<open>Sampling periods\<close>

definition sampled :: "('cid, 't, 'c, 'm, 'k, 'n, 'h) receiver_ext \<Rightarrow> 'n sampling_netints \<Rightarrow> netint_id set" where
  "sampled X S = set (rb_iter (netints_rb X) (sp_tree S))"

definition sampling_ok ::
    "('cid, 't, 'c, 'm, 'k, 'n, 'h) receiver_ext \<Rightarrow> ('t, 'c, 'k, 'n, 'h) tree_wf \<Rightarrow> ('c, 'k, 'n, 'tm) receiver \<Rightarrow> bool" where
  "sampling_ok X W R \<longleftrightarrow>
     wf_netints W (sp_tree (sampling_period_netints R)) \<and>
     (\<not> sampling R \<longrightarrow>
        (\<forall>n \<in> sampled X (sampling_period_netints R). \<not> in_future_sampling_period (sampling_period_netints R) n))"

lemma sampling_ok_same:
  "sampling_ok X W R \<Longrightarrow> sampling_period_netints R' = sampling_period_netints R \<Longrightarrow> sampling R' = sampling R \<Longrightarrow> sampling_ok X W R'"
  by (simp add: sampling_ok_def)

lemma begin_sampling_ok:
  assumes "sampling_ok X W R"
  shows "sampling_ok X W (begin_sampling_period V R)" "sampling (begin_sampling_period V R)"
  using assms by (auto simp: sampling_ok_def begin_sampling_period_def)

text \<open>The loop ends with the interfaces that wait for a later period.\<close>

lemma remove_current_step:
  "remove_current_sampling_period_netints X S =
     (case find (\<lambda>n. \<not> in_future_sampling_period S n) (rb_iter (netints_rb X) (sp_tree S)) of
        None \<Rightarrow> Some S
      | Some n \<Rightarrow> remove_current_sampling_period_netints X (S\<lparr>sp_tree := snd (rb_remove (netints_rb X) (sp_tree S) n)\<rparr>))"
  by (rule remove_current_sampling_period_netints.simps)

lemma remove_current_ends:
  assumes L: "receiver_laws X W"
  shows "wf_netints W (sp_tree S) \<Longrightarrow>
    \<exists>t. remove_current_sampling_period_netints X S = Some (S\<lparr>sp_tree := t\<rparr>) \<and> wf_netints W t \<and>
      set (rb_iter (netints_rb X) t) = {n \<in> sampled X S. in_future_sampling_period S n}"
proof (induction "card (sampled X S)" arbitrary: S rule: less_induct)
  case less
  note N = receiver_lawsD(3)[OF L]
  let ?find = "find (\<lambda>n. \<not> in_future_sampling_period S n) (rb_iter (netints_rb X) (sp_tree S))"
  show ?case
  proof (cases ?find)
    case None
    then have all: "\<forall>n \<in> sampled X S. in_future_sampling_period S n" by (auto simp: find_None_iff sampled_def)
    have "remove_current_sampling_period_netints X S = Some (S\<lparr>sp_tree := sp_tree S\<rparr>)"
      by (subst remove_current_step) (simp add: None)
    moreover have "set (rb_iter (netints_rb X) (sp_tree S)) = {n \<in> sampled X S. in_future_sampling_period S n}"
      using all by (auto simp: sampled_def)
    ultimately show ?thesis using less.prems by blast
  next
    case (Some n)
    then have n: "n \<in> sampled X S" "\<not> in_future_sampling_period S n" by (auto simp: find_Some_iff sampled_def)
    obtain e t where t: "rb_remove (netints_rb X) (sp_tree S) n = (e, t)" by (rule prod.exhaust)
    let ?S = "S\<lparr>sp_tree := t\<rparr>"
    have r: "wf_netints W t" "set (rb_iter (netints_rb X) t) = sampled X S - {n}"
      using rb_remove_Ok[OF N less.prems, of n] rb_remove_wf[OF N less.prems t] t n(1) by (simp_all add: sampled_def)
    have sub: "sampled X ?S = sampled X S - {n}" using r(2) by (simp add: sampled_def)
    have "card (sampled X ?S) < card (sampled X S)"
      unfolding sub using n(1) by (intro card_Diff1_less) (simp_all add: sampled_def)
    from less.hyps[OF this] r(1) obtain t' where t': "remove_current_sampling_period_netints X ?S = Some (?S\<lparr>sp_tree := t'\<rparr>)"
      "wf_netints W t'" "set (rb_iter (netints_rb X) t') = {m \<in> sampled X ?S. in_future_sampling_period ?S m}" by auto
    have "remove_current_sampling_period_netints X S = Some (S\<lparr>sp_tree := t'\<rparr>)"
      by (subst remove_current_step) (use Some t t'(1) in simp)
    moreover have "set (rb_iter (netints_rb X) t') = {m \<in> sampled X S. in_future_sampling_period S m}"
      using t'(3) sub n(2) by auto
    ultimately show ?thesis using t'(2) by blast
  qed
qed

lemma fold_not_future: "fold (\<lambda>n future. future(n := False)) ns f = (\<lambda>n. f n \<and> n \<notin> set ns)"
  by (induction ns arbitrary: f) auto

text \<open>The end of a period: the interfaces that waited are sampled next, if there are any.\<close>

lemma end_sampling_effect:
  assumes L: "receiver_laws X W" and ok: "sampling_ok X W R"
  obtains R' where "end_current_sampling_period X V R = Some R'" "sampling_ok X W R'"
    "sampled X (sampling_period_netints R') = {n \<in> sampled X (sampling_period_netints R). in_future_sampling_period (sampling_period_netints R) n}"
    "sampling R' \<longleftrightarrow> sampled X (sampling_period_netints R') \<noteq> {}"
    "\<forall>n \<in> sampled X (sampling_period_netints R'). \<not> in_future_sampling_period (sampling_period_netints R') n"
    "R' = R\<lparr>sampling_period_netints := sampling_period_netints R', sampling := sampling R',
           notified_sampling_started := notified_sampling_started R', sample_timer := sample_timer R'\<rparr>"
    "sampling R' \<Longrightarrow> \<not> notified_sampling_started R' \<and> sample_timer R' = rx_start V kSacnSampleTime"
    "\<not> sampling R' \<Longrightarrow> notified_sampling_started R' = notified_sampling_started R"
proof -
  let ?S = "sampling_period_netints R"
  have w: "wf_netints W (sp_tree ?S)" using ok by (simp add: sampling_ok_def)
  obtain t where t: "remove_current_sampling_period_netints X ?S = Some (?S\<lparr>sp_tree := t\<rparr>)" "wf_netints W t"
    "set (rb_iter (netints_rb X) t) = {n \<in> sampled X ?S. in_future_sampling_period ?S n}"
    using remove_current_ends[OF L w] by blast
  define S where "S = ?S\<lparr>sp_tree := t\<rparr>"
  have size: "rb_size (netints_rb X) t > 0 \<longleftrightarrow> set (rb_iter (netints_rb X) t) \<noteq> {}"
    using rb_size_iter[OF receiver_lawsD(3)[OF L] t(2)] by simp
  show thesis
  proof (cases "rb_size (netints_rb X) t > 0")
    case True
    let ?R = "begin_sampling_period V (R\<lparr>sampling_period_netints :=
        S\<lparr>in_future_sampling_period := fold (\<lambda>n future. future(n := False)) (rb_iter (netints_rb X) t) (in_future_sampling_period S)\<rparr>,
        sampling := False\<rparr>)"
    have eq: "end_current_sampling_period X V R = Some ?R"
      using t(1) True by (simp add: end_current_sampling_period_def S_def begin_sampling_period_def)
    show ?thesis
      by (rule that[OF eq])
         (use t(2,3) size True in \<open>auto simp: sampling_ok_def begin_sampling_period_def S_def sampled_def fold_not_future\<close>)
  next
    case False
    let ?R = "R\<lparr>sampling_period_netints := S, sampling := False\<rparr>"
    have eq: "end_current_sampling_period X V R = Some ?R"
      using t(1) False by (simp add: end_current_sampling_period_def S_def)
    show ?thesis
      by (rule that[OF eq]) (use t(2,3) size False in \<open>auto simp: sampling_ok_def S_def sampled_def\<close>)
  qed
qed

end
