(* ===== verification/ReceiverModule.thy ===== *)
theory ReceiverModule
  imports ReceiverInv
begin

text \<open>
  The invariant of all receivers of the module.
  \<^item> \<open>keyed\<close>: the trees by handle and by universe point to the same receivers, one for each universe.
  \<^item> \<open>threads_ok\<close>: every receiver is in the list of its thread and in no other, once, and the threads'
    counts are the lengths of their lists.
  \<^item> \<open>accounted\<close>: the count of an entry of the table of remote sources is the number of receivers
    that track its handle plus \<open>outside c\<close>, the users outside the receivers (the source detector).
  \<^item> \<open>module_put\<close>: an operation on one receiver keeps the invariant if it keeps the receiver's own
    and leaves the termination sets of other universes alone.
\<close>

section \<open>The invariant\<close>

definition receivers ::
    "('cid, 't, 'c, 'm, 'k, 'n, 'h) receiver_ext \<Rightarrow> ('cid, 't, 'c, 'm, 'k, 'n, 'h, 'tm) receiver_module \<Rightarrow> int set" where
  "receivers X M = set (rb_iter (receivers_rb X) (handle_tree_of_receivers M))"

definition receiver_universes ::
    "('cid, 't, 'c, 'm, 'k, 'n, 'h) receiver_ext \<Rightarrow> ('cid, 't, 'c, 'm, 'k, 'n, 'h, 'tm) receiver_module \<Rightarrow> u16 set" where
  "receiver_universes X M = set (rb_iter (u16_rb X) (universe_tree_of_receivers M))"

definition keyed ::
    "('cid, 't, 'c, 'm, 'k, 'n, 'h) receiver_ext \<Rightarrow> ('t, 'c, 'k, 'n, 'h) tree_wf \<Rightarrow>
     ('cid, 't, 'c, 'm, 'k, 'n, 'h, 'tm) receiver_module \<Rightarrow> bool" where
  "keyed X W M \<longleftrightarrow>
     wf_receivers W (handle_tree_of_receivers M) \<and> wf_u16 W (universe_tree_of_receivers M) \<and>
     (\<forall>r \<in> receivers X M. r \<noteq> kSacnReceiverInvalid \<and> receiver_handle (receiver_mem M r) = r \<and>
        receiver_universe (receiver_mem M r) \<in> receiver_universes X M \<and>
        universe_receiver M (receiver_universe (receiver_mem M r)) = r) \<and>
     (\<forall>u \<in> receiver_universes X M. universe_receiver M u \<in> receivers X M \<and>
        receiver_universe (receiver_mem M (universe_receiver M u)) = u)"

definition threads_ok ::
    "('cid, 't, 'c, 'm, 'k, 'n, 'h) receiver_ext \<Rightarrow> ('cid, 't, 'c, 'm, 'k, 'n, 'h, 'tm) receiver_module \<Rightarrow> bool" where
  "threads_ok X M \<longleftrightarrow>
     (\<forall>i < length (contexts M).
        distinct (ctx_receivers (contexts M ! i)) \<and>
        ctx_num_receivers (contexts M ! i) = length (ctx_receivers (contexts M ! i)) \<and>
        set (ctx_receivers (contexts M ! i)) = {r \<in> receivers X M. receiver_thread (receiver_mem M r) = Some i}) \<and>
     (\<forall>r \<in> receivers X M. \<exists>i < length (contexts M). receiver_thread (receiver_mem M r) = Some i)"

definition users ::
    "('cid, 't, 'c, 'm, 'k, 'n, 'h) receiver_ext \<Rightarrow> ('cid, 't, 'c, 'm, 'k, 'n, 'h, 'tm) receiver_module \<Rightarrow> u16 \<Rightarrow> nat" where
  "users X M h = card {r \<in> receivers X M. h \<in> tracked X (receiver_mem M r)}"

definition accounted ::
    "('cid, 't, 'c, 'm, 'k, 'n, 'h) receiver_ext \<Rightarrow> ('cid \<Rightarrow> nat) \<Rightarrow>
     ('cid, 't, 'c, 'm, 'k, 'n, 'h, 'tm) receiver_module \<Rightarrow> bool" where
  "accounted X outside M \<longleftrightarrow>
     (\<forall>c. case remote_entries (remotes_lib X) (remotes M) c of
            None \<Rightarrow> outside c = 0
          | Some (h, n) \<Rightarrow> n = outside c + users X M h) \<and>
     (\<forall>r \<in> receivers X M. \<forall>h \<in> tracked X (receiver_mem M r).
        \<exists>c n. remote_entries (remotes_lib X) (remotes M) c = Some (h, n))"

definition receivers_inv ::
    "('cid::linorder, 't, 'c, 'm, 'k, 'n, 'h) receiver_ext \<Rightarrow> ('t, 'c, 'k, 'n, 'h) tree_wf \<Rightarrow> ('cid \<Rightarrow> nat) \<Rightarrow>
     ('cid, 't, 'c, 'm, 'k, 'n, 'h, 'tm) receiver_module \<Rightarrow> bool" where
  "receivers_inv X W outside M \<longleftrightarrow>
     keyed X W M \<and> threads_ok X M \<and> accounted X outside M \<and>
     remote_inv (remotes_lib X) (wf_cids W) (wf_handles W) (remotes M) \<and>
     wf_sets W (term_set_sources (loss M)) \<and> (\<forall>k \<in> pending X (loss M). snd k \<in> receiver_universes X M) \<and>
     (\<forall>r \<in> receivers X M. sources_wf X W (receiver_mem M r) \<and> pending_ok X W (receiver_mem M r) (loss M) \<and>
        sampling_ok X W (receiver_mem M r))"

lemma receivers_invD:
  assumes "receivers_inv X W outside M"
  shows "keyed X W M" "threads_ok X M" "accounted X outside M"
    "remote_inv (remotes_lib X) (wf_cids W) (wf_handles W) (remotes M)" "wf_sets W (term_set_sources (loss M))"
    "k \<in> pending X (loss M) \<Longrightarrow> snd k \<in> receiver_universes X M"
    "r \<in> receivers X M \<Longrightarrow> sources_wf X W (receiver_mem M r)"
    "r \<in> receivers X M \<Longrightarrow> pending_ok X W (receiver_mem M r) (loss M)"
    "r \<in> receivers X M \<Longrightarrow> sampling_ok X W (receiver_mem M r)"
  using assms unfolding receivers_inv_def by blast+

lemma keyedD:
  assumes "keyed X W M"
  shows "wf_receivers W (handle_tree_of_receivers M)" "wf_u16 W (universe_tree_of_receivers M)"
    "r \<in> receivers X M \<Longrightarrow> r \<noteq> kSacnReceiverInvalid" "r \<in> receivers X M \<Longrightarrow> receiver_handle (receiver_mem M r) = r"
    "r \<in> receivers X M \<Longrightarrow> receiver_universe (receiver_mem M r) \<in> receiver_universes X M"
    "r \<in> receivers X M \<Longrightarrow> universe_receiver M (receiver_universe (receiver_mem M r)) = r"
    "u \<in> receiver_universes X M \<Longrightarrow> universe_receiver M u \<in> receivers X M"
    "u \<in> receiver_universes X M \<Longrightarrow> receiver_universe (receiver_mem M (universe_receiver M u)) = u"
  using assms unfolding keyed_def by blast+

lemma accountedD:
  assumes "accounted X outside M"
  shows "remote_entries (remotes_lib X) (remotes M) c = None \<Longrightarrow> outside c = 0"
    "remote_entries (remotes_lib X) (remotes M) c = Some (h, n) \<Longrightarrow> n = outside c + users X M h"
    "r \<in> receivers X M \<Longrightarrow> h \<in> tracked X (receiver_mem M r) \<Longrightarrow>
      \<exists>c n. remote_entries (remotes_lib X) (remotes M) c = Some (h, n)"
proof -
  have c: "case remote_entries (remotes_lib X) (remotes M) c of None \<Rightarrow> outside c = 0
      | Some (h, n) \<Rightarrow> n = outside c + users X M h" for c
    using assms unfolding accounted_def by blast
  show "remote_entries (remotes_lib X) (remotes M) c = None \<Longrightarrow> outside c = 0"
    "remote_entries (remotes_lib X) (remotes M) c = Some (h, n) \<Longrightarrow> n = outside c + users X M h"
    using c[of c] by auto
  show "r \<in> receivers X M \<Longrightarrow> h \<in> tracked X (receiver_mem M r) \<Longrightarrow>
      \<exists>c n. remote_entries (remotes_lib X) (remotes M) c = Some (h, n)"
    using assms unfolding accounted_def by blast
qed

text \<open>Lookups find the receivers.\<close>

lemma lookup_receiver_iff:
  assumes "receiver_laws X W" "wf_receivers W (handle_tree_of_receivers M)"
  shows "lookup_receiver X M h = (if h \<in> receivers X M then Some h else None)"
  using rb_find_iff[OF receiver_lawsD(4)[OF assms(1)] assms(2)] by (simp add: lookup_receiver_def receivers_def)

lemma lookup_universe_iff:
  assumes "receiver_laws X W" "wf_u16 W (universe_tree_of_receivers M)"
  shows "lookup_receiver_by_universe X M u = (if u \<in> receiver_universes X M then Some (universe_receiver M u) else None)"
  using rb_find_iff[OF receiver_lawsD(5)[OF assms(1)] assms(2)]
  by (simp add: lookup_receiver_by_universe_def receiver_universes_def)

lemma finite_receivers [simp]: "finite (receivers X M)"
  by (simp add: receivers_def)

section \<open>One receiver and the others\<close>

definition others ::
    "('cid, 't, 'c, 'm, 'k, 'n, 'h) receiver_ext \<Rightarrow> ('cid, 't, 'c, 'm, 'k, 'n, 'h, 'tm) receiver_module \<Rightarrow> int \<Rightarrow>
     'cid \<Rightarrow> (u16 \<times> nat) option" where
  "others X M r c =
     (case remote_entries (remotes_lib X) (remotes M) c of
        None \<Rightarrow> None
      | Some (h, n) \<Rightarrow>
          let m = n - of_bool (r \<in> receivers X M \<and> h \<in> tracked X (receiver_mem M r)) in if m = 0 then None else Some (h, m))"

definition other_users ::
    "('cid, 't, 'c, 'm, 'k, 'n, 'h) receiver_ext \<Rightarrow> ('cid, 't, 'c, 'm, 'k, 'n, 'h, 'tm) receiver_module \<Rightarrow> int \<Rightarrow> u16 \<Rightarrow> nat" where
  "other_users X M r h = card {s \<in> receivers X M. s \<noteq> r \<and> h \<in> tracked X (receiver_mem M s)}"

lemma users_split:
  "users X M h = other_users X M r h + of_bool (r \<in> receivers X M \<and> h \<in> tracked X (receiver_mem M r))"
proof -
  let ?O = "{s \<in> receivers X M. s \<noteq> r \<and> h \<in> tracked X (receiver_mem M s)}"
  have "{s \<in> receivers X M. h \<in> tracked X (receiver_mem M s)} =
      (if r \<in> receivers X M \<and> h \<in> tracked X (receiver_mem M r) then insert r ?O else ?O)"
    by auto
  then show ?thesis by (simp add: users_def other_users_def)
qed

text \<open>An entry that the others hold, and one that nobody else does.\<close>

lemma others_Some:
  assumes "accounted X outside M" "others X M r c = Some (h, m)"
  shows "m = outside c + other_users X M r h" "0 < m"
    "remote_entries (remotes_lib X) (remotes M) c =
       Some (h, m + of_bool (r \<in> receivers X M \<and> h \<in> tracked X (receiver_mem M r)))"
proof -
  obtain n where n: "remote_entries (remotes_lib X) (remotes M) c = Some (h, n)"
    "m = n - of_bool (r \<in> receivers X M \<and> h \<in> tracked X (receiver_mem M r))" "0 < m"
    using assms(2) by (auto simp: others_def Let_def split: option.splits if_splits)
  have "n = outside c + users X M h" by (rule accountedD(2)[OF assms(1) n(1)])
  then show "m = outside c + other_users X M r h" "0 < m"
    "remote_entries (remotes_lib X) (remotes M) c =
       Some (h, m + of_bool (r \<in> receivers X M \<and> h \<in> tracked X (receiver_mem M r)))"
    using n users_split[of X M h r] by simp_all
qed

lemma others_None:
  assumes "accounted X outside M" "others X M r c = None"
  shows "outside c = 0"
    "remote_entries (remotes_lib X) (remotes M) c = Some (h, n) \<Longrightarrow> n = of_bool (r \<in> receivers X M \<and> h \<in> tracked X (receiver_mem M r)) \<and> other_users X M r h = 0"
proof -
  have n: "outside c = 0 \<and> n = of_bool (r \<in> receivers X M \<and> h \<in> tracked X (receiver_mem M r)) \<and> other_users X M r h = 0"
    if e: "remote_entries (remotes_lib X) (remotes M) c = Some (h, n)" for h n
  proof -
    have "n - of_bool (r \<in> receivers X M \<and> h \<in> tracked X (receiver_mem M r)) = 0"
      using assms(2) e by (cases "r \<in> receivers X M \<and> h \<in> tracked X (receiver_mem M r)") (auto simp: others_def Let_def split: if_splits)
    then show ?thesis using accountedD(2)[OF assms(1) e] users_split[of X M h r] by linarith
  qed
  show "remote_entries (remotes_lib X) (remotes M) c = Some (h, n) \<Longrightarrow>
      n = of_bool (r \<in> receivers X M \<and> h \<in> tracked X (receiver_mem M r)) \<and> other_users X M r h = 0"
    using n by blast
  show "outside c = 0"
  proof (cases "remote_entries (remotes_lib X) (remotes M) c")
    case None
    then show ?thesis by (rule accountedD(1)[OF assms(1)])
  next
    case (Some p)
    then show ?thesis using n[of "fst p" "snd p"] by simp
  qed
qed

lemma shared_others:
  assumes L: "receiver_laws X W" and inv: "receivers_inv X W outside M"
  shows "shared (others X M r) (remote_entries (remotes_lib X) (remotes M))
    (if r \<in> receivers X M then tracked X (receiver_mem M r) else {})"
proof -
  note A = receivers_invD(3)[OF inv]
  have table: "remote_laws (remotes_lib X) (wf_cids W) (wf_handles W) \<and>
      remote_inv (remotes_lib X) (wf_cids W) (wf_handles W) (remotes M)"
    using receiver_lawsD(1)[OF L] receivers_invD(4)[OF inv] by blast
  let ?S = "if r \<in> receivers X M then tracked X (receiver_mem M r) else {}"
  have S: "h \<in> ?S \<longleftrightarrow> r \<in> receivers X M \<and> h \<in> tracked X (receiver_mem M r)" for h by simp
  show ?thesis
    unfolding shared_def
  proof (intro conjI allI ballI)
    fix c
    show "case others X M r c of
            Some (h, m) \<Rightarrow> 0 < m \<and> remote_entries (remotes_lib X) (remotes M) c = Some (h, m + of_bool (h \<in> ?S))
          | None \<Rightarrow> (\<forall>h n. remote_entries (remotes_lib X) (remotes M) c = Some (h, n) \<longrightarrow> n = 1 \<and> h \<in> ?S)"
    proof (cases "others X M r c")
      case None
      have "n = 1 \<and> h \<in> ?S" if e: "remote_entries (remotes_lib X) (remotes M) c = Some (h, n)" for h n
        using others_None(2)[OF A None e] remote_sources.entry_valid[OF table e] unfolding S by (auto split: if_splits)
      then show ?thesis using None by simp
    next
      case (Some p)
      then show ?thesis using others_Some[OF A, of r c "fst p" "snd p"] unfolding S by auto
    qed
  next
    fix h assume "h \<in> ?S"
    then show "\<exists>c n. remote_entries (remotes_lib X) (remotes M) c = Some (h, n)"
      unfolding S using accountedD(3)[OF A] by blast
  qed
qed

lemma module_sources_ok:
  assumes "receiver_laws X W" "receivers_inv X W outside M" "r \<in> receivers X M"
  shows "sources_ok X W (others X M r) (receiver_mem M r) (remotes M)"
  using shared_others[OF assms(1,2), of r] receivers_invD(4,7)[OF assms(2)] assms(3) by (simp add: sources_ok_def)

text \<open>
  The accounts after an operation on receiver \<open>r\<close>: the receivers \<open>rs\<close> other than \<open>r\<close> are as before,
  \<open>S\<close> is what \<open>r\<close> tracks now (nothing if it is gone).
\<close>

lemma accounted_change:
  assumes L: "receiver_laws X W" and inv: "receivers_inv X W outside M"
    and T': "remote_inv (remotes_lib X) (wf_cids W) (wf_handles W) (remotes M')"
      "shared (others X M r) (remote_entries (remotes_lib X) (remotes M')) S"
    and rs: "receivers X M' - {r} = receivers X M - {r}"
      "\<And>s. s \<in> receivers X M - {r} \<Longrightarrow> tracked X (receiver_mem M' s) = tracked X (receiver_mem M s)"
    and S: "S = (if r \<in> receivers X M' then tracked X (receiver_mem M' r) else {})"
  shows "accounted X outside M'"
proof -
  note A = receivers_invD(3)[OF inv]
  have table: "remote_laws (remotes_lib X) (wf_cids W) (wf_handles W) \<and>
      remote_inv (remotes_lib X) (wf_cids W) (wf_handles W) (remotes M')"
    using receiver_lawsD(1)[OF L] T'(1) by blast
  have same: "other_users X M' r h = other_users X M r h" for h
  proof -
    have "{s \<in> receivers X M'. s \<noteq> r \<and> h \<in> tracked X (receiver_mem M' s)} =
        {s \<in> receivers X M. s \<noteq> r \<and> h \<in> tracked X (receiver_mem M s)}"
      using rs by blast
    then show ?thesis by (simp add: other_users_def)
  qed
  have users': "users X M' h = other_users X M r h + of_bool (h \<in> S)" for h
    using users_split[of X M' h r] same[of h] S by simp
  have kept: "\<exists>c n. others X M r c = Some (h, n)" 
    if s: "s \<in> receivers X M" "s \<noteq> r" "h \<in> tracked X (receiver_mem M s)" for s h
  proof -
    obtain c n where c: "remote_entries (remotes_lib X) (remotes M) c = Some (h, n)" using accountedD(3)[OF A s(1,3)] by blast
    have "s \<in> {s \<in> receivers X M. s \<noteq> r \<and> h \<in> tracked X (receiver_mem M s)}" using s by blast
    then have pos: "0 < other_users X M r h" unfolding other_users_def by (intro card_gt_0_iff[THEN iffD2]) auto
    have "others X M r c \<noteq> None" using others_None(2)[OF A _ c] pos by force
    moreover from this have "\<exists>m. others X M r c = Some (h, m)"
      using c by (auto simp: others_def Let_def split: if_splits)
    ultimately show ?thesis by blast
  qed
  show ?thesis
    unfolding accounted_def
  proof (intro conjI allI ballI)
    fix c
    show "case remote_entries (remotes_lib X) (remotes M') c of
            None \<Rightarrow> outside c = 0
          | Some (h, n) \<Rightarrow> n = outside c + users X M' h"
    proof (cases "others X M r c")
      case None
      note n = others_None(1)[OF A None]
      have "n = outside c + users X M' h" if e: "remote_entries (remotes_lib X) (remotes M') c = Some (h, n)" for h n
      proof -
        have one: "n = 1" "h \<in> S" using sharedD(2)[OF T'(2) None e] by simp_all
        have "other_users X M r h = 0"
        proof (rule ccontr)
          assume "other_users X M r h \<noteq> 0"
          then have "{s \<in> receivers X M. s \<noteq> r \<and> h \<in> tracked X (receiver_mem M s)} \<noteq> {}"
            unfolding other_users_def by force
          then obtain d m where d: "others X M r d = Some (h, m)" using kept by blast
          then have "remote_entries (remotes_lib X) (remotes M') d = Some (h, m + of_bool (h \<in> S))"
            using sharedD(1)[OF T'(2)] by blast
          then have "d = c" using remote_sources.entry_unique[OF table] e by blast
          then show False using d None by simp
        qed
        then show ?thesis using one n users' by simp
      qed
      then show ?thesis using n by (auto split: option.split)
    next
      case (Some p)
      obtain h m where p: "others X M r c = Some (h, m)" using Some by (cases p) auto
      show ?thesis using sharedD(1)[OF T'(2) p] others_Some(1)[OF A p] users' by simp
    qed
  next
    fix s h assume s: "s \<in> receivers X M'" "h \<in> tracked X (receiver_mem M' s)"
    show "\<exists>c n. remote_entries (remotes_lib X) (remotes M') c = Some (h, n)"
    proof (cases "s = r")
      case True
      then show ?thesis using sharedD(3)[OF T'(2), of h] s S by simp
    next
      case False
      then have "s \<in> receivers X M" "h \<in> tracked X (receiver_mem M s)" using s rs by blast+
      then show ?thesis using kept[OF _ False] sharedD(1)[OF T'(2)] by blast
    qed
  qed
qed

section \<open>An operation on one receiver\<close>

lemma put_receiver_simps [simp]:
  "handle_tree_of_receivers (put_receiver R M) = handle_tree_of_receivers M"
  "universe_tree_of_receivers (put_receiver R M) = universe_tree_of_receivers M"
  "universe_receiver (put_receiver R M) = universe_receiver M" "contexts (put_receiver R M) = contexts M"
  "loss (put_receiver R M) = loss M" "remotes (put_receiver R M) = remotes M"
  "receivers X (put_receiver R M) = receivers X M" "receiver_universes X (put_receiver R M) = receiver_universes X M"
  "receiver_sys_netints (put_receiver R M) = receiver_sys_netints M" "receiver_handle_mgr (put_receiver R M) = receiver_handle_mgr M"
  "expired_wait (put_receiver R M) = expired_wait M"
  by (simp_all add: put_receiver_def receivers_def receiver_universes_def)

lemma receivers_updates [simp]:
  "receivers X (M\<lparr>loss := st\<rparr>) = receivers X M" "receivers X (M\<lparr>remotes := T\<rparr>) = receivers X M"
  "receivers X (M\<lparr>contexts := cs\<rparr>) = receivers X M" "receivers X (M\<lparr>receiver_mem := mem\<rparr>) = receivers X M"
  "receivers X (M\<lparr>receiver_handle_mgr := m\<rparr>) = receivers X M" "receivers X (M\<lparr>receiver_sys_netints := ns\<rparr>) = receivers X M"
  "receivers X (M\<lparr>expired_wait := w\<rparr>) = receivers X M" "receivers X (M\<lparr>universe_receiver := f\<rparr>) = receivers X M"
  "receivers X (M\<lparr>universe_tree_of_receivers := c\<rparr>) = receivers X M"
  "receiver_universes X (M\<lparr>loss := st\<rparr>) = receiver_universes X M" "receiver_universes X (M\<lparr>remotes := T\<rparr>) = receiver_universes X M"
  "receiver_universes X (M\<lparr>contexts := cs\<rparr>) = receiver_universes X M"
  "receiver_universes X (M\<lparr>receiver_mem := mem\<rparr>) = receiver_universes X M"
  "receiver_universes X (M\<lparr>receiver_handle_mgr := m\<rparr>) = receiver_universes X M"
  "receiver_universes X (M\<lparr>receiver_sys_netints := ns\<rparr>) = receiver_universes X M"
  "receiver_universes X (M\<lparr>expired_wait := w\<rparr>) = receiver_universes X M"
  "receiver_universes X (M\<lparr>universe_receiver := f\<rparr>) = receiver_universes X M"
  "receiver_universes X (M\<lparr>handle_tree_of_receivers := t\<rparr>) = receiver_universes X M"
  by (simp_all add: receivers_def receiver_universes_def)

lemma receiver_mem_put: "receiver_mem (put_receiver R M) r = (if r = receiver_handle R then R else receiver_mem M r)"
  by (simp add: put_receiver_def)

text \<open>What the rest of the module sees of a step on a receiver of universe \<open>u\<close>.\<close>

definition loss_frame ::
    "('cid, 't, 'c, 'm, 'k, 'n, 'h) receiver_ext \<Rightarrow> ('t, 'c, 'k, 'n, 'h) tree_wf \<Rightarrow> u16 \<Rightarrow> 'k loss_state \<Rightarrow> 'k loss_state \<Rightarrow> bool" where
  "loss_frame X W u st st' \<longleftrightarrow> wf_sets W (term_set_sources st') \<and>
     (\<forall>k. snd k \<noteq> u \<longrightarrow> (k \<in> pending X st' \<longleftrightarrow> k \<in> pending X st) \<and> (k \<in> pending X st \<longrightarrow> ts_mem st' k = ts_mem st k))"

lemma loss_frame_refl: "wf_sets W (term_set_sources st) \<Longrightarrow> loss_frame X W u st st"
  by (simp add: loss_frame_def)

lemma loss_frame_trans: "loss_frame X W u a b \<Longrightarrow> loss_frame X W u b c \<Longrightarrow> loss_frame X W u a c"
  by (simp add: loss_frame_def)

lemma pending_ok_frame:
  assumes "pending_ok X W R st" "loss_frame X W u st st'" "receiver_universe R \<noteq> u"
  shows "pending_ok X W R st'"
  by (rule pending_ok_other[OF assms(1)]) (use assms(2,3) in \<open>auto simp: loss_frame_def\<close>)

lemma module_put:
  assumes L: "receiver_laws X W" and inv: "receivers_inv X W outside M" and r: "receiver_handle R \<in> receivers X M"
    and same: "receiver_universe R = receiver_universe (receiver_mem M (receiver_handle R))"
      "receiver_thread R = receiver_thread (receiver_mem M (receiver_handle R))"
    and ok: "sources_ok X W (others X M (receiver_handle R)) R T" "pending_ok X W R st" "sampling_ok X W R"
    and frame: "loss_frame X W (receiver_universe R) (loss M) st"
  shows "receivers_inv X W outside (put_receiver R (M\<lparr>loss := st, remotes := T\<rparr>))"
proof -
  let ?M = "put_receiver R (M\<lparr>loss := st, remotes := T\<rparr>)"
  let ?r = "receiver_handle R" and ?u = "receiver_universe R"
  note K = receivers_invD(1)[OF inv]
  have sets: "receivers X ?M = receivers X M" "receiver_universes X ?M = receiver_universes X M"
    by (simp_all add: receivers_def receiver_universes_def)
  have mem: "receiver_mem ?M s = (if s = ?r then R else receiver_mem M s)" for s by (simp add: receiver_mem_put)
  have univ: "receiver_universe (receiver_mem M s) \<noteq> ?u" if "s \<in> receivers X M" "s \<noteq> ?r" for s
    using keyedD(6)[OF K that(1)] keyedD(6)[OF K r] that(2) same(1) by auto
  have keyed: "keyed X W ?M"
    using K r same(1) unfolding keyed_def sets mem by auto
  have threads: "threads_ok X ?M"
    using receivers_invD(2)[OF inv] same(2) unfolding threads_ok_def sets mem by auto
  have account: "accounted X outside ?M"
    by (rule accounted_change[OF L inv, of ?M ?r "tracked X R"])
       (use sources_okD(2,3)[OF ok(1)] r in \<open>auto simp: sets mem\<close>)
  have recv: "sources_wf X W (receiver_mem ?M s) \<and> pending_ok X W (receiver_mem ?M s) st \<and> sampling_ok X W (receiver_mem ?M s)"
    if s: "s \<in> receivers X M" for s
  proof (cases "s = ?r")
    case True
    then show ?thesis using ok sources_okD(1)[OF ok(1)] by (simp add: mem)
  next
    case False
    have "pending_ok X W (receiver_mem M s) st"
      by (rule pending_ok_frame[OF receivers_invD(8)[OF inv s] frame univ[OF s False]])
    then show ?thesis using False receivers_invD(7,9)[OF inv s] by (simp add: mem)
  qed
  have "snd k \<in> receiver_universes X M" if "k \<in> pending X st" for k
  proof (cases "snd k = ?u")
    case True
    then show ?thesis using keyedD(5)[OF K r] same(1) by simp
  next
    case False
    then show ?thesis using frame that receivers_invD(6)[OF inv] unfolding loss_frame_def by blast
  qed
  then show ?thesis
    using keyed threads account recv sources_okD(2)[OF ok(1)] frame
    by (simp add: receivers_inv_def sets loss_frame_def)
qed

text \<open>A change of the receiver alone.\<close>

lemma module_put_same:
  assumes "receiver_laws X W" "receivers_inv X W outside M" "receiver_handle R \<in> receivers X M"
    and "receiver_universe R = receiver_universe (receiver_mem M (receiver_handle R))"
      "receiver_thread R = receiver_thread (receiver_mem M (receiver_handle R))"
    and "sources_ok X W (others X M (receiver_handle R)) R (remotes M)" "pending_ok X W R (loss M)" "sampling_ok X W R"
  shows "receivers_inv X W outside (put_receiver R M)"
  using module_put[OF assms(1-5) assms(6,7,8) loss_frame_refl[OF receivers_invD(5)[OF assms(2)]]] by simp

text \<open>Fields that the invariant does not read.\<close>

lemma receivers_inv_cong:
  assumes "receivers_inv X W outside M" "handle_tree_of_receivers M' = handle_tree_of_receivers M"
    "universe_tree_of_receivers M' = universe_tree_of_receivers M" "universe_receiver M' = universe_receiver M"
    "receiver_mem M' = receiver_mem M" "contexts M' = contexts M" "loss M' = loss M" "remotes M' = remotes M"
  shows "receivers_inv X W outside M'"
proof -
  have sets: "receivers X M' = receivers X M" "receiver_universes X M' = receiver_universes X M" "users X M' = users X M"
    using assms(2-) by (simp_all add: fun_eq_iff users_def receivers_def receiver_universes_def)
  show ?thesis
    using assms(1) unfolding receivers_inv_def keyed_def threads_ok_def accounted_def sets assms(2-) .
qed

end
