(* ===== verification/Spec2Isabelle.thy ===== *)
theory Spec2Isabelle
  imports DmxMergerProps SacnCommon SourceLossProps DmxPluginProps PduProps SourceProps
    DetectorProps DetectorSystem ReceiverModule
begin

text \<open>
  ChucK-DMX: a ChucK plugin that drives DMX lighting over serial ports, sACN (ANSI E1.31) and
  Art-Net. The development models the plugin and the parts of the sACN library it is built on.

  \<^bold>\<open>The program and its parts.\<close> A ChucK program holds plugin objects (\<open>src/DMX.cpp\<close>, class \<open>DMX\<close>). An
  object keeps universes of 512 channels with running fades and sends them with one protocol. All
  objects of a process share the sACN library, counted by \<open>sacn_ref_count\<close>; the library's
  features are counted once more in \<open>src/sACN/src/sacn/common.c\<close>. For sACN an object drives a source
  of the library (\<open>source.c\<close>, \<open>source_state.c\<close>), whose universes keep packets ready in send buffers
  (\<open>pdu.c\<close>) that a thread transmits. On the receiving side packets are parsed (\<open>pdu.c\<close>), sources
  that disappear are tracked (\<open>source_loss.c\<close>), the levels of several sources are merged
  (\<open>dmx_merger.c\<close>), and the universe discovery pages of all sources are collected
  (\<open>source_detector_state.c\<close>). Sources seen on the network have handles, counted in one table
  (\<open>mem/receiver/remote_source.c\<close>).

  \<^bold>\<open>Theories.\<close>
  \<^item> \<open>Prelude\<close>, \<open>EtcPal\<close>: C integers and block operations, the locales \<open>slotwise\<close> (loops over array
    slots) and \<open>invariant_machine\<close> (operations that keep an invariant); error codes and the
    red-black trees of EtcPal as parameters with laws.
  \<^item> \<open>DmxMerger\<close>, \<open>DmxMergerApi\<close>: \<open>dmx_merger.c\<close>. A merger is a record with the tree of source
    handles, the store of the sources and the output arrays; one definition per C function.
    \<open>DmxMergerSpec\<close> has the reference merge (highest priority, then highest level) and the loops
    slot by slot, \<open>DmxMergerInv\<close>, \<open>DmxMergerPriority\<close>, \<open>DmxMergerModule\<close> the invariant and its
    preservation by every call, \<open>DmxMergerProps\<close> the properties, \<open>DmxMergerExample\<close> concrete mergers.
  \<^item> \<open>SacnCommon\<close>: \<open>common.c\<close>, initialization with its feature counters and the clean up of a failed
    initialization. \<open>MemBuf\<close>: \<open>mem/common.c\<close> and the macros of the growing buffers, with the
    locale \<open>append_buffer\<close>.
  \<^item> \<open>SourceLoss\<close>, \<open>SourceLossProps\<close>: \<open>source_loss.c\<close> and \<open>mem/receiver/sources_lost.c\<close>, termination
    sets of disappeared sources.
  \<^item> \<open>Packing\<close>, \<open>Pdu\<close>, \<open>PduLayers\<close>, \<open>PduProps\<close>: the functions of \<open>pdu.c\<close> and the macros of
    \<open>private/pdu.h\<close> over byte lists with explicit bounds; the layers as closed expressions; round
    trips and bounds of the parsers.
  \<^item> \<open>SourceState\<close>, \<open>SourceApi\<close>: \<open>source_state.c\<close>, \<open>mem/source\<close> and \<open>source.c\<close>: state, ticks, termination,
    universe discovery, the functions of the API and the thread. \<open>SourceSends\<close> describes what the
    sending functions do; \<open>SourceInv\<close>, \<open>SourceTick\<close>, \<open>SourceModule\<close>, \<open>SourceDiscovery\<close>, \<open>SourcePool\<close>,
    \<open>SourceCalls\<close> the invariant of buffers, universes, sources and the pool, kept by ticks and calls;
    \<open>SourceTicks\<close>, \<open>SourcePages\<close>, \<open>SourceLevels\<close> successive ticks, the pages of discovery and the
    contents of the buffers; \<open>SourceRun\<close> sequences of calls and the thread; \<open>SourceProps\<close> the
    properties, \<open>SourceExample\<close> a concrete source.
  \<^item> \<open>RemoteSource\<close>: \<open>mem/receiver/remote_source.c\<close>, with the locale \<open>handle_table\<close> and its interpretation.
  \<^item> \<open>Detector\<close>, \<open>DetectorApi\<close>: \<open>source_detector_state.c\<close>, \<open>mem/source_detector\<close> and
    \<open>source_detector.c\<close>: pages, expiry and the functions of the API. \<open>DetectorPages\<close>, \<open>DetectorInv\<close>,
    \<open>DetectorExpiry\<close> have the invariant and what a page and a tick do, \<open>DetectorSequence\<close> whole
    sequences of pages, \<open>DetectorRun\<close> sequences of calls, \<open>DetectorLimits\<close> what happens when a limit is
    exceeded, \<open>DetectorProps\<close> the properties, \<open>DetectorExample\<close> a concrete detector. \<open>DetectorSystem\<close>
    puts a detector at the receiving end of a source.
  \<^item> \<open>Receiver\<close>, \<open>ReceiverNetints\<close>, \<open>ReceiverPackets\<close>, \<open>ReceiverTick\<close>, \<open>ReceiverApi\<close>: \<open>receiver.c\<close>,
    \<open>receiver_state.c\<close>, \<open>mem/receiver\<close> and the choice of network interfaces in \<open>sockets.c\<close>: sources and
    sampling periods, data packets, ticks, the functions of the API. \<open>LossNames\<close> has what the receiver
    relies on in \<open>source_loss.c\<close>, \<open>ReceiverInv\<close>, \<open>ReceiverModule\<close> the invariant of one receiver and of all.
  \<^item> \<open>DmxUniverse\<close>, \<open>DmxPlugin\<close>, \<open>DmxChugin\<close>, \<open>DmxProcess\<close>: \<open>DMX.cpp\<close>: universes and fades, the methods of
    the class, the functions ChucK calls, and a process of objects that share the library.
    \<open>DmxPluginInv\<close> has the invariants, \<open>DmxPluginProps\<close> the properties.

  \<^bold>\<open>State and operations.\<close> A C struct is a record with the fields of the source, an array with its
  count a list, a pointer into an array an index, a node of a tree its key. Functions take the state
  and give it back with their result; integers keep their width where they can wrap. Calls of code
  that is not part of the repository are results in an environment record (\<open>call_env\<close>,
  \<open>loss_ext\<close>, \<open>api_env\<close>, \<open>source_env\<close>, \<open>dmx_platform\<close>), different for every call, and calls to the
  network are collected in a list. Memory accesses outside a buffer and loops that do not end
  are the value \<open>None\<close>, so that a theorem that states \<open>Some\<close> states safety and termination.

  \<^bold>\<open>What is shown.\<close>
  \<^item> The output of a merger is, after any sequence of calls, the merge of its sources' levels and
    priorities, computed incrementally; every call has the stated result and effect.
  \<^item> The parts of the library that run are those of the features with a positive counter; failed
    initializations are undone; termination sets partition the disappeared sources.
  \<^item> Packets are read back to what was written, parsers stay in bounds (or exactly when not).
  \<^item> Any sequence of calls of the source API and ticks keeps every packet in the buffers well formed,
    universes ordered and counted; transmission follows the suppression schedule with consecutive
    sequence numbers; discovery announces exactly the active universes; the thread ends. A failing
    interface starves the unicast destinations.
  \<^item> Without limits on the universes and as long as memory can be had, the packets that announce more
    universes than they hold are the only calls of the source detector that leave an array; it
    notifies exactly the changed ascending lists and the expired sources, and learns the universes of
    a source from its pages; with limits it reads outside its array and repeats notifications.
  \<^item> Plugin objects stay well formed, the library runs exactly while it is used, fades stay between
    their ends, sending transmits the universes.

  \<^bold>\<open>Bounds and fuel.\<close> Merger slots are a parameter (512 in the code), universes of the plugin have
  513 bytes, data packets 638 and discovery packets 1144 bytes. \<open>discovery_pages\<close> has fuel
  \<open>Suc (length (universes s))\<close>: every page but the last handles a universe, and the runs are shown
  to return. \<open>sacn_mem_grow_capacity\<close> has no fuel: it is a partial function that is \<open>None\<close> where the loop
  does not end; it returns from every positive capacity when at most \<open>2 ^ 63\<close> is requested. The thread
  runs over a list of its passes and needs at most \<open>4 + 3 * d\<close> of them.

  \<^bold>\<open>Not modelled.\<close> Calls are sequential: mutexes are modelled only as locks that may not be
  obtained, threads as passes of their loops. Logging, statistics output, status lists of network
  interfaces and debug output have no effect on the state and are left out. The sockets, timers,
  network interfaces and memory of EtcPal, libartnet and the serial library are environments. The
  loop of a receive thread and the merge receiver are not modelled; exceptions
  thrown outside the \<open>try\<close> blocks of the plugin (one from \<open>AddUniverse\<close> is treated like an error
  there), the C++ wrappers of the library, tests and the headers of ChucK are not modelled. Feature
  counters and the channel numbers of a fade are unbounded where the code has \<open>int\<close>; the names that
  status lists of sources point to are copied.
\<close>

end
